(* ===== verification/Prelude.thy ===== *)
theory Prelude imports Main "HOL-Library.Word" "HOL-Library.Char_ord" begin

text \<open>
  Shared vocabulary of the development: machine-integer synonyms, the association lists that stand
  for \<open>std::map\<close> and \<open>std::unordered_map\<close>, and the string routines of the C++ and Qt libraries that
  the program calls.  The theorem collections \<open>assoc\<close> and \<open>str\<close> gather what the
  component theories rewrite with.
\<close>

named_theorems assoc "facts about association lists used as maps"
named_theorems str "facts about the string routines"

subsection \<open>Association lists as maps\<close>

text \<open>
  A \<open>std::map\<close> is an association list in strictly increasing key order, so that iterating the list
  is iterating the map.  A \<open>std::unordered_map\<close> has the same representation, but its iteration order
  is not specified by C++: code that iterates one takes an extra argument that reorders the keys.
\<close>

fun aput :: "'k::linorder \<Rightarrow> 'v \<Rightarrow> ('k \<times> 'v) list \<Rightarrow> ('k \<times> 'v) list" where
  "aput k v [] = [(k, v)]"
| "aput k v ((k', v') # m) =
     (if k < k' then (k, v) # (k', v') # m
      else if k = k' then (k, v) # m
      else (k', v') # aput k v m)"

definition adel :: "'k \<Rightarrow> ('k \<times> 'v) list \<Rightarrow> ('k \<times> 'v) list" where
  "adel k m = filter (\<lambda>kv. fst kv \<noteq> k) m"

definition ahas :: "('k \<times> 'v) list \<Rightarrow> 'k \<Rightarrow> bool" where
  "ahas m k \<longleftrightarrow> map_of m k \<noteq> None"

definition keys_sorted :: "('k::linorder \<times> 'v) list \<Rightarrow> bool" where
  "keys_sorted m \<longleftrightarrow> sorted_wrt (<) (map fst m)"

text \<open>\<open>emplace\<close> keeps the old value when the key is taken.\<close>

definition aemplace :: "'k::linorder \<Rightarrow> 'v \<Rightarrow> ('k \<times> 'v) list \<Rightarrow> ('k \<times> 'v) list" where
  "aemplace k v m = (if ahas m k then m else aput k v m)"

lemma map_of_aput [simp, assoc]: "map_of (aput k v m) = (map_of m)(k \<mapsto> v)"
  by (induction k v m rule: aput.induct) (auto simp: fun_eq_iff)

lemma map_of_adel [simp, assoc]: "map_of (adel k m) = (map_of m)(k := None)"
  by (induction m) (auto simp: adel_def fun_eq_iff)

lemma ahas_aput [simp, assoc]: "ahas (aput k v m) k' \<longleftrightarrow> k' = k \<or> ahas m k'"
  by (auto simp: ahas_def)

lemma ahas_adel [simp, assoc]: "ahas (adel k m) k' \<longleftrightarrow> k' \<noteq> k \<and> ahas m k'"
  by (auto simp: ahas_def)

lemma ahas_Nil [simp, assoc]: "ahas [] k \<longleftrightarrow> False"
  by (simp add: ahas_def)

lemma ahas_iff_keys: "ahas m k \<longleftrightarrow> k \<in> fst ` set m"
  by (auto simp: ahas_def map_of_eq_None_iff)

lemma ahas_Some [assoc]: "map_of m k = Some v \<Longrightarrow> ahas m k"
  by (simp add: ahas_def)

lemma set_keys_aput [simp, assoc]: "fst ` set (aput k v m) = insert k (fst ` set m)"
  by (induction k v m rule: aput.induct) auto

lemma set_keys_adel [simp, assoc]: "fst ` set (adel k m) = fst ` set m - {k}"
  by (auto simp: adel_def)

lemma keys_sorted_Nil [simp, assoc]: "keys_sorted []"
  by (simp add: keys_sorted_def)

lemma keys_sorted_aput [simp, assoc]: "keys_sorted m \<Longrightarrow> keys_sorted (aput k v m)"
proof (induction k v m rule: aput.induct)
  case (2 k v k' v' m)
  have "fst ` set (aput k v m) = insert k (fst ` set m)" by simp
  then have keys: "\<And>x. x \<in> set (map fst (aput k v m)) \<longleftrightarrow> x = k \<or> x \<in> set (map fst m)"
    by auto
  from 2 show ?case by (auto simp: keys_sorted_def keys simp del: set_map)
qed (simp add: keys_sorted_def)

lemma keys_sorted_adel [simp, assoc]: "keys_sorted m \<Longrightarrow> keys_sorted (adel k m)"
  by (induction m) (auto simp: keys_sorted_def adel_def)

lemma keys_sorted_filter [simp]: "keys_sorted t \<Longrightarrow> keys_sorted (filter P t)"
  by (induction t) (auto simp: keys_sorted_def)

lemma keys_sorted_distinct [assoc]: "keys_sorted m \<Longrightarrow> distinct (map fst m)"
  by (induction m) (auto simp: keys_sorted_def)

lemma map_of_aemplace [simp, assoc]:
  "map_of (aemplace k v m) = (if ahas m k then map_of m else (map_of m)(k \<mapsto> v))"
  by (simp add: aemplace_def)

lemma ahas_aemplace [simp, assoc]: "ahas (aemplace k v m) k' \<longleftrightarrow> k' = k \<or> ahas m k'"
  by (auto simp: aemplace_def)

lemma keys_sorted_aemplace [simp, assoc]: "keys_sorted m \<Longrightarrow> keys_sorted (aemplace k v m)"
  by (simp add: aemplace_def)

lemma aput_fresh_set: "\<not> ahas m k \<Longrightarrow> set (aput k v m) = insert (k, v) (set m)"
  by (induction k v m rule: aput.induct) (auto simp: ahas_def split: if_splits)

end
