(* ===== verification/SipTypes.thy ===== *)
theory SipTypes imports Complex_Main Prelude begin

text \<open>
  The value types of \<open>core/sipbackend/Types.h\<close>, \<open>core/Account.h\<close>, \<open>core/CallEntry.h\<close>,
  \<open>core/HistoryEntry.h\<close>, \<open>core/WatchedLine.h\<close> and \<open>core/TransferTracker.h\<close>'s neighbours, the
  string conversions of \<open>core/Account.cpp\<close> and \<open>core/CallEntry.cpp\<close>, and the two abstract
  interfaces the core is written against: \<open>ISipBackend\<close> and \<open>IKeychain\<close>, each a record of functions
  (its method table) with a locale that states what its clients rely on.

  Identifiers are \<open>std::int32_t\<close> counters in the source; they are minted by incrementing from 1
  and are modelled as \<open>int\<close>.  Strings are byte strings.  \<open>double\<close> values are rationals.
\<close>

type_synonym account_id = int
type_synonym call_id = int
type_synonym watch_id = int
type_synonym backend_account_id = int

definition kInvalidAccountId :: account_id where "kInvalidAccountId = -1"
definition kInvalidCallId :: call_id where "kInvalidCallId = -1"
definition kInvalidWatchId :: watch_id where "kInvalidWatchId = -1"

lemmas invalid_id_defs = kInvalidAccountId_def kInvalidCallId_def kInvalidWatchId_def

datatype call_state = Idle | Calling | EarlyMedia | Confirmed | Disconnected

datatype presence_state = PsUnknown | PsIdle | PsBusy | PsOffline

text \<open>
  \<open>core/Account.h\<close> and \<open>sipbackend/Types.h\<close> declare these three enums twice, with the same
  enumerators in the same order; the \<open>static_cast\<close>s between the copies are the identity.
\<close>

datatype transport = Udp | Tcp | Tls
datatype srtp_mode = SrtpDisabled | SrtpOptional | SrtpRequired
datatype dtmf_method = DtmfInband | DtmfRfc2833 | DtmfInfo

record audio_device =
  ad_id :: int
  ad_name :: string
  ad_inputCount :: int
  ad_outputCount :: int

record stream_stats =
  ss_mos :: rat
  ss_lossPct :: rat
  ss_rttMs :: int
  ss_jitterMs :: int

definition no_stream_stats :: stream_stats where
  "no_stream_stats = \<lparr>ss_mos = -1, ss_lossPct = -1, ss_rttMs = -1, ss_jitterMs = -1\<rparr>"

record ca_trust =
  ct_caFile :: string
  ct_caPem :: string

record account_settings =
  as_displayName :: string
  as_username :: string
  as_domain :: string
  as_authUser :: string
  as_authRealm :: string
  as_password :: string
  as_transport :: transport
  as_proxy :: string
  as_publicAddress :: string
  as_registerIntervalSec :: int
  as_keepaliveIntervalSec :: int
  as_sessionTimersEnabled :: bool
  as_publishPresenceEnabled :: bool
  as_iceEnabled :: bool
  as_hideCallerId :: bool
  as_zrtpEnabled :: bool
  as_srtpMode :: srtp_mode
  as_allowUntrustedCert :: bool
  as_dtmfMethod :: dtmf_method
  as_useStun :: bool

subsection \<open>Accounts\<close>

record account =
  acc_id :: account_id
  acc_label :: string
  acc_provider :: string
  acc_displayName :: string
  acc_username :: string
  acc_domain :: string
  acc_authUser :: string
  acc_authRealm :: string
  acc_passwordRef :: string
  acc_transport :: transport
  acc_proxy :: string
  acc_stunServer :: string
  acc_publicAddress :: string
  acc_codecs :: string
  acc_voicemailNumber :: string
  acc_registerOnStartup :: bool
  acc_registerIntervalSec :: int
  acc_keepaliveIntervalSec :: int
  acc_sessionTimersEnabled :: bool
  acc_publishPresenceEnabled :: bool
  acc_iceEnabled :: bool
  acc_hideCallerId :: bool
  acc_zrtpEnabled :: bool
  acc_srtpMode :: srtp_mode
  acc_allowUntrustedCert :: bool
  acc_dtmfMethod :: dtmf_method
  acc_isDefault :: bool
  acc_enabled :: bool
  acc_sortOrder :: int

text \<open>The field initialisers of \<open>struct Account\<close>.\<close>

definition default_account :: account where
  "default_account = \<lparr>
     acc_id = kInvalidAccountId, acc_label = [], acc_provider = [], acc_displayName = [],
     acc_username = [], acc_domain = [], acc_authUser = [], acc_authRealm = [],
     acc_passwordRef = [], acc_transport = Udp, acc_proxy = [], acc_stunServer = [],
     acc_publicAddress = [], acc_codecs = [], acc_voicemailNumber = [],
     acc_registerOnStartup = True, acc_registerIntervalSec = 0, acc_keepaliveIntervalSec = 0,
     acc_sessionTimersEnabled = True, acc_publishPresenceEnabled = False,
     acc_iceEnabled = False, acc_hideCallerId = False, acc_zrtpEnabled = False,
     acc_srtpMode = SrtpOptional, acc_allowUntrustedCert = False,
     acc_dtmfMethod = DtmfRfc2833, acc_isDefault = False, acc_enabled = True,
     acc_sortOrder = 0\<rparr>"

fun transportToString :: "transport \<Rightarrow> string" where
  "transportToString Udp = ''udp''"
| "transportToString Tcp = ''tcp''"
| "transportToString Tls = ''tls''"

definition transportFromString :: "string \<Rightarrow> transport" where
  "transportFromString s =
     (if s = ''tcp'' then Tcp else if s = ''tls'' then Tls else Udp)"

fun srtpModeToString :: "srtp_mode \<Rightarrow> string" where
  "srtpModeToString SrtpDisabled = ''disabled''"
| "srtpModeToString SrtpOptional = ''optional''"
| "srtpModeToString SrtpRequired = ''required''"

definition srtpModeFromString :: "string \<Rightarrow> srtp_mode" where
  "srtpModeFromString s =
     (if s = ''disabled'' then SrtpDisabled
      else if s = ''required'' \<or> s = ''mandatory'' then SrtpRequired
      else SrtpOptional)"

fun dtmfMethodToString :: "dtmf_method \<Rightarrow> string" where
  "dtmfMethodToString DtmfInband = ''inband''"
| "dtmfMethodToString DtmfRfc2833 = ''rfc2833''"
| "dtmfMethodToString DtmfInfo = ''info''"

definition dtmfMethodFromString :: "string \<Rightarrow> dtmf_method" where
  "dtmfMethodFromString s =
     (if s = ''inband'' then DtmfInband else if s = ''info'' then DtmfInfo else DtmfRfc2833)"

lemma transport_string_roundtrip [simp]: "transportFromString (transportToString t) = t"
  by (cases t) (simp_all add: transportFromString_def)

lemma srtp_string_roundtrip [simp]: "srtpModeFromString (srtpModeToString m) = m"
  by (cases m) (simp_all add: srtpModeFromString_def)

lemma dtmf_string_roundtrip [simp]: "dtmfMethodFromString (dtmfMethodToString m) = m"
  by (cases m) (simp_all add: dtmfMethodFromString_def)

subsection \<open>Calls and history\<close>

datatype call_direction = Outbound | Inbound

record call_entry =
  ce_id :: call_id
  ce_accountId :: account_id
  ce_remoteUri :: string
  ce_remoteDisplayName :: string
  ce_state :: call_state
  ce_held :: bool
  ce_muted :: bool
  ce_recording :: bool
  ce_direction :: call_direction

definition default_call_entry :: call_entry where
  "default_call_entry = \<lparr>ce_id = kInvalidCallId, ce_accountId = kInvalidAccountId,
     ce_remoteUri = [], ce_remoteDisplayName = [], ce_state = Idle, ce_held = False,
     ce_muted = False, ce_recording = False, ce_direction = Outbound\<rparr>"

fun callDirectionToString :: "call_direction \<Rightarrow> string" where
  "callDirectionToString Inbound = ''in''"
| "callDirectionToString Outbound = ''out''"

fun callStateToCString :: "call_state \<Rightarrow> string" where
  "callStateToCString Idle = ''idle''"
| "callStateToCString Calling = ''calling''"
| "callStateToCString EarlyMedia = ''early''"
| "callStateToCString Confirmed = ''active''"
| "callStateToCString Disconnected = ''disconnected''"

record history_entry =
  he_id :: int
  he_accountId :: account_id
  he_direction :: call_direction
  he_remoteUri :: string
  he_remoteDisplayName :: string
  he_startedAt :: int
  he_durationMs :: int
  he_endReason :: string

definition default_history_entry :: history_entry where
  "default_history_entry = \<lparr>he_id = -1, he_accountId = kInvalidAccountId,
     he_direction = Outbound, he_remoteUri = [], he_remoteDisplayName = [],
     he_startedAt = 0, he_durationMs = 0, he_endReason = []\<rparr>"

subsection \<open>Events the backend delivers to its listener (\<open>ISipBackendListener\<close>)\<close>

datatype listener_event =
    OnRegState backend_account_id bool int string
  | OnIncomingCall backend_account_id call_id string string
  | OnCallState call_id call_state int
  | OnMediaState call_id bool bool
  | OnTransferStatus call_id int bool string
  | OnMwi backend_account_id int int bool
  | OnInstantMessage backend_account_id string string
  | OnPresence watch_id presence_state

subsection \<open>The backend interface (\<open>ISipBackend\<close>)\<close>

text \<open>
  The class has only pure virtual methods, so an implementation is a table of functions over its
  state type \<open>'b\<close>.  A method that may change the backend returns the new state.  The listener
  pointer is modelled by whether it is set: the program installs one fanout.  \<open>setLogSink\<close>, which
  stores a callback, is left out.
\<close>

record 'b isip_backend =
  bk_setListener :: "'b \<Rightarrow> bool \<Rightarrow> 'b"
  bk_start :: "'b \<Rightarrow> int \<Rightarrow> bool \<times> 'b"
  bk_stop :: "'b \<Rightarrow> 'b"
  bk_isRunning :: "'b \<Rightarrow> bool"
  bk_setCaTrust :: "'b \<Rightarrow> ca_trust \<Rightarrow> 'b"
  bk_setStunServers :: "'b \<Rightarrow> string list \<Rightarrow> 'b"
  bk_setCodecPriority :: "'b \<Rightarrow> string list \<Rightarrow> 'b"
  bk_audioDevices :: "'b \<Rightarrow> audio_device list"
  bk_captureDevice :: "'b \<Rightarrow> int"
  bk_playbackDevice :: "'b \<Rightarrow> int"
  bk_setCaptureDevice :: "'b \<Rightarrow> int \<Rightarrow> bool \<times> 'b"
  bk_setPlaybackDevice :: "'b \<Rightarrow> int \<Rightarrow> bool \<times> 'b"
  bk_refreshAudioDevices :: "'b \<Rightarrow> 'b"
  bk_playRingtone :: "'b \<Rightarrow> string \<Rightarrow> bool \<times> 'b"
  bk_stopRingtone :: "'b \<Rightarrow> 'b"
  bk_addAccount :: "'b \<Rightarrow> account_settings \<Rightarrow> backend_account_id \<times> 'b"
  bk_removeAccount :: "'b \<Rightarrow> backend_account_id \<Rightarrow> bool \<times> 'b"
  bk_sendMessage :: "'b \<Rightarrow> backend_account_id \<Rightarrow> string \<Rightarrow> string \<Rightarrow> bool \<times> 'b"
  bk_watch :: "'b \<Rightarrow> backend_account_id \<Rightarrow> string \<Rightarrow> watch_id \<times> 'b"
  bk_unwatch :: "'b \<Rightarrow> watch_id \<Rightarrow> bool \<times> 'b"
  bk_makeCall :: "'b \<Rightarrow> backend_account_id \<Rightarrow> string \<Rightarrow> call_id \<times> 'b"
  bk_answer :: "'b \<Rightarrow> call_id \<Rightarrow> bool \<times> 'b"
  bk_decline :: "'b \<Rightarrow> call_id \<Rightarrow> int \<Rightarrow> bool \<times> 'b"
  bk_redirect :: "'b \<Rightarrow> call_id \<Rightarrow> string \<Rightarrow> bool \<times> 'b"
  bk_hangup :: "'b \<Rightarrow> call_id \<Rightarrow> 'b"
  bk_hold :: "'b \<Rightarrow> call_id \<Rightarrow> bool \<times> 'b"
  bk_unhold :: "'b \<Rightarrow> call_id \<Rightarrow> bool \<times> 'b"
  bk_setMuted :: "'b \<Rightarrow> call_id \<Rightarrow> bool \<Rightarrow> bool \<times> 'b"
  bk_sendDtmf :: "'b \<Rightarrow> call_id \<Rightarrow> string \<Rightarrow> dtmf_method \<Rightarrow> bool \<times> 'b"
  bk_blindTransfer :: "'b \<Rightarrow> call_id \<Rightarrow> string \<Rightarrow> bool \<times> 'b"
  bk_attendedTransfer :: "'b \<Rightarrow> call_id \<Rightarrow> call_id \<Rightarrow> bool \<times> 'b"
  bk_bridge :: "'b \<Rightarrow> call_id \<Rightarrow> call_id \<Rightarrow> bool \<times> 'b"
  bk_startRecording :: "'b \<Rightarrow> call_id \<Rightarrow> string \<Rightarrow> bool \<times> 'b"
  bk_stopRecording :: "'b \<Rightarrow> call_id \<Rightarrow> bool \<times> 'b"
  bk_playFile :: "'b \<Rightarrow> call_id \<Rightarrow> string \<Rightarrow> bool \<Rightarrow> bool \<times> 'b"
  bk_stopFile :: "'b \<Rightarrow> call_id \<Rightarrow> bool \<times> 'b"
  bk_streamStats :: "'b \<Rightarrow> call_id \<Rightarrow> stream_stats"
  bk_isMediaActive :: "'b \<Rightarrow> call_id \<Rightarrow> bool"
  bk_isCaptureTransmitting :: "'b \<Rightarrow> call_id \<Rightarrow> bool"
  bk_releaseCall :: "'b \<Rightarrow> call_id \<Rightarrow> 'b"

subsection \<open>The keychain interface (\<open>IKeychain\<close>)\<close>

record 'k ikeychain =
  kc_get :: "'k \<Rightarrow> string \<Rightarrow> string option"
  kc_set :: "'k \<Rightarrow> string \<Rightarrow> string \<Rightarrow> bool \<times> 'k"
  kc_erase :: "'k \<Rightarrow> string \<Rightarrow> bool \<times> 'k"

end
