(* ===== verification/CStrings.thy ===== *)
theory CStrings imports Prelude begin

text \<open>
  The string routines of the C, C++ and Qt libraries that the program calls, on byte strings:
  \<open>isspace\<close> and \<open>tolower\<close> in the C locale, trimming, prefix tests, \<open>find\<close> for characters and
  substrings, splitting, and decimal printing and scanning of integers.
\<close>

definition code :: "char \<Rightarrow> nat" where "code c = of_char c"

lemma code_eq_iff [simp]: "code c = code d \<longleftrightarrow> c = d"
  by (simp add: code_def)

lemma code_char_of [simp]: "code (char_of n) = n mod 256" for n :: nat
  by (simp add: code_def)

lemma code_less_256: "code c < 256"
  by (metis code_char_of code_def char_of_char mod_less_divisor zero_less_numeral)

subsection \<open>Character classes\<close>

definition is_space :: "char \<Rightarrow> bool" where
  "is_space c \<longleftrightarrow> code c = 32 \<or> (9 \<le> code c \<and> code c \<le> 13)"

definition is_digit :: "char \<Rightarrow> bool" where
  "is_digit c \<longleftrightarrow> 48 \<le> code c \<and> code c \<le> 57"

definition is_cntrl :: "char \<Rightarrow> bool" where
  "is_cntrl c \<longleftrightarrow> code c < 32 \<or> code c = 127"

definition to_lower :: "char \<Rightarrow> char" where
  "to_lower c = (if 65 \<le> code c \<and> code c \<le> 90 then char_of (code c + 32) else c)"

definition lower :: "string \<Rightarrow> string" where
  "lower s = map to_lower s"

text \<open>\<open>QChar::isSpace\<close> and \<open>QString::toLower\<close> on Latin-1 code units.\<close>

definition q_space :: "char \<Rightarrow> bool" where
  "q_space c \<longleftrightarrow> is_space c \<or> code c = 133 \<or> code c = 160"

definition q_lower :: "char \<Rightarrow> char" where
  "q_lower c = (if 65 \<le> code c \<and> code c \<le> 90
                   \<or> 192 \<le> code c \<and> code c \<le> 222 \<and> code c \<noteq> 215
                then char_of (code c + 32) else c)"

lemma to_lower_idem [simp]: "to_lower (to_lower c) = to_lower c"
  by (auto simp: to_lower_def)

lemma lower_idem [simp]: "lower (lower s) = lower s"
  by (simp add: lower_def)

lemma lower_Nil [simp]: "lower [] = []"
  by (simp add: lower_def)

subsection \<open>Trimming\<close>

definition trim_left :: "(char \<Rightarrow> bool) \<Rightarrow> string \<Rightarrow> string" where
  "trim_left sp s = dropWhile sp s"

definition trim_right :: "(char \<Rightarrow> bool) \<Rightarrow> string \<Rightarrow> string" where
  "trim_right sp s = rev (dropWhile sp (rev s))"

definition trim_with :: "(char \<Rightarrow> bool) \<Rightarrow> string \<Rightarrow> string" where
  "trim_with sp s = trim_right sp (trim_left sp s)"

lemma trim_right_snoc_not [str]: "\<not> sp c \<Longrightarrow> trim_right sp (s @ [c]) = s @ [c]"
  by (simp add: trim_right_def)

lemma trim_right_snoc [str]: "sp c \<Longrightarrow> trim_right sp (s @ [c]) = trim_right sp s"
  by (simp add: trim_right_def)

lemma trim_right_Nil [simp]: "trim_right sp [] = []"
  by (simp add: trim_right_def)

lemma set_trim_right: "set (trim_right sp s) \<subseteq> set s"
  using set_dropWhileD by (fastforce simp: trim_right_def)

lemma set_trim_with: "set (trim_with sp s) \<subseteq> set s"
  unfolding trim_with_def trim_left_def
  using set_trim_right set_dropWhileD by fastforce

lemma dropWhile_id: "s = [] \<or> \<not> P (hd s) \<Longrightarrow> dropWhile P s = s"
  by (cases s) auto

lemma trim_with_id [str]:
  "s \<noteq> [] \<Longrightarrow> \<not> sp (hd s) \<Longrightarrow> \<not> sp (last s) \<Longrightarrow> trim_with sp s = s"
  by (simp add: trim_with_def trim_right_def trim_left_def dropWhile_id hd_rev)

subsection \<open>Searching\<close>

definition starts_with :: "string \<Rightarrow> string \<Rightarrow> bool" where
  "starts_with p s \<longleftrightarrow> take (length p) s = p"

definition ends_with :: "string \<Rightarrow> string \<Rightarrow> bool" where
  "ends_with p s \<longleftrightarrow> length p \<le> length s \<and> drop (length s - length p) s = p"

fun find_char :: "char \<Rightarrow> string \<Rightarrow> nat option" where
  "find_char c [] = None"
| "find_char c (d # s) = (if d = c then Some 0 else map_option Suc (find_char c s))"

fun find_sub :: "string \<Rightarrow> string \<Rightarrow> nat option" where
  "find_sub p [] = (if p = [] then Some 0 else None)"
| "find_sub p (c # s) =
     (if starts_with p (c # s) then Some 0 else map_option Suc (find_sub p s))"

lemma starts_with_append [str]: "starts_with p (p @ s)"
  by (simp add: starts_with_def)

lemma ends_with_append [str]: "ends_with p (s @ p)"
  by (simp add: ends_with_def)

lemma starts_with_iff [str]: "starts_with p s \<longleftrightarrow> (\<exists>t. s = p @ t)"
  unfolding starts_with_def by (metis append_take_drop_id append_eq_conv_conj)

lemma find_char_None [str]: "find_char c s = None \<longleftrightarrow> c \<notin> set s"
  by (induction s) auto

lemma find_char_append_notin [str]:
  "c \<notin> set s \<Longrightarrow> find_char c (s @ t) = map_option (\<lambda>n. length s + n) (find_char c t)"
  by (induction s) (cases "find_char c t", auto)+

lemma find_char_Some [str]:
  "find_char c s = Some n \<longleftrightarrow> n < length s \<and> s ! n = c \<and> c \<notin> set (take n s)"
proof (induction s arbitrary: n)
  case (Cons d s)
  then show ?case by (cases n) auto
qed simp

lemma find_char_split: "find_char c s = Some n \<Longrightarrow> s = take n s @ c # drop (Suc n) s"
  by (metis find_char_Some id_take_nth_drop)

lemma find_char_takeWhile: "find_char c s = Some n \<Longrightarrow> take n s = takeWhile (\<lambda>d. d \<noteq> c) s"
  by (induction s arbitrary: n) auto

lemma find_sub_self [str]: "find_sub p (p @ s) = Some 0"
  by (cases "p @ s") (auto simp: starts_with_iff intro: sym)

lemma find_sub_None [str]: "find_sub p s = None \<longleftrightarrow> (\<nexists>u v. s = u @ p @ v)"
proof (induction s)
  case (Cons c s)
  have "(\<exists>u v. c # s = u @ p @ v) \<longleftrightarrow> starts_with p (c # s) \<or> (\<exists>u v. s = u @ p @ v)"
    (is "?L \<longleftrightarrow> ?R")
  proof
    assume ?L
    then obtain u v where "c # s = u @ p @ v" by blast
    then show ?R by (cases u) (auto simp: starts_with_iff)
  next
    assume ?R
    then show ?L by (metis append_Cons append_Nil starts_with_iff)
  qed
  with Cons show ?case by auto
qed auto

lemma find_sub_infix [str]: "find_sub p (u @ p @ v) \<noteq> None"
  by (auto simp: find_sub_None)

subsection \<open>Splitting at a character\<close>

fun split_char :: "char \<Rightarrow> string \<Rightarrow> string list" where
  "split_char c [] = [[]]"
| "split_char c (d # s) =
     (if d = c then [] # split_char c s
      else (case split_char c s of [] \<Rightarrow> [[d]] | w # ws \<Rightarrow> (d # w) # ws))"

lemma split_char_not_Nil [simp]: "split_char c s \<noteq> []"
  by (induction s) (auto split: list.splits)

lemma split_char_notin [str]: "c \<notin> set s \<Longrightarrow> split_char c s = [s]"
  by (induction s) auto

lemma split_char_append [str]:
  "c \<notin> set w \<Longrightarrow> split_char c (w @ c # s) = w # split_char c s"
  by (induction w) auto

subsection \<open>Decimal numbers\<close>

definition digit_char :: "nat \<Rightarrow> char" where
  "digit_char d = char_of (48 + d)"

definition digit_val :: "char \<Rightarrow> nat" where
  "digit_val c = code c - 48"

fun nat_to_string :: "nat \<Rightarrow> string" where
  "nat_to_string n =
     (if n < 10 then [digit_char n] else nat_to_string (n div 10) @ [digit_char (n mod 10)])"

declare nat_to_string.simps [simp del]

definition int_to_string :: "int \<Rightarrow> string" where
  "int_to_string i = (if i < 0 then CHR ''-'' # nat_to_string (nat (- i)) else nat_to_string (nat i))"

definition digits_val :: "string \<Rightarrow> nat" where
  "digits_val s = foldl (\<lambda>n c. 10 * n + digit_val c) 0 s"

lemma is_digit_digit_char [simp]: "d < 10 \<Longrightarrow> is_digit (digit_char d)"
  by (simp add: is_digit_def digit_char_def)

lemma digit_val_digit_char [simp]: "d < 10 \<Longrightarrow> digit_val (digit_char d) = d"
  by (simp add: digit_val_def digit_char_def)

lemma digits_val_snoc [simp]: "digits_val (s @ [c]) = 10 * digits_val s + digit_val c"
  by (simp add: digits_val_def)

lemma nat_to_string_digits [str]: "list_all is_digit (nat_to_string n)"
proof (induction n rule: nat_to_string.induct)
  case (1 n)
  then show ?case by (subst nat_to_string.simps) simp
qed

lemma digits_val_nat_to_string [simp, str]: "digits_val (nat_to_string n) = n"
proof (induction n rule: nat_to_string.induct)
  case (1 n)
  show ?case
  proof (cases "n < 10")
    case True
    then show ?thesis by (subst nat_to_string.simps) (simp add: digits_val_def)
  next
    case False
    with 1 show ?thesis by (subst nat_to_string.simps) simp
  qed
qed

lemma nat_to_string_not_Nil [simp]: "nat_to_string n \<noteq> []"
  by (subst nat_to_string.simps) simp

lemma nat_to_string_inj [simp]: "nat_to_string m = nat_to_string n \<longleftrightarrow> m = n"
  by (metis digits_val_nat_to_string)

lemma hd_nat_to_string [str]: "is_digit (hd (nat_to_string n))"
  using nat_to_string_digits[of n] by (cases "nat_to_string n") auto

text \<open>The digits at the head of a string, and what is left.\<close>

definition scan_digits :: "string \<Rightarrow> string \<times> string" where
  "scan_digits s = (takeWhile is_digit s, dropWhile is_digit s)"

lemma scan_digits_nat_to_string [str]:
  assumes "r = [] \<or> \<not> is_digit (hd r)"
  shows "scan_digits (nat_to_string n @ r) = (nat_to_string n, r)"
proof -
  have all: "\<And>x. x \<in> set (nat_to_string n) \<Longrightarrow> is_digit x"
    using nat_to_string_digits[of n] by (simp add: list_all_iff)
  from assms show ?thesis
    by (cases r) (simp_all add: scan_digits_def takeWhile_append dropWhile_append all)
qed

text \<open>Machine range of \<open>int\<close>, and an optional sign.\<close>

definition fits_int :: "int \<Rightarrow> bool" where
  "fits_int i \<longleftrightarrow> - (2 ^ 31) \<le> i \<and> i < 2 ^ 31"

definition scan_sign :: "string \<Rightarrow> int \<times> string" where
  "scan_sign s =
     (case s of [] \<Rightarrow> (1, [])
      | c # cs \<Rightarrow> if c = CHR ''-'' then (-1, cs) else if c = CHR ''+'' then (1, cs) else (1, s))"

text \<open>\<open>QString::toInt\<close> in the C locale: surrounding space is skipped, the rest must be one number in range.\<close>

definition q_toInt :: "string \<Rightarrow> int option" where
  "q_toInt s =
     (let (sg, ds) = scan_sign (trim_with q_space s);
          v = sg * int (digits_val ds)
      in if ds \<noteq> [] \<and> list_all is_digit ds \<and> fits_int v then Some v else None)"

lemma trim_nat_to_string:
  "trim_with q_space (nat_to_string n) = nat_to_string n"
proof (rule trim_with_id)
  have d: "\<And>c. c \<in> set (nat_to_string n) \<Longrightarrow> \<not> q_space c"
    using nat_to_string_digits[of n] by (auto simp: list_all_iff is_digit_def q_space_def is_space_def)
  show "\<not> q_space (hd (nat_to_string n))" "\<not> q_space (last (nat_to_string n))"
    by (simp_all add: d)
qed simp

lemma scan_sign_nat_to_string: "scan_sign (nat_to_string n @ r) = (1, nat_to_string n @ r)"
proof -
  obtain c cs where c: "nat_to_string n = c # cs" by (cases "nat_to_string n") auto
  with hd_nat_to_string[of n] have "is_digit c" by simp
  then have "c \<noteq> CHR ''-''" and "c \<noteq> CHR ''+''"
    by (auto simp: is_digit_def code_def)
  then show ?thesis by (simp add: c scan_sign_def)
qed

lemma q_toInt_nat_to_string [str]: "n < 2 ^ 31 \<Longrightarrow> q_toInt (nat_to_string n) = Some (int n)"
  using scan_sign_nat_to_string[of n "[]"]
  by (simp add: q_toInt_def trim_nat_to_string nat_to_string_digits fits_int_def)

lemma nat_to_string_no [str]: "\<not> is_digit c \<Longrightarrow> c \<notin> set (nat_to_string n)"
  using nat_to_string_digits[of n] by (auto simp: list_all_iff)

end
