(* ===== verification/SipUri.thy ===== *)
theory SipUri imports SipTypes CStrings begin

text \<open>
  \<open>core/SipUri.cpp\<close>: turning what the user or another program asks to dial into the URI handed to
  the backend.  A dial target is untrusted; \<open>sanitizeTarget\<close> removes what could inject headers or
  reroute the request, and \<open>normalizeSipTarget\<close> adds the scheme and the account's domain.
\<close>

subsection \<open>Definitions\<close>

definition uri_trim :: "string \<Rightarrow> string" where
  "uri_trim s = trim_with is_space s"

fun ieq :: "string \<Rightarrow> nat \<Rightarrow> string \<Rightarrow> bool" where
  "ieq s pos [] = True"
| "ieq s pos (n # needle) =
     (if pos \<ge> length s then False
      else if to_lower (s ! pos) \<noteq> n then False
      else ieq s (Suc pos) needle)"

definition startsWithScheme :: "string \<Rightarrow> bool" where
  "startsWithScheme s \<longleftrightarrow> ieq s 0 ''sip:'' \<or> ieq s 0 ''sips:''"

definition schemeFor :: "transport \<Rightarrow> string" where
  "schemeFor t = (if t = Tls then ''sips:'' else ''sip:'')"

text \<open>One turn of the parameter loop: what it appends for \<open>param\<close>.\<close>

definition param_name :: "string \<Rightarrow> string" where
  "param_name param = lower (case find_char CHR ''='' param of None \<Rightarrow> param | Some eq \<Rightarrow> take eq param)"

definition allowed_param :: "string \<Rightarrow> bool" where
  "allowed_param param \<longleftrightarrow>
     param \<noteq> [] \<and> (param_name param = ''transport'' \<or> param_name param = ''user'')"

definition keep_param :: "string \<Rightarrow> string" where
  "keep_param param = (if allowed_param param then CHR '';'' # param else [])"

function params_loop :: "string \<Rightarrow> string" where
  "params_loop ps =
     (case find_char CHR '';'' ps of
        None \<Rightarrow> keep_param ps
      | Some e \<Rightarrow> keep_param (take e ps) @ params_loop (drop (Suc e) ps))"
  by pat_completeness auto
termination
  by (relation "measure length") (auto simp: find_char_Some)

declare params_loop.simps [simp del]

definition sanitizeTarget :: "string \<Rightarrow> string" where
  "sanitizeTarget s0 =
     (let s1 = filter (\<lambda>c. \<not> is_cntrl c) s0;
          s = (case find_char CHR ''?'' s1 of None \<Rightarrow> s1 | Some q \<Rightarrow> take q s1)
      in case find_char CHR '';'' s of
           None \<Rightarrow> s
         | Some semi \<Rightarrow> take semi s @ params_loop (drop (Suc semi) s))"

definition normalizeSipTarget :: "string \<Rightarrow> string \<Rightarrow> transport \<Rightarrow> string" where
  "normalizeSipTarget target domain t =
     (let cleanTarget = sanitizeTarget (uri_trim target) in
      if cleanTarget = [] then []
      else if startsWithScheme cleanTarget then cleanTarget
      else schemeFor t @ cleanTarget @
           (if find_char CHR ''@'' cleanTarget = None \<and> domain \<noteq> []
            then CHR ''@'' # domain else []))"

subsection \<open>The parameter loop keeps exactly the allowed parameters\<close>

lemma split_char_find:
  "split_char c s = (case find_char c s of None \<Rightarrow> [s] | Some n \<Rightarrow> take n s # split_char c (drop (Suc n) s))"
proof (induction s)
  case (Cons d s)
  then show ?case by (cases "find_char c s") auto
qed simp

lemma params_loop_split:
  "params_loop ps = concat (map keep_param (split_char CHR '';'' ps))"
proof (induction ps rule: params_loop.induct)
  case (1 ps)
  show ?case
    by (subst params_loop.simps, subst split_char_find)
      (auto split: option.splits simp: 1)
qed

definition clean_head :: "string \<Rightarrow> string" where
  "clean_head s0 = takeWhile (\<lambda>c. c \<noteq> CHR ''?'') (filter (\<lambda>c. \<not> is_cntrl c) s0)"

lemma clean_head_find:
  "(case find_char CHR ''?'' s of None \<Rightarrow> s | Some q \<Rightarrow> take q s) = takeWhile (\<lambda>c. c \<noteq> CHR ''?'') s"
proof (cases "find_char CHR ''?'' s")
  case None
  then have "takeWhile (\<lambda>c. c \<noteq> CHR ''?'') s = s"
    by (auto simp: find_char_None takeWhile_eq_all_conv)
  with None show ?thesis by (simp only: option.case)
qed (simp add: find_char_takeWhile)

lemma concat_keep_filter:
  "concat (map keep_param ps) = concat (map (\<lambda>p. CHR '';'' # p) (filter allowed_param ps))"
  by (induction ps) (auto simp: keep_param_def)

lemma sanitizeTarget_pieces:
  "sanitizeTarget s =
     hd (split_char CHR '';'' (clean_head s)) @
     concat (map (\<lambda>p. CHR '';'' # p) (filter allowed_param (tl (split_char CHR '';'' (clean_head s)))))"
proof -
  have "sanitizeTarget s =
      (case find_char CHR '';'' (clean_head s) of
         None \<Rightarrow> clean_head s
       | Some semi \<Rightarrow> take semi (clean_head s) @ params_loop (drop (Suc semi) (clean_head s)))"
    unfolding sanitizeTarget_def Let_def clean_head_find clean_head_def by (rule refl)
  then show ?thesis
    by (subst (1 2) split_char_find)
      (auto split: option.splits simp: params_loop_split concat_keep_filter)
qed

lemma set_split_char: "p \<in> set (split_char c s) \<Longrightarrow> set p \<subseteq> set s - {c}"
proof (induction s arbitrary: p)
  case (Cons d s)
  show ?case
  proof (cases "d = c")
    case True
    with Cons show ?thesis by fastforce
  next
    case False
    obtain w ws where w: "split_char c s = w # ws"
      by (cases "split_char c s") auto
    with Cons.IH have "set w \<subseteq> set s - {c}" and "\<And>q. q \<in> set ws \<Longrightarrow> set q \<subseteq> set s - {c}"
      by auto
    with Cons.prems False w show ?thesis by auto
  qed
qed simp

lemma split_char_concat:
  assumes "c \<notin> set b" and "\<And>p. p \<in> set ps \<Longrightarrow> c \<notin> set p"
  shows "split_char c (b @ concat (map (\<lambda>p. c # p) ps)) = b # ps"
  using assms
proof (induction ps arbitrary: b)
  case Nil
  then show ?case by (simp add: str)
next
  case (Cons p ps)
  then have "split_char c (p @ concat (map (\<lambda>p. c # p) ps)) = p # ps" by simp
  with Cons.prems show ?case by (simp add: split_char_append)
qed

lemma set_clean_head: "set (clean_head s) \<subseteq> {c \<in> set s. \<not> is_cntrl c \<and> c \<noteq> CHR ''?''}"
  unfolding clean_head_def using set_takeWhileD by fastforce

lemma hd_split_in: "hd (split_char c s) \<in> set (split_char c s)"
  by simp

lemma sanitizeTarget_split:
  "split_char CHR '';'' (sanitizeTarget s) =
     hd (split_char CHR '';'' (clean_head s)) #
     filter allowed_param (tl (split_char CHR '';'' (clean_head s)))"
  unfolding sanitizeTarget_pieces
proof (rule split_char_concat)
  show "CHR '';'' \<notin> set (hd (split_char CHR '';'' (clean_head s)))"
    using set_split_char[OF hd_split_in] by blast
next
  fix p assume "p \<in> set (filter allowed_param (tl (split_char CHR '';'' (clean_head s))))"
  then have "p \<in> set (split_char CHR '';'' (clean_head s))"
    by (metis filter_is_subset list.set_sel(2) split_char_not_Nil subset_code(1))
  then show "CHR '';'' \<notin> set p" using set_split_char by blast
qed

lemma set_sanitizeTarget: "set (sanitizeTarget s) \<subseteq> {c \<in> insert CHR '';'' (set s). \<not> is_cntrl c \<and> c \<noteq> CHR ''?''}"
proof -
  have sub: "set p \<subseteq> set (clean_head s)" if "p \<in> set (split_char CHR '';'' (clean_head s))" for p
    using set_split_char[OF that] by blast
  have tl_sub: "set (tl xs) \<subseteq> set xs" for xs :: "string list"
    by (cases xs) auto
  have "set (sanitizeTarget s) \<subseteq> insert CHR '';'' (set (clean_head s))"
  proof -
    have "set (hd (split_char CHR '';'' (clean_head s))) \<subseteq> set (clean_head s)"
      using sub hd_split_in .
    moreover have "set p \<subseteq> set (clean_head s)"
      if "p \<in> set (tl (split_char CHR '';'' (clean_head s)))" for p
      using sub tl_sub that by blast
    ultimately show ?thesis unfolding sanitizeTarget_pieces by auto
  qed
  moreover have "\<not> is_cntrl CHR '';''"
    by (simp add: is_cntrl_def code_def)
  ultimately show ?thesis using set_clean_head[of s] by auto
qed

lemma clean_head_id:
  "(\<And>c. c \<in> set s \<Longrightarrow> \<not> is_cntrl c \<and> c \<noteq> CHR ''?'') \<Longrightarrow> clean_head s = s"
  by (simp add: clean_head_def filter_id_conv takeWhile_eq_all_conv)

lemma clean_head_sanitizeTarget [simp]: "clean_head (sanitizeTarget s) = sanitizeTarget s"
  using set_sanitizeTarget[of s] by (intro clean_head_id) blast

lemma split_char_join: "s = hd (split_char c s) @ concat (map (\<lambda>p. c # p) (tl (split_char c s)))"
proof (induction s)
  case (Cons d s)
  obtain w ws where "split_char c s = w # ws" by (cases "split_char c s") auto
  with Cons show ?case by auto
qed simp

lemma sanitizeTarget_idem_lemma: "sanitizeTarget (sanitizeTarget s) = sanitizeTarget s"
  by (subst sanitizeTarget_pieces)
    (simp add: sanitizeTarget_split sanitizeTarget_pieces[of s, symmetric])

lemma ieq_append: "ieq (p @ s) (length p) n \<longleftrightarrow> ieq s 0 n"
proof -
  have "ieq (p @ s) (length p + k) n \<longleftrightarrow> ieq s k n" for k
    by (induction n arbitrary: k) (auto simp: nth_append simp flip: add_Suc_right)
  from this[of 0] show ?thesis by simp
qed

lemma ieq_iff: "ieq s pos n \<longleftrightarrow> lower (take (length n) (drop pos s)) = n"
proof (induction n arbitrary: pos)
  case (Cons c n)
  show ?case
  proof (cases "pos < length s")
    case True
    then have "take (Suc (length n)) (drop pos s) = s ! pos # take (length n) (drop (Suc pos) s)"
      by (metis Cons_nth_drop_Suc take_Suc_Cons)
    with True Cons show ?thesis by (auto simp: lower_def)
  qed (auto simp: lower_def)
qed simp

lemma startsWithScheme_schemeFor [simp]: "startsWithScheme (schemeFor t @ s)"
  by (simp add: startsWithScheme_def schemeFor_def to_lower_def code_def)

subsection \<open>What the dial path relies on\<close>

text \<open>C17. Whatever is dialled, the characters of the URI that are control characters or a question
  mark come from the account's own domain, never from the target: a target cannot break out of the
  request line or attach headers.\<close>

theorem normalizeSipTarget_no_injection:
  "{c \<in> set (normalizeSipTarget target domain t). is_cntrl c \<or> c = CHR ''?''} \<subseteq> set domain"
proof -
  have scheme: "c \<in> set (schemeFor t) \<Longrightarrow> \<not> (is_cntrl c \<or> c = CHR ''?'')" for c
    by (auto simp: schemeFor_def is_cntrl_def code_def split: if_splits)
  have at: "\<not> is_cntrl CHR ''@''"
    by (simp add: is_cntrl_def code_def)
  show ?thesis
    using set_sanitizeTarget[of "uri_trim target"] scheme at
    by (auto simp: normalizeSipTarget_def Let_def split: if_splits)
qed

text \<open>Sanitising keeps the text before the first semicolon and, of the parameters behind it,
  exactly those named transport or user, in order and unchanged.\<close>

theorem sanitizeTarget_params:
  "split_char CHR '';'' (sanitizeTarget s) =
     hd (split_char CHR '';'' (takeWhile (\<lambda>c. c \<noteq> CHR ''?'') (filter (\<lambda>c. \<not> is_cntrl c) s))) #
     filter (\<lambda>p. p \<noteq> [] \<and> param_name p \<in> {''transport'', ''user''})
       (tl (split_char CHR '';'' (takeWhile (\<lambda>c. c \<noteq> CHR ''?'') (filter (\<lambda>c. \<not> is_cntrl c) s))))"
  unfolding sanitizeTarget_split clean_head_def
  by (simp add: allowed_param_def cong: filter_cong)

lemma startsWithScheme_colon: "startsWithScheme s \<Longrightarrow> CHR '':'' \<in> set s"
proof -
  assume "startsWithScheme s"
  then obtain n where n: "lower (take n s) = ''sip:'' \<or> lower (take n s) = ''sips:''"
    unfolding startsWithScheme_def ieq_iff by (metis drop0)
  then have "CHR '':'' \<in> set (lower (take n s))" by auto
  then obtain c where c: "c \<in> set (take n s)" "to_lower c = CHR '':''"
    by (auto simp: lower_def)
  have "c = CHR '':''"
  proof (cases "65 \<le> code c \<and> code c \<le> 90")
    case True
    with c(2) have "code (char_of (code c + 32)) = code CHR '':''"
      by (simp add: to_lower_def)
    with True show ?thesis by (simp add: code_def[of "CHR '':''"])
  qed (use c(2) in \<open>auto simp: to_lower_def\<close>)
  with c(1) show ?thesis by (auto dest: in_set_takeD)
qed

definition plain_target :: "string \<Rightarrow> bool" where
  "plain_target s \<longleftrightarrow> s \<noteq> [] \<and>
     list_all (\<lambda>c. \<not> is_cntrl c \<and> \<not> is_space c \<and> c \<notin> {CHR ''?'', CHR '';'', CHR '':''}) s"

lemma plain_target_clean:
  assumes "plain_target s"
  shows "uri_trim s = s" "sanitizeTarget s = s" "\<not> startsWithScheme s"
proof -
  from assms have ne: "s \<noteq> []" and c: "\<And>c. c \<in> set s \<Longrightarrow> \<not> is_cntrl c \<and> \<not> is_space c"
    and d: "CHR ''?'' \<notin> set s" "CHR '';'' \<notin> set s" "CHR '':'' \<notin> set s"
    by (auto simp: plain_target_def list_all_iff)
  show "uri_trim s = s" using ne c by (simp add: uri_trim_def trim_with_id)
  have "clean_head s = s" using c d by (intro clean_head_id) auto
  with d show "sanitizeTarget s = s" by (simp add: sanitizeTarget_pieces split_char_notin)
  show "\<not> startsWithScheme s" using d startsWithScheme_colon by blast
qed

text \<open>A plain extension or number is dialled as it stands, under the scheme of the account's
  transport and, unless it names a host itself, at the account's domain.\<close>

theorem normalizeSipTarget_extension:
  assumes "plain_target target" and "domain \<noteq> []"
  shows "normalizeSipTarget target domain t =
    (if t = Tls then ''sips:'' else ''sip:'') @ target @
    (if CHR ''@'' \<in> set target then [] else CHR ''@'' # domain)"
proof -
  from assms(1) have "target \<noteq> []" by (simp add: plain_target_def)
  with plain_target_clean[OF assms(1)] assms(2) show ?thesis
    by (simp add: normalizeSipTarget_def schemeFor_def find_char_None)
qed

theorem normalizeSipTarget_extension_witness:
  "normalizeSipTarget ''4711'' ''pbx.example'' Tls = ''sips:4711@pbx.example''"
proof -
  have "plain_target ''4711''"
    by (simp add: plain_target_def is_cntrl_def is_space_def code_def)
  from normalizeSipTarget_extension[OF this, of "''pbx.example''" Tls] show ?thesis by simp
qed

end
