(* ===== verification/Notify.thy ===== *)
theory Notify imports SipTypes CStrings begin

text \<open>
  The two text parsers of the PJSIP adapter that do not touch PJSIP: \<open>pjsip/MwiSummary.cpp\<close> (the
  body of a message-waiting NOTIFY) and \<open>pjsip/RemoteInfo.cpp\<close> (the name-addr of a remote party).
\<close>

subsection \<open>Message-waiting summaries\<close>

record mwi_summary =
  ms_newMessages :: int
  ms_oldMessages :: int
  ms_active :: bool

definition default_mwi_summary :: mwi_summary where
  "default_mwi_summary = \<lparr>ms_newMessages = 0, ms_oldMessages = 0, ms_active = False\<rparr>"

text \<open>
  \<open>%d\<close> of \<open>sscanf\<close>: white space, an optional sign, digits.  C leaves the result of an out-of-range
  number undefined; \<open>ovf\<close> stands for what the C library stores then.  The result is the value and
  the unread input, or nothing when the conversion does not match.
\<close>

definition scan_d :: "(int \<Rightarrow> int) \<Rightarrow> string \<Rightarrow> (int \<times> string) option" where
  "scan_d ovf s =
     (let (sg, s1) = scan_sign (dropWhile is_space s);
          (ds, s2) = scan_digits s1;
          v = sg * int (digits_val ds)
      in if ds = [] then None else Some (if fits_int v then v else ovf v, s2))"

text \<open>\<open>sscanf(p, "%d/%d", &n, &o)\<close>: each target keeps its value when its conversion is not reached.\<close>

definition scan_d_slash_d :: "(int \<Rightarrow> int) \<Rightarrow> string \<Rightarrow> int \<Rightarrow> int \<Rightarrow> int \<times> int" where
  "scan_d_slash_d ovf s n0 o0 =
     (case scan_d ovf s of
        None \<Rightarrow> (n0, o0)
      | Some (n, r) \<Rightarrow>
          (case r of [] \<Rightarrow> (n, o0)
           | c # r' \<Rightarrow> if c = CHR ''/''
                       then (case scan_d ovf r' of None \<Rightarrow> (n, o0) | Some (m, _) \<Rightarrow> (n, m))
                       else (n, o0)))"

definition voice_message :: string where "voice_message = ''Voice-Message:''"
definition messages_waiting :: string where "messages_waiting = ''Messages-Waiting:''"

text \<open>\<open>c_str\<close> ends the text at the first NUL.\<close>

definition parseMwiSummary :: "(int \<Rightarrow> int) \<Rightarrow> string \<Rightarrow> mwi_summary" where
  "parseMwiSummary ovf body =
     (case find_sub voice_message body of
        Some pos \<Rightarrow>
          (let cstr = takeWhile (\<lambda>c. 0 < code c) (drop (pos + length voice_message) body);
               p = dropWhile (\<lambda>c. c = CHR '' '' \<or> c = CHR 0x09) cstr;
               (n, m) = scan_d_slash_d ovf p 0 0
           in \<lparr>ms_newMessages = n, ms_oldMessages = m, ms_active = n > 0\<rparr>)
      | None \<Rightarrow>
          (case find_sub messages_waiting body of
             Some a \<Rightarrow> default_mwi_summary\<lparr>ms_active := find_sub ''yes'' (drop a body) \<noteq> None\<rparr>
           | None \<Rightarrow> default_mwi_summary))"

lemma scan_d_nat_to_string:
  assumes "n < 2 ^ 31" "r = [] \<or> \<not> is_digit (hd r)"
  shows "scan_d ovf (nat_to_string n @ r) = Some (int n, r)"
proof -
  obtain c cs where c: "nat_to_string n = c # cs" by (cases "nat_to_string n") auto
  with hd_nat_to_string[of n] have "is_digit c" by simp
  then have "\<not> is_space c" and "c \<noteq> CHR ''-''" and "c \<noteq> CHR ''+''"
    by (auto simp: is_digit_def is_space_def code_def)
  then have "scan_sign (dropWhile is_space (nat_to_string n @ r)) = (1, nat_to_string n @ r)"
    by (simp add: c scan_sign_def)
  moreover have "fits_int (int n)" using assms(1) by (simp add: fits_int_def)
  ultimately show ?thesis
    by (simp add: scan_d_def scan_digits_nat_to_string[OF assms(2)])
qed

lemma scan_d_slash_d_nats:
  assumes "n < 2 ^ 31" "m < 2 ^ 31" "r = [] \<or> \<not> is_digit (hd r)"
  shows "scan_d_slash_d ovf (nat_to_string n @ ''/'' @ nat_to_string m @ r) n0 o0 = (int n, int m)"
proof -
  have "scan_d ovf (nat_to_string n @ ''/'' @ nat_to_string m @ r)
      = Some (int n, ''/'' @ nat_to_string m @ r)"
    using assms(1) by (intro scan_d_nat_to_string) (simp_all add: is_digit_def code_def)
  with scan_d_nat_to_string[OF assms(2,3)] show ?thesis
    by (simp add: scan_d_slash_d_def)
qed

lemma takeWhile_code_digits:
  "takeWhile (\<lambda>c. 0 < code c) (nat_to_string n @ s) = nat_to_string n @ takeWhile (\<lambda>c. 0 < code c) s"
  using nat_to_string_digits[of n]
  by (auto simp: takeWhile_append list_all_iff is_digit_def)

lemma dropWhile_blank_digits:
  "dropWhile (\<lambda>c. c = CHR '' '' \<or> c = CHR 0x09) (nat_to_string n @ s) = nat_to_string n @ s"
  using hd_nat_to_string[of n]
  by (intro dropWhile_id) (auto simp: is_digit_def code_def)

text \<open>A summary that prints its two counters behind the first Voice-Message field is read back
  exactly, and the lamp is on exactly when there are new messages.\<close>

theorem parseMwiSummary_roundtrip:
  assumes "n < 2 ^ 31" "m < 2 ^ 31" "rest = [] \<or> \<not> is_digit (hd rest)"
    and "find_sub voice_message (pre @ voice_message @ '' '' @ nat_to_string n @ ''/'' @ nat_to_string m @ rest)
         = Some (length pre)"
  shows "parseMwiSummary ovf (pre @ voice_message @ '' '' @ nat_to_string n @ ''/'' @ nat_to_string m @ rest)
    = \<lparr>ms_newMessages = int n, ms_oldMessages = int m, ms_active = n > 0\<rparr>"
proof -
  have codes: "code CHR '' '' = 32" "code CHR ''/'' = 47"
    by (simp_all add: code_def)
  have "takeWhile (\<lambda>c. 0 < code c) rest = [] \<or> \<not> is_digit (hd (takeWhile (\<lambda>c. 0 < code c) rest))"
    using assms(3) by (cases rest) auto
  note scan = scan_d_slash_d_nats[OF assms(1,2) this, of ovf 0 0]
  show ?thesis
    unfolding parseMwiSummary_def assms(4)
    using scan by (simp add: Let_def codes takeWhile_code_digits dropWhile_blank_digits)
qed

theorem parseMwiSummary_roundtrip_witness:
  "parseMwiSummary (\<lambda>_. 0) (''Messages-Waiting: no'' @ voice_message @ '' '' @ nat_to_string 2 @ ''/'' @ nat_to_string 7 @ ''()'')
    = \<lparr>ms_newMessages = 2, ms_oldMessages = 7, ms_active = True\<rparr>"
proof -
  have "find_sub voice_message (''Messages-Waiting: no'' @ voice_message @ '' '' @ nat_to_string 2 @ ''/'' @ nat_to_string 7 @ ''()'')
      = Some (length ''Messages-Waiting: no'')"
    by (simp add: voice_message_def starts_with_def)
  from parseMwiSummary_roundtrip[OF _ _ _ this, of "\<lambda>_. 0"] show ?thesis
    by (simp add: is_digit_def code_def)
qed

text \<open>Without a Voice-Message field the lamp follows any later occurrence of the letters yes, so
  a body that says no messages are waiting still switches it on when, say, the mailbox address
  contains them.\<close>

theorem parseMwiSummary_yes_anywhere:
  assumes "find_sub voice_message (messages_waiting @ '' no'' @ u @ ''yes'' @ v) = None"
  shows "ms_active (parseMwiSummary ovf (messages_waiting @ '' no'' @ u @ ''yes'' @ v))"
proof -
  have "find_sub ''yes'' ((messages_waiting @ '' no'' @ u) @ ''yes'' @ v) \<noteq> None"
    by (rule find_sub_infix)
  with assms show ?thesis
    by (simp add: parseMwiSummary_def find_sub_self)
qed

theorem parseMwiSummary_yes_anywhere_witness:
  "ms_active (parseMwiSummary (\<lambda>_. 0) (messages_waiting @ '' no'' @ '' Message-Account: sip:'' @ ''yes'' @ ''@x''))"
  by (rule parseMwiSummary_yes_anywhere)
    (simp add: voice_message_def messages_waiting_def starts_with_def)

subsection \<open>Remote parties\<close>

record remote_info =
  ri_uri :: string
  ri_displayName :: string

definition strip_quotes :: "string \<Rightarrow> string" where
  "strip_quotes dn =
     (if length dn \<ge> 2 \<and> hd dn = CHR 0x22 \<and> last dn = CHR 0x22
      then take (length dn - 2) (drop 1 dn) else dn)"

definition parseRemoteInfo :: "string \<Rightarrow> remote_info" where
  "parseRemoteInfo raw =
     (if raw = [] then \<lparr>ri_uri = [], ri_displayName = []\<rparr>
      else case (find_char CHR ''<'' raw, find_char CHR ''>'' raw) of
        (Some lt, Some gt) \<Rightarrow>
          (if gt > lt
           then \<lparr>ri_uri = take (gt - lt - 1) (drop (lt + 1) raw),
                 ri_displayName = strip_quotes
                   (trim_right (\<lambda>c. c = CHR '' '' \<or> c = CHR 0x09) (take lt raw))\<rparr>
           else \<lparr>ri_uri = raw, ri_displayName = []\<rparr>)
      | _ \<Rightarrow> \<lparr>ri_uri = raw, ri_displayName = []\<rparr>)"

text \<open>A quoted display name in front of a bracketed URI is taken apart exactly, whatever follows
  the bracket; the display name may contain anything but angle brackets.\<close>

theorem parseRemoteInfo_quoted:
  assumes "CHR ''<'' \<notin> set name" "CHR ''>'' \<notin> set name" "CHR ''>'' \<notin> set uri"
  shows "parseRemoteInfo ([CHR 0x22] @ name @ [CHR 0x22] @ '' <'' @ uri @ ''>'' @ rest)
    = \<lparr>ri_uri = uri, ri_displayName = name\<rparr>"
proof -
  let ?q = "[CHR 0x22] @ name @ [CHR 0x22]"
  let ?raw = "(?q @ '' '') @ ''<'' @ uri @ ''>'' @ rest"
  have lt: "find_char CHR ''<'' ?raw = Some (length (?q @ '' ''))"
    using assms(1) by (subst find_char_append_notin) auto
  have gt: "find_char CHR ''>'' ((?q @ '' '' @ ''<'' @ uri) @ ''>'' @ rest)
      = Some (length (?q @ '' '' @ ''<'' @ uri))"
    using assms(2,3) by (subst find_char_append_notin) auto
  have tr: "trim_right (\<lambda>c. c = CHR '' '' \<or> c = CHR 0x09) (?q @ '' '') = ?q"
    by (simp add: trim_right_def)
  have sq: "strip_quotes ?q = name"
    by (simp add: strip_quotes_def)
  have "parseRemoteInfo ?raw = \<lparr>ri_uri = uri, ri_displayName = name\<rparr>"
    using lt gt tr sq by (simp add: parseRemoteInfo_def)
  then show ?thesis by simp
qed

theorem parseRemoteInfo_quoted_witness:
  "parseRemoteInfo ([CHR 0x22] @ ''Bo'' @ [CHR 0x22] @ '' <'' @ ''sip:1@x'' @ ''>'' @ '';tag=1'')
    = \<lparr>ri_uri = ''sip:1@x'', ri_displayName = ''Bo''\<rparr>"
  by (rule parseRemoteInfo_quoted) simp_all

end
