(* ===== verification/Versions.thy ===== *)
theory Versions imports CStrings "HOL-Library.List_Lexorder" "HOL-Library.Product_Lexorder" begin

text \<open>
  \<open>core/UpdateChecker.cpp\<close>: version ordering, the appcast reader and the checker's decisions.
  QUrl, QXmlStreamReader and the network stack are Qt.  A parsed URL is the record of the four
  properties the code reads, the URL parser is the parameter \<open>parseUrl\<close>, and a feed is the list of
  start elements the XML reader yields before its end or its first error.  \<open>QString\<close>s are Latin-1.
\<close>

subsection \<open>Ordering of prerelease suffixes\<close>

text \<open>\<open>toULongLong\<close> gives 0 for a number that does not fit.\<close>

definition toULongLong :: "string \<Rightarrow> nat" where
  "toULongLong ds = (if digits_val ds < 2 ^ 64 then digits_val ds else 0)"

lemma length_dropWhile_hd: "a \<noteq> [] \<Longrightarrow> P (hd a) \<Longrightarrow> length (dropWhile P a) < length a"
  by (cases a) (auto simp: length_dropWhile_le le_imp_less_Suc)

text \<open>The two cursors of the loop are what is left of the two strings.\<close>

function naturalCompare :: "string \<Rightarrow> string \<Rightarrow> int" where
  "naturalCompare a b =
     (if a \<noteq> [] \<and> b \<noteq> [] then
        (if is_digit (hd a) \<and> is_digit (hd b) then
           (let x = toULongLong (takeWhile is_digit a); y = toULongLong (takeWhile is_digit b)
            in if x \<noteq> y then (if x < y then -1 else 1)
               else naturalCompare (dropWhile is_digit a) (dropWhile is_digit b))
         else if hd a \<noteq> hd b then (if code (hd a) < code (hd b) then -1 else 1)
         else naturalCompare (tl a) (tl b))
      else if a \<noteq> [] then 1 else if b \<noteq> [] then -1 else 0)"
  by pat_completeness auto

termination
  by (relation "measure (\<lambda>(a, b). length a)") (auto simp: length_dropWhile_hd)

declare naturalCompare.simps [simp del]

subsection \<open>Versions\<close>

record parsed_version =
  pv_release :: "int list"
  pv_prerelease :: string

definition release_part :: "string \<Rightarrow> int" where
  "release_part p = (case q_toInt p of Some n \<Rightarrow> if n \<ge> 0 then n else 0 | None \<Rightarrow> 0)"

definition parseVersion :: "string \<Rightarrow> parsed_version" where
  "parseVersion v =
     (let s = (case find_char CHR ''+'' v of Some pl \<Rightarrow> take pl v | None \<Rightarrow> v);
          (pre, s') = (case find_char CHR ''-'' s of
                         Some dash \<Rightarrow> (drop (dash + 1) s, take dash s)
                       | None \<Rightarrow> ([], s))
      in \<lparr>pv_release = map release_part (split_char CHR ''.'' s'), pv_prerelease = pre\<rparr>)"

definition part_at :: "int list \<Rightarrow> nat \<Rightarrow> int" where
  "part_at xs i = (if i < length xs then xs ! i else 0)"

text \<open>The release loop from index \<open>i\<close> with \<open>k\<close> turns left; 0 when it falls through.\<close>

fun cmp_release :: "int list \<Rightarrow> int list \<Rightarrow> nat \<Rightarrow> nat \<Rightarrow> int" where
  "cmp_release xs ys i 0 = 0"
| "cmp_release xs ys i (Suc k) =
     (let x = part_at xs i; y = part_at ys i
      in if x \<noteq> y then (if x < y then -1 else 1) else cmp_release xs ys (Suc i) k)"

definition compareVersions :: "string \<Rightarrow> string \<Rightarrow> int" where
  "compareVersions a b =
     (let av = parseVersion a; bv = parseVersion b;
          n = max (length (pv_release av)) (length (pv_release bv));
          c = cmp_release (pv_release av) (pv_release bv) 0 n
      in if c \<noteq> 0 then c
         else if (pv_prerelease av = []) \<noteq> (pv_prerelease bv = [])
              then (if pv_prerelease av = [] then 1 else -1)
         else naturalCompare (pv_prerelease av) (pv_prerelease bv))"

subsection \<open>The appcast\<close>

record qurl =
  url_isValid :: bool
  url_isEmpty :: bool
  url_host :: string
  url_scheme :: string

definition no_url :: qurl where
  "no_url = \<lparr>url_isValid = False, url_isEmpty = True, url_host = [], url_scheme = []\<rparr>"

definition isHttpsUrl :: "qurl \<Rightarrow> bool" where
  "isHttpsUrl u \<longleftrightarrow> url_isValid u \<and> \<not> url_isEmpty u \<and> url_host u \<noteq> [] \<and>
     map q_lower (url_scheme u) = map q_lower ''https''"

definition isTrustedDownloadHost :: "qurl \<Rightarrow> bool" where
  "isTrustedDownloadHost u \<longleftrightarrow>
     (let host = map q_lower (url_host u)
      in host = ''github.com'' \<or> ends_with ''.github.com'' host \<or> ends_with ''.githubusercontent.com'' host)"

record parsed_feed =
  pf_version :: string
  pf_url :: qurl

type_synonym start_element = "string \<times> (string \<times> string) list"

definition attr_value :: "(string \<times> string) list \<Rightarrow> string \<Rightarrow> string" where
  "attr_value attrs n = (case map_of attrs n of Some v \<Rightarrow> v | None \<Rightarrow> [])"

definition enclosure_version :: "(string \<times> string) list \<Rightarrow> string" where
  "enclosure_version attrs =
     (let short = attr_value attrs ''sparkle:shortVersionString''
      in if short \<noteq> [] then short else attr_value attrs ''sparkle:version'')"

definition appcast_step :: "(string \<Rightarrow> qurl) \<Rightarrow> start_element \<Rightarrow> parsed_feed \<Rightarrow> parsed_feed" where
  "appcast_step parseUrl e best =
     (if fst e \<noteq> ''enclosure'' then best
      else let version = enclosure_version (snd e);
               downloadUrl = parseUrl (attr_value (snd e) ''url'')
           in if version = [] \<or> \<not> isHttpsUrl downloadUrl \<or> \<not> isTrustedDownloadHost downloadUrl
              then best
              else if pf_version best = [] \<or> compareVersions (pf_version best) version < 0
              then \<lparr>pf_version = version, pf_url = downloadUrl\<rparr>
              else best)"

definition parseAppcast :: "(string \<Rightarrow> qurl) \<Rightarrow> start_element list \<Rightarrow> parsed_feed" where
  "parseAppcast parseUrl elems = fold (appcast_step parseUrl) elems \<lparr>pf_version = [], pf_url = no_url\<rparr>"

subsection \<open>The checker\<close>

record update_checker =
  uc_currentVersion :: string
  uc_feedUrl :: string
  uc_latestVersion :: string
  uc_latestUrl :: qurl

datatype update_signal =
    FeedUrlChanged
  | UpToDate
  | CheckFailed string
  | UpdateAvailable string qurl
  | HttpGet qurl string  \<comment> \<open>the request sent, with its user agent\<close>

definition setFeedUrl :: "string \<Rightarrow> update_checker \<Rightarrow> update_checker \<times> update_signal list" where
  "setFeedUrl url uc =
     (if uc_feedUrl uc = url then (uc, []) else (uc\<lparr>uc_feedUrl := url\<rparr>, [FeedUrlChanged]))"

definition uc_check :: "(string \<Rightarrow> qurl) \<Rightarrow> update_checker \<Rightarrow> update_checker \<times> update_signal list" where
  "uc_check parseUrl uc =
     (if uc_feedUrl uc = [] then (uc, [UpToDate])
      else let url = parseUrl (uc_feedUrl uc)
           in if \<not> isHttpsUrl url then (uc, [CheckFailed ''invalid update feed URL''])
              else (uc, [HttpGet url (''CompactPhone/'' @ uc_currentVersion uc)]))"

text \<open>A finished reply is an error text or the elements of the body.\<close>

definition onReplyFinished ::
  "(string \<Rightarrow> qurl) \<Rightarrow> string + start_element list \<Rightarrow> update_checker \<Rightarrow> update_checker \<times> update_signal list" where
  "onReplyFinished parseUrl reply uc =
     (case reply of
        Inl reason \<Rightarrow> (uc, [CheckFailed reason])
      | Inr body \<Rightarrow>
          (let feed = parseAppcast parseUrl body
           in if pf_version feed = [] then (uc, [CheckFailed ''appcast had no entries''])
              else if compareVersions (uc_currentVersion uc) (pf_version feed) \<ge> 0 then (uc, [UpToDate])
              else (uc\<lparr>uc_latestVersion := pf_version feed, uc_latestUrl := pf_url feed\<rparr>,
                    [UpdateAvailable (pf_version feed) (pf_url feed)])))"

subsection \<open>The order behind the comparison\<close>

definition cmp3 :: "'a::linorder \<Rightarrow> 'a \<Rightarrow> int" where
  "cmp3 x y = (if x < y then -1 else if y < x then 1 else 0)"

lemma cmp3_Nil: "cmp3 [] [] = 0" "cmp3 [] (y # ys) = -1" "cmp3 (x # xs) [] = 1"
  by (simp_all add: cmp3_def)

lemma cmp3_Cons: "cmp3 (x # xs) (y # ys) = (if x < y then -1 else if y < x then 1 else cmp3 xs ys)"
  by (auto simp: cmp3_def)

lemma cmp3_Pair: "cmp3 (a, b) (c, d) = (if a < c then -1 else if c < a then 1 else cmp3 b d)"
  by (auto simp: cmp3_def less_prod_def)

text \<open>A prerelease is a list of tokens: a number, filed where the digits are in the character
  order, or a single character.\<close>

function natural_tokens :: "string \<Rightarrow> (nat \<times> nat) list" where
  "natural_tokens s =
     (if s = [] then []
      else if is_digit (hd s) then (48, toULongLong (takeWhile is_digit s)) # natural_tokens (dropWhile is_digit s)
      else (code (hd s), 0) # natural_tokens (tl s))"
  by pat_completeness auto
termination
  by (relation "measure length") (auto simp: length_dropWhile_hd)

declare natural_tokens.simps [simp del]

lemma natural_tokens_Nil [simp]: "natural_tokens [] = []"
  by (simp add: natural_tokens.simps)

lemma natural_tokens_digit:
  "s \<noteq> [] \<Longrightarrow> is_digit (hd s) \<Longrightarrow>
   natural_tokens s = (48, toULongLong (takeWhile is_digit s)) # natural_tokens (dropWhile is_digit s)"
  by (subst natural_tokens.simps) simp

lemma natural_tokens_char:
  "s \<noteq> [] \<Longrightarrow> \<not> is_digit (hd s) \<Longrightarrow> natural_tokens s = (code (hd s), 0) # natural_tokens (tl s)"
  by (subst natural_tokens.simps) simp

lemma naturalCompare_tokens: "naturalCompare a b = cmp3 (natural_tokens a) (natural_tokens b)"
proof (induction a b rule: naturalCompare.induct)
  case (1 a b)
  consider "a = [] \<or> b = []" | "a \<noteq> []" "b \<noteq> []" "is_digit (hd a)" "is_digit (hd b)"
    | "a \<noteq> []" "b \<noteq> []" "is_digit (hd a)" "\<not> is_digit (hd b)"
    | "a \<noteq> []" "b \<noteq> []" "\<not> is_digit (hd a)" "is_digit (hd b)"
    | "a \<noteq> []" "b \<noteq> []" "\<not> is_digit (hd a)" "\<not> is_digit (hd b)"
    by blast
  then show ?case
  proof cases
    case 1
    show ?thesis
    proof (cases "a = []")
      case True
      then show ?thesis
        by (cases "b = []"; cases "is_digit (hd b)")
          (simp_all add: naturalCompare.simps[of "[]"] cmp3_Nil natural_tokens_digit natural_tokens_char)
    next
      case False
      with 1 show ?thesis
        by (cases "is_digit (hd a)")
          (simp_all add: naturalCompare.simps[of a "[]"] cmp3_Nil natural_tokens_digit natural_tokens_char)
    qed
  next
    case 2
    with "1.IH"(1) show ?thesis
      by (subst naturalCompare.simps)
        (simp add: natural_tokens_digit cmp3_Cons Let_def less_prod_def)
  next
    case 3
    then show ?thesis
      by (subst naturalCompare.simps)
        (auto simp: natural_tokens_digit natural_tokens_char cmp3_Cons less_prod_def is_digit_def)
  next
    case 4
    then show ?thesis
      by (subst naturalCompare.simps)
        (auto simp: natural_tokens_digit natural_tokens_char cmp3_Cons less_prod_def is_digit_def)
  next
    case 5
    show ?thesis
    proof (cases "hd a = hd b")
      case True
      with 5 "1.IH"(2) show ?thesis
        by (subst naturalCompare.simps) (simp add: natural_tokens_char cmp3_Cons)
    next
      case False
      then have "code (hd a) \<noteq> code (hd b)" by simp
      with 5 False show ?thesis
        by (subst naturalCompare.simps) (simp add: natural_tokens_char cmp3_Cons)
    qed
  qed
qed

text \<open>Releases compare as if padded with zeros, that is, without their trailing zeros.\<close>

fun strip0 :: "int list \<Rightarrow> int list" where
  "strip0 [] = []"
| "strip0 (x # xs) = (if x = 0 \<and> strip0 xs = [] then [] else x # strip0 xs)"

fun cmp_padded :: "int list \<Rightarrow> int list \<Rightarrow> int" where
  "cmp_padded [] [] = 0"
| "cmp_padded (x # xs) [] = (if x \<noteq> 0 then (if x < 0 then -1 else 1) else cmp_padded xs [])"
| "cmp_padded [] (y # ys) = (if 0 \<noteq> y then (if 0 < y then -1 else 1) else cmp_padded [] ys)"
| "cmp_padded (x # xs) (y # ys) = (if x \<noteq> y then (if x < y then -1 else 1) else cmp_padded xs ys)"

lemma cmp_release_padded:
  "length xs \<le> i + k \<Longrightarrow> length ys \<le> i + k \<Longrightarrow>
   cmp_release xs ys i k = cmp_padded (drop i xs) (drop i ys)"
proof (induction k arbitrary: i)
  case (Suc k)
  have d: "drop i zs = (if i < length zs then zs ! i # drop (Suc i) zs else [])" for zs :: "int list"
    by (simp add: Cons_nth_drop_Suc)
  have d': "\<not> i < length zs \<Longrightarrow> drop (Suc i) zs = []" for zs :: "int list" by simp
  have "cmp_release xs ys (Suc i) k = cmp_padded (drop (Suc i) xs) (drop (Suc i) ys)"
    using Suc.prems by (intro Suc.IH) auto
  then show ?case
    by (subst (1 2) d) (auto simp: part_at_def Let_def d')
qed simp

lemma cmp_padded_strip0:
  "list_all (\<lambda>x. 0 \<le> x) xs \<Longrightarrow> list_all (\<lambda>x. 0 \<le> x) ys \<Longrightarrow>
   cmp_padded xs ys = cmp3 (strip0 xs) (strip0 ys)"
proof (induction xs ys rule: cmp_padded.induct)
  case (2 x xs)
  then show ?case by (cases "strip0 xs") (auto simp: cmp3_Nil)
next
  case (3 y ys)
  then show ?case by (cases "strip0 ys") (auto simp: cmp3_Nil)
next
  case (4 x xs y ys)
  then show ?case
    by (cases "strip0 xs"; cases "strip0 ys") (auto simp: cmp3_Nil cmp3_Cons)
qed (simp add: cmp3_Nil)

definition version_key :: "string \<Rightarrow> int list \<times> bool \<times> (nat \<times> nat) list" where
  "version_key v =
     (let p = parseVersion v
      in (strip0 (pv_release p), pv_prerelease p = [], natural_tokens (pv_prerelease p)))"

lemma parseVersion_nonneg: "list_all (\<lambda>x. 0 \<le> x) (pv_release (parseVersion v))"
  by (auto simp: parseVersion_def Let_def list_all_iff release_part_def split: option.splits)

lemma compareVersions_key_lemma: "compareVersions a b = cmp3 (version_key a) (version_key b)"
proof -
  let ?a = "parseVersion a" and ?b = "parseVersion b"
  have rel: "cmp_release (pv_release ?a) (pv_release ?b) 0 (max (length (pv_release ?a)) (length (pv_release ?b)))
      = cmp3 (strip0 (pv_release ?a)) (strip0 (pv_release ?b))"
    by (simp add: cmp_release_padded cmp_padded_strip0 parseVersion_nonneg)
  show ?thesis
    unfolding compareVersions_def rel version_key_def Let_def cmp3_Pair naturalCompare_tokens
    by (auto simp: cmp3_def)
qed

fun dotted :: "nat list \<Rightarrow> string" where
  "dotted [] = []"
| "dotted [n] = nat_to_string n"
| "dotted (n # ns) = nat_to_string n @ CHR ''.'' # dotted ns"

lemma not_digit_chars: "\<not> is_digit CHR ''.''" "\<not> is_digit CHR ''-''" "\<not> is_digit CHR ''+''"
  by (simp_all add: is_digit_def code_def)

lemma split_dotted: "ns \<noteq> [] \<Longrightarrow> split_char CHR ''.'' (dotted ns) = map nat_to_string ns"
  by (induction ns rule: dotted.induct)
    (simp_all add: split_char_append split_char_notin nat_to_string_no not_digit_chars)

lemma dotted_no: "c \<noteq> CHR ''.'' \<Longrightarrow> \<not> is_digit c \<Longrightarrow> c \<notin> set (dotted ns)"
  by (induction ns rule: dotted.induct) (auto simp: nat_to_string_no)

lemma parseVersion_plain:
  assumes "CHR ''+'' \<notin> set v" "CHR ''-'' \<notin> set v" "CHR ''+'' \<notin> set p"
    and "p = [] \<Longrightarrow> d = []" "p \<noteq> [] \<Longrightarrow> d = CHR ''-'' # p" and "b = [] \<or> hd b = CHR ''+''"
  shows "parseVersion (v @ d @ b) = \<lparr>pv_release = map release_part (split_char CHR ''.'' v), pv_prerelease = p\<rparr>"
proof -
  have nop: "CHR ''+'' \<notin> set (v @ d)" using assms by (cases "p = []") auto
  have cut: "(case find_char CHR ''+'' ((v @ d) @ b) of Some pl \<Rightarrow> take pl ((v @ d) @ b) | None \<Rightarrow> (v @ d) @ b) = v @ d"
  proof (cases b)
    case Nil
    have "find_char CHR ''+'' (v @ d) = None" using nop by (simp only: find_char_None) simp
    with Nil show ?thesis by simp
  next
    case (Cons c b')
    with nop assms(6) show ?thesis by (subst find_char_append_notin) simp_all
  qed
  have dash: "(case find_char CHR ''-'' (v @ d) of Some k \<Rightarrow> (drop (k + 1) (v @ d), take k (v @ d)) | None \<Rightarrow> ([], v @ d)) = (p, v)"
  proof (cases "p = []")
    case True
    have "find_char CHR ''-'' v = None" using assms(2) by (simp only: find_char_None) simp
    with True assms(4) show ?thesis by simp
  next
    case False
    with assms show ?thesis by (simp add: find_char_append_notin)
  qed
  show ?thesis
    unfolding parseVersion_def Let_def cut[unfolded append_assoc] dash by simp
qed

subsection \<open>What update checking guarantees\<close>

text \<open>Comparing two version strings is comparing their keys: the release numbers without trailing
  zeros, then whether it is a full release, then the tokens of the prerelease.  So the comparison
  is a total preorder, whatever the strings.\<close>

theorem compareVersions_key:
  "compareVersions a b =
     (if version_key a < version_key b then -1 else if version_key b < version_key a then 1 else 0)"
  unfolding compareVersions_key_lemma cmp3_def ..

text \<open>A printed version reads back: its release numbers, its prerelease suffix if any, and nothing
  of the build metadata behind a plus sign.\<close>

theorem parseVersion_roundtrip:
  assumes "ns \<noteq> []" "list_all (\<lambda>n. n < 2 ^ 31) ns" "CHR ''+'' \<notin> set p"
    and "b = [] \<or> hd b = CHR ''+''"
  shows "parseVersion (dotted ns @ (if p = [] then [] else CHR ''-'' # p) @ b)
    = \<lparr>pv_release = map int ns, pv_prerelease = p\<rparr>"
proof -
  have v: "CHR ''+'' \<notin> set (dotted ns)" "CHR ''-'' \<notin> set (dotted ns)"
    by (simp_all add: dotted_no not_digit_chars)
  have "parseVersion (dotted ns @ (if p = [] then [] else CHR ''-'' # p) @ b)
      = \<lparr>pv_release = map release_part (split_char CHR ''.'' (dotted ns)), pv_prerelease = p\<rparr>"
    using assms v by (intro parseVersion_plain) auto
  moreover have "map release_part (map nat_to_string ns) = map int ns"
    using assms(2) by (simp add: list_all_iff release_part_def q_toInt_nat_to_string)
  ultimately show ?thesis by (simp add: split_dotted assms(1))
qed

theorem parseVersion_roundtrip_witness:
  "parseVersion (dotted [0, 1, 10] @ (if ''test1'' = [] then [] else CHR ''-'' # ''test1'') @ ''+b7'')
    = \<lparr>pv_release = map int [0, 1, 10], pv_prerelease = ''test1''\<rparr>"
  by (rule parseVersion_roundtrip) simp_all

text \<open>A prerelease sorts below the release it leads to.\<close>

theorem compareVersions_prerelease:
  assumes "CHR ''+'' \<notin> set v" "CHR ''-'' \<notin> set v" "CHR ''+'' \<notin> set p" "p \<noteq> []"
  shows "compareVersions (v @ ''-'' @ p) v = -1"
  using parseVersion_plain[of v p "CHR ''-'' # p" "[]"] parseVersion_plain[of v "[]" "[]" "[]"] assms
  by (simp add: compareVersions_key_lemma version_key_def cmp3_Pair)

theorem compareVersions_prerelease_witness:
  "compareVersions (''0.1.10'' @ ''-'' @ ''test1'') ''0.1.10'' = -1"
  by (rule compareVersions_prerelease) simp_all

text \<open>The entries of a feed that qualify, in order.\<close>

definition appcast_candidates :: "(string \<Rightarrow> qurl) \<Rightarrow> start_element list \<Rightarrow> (string \<times> qurl) list" where
  "appcast_candidates parseUrl elems =
     filter (\<lambda>(v, u). v \<noteq> [] \<and> isHttpsUrl u \<and> isTrustedDownloadHost u)
       (map (\<lambda>e. (enclosure_version (snd e), parseUrl (attr_value (snd e) ''url'')))
         (filter (\<lambda>e. fst e = ''enclosure'') elems))"

lemma appcast_step_candidates:
  "appcast_step parseUrl e best =
     fold (\<lambda>(v, u) b. if pf_version b = [] \<or> compareVersions (pf_version b) v < 0
                        then \<lparr>pf_version = v, pf_url = u\<rparr> else b)
       (appcast_candidates parseUrl [e]) best"
  by (simp add: appcast_step_def appcast_candidates_def Let_def)

lemma appcast_candidates_Cons:
  "appcast_candidates parseUrl (e # es) = appcast_candidates parseUrl [e] @ appcast_candidates parseUrl es"
  by (simp add: appcast_candidates_def)

lemma parseAppcast_fold:
  "fold (appcast_step parseUrl) elems best =
     fold (\<lambda>(v, u) b. if pf_version b = [] \<or> compareVersions (pf_version b) v < 0
                        then \<lparr>pf_version = v, pf_url = u\<rparr> else b)
       (appcast_candidates parseUrl elems) best"
proof (induction elems arbitrary: best)
  case (Cons e es)
  then show ?case
    by (simp only: fold_Cons comp_def appcast_candidates_Cons[of parseUrl e es] fold_append
        appcast_step_candidates[of parseUrl e])
qed (simp add: appcast_candidates_def)

lemma compareVersions_nonneg: "0 \<le> compareVersions a b \<longleftrightarrow> version_key b \<le> version_key a"
  by (auto simp: compareVersions_key_lemma cmp3_def)

lemma compareVersions_neg: "compareVersions a b < 0 \<longleftrightarrow> version_key a < version_key b"
  by (auto simp: compareVersions_key_lemma cmp3_def)

lemma fold_best:
  assumes "\<forall>(v, u) \<in> set cs. v \<noteq> []"
    and "f = (\<lambda>(v, u) b. if pf_version b = [] \<or> compareVersions (pf_version b) v < 0
                        then \<lparr>pf_version = v, pf_url = u\<rparr> else b)"
  shows "(fold f cs best = best \<or> (pf_version (fold f cs best), pf_url (fold f cs best)) \<in> set cs)
    \<and> (cs \<noteq> [] \<longrightarrow> pf_version (fold f cs best) \<noteq> [])
    \<and> (\<forall>(v, u) \<in> set cs. version_key v \<le> version_key (pf_version (fold f cs best)))
    \<and> (pf_version best \<noteq> [] \<longrightarrow>
        pf_version (fold f cs best) \<noteq> [] \<and> version_key (pf_version best) \<le> version_key (pf_version (fold f cs best)))"
  using assms(1)
proof (induction cs arbitrary: best)
  case (Cons c cs)
  obtain v u where c: "c = (v, u)" by (cases c)
  with Cons.prems have v: "v \<noteq> []" by auto
  have step: "f c best = best \<and> pf_version best \<noteq> [] \<and> version_key v \<le> version_key (pf_version best)
      \<or> f c best = \<lparr>pf_version = v, pf_url = u\<rparr> \<and>
         (pf_version best \<noteq> [] \<longrightarrow> version_key (pf_version best) \<le> version_key v)"
    by (auto simp: assms(2) c compareVersions_neg)
  have ne: "pf_version (f c best) \<noteq> []"
    and le: "version_key v \<le> version_key (pf_version (f c best))"
    and best: "pf_version best \<noteq> [] \<longrightarrow> version_key (pf_version best) \<le> version_key (pf_version (f c best))"
    and new: "f c best = best \<or> (pf_version (f c best), pf_url (f c best)) = (v, u)"
    using step v by auto
  let ?r = "fold f cs (f c best)"
  have IH: "(?r = f c best \<or> (pf_version ?r, pf_url ?r) \<in> set cs)
    \<and> (\<forall>(v, u) \<in> set cs. version_key v \<le> version_key (pf_version ?r))
    \<and> pf_version ?r \<noteq> [] \<and> version_key (pf_version (f c best)) \<le> version_key (pf_version ?r)"
    using Cons.IH[of "f c best"] Cons.prems ne by simp
  have "version_key v \<le> version_key (pf_version ?r)"
    and "pf_version best \<noteq> [] \<longrightarrow> version_key (pf_version best) \<le> version_key (pf_version ?r)"
    using IH le best order_trans by blast+
  with IH new show ?case by (auto simp: c)
qed simp

lemma candidates_ok:
  "(v, u) \<in> set (appcast_candidates parseUrl elems) \<Longrightarrow>
   v \<noteq> [] \<and> isHttpsUrl u \<and> isTrustedDownloadHost u"
  by (auto simp: appcast_candidates_def)

lemma parseAppcast_best:
  fixes parseUrl elems
  defines "r \<equiv> parseAppcast parseUrl elems" and "cs \<equiv> appcast_candidates parseUrl elems"
  shows "pf_version r = [] \<longleftrightarrow> cs = []"
    and "cs \<noteq> [] \<Longrightarrow> (pf_version r, pf_url r) \<in> set cs"
    and "(v, u) \<in> set cs \<Longrightarrow> compareVersions v (pf_version r) \<le> 0"
proof -
  define f where "f = (\<lambda>(v, u) b. if pf_version b = [] \<or> compareVersions (pf_version b) v < 0
                        then \<lparr>pf_version = v, pf_url = u\<rparr> else b)"
  have r: "r = fold f cs \<lparr>pf_version = [], pf_url = no_url\<rparr>"
    by (simp add: r_def cs_def parseAppcast_def parseAppcast_fold f_def)
  have best: "(r = \<lparr>pf_version = [], pf_url = no_url\<rparr> \<or> (pf_version r, pf_url r) \<in> set cs)
      \<and> (cs \<noteq> [] \<longrightarrow> pf_version r \<noteq> [])
      \<and> (\<forall>(v, u) \<in> set cs. version_key v \<le> version_key (pf_version r))"
    using fold_best[OF _ f_def, of cs "\<lparr>pf_version = [], pf_url = no_url\<rparr>"] candidates_ok
    unfolding r cs_def by fastforce
  show empty: "pf_version r = [] \<longleftrightarrow> cs = []"
    using best by (auto simp: r)
  show "(pf_version r, pf_url r) \<in> set cs" if "cs \<noteq> []"
    using best that by auto
  show "compareVersions v (pf_version r) \<le> 0" if "(v, u) \<in> set cs"
    using best that by (auto simp: compareVersions_key_lemma cmp3_def)
qed

text \<open>An update is offered exactly when the feed has a qualifying entry newer than the running
  version; what is offered is a qualifying entry (so an HTTPS download from the release hosts) that
  no other qualifying entry exceeds.\<close>

theorem onReplyFinished_offer:
  "UpdateAvailable v u \<in> set (snd (onReplyFinished parseUrl (Inr elems) uc)) \<Longrightarrow>
   (v, u) \<in> set (appcast_candidates parseUrl elems) \<and> isHttpsUrl u \<and> isTrustedDownloadHost u \<and>
   compareVersions (uc_currentVersion uc) v < 0 \<and>
   (\<forall>(v', u') \<in> set (appcast_candidates parseUrl elems). compareVersions v' v \<le> 0)"
  using parseAppcast_best[where parseUrl = parseUrl and elems = elems]
    candidates_ok[of "pf_version (parseAppcast parseUrl elems)" "pf_url (parseAppcast parseUrl elems)" parseUrl elems]
  by (auto simp: onReplyFinished_def Let_def split: if_splits)

definition example_url :: "string \<Rightarrow> qurl" where
  "example_url s = \<lparr>url_isValid = True, url_isEmpty = (s = []), url_host = drop 8 s, url_scheme = take 5 s\<rparr>"

theorem onReplyFinished_offer_witness:
  "compareVersions ''0.1.9'' ''0.1.10'' < 0"
proof -
  define feed where "feed = [(''enclosure'', [(''sparkle:version'', ''0.1.10''), (''url'', ''https://github.com'')])]"
  define uc where "uc = \<lparr>uc_currentVersion = ''0.1.9'', uc_feedUrl = [], uc_latestVersion = [], uc_latestUrl = no_url\<rparr>"
  have "UpdateAvailable ''0.1.10'' (example_url ''https://github.com'')
      \<in> set (snd (onReplyFinished example_url (Inr feed) uc))"
    unfolding feed_def uc_def by code_simp
  from onReplyFinished_offer[OF this] show ?thesis by (simp add: uc_def)
qed

end
