(* ===== verification/Database.thy ===== *)
theory Database imports SipTypes CStrings begin

text \<open>
  The SQLite database behind the managers: the tables of \<open>persistence/Database.cpp\<close>'s schema with the
  constraints the code meets (primary keys, the unique index on the default account, the cascade from
  accounts to the call history), transactions and \<open>persistence/SqliteUtil.h\<close>.

  SQLite itself is not under src/.  What a statement does to the tables is written out from the SQL
  text in the source; whether a statement can be prepared and run to completion is an argument of
  the operation (a failing disk or a locked file), so every theorem covers every such failure.
  A new row gets one more than the largest id, as SQLite documents for INTEGER PRIMARY KEY.
\<close>

subsection \<open>Values and columns\<close>

datatype sql_value = SqlInt int | SqlText string | SqlNull

fun column_int :: "sql_value \<Rightarrow> int" where
  "column_int (SqlInt i) = i"
| "column_int _ = 0"

text \<open>\<open>readText\<close>: a NULL reads as the empty string, and \<open>std::string(t)\<close> stops at the first NUL byte.\<close>

definition c_text :: "string \<Rightarrow> string" where
  "c_text s = takeWhile (\<lambda>c. code c \<noteq> 0) s"

fun readText :: "sql_value \<Rightarrow> string" where
  "readText (SqlText s) = c_text s"
| "readText _ = []"

definition bindBool :: "bool \<Rightarrow> sql_value" where
  "bindBool b = SqlInt (if b then 1 else 0)"

lemma column_int_bindBool [simp]: "column_int (bindBool b) \<noteq> 0 \<longleftrightarrow> b"
  by (simp add: bindBool_def)

lemma column_int_bindBool0 [simp]: "column_int (bindBool b) = 0 \<longleftrightarrow> \<not> b"
  by (simp add: bindBool_def)

lemma c_text_idem [simp]: "c_text (c_text s) = c_text s"
  by (simp add: c_text_def takeWhile_idem)

lemma c_text_Nil [simp]: "c_text [] = []"
  by (simp add: c_text_def)

lemma c_text_readText [simp]: "c_text (readText v) = readText v"
  by (cases v) simp_all

subsection \<open>Tables\<close>

datatype acct_col =
    ColLabel | ColProvider | ColDisplayName | ColUsername | ColDomain | ColAuthUser | ColAuthRealm
  | ColPasswordRef | ColTransport | ColProxy | ColStunServer | ColPublicAddress | ColCodecs
  | ColVoicemailNumber | ColRegisterOnStartup | ColRegisterIntervalSec | ColKeepaliveIntervalSec
  | ColSessionTimersEnabled | ColPublishPresenceEnabled | ColIceEnabled | ColHideCallerId
  | ColZrtpEnabled | ColSrtpMode | ColAllowUntrustedCert | ColDtmfMethod | ColIsDefault
  | ColEnabled | ColSortOrder

type_synonym account_row = "acct_col \<Rightarrow> sql_value"

record history_row =
  hr_account_id :: int
  hr_direction :: string
  hr_remote_uri :: string
  hr_remote_display :: string
  hr_started_at :: int
  hr_duration_ms :: int
  hr_end_reason :: string

record message_row =
  mr_account_id :: int
  mr_peer_uri :: string
  mr_direction :: string
  mr_body :: string
  mr_created_at_ms :: int
  mr_read :: int

record contact_row =
  cn_display_name :: string
  cn_sip_uri :: string
  cn_phone :: string
  cn_notes :: string
  cn_favorite :: int

record line_row =
  lr_account_id :: int
  lr_uri :: string
  lr_label :: string
  lr_sort_order :: int

record tables =
  t_accounts :: "(int \<times> account_row) list"
  t_history :: "(int \<times> history_row) list"
  t_messages :: "(int \<times> message_row) list"
  t_contacts :: "(int \<times> contact_row) list"
  t_lines :: "(int \<times> line_row) list"
  t_settings :: "(string \<times> string) list"

definition next_rowid :: "(int \<times> 'r) list \<Rightarrow> int" where
  "next_rowid t = (if t = [] then 1 else fst (last t) + 1)"

lemma next_rowid_fresh:
  assumes "keys_sorted t" "ahas t i"
  shows "i < next_rowid t"
proof -
  from assms(2) have "i \<in> fst ` set t" by (simp add: ahas_iff_keys)
  then obtain r where r: "(i, r) \<in> set t" by auto
  then have ne: "t \<noteq> []" by auto
  then obtain u x where u: "t = u @ [x]" by (metis rev_exhaust)
  with r assms(1) have "i \<le> fst x"
    by (auto simp: keys_sorted_def sorted_wrt_append)
  with u show ?thesis by (simp add: next_rowid_def)
qed

lemma next_rowid_new: "keys_sorted t \<Longrightarrow> \<not> ahas t (next_rowid t)"
  using next_rowid_fresh by fastforce

text \<open>Appending at the end is inserting the new key.\<close>

lemma aput_snoc:
  fixes k :: "'k::linorder"
  shows "keys_sorted t \<Longrightarrow> (\<And>i. ahas t i \<Longrightarrow> i < k) \<Longrightarrow> aput k v t = t @ [(k, v)]"
proof (induction t)
  case (Cons x t)
  obtain i r where x: "x = (i, r)" by (cases x)
  have "i < k" using Cons.prems(2)[of i] by (simp add: x ahas_def)
  moreover have "aput k v t = t @ [(k, v)]"
  proof (rule Cons.IH)
    show "keys_sorted t" using Cons.prems(1) by (simp add: keys_sorted_def)
    show "j < k" if "ahas t j" for j
      using Cons.prems(2)[of j] that by (auto simp: x ahas_def split: if_splits)
  qed
  ultimately show ?case by (auto simp: x)
qed simp

subsection \<open>Connections and transactions\<close>

text \<open>\<open>db_tx\<close> holds the tables as they were when an open transaction began.\<close>

record database =
  db_handle :: bool
  db_tables :: tables
  db_tx :: "tables option"

definition sql_begin :: "bool \<Rightarrow> database \<Rightarrow> bool \<times> database" where
  "sql_begin runs db =
     (if runs \<and> db_tx db = None then (True, db\<lparr>db_tx := Some (db_tables db)\<rparr>) else (False, db))"

definition sql_rollback :: "database \<Rightarrow> database" where
  "sql_rollback db =
     (case db_tx db of None \<Rightarrow> db | Some t \<Rightarrow> db\<lparr>db_tables := t, db_tx := None\<rparr>)"

text \<open>A COMMIT that fails (a busy or full disk) leaves its transaction open.\<close>

definition sql_commit :: "bool \<Rightarrow> database \<Rightarrow> bool \<times> database" where
  "sql_commit runs db =
     (if runs \<and> db_tx db \<noteq> None then (True, db\<lparr>db_tx := None\<rparr>) else (False, db))"

definition bool_cell :: "sql_value \<Rightarrow> bool" where
  "bool_cell v \<longleftrightarrow> v = SqlInt 0 \<or> v = SqlInt 1"

lemma bool_cell_simps [simp]: "bool_cell (bindBool b)" "bool_cell (SqlInt 0)" "bool_cell (SqlInt 1)"
  by (simp_all add: bool_cell_def bindBool_def)

definition db_ok :: "database \<Rightarrow> bool" where
  "db_ok db \<longleftrightarrow> (let t = db_tables db in
     keys_sorted (t_accounts t) \<and> keys_sorted (t_history t) \<and> keys_sorted (t_messages t) \<and>
     keys_sorted (t_contacts t) \<and> keys_sorted (t_lines t) \<and>
     (\<forall>i. ahas (t_accounts t) i \<longrightarrow> 1 \<le> i) \<and>
     (\<forall>i j r s. map_of (t_accounts t) i = Some r \<longrightarrow> map_of (t_accounts t) j = Some s \<longrightarrow>
        r ColIsDefault = SqlInt 1 \<longrightarrow> s ColIsDefault = SqlInt 1 \<longrightarrow> i = j) \<and>
     (\<forall>i r. map_of (t_accounts t) i = Some r \<longrightarrow> bool_cell (r ColIsDefault)) \<and>
     (\<forall>i h. (i, h) \<in> set (t_history t) \<longrightarrow> ahas (t_accounts t) (hr_account_id h)))"

subsection \<open>The accounts table\<close>

definition row_of_account :: "account \<Rightarrow> account_row" where
  "row_of_account a c = (case c of
     ColLabel \<Rightarrow> SqlText (acc_label a)
   | ColProvider \<Rightarrow> SqlText (acc_provider a)
   | ColDisplayName \<Rightarrow> SqlText (acc_displayName a)
   | ColUsername \<Rightarrow> SqlText (acc_username a)
   | ColDomain \<Rightarrow> SqlText (acc_domain a)
   | ColAuthUser \<Rightarrow> SqlText (acc_authUser a)
   | ColAuthRealm \<Rightarrow> SqlText (acc_authRealm a)
   | ColPasswordRef \<Rightarrow> SqlText (acc_passwordRef a)
   | ColTransport \<Rightarrow> SqlText (transportToString (acc_transport a))
   | ColProxy \<Rightarrow> SqlText (acc_proxy a)
   | ColStunServer \<Rightarrow> SqlText (acc_stunServer a)
   | ColPublicAddress \<Rightarrow> SqlText (acc_publicAddress a)
   | ColCodecs \<Rightarrow> SqlText (acc_codecs a)
   | ColVoicemailNumber \<Rightarrow> SqlText (acc_voicemailNumber a)
   | ColRegisterOnStartup \<Rightarrow> bindBool (acc_registerOnStartup a)
   | ColRegisterIntervalSec \<Rightarrow> SqlInt (acc_registerIntervalSec a)
   | ColKeepaliveIntervalSec \<Rightarrow> SqlInt (acc_keepaliveIntervalSec a)
   | ColSessionTimersEnabled \<Rightarrow> bindBool (acc_sessionTimersEnabled a)
   | ColPublishPresenceEnabled \<Rightarrow> bindBool (acc_publishPresenceEnabled a)
   | ColIceEnabled \<Rightarrow> bindBool (acc_iceEnabled a)
   | ColHideCallerId \<Rightarrow> bindBool (acc_hideCallerId a)
   | ColZrtpEnabled \<Rightarrow> bindBool (acc_zrtpEnabled a)
   | ColSrtpMode \<Rightarrow> SqlText (srtpModeToString (acc_srtpMode a))
   | ColAllowUntrustedCert \<Rightarrow> bindBool (acc_allowUntrustedCert a)
   | ColDtmfMethod \<Rightarrow> SqlText (dtmfMethodToString (acc_dtmfMethod a))
   | ColIsDefault \<Rightarrow> bindBool (acc_isDefault a)
   | ColEnabled \<Rightarrow> bindBool (acc_enabled a)
   | ColSortOrder \<Rightarrow> SqlInt (acc_sortOrder a))"

text \<open>One row of \<open>loadFromDatabase\<close>: an empty label shows the display name.\<close>

definition account_of_row :: "int \<Rightarrow> account_row \<Rightarrow> account" where
  "account_of_row i r = \<lparr>
     acc_id = i,
     acc_label = (if readText (r ColLabel) = [] then readText (r ColDisplayName) else readText (r ColLabel)),
     acc_provider = readText (r ColProvider),
     acc_displayName = readText (r ColDisplayName),
     acc_username = readText (r ColUsername),
     acc_domain = readText (r ColDomain),
     acc_authUser = readText (r ColAuthUser),
     acc_authRealm = readText (r ColAuthRealm),
     acc_passwordRef = readText (r ColPasswordRef),
     acc_transport = transportFromString (readText (r ColTransport)),
     acc_proxy = readText (r ColProxy),
     acc_stunServer = readText (r ColStunServer),
     acc_publicAddress = readText (r ColPublicAddress),
     acc_codecs = readText (r ColCodecs),
     acc_voicemailNumber = readText (r ColVoicemailNumber),
     acc_registerOnStartup = (column_int (r ColRegisterOnStartup) \<noteq> 0),
     acc_registerIntervalSec = column_int (r ColRegisterIntervalSec),
     acc_keepaliveIntervalSec = column_int (r ColKeepaliveIntervalSec),
     acc_sessionTimersEnabled = (column_int (r ColSessionTimersEnabled) \<noteq> 0),
     acc_publishPresenceEnabled = (column_int (r ColPublishPresenceEnabled) \<noteq> 0),
     acc_iceEnabled = (column_int (r ColIceEnabled) \<noteq> 0),
     acc_hideCallerId = (column_int (r ColHideCallerId) \<noteq> 0),
     acc_zrtpEnabled = (column_int (r ColZrtpEnabled) \<noteq> 0),
     acc_srtpMode = srtpModeFromString (readText (r ColSrtpMode)),
     acc_allowUntrustedCert = (column_int (r ColAllowUntrustedCert) \<noteq> 0),
     acc_dtmfMethod = dtmfMethodFromString (readText (r ColDtmfMethod)),
     acc_isDefault = (column_int (r ColIsDefault) \<noteq> 0),
     acc_enabled = (column_int (r ColEnabled) \<noteq> 0),
     acc_sortOrder = column_int (r ColSortOrder)\<rparr>"

definition has_default_row :: "tables \<Rightarrow> bool" where
  "has_default_row t \<longleftrightarrow> list_ex (\<lambda>r. snd r ColIsDefault = SqlInt 1) (t_accounts t)"

text \<open>INSERT: refused by the unique index when a default account exists already.\<close>

definition sql_insert_account :: "bool \<Rightarrow> account_row \<Rightarrow> database \<Rightarrow> int option \<times> database" where
  "sql_insert_account runs r db =
     (let t = db_tables db; i = next_rowid (t_accounts t) in
      if \<not> runs \<or> (r ColIsDefault = SqlInt 1 \<and> has_default_row t) then (None, db)
      else (Some i, db\<lparr>db_tables := t\<lparr>t_accounts := t_accounts t @ [(i, r)]\<rparr>\<rparr>))"

text \<open>DELETE takes the account's call history with it.\<close>

definition sql_delete_account :: "bool \<Rightarrow> int \<Rightarrow> database \<Rightarrow> bool \<times> database" where
  "sql_delete_account runs i db =
     (if \<not> runs then (False, db)
      else (True, db\<lparr>db_tables := (db_tables db)\<lparr>
              t_accounts := adel i (t_accounts (db_tables db)),
              t_history := filter (\<lambda>h. hr_account_id (snd h) \<noteq> i) (t_history (db_tables db))\<rparr>\<rparr>))"

definition update_rows :: "(int \<Rightarrow> 'r \<Rightarrow> 'r) \<Rightarrow> (int \<times> 'r) list \<Rightarrow> (int \<times> 'r) list" where
  "update_rows f t = map (\<lambda>(i, r). (i, f i r)) t"

definition sql_update_accounts :: "bool \<Rightarrow> (int \<Rightarrow> account_row \<Rightarrow> account_row) \<Rightarrow> database \<Rightarrow> bool \<times> database" where
  "sql_update_accounts runs f db =
     (if \<not> runs then (False, db)
      else (True, db\<lparr>db_tables := (db_tables db)\<lparr>t_accounts := update_rows f (t_accounts (db_tables db))\<rparr>\<rparr>))"

lemma map_of_update_rows [simp]: "map_of (update_rows f t) i = map_option (f i) (map_of t i)"
  by (induction t) (auto simp: update_rows_def)

lemma ahas_update_rows [simp]: "ahas (update_rows f t) i = ahas t i"
  by (auto simp: ahas_def)

lemma keys_update_rows [simp]: "map fst (update_rows f t) = map fst t"
  by (induction t) (auto simp: update_rows_def)

lemma keys_sorted_update_rows [simp]: "keys_sorted (update_rows f t) = keys_sorted t"
  by (simp add: keys_sorted_def del: map_map)

text \<open>What reading back a stored account gives: the account with NUL-terminated strings and the
  label filled in.\<close>

definition stored :: "account \<Rightarrow> account" where
  "stored a = account_of_row (acc_id a) (row_of_account a)"

lemma c_text_enum [simp]:
  "c_text (transportToString t) = transportToString t"
  "c_text (srtpModeToString m) = srtpModeToString m"
  "c_text (dtmfMethodToString d) = dtmfMethodToString d"
  by ((cases t; simp add: c_text_def code_def), (cases m; simp add: c_text_def code_def),
      (cases d; simp add: c_text_def code_def))

lemma stored_of_row_cols:
  "row_of_account a ColIsDefault = bindBool (acc_isDefault a)"
  "row_of_account a ColPasswordRef = SqlText (acc_passwordRef a)"
  by (simp_all add: row_of_account_def)

definition no_nul :: "string \<Rightarrow> bool" where
  "no_nul s \<longleftrightarrow> list_all (\<lambda>c. code c \<noteq> 0) s"

lemma c_text_no_nul [simp]: "no_nul s \<Longrightarrow> c_text s = s"
  by (auto simp: c_text_def no_nul_def list_all_iff)

definition plain_account :: "account \<Rightarrow> bool" where
  "plain_account a \<longleftrightarrow> list_all no_nul
     [acc_label a, acc_provider a, acc_displayName a, acc_username a, acc_domain a, acc_authUser a,
      acc_authRealm a, acc_passwordRef a, acc_proxy a, acc_stunServer a, acc_publicAddress a,
      acc_codecs a, acc_voicemailNumber a]"

lemma stored_plain:
  "plain_account a \<Longrightarrow> stored a = a\<lparr>acc_label := (if acc_label a = [] then acc_displayName a else acc_label a)\<rparr>"
  by (cases a) (simp add: stored_def account_of_row_def row_of_account_def plain_account_def)

lemma stored_idem [simp]: "stored (stored a) = stored a"
  by (simp add: stored_def account_of_row_def row_of_account_def)

lemma stored_account_of_row [simp]: "stored (account_of_row i r) = account_of_row i r"
  by (simp add: stored_def account_of_row_def row_of_account_def)

lemma acc_id_account_of_row [simp]: "acc_id (account_of_row i r) = i"
  by (simp add: account_of_row_def)

subsection \<open>Statements keep the database well formed\<close>

lemma map_of_snoc: "\<not> ahas t k \<Longrightarrow> map_of (t @ [(k, v)]) = (map_of t)(k \<mapsto> v)"
  by (auto simp: ahas_def fun_eq_iff map_add_def split: option.splits)

lemma insert_row_aput: "keys_sorted t \<Longrightarrow> t @ [(next_rowid t, r)] = aput (next_rowid t) r t"
  by (subst aput_snoc) (auto dest: next_rowid_fresh)

lemma next_rowid_pos: "(\<And>i. ahas t i \<Longrightarrow> 1 \<le> i) \<Longrightarrow> 1 \<le> next_rowid t"
proof (cases t rule: rev_cases)
  case (snoc u x)
  assume "\<And>i. ahas t i \<Longrightarrow> 1 \<le> i"
  moreover have "ahas t (fst x)" by (cases x) (simp add: snoc ahas_iff_keys)
  ultimately have "1 \<le> fst x" by blast
  then show ?thesis by (simp add: snoc next_rowid_def)
qed (simp add: next_rowid_def)

lemma has_default_row_iff:
  "keys_sorted (t_accounts t) \<Longrightarrow>
   has_default_row t \<longleftrightarrow> (\<exists>i r. map_of (t_accounts t) i = Some r \<and> r ColIsDefault = SqlInt 1)"
proof -
  assume "keys_sorted (t_accounts t)"
  then have d: "distinct (map fst (t_accounts t))" by (rule keys_sorted_distinct)
  have "map_of (t_accounts t) i = Some r \<longleftrightarrow> (i, r) \<in> set (t_accounts t)" for i r
    using map_of_eq_Some_iff[OF d] .
  then show ?thesis by (force simp: has_default_row_def list_ex_iff)
qed

lemma sql_insert_account_ok:
  assumes "db_ok db" "bool_cell (r ColIsDefault)"
    and "sql_insert_account f r db = (Some i, db')"
  shows "db_ok db'" "\<not> ahas (t_accounts (db_tables db)) i" "1 \<le> i"
    and "db_tx db' = db_tx db" "db_handle db' = db_handle db"
    and "t_accounts (db_tables db') = aput i r (t_accounts (db_tables db))"
proof -
  let ?t = "db_tables db"
  have ks: "keys_sorted (t_accounts ?t)" and pos: "\<And>i. ahas (t_accounts ?t) i \<Longrightarrow> 1 \<le> i"
    using assms(1) by (auto simp: db_ok_def Let_def)
  have i: "i = next_rowid (t_accounts ?t)"
    and nd: "r ColIsDefault = SqlInt 1 \<Longrightarrow> \<not> has_default_row ?t"
    and db': "db' = db\<lparr>db_tables := ?t\<lparr>t_accounts := aput i r (t_accounts ?t)\<rparr>\<rparr>"
    using assms(3) insert_row_aput[OF ks, of r]
    by (auto simp: sql_insert_account_def Let_def split: if_splits)
  show fresh: "\<not> ahas (t_accounts ?t) i" using next_rowid_new[OF ks] i by simp
  show "1 \<le> i" using next_rowid_pos[OF pos] i by simp
  show "db_tx db' = db_tx db" "db_handle db' = db_handle db"
    "t_accounts (db_tables db') = aput i r (t_accounts ?t)" by (simp_all add: db')
  show "db_ok db'"
    using assms(1,2) nd \<open>1 \<le> i\<close> unfolding has_default_row_iff[OF ks]
    by (auto simp: db_ok_def Let_def db')
qed

lemma sql_insert_account_None: "sql_insert_account f r db = (None, db') \<Longrightarrow> db' = db"
  by (auto simp: sql_insert_account_def Let_def split: if_splits)

lemma sql_delete_account_ok:
  assumes "db_ok db" "sql_delete_account f i db = (r, db')"
  shows "db_ok db'" "db_tx db' = db_tx db" "db_handle db' = db_handle db"
    and "\<not> r \<Longrightarrow> db' = db"
    and "r \<Longrightarrow> t_accounts (db_tables db') = adel i (t_accounts (db_tables db))"
proof -
  have ks: "keys_sorted (filter P t)" if "keys_sorted t" for P and t :: "(int \<times> 'r) list"
    using that by (induction t) (auto simp: keys_sorted_def)
  show "db_ok db'"
    using assms ks by (auto simp: sql_delete_account_def db_ok_def Let_def split: if_splits)
qed (use assms(2) in \<open>auto simp: sql_delete_account_def split: if_splits\<close>)

lemma sql_update_accounts_ok:
  assumes "db_ok db" "sql_update_accounts runs g db = (r, db')"
    and "\<And>i x. g i x ColIsDefault = x ColIsDefault"
  shows "db_ok db'"
proof -
  have "db_ok (db\<lparr>db_tables := (db_tables db)\<lparr>t_accounts := update_rows g (t_accounts (db_tables db))\<rparr>\<rparr>)"
    using assms(1) assms(3) by (auto simp: db_ok_def Let_def)
  with assms(1,2) show ?thesis by (auto simp: sql_update_accounts_def split: if_splits)
qed

lemma sql_update_accounts_frame:
  assumes "sql_update_accounts runs g db = (r, db')"
  shows "db_tx db' = db_tx db" "db_handle db' = db_handle db" "\<not> r \<Longrightarrow> db' = db"
    and "r \<Longrightarrow> t_accounts (db_tables db') = update_rows g (t_accounts (db_tables db))"
    and "ahas (t_accounts (db_tables db')) i = ahas (t_accounts (db_tables db)) i"
  using assms by (auto simp: sql_update_accounts_def split: if_splits)

end
