(* ===== verification/Queries.thy ===== *)
theory Queries imports Database "HOL-Library.Multiset" begin

text \<open>
  What the managers' SELECT statements have in common: the outcome of a SELECT that SQLite decides (it
  can fail to prepare, stop early with an error that the reading loop takes for the end, and return
  rows that the ORDER BY does not tell apart in any order), LIMIT, and stable sorting by a key.
\<close>

text \<open>\<open>q_ties\<close> is the order of the rows before the ORDER BY sorts them.  The sort is stable, so every order
  of tied rows comes from some \<open>q_ties\<close>.\<close>

record 'r query =
  q_prepared :: bool
  q_ties :: "'r list \<Rightarrow> 'r list"
  q_stop :: "nat option"

text \<open>The loop \<open>while (sqlite3_step(stmt) == SQLITE_ROW)\<close> behind an \<open>sqlite3_prepare_v2\<close>.\<close>

definition fetch :: "bool \<Rightarrow> nat option \<Rightarrow> 'a list \<Rightarrow> 'a list" where
  "fetch prepared stop xs = (if \<not> prepared then [] else case stop of None \<Rightarrow> xs | Some n \<Rightarrow> take n xs)"

definition sql_limit :: "int \<Rightarrow> 'a list \<Rightarrow> 'a list" where
  "sql_limit n xs = (if n < 0 then xs else take (nat n) xs)"

definition order_by :: "('r \<Rightarrow> 'k::linorder) \<Rightarrow> 'r query \<Rightarrow> 'r list \<Rightarrow> 'r list" where
  "order_by key q rows = sort_key key (q_ties q rows)"

text \<open>A SELECT that runs to completion.\<close>

definition completes :: "'r query \<Rightarrow> 'r list \<Rightarrow> bool" where
  "completes q rows \<longleftrightarrow> q_prepared q \<and> q_stop q = None \<and> mset (q_ties q rows) = mset rows"

definition plain_query :: "'r query" where
  "plain_query = \<lparr>q_prepared = True, q_ties = (\<lambda>xs. xs), q_stop = None\<rparr>"

lemma completes_plain [simp]: "completes plain_query rows"
  by (simp add: completes_def plain_query_def)

lemma fetch_completes [simp]: "completes q rows \<Longrightarrow> fetch (q_prepared q) (q_stop q) xs = xs"
  by (simp add: completes_def fetch_def)

lemma fetch_Nil [simp]: "fetch p s [] = []"
  by (simp add: fetch_def split: option.split)

lemma set_fetch: "set (fetch p s xs) \<subseteq> set xs"
  by (auto simp: fetch_def dest: in_set_takeD split: option.splits if_splits)

lemma length_fetch: "length (fetch p s xs) \<le> length xs"
  by (simp add: fetch_def split: option.split)

lemma mset_order_by [simp]: "completes q rows \<Longrightarrow> mset (order_by key q rows) = mset rows"
  by (simp add: order_by_def completes_def)

lemma set_order_by [simp]: "completes q rows \<Longrightarrow> set (order_by key q rows) = set rows"
  by (metis mset_order_by set_mset_mset)

lemma length_order_by [simp]: "completes q rows \<Longrightarrow> length (order_by key q rows) = length rows"
  by (metis mset_order_by size_mset)

lemma sorted_order_by [simp]: "sorted (map key (order_by key q rows))"
  by (simp add: order_by_def)

text \<open>When no two rows have the same key, the order of ties does not matter.\<close>

lemma order_by_unique:
  assumes "completes q rows" "inj_on key (set rows)"
  shows "order_by key q rows = sort_key key rows"
proof -
  have "sort_key key rows = order_by key q rows"
    by (rule sort_key_inj_key_eq) (use assms in simp_all)
  then show ?thesis by simp
qed

end
