(* ===== verification/History.thy ===== *)
theory History imports Queries "HOL-Library.Product_Lexorder" begin

text \<open>
  \<open>core/CallSessionTracker.{h,cpp}\<close>, which turns the events of a call into one history entry, and
  \<open>core/HistoryManager.{h,cpp}\<close>, which keeps the call log in the \<open>call_history\<close> table with its retention
  policy.  Times are milliseconds.  The sessions are an unordered map that is only looked up and
  searched for any match, so its iteration order does not matter.
\<close>

subsection \<open>Sessions\<close>

record session =
  se_accountId :: account_id
  se_remoteUri :: string
  se_dialedTarget :: string
  se_remoteDisplayName :: string
  se_direction :: call_direction
  se_firstSeenAt :: int
  se_startedAt :: int
  se_connected :: bool
  se_hasDirection :: bool

definition new_session :: session where
  "new_session = \<lparr>se_accountId = kInvalidAccountId, se_remoteUri = [], se_dialedTarget = [],
     se_remoteDisplayName = [], se_direction = Outbound, se_firstSeenAt = 0, se_startedAt = 0,
     se_connected = False, se_hasDirection = False\<rparr>"

type_synonym sessions = "(call_id \<times> session) list"

text \<open>\<open>m_sessions[id]\<close>: a missing session is created.\<close>

definition session_at :: "call_id \<Rightarrow> sessions \<Rightarrow> session" where
  "session_at i ss = (case map_of ss i of Some s \<Rightarrow> s | None \<Rightarrow> new_session)"

definition noteOutbound :: "call_id \<Rightarrow> account_id \<Rightarrow> string \<Rightarrow> int \<Rightarrow> sessions \<Rightarrow> sessions" where
  "noteOutbound i acc uri nowMs ss =
     (let s = session_at i ss
      in aput i (s\<lparr>se_accountId := acc, se_remoteUri := uri, se_dialedTarget := uri,
                   se_direction := Outbound, se_hasDirection := True,
                   se_firstSeenAt := (if se_firstSeenAt s = 0 then nowMs else se_firstSeenAt s)\<rparr>) ss)"

definition hasLiveOutboundTo :: "string \<Rightarrow> sessions \<Rightarrow> bool" where
  "hasLiveOutboundTo target ss =
     (if target = [] then False else list_ex (\<lambda>(i, s). se_dialedTarget s = target) ss)"

definition upserted :: "call_entry \<Rightarrow> int \<Rightarrow> session \<Rightarrow> session" where
  "upserted e nowMs s0 =
     (let s1 = (if se_firstSeenAt s0 = 0 then s0\<lparr>se_firstSeenAt := nowMs\<rparr> else s0);
          s2 = (if ce_accountId e \<noteq> kInvalidAccountId then s1\<lparr>se_accountId := ce_accountId e\<rparr> else s1);
          s3 = (if ce_remoteUri e \<noteq> [] then s2\<lparr>se_remoteUri := ce_remoteUri e\<rparr> else s2);
          s4 = (if ce_remoteDisplayName e \<noteq> [] then s3\<lparr>se_remoteDisplayName := ce_remoteDisplayName e\<rparr> else s3);
          hasEntryDetails = (ce_accountId e \<noteq> kInvalidAccountId \<or> ce_remoteUri e \<noteq> [] \<or> ce_remoteDisplayName e \<noteq> [])
      in if hasEntryDetails \<or> \<not> se_hasDirection s4
         then s4\<lparr>se_direction := ce_direction e, se_hasDirection := True\<rparr> else s4)"

definition upsertFromEntry :: "call_entry \<Rightarrow> int \<Rightarrow> sessions \<Rightarrow> session \<times> sessions" where
  "upsertFromEntry e nowMs ss =
     (let s = upserted e nowMs (session_at (ce_id e) ss) in (s, aput (ce_id e) s ss))"

definition noteIncoming :: "call_entry \<Rightarrow> int \<Rightarrow> sessions \<Rightarrow> sessions" where
  "noteIncoming e nowMs ss =
     (case upsertFromEntry e nowMs ss of
        (s, ss1) \<Rightarrow> aput (ce_id e) (s\<lparr>se_direction := Inbound, se_hasDirection := True\<rparr>) ss1)"

definition history_of_session :: "session \<Rightarrow> int \<Rightarrow> history_entry" where
  "history_of_session s nowMs = default_history_entry\<lparr>
     he_accountId := se_accountId s, he_direction := se_direction s, he_remoteUri := se_remoteUri s,
     he_remoteDisplayName := se_remoteDisplayName s,
     he_startedAt := (if se_connected s \<and> se_startedAt s > 0 then se_startedAt s
                      else if se_firstSeenAt s > 0 then se_firstSeenAt s else nowMs),
     he_durationMs := (if se_connected s \<and> se_startedAt s > 0 then max 0 (nowMs - se_startedAt s) else 0)\<rparr>"

definition noteState :: "call_entry \<Rightarrow> call_state \<Rightarrow> int \<Rightarrow> sessions \<Rightarrow> history_entry option \<times> sessions" where
  "noteState e st nowMs ss =
     (case upsertFromEntry e nowMs ss of (s, ss1) \<Rightarrow>
        if st = Confirmed
        then (None, if \<not> se_connected s
                    then aput (ce_id e) (s\<lparr>se_connected := True, se_startedAt := nowMs\<rparr>) ss1 else ss1)
        else if st \<noteq> Disconnected then (None, ss1)
        else if se_accountId s = kInvalidAccountId \<or> se_remoteUri s = [] then (None, adel (ce_id e) ss1)
        else (Some (history_of_session s nowMs), adel (ce_id e) ss1))"

definition session_erase :: "call_id \<Rightarrow> sessions \<Rightarrow> sessions" where
  "session_erase i ss = adel i ss"

subsection \<open>The call log\<close>

definition kInvalidHistoryId :: int where "kInvalidHistoryId = -1"
definition kMaxEntries :: int where "kMaxEntries = 50"
definition kMaxAgeMs :: int where "kMaxAgeMs = 90 * 24 * 60 * 60 * 1000"

definition history_row_of :: "history_entry \<Rightarrow> history_row" where
  "history_row_of e = \<lparr>hr_account_id = he_accountId e, hr_direction = callDirectionToString (he_direction e),
     hr_remote_uri = he_remoteUri e, hr_remote_display = he_remoteDisplayName e,
     hr_started_at = he_startedAt e, hr_duration_ms = he_durationMs e, hr_end_reason = he_endReason e\<rparr>"

definition rowToEntry :: "int \<times> history_row \<Rightarrow> history_entry" where
  "rowToEntry x = (case x of (i, r) \<Rightarrow>
     \<lparr>he_id = i, he_accountId = hr_account_id r,
      he_direction = (if c_text (hr_direction r) = ''in'' then Inbound else Outbound),
      he_remoteUri = c_text (hr_remote_uri r), he_remoteDisplayName = c_text (hr_remote_display r),
      he_startedAt = hr_started_at r, he_durationMs = hr_duration_ms r,
      he_endReason = c_text (hr_end_reason r)\<rparr>)"

definition on_history :: "((int \<times> history_row) list \<Rightarrow> (int \<times> history_row) list) \<Rightarrow> database \<Rightarrow> database" where
  "on_history g db = db\<lparr>db_tables := (db_tables db)\<lparr>t_history := g (t_history (db_tables db))\<rparr>\<rparr>"

text \<open>The INSERT needs a live account: the foreign key is enforced.\<close>

definition sql_insert_history :: "bool \<Rightarrow> history_row \<Rightarrow> database \<Rightarrow> int option \<times> database" where
  "sql_insert_history runs r db =
     (if runs \<and> ahas (t_accounts (db_tables db)) (hr_account_id r)
      then (let i = next_rowid (t_history (db_tables db)) in (Some i, on_history (\<lambda>t. t @ [(i, r)]) db))
      else (None, db))"

text \<open>\<open>ORDER BY started_at DESC, id DESC LIMIT n\<close>; a negative limit is no limit.\<close>

definition newest_key :: "int \<times> history_row \<Rightarrow> int \<times> int" where
  "newest_key x = (- hr_started_at (snd x), - fst x)"

definition newest :: "int \<Rightarrow> (int \<times> history_row) list \<Rightarrow> (int \<times> history_row) list" where
  "newest n t = sql_limit n (sort_key newest_key t)"

definition drop_older :: "int \<Rightarrow> (int \<times> history_row) list \<Rightarrow> (int \<times> history_row) list" where
  "drop_older cutoff t = filter (\<lambda>(i, r). \<not> hr_started_at r < cutoff) t"

definition keep_newest :: "int \<Rightarrow> (int \<times> history_row) list \<Rightarrow> (int \<times> history_row) list" where
  "keep_newest n t = filter (\<lambda>x. fst x \<in> set (map fst (newest n t))) t"

text \<open>Statements 1 and 2 of \<open>append\<close> are the two DELETEs of \<open>prune\<close>.\<close>

definition hm_prune :: "(nat \<Rightarrow> bool) \<Rightarrow> int \<Rightarrow> database \<Rightarrow> database" where
  "hm_prune f referenceNowMs db =
     (if \<not> db_handle db then db
      else let db1 = (if referenceNowMs > kMaxAgeMs \<and> f 1
                      then on_history (drop_older (referenceNowMs - kMaxAgeMs)) db else db)
           in if f 2 then on_history (keep_newest kMaxEntries) db1 else db1)"

definition hm_append :: "(nat \<Rightarrow> bool) \<Rightarrow> history_entry \<Rightarrow> database \<Rightarrow> int \<times> database" where
  "hm_append f e db =
     (if \<not> db_handle db then (kInvalidHistoryId, db)
      else case sql_insert_history (f 0) (history_row_of e) db of
        (None, db1) \<Rightarrow> (kInvalidHistoryId, db1)
      | (Some i, db1) \<Rightarrow> (i, hm_prune f (he_startedAt e) db1))"

text \<open>\<open>ORDER BY started_at DESC\<close> leaves ties in an order SQLite does not specify: any \<open>perm\<close> of the rows
  before a stable sort gives every possibility.\<close>

definition hm_list ::
  "((int \<times> history_row) list \<Rightarrow> (int \<times> history_row) list) \<Rightarrow> bool \<Rightarrow> int \<Rightarrow> database \<Rightarrow> history_entry list" where
  "hm_list perm prepared limit db =
     (if \<not> db_handle db \<or> \<not> prepared then []
      else map rowToEntry (sql_limit limit
             (sort_key (\<lambda>x. - hr_started_at (snd x)) (perm (t_history (db_tables db))))))"

definition hm_findById :: "bool \<Rightarrow> int \<Rightarrow> database \<Rightarrow> history_entry option" where
  "hm_findById prepared i db =
     (if \<not> db_handle db \<or> \<not> prepared then None
      else map_option (\<lambda>r. rowToEntry (i, r)) (map_of (t_history (db_tables db)) i))"

subsection \<open>Facts about sessions\<close>

lemma session_at_aput [simp]: "session_at j (aput i s ss) = (if j = i then s else session_at j ss)"
  by (simp add: session_at_def)

lemma session_at_adel [simp]: "session_at j (adel i ss) = (if j = i then new_session else session_at j ss)"
  by (simp add: session_at_def)

lemma upsertFromEntry_simps [simp]:
  "fst (upsertFromEntry e t ss) = upserted e t (session_at (ce_id e) ss)"
  "snd (upsertFromEntry e t ss) = aput (ce_id e) (upserted e t (session_at (ce_id e) ss)) ss"
  by (simp_all add: upsertFromEntry_def Let_def)

lemma upsertFromEntry_pair:
  "upsertFromEntry e t ss =
     (upserted e t (session_at (ce_id e) ss), aput (ce_id e) (upserted e t (session_at (ce_id e) ss)) ss)"
  by (simp add: upsertFromEntry_def Let_def)

lemma upserted_fields [simp]:
  "se_dialedTarget (upserted e t s) = se_dialedTarget s"
  "se_connected (upserted e t s) = se_connected s"
  "se_startedAt (upserted e t s) = se_startedAt s"
  "se_hasDirection (upserted e t s)"
  "se_firstSeenAt (upserted e t s) = (if se_firstSeenAt s = 0 then t else se_firstSeenAt s)"
  "se_accountId (upserted e t s) = (if ce_accountId e \<noteq> kInvalidAccountId then ce_accountId e else se_accountId s)"
  "se_remoteUri (upserted e t s) = (if ce_remoteUri e \<noteq> [] then ce_remoteUri e else se_remoteUri s)"
  by (simp_all add: upserted_def Let_def)

text \<open>A call seen through its events: what its session must hold while it lives.\<close>

definition outbound_session :: "account_id \<Rightarrow> string \<Rightarrow> int \<Rightarrow> int option \<Rightarrow> session \<Rightarrow> bool" where
  "outbound_session acc uri t0 c s \<longleftrightarrow>
     se_accountId s = acc \<and> se_remoteUri s \<noteq> [] \<and> se_dialedTarget s = uri \<and> se_direction s = Outbound \<and>
     se_hasDirection s \<and> se_firstSeenAt s = t0 \<and> se_connected s = (c \<noteq> None) \<and>
     (\<forall>t. c = Some t \<longrightarrow> se_startedAt s = t)"

text \<open>The entries \<open>CallManager\<close> reports for a call the user dialled: the account it was dialled from,
  or no details at all when the call has left the snapshot.\<close>

definition dialled_entry :: "account_id \<Rightarrow> call_entry \<Rightarrow> bool" where
  "dialled_entry acc e \<longleftrightarrow> ce_direction e = Outbound \<and> ce_accountId e \<in> {acc, kInvalidAccountId}"

lemma upserted_outbound:
  assumes "outbound_session acc uri t0 c s" "t0 \<noteq> 0" "dialled_entry acc e"
  shows "outbound_session acc uri t0 c (upserted e t s)"
  using assms by (auto simp: outbound_session_def dialled_entry_def upserted_def Let_def)

text \<open>The events of many calls, in order, and what they put in the log.\<close>

fun session_run :: "(call_entry \<times> call_state \<times> int) list \<Rightarrow> sessions \<Rightarrow> history_entry option list \<times> sessions" where
  "session_run [] ss = ([], ss)"
| "session_run ((e, st, t) # evs) ss =
     (case noteState e st t ss of (h, ss1) \<Rightarrow>
        (case session_run evs ss1 of (hs, ss2) \<Rightarrow> (h # hs, ss2)))"

fun confirmed_at :: "call_id \<Rightarrow> (call_entry \<times> call_state \<times> int) list \<Rightarrow> int option" where
  "confirmed_at i [] = None"
| "confirmed_at i ((e, st, t) # evs) =
     (if ce_id e = i \<and> st = Confirmed then Some t else confirmed_at i evs)"

lemma noteState_other: "ce_id e \<noteq> i \<Longrightarrow> session_at i (snd (noteState e st t ss)) = session_at i ss"
  by (simp add: noteState_def upsertFromEntry_pair)

lemma noteState_live:
  assumes "outbound_session acc uri t0 c (session_at (ce_id e) ss)" "t0 \<noteq> 0" "dialled_entry acc e"
    and "st \<noteq> Disconnected"
  shows "fst (noteState e st t ss) = None"
    and "outbound_session acc uri t0 (if c = None \<and> st = Confirmed then Some t else c)
           (session_at (ce_id e) (snd (noteState e st t ss)))"
proof -
  let ?s = "upserted e t (session_at (ce_id e) ss)"
  have s: "outbound_session acc uri t0 c ?s" by (rule upserted_outbound[OF assms(1-3)])
  show "fst (noteState e st t ss) = None"
    using assms(4) by (simp add: noteState_def upsertFromEntry_pair)
  show "outbound_session acc uri t0 (if c = None \<and> st = Confirmed then Some t else c)
          (session_at (ce_id e) (snd (noteState e st t ss)))"
    using s assms(4) by (cases c) (auto simp: noteState_def upsertFromEntry_pair outbound_session_def)
qed

lemma session_run_live:
  assumes "outbound_session acc uri t0 c (session_at i ss)" "t0 \<noteq> 0"
    and "\<forall>(e, st, t) \<in> set evs. ce_id e = i \<longrightarrow> dialled_entry acc e \<and> st \<noteq> Disconnected"
  shows "outbound_session acc uri t0 (if c = None then confirmed_at i evs else c)
           (session_at i (snd (session_run evs ss)))"
  using assms
proof (induction evs arbitrary: ss c)
  case (Cons x evs)
  obtain e st t where x: "x = (e, st, t)" by (cases x)
  let ?c = "if ce_id e = i \<and> c = None \<and> st = Confirmed then Some t else c"
  have "outbound_session acc uri t0 ?c (session_at i (snd (noteState e st t ss)))"
    using noteState_live(2)[of acc uri t0 c e ss st t] noteState_other[of e i st t ss] Cons.prems
    by (cases "ce_id e = i") (auto simp: x)
  from Cons.IH[OF this Cons.prems(2)] Cons.prems(3) show ?case
    by (auto simp: x split: prod.split if_splits)
qed auto

lemma session_run_no_entry:
  assumes "outbound_session acc uri t0 c (session_at i ss)" "t0 \<noteq> 0"
    and "\<forall>(e, st, t) \<in> set evs. ce_id e = i \<longrightarrow> dialled_entry acc e \<and> st \<noteq> Disconnected"
    and "k < length evs" "ce_id (fst (evs ! k)) = i"
  shows "fst (session_run evs ss) ! k = None"
  using assms
proof (induction evs arbitrary: ss c k)
  case (Cons x evs)
  obtain e st t where x: "x = (e, st, t)" by (cases x)
  let ?c = "if ce_id e = i \<and> c = None \<and> st = Confirmed then Some t else c"
  have s: "outbound_session acc uri t0 ?c (session_at i (snd (noteState e st t ss)))"
    using noteState_live(2)[of acc uri t0 c e ss st t] noteState_other[of e i st t ss] Cons.prems(1-3)
    by (cases "ce_id e = i") (auto simp: x)
  show ?case
  proof (cases k)
    case 0
    with Cons.prems noteState_live(1)[of acc uri t0 c e ss st t] show ?thesis
      by (auto simp: x split: prod.split)
  next
    case (Suc k')
    with Cons.IH[OF s Cons.prems(2), of k'] Cons.prems(3-5) show ?thesis
      by (auto simp: x split: prod.split)
  qed
qed simp

lemma outbound_session_live:
  assumes "outbound_session acc uri t0 c (session_at i ss)" "uri \<noteq> []"
  shows "hasLiveOutboundTo uri ss"
proof -
  obtain s where "map_of ss i = Some s" "se_dialedTarget s = uri"
    using assms by (cases "map_of ss i") (auto simp: session_at_def outbound_session_def new_session_def)
  then show ?thesis using assms(2) map_of_SomeD by (fastforce simp: hasLiveOutboundTo_def list_ex_iff)
qed

lemma confirmed_at_pos: "\<forall>(e, st, t) \<in> set evs. t > 0 \<Longrightarrow> confirmed_at i evs = Some t \<Longrightarrow> t > 0"
  by (induction evs) (auto split: if_splits)

lemma noteOutbound_session:
  assumes "\<not> ahas ss i" "uri \<noteq> []"
  shows "outbound_session acc uri t0 None (session_at i (noteOutbound i acc uri t0 ss))"
proof -
  have "session_at i ss = new_session" using assms(1) by (auto simp: session_at_def ahas_def split: option.splits)
  with assms(2) show ?thesis by (simp add: noteOutbound_def outbound_session_def new_session_def)
qed

lemma noteState_end:
  assumes "outbound_session acc uri t0 c (session_at (ce_id e) ss)" "t0 > 0" "dialled_entry acc e"
    and "acc \<noteq> kInvalidAccountId" "\<forall>t. c = Some t \<longrightarrow> t > 0"
  shows "\<exists>h. noteState e Disconnected t1 ss = (Some h, adel (ce_id e) (aput (ce_id e) (upserted e t1 (session_at (ce_id e) ss)) ss))
     \<and> he_accountId h = acc \<and> he_direction h = Outbound \<and> he_remoteUri h \<noteq> []
     \<and> he_startedAt h = (case c of Some t \<Rightarrow> t | None \<Rightarrow> t0)
     \<and> he_durationMs h = (case c of Some t \<Rightarrow> max 0 (t1 - t) | None \<Rightarrow> 0)"
proof -
  let ?s = "upserted e t1 (session_at (ce_id e) ss)"
  have s: "outbound_session acc uri t0 c ?s" using assms(1-3) by (intro upserted_outbound) auto
  then have "fst (noteState e Disconnected t1 ss) = Some (history_of_session ?s t1)"
    "snd (noteState e Disconnected t1 ss) = adel (ce_id e) (aput (ce_id e) ?s ss)"
    using assms(4) by (simp_all add: noteState_def upsertFromEntry_pair outbound_session_def)
  then show ?thesis using s assms(2,5)
    by (intro exI[of _ "history_of_session ?s t1"])
       (auto simp: prod_eq_iff history_of_session_def outbound_session_def default_history_entry_def
             simp del: upserted_fields split: option.splits)
qed

text \<open>C24. A call the user dials gives no log entry while it lives and blocks a second dial to the same
  target, whatever other calls do in between; when it ends, exactly one entry is produced, outbound,
  for the account it was dialled from, starting when it was answered (or dialled, when it never was)
  and lasting from the answer to the end; its session is gone and the sessions of other calls are as
  they were.\<close>

theorem dialled_call_logged_once:
  assumes "\<not> ahas ss i" "uri \<noteq> []" "acc \<noteq> kInvalidAccountId" "t0 > 0"
    and "\<forall>(e, st, t) \<in> set evs. t > 0 \<and> (ce_id e = i \<longrightarrow> dialled_entry acc e \<and> st \<noteq> Disconnected)"
    and "ce_id d = i" "dialled_entry acc d"
    and "ss1 = snd (session_run evs (noteOutbound i acc uri t0 ss))"
  shows "hasLiveOutboundTo uri ss1
    \<and> (\<exists>h ss2. noteState d Disconnected t1 ss1 = (Some h, ss2)
         \<and> he_accountId h = acc \<and> he_direction h = Outbound \<and> he_remoteUri h \<noteq> []
         \<and> he_startedAt h = (case confirmed_at i evs of Some t \<Rightarrow> t | None \<Rightarrow> t0)
         \<and> he_durationMs h = (case confirmed_at i evs of Some t \<Rightarrow> max 0 (t1 - t) | None \<Rightarrow> 0)
         \<and> \<not> ahas ss2 i \<and> (\<forall>j. j \<noteq> i \<longrightarrow> map_of ss2 j = map_of ss1 j))
    \<and> (\<forall>k < length evs. ce_id (fst (evs ! k)) = i \<longrightarrow>
         fst (session_run evs (noteOutbound i acc uri t0 ss)) ! k = None)"
proof -
  have s0: "outbound_session acc uri t0 None (session_at i (noteOutbound i acc uri t0 ss))"
    using assms(1,2) by (rule noteOutbound_session)
  have t0: "t0 \<noteq> 0" using assms(4) by simp
  have evs: "\<forall>(e, st, t) \<in> set evs. ce_id e = i \<longrightarrow> dialled_entry acc e \<and> st \<noteq> Disconnected"
    using assms(5) by auto
  have s1: "outbound_session acc uri t0 (confirmed_at i evs) (session_at (ce_id d) ss1)"
    using session_run_live[OF s0 t0 evs] assms(6,8) by simp
  have pos: "\<forall>t. confirmed_at i evs = Some t \<longrightarrow> t > 0"
    using confirmed_at_pos[of evs i] assms(5) by blast
  show ?thesis
    using noteState_end[OF s1 assms(4) assms(7) assms(3) pos, of t1] outbound_session_live[OF s1 assms(2)]
      session_run_no_entry[OF s0 t0 evs] assms(6) by auto
qed

theorem dialled_call_logged_once_witness:
  "\<exists>h ss2. noteState (default_call_entry\<lparr>ce_id := 1\<rparr>) Disconnected 5000
       (snd (session_run
          [(default_call_entry\<lparr>ce_id := 1, ce_accountId := 7\<rparr>, Calling, 1100),
           (default_call_entry\<lparr>ce_id := 2, ce_direction := Inbound\<rparr>, Calling, 1500),
           (default_call_entry\<lparr>ce_id := 1, ce_accountId := 7\<rparr>, Confirmed, 2000)]
          (noteOutbound 1 7 ''sip:b@x'' 1000 []))) = (Some h, ss2)
     \<and> he_startedAt h = 2000 \<and> he_durationMs h = 3000"
proof -
  let ?e = "default_call_entry\<lparr>ce_id := 1, ce_accountId := 7\<rparr>"
  let ?evs = "[(?e, Calling, 1100), (default_call_entry\<lparr>ce_id := 2, ce_direction := Inbound\<rparr>, Calling, 1500),
               (?e, Confirmed, 2000 :: int)]"
  show ?thesis
    using dialled_call_logged_once[of "[]" 1 "''sip:b@x''" 7 1000 ?evs "default_call_entry\<lparr>ce_id := 1\<rparr>" _ 5000,
        OF _ _ _ _ _ _ _ refl]
    by (auto simp: dialled_entry_def default_call_entry_def kInvalidAccountId_def)
qed

subsection \<open>Facts about the log\<close>

lemma set_newest: "set (newest n t) \<subseteq> set t"
  by (auto simp: newest_def sql_limit_def dest: in_set_takeD)

lemma key_eq_imp_eq: "distinct (map fst t) \<Longrightarrow> x \<in> set t \<Longrightarrow> y \<in> set t \<Longrightarrow> fst x = fst y \<Longrightarrow> x = y"
  by (auto simp: distinct_map inj_on_def)

lemma newest_before_rest:
  assumes "distinct (map fst t)" "x \<in> set (newest n t)" "y \<in> set t" "y \<notin> set (newest n t)"
  shows "newest_key x < newest_key y"
proof -
  let ?s = "sort_key newest_key t"
  have n: "\<not> n < 0" using assms(3,4) by (auto simp: newest_def sql_limit_def)
  have yd: "y \<in> set (drop (nat n) ?s)"
  proof -
    have "y \<in> set (take (nat n) ?s) \<union> set (drop (nat n) ?s)"
      using assms(3) by (metis append_take_drop_id set_append set_sort)
    then show ?thesis using assms(4) n by (simp add: newest_def sql_limit_def)
  qed
  have "sorted (map newest_key (take (nat n) ?s) @ map newest_key (drop (nat n) ?s))"
    by (metis append_take_drop_id map_append sorted_sort_key)
  then have "newest_key x \<le> newest_key y"
    using assms(2) yd n by (auto simp: newest_def sql_limit_def sorted_append)
  moreover have "fst x \<noteq> fst y"
    using assms(2-4) set_newest[of n t] key_eq_imp_eq[OF assms(1), of x y] by blast
  ultimately show ?thesis by (auto simp: newest_key_def less_prod_def less_eq_prod_def)
qed

lemma keep_newest_set:
  assumes "distinct (map fst t)"
  shows "set (keep_newest n t) = set (newest n t)"
proof -
  have "x \<in> set (newest n t)" if "x \<in> set t" "y \<in> set (newest n t)" "fst x = fst y" for x y
    using that set_newest[of n t] key_eq_imp_eq[OF assms, of x y] by auto
  moreover have "x \<in> set (keep_newest n t) \<longleftrightarrow> x \<in> set t \<and> (\<exists>y \<in> set (newest n t). fst x = fst y)" for x
    by (auto simp: keep_newest_def image_iff)
  ultimately show ?thesis using set_newest[of n t] by blast
qed

lemma length_keep_newest:
  assumes "distinct (map fst t)" "0 \<le> n"
  shows "length (keep_newest n t) = min (nat n) (length t)"
proof -
  have dt: "distinct t" using assms(1) by (simp add: distinct_map)
  then have dn: "distinct (newest n t)"
    by (simp add: newest_def sql_limit_def distinct_take)
  have "distinct (keep_newest n t)" using dt by (simp add: keep_newest_def)
  then have "length (keep_newest n t) = card (set (newest n t))"
    by (simp add: distinct_card flip: keep_newest_set[OF assms(1)])
  also have "\<dots> = length (newest n t)" by (rule distinct_card[OF dn])
  finally show ?thesis using assms(2) by (simp add: newest_def sql_limit_def)
qed

lemma on_history_simps [simp]:
  "t_history (db_tables (on_history g db)) = g (t_history (db_tables db))"
  "t_accounts (db_tables (on_history g db)) = t_accounts (db_tables db)"
  "db_handle (on_history g db) = db_handle db" "db_tx (on_history g db) = db_tx db"
  by (simp_all add: on_history_def)

text \<open>The rows after an append whose three statements all run.\<close>

definition appended_rows :: "history_entry \<Rightarrow> (int \<times> history_row) list \<Rightarrow> (int \<times> history_row) list" where
  "appended_rows e t = (let t1 = t @ [(next_rowid t, history_row_of e)]
     in if he_startedAt e > kMaxAgeMs then drop_older (he_startedAt e - kMaxAgeMs) t1 else t1)"

lemma hm_append_all:
  assumes "db_handle db" "ahas (t_accounts (db_tables db)) (he_accountId e)"
  shows "hm_append (\<lambda>_. True) e db =
    (next_rowid (t_history (db_tables db)), on_history (\<lambda>t. keep_newest kMaxEntries (appended_rows e t)) db)"
  using assms by (auto simp: hm_append_def sql_insert_history_def hm_prune_def appended_rows_def Let_def
      on_history_def history_row_of_def)

lemma keys_sorted_appended: "keys_sorted t \<Longrightarrow> keys_sorted (appended_rows e t)"
  using insert_row_aput[of t "history_row_of e"] by (simp add: appended_rows_def Let_def drop_older_def)

text \<open>After an append the log holds at most 50 rows; a row that the age limit of the appended call
  admits is kept exactly when it is among the 50 newest by start time and id, so every kept row is newer
  than every dropped one; nothing is dropped while there is room; and the database stays well
  formed.\<close>

theorem append_retention:
  assumes "db_ok db" "db_handle db" "ahas (t_accounts (db_tables db)) (he_accountId e)"
    and "hm_append (\<lambda>_. True) e db = (i, db')"
    and "rows = appended_rows e (t_history (db_tables db))"
    and "kept = t_history (db_tables db')"
  shows "db_ok db' \<and> length kept = min 50 (length rows) \<and> set kept \<subseteq> set rows
    \<and> (\<forall>x \<in> set kept. \<forall>y \<in> set rows - set kept. newest_key x < newest_key y)"
proof -
  let ?t = "t_history (db_tables db)"
  have ks: "keys_sorted ?t" and old: "\<forall>(j, h) \<in> set ?t. ahas (t_accounts (db_tables db)) (hr_account_id h)"
    using assms(1) by (auto simp: db_ok_def Let_def)
  have krows: "keys_sorted rows" unfolding assms(5) by (rule keys_sorted_appended[OF ks])
  then have d: "distinct (map fst rows)" by (rule keys_sorted_distinct)
  have db': "db' = on_history (\<lambda>t. keep_newest kMaxEntries (appended_rows e t)) db"
    using assms(4) by (simp add: hm_append_all[OF assms(2,3)])
  have kept: "kept = keep_newest kMaxEntries rows" by (simp add: assms(5,6) db')
  have "keys_sorted kept" using krows by (simp add: kept keep_newest_def)
  moreover have "\<forall>(j, h) \<in> set kept. ahas (t_accounts (db_tables db)) (hr_account_id h)"
    using old assms(3) by (auto simp: kept keep_newest_def assms(5) appended_rows_def drop_older_def Let_def
        history_row_of_def split: if_splits)
  ultimately have "db_ok db'"
    using assms(1) kept by (auto simp: db_ok_def Let_def db' on_history_def assms(5))
  moreover have "length kept = min 50 (length rows)"
    using length_keep_newest[OF d, of kMaxEntries] by (simp add: kept kMaxEntries_def)
  moreover have "set kept = set (newest kMaxEntries rows)" unfolding kept by (rule keep_newest_set[OF d])
  ultimately show ?thesis
    using newest_before_rest[OF d, of _ kMaxEntries] set_newest[of kMaxEntries rows] by auto
qed

text \<open>A log with one account and the given start times, for the witnesses.\<close>

definition sample_log :: "int list \<Rightarrow> database" where
  "sample_log ts = \<lparr>db_handle = True, db_tables = \<lparr>t_accounts = [(1, row_of_account default_account)],
     t_history = map (\<lambda>(i, t). (i, \<lparr>hr_account_id = 1, hr_direction = ''out'', hr_remote_uri = ''sip:b@x'',
        hr_remote_display = [], hr_started_at = t, hr_duration_ms = 0, hr_end_reason = []\<rparr>)) (map (\<lambda>(n, t). (int n, t)) (enumerate 1 ts)),
     t_messages = [], t_contacts = [], t_lines = [], t_settings = []\<rparr>, db_tx = None\<rparr>"

definition sample_call :: "int \<Rightarrow> history_entry" where
  "sample_call t = default_history_entry\<lparr>he_accountId := 1, he_remoteUri := ''sip:c@x'', he_startedAt := t\<rparr>"

definition day :: int where "day = 24 * 60 * 60 * 1000"

lemmas sample_defs = sample_log_def sample_call_def day_def default_history_entry_def history_row_of_def

lemma sample_ok: "db_ok (sample_log [300 * day, 150 * day])"
  by (simp add: db_ok_def sample_log_def Let_def keys_sorted_def ahas_def row_of_account_def
      default_account_def numeral_2_eq_2)

theorem append_retention_witness:
  "length (t_history (db_tables (snd (hm_append (\<lambda>_. True) (sample_call (200 * day)) (sample_log [300 * day, 150 * day]))))) = 3"
  using append_retention[OF sample_ok, of "sample_call (200 * day)" _ _ _ _, OF _ _ prod.collapse[symmetric] refl refl]
  by (simp add: sample_log_def sample_call_def ahas_def appended_rows_def drop_older_def sample_defs kMaxAgeMs_def)

lemma keep_newest_all: "length t \<le> nat n \<Longrightarrow> 0 \<le> n \<Longrightarrow> keep_newest n t = t"
  by (simp add: keep_newest_def newest_def sql_limit_def filter_id_conv)

lemma append_kept:
  assumes "db_handle db" "ahas (t_accounts (db_tables db)) (he_accountId e)"
    and "hm_append (\<lambda>_. True) e db = (i, db')" "length (t_history (db_tables db)) < 50"
  shows "t_history (db_tables db') = appended_rows e (t_history (db_tables db))"
    and "i = next_rowid (t_history (db_tables db))"
proof -
  have "length (appended_rows e (t_history (db_tables db))) \<le> nat kMaxEntries"
    using assms(4) by (auto simp: appended_rows_def drop_older_def Let_def kMaxEntries_def
        intro: le_trans[OF length_filter_le])
  then have "keep_newest kMaxEntries (appended_rows e (t_history (db_tables db)))
      = appended_rows e (t_history (db_tables db))"
    by (rule keep_newest_all) (simp add: kMaxEntries_def)
  then show "t_history (db_tables db') = appended_rows e (t_history (db_tables db))"
    "i = next_rowid (t_history (db_tables db))"
    using assms(3) by (simp_all add: hm_append_all[OF assms(1,2)]) auto
qed

text \<open>The age limit is anchored on the call being appended, not on the newest call of the log: when
  that call is stamped more than 90 days after every logged one (a clock that runs ahead once), the
  log is wiped down to it; and a call appended with an older stamp drops nothing that is within 90
  days before it, however far behind the newest logged call those rows are.\<close>

theorem append_age_anchor:
  assumes "db_handle db" "ahas (t_accounts (db_tables db)) (he_accountId e)"
    and "he_startedAt e > kMaxAgeMs" "length (t_history (db_tables db)) < 50"
    and "hm_append (\<lambda>_. True) e db = (i, db')"
  shows "((\<forall>(j, r) \<in> set (t_history (db_tables db)). hr_started_at r < he_startedAt e - kMaxAgeMs) \<longrightarrow>
            t_history (db_tables db') = [(i, history_row_of e)])
       \<and> ((\<forall>(j, r) \<in> set (t_history (db_tables db)). hr_started_at r \<ge> he_startedAt e - kMaxAgeMs) \<longrightarrow>
            t_history (db_tables db') = t_history (db_tables db) @ [(i, history_row_of e)])"
proof -
  let ?t = "t_history (db_tables db)" and ?c = "he_startedAt e - kMaxAgeMs"
  have rows: "t_history (db_tables db') = drop_older ?c ?t @ [(i, history_row_of e)]"
    using append_kept[OF assms(1,2,5,4)] assms(3)
    by (simp add: appended_rows_def Let_def drop_older_def history_row_of_def kMaxAgeMs_def)
  show ?thesis by (auto simp: rows drop_older_def filter_empty_conv filter_id_conv)
qed

theorem append_age_anchor_witness:
  "t_history (db_tables (snd (hm_append (\<lambda>_. True) (sample_call (400 * day)) (sample_log [300 * day, 150 * day]))))
     = [(3, history_row_of (sample_call (400 * day)))]
   \<and> map (\<lambda>(j, r). hr_started_at r) (t_history (db_tables
       (snd (hm_append (\<lambda>_. True) (sample_call (200 * day)) (sample_log [300 * day, 150 * day])))))
     = [300 * day, 150 * day, 200 * day]"
proof -
  let ?db = "sample_log [300 * day, 150 * day]"
  have db: "db_handle ?db" "length (t_history (db_tables ?db)) < 50"
    and e: "ahas (t_accounts (db_tables ?db)) (he_accountId (sample_call t))"
      "t > 90 * day \<Longrightarrow> he_startedAt (sample_call t) > kMaxAgeMs" for t
    by (simp_all add: sample_defs ahas_def kMaxAgeMs_def)
  have id: "fst (hm_append (\<lambda>_. True) (sample_call t) ?db) = 3" for t
    by (simp add: hm_append_all[OF db(1) e(1)]) (simp add: sample_log_def next_rowid_def)
  have "t_history (db_tables (snd (hm_append (\<lambda>_. True) (sample_call (400 * day)) ?db)))
     = [(3, history_row_of (sample_call (400 * day)))]"
    using append_age_anchor[OF db(1) e(1) e(2) db(2) prod.collapse[symmetric], of "400 * day"]
    by (simp add: id) (simp add: sample_defs kMaxAgeMs_def)
  moreover have "t_history (db_tables (snd (hm_append (\<lambda>_. True) (sample_call (200 * day)) ?db)))
     = t_history (db_tables ?db) @ [(3, history_row_of (sample_call (200 * day)))]"
    using append_age_anchor[OF db(1) e(1) e(2) db(2) prod.collapse[symmetric], of "200 * day"]
    by (simp add: id) (simp add: sample_defs kMaxAgeMs_def)
  ultimately show ?thesis by (simp add: sample_defs)
qed

text \<open>A logged call reads back as it was appended, with the id that append returned, whenever the log
  has room for it.\<close>

theorem history_roundtrip:
  assumes "db_ok db" "db_handle db" "ahas (t_accounts (db_tables db)) (he_accountId e)"
    and "length (t_history (db_tables db)) < 50"
    and "list_all no_nul [he_remoteUri e, he_remoteDisplayName e, he_endReason e]"
    and "hm_append (\<lambda>_. True) e db = (i, db')"
  shows "hm_findById True i db' = Some (e\<lparr>he_id := i\<rparr>)"
proof -
  let ?t = "t_history (db_tables db)" and ?r = "history_row_of e"
  have ks: "keys_sorted ?t" using assms(1) by (simp add: db_ok_def Let_def)
  have rows: "t_history (db_tables db') = appended_rows e ?t" and i: "i = next_rowid ?t"
    using append_kept[OF assms(2,3,6,4)] by simp_all
  have d: "distinct (map fst (appended_rows e ?t))"
    by (intro keys_sorted_distinct keys_sorted_appended ks)
  have "(i, ?r) \<in> set (appended_rows e ?t)"
    by (auto simp: appended_rows_def Let_def drop_older_def i history_row_of_def kMaxAgeMs_def)
  then have "map_of (t_history (db_tables db')) i = Some ?r" using d by (simp add: rows)
  moreover have "db_handle db'" using assms(6) by (auto simp: hm_append_all[OF assms(2,3)] assms(2))
  moreover have "c_text ''in'' = ''in''" "c_text ''out'' = ''out''" by (simp_all add: c_text_def code_def)
  ultimately show ?thesis using assms(5)
    by (cases e; cases "he_direction e") (simp_all add: hm_findById_def rowToEntry_def history_row_of_def)
qed

theorem history_roundtrip_witness:
  "hm_findById True 3 (snd (hm_append (\<lambda>_. True) (sample_call (200 * day)) (sample_log [300 * day, 150 * day])))
     = Some (sample_call (200 * day)\<lparr>he_id := 3\<rparr>)"
proof -
  let ?db = "sample_log [300 * day, 150 * day]"
  have "fst (hm_append (\<lambda>_. True) (sample_call (200 * day)) ?db) = 3"
    by (subst hm_append_all) (simp_all add: sample_log_def sample_call_def ahas_def next_rowid_def)
  then show ?thesis
    using history_roundtrip[OF sample_ok, of "sample_call (200 * day)", OF _ _ _ _ prod.collapse[symmetric]]
    by (simp add: ahas_def sample_log_def sample_call_def default_history_entry_def no_nul_def code_def)
qed

text \<open>The list shows the newest calls first, whatever order SQLite returns ties in, and nothing that is
  left out by the limit is newer than what is shown.\<close>

lemma list_newest_first:
  assumes "db_handle db" "mset (p (t_history (db_tables db))) = mset (t_history (db_tables db))" "0 \<le> n"
  shows "sorted_wrt (\<ge>) (map he_startedAt (hm_list p True n db))"
    and "length (hm_list p True n db) = min (nat n) (length (t_history (db_tables db)))"
    and "set (hm_list p True n db) \<subseteq> rowToEntry ` set (t_history (db_tables db))"
proof -
  let ?s = "sort_key (\<lambda>x. - hr_started_at (snd x)) (p (t_history (db_tables db)))"
  have h: "he_startedAt (rowToEntry x) = hr_started_at (snd x)" for x
    by (cases x) (simp add: rowToEntry_def)
  have "sorted (map (\<lambda>x. - hr_started_at (snd x)) ?s)" by simp
  then have "sorted_wrt (\<ge>) (map he_startedAt (map rowToEntry ?s))"
    by (simp add: sorted_map sorted_wrt_map h)
  then show "sorted_wrt (\<ge>) (map he_startedAt (hm_list p True n db))"
    using assms(1,3) by (simp add: hm_list_def sql_limit_def take_map[symmetric] sorted_wrt_take)
  have "length (p (t_history (db_tables db))) = length (t_history (db_tables db))"
    "set (p (t_history (db_tables db))) = set (t_history (db_tables db))"
    using assms(2) by (metis size_mset, metis set_mset_mset)
  then show "length (hm_list p True n db) = min (nat n) (length (t_history (db_tables db)))"
    "set (hm_list p True n db) \<subseteq> rowToEntry ` set (t_history (db_tables db))"
    using assms(1,3) by (auto simp: hm_list_def sql_limit_def dest: in_set_takeD)
qed

end
