(* ===== verification/BackendIf.thy ===== *)
theory BackendIf imports SipTypes begin

text \<open>
  The contracts the core relies on at its two boundaries (\<open>sipbackend/ISipBackend.h\<close>,
  \<open>core/platform/Keychain.h\<close>), as locales over a method table.

  A backend owns a set of live calls and a set of registered accounts.  It mints call ids that were
  never used before and are never the invalid id; a call stays live until \<open>releaseCall\<close>; an account
  stays until \<open>removeAccount\<close>; every other operation leaves both sets alone (\<open>other\<close> is whatever
  else about the backend the call operations do not touch).  The two views
  \<open>calls\<close> and \<open>accts\<close>, the set \<open>minted\<close> of all call ids ever issued and the backend's own
  invariant \<open>ok\<close> belong to the provider.
\<close>

definition keeps_view :: "('b \<Rightarrow> bool) \<Rightarrow> ('b \<Rightarrow> 'v) \<Rightarrow> 'b \<Rightarrow> 'b \<Rightarrow> bool" where
  "keeps_view ok view b b' \<longleftrightarrow> ok b' \<and> view b' = view b"

lemma keeps_view_refl [simp]: "ok b \<Longrightarrow> keeps_view ok view b b"
  by (simp add: keeps_view_def)

lemma keeps_view_trans:
  "keeps_view ok view a b \<Longrightarrow> keeps_view ok view b c \<Longrightarrow> keeps_view ok view a c"
  by (simp add: keeps_view_def)

locale call_backend =
  fixes B :: "'b isip_backend"
    and ok :: "'b \<Rightarrow> bool"
    and calls :: "'b \<Rightarrow> call_id set"
    and minted :: "'b \<Rightarrow> call_id set"
    and other :: "'b \<Rightarrow> 'o"
  assumes calls_minted: "ok b \<Longrightarrow> calls b \<subseteq> minted b"
    and invalid_not_minted: "ok b \<Longrightarrow> kInvalidCallId \<notin> minted b"
    and makeCall_law:
      "ok b \<Longrightarrow> bk_makeCall B b a u = (r, b') \<Longrightarrow>
       r = kInvalidCallId \<and> ok b' \<and> calls b' = calls b \<and> minted b \<subseteq> minted b' \<and> other b' = other b \<or>
       r \<noteq> kInvalidCallId \<and> r \<notin> minted b \<and> ok b' \<and>
       calls b' = insert r (calls b) \<and> minted b' = insert r (minted b) \<and> other b' = other b"
    and releaseCall_law:
      "ok b \<Longrightarrow> ok (bk_releaseCall B b c) \<and> calls (bk_releaseCall B b c) = calls b - {c} \<and>
       minted (bk_releaseCall B b c) = minted b \<and> other (bk_releaseCall B b c) = other b"
    and answer_law: "ok b \<Longrightarrow> keeps_view ok (\<lambda>b. (calls b, minted b, other b)) b (snd (bk_answer B b c))"
    and decline_law: "ok b \<Longrightarrow> keeps_view ok (\<lambda>b. (calls b, minted b, other b)) b (snd (bk_decline B b c n))"
    and redirect_law: "ok b \<Longrightarrow> keeps_view ok (\<lambda>b. (calls b, minted b, other b)) b (snd (bk_redirect B b c u))"
    and hangup_law: "ok b \<Longrightarrow> keeps_view ok (\<lambda>b. (calls b, minted b, other b)) b (bk_hangup B b c)"
    and hold_law: "ok b \<Longrightarrow> keeps_view ok (\<lambda>b. (calls b, minted b, other b)) b (snd (bk_hold B b c))"
    and unhold_law: "ok b \<Longrightarrow> keeps_view ok (\<lambda>b. (calls b, minted b, other b)) b (snd (bk_unhold B b c))"
    and setMuted_law: "ok b \<Longrightarrow> keeps_view ok (\<lambda>b. (calls b, minted b, other b)) b (snd (bk_setMuted B b c m))"
    and sendDtmf_law: "ok b \<Longrightarrow> keeps_view ok (\<lambda>b. (calls b, minted b, other b)) b (snd (bk_sendDtmf B b c d k))"
    and blindTransfer_law:
      "ok b \<Longrightarrow> keeps_view ok (\<lambda>b. (calls b, minted b, other b)) b (snd (bk_blindTransfer B b c u))"
    and attendedTransfer_law:
      "ok b \<Longrightarrow> keeps_view ok (\<lambda>b. (calls b, minted b, other b)) b (snd (bk_attendedTransfer B b c d'))"
    and bridge_law: "ok b \<Longrightarrow> keeps_view ok (\<lambda>b. (calls b, minted b, other b)) b (snd (bk_bridge B b c d'))"
    and startRecording_law:
      "ok b \<Longrightarrow> keeps_view ok (\<lambda>b. (calls b, minted b, other b)) b (snd (bk_startRecording B b c p))"
    and stopRecording_law:
      "ok b \<Longrightarrow> keeps_view ok (\<lambda>b. (calls b, minted b, other b)) b (snd (bk_stopRecording B b c))"
    and playFile_law: "ok b \<Longrightarrow> keeps_view ok (\<lambda>b. (calls b, minted b, other b)) b (snd (bk_playFile B b c p l))"
    and stopFile_law: "ok b \<Longrightarrow> keeps_view ok (\<lambda>b. (calls b, minted b, other b)) b (snd (bk_stopFile B b c))"
begin

definition same :: "'b \<Rightarrow> 'b \<Rightarrow> bool" where
  "same b b' \<longleftrightarrow> keeps_view ok (\<lambda>b. (calls b, minted b, other b)) b b'"

lemma sameD: "same b b' \<Longrightarrow> ok b' \<and> calls b' = calls b \<and> minted b' = minted b \<and> other b' = other b"
  by (simp add: same_def keeps_view_def)

lemma same_refl: "ok b \<Longrightarrow> same b b"
  by (simp add: same_def)

lemma same_trans: "same a b \<Longrightarrow> same b c \<Longrightarrow> same a c"
  unfolding same_def by (rule keeps_view_trans)

text \<open>The operations that keep every call alive, for a client that looks at the new state.\<close>

lemmas keeping_laws =
  answer_law decline_law redirect_law hangup_law hold_law unhold_law setMuted_law sendDtmf_law
  blindTransfer_law attendedTransfer_law bridge_law startRecording_law stopRecording_law
  playFile_law stopFile_law

lemmas same_laws = keeping_laws[folded same_def]

lemma same_results:
  "ok b \<Longrightarrow> bk_answer B b c = (r, b') \<Longrightarrow> same b b'"
  "ok b \<Longrightarrow> bk_decline B b c n = (r, b') \<Longrightarrow> same b b'"
  "ok b \<Longrightarrow> bk_redirect B b c u = (r, b') \<Longrightarrow> same b b'"
  "ok b \<Longrightarrow> bk_hold B b c = (r, b') \<Longrightarrow> same b b'"
  "ok b \<Longrightarrow> bk_unhold B b c = (r, b') \<Longrightarrow> same b b'"
  "ok b \<Longrightarrow> bk_setMuted B b c m = (r, b') \<Longrightarrow> same b b'"
  "ok b \<Longrightarrow> bk_sendDtmf B b c u k = (r, b') \<Longrightarrow> same b b'"
  "ok b \<Longrightarrow> bk_blindTransfer B b c u = (r, b') \<Longrightarrow> same b b'"
  "ok b \<Longrightarrow> bk_attendedTransfer B b c d = (r, b') \<Longrightarrow> same b b'"
  "ok b \<Longrightarrow> bk_bridge B b c d = (r, b') \<Longrightarrow> same b b'"
  "ok b \<Longrightarrow> bk_startRecording B b c u = (r, b') \<Longrightarrow> same b b'"
  "ok b \<Longrightarrow> bk_stopRecording B b c = (r, b') \<Longrightarrow> same b b'"
  "ok b \<Longrightarrow> bk_playFile B b c u m = (r, b') \<Longrightarrow> same b b'"
  "ok b \<Longrightarrow> bk_stopFile B b c = (r, b') \<Longrightarrow> same b b'"
  using same_laws by (metis snd_conv)+

end

locale account_backend =
  fixes B :: "'b isip_backend"
    and ok :: "'b \<Rightarrow> bool"
    and accts :: "'b \<Rightarrow> backend_account_id set"
  assumes invalid_not_account: "ok b \<Longrightarrow> kInvalidAccountId \<notin> accts b"
    and addAccount_law:
      "ok b \<Longrightarrow> bk_addAccount B b s = (r, b') \<Longrightarrow>
       r = kInvalidAccountId \<and> keeps_view ok accts b b' \<or>
       r \<noteq> kInvalidAccountId \<and> r \<notin> accts b \<and> ok b' \<and> accts b' = insert r (accts b)"
    and removeAccount_law:
      "ok b \<Longrightarrow> bk_removeAccount B b a = (removed, b') \<Longrightarrow> ok b' \<and> accts b' = accts b - {a}"
    and sendMessage_law: "ok b \<Longrightarrow> keeps_view ok accts b (snd (bk_sendMessage B b a u t))"

text \<open>A whole backend: neither half disturbs the other; what the call half leaves alone is the accounts.\<close>

locale sip_backend = call_backend B ok calls minted accts + account_backend B ok accts
  for B :: "'b isip_backend"
    and ok :: "'b \<Rightarrow> bool"
    and calls :: "'b \<Rightarrow> call_id set"
    and minted :: "'b \<Rightarrow> call_id set"
    and accts :: "'b \<Rightarrow> backend_account_id set" +
  assumes addAccount_calls:
      "ok b \<Longrightarrow> keeps_view ok (\<lambda>b. (calls b, minted b)) b (snd (bk_addAccount B b s))"
    and removeAccount_calls:
      "ok b \<Longrightarrow> keeps_view ok (\<lambda>b. (calls b, minted b)) b (snd (bk_removeAccount B b a))"
    and sendMessage_calls:
      "ok b \<Longrightarrow> keeps_view ok (\<lambda>b. (calls b, minted b)) b (snd (bk_sendMessage B b a u t))"

text \<open>
  The presence half: a watch gets an id that was never used before and lives until it is cancelled or,
  like every object of an account, until its account is removed.
\<close>

locale presence_backend =
  fixes B :: "'b isip_backend"
    and ok :: "'b \<Rightarrow> bool"
    and watches :: "'b \<Rightarrow> watch_id set"
    and minted :: "'b \<Rightarrow> watch_id set"
  assumes watches_minted: "ok b \<Longrightarrow> watches b \<subseteq> minted b"
    and invalid_watch: "ok b \<Longrightarrow> kInvalidWatchId \<notin> minted b"
    and watch_law:
      "ok b \<Longrightarrow> bk_watch B b a u = (w, b') \<Longrightarrow>
       w = kInvalidWatchId \<and> keeps_view ok (\<lambda>b. (watches b, minted b)) b b' \<or>
       w \<noteq> kInvalidWatchId \<and> w \<notin> minted b \<and> ok b' \<and>
       watches b' = insert w (watches b) \<and> minted b' = insert w (minted b)"
    and unwatch_law:
      "ok b \<Longrightarrow> bk_unwatch B b w = (r, b') \<Longrightarrow>
       ok b' \<and> watches b' = watches b - {w} \<and> minted b' = minted b"

subsection \<open>The keychain\<close>

text \<open>
  A store of secrets by key.  Writing and erasing may fail and then change nothing; after success a
  lookup finds what was written, or nothing, and every other key is untouched.
\<close>

locale keychain =
  fixes K :: "'k ikeychain"
    and kok :: "'k \<Rightarrow> bool"
  assumes set_law:
      "kok k \<Longrightarrow> kc_set K k key v = (r, k') \<Longrightarrow>
       kok k' \<and> (\<forall>j. kc_get K k' j = (if r \<and> j = key then Some v else kc_get K k j))"
    and erase_law:
      "kok k \<Longrightarrow> kc_erase K k key = (r, k') \<Longrightarrow>
       kok k' \<and> (\<forall>j. kc_get K k' j = (if r \<and> j = key then None else kc_get K k j))"
begin

lemma get_after_set: "kok k \<Longrightarrow> kc_set K k key v = (True, k') \<Longrightarrow> kc_get K k' key = Some v"
  using set_law by fastforce

lemma get_after_set_other:
  "kok k \<Longrightarrow> kc_set K k key v = (r, k') \<Longrightarrow> j \<noteq> key \<Longrightarrow> kc_get K k' j = kc_get K k j"
  using set_law by fastforce

lemma get_after_erase: "kok k \<Longrightarrow> kc_erase K k key = (True, k') \<Longrightarrow> kc_get K k' key = None"
  using erase_law by fastforce

lemma get_after_erase_other:
  "kok k \<Longrightarrow> kc_erase K k key = (r, k') \<Longrightarrow> j \<noteq> key \<Longrightarrow> kc_get K k' j = kc_get K k j"
  using erase_law by fastforce

end

end
