(* ===== verification/Dispatch.thy ===== *)
theory Dispatch imports SipTypes begin

text \<open>
  \<open>sipbackend/EventDispatch.{h,cpp}\<close>: the queue through which every backend delivers its events on
  the main thread.  Each queued closure carries the epoch it was posted under and runs only while
  that is still the current epoch; \<open>invalidate\<close> starts a new epoch.  The epoch is a
  \<open>std::uint64_t\<close> and wraps.  A closure is modelled by what it delivers, of type \<open>'e\<close>.
\<close>

subsection \<open>Definitions\<close>

record 'e event_dispatch =
  ed_epoch :: "64 word"
  ed_queue :: "(64 word \<times> 'e) list"          \<comment> \<open>queued invocations, oldest first\<close>
  ed_timers :: "(int \<times> 64 word \<times> 'e) list"   \<comment> \<open>running timers: delay, epoch, closure\<close>

definition ed_new :: "'e event_dispatch" where
  "ed_new = \<lparr>ed_epoch = 0, ed_queue = [], ed_timers = []\<rparr>"

definition ed_post :: "'e \<Rightarrow> 'e event_dispatch \<Rightarrow> 'e event_dispatch" where
  "ed_post fn ed = ed\<lparr>ed_queue := ed_queue ed @ [(ed_epoch ed, fn)]\<rparr>"

definition ed_postDelayed :: "int \<Rightarrow> 'e \<Rightarrow> 'e event_dispatch \<Rightarrow> 'e event_dispatch" where
  "ed_postDelayed delayMs fn ed = ed\<lparr>ed_timers := ed_timers ed @ [(delayMs, ed_epoch ed, fn)]\<rparr>"

definition ed_invalidate :: "'e event_dispatch \<Rightarrow> 'e event_dispatch" where
  "ed_invalidate ed = ed\<lparr>ed_epoch := ed_epoch ed + 1\<rparr>"

text \<open>The event loop runs the oldest invocation, or a timer that expires.\<close>

definition ed_run_next :: "'e event_dispatch \<Rightarrow> 'e option \<times> 'e event_dispatch" where
  "ed_run_next ed =
     (case ed_queue ed of
        [] \<Rightarrow> (None, ed)
      | (epoch, fn) # q \<Rightarrow> (if epoch = ed_epoch ed then Some fn else None, ed\<lparr>ed_queue := q\<rparr>))"

definition ed_run_timer :: "nat \<Rightarrow> 'e event_dispatch \<Rightarrow> 'e option \<times> 'e event_dispatch" where
  "ed_run_timer i ed =
     (if i < length (ed_timers ed) then
        (case ed_timers ed ! i of (_, epoch, fn) \<Rightarrow>
           (if epoch = ed_epoch ed then Some fn else None,
            ed\<lparr>ed_timers := take i (ed_timers ed) @ drop (Suc i) (ed_timers ed)\<rparr>))
      else (None, ed))"

text \<open>Everything the loop would deliver if nothing else happened.\<close>

fun ed_drain :: "64 word \<Rightarrow> (64 word \<times> 'e) list \<Rightarrow> 'e list" where
  "ed_drain now [] = []"
| "ed_drain now ((epoch, fn) # q) = (if epoch = now then [fn] else []) @ ed_drain now q"

definition ed_pending :: "'e event_dispatch \<Rightarrow> 'e list" where
  "ed_pending ed = ed_drain (ed_epoch ed) (ed_queue ed)"

subsection \<open>The queue is first in, first out\<close>

lemma ed_drain_append [simp]: "ed_drain n (q @ r) = ed_drain n q @ ed_drain n r"
  by (induction q) auto

lemma ed_pending_post [simp]: "ed_pending (ed_post fn ed) = ed_pending ed @ [fn]"
  by (simp add: ed_pending_def ed_post_def)

lemma ed_pending_new [simp]: "ed_pending ed_new = []"
  by (simp add: ed_pending_def ed_new_def)

lemma ed_run_next_pending:
  "ed_run_next ed = (r, ed') \<Longrightarrow> ed_pending ed = (case r of None \<Rightarrow> [] | Some fn \<Rightarrow> [fn]) @ ed_pending ed'"
  by (auto simp: ed_run_next_def ed_pending_def split: list.splits if_splits)

text \<open>A run of the owner: posts and invalidations in any order.\<close>

datatype 'e ed_op = Post 'e | PostDelayed int 'e | Invalidate

fun ed_apply :: "'e ed_op \<Rightarrow> 'e event_dispatch \<Rightarrow> 'e event_dispatch" where
  "ed_apply (Post fn) = ed_post fn"
| "ed_apply (PostDelayed d fn) = ed_postDelayed d fn"
| "ed_apply Invalidate = ed_invalidate"

fun invalidations :: "'e ed_op list \<Rightarrow> nat" where
  "invalidations [] = 0"
| "invalidations (Invalidate # ops) = Suc (invalidations ops)"
| "invalidations (_ # ops) = invalidations ops"

fun posts_of :: "'e ed_op list \<Rightarrow> 'e list" where
  "posts_of [] = []"
| "posts_of (Post fn # ops) = fn # posts_of ops"
| "posts_of (_ # ops) = posts_of ops"

fun delayed_of :: "'e ed_op list \<Rightarrow> 'e list" where
  "delayed_of [] = []"
| "delayed_of (PostDelayed d fn # ops) = fn # delayed_of ops"
| "delayed_of (_ # ops) = delayed_of ops"

definition is_invalidate :: "'e ed_op \<Rightarrow> bool" where
  "is_invalidate op = (case op of Invalidate \<Rightarrow> True | _ \<Rightarrow> False)"

text \<open>The operations after the last invalidation.\<close>

definition current_ops :: "'e ed_op list \<Rightarrow> 'e ed_op list" where
  "current_ops ops = rev (takeWhile (\<lambda>op. \<not> is_invalidate op) (rev ops))"

lemma current_ops_snoc:
  "current_ops [] = []"
  "current_ops (ops @ [Post fn]) = current_ops ops @ [Post fn]"
  "current_ops (ops @ [PostDelayed d fn]) = current_ops ops @ [PostDelayed d fn]"
  "current_ops (ops @ [Invalidate]) = []"
  by (simp_all add: current_ops_def is_invalidate_def)

lemma invalidations_append [simp]: "invalidations (a @ b) = invalidations a + invalidations b"
  by (induction a rule: invalidations.induct) auto

lemma posts_of_append [simp]: "posts_of (a @ b) = posts_of a @ posts_of b"
  by (induction a rule: posts_of.induct) auto

lemma delayed_of_append [simp]: "delayed_of (a @ b) = delayed_of a @ delayed_of b"
  by (induction a rule: delayed_of.induct) auto

lemma of_nat_word64_eq:
  assumes "i < 2 ^ 64" "j < 2 ^ 64"
  shows "(of_nat i :: 64 word) = of_nat j \<longleftrightarrow> i = j"
proof
  assume "(of_nat i :: 64 word) = of_nat j"
  then have "unat (of_nat i :: 64 word) = unat (of_nat j :: 64 word)" by simp
  with assms show "i = j" by (simp add: unsigned_of_nat take_bit_nat_eq_self)
qed simp

subsection \<open>The epoch barrier\<close>

definition ed_live_timers :: "'e event_dispatch \<Rightarrow> 'e list" where
  "ed_live_timers ed = ed_drain (ed_epoch ed) (map snd (ed_timers ed))"

lemma ed_drain_stale: "list_all (\<lambda>x. fst x \<noteq> now) q \<Longrightarrow> ed_drain now q = []"
  by (induction q) auto

definition old_epoch :: "nat \<Rightarrow> 64 word \<Rightarrow> bool" where
  "old_epoch n e \<longleftrightarrow> (\<exists>j \<le> n. e = of_nat j)"

lemma old_epoch_Suc:
  assumes "old_epoch n e"
  shows "old_epoch (Suc n) e"
proof -
  from assms obtain j where "j \<le> n" "e = of_nat j" by (auto simp: old_epoch_def)
  then have "j \<le> Suc n \<and> e = of_nat j" by simp
  then show ?thesis unfolding old_epoch_def by (rule exI)
qed

lemma old_epoch_now: "old_epoch n (of_nat n)"
  by (auto simp: old_epoch_def)

lemma fold_ed_epochs_old:
  "list_all (\<lambda>x. old_epoch (invalidations ops) (fst x)) (ed_queue (fold ed_apply ops ed_new)) \<and>
   list_all (\<lambda>x. old_epoch (invalidations ops) (fst (snd x))) (ed_timers (fold ed_apply ops ed_new)) \<and>
   ed_epoch (fold ed_apply ops ed_new) = of_nat (invalidations ops)"
proof (induction ops rule: rev_induct)
  case (snoc op ops)
  then show ?case
    by (cases op)
      (simp_all add: list_all_iff ed_post_def ed_postDelayed_def ed_invalidate_def old_epoch_now
        old_epoch_Suc)
qed (simp add: ed_new_def)

lemma ed_barrier:
  assumes "invalidations ops < 2 ^ 64"
  shows "ed_pending (fold ed_apply ops ed_new) = posts_of (current_ops ops) \<and>
    ed_live_timers (fold ed_apply ops ed_new) = delayed_of (current_ops ops)"
  using assms
proof (induction ops rule: rev_induct)
  case (snoc op ops)
  let ?ed = "fold ed_apply ops ed_new"
  show ?case
  proof (cases op)
    case Invalidate
    have neq: "(of_nat j :: 64 word) \<noteq> of_nat (invalidations ops) + 1" if "j \<le> invalidations ops" for j
      using of_nat_word64_eq[of j "Suc (invalidations ops)"] that snoc.prems Invalidate by (simp add: add.commute)
    have "list_all (\<lambda>x. fst x \<noteq> ed_epoch ?ed + 1) (ed_queue ?ed)"
      "list_all (\<lambda>x. fst x \<noteq> ed_epoch ?ed + 1) (map snd (ed_timers ?ed))"
      using fold_ed_epochs_old[of ops] neq by (fastforce simp: list_all_iff old_epoch_def)+
    then show ?thesis
      by (simp add: Invalidate ed_pending_def ed_live_timers_def ed_invalidate_def ed_drain_stale
          current_ops_snoc)
  qed (use snoc in \<open>simp_all add: current_ops_snoc ed_pending_def ed_live_timers_def ed_post_def
        ed_postDelayed_def\<close>)
qed (simp add: ed_new_def current_ops_snoc ed_pending_def ed_live_timers_def)



end
