(* ===== verification/FakeBackend.thy ===== *)
theory FakeBackend imports BackendIf Dispatch CStrings begin

text \<open>
  \<open>sipbackend/fake/FakeSipBackend.{h,cpp}\<close>, the backend the repository's own tests run the core on:
  a complete implementation of \<open>ISipBackend\<close> with a scripted remote side, and
  \<open>core/platform/Keychain_memory.cpp\<close>.  Both are shown to meet the contracts of \<open>BackendIf\<close>.
\<close>

subsection \<open>State\<close>

record fake_call =
  fc_accountId :: backend_account_id
  fc_remoteUri :: string
  fc_state :: call_state
  fc_inbound :: bool
  fc_held :: bool
  fc_muted :: bool
  fc_mediaActive :: bool
  fc_recording :: bool
  fc_playingFile :: bool
  fc_dtmfSent :: string

definition new_fake_call :: fake_call where
  "new_fake_call = \<lparr>fc_accountId = kInvalidAccountId, fc_remoteUri = [], fc_state = Idle,
     fc_inbound = False, fc_held = False, fc_muted = False, fc_mediaActive = False,
     fc_recording = False, fc_playingFile = False, fc_dtmfSent = []\<rparr>"

record fake_backend =
  fb_running :: bool
  fb_listener :: bool
  fb_caTrust :: ca_trust
  fb_stunServers :: "string list"
  fb_codecPriority :: "string list"
  fb_captureDevice :: int
  fb_playbackDevice :: int
  fb_ringtonePath :: string
  fb_nextAccountId :: backend_account_id
  fb_lastAddedId :: backend_account_id
  fb_nextCallId :: call_id
  fb_nextWatchId :: watch_id
  fb_accounts :: "(backend_account_id \<times> account_settings) list"
  fb_calls :: "(call_id \<times> fake_call) list"
  fb_watches :: "(watch_id \<times> string) list"
  fb_log :: "string list"
  fb_events :: "listener_event list event_dispatch"

definition fb_new :: fake_backend where
  "fb_new = \<lparr>fb_running = False, fb_listener = False, fb_caTrust = \<lparr>ct_caFile = [], ct_caPem = []\<rparr>,
     fb_stunServers = [], fb_codecPriority = [], fb_captureDevice = 0, fb_playbackDevice = 0,
     fb_ringtonePath = [], fb_nextAccountId = 1, fb_lastAddedId = kInvalidAccountId,
     fb_nextCallId = 1, fb_nextWatchId = 1, fb_accounts = [], fb_calls = [], fb_watches = [],
     fb_log = [], fb_events = ed_new\<rparr>"

subsection \<open>Operations\<close>

definition fb_setListener :: "fake_backend \<Rightarrow> bool \<Rightarrow> fake_backend" where
  "fb_setListener fb l = fb\<lparr>fb_events := ed_invalidate (fb_events fb), fb_listener := l\<rparr>"

definition fb_start :: "fake_backend \<Rightarrow> int \<Rightarrow> bool \<times> fake_backend" where
  "fb_start fb cfg = (True, fb\<lparr>fb_running := True\<rparr>)"

definition fb_stop :: "fake_backend \<Rightarrow> fake_backend" where
  "fb_stop fb = fb\<lparr>fb_events := ed_invalidate (fb_events fb), fb_running := False, fb_accounts := [],
     fb_calls := [], fb_watches := [], fb_ringtonePath := [], fb_log := []\<rparr>"

definition fb_post :: "listener_event list \<Rightarrow> fake_backend \<Rightarrow> fake_backend" where
  "fb_post evs fb = fb\<lparr>fb_events := ed_post evs (fb_events fb)\<rparr>"

definition logCmd :: "string \<Rightarrow> fake_backend \<Rightarrow> fake_backend" where
  "logCmd line fb = fb\<lparr>fb_log := fb_log fb @ [line]\<rparr>"

definition fb_audioDevices :: "fake_backend \<Rightarrow> audio_device list" where
  "fb_audioDevices fb =
     [\<lparr>ad_id = 0, ad_name = ''Fake Microphone'', ad_inputCount = 1, ad_outputCount = 0\<rparr>,
      \<lparr>ad_id = 1, ad_name = ''Fake Speakers'', ad_inputCount = 0, ad_outputCount = 2\<rparr>]"

definition fb_setCaptureDevice :: "fake_backend \<Rightarrow> int \<Rightarrow> bool \<times> fake_backend" where
  "fb_setCaptureDevice fb i =
     (if list_ex (\<lambda>d. ad_id d = i \<and> ad_inputCount d > 0) (fb_audioDevices fb)
      then (True, fb\<lparr>fb_captureDevice := i\<rparr>) else (False, fb))"

definition fb_setPlaybackDevice :: "fake_backend \<Rightarrow> int \<Rightarrow> bool \<times> fake_backend" where
  "fb_setPlaybackDevice fb i =
     (if list_ex (\<lambda>d. ad_id d = i \<and> ad_outputCount d > 0) (fb_audioDevices fb)
      then (True, fb\<lparr>fb_playbackDevice := i\<rparr>) else (False, fb))"

definition fb_playRingtone :: "fake_backend \<Rightarrow> string \<Rightarrow> bool \<times> fake_backend" where
  "fb_playRingtone fb path =
     (if \<not> fb_running fb then (False, fb) else (True, fb\<lparr>fb_ringtonePath := path\<rparr>))"

definition fb_addAccount :: "fake_backend \<Rightarrow> account_settings \<Rightarrow> backend_account_id \<times> fake_backend" where
  "fb_addAccount fb settings =
     (if \<not> fb_running fb then (kInvalidAccountId, fb)
      else let i = fb_nextAccountId fb in
        (i, logCmd (''addAccount:'' @ int_to_string i @ '':'' @ as_username settings)
              (fb\<lparr>fb_nextAccountId := i + 1, fb_accounts := aput i settings (fb_accounts fb),
                 fb_lastAddedId := i\<rparr>)))"

definition fb_removeAccount :: "fake_backend \<Rightarrow> backend_account_id \<Rightarrow> bool \<times> fake_backend" where
  "fb_removeAccount fb i =
     (if \<not> ahas (fb_accounts fb) i then (False, fb)
      else (True, logCmd (''removeAccount:'' @ int_to_string i)
                    (fb\<lparr>fb_accounts := adel i (fb_accounts fb)\<rparr>)))"

definition fb_sendMessage ::
  "fake_backend \<Rightarrow> backend_account_id \<Rightarrow> string \<Rightarrow> string \<Rightarrow> bool \<times> fake_backend" where
  "fb_sendMessage fb i toUri body =
     (if \<not> fb_running fb \<or> \<not> ahas (fb_accounts fb) i then (False, fb)
      else (True, logCmd (''sendMessage:'' @ int_to_string i @ '':'' @ toUri @ '':'' @ body) fb))"

definition fb_watch :: "fake_backend \<Rightarrow> backend_account_id \<Rightarrow> string \<Rightarrow> watch_id \<times> fake_backend" where
  "fb_watch fb acc uri =
     (if \<not> fb_running fb \<or> \<not> ahas (fb_accounts fb) acc then (kInvalidWatchId, fb)
      else let i = fb_nextWatchId fb in
        (i, logCmd (''watch:'' @ int_to_string i @ '':'' @ uri)
              (fb\<lparr>fb_nextWatchId := i + 1, fb_watches := aput i uri (fb_watches fb)\<rparr>)))"

definition fb_unwatch :: "fake_backend \<Rightarrow> watch_id \<Rightarrow> bool \<times> fake_backend" where
  "fb_unwatch fb i =
     (if \<not> ahas (fb_watches fb) i then (False, fb)
      else (True, logCmd (''unwatch:'' @ int_to_string i) (fb\<lparr>fb_watches := adel i (fb_watches fb)\<rparr>)))"

definition liveCall :: "fake_backend \<Rightarrow> call_id \<Rightarrow> fake_call option" where
  "liveCall fb i = map_of (fb_calls fb) i"

text \<open>Writing through the pointer \<open>liveCall\<close> returned.\<close>

definition fb_update :: "call_id \<Rightarrow> fake_call \<Rightarrow> fake_backend \<Rightarrow> fake_backend" where
  "fb_update i c fb = fb\<lparr>fb_calls := aput i c (fb_calls fb)\<rparr>"

definition fb_makeCall :: "fake_backend \<Rightarrow> backend_account_id \<Rightarrow> string \<Rightarrow> call_id \<times> fake_backend" where
  "fb_makeCall fb acc uri =
     (if \<not> fb_running fb \<or> \<not> ahas (fb_accounts fb) acc then (kInvalidCallId, fb)
      else let i = fb_nextCallId fb;
               c = new_fake_call\<lparr>fc_accountId := acc, fc_remoteUri := uri, fc_state := Calling\<rparr>
           in (i, fb_post [OnCallState i Calling 0]
                    (logCmd (''makeCall:'' @ int_to_string i @ '':'' @ uri)
                      (fb_update i c (fb\<lparr>fb_nextCallId := i + 1\<rparr>)))))"

definition fb_answer :: "fake_backend \<Rightarrow> call_id \<Rightarrow> bool \<times> fake_backend" where
  "fb_answer fb i =
     (case liveCall fb i of
        None \<Rightarrow> (False, fb)
      | Some c \<Rightarrow>
          if \<not> fc_inbound c \<or> fc_state c \<noteq> EarlyMedia then (False, fb)
          else (True, fb_post [OnCallState i Confirmed 200, OnMediaState i True False]
                 (fb_update i (c\<lparr>fc_state := Confirmed, fc_mediaActive := True\<rparr>)
                   (logCmd (''answer:'' @ int_to_string i) fb))))"

definition fb_decline :: "fake_backend \<Rightarrow> call_id \<Rightarrow> int \<Rightarrow> bool \<times> fake_backend" where
  "fb_decline fb i sipCode =
     (case liveCall fb i of
        None \<Rightarrow> (False, fb)
      | Some c \<Rightarrow>
          if \<not> fc_inbound c \<or> fc_state c \<noteq> EarlyMedia then (False, fb)
          else (True, fb_post [OnCallState i Disconnected sipCode]
                 (fb_update i (c\<lparr>fc_state := Disconnected\<rparr>)
                   (logCmd (''decline:'' @ int_to_string i @ '':'' @ int_to_string sipCode) fb))))"

definition fb_redirect :: "fake_backend \<Rightarrow> call_id \<Rightarrow> string \<Rightarrow> bool \<times> fake_backend" where
  "fb_redirect fb i contactUri =
     (case liveCall fb i of
        None \<Rightarrow> (False, fb)
      | Some c \<Rightarrow>
          if \<not> fc_inbound c \<or> fc_state c \<noteq> EarlyMedia then (False, fb)
          else (True, fb_post [OnCallState i Disconnected 302]
                 (fb_update i (c\<lparr>fc_state := Disconnected\<rparr>)
                   (logCmd (''redirect:'' @ int_to_string i @ '':'' @ contactUri) fb))))"

definition fb_hangup :: "fake_backend \<Rightarrow> call_id \<Rightarrow> fake_backend" where
  "fb_hangup fb i =
     (case liveCall fb i of
        None \<Rightarrow> fb
      | Some c \<Rightarrow>
          if fc_state c = Disconnected then fb
          else let sipCode = (if fc_state c = Confirmed then 200 else 487)
               in fb_post [OnCallState i Disconnected sipCode]
                    (fb_update i (c\<lparr>fc_state := Disconnected, fc_mediaActive := False\<rparr>)
                      (logCmd (''hangup:'' @ int_to_string i) fb)))"

definition fb_hold :: "fake_backend \<Rightarrow> call_id \<Rightarrow> bool \<times> fake_backend" where
  "fb_hold fb i =
     (case liveCall fb i of
        None \<Rightarrow> (False, fb)
      | Some c \<Rightarrow>
          if fc_state c \<noteq> Confirmed \<or> fc_held c then (False, fb)
          else (True, fb_post [OnMediaState i False True]
                 (fb_update i (c\<lparr>fc_held := True, fc_mediaActive := False\<rparr>)
                   (logCmd (''hold:'' @ int_to_string i) fb))))"

definition fb_unhold :: "fake_backend \<Rightarrow> call_id \<Rightarrow> bool \<times> fake_backend" where
  "fb_unhold fb i =
     (case liveCall fb i of
        None \<Rightarrow> (False, fb)
      | Some c \<Rightarrow>
          if fc_state c \<noteq> Confirmed \<or> \<not> fc_held c then (False, fb)
          else (True, fb_post [OnMediaState i True False]
                 (fb_update i (c\<lparr>fc_held := False, fc_mediaActive := True\<rparr>)
                   (logCmd (''unhold:'' @ int_to_string i) fb))))"

definition fb_setMuted :: "fake_backend \<Rightarrow> call_id \<Rightarrow> bool \<Rightarrow> bool \<times> fake_backend" where
  "fb_setMuted fb i muted =
     (case liveCall fb i of
        None \<Rightarrow> (False, fb)
      | Some c \<Rightarrow>
          if fc_state c \<noteq> Confirmed then (False, fb)
          else (True, fb_update i (c\<lparr>fc_muted := muted\<rparr>)
                 (logCmd (''setMuted:'' @ int_to_string i @ '':'' @ (if muted then ''1'' else ''0'')) fb)))"

definition fb_sendDtmf :: "fake_backend \<Rightarrow> call_id \<Rightarrow> string \<Rightarrow> dtmf_method \<Rightarrow> bool \<times> fake_backend" where
  "fb_sendDtmf fb i digits k =
     (case liveCall fb i of
        None \<Rightarrow> (False, fb)
      | Some c \<Rightarrow>
          if fc_state c \<noteq> Confirmed then (False, fb)
          else (True, fb_update i (c\<lparr>fc_dtmfSent := fc_dtmfSent c @ digits\<rparr>)
                 (logCmd (''sendDtmf:'' @ int_to_string i @ '':'' @ digits) fb)))"

definition fb_blindTransfer :: "fake_backend \<Rightarrow> call_id \<Rightarrow> string \<Rightarrow> bool \<times> fake_backend" where
  "fb_blindTransfer fb i targetUri =
     (case liveCall fb i of
        None \<Rightarrow> (False, fb)
      | Some c \<Rightarrow>
          if fc_state c \<noteq> Confirmed then (False, fb)
          else (True, logCmd (''blindTransfer:'' @ int_to_string i @ '':'' @ targetUri) fb))"

definition both_confirmed :: "fake_backend \<Rightarrow> call_id \<Rightarrow> call_id \<Rightarrow> bool" where
  "both_confirmed fb i j =
     (case (liveCall fb i, liveCall fb j) of
        (Some a, Some b) \<Rightarrow> fc_state a = Confirmed \<and> fc_state b = Confirmed
      | _ \<Rightarrow> False)"

definition fb_attendedTransfer :: "fake_backend \<Rightarrow> call_id \<Rightarrow> call_id \<Rightarrow> bool \<times> fake_backend" where
  "fb_attendedTransfer fb i j =
     (if \<not> both_confirmed fb i j then (False, fb)
      else (True, logCmd (''attendedTransfer:'' @ int_to_string i @ '':'' @ int_to_string j) fb))"

definition fb_bridge :: "fake_backend \<Rightarrow> call_id \<Rightarrow> call_id \<Rightarrow> bool \<times> fake_backend" where
  "fb_bridge fb i j =
     (if \<not> both_confirmed fb i j then (False, fb)
      else (True, logCmd (''bridge:'' @ int_to_string i @ '':'' @ int_to_string j) fb))"

definition fb_startRecording :: "fake_backend \<Rightarrow> call_id \<Rightarrow> string \<Rightarrow> bool \<times> fake_backend" where
  "fb_startRecording fb i path =
     (case liveCall fb i of
        None \<Rightarrow> (False, fb)
      | Some c \<Rightarrow>
          if fc_state c \<noteq> Confirmed \<or> fc_recording c then (False, fb)
          else (True, fb_update i (c\<lparr>fc_recording := True\<rparr>)
                 (logCmd (''startRecording:'' @ int_to_string i @ '':'' @ path) fb)))"

definition fb_stopRecording :: "fake_backend \<Rightarrow> call_id \<Rightarrow> bool \<times> fake_backend" where
  "fb_stopRecording fb i =
     (case liveCall fb i of
        None \<Rightarrow> (False, fb)
      | Some c \<Rightarrow>
          if \<not> fc_recording c then (False, fb)
          else (True, fb_update i (c\<lparr>fc_recording := False\<rparr>)
                 (logCmd (''stopRecording:'' @ int_to_string i) fb)))"

definition fb_playFile :: "fake_backend \<Rightarrow> call_id \<Rightarrow> string \<Rightarrow> bool \<Rightarrow> bool \<times> fake_backend" where
  "fb_playFile fb i path loop =
     (case liveCall fb i of
        None \<Rightarrow> (False, fb)
      | Some c \<Rightarrow>
          if \<not> fc_mediaActive c then (False, fb)
          else (True, fb_update i (c\<lparr>fc_playingFile := True\<rparr>)
                 (logCmd (''playFile:'' @ int_to_string i @ '':'' @ path) fb)))"

definition fb_stopFile :: "fake_backend \<Rightarrow> call_id \<Rightarrow> bool \<times> fake_backend" where
  "fb_stopFile fb i =
     (case liveCall fb i of
        None \<Rightarrow> (False, fb)
      | Some c \<Rightarrow>
          if \<not> fc_playingFile c then (False, fb)
          else (True, fb_update i (c\<lparr>fc_playingFile := False\<rparr>)
                 (logCmd (''stopFile:'' @ int_to_string i) fb)))"

definition fb_streamStats :: "fake_backend \<Rightarrow> call_id \<Rightarrow> stream_stats" where
  "fb_streamStats fb i =
     (case map_of (fb_calls fb) i of
        None \<Rightarrow> no_stream_stats
      | Some c \<Rightarrow>
          if \<not> fc_mediaActive c then no_stream_stats
          else \<lparr>ss_mos = 42 / 10, ss_lossPct = 0, ss_rttMs = 20, ss_jitterMs = 3\<rparr>)"

definition fb_isMediaActive :: "fake_backend \<Rightarrow> call_id \<Rightarrow> bool" where
  "fb_isMediaActive fb i =
     (case map_of (fb_calls fb) i of None \<Rightarrow> False | Some c \<Rightarrow> fc_mediaActive c)"

definition fb_isCaptureTransmitting :: "fake_backend \<Rightarrow> call_id \<Rightarrow> bool" where
  "fb_isCaptureTransmitting fb i =
     (case map_of (fb_calls fb) i of None \<Rightarrow> False | Some c \<Rightarrow> fc_mediaActive c \<and> \<not> fc_muted c)"

definition fb_releaseCall :: "fake_backend \<Rightarrow> call_id \<Rightarrow> fake_backend" where
  "fb_releaseCall fb i =
     (if ahas (fb_calls fb) i
      then logCmd (''releaseCall:'' @ int_to_string i) (fb\<lparr>fb_calls := adel i (fb_calls fb)\<rparr>)
      else fb)"

subsection \<open>The remote side\<close>

definition simulateRegState :: "backend_account_id \<Rightarrow> bool \<Rightarrow> int \<Rightarrow> string \<Rightarrow> fake_backend \<Rightarrow> fake_backend" where
  "simulateRegState i regActive sipCode reason fb =
     (if \<not> fb_running fb then fb else fb_post [OnRegState i regActive sipCode reason] fb)"

definition simulateMwi :: "backend_account_id \<Rightarrow> int \<Rightarrow> int \<Rightarrow> bool \<Rightarrow> fake_backend \<Rightarrow> fake_backend" where
  "simulateMwi i newMessages oldMessages active fb =
     (if \<not> fb_running fb then fb else fb_post [OnMwi i newMessages oldMessages active] fb)"

definition simulateInstantMessage :: "backend_account_id \<Rightarrow> string \<Rightarrow> string \<Rightarrow> fake_backend \<Rightarrow> fake_backend" where
  "simulateInstantMessage i fromUri body fb =
     (if \<not> fb_running fb then fb else fb_post [OnInstantMessage i fromUri body] fb)"

definition simulatePresence :: "watch_id \<Rightarrow> presence_state \<Rightarrow> fake_backend \<Rightarrow> fake_backend" where
  "simulatePresence i st fb = (if \<not> fb_running fb then fb else fb_post [OnPresence i st] fb)"

definition simulateIncomingCall ::
  "backend_account_id \<Rightarrow> string \<Rightarrow> string \<Rightarrow> fake_backend \<Rightarrow> call_id \<times> fake_backend" where
  "simulateIncomingCall acc remoteUri displayName fb =
     (if \<not> fb_running fb \<or> \<not> ahas (fb_accounts fb) acc then (kInvalidCallId, fb)
      else let i = fb_nextCallId fb;
               c = new_fake_call\<lparr>fc_accountId := acc, fc_remoteUri := remoteUri,
                     fc_state := EarlyMedia, fc_inbound := True\<rparr>
           in (i, fb_post [OnIncomingCall acc i remoteUri displayName]
                    (fb_update i c (fb\<lparr>fb_nextCallId := i + 1\<rparr>))))"

definition simulateRemoteAnswer :: "call_id \<Rightarrow> fake_backend \<Rightarrow> fake_backend" where
  "simulateRemoteAnswer i fb =
     (case liveCall fb i of
        None \<Rightarrow> fb
      | Some c \<Rightarrow>
          if fc_inbound c \<or> fc_state c \<noteq> Calling then fb
          else fb_post [OnCallState i Confirmed 200, OnMediaState i True False]
                 (fb_update i (c\<lparr>fc_state := Confirmed, fc_mediaActive := True\<rparr>) fb))"

definition simulateRemoteHangup :: "call_id \<Rightarrow> int \<Rightarrow> fake_backend \<Rightarrow> fake_backend" where
  "simulateRemoteHangup i sipCode fb =
     (case liveCall fb i of
        None \<Rightarrow> fb
      | Some c \<Rightarrow>
          if fc_state c = Disconnected then fb
          else fb_post [OnCallState i Disconnected sipCode]
                 (fb_update i (c\<lparr>fc_state := Disconnected, fc_mediaActive := False\<rparr>) fb))"

definition simulateTransferStatus :: "call_id \<Rightarrow> int \<Rightarrow> bool \<Rightarrow> string \<Rightarrow> fake_backend \<Rightarrow> fake_backend" where
  "simulateTransferStatus i sipCode isFinal reason fb =
     (case liveCall fb i of
        None \<Rightarrow> fb
      | Some c \<Rightarrow> fb_post [OnTransferStatus i sipCode isFinal reason] fb)"

text \<open>The main loop runs the next queued closure: what it tells the listener, if one is set.\<close>

definition fb_deliver :: "fake_backend \<Rightarrow> listener_event list \<times> fake_backend" where
  "fb_deliver fb =
     (case ed_run_next (fb_events fb) of
        (None, ed) \<Rightarrow> ([], fb\<lparr>fb_events := ed\<rparr>)
      | (Some evs, ed) \<Rightarrow> (if fb_listener fb then evs else [], fb\<lparr>fb_events := ed\<rparr>))"

definition FakeB :: "fake_backend isip_backend" where
  "FakeB = \<lparr>
     bk_setListener = fb_setListener, bk_start = fb_start, bk_stop = fb_stop,
     bk_isRunning = fb_running,
     bk_setCaTrust = (\<lambda>fb t. fb\<lparr>fb_caTrust := t\<rparr>),
     bk_setStunServers = (\<lambda>fb s. fb\<lparr>fb_stunServers := s\<rparr>),
     bk_setCodecPriority = (\<lambda>fb p. fb\<lparr>fb_codecPriority := p\<rparr>),
     bk_audioDevices = fb_audioDevices, bk_captureDevice = fb_captureDevice,
     bk_playbackDevice = fb_playbackDevice, bk_setCaptureDevice = fb_setCaptureDevice,
     bk_setPlaybackDevice = fb_setPlaybackDevice, bk_refreshAudioDevices = (\<lambda>fb. fb),
     bk_playRingtone = fb_playRingtone, bk_stopRingtone = (\<lambda>fb. fb\<lparr>fb_ringtonePath := []\<rparr>),
     bk_addAccount = fb_addAccount, bk_removeAccount = fb_removeAccount,
     bk_sendMessage = fb_sendMessage, bk_watch = fb_watch, bk_unwatch = fb_unwatch,
     bk_makeCall = fb_makeCall, bk_answer = fb_answer, bk_decline = fb_decline,
     bk_redirect = fb_redirect, bk_hangup = fb_hangup, bk_hold = fb_hold, bk_unhold = fb_unhold,
     bk_setMuted = fb_setMuted, bk_sendDtmf = fb_sendDtmf, bk_blindTransfer = fb_blindTransfer,
     bk_attendedTransfer = fb_attendedTransfer, bk_bridge = fb_bridge,
     bk_startRecording = fb_startRecording, bk_stopRecording = fb_stopRecording,
     bk_playFile = fb_playFile, bk_stopFile = fb_stopFile, bk_streamStats = fb_streamStats,
     bk_isMediaActive = fb_isMediaActive, bk_isCaptureTransmitting = fb_isCaptureTransmitting,
     bk_releaseCall = fb_releaseCall\<rparr>"

subsection \<open>The invariant of the fake backend\<close>

text \<open>A call moves from ringing (outbound Calling, inbound EarlyMedia) to Confirmed to Disconnected;
  media flow exactly while it is confirmed and not held, and nothing but its identity is set while
  it rings.\<close>

definition fc_ok :: "fake_call \<Rightarrow> bool" where
  "fc_ok c \<longleftrightarrow> (fc_mediaActive c \<longleftrightarrow> fc_state c = Confirmed \<and> \<not> fc_held c) \<and>
     fc_state c \<noteq> Idle \<and>
     (fc_state c = Calling \<longrightarrow> \<not> fc_inbound c) \<and> (fc_state c = EarlyMedia \<longrightarrow> fc_inbound c) \<and>
     (fc_state c = Calling \<or> fc_state c = EarlyMedia \<longrightarrow>
        \<not> fc_held c \<and> \<not> fc_muted c \<and> \<not> fc_recording c \<and> \<not> fc_playingFile c \<and> fc_dtmfSent c = [])"

definition fake_ok :: "fake_backend \<Rightarrow> bool" where
  "fake_ok fb \<longleftrightarrow>
     keys_sorted (fb_calls fb) \<and> keys_sorted (fb_accounts fb) \<and>
     1 \<le> fb_nextCallId fb \<and> 1 \<le> fb_nextAccountId fb \<and>
     (\<forall>i c. map_of (fb_calls fb) i = Some c \<longrightarrow> 1 \<le> i \<and> i < fb_nextCallId fb \<and> fc_ok c) \<and>
     (\<forall>i. ahas (fb_accounts fb) i \<longrightarrow> 1 \<le> i \<and> i < fb_nextAccountId fb)"

definition fake_calls :: "fake_backend \<Rightarrow> call_id set" where
  "fake_calls fb = {i. ahas (fb_calls fb) i}"

definition fake_minted :: "fake_backend \<Rightarrow> call_id set" where
  "fake_minted fb = {1..<fb_nextCallId fb}"

definition fake_accts :: "fake_backend \<Rightarrow> backend_account_id set" where
  "fake_accts fb = {i. ahas (fb_accounts fb) i}"

lemmas fake_views = fake_calls_def fake_minted_def fake_accts_def
lemmas fake_effects = fb_post_def logCmd_def fb_update_def liveCall_def

lemmas fake_call_ops =
  fb_answer_def fb_decline_def fb_redirect_def fb_hangup_def fb_hold_def fb_unhold_def
  fb_setMuted_def fb_sendDtmf_def fb_blindTransfer_def fb_attendedTransfer_def fb_bridge_def
  fb_startRecording_def fb_stopRecording_def fb_playFile_def fb_stopFile_def

lemma fake_ok_call:
  "fake_ok fb \<Longrightarrow> map_of (fb_calls fb) i = Some c \<Longrightarrow> 1 \<le> i \<and> i < fb_nextCallId fb \<and> fc_ok c"
  by (simp add: fake_ok_def)

text \<open>What every operation on one call does to the rest of the backend: at most that call's entry
  changes, to another good one.\<close>

definition call_op_frame :: "fake_backend \<Rightarrow> fake_backend \<Rightarrow> call_id \<Rightarrow> bool" where
  "call_op_frame fb fb' i \<longleftrightarrow>
     fb_accounts fb' = fb_accounts fb \<and> fb_nextCallId fb' = fb_nextCallId fb \<and>
     fb_nextAccountId fb' = fb_nextAccountId fb \<and> fb_running fb' = fb_running fb \<and>
     (fb_calls fb' = fb_calls fb \<or>
      (\<exists>c c'. map_of (fb_calls fb) i = Some c \<and> fb_calls fb' = aput i c' (fb_calls fb) \<and>
              (fc_ok c \<longrightarrow> fc_ok c')))"

lemma call_op_frame_ok:
  assumes "fake_ok fb" "call_op_frame fb fb' i"
  shows "keeps_view fake_ok (\<lambda>b. (fake_calls b, fake_minted b, fake_accts b)) fb fb'"
proof -
  have "fake_ok fb' \<and> fake_calls fb' = fake_calls fb \<and> fake_minted fb' = fake_minted fb \<and> fake_accts fb' = fake_accts fb"
    using assms by (auto simp: call_op_frame_def fake_ok_def fake_views ahas_def split: if_splits)
  then show ?thesis by (simp add: keeps_view_def)
qed

lemma call_op_frame_same:
  "fb_accounts fb' = fb_accounts fb \<Longrightarrow> fb_nextCallId fb' = fb_nextCallId fb \<Longrightarrow>
   fb_nextAccountId fb' = fb_nextAccountId fb \<Longrightarrow> fb_running fb' = fb_running fb \<Longrightarrow>
   fb_calls fb' = fb_calls fb \<Longrightarrow> call_op_frame fb fb' i"
  by (simp add: call_op_frame_def)

lemma call_op_frame_put:
  "map_of (fb_calls fb) i = Some c \<Longrightarrow> (fc_ok c \<Longrightarrow> fc_ok c') \<Longrightarrow> fb_calls fb' = aput i c' (fb_calls fb) \<Longrightarrow>
   fb_accounts fb' = fb_accounts fb \<Longrightarrow> fb_nextCallId fb' = fb_nextCallId fb \<Longrightarrow>
   fb_nextAccountId fb' = fb_nextAccountId fb \<Longrightarrow> fb_running fb' = fb_running fb \<Longrightarrow> call_op_frame fb fb' i"
  by (auto simp: call_op_frame_def)

lemma fake_call_frames:
  "call_op_frame fb (snd (fb_answer fb i)) i"
  "call_op_frame fb (snd (fb_decline fb i n)) i"
  "call_op_frame fb (snd (fb_redirect fb i u)) i"
  "call_op_frame fb (fb_hangup fb i) i"
  "call_op_frame fb (snd (fb_hold fb i)) i"
  "call_op_frame fb (snd (fb_unhold fb i)) i"
  "call_op_frame fb (snd (fb_setMuted fb i m)) i"
  "call_op_frame fb (snd (fb_sendDtmf fb i u k)) i"
  "call_op_frame fb (snd (fb_blindTransfer fb i u)) i"
  "call_op_frame fb (snd (fb_attendedTransfer fb i j)) i"
  "call_op_frame fb (snd (fb_bridge fb i j)) i"
  "call_op_frame fb (snd (fb_startRecording fb i u)) i"
  "call_op_frame fb (snd (fb_stopRecording fb i)) i"
  "call_op_frame fb (snd (fb_playFile fb i u m)) i"
  "call_op_frame fb (snd (fb_stopFile fb i)) i"
  "call_op_frame fb (simulateRemoteAnswer i fb) i"
  "call_op_frame fb (simulateRemoteHangup i n fb) i"
  "call_op_frame fb (simulateTransferStatus i n m u fb) i"
  unfolding fake_call_ops simulateRemoteAnswer_def simulateRemoteHangup_def simulateTransferStatus_def fake_effects Let_def
  by (auto intro: call_op_frame_same split: option.split)
    (rule call_op_frame_put, assumption, simp_all add: fc_ok_def)+

lemmas fake_call_keeps = fake_call_frames[THEN call_op_frame_ok[rotated]]

lemma new_fake_call_ok:
  "fc_ok (new_fake_call\<lparr>fc_accountId := a, fc_remoteUri := u, fc_state := Calling\<rparr>)"
  "fc_ok (new_fake_call\<lparr>fc_accountId := a, fc_remoteUri := u, fc_state := EarlyMedia, fc_inbound := True\<rparr>)"
  by (simp_all add: fc_ok_def new_fake_call_def)

lemma mint_call_ok:
  assumes "fake_ok fb" "fc_ok c"
  shows "fake_ok (fb_update (fb_nextCallId fb) c (fb\<lparr>fb_nextCallId := fb_nextCallId fb + 1\<rparr>))"
proof -
  have "i \<le> fb_nextCallId fb" if "map_of (fb_calls fb) i = Some c'" for i c'
    using fake_ok_call[OF assms(1) that] by simp
  with assms show ?thesis by (auto simp: fake_ok_def fb_update_def)
qed

lemma fake_ok_effects [simp]:
  "fake_ok (fb_post evs fb) = fake_ok fb" "fake_ok (logCmd l fb) = fake_ok fb"
  "fake_calls (fb_post evs fb) = fake_calls fb" "fake_calls (logCmd l fb) = fake_calls fb"
  "fake_minted (fb_post evs fb) = fake_minted fb" "fake_minted (logCmd l fb) = fake_minted fb"
  "fake_accts (fb_post evs fb) = fake_accts fb" "fake_accts (logCmd l fb) = fake_accts fb"
  by (simp_all add: fake_ok_def fake_views fb_post_def logCmd_def)

lemma fake_makeCall_law:
  assumes "fake_ok fb" "fb_makeCall fb a u = (r, fb')"
  shows "r = kInvalidCallId \<and> fake_ok fb' \<and> fake_calls fb' = fake_calls fb \<and> fake_minted fb \<subseteq> fake_minted fb' \<and>
      fake_accts fb' = fake_accts fb \<or>
    r \<noteq> kInvalidCallId \<and> r \<notin> fake_minted fb \<and> fake_ok fb' \<and>
    fake_calls fb' = insert r (fake_calls fb) \<and> fake_minted fb' = insert r (fake_minted fb) \<and>
    fake_accts fb' = fake_accts fb"
proof (cases "\<not> fb_running fb \<or> \<not> ahas (fb_accounts fb) a")
  case True
  with assms show ?thesis by (auto simp: fb_makeCall_def)
next
  case False
  have next1: "1 \<le> fb_nextCallId fb" using assms(1) by (simp add: fake_ok_def)
  then have "{1..<fb_nextCallId fb + 1} = insert (fb_nextCallId fb) {1..<fb_nextCallId fb}" by auto
  with False assms next1 mint_call_ok[OF assms(1) new_fake_call_ok(1)] show ?thesis
    by (auto simp: fb_makeCall_def Let_def invalid_id_defs)
      (auto simp: fake_views fb_update_def)
qed

lemma fake_releaseCall_law:
  assumes "fake_ok fb"
  shows "fake_ok (fb_releaseCall fb i) \<and> fake_calls (fb_releaseCall fb i) = fake_calls fb - {i} \<and>
    fake_minted (fb_releaseCall fb i) = fake_minted fb \<and> fake_accts (fb_releaseCall fb i) = fake_accts fb"
  using assms by (auto simp: fb_releaseCall_def fake_ok_def fake_views logCmd_def)

interpretation fake_call_backend: call_backend FakeB fake_ok fake_calls fake_minted fake_accts
proof unfold_locales
  fix fb assume ok: "fake_ok fb"
  show "fake_calls fb \<subseteq> fake_minted fb"
    using ok by (auto simp: fake_views ahas_def dest: fake_ok_call)
  show "kInvalidCallId \<notin> fake_minted fb"
    by (simp add: fake_minted_def invalid_id_defs)
qed (simp_all add: FakeB_def fake_call_keeps fake_makeCall_law fake_releaseCall_law)

lemma fake_addAccount_law:
  assumes "fake_ok fb" "fb_addAccount fb s = (r, fb')"
  shows "r = kInvalidAccountId \<and> keeps_view fake_ok fake_accts fb fb' \<or>
    r \<noteq> kInvalidAccountId \<and> r \<notin> fake_accts fb \<and> fake_ok fb' \<and> fake_accts fb' = insert r (fake_accts fb)"
proof (cases "fb_running fb")
  case True
  let ?i = "fb_nextAccountId fb"
  have "1 \<le> ?i" "\<not> ahas (fb_accounts fb) ?i" using assms(1) by (auto simp: fake_ok_def)
  with True assms show ?thesis
    by (auto simp: fb_addAccount_def Let_def invalid_id_defs)
      (auto simp: fake_ok_def fake_views)
qed (use assms in \<open>auto simp: fb_addAccount_def\<close>)

lemma fake_addAccount_calls:
  "fake_ok fb \<Longrightarrow> keeps_view fake_ok (\<lambda>b. (fake_calls b, fake_minted b)) fb (snd (fb_addAccount fb s))"
  by (auto simp: keeps_view_def fb_addAccount_def Let_def) (auto simp: fake_ok_def fake_views)

lemma fake_removeAccount_law:
  assumes "fake_ok fb" "fb_removeAccount fb a = (r, fb')"
  shows "fake_ok fb' \<and> fake_accts fb' = fake_accts fb - {a}"
    and "keeps_view fake_ok (\<lambda>b. (fake_calls b, fake_minted b)) fb fb'"
  using assms by (auto simp: fb_removeAccount_def keeps_view_def fake_ok_def fake_views logCmd_def
      split: if_splits)

lemma fake_sendMessage_frame: "call_op_frame fb (snd (fb_sendMessage fb a u t)) i"
  by (simp add: fb_sendMessage_def call_op_frame_def logCmd_def)

interpretation fake_sip_backend: sip_backend FakeB fake_ok fake_calls fake_minted fake_accts
proof unfold_locales
  fix fb a s u t c r fb'
  assume ok: "fake_ok fb"
  show "kInvalidAccountId \<notin> fake_accts fb"
    using ok by (force simp: fake_ok_def fake_accts_def invalid_id_defs)
  show "keeps_view fake_ok fake_accts fb (snd (bk_sendMessage FakeB fb a u t))"
    using call_op_frame_ok[OF ok fake_sendMessage_frame] by (simp add: FakeB_def keeps_view_def)
  show "keeps_view fake_ok (\<lambda>b. (fake_calls b, fake_minted b)) fb (snd (bk_sendMessage FakeB fb a u t))"
    using call_op_frame_ok[OF ok fake_sendMessage_frame] by (simp add: FakeB_def keeps_view_def)
  show "keeps_view fake_ok (\<lambda>b. (fake_calls b, fake_minted b)) fb (snd (bk_addAccount FakeB fb s))"
    using fake_addAccount_calls[OF ok] by (simp add: FakeB_def)
  show "keeps_view fake_ok (\<lambda>b. (fake_calls b, fake_minted b)) fb (snd (bk_removeAccount FakeB fb a))"
    using fake_removeAccount_law(2)[OF ok] by (cases "fb_removeAccount fb a") (simp add: FakeB_def)
next
  fix fb s r fb' assume "fake_ok fb" "bk_addAccount FakeB fb s = (r, fb')"
  then show "r = kInvalidAccountId \<and> keeps_view fake_ok fake_accts fb fb' \<or>
    r \<noteq> kInvalidAccountId \<and> r \<notin> fake_accts fb \<and> fake_ok fb' \<and> fake_accts fb' = insert r (fake_accts fb)"
    using fake_addAccount_law by (simp add: FakeB_def)
next
  fix fb a removed fb' assume "fake_ok fb" "bk_removeAccount FakeB fb a = (removed, fb')"
  then show "fake_ok fb' \<and> fake_accts fb' = fake_accts fb - {a}"
    using fake_removeAccount_law(1) by (simp add: FakeB_def)
qed

lemma fake_ok_new: "fake_ok fb_new"
  by (simp add: fake_ok_def fb_new_def)

text \<open>Presence: the watches are the keys of \<open>m_watches\<close>.\<close>

definition fake_watch_ok :: "fake_backend \<Rightarrow> bool" where
  "fake_watch_ok fb \<longleftrightarrow> 1 \<le> fb_nextWatchId fb \<and> (\<forall>i. ahas (fb_watches fb) i \<longrightarrow> 1 \<le> i \<and> i < fb_nextWatchId fb)"

definition fake_watches :: "fake_backend \<Rightarrow> watch_id set" where
  "fake_watches fb = {i. ahas (fb_watches fb) i}"

definition fake_watch_minted :: "fake_backend \<Rightarrow> watch_id set" where
  "fake_watch_minted fb = {1..<fb_nextWatchId fb}"

interpretation fake_presence: presence_backend FakeB fake_watch_ok fake_watches fake_watch_minted
proof unfold_locales
  fix fb a u w r fb'
  show "fake_watch_ok fb \<Longrightarrow> fake_watches fb \<subseteq> fake_watch_minted fb"
    "fake_watch_ok fb \<Longrightarrow> kInvalidWatchId \<notin> fake_watch_minted fb"
    by (auto simp: fake_watch_ok_def fake_watches_def fake_watch_minted_def invalid_id_defs)
  show "fake_watch_ok fb' \<and> fake_watches fb' = fake_watches fb - {w} \<and> fake_watch_minted fb' = fake_watch_minted fb"
    if "fake_watch_ok fb" "bk_unwatch FakeB fb w = (r, fb')"
    using that by (auto simp: FakeB_def fb_unwatch_def fake_watch_ok_def fake_watches_def fake_watch_minted_def logCmd_def
        split: if_splits)
  show "w = kInvalidWatchId \<and> keeps_view fake_watch_ok (\<lambda>b. (fake_watches b, fake_watch_minted b)) fb fb' \<or>
    w \<noteq> kInvalidWatchId \<and> w \<notin> fake_watch_minted fb \<and> fake_watch_ok fb' \<and>
    fake_watches fb' = insert w (fake_watches fb) \<and> fake_watch_minted fb' = insert w (fake_watch_minted fb)"
    if "fake_watch_ok fb" "bk_watch FakeB fb a u = (w, fb')"
  proof (cases "\<not> fb_running fb \<or> \<not> ahas (fb_accounts fb) a")
    case False
    with that show ?thesis
      by (fastforce simp: FakeB_def fb_watch_def Let_def invalid_id_defs fake_watch_ok_def fake_watches_def fake_watch_minted_def logCmd_def)
  qed (use that in \<open>auto simp: FakeB_def fb_watch_def keeps_view_def\<close>)
qed

lemma fake_watch_ok_new: "fake_watch_ok fb_new" "fake_watches fb_new = {}"
  by (simp_all add: fake_watch_ok_def fake_watches_def fb_new_def)

subsection \<open>The in-memory keychain\<close>

text \<open>\<open>m_store\<close> is never iterated: a partial function.\<close>

type_synonym memory_keychain = "string \<Rightarrow> string option"

definition mk_get :: "memory_keychain \<Rightarrow> string \<Rightarrow> string option" where
  "mk_get store ref = store ref"

definition mk_set :: "memory_keychain \<Rightarrow> string \<Rightarrow> string \<Rightarrow> bool \<times> memory_keychain" where
  "mk_set store ref password = (True, store(ref \<mapsto> password))"

definition mk_erase :: "memory_keychain \<Rightarrow> string \<Rightarrow> bool \<times> memory_keychain" where
  "mk_erase store ref = (store ref \<noteq> None, store(ref := None))"

definition MemK :: "memory_keychain ikeychain" where
  "MemK = \<lparr>kc_get = mk_get, kc_set = mk_set, kc_erase = mk_erase\<rparr>"

interpretation memory_keychain: keychain MemK "\<lambda>_. True"
  by unfold_locales (auto simp: MemK_def mk_get_def mk_set_def mk_erase_def)

end
