(* ===== verification/Settings.thy ===== *)
theory Settings imports FakeBackend Database "HOL-Library.AList" begin

text \<open>
  \<open>core/SettingsManager.{h,cpp}\<close>, the key/value store over \<open>app_settings\<close> with its cache, and
  \<open>core/SettingsController.{h,cpp}\<close>, the user's preferences in memory, each written through to the
  store.  SQLite's outcomes are arguments: how many rows the one SELECT delivers (\<open>None\<close>: it cannot
  be prepared) and whether an upsert runs.  \<open>IAutostart\<close>, \<open>QFile::exists\<close> and \<open>QUrl::toLocalFile\<close> are
  outside src/core's logic and are parameters.
\<close>

subsection \<open>The store\<close>

record settings_manager =
  sm_cache :: "string \<Rightarrow> string option"
  sm_loaded :: bool

definition sm_new :: settings_manager where
  "sm_new = \<lparr>sm_cache = (\<lambda>_. None), sm_loaded = False\<rparr>"

record sql_outcome =
  so_select :: "nat option"
  so_runs :: bool

definition cache_row :: "string \<times> string \<Rightarrow> (string \<Rightarrow> string option) \<Rightarrow> string \<Rightarrow> string option" where
  "cache_row kv c = c(c_text (fst kv) \<mapsto> c_text (snd kv))"

definition ensureLoaded :: "sql_outcome \<Rightarrow> database \<Rightarrow> settings_manager \<Rightarrow> settings_manager" where
  "ensureLoaded q db m =
     (if sm_loaded m then m
      else let m1 = m\<lparr>sm_loaded := True\<rparr> in
           if \<not> db_handle db then m1
           else case so_select q of
             None \<Rightarrow> m1
           | Some n \<Rightarrow> m1\<lparr>sm_cache := fold cache_row (take n (t_settings (db_tables db))) (sm_cache m1)\<rparr>)"

definition sm_get :: "sql_outcome \<Rightarrow> string \<Rightarrow> database \<Rightarrow> settings_manager \<Rightarrow> string option \<times> settings_manager" where
  "sm_get q k db m = (let m1 = ensureLoaded q db m in (sm_cache m1 k, m1))"

definition sm_getOr :: "sql_outcome \<Rightarrow> string \<Rightarrow> string \<Rightarrow> database \<Rightarrow> settings_manager \<Rightarrow> string \<times> settings_manager" where
  "sm_getOr q k fallback db m =
     (case sm_get q k db m of (r, m1) \<Rightarrow> (case r of Some v \<Rightarrow> v | None \<Rightarrow> fallback, m1))"

text \<open>The upsert leaves one row for the key.\<close>

definition sql_upsert_setting :: "bool \<Rightarrow> string \<Rightarrow> string \<Rightarrow> database \<Rightarrow> bool \<times> database" where
  "sql_upsert_setting runs k v db =
     (if runs \<and> db_handle db
      then (True, db\<lparr>db_tables := (db_tables db)\<lparr>t_settings := AList.update k v (t_settings (db_tables db))\<rparr>\<rparr>)
      else (False, db))"

definition sm_set ::
  "sql_outcome \<Rightarrow> string \<Rightarrow> string \<Rightarrow> database \<Rightarrow> settings_manager \<Rightarrow> bool \<times> database \<times> settings_manager" where
  "sm_set q k v db m =
     (let m1 = ensureLoaded q db m in
      case sql_upsert_setting (so_runs q) k v db of
        (True, db1) \<Rightarrow> (True, db1, m1\<lparr>sm_cache := (sm_cache m1)(k \<mapsto> v)\<rparr>)
      | (False, db1) \<Rightarrow> (False, db1, m1))"

subsection \<open>Reading numbers\<close>

text \<open>\<open>std::stoi\<close> and \<open>std::stoll\<close>: leading space and a sign, then at least one digit; what follows the
  digits is ignored; \<open>None\<close> is one of their two exceptions.\<close>

definition fits_int64 :: "int \<Rightarrow> bool" where
  "fits_int64 i \<longleftrightarrow> - (2 ^ 63) \<le> i \<and> i < 2 ^ 63"

definition sto :: "(int \<Rightarrow> bool) \<Rightarrow> string \<Rightarrow> int option" where
  "sto fits s =
     (let (sg, r) = scan_sign (trim_left is_space s); ds = fst (scan_digits r); v = sg * int (digits_val ds)
      in if ds \<noteq> [] \<and> fits v then Some v else None)"

definition stoi :: "string \<Rightarrow> int option" where "stoi = sto fits_int"
definition stoll :: "string \<Rightarrow> int option" where "stoll = sto fits_int64"

subsection \<open>The controller\<close>

record 'a iautostart =
  au_isSupported :: "'a \<Rightarrow> bool"
  au_isEnabled :: "'a \<Rightarrow> bool"
  au_setEnabled :: "bool \<Rightarrow> 'a \<Rightarrow> bool \<times> 'a"

datatype log_level = LlTrace | LlDebug | LlInfo | LlWarn | LlErr

datatype sc_signal =
    LogLevelChanged | RingtoneEnabledChanged | ThemeIdChanged | AudioDevicesChanged
  | CaptureDeviceIdChanged | PlaybackDeviceIdChanged | RingtonePathChanged | DndEnabledChanged
  | AutoAnswerEnabledChanged | AutoAnswerDelayMsChanged | CfwdAlwaysEnabledChanged
  | CfwdAlwaysTargetChanged | CfwdBusyEnabledChanged | CfwdBusyTargetChanged
  | CfwdNoAnswerEnabledChanged | CfwdNoAnswerTargetChanged | CfwdNoAnswerTimeoutMsChanged
  | AutoRecordEnabledChanged | RecordingsPathChanged | EnterpriseFeaturesEnabledChanged
  | CrashReportingEnabledChanged | AlwaysOnTopChanged | LaunchOnStartupChanged
  | LaunchOnStartupFailed string | StartMinimizedToTrayChanged | AutoUpdateCheckEnabledChanged
  | SkippedUpdateVersionChanged | InitConfiguredSentry

record ('b, 'a) settings_controller =
  sc_backend :: "'b option"
  sc_settings :: "settings_manager option"
  sc_db :: database
  sc_appDataPath :: string
  sc_logLevel :: string
  sc_ringtoneEnabled :: bool
  sc_ringing :: bool
  sc_themeId :: string
  sc_dndEnabled :: bool
  sc_autoAnswerEnabled :: bool
  sc_autoAnswerDelayMs :: int
  sc_cfwdAlwaysEnabled :: bool
  sc_cfwdAlwaysTarget :: string
  sc_cfwdBusyEnabled :: bool
  sc_cfwdBusyTarget :: string
  sc_cfwdNoAnswerEnabled :: bool
  sc_cfwdNoAnswerTarget :: string
  sc_cfwdNoAnswerTimeoutMs :: int
  sc_autoRecordEnabled :: bool
  sc_recordingsPath :: string
  sc_enterpriseFeaturesEnabled :: bool
  sc_crashReportingEnabled :: bool
  sc_alwaysOnTop :: bool
  sc_launchOnStartup :: bool
  sc_startMinimizedToTray :: bool
  sc_autoUpdateCheckEnabled :: bool
  sc_skippedUpdateVersion :: string
  sc_autostart :: "'a option"
  sc_ringtonePath :: string
  sc_spdLevel :: log_level
  sc_pendingRingtoneTests :: "int list"
  sc_signals :: "sc_signal list"

definition applyLogLevel :: "string \<Rightarrow> log_level" where
  "applyLogLevel lvl = (if lvl = ''trace'' then LlTrace else if lvl = ''debug'' then LlDebug
     else if lvl = ''warn'' then LlWarn else if lvl = ''error'' then LlErr else LlInfo)"

definition sc_emit :: "sc_signal \<Rightarrow> ('b, 'a) settings_controller \<Rightarrow> ('b, 'a) settings_controller" where
  "sc_emit s sc = sc\<lparr>sc_signals := sc_signals sc @ [s]\<rparr>"

text \<open>\<open>if (m_settings) m_settings->set(key, value)\<close>.\<close>

definition store :: "sql_outcome \<Rightarrow> string \<Rightarrow> string \<Rightarrow> ('b, 'a) settings_controller \<Rightarrow> ('b, 'a) settings_controller" where
  "store q k v sc =
     (case sc_settings sc of
        None \<Rightarrow> sc
      | Some m \<Rightarrow> (case sm_set q k v (sc_db sc) m of
          (_, db, m1) \<Rightarrow> sc\<lparr>sc_settings := Some m1, sc_db := db\<rparr>))"

definition flag :: "bool \<Rightarrow> string" where "flag b = (if b then ''1'' else ''0'')"

definition defaultRingtonePath :: "('b, 'a) settings_controller \<Rightarrow> string" where
  "defaultRingtonePath sc = sc_appDataPath sc @ ''/ringtone.wav''"

definition recordingsPath :: "('b, 'a) settings_controller \<Rightarrow> string" where
  "recordingsPath sc =
     (if sc_recordingsPath sc \<noteq> [] then sc_recordingsPath sc else sc_appDataPath sc @ ''/recordings'')"

definition applyRingtoneState :: "'b isip_backend \<Rightarrow> ('b, 'a) settings_controller \<Rightarrow> ('b, 'a) settings_controller" where
  "applyRingtoneState B sc =
     (case sc_backend sc of
        None \<Rightarrow> sc
      | Some b \<Rightarrow>
          if sc_ringtoneEnabled sc \<and> sc_ringing sc
          then sc\<lparr>sc_backend := Some (snd (bk_playRingtone B b (sc_ringtonePath sc)))\<rparr>
          else sc\<lparr>sc_backend := Some (bk_stopRingtone B b)\<rparr>)"

text \<open>The block of the constructor that reads the preferences; \<open>g\<close> is \<open>getOr\<close>.\<close>

definition load_prefs :: "(string \<Rightarrow> string \<Rightarrow> string) \<Rightarrow> ('b, 'a) settings_controller \<Rightarrow> ('b, 'a) settings_controller" where
  "load_prefs g sc = sc\<lparr>
     sc_logLevel := (g ''log_level'' ''info''),
     sc_ringtoneEnabled := (g ''ringtone_enabled'' ''1'' \<noteq> ''0''),
     sc_themeId := (g ''theme_id'' ''light''),
     sc_dndEnabled := (g ''dnd_enabled'' ''0'' = ''1''),
     sc_autoAnswerEnabled := (g ''auto_answer_enabled'' ''0'' = ''1''),
     sc_autoAnswerDelayMs := (case stoi (g ''auto_answer_delay_ms'' ''0'') of Some n \<Rightarrow> n | None \<Rightarrow> 0),
     sc_cfwdAlwaysEnabled := (g ''cfwd_always_enabled'' ''0'' = ''1''),
     sc_cfwdAlwaysTarget := (g ''cfwd_always_target'' []),
     sc_cfwdBusyEnabled := (g ''cfwd_busy_enabled'' ''0'' = ''1''),
     sc_cfwdBusyTarget := (g ''cfwd_busy_target'' []),
     sc_cfwdNoAnswerEnabled := (g ''cfwd_noanswer_enabled'' ''0'' = ''1''),
     sc_cfwdNoAnswerTarget := (g ''cfwd_noanswer_target'' []),
     sc_cfwdNoAnswerTimeoutMs := (case stoi (g ''cfwd_noanswer_timeout_ms'' ''20000'') of Some n \<Rightarrow> n | None \<Rightarrow> 20000),
     sc_autoRecordEnabled := (g ''auto_record_enabled'' ''0'' = ''1''),
     sc_enterpriseFeaturesEnabled := (g ''enterprise_features_enabled'' ''0'' = ''1''),
     sc_crashReportingEnabled := (g ''crash_reporting_enabled'' ''0'' = ''1''),
     sc_alwaysOnTop := (g ''always_on_top'' ''0'' = ''1''),
     sc_startMinimizedToTray := (g ''start_minimized_to_tray'' ''0'' = ''1''),
     sc_autoUpdateCheckEnabled := (g ''update_check_on_startup'' ''1'' \<noteq> ''0''),
     sc_skippedUpdateVersion := (g ''skipped_update_version'' []),
     sc_recordingsPath := (g ''recordings_path'' [])\<rparr>"

definition sc_blank :: "'b option \<Rightarrow> settings_manager option \<Rightarrow> database \<Rightarrow> string \<Rightarrow> 'a option \<Rightarrow> ('b, 'a) settings_controller" where
  "sc_blank b m db path au = \<lparr>
     sc_backend = b, sc_settings = m, sc_db = db, sc_appDataPath = path,
     sc_logLevel = ''info'', sc_ringtoneEnabled = True, sc_ringing = False, sc_themeId = ''light'',
     sc_dndEnabled = False, sc_autoAnswerEnabled = False, sc_autoAnswerDelayMs = 0,
     sc_cfwdAlwaysEnabled = False, sc_cfwdAlwaysTarget = [], sc_cfwdBusyEnabled = False,
     sc_cfwdBusyTarget = [], sc_cfwdNoAnswerEnabled = False, sc_cfwdNoAnswerTarget = [],
     sc_cfwdNoAnswerTimeoutMs = 20000, sc_autoRecordEnabled = False, sc_recordingsPath = [],
     sc_enterpriseFeaturesEnabled = False, sc_crashReportingEnabled = False, sc_alwaysOnTop = False,
     sc_launchOnStartup = False, sc_startMinimizedToTray = False, sc_autoUpdateCheckEnabled = True,
     sc_skippedUpdateVersion = [], sc_autostart = au, sc_ringtonePath = [], sc_spdLevel = LlInfo,
     sc_pendingRingtoneTests = [], sc_signals = []\<rparr>"

text \<open>Restoring a device: \<open>g\<close> reads its key, \<open>setDev\<close> is the backend's setter, whose answer is ignored.\<close>

definition restore_device :: "string \<Rightarrow> ('b \<Rightarrow> int \<Rightarrow> bool \<times> 'b) \<Rightarrow> 'b \<Rightarrow> 'b" where
  "restore_device str setDev b =
     (if str = [] then b else case stoi str of Some n \<Rightarrow> snd (setDev b n) | None \<Rightarrow> b)"

definition sc_new ::
  "'b isip_backend \<Rightarrow> 'a iautostart \<Rightarrow> (string \<Rightarrow> bool) \<Rightarrow> sql_outcome \<Rightarrow> 'b option \<Rightarrow> settings_manager option \<Rightarrow>
   database \<Rightarrow> string \<Rightarrow> 'a option \<Rightarrow> ('b, 'a) settings_controller" where
  "sc_new B A exists q b m db path au =
     (let sc0 = (sc_blank b m db path au)
            \<lparr>sc_launchOnStartup := (case au of None \<Rightarrow> False | Some a \<Rightarrow> au_isEnabled A a)\<rparr>;
          g = (\<lambda>k d. case m of None \<Rightarrow> d | Some m0 \<Rightarrow> fst (sm_getOr q k d db m0));
          sc1 = (case m of None \<Rightarrow> sc0
                 | Some m0 \<Rightarrow> (load_prefs g sc0)\<lparr>sc_settings := Some (ensureLoaded q db m0)\<rparr>);
          sc2 = sc1\<lparr>sc_spdLevel := applyLogLevel (sc_logLevel sc1)\<rparr>;
          storedRing = g ''ringtone_path'' (defaultRingtonePath sc2);
          sc3 = sc2\<lparr>sc_ringtonePath :=
                  (if storedRing = [] \<or> \<not> exists storedRing then defaultRingtonePath sc2 else storedRing)\<rparr>
      in case (b, m) of
           (Some b0, Some _) \<Rightarrow>
             sc3\<lparr>sc_backend := Some (restore_device (g ''playback_device_id'' []) (bk_setPlaybackDevice B)
                                (restore_device (g ''capture_device_id'' []) (bk_setCaptureDevice B) b0))\<rparr>
         | _ \<Rightarrow> sc3)"

subsection \<open>Preferences that are stored\<close>

definition setLogLevel :: "sql_outcome \<Rightarrow> string \<Rightarrow> ('b, 'a) settings_controller \<Rightarrow> ('b, 'a) settings_controller" where
  "setLogLevel q x sc =
     (if sc_logLevel sc = x then sc
      else sc_emit LogLevelChanged
             ((store q ''log_level'' x (sc\<lparr>sc_logLevel := x\<rparr>))\<lparr>sc_spdLevel := applyLogLevel x\<rparr>))"

definition setRingtoneEnabled ::
  "'b isip_backend \<Rightarrow> sql_outcome \<Rightarrow> bool \<Rightarrow> ('b, 'a) settings_controller \<Rightarrow> ('b, 'a) settings_controller" where
  "setRingtoneEnabled B q enabled sc =
     (if sc_ringtoneEnabled sc = enabled then sc
      else sc_emit RingtoneEnabledChanged (applyRingtoneState B
             (store q ''ringtone_enabled'' (flag enabled) (sc\<lparr>sc_ringtoneEnabled := enabled\<rparr>))))"

definition setThemeId :: "sql_outcome \<Rightarrow> string \<Rightarrow> ('b, 'a) settings_controller \<Rightarrow> ('b, 'a) settings_controller" where
  "setThemeId q x sc =
     (if sc_themeId sc = x then sc
      else sc_emit ThemeIdChanged (store q ''theme_id'' x (sc\<lparr>sc_themeId := x\<rparr>)))"

definition setDndEnabled :: "sql_outcome \<Rightarrow> bool \<Rightarrow> ('b, 'a) settings_controller \<Rightarrow> ('b, 'a) settings_controller" where
  "setDndEnabled q enabled sc =
     (if sc_dndEnabled sc = enabled then sc
      else sc_emit DndEnabledChanged (store q ''dnd_enabled'' (flag enabled) (sc\<lparr>sc_dndEnabled := enabled\<rparr>)))"

definition setAutoAnswerEnabled :: "sql_outcome \<Rightarrow> bool \<Rightarrow> ('b, 'a) settings_controller \<Rightarrow> ('b, 'a) settings_controller" where
  "setAutoAnswerEnabled q enabled sc =
     (if sc_autoAnswerEnabled sc = enabled then sc
      else sc_emit AutoAnswerEnabledChanged (store q ''auto_answer_enabled'' (flag enabled) (sc\<lparr>sc_autoAnswerEnabled := enabled\<rparr>)))"

definition setAutoAnswerDelayMs :: "sql_outcome \<Rightarrow> int \<Rightarrow> ('b, 'a) settings_controller \<Rightarrow> ('b, 'a) settings_controller" where
  "setAutoAnswerDelayMs q ms sc =
     (let clamped = (if ms < 0 then 0 else if ms > 60000 then 60000 else ms) in
      if sc_autoAnswerDelayMs sc = clamped then sc
      else sc_emit AutoAnswerDelayMsChanged
             (store q ''auto_answer_delay_ms'' (int_to_string clamped) (sc\<lparr>sc_autoAnswerDelayMs := clamped\<rparr>)))"

definition setCfwdAlwaysEnabled :: "sql_outcome \<Rightarrow> bool \<Rightarrow> ('b, 'a) settings_controller \<Rightarrow> ('b, 'a) settings_controller" where
  "setCfwdAlwaysEnabled q enabled sc =
     (if sc_cfwdAlwaysEnabled sc = enabled then sc
      else sc_emit CfwdAlwaysEnabledChanged (store q ''cfwd_always_enabled'' (flag enabled) (sc\<lparr>sc_cfwdAlwaysEnabled := enabled\<rparr>)))"

definition setCfwdAlwaysTarget :: "sql_outcome \<Rightarrow> string \<Rightarrow> ('b, 'a) settings_controller \<Rightarrow> ('b, 'a) settings_controller" where
  "setCfwdAlwaysTarget q x sc =
     (if sc_cfwdAlwaysTarget sc = x then sc
      else sc_emit CfwdAlwaysTargetChanged (store q ''cfwd_always_target'' x (sc\<lparr>sc_cfwdAlwaysTarget := x\<rparr>)))"

definition setCfwdBusyEnabled :: "sql_outcome \<Rightarrow> bool \<Rightarrow> ('b, 'a) settings_controller \<Rightarrow> ('b, 'a) settings_controller" where
  "setCfwdBusyEnabled q enabled sc =
     (if sc_cfwdBusyEnabled sc = enabled then sc
      else sc_emit CfwdBusyEnabledChanged (store q ''cfwd_busy_enabled'' (flag enabled) (sc\<lparr>sc_cfwdBusyEnabled := enabled\<rparr>)))"

definition setCfwdBusyTarget :: "sql_outcome \<Rightarrow> string \<Rightarrow> ('b, 'a) settings_controller \<Rightarrow> ('b, 'a) settings_controller" where
  "setCfwdBusyTarget q x sc =
     (if sc_cfwdBusyTarget sc = x then sc
      else sc_emit CfwdBusyTargetChanged (store q ''cfwd_busy_target'' x (sc\<lparr>sc_cfwdBusyTarget := x\<rparr>)))"

definition setCfwdNoAnswerEnabled :: "sql_outcome \<Rightarrow> bool \<Rightarrow> ('b, 'a) settings_controller \<Rightarrow> ('b, 'a) settings_controller" where
  "setCfwdNoAnswerEnabled q enabled sc =
     (if sc_cfwdNoAnswerEnabled sc = enabled then sc
      else sc_emit CfwdNoAnswerEnabledChanged (store q ''cfwd_noanswer_enabled'' (flag enabled) (sc\<lparr>sc_cfwdNoAnswerEnabled := enabled\<rparr>)))"

definition setCfwdNoAnswerTarget :: "sql_outcome \<Rightarrow> string \<Rightarrow> ('b, 'a) settings_controller \<Rightarrow> ('b, 'a) settings_controller" where
  "setCfwdNoAnswerTarget q x sc =
     (if sc_cfwdNoAnswerTarget sc = x then sc
      else sc_emit CfwdNoAnswerTargetChanged (store q ''cfwd_noanswer_target'' x (sc\<lparr>sc_cfwdNoAnswerTarget := x\<rparr>)))"

definition setCfwdNoAnswerTimeoutMs :: "sql_outcome \<Rightarrow> int \<Rightarrow> ('b, 'a) settings_controller \<Rightarrow> ('b, 'a) settings_controller" where
  "setCfwdNoAnswerTimeoutMs q ms sc =
     (let clamped = (if ms < 1000 then 1000 else if ms > 120000 then 120000 else ms) in
      if sc_cfwdNoAnswerTimeoutMs sc = clamped then sc
      else sc_emit CfwdNoAnswerTimeoutMsChanged
             (store q ''cfwd_noanswer_timeout_ms'' (int_to_string clamped) (sc\<lparr>sc_cfwdNoAnswerTimeoutMs := clamped\<rparr>)))"

definition setAutoRecordEnabled :: "sql_outcome \<Rightarrow> bool \<Rightarrow> ('b, 'a) settings_controller \<Rightarrow> ('b, 'a) settings_controller" where
  "setAutoRecordEnabled q enabled sc =
     (if sc_autoRecordEnabled sc = enabled then sc
      else sc_emit AutoRecordEnabledChanged (store q ''auto_record_enabled'' (flag enabled) (sc\<lparr>sc_autoRecordEnabled := enabled\<rparr>)))"

definition setRecordingsPath :: "sql_outcome \<Rightarrow> string \<Rightarrow> ('b, 'a) settings_controller \<Rightarrow> ('b, 'a) settings_controller" where
  "setRecordingsPath q x sc =
     (if sc_recordingsPath sc = x then sc
      else sc_emit RecordingsPathChanged (store q ''recordings_path'' x (sc\<lparr>sc_recordingsPath := x\<rparr>)))"

definition setEnterpriseFeaturesEnabled :: "sql_outcome \<Rightarrow> bool \<Rightarrow> ('b, 'a) settings_controller \<Rightarrow> ('b, 'a) settings_controller" where
  "setEnterpriseFeaturesEnabled q enabled sc =
     (if sc_enterpriseFeaturesEnabled sc = enabled then sc
      else sc_emit EnterpriseFeaturesEnabledChanged (store q ''enterprise_features_enabled'' (flag enabled) (sc\<lparr>sc_enterpriseFeaturesEnabled := enabled\<rparr>)))"

definition setCrashReportingEnabled :: "sql_outcome \<Rightarrow> bool \<Rightarrow> ('b, 'a) settings_controller \<Rightarrow> ('b, 'a) settings_controller" where
  "setCrashReportingEnabled q enabled sc =
     (if sc_crashReportingEnabled sc = enabled then sc
      else let sc1 = store q ''crash_reporting_enabled'' (flag enabled) (sc\<lparr>sc_crashReportingEnabled := enabled\<rparr>)
           in sc_emit CrashReportingEnabledChanged (if enabled then sc_emit InitConfiguredSentry sc1 else sc1))"

definition setAlwaysOnTop :: "sql_outcome \<Rightarrow> bool \<Rightarrow> ('b, 'a) settings_controller \<Rightarrow> ('b, 'a) settings_controller" where
  "setAlwaysOnTop q enabled sc =
     (if sc_alwaysOnTop sc = enabled then sc
      else sc_emit AlwaysOnTopChanged (store q ''always_on_top'' (flag enabled) (sc\<lparr>sc_alwaysOnTop := enabled\<rparr>)))"

definition setStartMinimizedToTray :: "sql_outcome \<Rightarrow> bool \<Rightarrow> ('b, 'a) settings_controller \<Rightarrow> ('b, 'a) settings_controller" where
  "setStartMinimizedToTray q enabled sc =
     (if sc_startMinimizedToTray sc = enabled then sc
      else sc_emit StartMinimizedToTrayChanged (store q ''start_minimized_to_tray'' (flag enabled) (sc\<lparr>sc_startMinimizedToTray := enabled\<rparr>)))"

definition setAutoUpdateCheckEnabled :: "sql_outcome \<Rightarrow> bool \<Rightarrow> ('b, 'a) settings_controller \<Rightarrow> ('b, 'a) settings_controller" where
  "setAutoUpdateCheckEnabled q enabled sc =
     (if sc_autoUpdateCheckEnabled sc = enabled then sc
      else sc_emit AutoUpdateCheckEnabledChanged (store q ''update_check_on_startup'' (flag enabled) (sc\<lparr>sc_autoUpdateCheckEnabled := enabled\<rparr>)))"

definition setSkippedUpdateVersion :: "sql_outcome \<Rightarrow> string \<Rightarrow> ('b, 'a) settings_controller \<Rightarrow> ('b, 'a) settings_controller" where
  "setSkippedUpdateVersion q x sc =
     (if sc_skippedUpdateVersion sc = x then sc
      else sc_emit SkippedUpdateVersionChanged (store q ''skipped_update_version'' x (sc\<lparr>sc_skippedUpdateVersion := x\<rparr>)))"

definition lastUpdateCheckMs :: "sql_outcome \<Rightarrow> ('b, 'a) settings_controller \<Rightarrow> int" where
  "lastUpdateCheckMs q sc =
     (case sc_settings sc of
        None \<Rightarrow> 0
      | Some m \<Rightarrow> (case stoll (fst (sm_getOr q ''last_update_check_ms'' ''0'' (sc_db sc) m)) of
          Some n \<Rightarrow> n | None \<Rightarrow> 0))"

definition setLastUpdateCheckMs :: "sql_outcome \<Rightarrow> int \<Rightarrow> ('b, 'a) settings_controller \<Rightarrow> ('b, 'a) settings_controller" where
  "setLastUpdateCheckMs q ms sc = store q ''last_update_check_ms'' (int_to_string ms) sc"

subsection \<open>Launch on startup, audio devices and the ringtone\<close>

definition autostartSupported :: "'a iautostart \<Rightarrow> ('b, 'a) settings_controller \<Rightarrow> bool" where
  "autostartSupported A sc = (case sc_autostart sc of None \<Rightarrow> False | Some a \<Rightarrow> au_isSupported A a)"

definition setLaunchOnStartup :: "'a iautostart \<Rightarrow> bool \<Rightarrow> ('b, 'a) settings_controller \<Rightarrow> ('b, 'a) settings_controller" where
  "setLaunchOnStartup A enabled sc =
     (if sc_launchOnStartup sc = enabled then sc
      else let (ok, sc1) = (case sc_autostart sc of
                 None \<Rightarrow> (False, sc)
               | Some a \<Rightarrow> (case au_setEnabled A enabled a of (r, a1) \<Rightarrow> (r, sc\<lparr>sc_autostart := Some a1\<rparr>)))
           in if \<not> ok
              then sc_emit LaunchOnStartupChanged (sc_emit (LaunchOnStartupFailed
                     (if enabled then ''Couldn'' @ CHR 0x27 # ''t enable launch on startup.''
                      else ''Couldn'' @ CHR 0x27 # ''t disable launch on startup.'')) sc1)
              else sc_emit LaunchOnStartupChanged (sc1\<lparr>sc_launchOnStartup := enabled\<rparr>))"

definition audioInputs :: "'b isip_backend \<Rightarrow> ('b, 'a) settings_controller \<Rightarrow> (int \<times> string) list" where
  "audioInputs B sc = (case sc_backend sc of None \<Rightarrow> []
     | Some b \<Rightarrow> map (\<lambda>d. (ad_id d, ad_name d)) (filter (\<lambda>d. \<not> ad_inputCount d \<le> 0) (bk_audioDevices B b)))"

definition audioOutputs :: "'b isip_backend \<Rightarrow> ('b, 'a) settings_controller \<Rightarrow> (int \<times> string) list" where
  "audioOutputs B sc = (case sc_backend sc of None \<Rightarrow> []
     | Some b \<Rightarrow> map (\<lambda>d. (ad_id d, ad_name d)) (filter (\<lambda>d. \<not> ad_outputCount d \<le> 0) (bk_audioDevices B b)))"

definition captureDeviceId :: "'b isip_backend \<Rightarrow> ('b, 'a) settings_controller \<Rightarrow> int" where
  "captureDeviceId B sc = (case sc_backend sc of None \<Rightarrow> -1 | Some b \<Rightarrow> bk_captureDevice B b)"

definition playbackDeviceId :: "'b isip_backend \<Rightarrow> ('b, 'a) settings_controller \<Rightarrow> int" where
  "playbackDeviceId B sc = (case sc_backend sc of None \<Rightarrow> -1 | Some b \<Rightarrow> bk_playbackDevice B b)"

definition setCaptureDeviceId ::
  "'b isip_backend \<Rightarrow> sql_outcome \<Rightarrow> int \<Rightarrow> ('b, 'a) settings_controller \<Rightarrow> ('b, 'a) settings_controller" where
  "setCaptureDeviceId B q i sc =
     (case sc_backend sc of
        None \<Rightarrow> sc
      | Some b \<Rightarrow> (case bk_setCaptureDevice B b i of
          (False, b1) \<Rightarrow> sc\<lparr>sc_backend := Some b1\<rparr>
        | (True, b1) \<Rightarrow> sc_emit CaptureDeviceIdChanged
            (store q ''capture_device_id'' (int_to_string i) (sc\<lparr>sc_backend := Some b1\<rparr>))))"

definition setPlaybackDeviceId ::
  "'b isip_backend \<Rightarrow> sql_outcome \<Rightarrow> int \<Rightarrow> ('b, 'a) settings_controller \<Rightarrow> ('b, 'a) settings_controller" where
  "setPlaybackDeviceId B q i sc =
     (case sc_backend sc of
        None \<Rightarrow> sc
      | Some b \<Rightarrow> (case bk_setPlaybackDevice B b i of
          (False, b1) \<Rightarrow> sc\<lparr>sc_backend := Some b1\<rparr>
        | (True, b1) \<Rightarrow> sc_emit PlaybackDeviceIdChanged
            (store q ''playback_device_id'' (int_to_string i) (sc\<lparr>sc_backend := Some b1\<rparr>))))"

definition refreshAudioDevices :: "'b isip_backend \<Rightarrow> ('b, 'a) settings_controller \<Rightarrow> ('b, 'a) settings_controller" where
  "refreshAudioDevices B sc =
     (let sc1 = sc\<lparr>sc_backend := map_option (bk_refreshAudioDevices B) (sc_backend sc)\<rparr>
      in sc_emit PlaybackDeviceIdChanged (sc_emit CaptureDeviceIdChanged (sc_emit AudioDevicesChanged sc1)))"

text \<open>The test tone's timer restores what should be heard.\<close>

definition testRingtone :: "'b isip_backend \<Rightarrow> int \<Rightarrow> ('b, 'a) settings_controller \<Rightarrow> ('b, 'a) settings_controller" where
  "testRingtone B durationMs sc =
     sc\<lparr>sc_backend := map_option (\<lambda>b. snd (bk_playRingtone B b (sc_ringtonePath sc))) (sc_backend sc),
        sc_pendingRingtoneTests := sc_pendingRingtoneTests sc @ [durationMs]\<rparr>"

definition ringtone_test_over :: "'b isip_backend \<Rightarrow> nat \<Rightarrow> ('b, 'a) settings_controller \<Rightarrow> ('b, 'a) settings_controller" where
  "ringtone_test_over B n sc =
     (if n < length (sc_pendingRingtoneTests sc)
      then applyRingtoneState B (sc\<lparr>sc_pendingRingtoneTests :=
             take n (sc_pendingRingtoneTests sc) @ drop (Suc n) (sc_pendingRingtoneTests sc)\<rparr>)
      else sc)"

definition setRingtonePath ::
  "'b isip_backend \<Rightarrow> (string \<Rightarrow> bool) \<Rightarrow> (string \<Rightarrow> string) \<Rightarrow> sql_outcome \<Rightarrow> string \<Rightarrow>
   ('b, 'a) settings_controller \<Rightarrow> ('b, 'a) settings_controller" where
  "setRingtonePath B exists toLocalFile q p sc =
     (let path0 = (if starts_with ''file://'' p then toLocalFile p else p);
          path = (if path0 = [] \<or> \<not> exists path0 then defaultRingtonePath sc else path0)
      in if sc_ringtonePath sc = path then store q ''ringtone_path'' path sc
         else sc_emit RingtonePathChanged (applyRingtoneState B
                (store q ''ringtone_path'' path (sc\<lparr>sc_ringtonePath := path\<rparr>))))"

definition setRinging :: "'b isip_backend \<Rightarrow> bool \<Rightarrow> ('b, 'a) settings_controller \<Rightarrow> ('b, 'a) settings_controller" where
  "setRinging B ringing sc =
     (if sc_ringing sc = ringing then sc else applyRingtoneState B (sc\<lparr>sc_ringing := ringing\<rparr>))"

subsection \<open>The store agrees with its table\<close>

definition plain_settings :: "database \<Rightarrow> bool" where
  "plain_settings db \<longleftrightarrow> distinct (map fst (t_settings (db_tables db))) \<and>
     list_all (\<lambda>(k, v). no_nul k \<and> no_nul v) (t_settings (db_tables db))"

definition reads_all :: "sql_outcome \<Rightarrow> database \<Rightarrow> bool" where
  "reads_all q db \<longleftrightarrow> (\<exists>n. so_select q = Some n \<and> length (t_settings (db_tables db)) \<le> n)"

lemma fold_cache_row:
  "distinct (map fst t) \<Longrightarrow> list_all (\<lambda>(k, v). no_nul k \<and> no_nul v) t \<Longrightarrow> fold cache_row t c = c ++ map_of t"
proof (induction t arbitrary: c)
  case (Cons x t)
  obtain k v where x: "x = (k, v)" by (cases x)
  have "k \<notin> dom (map_of t)" using Cons.prems(1) by (simp add: x dom_map_of_conv_image_fst)
  then have "c(k \<mapsto> v) ++ map_of t = c ++ map_of ((k, v) # t)" by (simp add: map_add_upd_left)
  moreover have "cache_row x c = c(k \<mapsto> v)" using Cons.prems(2) by (simp add: x cache_row_def)
  moreover have "fold cache_row t (c(k \<mapsto> v)) = c(k \<mapsto> v) ++ map_of t" using Cons by (simp add: x)
  ultimately show ?case by (simp only: x fold_Cons comp_apply)
qed simp

lemma ensureLoaded_full:
  assumes "plain_settings db" "db_handle db" "reads_all q db"
  shows "sm_cache (ensureLoaded q db sm_new) = map_of (t_settings (db_tables db))"
    and "sm_loaded (ensureLoaded q db m)"
  using assms
  by (auto simp: ensureLoaded_def sm_new_def reads_all_def plain_settings_def fold_cache_row Let_def
      split: option.split)

lemma ensureLoaded_loaded [simp]: "sm_loaded m \<Longrightarrow> ensureLoaded q db m = m"
  by (simp add: ensureLoaded_def)

text \<open>A failed first SELECT is final: the store answers every read with the fallback from then on,
  whatever the table holds, and asks the database no more, however healthy it is later.\<close>

theorem failed_load_sticks:
  assumes "so_select q = None"
  shows "sm_getOr q k d db sm_new = (d, sm_new\<lparr>sm_loaded := True\<rparr>)
       \<and> sm_getOr q' k d db' (snd (sm_getOr q k d db sm_new)) = (d, sm_new\<lparr>sm_loaded := True\<rparr>)"
  using assms by (simp add: sm_getOr_def sm_get_def ensureLoaded_def sm_new_def Let_def)

definition stored_dnd :: database where
  "stored_dnd = \<lparr>db_handle = True, db_tables = \<lparr>t_accounts = [], t_history = [], t_messages = [], t_contacts = [],
     t_lines = [], t_settings = [(''dnd_enabled'', ''1'')]\<rparr>, db_tx = None\<rparr>"

theorem failed_load_sticks_witness:
  "sm_getOr \<lparr>so_select = Some 9, so_runs = True\<rparr> ''dnd_enabled'' ''0'' stored_dnd
     (snd (sm_getOr \<lparr>so_select = None, so_runs = False\<rparr> ''dnd_enabled'' ''0'' stored_dnd sm_new))
   = (''0'', sm_new\<lparr>sm_loaded := True\<rparr>)"
  by (rule failed_load_sticks[THEN conjunct2]) simp

subsection \<open>Preferences in step with the store\<close>

definition getd :: "(string \<Rightarrow> string option) \<Rightarrow> string \<Rightarrow> string \<Rightarrow> string" where
  "getd c k d = (case c k of Some v \<Rightarrow> v | None \<Rightarrow> d)"

lemma getd_upd [simp]: "getd (c(k \<mapsto> v)) k' d = (if k' = k then v else getd c k' d)"
  by (simp add: getd_def)

lemma flag_eqs [simp]: "(flag b = ''1'') = b" "(flag b \<noteq> ''0'') = b" "(flag b = ''0'') = (\<not> b)" "(''1'' = flag b) = b"
  by (auto simp: flag_def)

text \<open>The preferences of two controllers are the same.\<close>

definition same_prefs :: "('b, 'a) settings_controller \<Rightarrow> ('c, 'd) settings_controller \<Rightarrow> bool" where
  "same_prefs x y \<longleftrightarrow>
     sc_logLevel x = sc_logLevel y \<and>
     sc_ringtoneEnabled x = sc_ringtoneEnabled y \<and>
     sc_themeId x = sc_themeId y \<and>
     sc_dndEnabled x = sc_dndEnabled y \<and>
     sc_autoAnswerEnabled x = sc_autoAnswerEnabled y \<and>
     sc_autoAnswerDelayMs x = sc_autoAnswerDelayMs y \<and>
     sc_cfwdAlwaysEnabled x = sc_cfwdAlwaysEnabled y \<and>
     sc_cfwdAlwaysTarget x = sc_cfwdAlwaysTarget y \<and>
     sc_cfwdBusyEnabled x = sc_cfwdBusyEnabled y \<and>
     sc_cfwdBusyTarget x = sc_cfwdBusyTarget y \<and>
     sc_cfwdNoAnswerEnabled x = sc_cfwdNoAnswerEnabled y \<and>
     sc_cfwdNoAnswerTarget x = sc_cfwdNoAnswerTarget y \<and>
     sc_cfwdNoAnswerTimeoutMs x = sc_cfwdNoAnswerTimeoutMs y \<and>
     sc_autoRecordEnabled x = sc_autoRecordEnabled y \<and>
     sc_enterpriseFeaturesEnabled x = sc_enterpriseFeaturesEnabled y \<and>
     sc_crashReportingEnabled x = sc_crashReportingEnabled y \<and>
     sc_alwaysOnTop x = sc_alwaysOnTop y \<and>
     sc_startMinimizedToTray x = sc_startMinimizedToTray y \<and>
     sc_autoUpdateCheckEnabled x = sc_autoUpdateCheckEnabled y \<and>
     sc_skippedUpdateVersion x = sc_skippedUpdateVersion y \<and>
     sc_recordingsPath x = sc_recordingsPath y"

lemma same_prefs_load: "same_prefs (load_prefs g x) (load_prefs g y)"
  by (simp add: same_prefs_def load_prefs_def)

definition in_step :: "(string \<Rightarrow> string \<Rightarrow> string) \<Rightarrow> ('b, 'a) settings_controller \<Rightarrow> bool" where
  "in_step g sc \<longleftrightarrow> same_prefs sc (load_prefs g sc)"

lemma same_prefs_trans: "same_prefs x y \<Longrightarrow> same_prefs y z \<Longrightarrow> same_prefs x z"
  by (simp add: same_prefs_def)

lemma same_prefs_sym: "same_prefs x y \<Longrightarrow> same_prefs y x"
  by (simp add: same_prefs_def)

lemma same_prefs_frames [simp]:
  "same_prefs (sc_emit s x) y = same_prefs x y" "same_prefs (store q k v x) y = same_prefs x y"
  "same_prefs (applyRingtoneState B x) y = same_prefs x y"
  "same_prefs (x\<lparr>sc_backend := b\<rparr>) y = same_prefs x y" "same_prefs (x\<lparr>sc_spdLevel := l\<rparr>) y = same_prefs x y"
  "same_prefs (x\<lparr>sc_ringing := r\<rparr>) y = same_prefs x y" "same_prefs (x\<lparr>sc_settings := m\<rparr>) y = same_prefs x y"
  "same_prefs (x\<lparr>sc_ringtonePath := p\<rparr>) y = same_prefs x y" "same_prefs (x\<lparr>sc_autostart := a\<rparr>) y = same_prefs x y"
  "same_prefs (x\<lparr>sc_launchOnStartup := r\<rparr>) y = same_prefs x y"
  "same_prefs (x\<lparr>sc_pendingRingtoneTests := ns\<rparr>) y = same_prefs x y"
  by (auto simp: same_prefs_def sc_emit_def store_def applyRingtoneState_def split: option.split prod.split)

text \<open>Everything the user, the tray and the call controller do to the preferences.\<close>

datatype sc_op =
    SetLogLevel string
  | SetRingtoneEnabled bool
  | SetThemeId string
  | SetDndEnabled bool
  | SetAutoAnswerEnabled bool
  | SetAutoAnswerDelayMs int
  | SetCfwdAlwaysEnabled bool
  | SetCfwdAlwaysTarget string
  | SetCfwdBusyEnabled bool
  | SetCfwdBusyTarget string
  | SetCfwdNoAnswerEnabled bool
  | SetCfwdNoAnswerTarget string
  | SetCfwdNoAnswerTimeoutMs int
  | SetAutoRecordEnabled bool
  | SetRecordingsPath string
  | SetEnterpriseFeaturesEnabled bool
  | SetCrashReportingEnabled bool
  | SetAlwaysOnTop bool
  | SetStartMinimizedToTray bool
  | SetAutoUpdateCheckEnabled bool
  | SetSkippedUpdateVersion string
  | SetLastUpdateCheckMs int
  | SetLaunchOnStartup bool
  | SetCaptureDeviceId int
  | SetPlaybackDeviceId int
  | SetRefreshAudioDevices
  | SetTestRingtone int
  | SetRingtoneTestOver nat
  | SetRingtonePath string
  | SetRinging bool

fun sc_apply ::
  "'b isip_backend \<Rightarrow> 'a iautostart \<Rightarrow> (string \<Rightarrow> bool) \<Rightarrow> (string \<Rightarrow> string) \<Rightarrow> sql_outcome \<Rightarrow> sc_op \<Rightarrow>
   ('b, 'a) settings_controller \<Rightarrow> ('b, 'a) settings_controller" where
  "sc_apply B A ex toLocalFile q (SetLogLevel x) sc = setLogLevel q x sc"
| "sc_apply B A ex toLocalFile q (SetRingtoneEnabled x) sc = setRingtoneEnabled B q x sc"
| "sc_apply B A ex toLocalFile q (SetThemeId x) sc = setThemeId q x sc"
| "sc_apply B A ex toLocalFile q (SetDndEnabled x) sc = setDndEnabled q x sc"
| "sc_apply B A ex toLocalFile q (SetAutoAnswerEnabled x) sc = setAutoAnswerEnabled q x sc"
| "sc_apply B A ex toLocalFile q (SetAutoAnswerDelayMs x) sc = setAutoAnswerDelayMs q x sc"
| "sc_apply B A ex toLocalFile q (SetCfwdAlwaysEnabled x) sc = setCfwdAlwaysEnabled q x sc"
| "sc_apply B A ex toLocalFile q (SetCfwdAlwaysTarget x) sc = setCfwdAlwaysTarget q x sc"
| "sc_apply B A ex toLocalFile q (SetCfwdBusyEnabled x) sc = setCfwdBusyEnabled q x sc"
| "sc_apply B A ex toLocalFile q (SetCfwdBusyTarget x) sc = setCfwdBusyTarget q x sc"
| "sc_apply B A ex toLocalFile q (SetCfwdNoAnswerEnabled x) sc = setCfwdNoAnswerEnabled q x sc"
| "sc_apply B A ex toLocalFile q (SetCfwdNoAnswerTarget x) sc = setCfwdNoAnswerTarget q x sc"
| "sc_apply B A ex toLocalFile q (SetCfwdNoAnswerTimeoutMs x) sc = setCfwdNoAnswerTimeoutMs q x sc"
| "sc_apply B A ex toLocalFile q (SetAutoRecordEnabled x) sc = setAutoRecordEnabled q x sc"
| "sc_apply B A ex toLocalFile q (SetRecordingsPath x) sc = setRecordingsPath q x sc"
| "sc_apply B A ex toLocalFile q (SetEnterpriseFeaturesEnabled x) sc = setEnterpriseFeaturesEnabled q x sc"
| "sc_apply B A ex toLocalFile q (SetCrashReportingEnabled x) sc = setCrashReportingEnabled q x sc"
| "sc_apply B A ex toLocalFile q (SetAlwaysOnTop x) sc = setAlwaysOnTop q x sc"
| "sc_apply B A ex toLocalFile q (SetStartMinimizedToTray x) sc = setStartMinimizedToTray q x sc"
| "sc_apply B A ex toLocalFile q (SetAutoUpdateCheckEnabled x) sc = setAutoUpdateCheckEnabled q x sc"
| "sc_apply B A ex toLocalFile q (SetSkippedUpdateVersion x) sc = setSkippedUpdateVersion q x sc"
| "sc_apply B A ex toLocalFile q (SetLastUpdateCheckMs x) sc = setLastUpdateCheckMs q x sc"
| "sc_apply B A ex toLocalFile q (SetLaunchOnStartup x) sc = setLaunchOnStartup A x sc"
| "sc_apply B A ex toLocalFile q (SetCaptureDeviceId x) sc = setCaptureDeviceId B q x sc"
| "sc_apply B A ex toLocalFile q (SetPlaybackDeviceId x) sc = setPlaybackDeviceId B q x sc"
| "sc_apply B A ex toLocalFile q SetRefreshAudioDevices sc = refreshAudioDevices B sc"
| "sc_apply B A ex toLocalFile q (SetTestRingtone x) sc = testRingtone B x sc"
| "sc_apply B A ex toLocalFile q (SetRingtoneTestOver x) sc = ringtone_test_over B x sc"
| "sc_apply B A ex toLocalFile q (SetRingtonePath x) sc = setRingtonePath B ex toLocalFile q x sc"
| "sc_apply B A ex toLocalFile q (SetRinging x) sc = setRinging B x sc"

fun op_text :: "(string \<Rightarrow> string) \<Rightarrow> sc_op \<Rightarrow> string" where
  "op_text f (SetLogLevel x) = x"
| "op_text f (SetThemeId x) = x"
| "op_text f (SetCfwdAlwaysTarget x) = x"
| "op_text f (SetCfwdBusyTarget x) = x"
| "op_text f (SetCfwdNoAnswerTarget x) = x"
| "op_text f (SetRecordingsPath x) = x"
| "op_text f (SetSkippedUpdateVersion x) = x"
| "op_text f (SetRingtonePath x) = (if starts_with ''file://'' x then f x else x)"
| "op_text f _ = []"

definition ring_of :: "(string \<Rightarrow> bool) \<Rightarrow> (string \<Rightarrow> string \<Rightarrow> string) \<Rightarrow> string \<Rightarrow> string" where
  "ring_of ex g path = (let d = path @ ''/ringtone.wav''; r = g ''ringtone_path'' d
     in if r = [] \<or> \<not> ex r then d else r)"

definition prefs_store :: "('b, 'a) settings_controller \<Rightarrow> (string \<Rightarrow> string option) \<Rightarrow> bool" where
  "prefs_store sc c \<longleftrightarrow> db_handle (sc_db sc) \<and> plain_settings (sc_db sc) \<and> c = map_of (t_settings (db_tables (sc_db sc)))
     \<and> (\<exists>m. sc_settings sc = Some m \<and> sm_loaded m \<and> sm_cache m = c)"

definition prefs_inv :: "(string \<Rightarrow> bool) \<Rightarrow> ('b, 'a) settings_controller \<Rightarrow> bool" where
  "prefs_inv ex sc \<longleftrightarrow> (\<exists>c. prefs_store sc c \<and> in_step (getd c) sc \<and>
     sc_ringtonePath sc = ring_of ex (getd c) (sc_appDataPath sc))"

lemma prefs_store_frames [simp]:
  "prefs_store (sc_emit s x) c = prefs_store x c" "prefs_store (applyRingtoneState B x) c = prefs_store x c"
  by (auto simp: prefs_store_def sc_emit_def applyRingtoneState_def split: option.split)

lemma sc_frames [simp]:
  "sc_ringtonePath (sc_emit s x) = sc_ringtonePath x" "sc_ringtonePath (applyRingtoneState B x) = sc_ringtonePath x"
  "sc_ringtonePath (store q k v x) = sc_ringtonePath x" "sc_appDataPath (store q k v x) = sc_appDataPath x"
  "sc_appDataPath (sc_emit s x) = sc_appDataPath x" "sc_appDataPath (applyRingtoneState B x) = sc_appDataPath x"
  by (auto simp: sc_emit_def applyRingtoneState_def store_def split: option.split prod.split)

lemma in_step_frames [simp]:
  "in_step g (sc_emit s x) = in_step g x" "in_step g (applyRingtoneState B x) = in_step g x"
  "in_step g (store q k v x) = in_step g x"
  by (simp_all add: in_step_def same_prefs_def load_prefs_def sc_emit_def store_def
      applyRingtoneState_def split: option.split prod.split)

lemma prefs_inv_frames [simp]:
  "prefs_inv ex (sc_emit s x) = prefs_inv ex x" "prefs_inv ex (applyRingtoneState B x) = prefs_inv ex x"
  by (simp_all add: prefs_inv_def)

lemma prefs_inv_updates [simp]:
  "prefs_inv ex (x\<lparr>sc_backend := b\<rparr>) = prefs_inv ex x" "prefs_inv ex (x\<lparr>sc_spdLevel := l\<rparr>) = prefs_inv ex x"
  "prefs_inv ex (x\<lparr>sc_ringing := r\<rparr>) = prefs_inv ex x" "prefs_inv ex (x\<lparr>sc_autostart := a\<rparr>) = prefs_inv ex x"
  "prefs_inv ex (x\<lparr>sc_launchOnStartup := r\<rparr>) = prefs_inv ex x"
  "prefs_inv ex (x\<lparr>sc_pendingRingtoneTests := ns\<rparr>) = prefs_inv ex x"
  by (simp_all add: prefs_inv_def prefs_store_def in_step_def same_prefs_def load_prefs_def)

lemma plain_settings_update:
  assumes "plain_settings db" "no_nul k" "no_nul v"
  shows "plain_settings (db\<lparr>db_tables := (db_tables db)\<lparr>t_settings := AList.update k v (t_settings (db_tables db))\<rparr>\<rparr>)"
proof -
  have "list_all (\<lambda>(k, v). no_nul k \<and> no_nul v) (AList.update k v t)"
    if "list_all (\<lambda>(k, v). no_nul k \<and> no_nul v) t" for t
    using that assms(2,3) by (induction t) auto
  with assms(1) show ?thesis by (simp add: plain_settings_def distinct_update)
qed

lemma store_keeps:
  assumes "prefs_store sc c" "so_runs q" "no_nul k" "no_nul v"
  shows "prefs_store (store q k v sc) (c(k \<mapsto> v))"
  using assms plain_settings_update[of "sc_db sc" k v]
  by (auto simp: prefs_store_def store_def sm_set_def sql_upsert_setting_def update_conv Let_def)

lemma store_inv:
  assumes "prefs_store sc c" "so_runs q" "no_nul k" "no_nul v" "in_step (getd (c(k \<mapsto> v))) sc"
    and "sc_ringtonePath sc = ring_of ex (getd (c(k \<mapsto> v))) (sc_appDataPath sc)"
  shows "prefs_inv ex (store q k v sc)"
  using store_keeps[OF assms(1-4)] assms(5,6) unfolding prefs_inv_def by fastforce

lemma no_nul_flag [simp]: "no_nul (flag b)"
  by (simp add: flag_def no_nul_def code_def)

lemma no_nul_nat [simp]: "no_nul (nat_to_string n)"
  using nat_to_string_digits[of n] by (auto simp: no_nul_def list_all_iff is_digit_def)

lemma no_nul_int [simp]: "no_nul (int_to_string i)"
proof (cases "i < 0")
  case True
  then show ?thesis using no_nul_nat[of "nat (- i)"] by (simp add: int_to_string_def no_nul_def code_def)
qed (simp add: int_to_string_def)

lemma stoi_nat: "0 \<le> i \<Longrightarrow> i < 2 ^ 31 \<Longrightarrow> stoi (int_to_string i) = Some i"
proof -
  assume i: "0 \<le> i" "i < 2 ^ 31"
  let ?s = "nat_to_string (nat i)"
  obtain c cs where c: "?s = c # cs" by (cases ?s) auto
  with hd_nat_to_string[of "nat i"] have "is_digit c" by simp
  then have "trim_left is_space ?s = ?s" by (auto simp: c trim_left_def is_digit_def is_space_def)
  then show ?thesis
    using i scan_sign_nat_to_string[of "nat i" "[]"] scan_digits_nat_to_string[of "[]" "nat i"]
    by (simp add: stoi_def sto_def int_to_string_def fits_int_def)
qed

lemmas step_defs = in_step_def same_prefs_def load_prefs_def

lemmas setter_defs = setLogLevel_def setRingtoneEnabled_def setThemeId_def setDndEnabled_def
  setAutoAnswerEnabled_def setCfwdAlwaysEnabled_def setCfwdAlwaysTarget_def setCfwdBusyEnabled_def
  setCfwdBusyTarget_def setCfwdNoAnswerEnabled_def setCfwdNoAnswerTarget_def setAutoRecordEnabled_def
  setRecordingsPath_def setEnterpriseFeaturesEnabled_def setCrashReportingEnabled_def setAlwaysOnTop_def
  setStartMinimizedToTray_def setAutoUpdateCheckEnabled_def setSkippedUpdateVersion_def
  setLastUpdateCheckMs_def

lemma no_nul_lits [simp]: "no_nul []" "no_nul (c # s) = (code c \<noteq> 0 \<and> no_nul s)" "no_nul (s @ t) = (no_nul s \<and> no_nul t)"
  by (simp_all add: no_nul_def)

lemma code_lits [simp]: "code (Char b0 b1 b2 b3 b4 b5 b6 b7) = 0 \<longleftrightarrow> \<not> (b0 \<or> b1 \<or> b2 \<or> b3 \<or> b4 \<or> b5 \<or> b6 \<or> b7)"
  by (auto simp: code_def)

lemma setter_keeps:
  assumes "prefs_inv ex sc" "so_runs q" "k \<noteq> ''ringtone_path''" "no_nul k" "no_nul v"
    and "sc_db sc1 = sc_db sc" "sc_settings sc1 = sc_settings sc" "sc_ringtonePath sc1 = sc_ringtonePath sc"
    and "sc_appDataPath sc1 = sc_appDataPath sc"
    and "\<And>c. in_step (getd c) sc \<Longrightarrow> in_step (getd (c(k \<mapsto> v))) sc1"
  shows "prefs_inv ex (store q k v sc1)"
proof -
  obtain c where "prefs_store sc c" "in_step (getd c) sc"
    "sc_ringtonePath sc = ring_of ex (getd c) (sc_appDataPath sc)"
    using assms(1) by (auto simp: prefs_inv_def)
  moreover from this(1) have "prefs_store sc1 c" using assms(6,7) by (auto simp: prefs_store_def)
  ultimately show ?thesis using assms(2-5,8-10)
    by (intro store_inv[of sc1 c]) (simp_all add: ring_of_def)
qed

lemma text_setters_keep:
  assumes "prefs_inv ex sc" "so_runs q" "no_nul x"
  shows "prefs_inv ex (setLogLevel q x sc)" "prefs_inv ex (setThemeId q x sc)"
    "prefs_inv ex (setCfwdAlwaysTarget q x sc)" "prefs_inv ex (setCfwdBusyTarget q x sc)"
    "prefs_inv ex (setCfwdNoAnswerTarget q x sc)" "prefs_inv ex (setRecordingsPath q x sc)"
    "prefs_inv ex (setSkippedUpdateVersion q x sc)"
  using assms by (auto simp: setter_defs step_defs intro!: setter_keeps[of ex sc])

lemma flag_setters_keep:
  assumes "prefs_inv ex sc" "so_runs q"
  shows "prefs_inv ex (setRingtoneEnabled B q x sc)" "prefs_inv ex (setDndEnabled q x sc)"
    "prefs_inv ex (setAutoAnswerEnabled q x sc)" "prefs_inv ex (setCfwdAlwaysEnabled q x sc)"
    "prefs_inv ex (setCfwdBusyEnabled q x sc)" "prefs_inv ex (setCfwdNoAnswerEnabled q x sc)"
    "prefs_inv ex (setAutoRecordEnabled q x sc)" "prefs_inv ex (setEnterpriseFeaturesEnabled q x sc)"
    "prefs_inv ex (setCrashReportingEnabled q x sc)" "prefs_inv ex (setAlwaysOnTop q x sc)"
    "prefs_inv ex (setStartMinimizedToTray q x sc)" "prefs_inv ex (setAutoUpdateCheckEnabled q x sc)"
  using assms by (auto simp: setter_defs step_defs Let_def intro!: setter_keeps[of ex sc])

lemma number_setters_keep:
  assumes "prefs_inv ex sc" "so_runs q"
  shows "prefs_inv ex (setAutoAnswerDelayMs q x sc)" "prefs_inv ex (setCfwdNoAnswerTimeoutMs q x sc)"
    "prefs_inv ex (setLastUpdateCheckMs q x sc)"
  using assms stoi_nat[of 0] stoi_nat[of 60000] stoi_nat[of x] stoi_nat[of 1000] stoi_nat[of 120000]
  by (auto simp: setter_defs setAutoAnswerDelayMs_def setCfwdNoAnswerTimeoutMs_def step_defs Let_def
      intro!: setter_keeps[of ex sc])

lemma same_path: "sc_ringtonePath sc = p \<Longrightarrow> sc\<lparr>sc_ringtonePath := p\<rparr> = sc"
  by (cases sc) simp

lemma setRingtonePath_cases:
  assumes "no_nul (op_text f (SetRingtonePath x))" "no_nul (sc_appDataPath sc)"
  obtains p where "no_nul p" "p = sc_appDataPath sc @ ''/ringtone.wav'' \<or> p \<noteq> [] \<and> ex p"
    "setRingtonePath B ex f q x sc =
       (if sc_ringtonePath sc = p then store q ''ringtone_path'' p sc
        else sc_emit RingtonePathChanged (applyRingtoneState B
               (store q ''ringtone_path'' p (sc\<lparr>sc_ringtonePath := p\<rparr>))))"
proof
  let ?p0 = "if starts_with ''file://'' x then f x else x"
  let ?p = "if ?p0 = [] \<or> \<not> ex ?p0 then sc_appDataPath sc @ ''/ringtone.wav'' else ?p0"
  show "no_nul ?p" "?p = sc_appDataPath sc @ ''/ringtone.wav'' \<or> ?p \<noteq> [] \<and> ex ?p"
    using assms by (auto split: if_splits)
  show "setRingtonePath B ex f q x sc =
       (if sc_ringtonePath sc = ?p then store q ''ringtone_path'' ?p sc
        else sc_emit RingtonePathChanged (applyRingtoneState B
               (store q ''ringtone_path'' ?p (sc\<lparr>sc_ringtonePath := ?p\<rparr>))))"
    by (simp only: setRingtonePath_def defaultRingtonePath_def Let_def)
qed

lemma setRingtonePath_keeps:
  assumes "prefs_inv ex sc" "so_runs q" "no_nul (op_text f (SetRingtonePath x))" "no_nul (sc_appDataPath sc)"
  shows "prefs_inv ex (setRingtonePath B ex f q x sc)"
proof -
  obtain c where c: "prefs_store sc c" "in_step (getd c) sc"
    using assms(1) by (auto simp: prefs_inv_def)
  obtain p where p: "no_nul p" "p = sc_appDataPath sc @ ''/ringtone.wav'' \<or> p \<noteq> [] \<and> ex p"
    "setRingtonePath B ex f q x sc =
       (if sc_ringtonePath sc = p then store q ''ringtone_path'' p sc
        else sc_emit RingtonePathChanged (applyRingtoneState B
               (store q ''ringtone_path'' p (sc\<lparr>sc_ringtonePath := p\<rparr>))))"
    by (rule setRingtonePath_cases[OF assms(3,4)])
  have "prefs_inv ex (store q ''ringtone_path'' p (sc\<lparr>sc_ringtonePath := p\<rparr>))"
  proof (rule store_inv)
    show "prefs_store (sc\<lparr>sc_ringtonePath := p\<rparr>) c" using c(1) by (auto simp: prefs_store_def)
    show "in_step (getd (c(''ringtone_path'' \<mapsto> p))) (sc\<lparr>sc_ringtonePath := p\<rparr>)"
      using c(2) by (simp add: step_defs)
  qed (use assms(2) p(1,2) in \<open>auto simp: ring_of_def\<close>)
  then show ?thesis by (auto simp: p(3) same_path)
qed

lemma sc_apply_keeps:
  assumes "prefs_inv ex sc" "so_runs q" "no_nul (op_text f op)" "no_nul (sc_appDataPath sc)"
  shows "prefs_inv ex (sc_apply B A ex f q op sc)"
proof (cases "\<exists>x. op = SetRingtonePath x")
  case True
  then show ?thesis using assms setRingtonePath_keeps[of ex sc q f] by auto
next
  case False
  note keeps = text_setters_keep[OF assms(1,2)] flag_setters_keep[OF assms(1,2)] number_setters_keep[OF assms(1,2)]
  show ?thesis
  proof (cases op)
    case (SetCaptureDeviceId i)
    then show ?thesis using assms
      by (auto simp: setCaptureDeviceId_def step_defs intro!: setter_keeps[of ex sc] split: option.split prod.split bool.split)
  next
    case (SetPlaybackDeviceId i)
    then show ?thesis using assms
      by (auto simp: setPlaybackDeviceId_def step_defs intro!: setter_keeps[of ex sc] split: option.split prod.split bool.split)
  next
    case (SetLaunchOnStartup x)
    then show ?thesis using assms
      by (auto simp: setLaunchOnStartup_def Let_def split: option.split prod.split)
  qed (use assms False keeps in \<open>simp_all add: refreshAudioDevices_def testRingtone_def
      ringtone_test_over_def setRinging_def Let_def split: option.split prod.split\<close>)
qed

lemma sc_apply_path: "sc_appDataPath (sc_apply B A ex f q op sc) = sc_appDataPath sc"
  by (cases op)
     (auto simp: setter_defs setAutoAnswerDelayMs_def setCfwdNoAnswerTimeoutMs_def setLaunchOnStartup_def
       setCaptureDeviceId_def setPlaybackDeviceId_def refreshAudioDevices_def testRingtone_def
       ringtone_test_over_def setRingtonePath_def setRinging_def Let_def split: option.split prod.split bool.split)

definition fresh_controller ::
  "'b isip_backend \<Rightarrow> 'a iautostart \<Rightarrow> (string \<Rightarrow> bool) \<Rightarrow> sql_outcome \<Rightarrow> 'b \<Rightarrow> database \<Rightarrow> string \<Rightarrow> 'a option \<Rightarrow>
   ('b, 'a) settings_controller" where
  "fresh_controller B A ex q b db path au = sc_new B A ex q (Some b) (Some sm_new) db path au"

lemma fresh_controller_prefs:
  assumes "plain_settings db" "db_handle db" "reads_all q db"
  shows "same_prefs (fresh_controller B A ex q b db path au) (load_prefs (getd (map_of (t_settings (db_tables db)))) y)"
    and "sc_ringtonePath (fresh_controller B A ex q b db path au) = ring_of ex (getd (map_of (t_settings (db_tables db)))) path"
    and "prefs_inv ex (fresh_controller B A ex q b db path au)"
    and "sc_appDataPath (fresh_controller B A ex q b db path au) = path"
proof -
  have g: "fst (sm_getOr q k d db sm_new) = getd (map_of (t_settings (db_tables db))) k d" for k d
    using ensureLoaded_full(1)[OF assms]
    by (simp add: sm_getOr_def sm_get_def getd_def Let_def split: option.split)
  show "same_prefs (fresh_controller B A ex q b db path au) (load_prefs (getd (map_of (t_settings (db_tables db)))) y)"
    and "sc_ringtonePath (fresh_controller B A ex q b db path au) = ring_of ex (getd (map_of (t_settings (db_tables db)))) path"
    and "sc_appDataPath (fresh_controller B A ex q b db path au) = path"
    by (simp_all add: fresh_controller_def sc_new_def Let_def g same_prefs_def load_prefs_def sc_blank_def
        ring_of_def defaultRingtonePath_def)
  show "prefs_inv ex (fresh_controller B A ex q b db path au)"
    unfolding prefs_inv_def
  proof (intro exI[of _ "map_of (t_settings (db_tables db))"] conjI)
    show "prefs_store (fresh_controller B A ex q b db path au) (map_of (t_settings (db_tables db)))"
      using assms(1,2) ensureLoaded_full[OF assms]
      by (auto simp: prefs_store_def fresh_controller_def sc_new_def Let_def load_prefs_def sc_blank_def)
  qed (simp_all add: fresh_controller_def sc_new_def Let_def g step_defs sc_blank_def ring_of_def
       defaultRingtonePath_def)
qed

text \<open>C25. Preferences survive a restart: after any sequence of changes whose writes succeed, a program
  started on the resulting database, with whatever backend and login items it finds, has the same
  preferences and the same ringtone as the one that was running.\<close>

theorem restart_keeps_preferences:
  assumes "plain_settings db" "db_handle db" "reads_all q0 db" "no_nul path"
    and "\<forall>(q, op) \<in> set ops. so_runs q \<and> no_nul (op_text f op)"
    and "sc = fold (\<lambda>(q, op). sc_apply B A ex f q op) ops (fresh_controller B A ex q0 b db path au)"
    and "reads_all q1 (sc_db sc)"
  shows "same_prefs (fresh_controller B' A' ex q1 b' (sc_db sc) path au') sc
       \<and> sc_ringtonePath (fresh_controller B' A' ex q1 b' (sc_db sc) path au') = sc_ringtonePath sc"
proof -
  have run: "prefs_inv ex (fold (\<lambda>(q, op). sc_apply B A ex f q op) ops s)
      \<and> sc_appDataPath (fold (\<lambda>(q, op). sc_apply B A ex f q op) ops s) = path"
    if "prefs_inv ex s" "sc_appDataPath s = path" for s
    using assms(5) that
  proof (induction ops arbitrary: s)
    case (Cons x ops)
    obtain q op where x: "x = (q, op)" by (cases x)
    show ?case
      using Cons.prems assms(4) Cons.IH[of "sc_apply B A ex f q op s"]
        sc_apply_keeps[of ex s q f op B A] sc_apply_path[of B A ex f q op s] by (simp add: x)
  qed simp
  have inv: "prefs_inv ex sc" "sc_appDataPath sc = path"
    unfolding assms(6) using run[OF fresh_controller_prefs(3,4)[OF assms(1-3)]] by blast+
  then obtain c where c: "prefs_store sc c" "in_step (getd c) sc" "sc_ringtonePath sc = ring_of ex (getd c) path"
    by (auto simp: prefs_inv_def)
  then have db: "plain_settings (sc_db sc)" "db_handle (sc_db sc)" "c = map_of (t_settings (db_tables (sc_db sc)))"
    by (simp_all add: prefs_store_def)
  have "same_prefs sc (load_prefs (getd (map_of (t_settings (db_tables (sc_db sc))))) sc)"
    using c(2) by (simp add: in_step_def db(3))
  from same_prefs_trans[OF fresh_controller_prefs(1)[OF db(1,2) assms(7)] same_prefs_sym[OF this]]
  show ?thesis using c(3) by (simp add: fresh_controller_prefs(2)[OF db(1,2) assms(7)] db(3))
qed

definition ok_outcome :: sql_outcome where
  "ok_outcome = \<lparr>so_select = Some 9, so_runs = True\<rparr>"

definition started_fake :: fake_backend where
  "started_fake = fb_new\<lparr>fb_running := True\<rparr>"

definition no_login_items :: "unit iautostart" where
  "no_login_items = \<lparr>au_isSupported = (\<lambda>_. False), au_isEnabled = (\<lambda>_. False), au_setEnabled = (\<lambda>_ a. (False, a))\<rparr>"

definition sample_prefs :: "(fake_backend, unit) settings_controller" where
  "sample_prefs = fold (\<lambda>(q, op). sc_apply FakeB no_login_items (\<lambda>_. True) id q op)
     [(ok_outcome, SetDndEnabled False), (ok_outcome, SetAutoAnswerDelayMs 70000)]
     (fresh_controller FakeB no_login_items (\<lambda>_. True) ok_outcome started_fake stored_dnd ''/home'' None)"

theorem restart_keeps_preferences_witness:
  "sc_autoAnswerDelayMs (fresh_controller FakeB no_login_items (\<lambda>_. True) ok_outcome started_fake
     (sc_db sample_prefs) ''/home'' None) = 60000"
proof -
  have sc: "sc_autoAnswerDelayMs sample_prefs = 60000"
    "length (t_settings (db_tables (sc_db sample_prefs))) = 2"
    by (simp_all add: sample_prefs_def setDndEnabled_def setAutoAnswerDelayMs_def fresh_controller_def sc_new_def
        sc_blank_def load_prefs_def ok_outcome_def stored_dnd_def sm_getOr_def sm_get_def ensureLoaded_def sm_new_def
        cache_row_def sc_emit_def store_def sm_set_def sql_upsert_setting_def stoi_def sto_def flag_def
        trim_left_def scan_sign_def scan_digits_def digits_val_def digit_val_def is_space_def is_digit_def
        code_def Let_def restore_device_def fits_int_def c_text_def)
  have "same_prefs (fresh_controller FakeB no_login_items (\<lambda>_. True) ok_outcome started_fake
          (sc_db sample_prefs) ''/home'' (None :: unit option)) sample_prefs
      \<and> sc_ringtonePath (fresh_controller FakeB no_login_items (\<lambda>_. True) ok_outcome started_fake
          (sc_db sample_prefs) ''/home'' (None :: unit option)) = sc_ringtonePath sample_prefs"
  proof (rule restart_keeps_preferences[OF _ _ _ _ _ sample_prefs_def])
    show "reads_all ok_outcome (sc_db sample_prefs)" using sc(2) by (simp add: reads_all_def ok_outcome_def)
  qed (simp_all add: plain_settings_def stored_dnd_def reads_all_def ok_outcome_def)
  then show ?thesis using sc(1) by (simp add: same_prefs_def)
qed

subsection \<open>What the user hears\<close>

text \<open>While no test tone is pending the backend plays the ringtone exactly when it should.\<close>

definition audible_ok :: "(fake_backend, 'a) settings_controller \<Rightarrow> bool" where
  "audible_ok sc \<longleftrightarrow> (\<exists>b. sc_backend sc = Some b \<and> fb_running b \<and>
     (sc_pendingRingtoneTests sc = [] \<longrightarrow>
        fb_ringtonePath b = (if sc_ringtoneEnabled sc \<and> sc_ringing sc then sc_ringtonePath sc else [])))"

lemma store_frames [simp]:
  "sc_backend (store q k v x) = sc_backend x" "sc_ringing (store q k v x) = sc_ringing x"
  "sc_ringtoneEnabled (store q k v x) = sc_ringtoneEnabled x"
  "sc_pendingRingtoneTests (store q k v x) = sc_pendingRingtoneTests x"
  by (simp_all add: store_def split: option.split prod.split)

lemma audible_frames [simp]:
  "audible_ok (sc_emit s x) = audible_ok x" "audible_ok (store q k v x) = audible_ok x"
  by (simp_all add: audible_ok_def sc_emit_def)

lemma audible_apply:
  "sc_backend x = Some b \<Longrightarrow> fb_running b \<Longrightarrow> audible_ok (applyRingtoneState FakeB x)"
  by (simp add: audible_ok_def applyRingtoneState_def FakeB_def fb_playRingtone_def)

lemma fake_audio:
  "bk_setCaptureDevice FakeB = fb_setCaptureDevice" "bk_setPlaybackDevice FakeB = fb_setPlaybackDevice"
  "bk_playRingtone FakeB = fb_playRingtone" "bk_refreshAudioDevices FakeB = (\<lambda>fb. fb)"
  by (simp_all add: FakeB_def)

lemma audible_step:
  assumes "audible_ok sc"
  shows "audible_ok (sc_apply FakeB A ex f q op sc)"
proof -
  obtain b where b: "sc_backend sc = Some b" "fb_running b" using assms by (auto simp: audible_ok_def)
  note heard = audible_apply[where b = b, OF _ b(2)]
  show ?thesis
  proof (cases op)
    case (SetLaunchOnStartup x)
    with assms show ?thesis
      by (auto simp: setLaunchOnStartup_def audible_ok_def sc_emit_def Let_def split: option.split prod.split)
  next
    case (SetRingtonePath x)
    with assms b show ?thesis by (auto simp: setRingtonePath_def Let_def intro!: heard)
  next
    case (SetRingtoneEnabled x)
    with assms b show ?thesis by (auto simp: setRingtoneEnabled_def intro!: heard)
  next
    case (SetRingtoneTestOver x)
    with assms b show ?thesis by (auto simp: ringtone_test_over_def intro!: heard)
  next
    case (SetRinging x)
    with assms b show ?thesis by (auto simp: setRinging_def intro!: heard)
  qed (use assms in \<open>auto simp: setter_defs setAutoAnswerDelayMs_def setCfwdNoAnswerTimeoutMs_def
      setCaptureDeviceId_def setPlaybackDeviceId_def refreshAudioDevices_def testRingtone_def
      Let_def audible_ok_def fake_audio fb_setCaptureDevice_def fb_setPlaybackDevice_def
      fb_playRingtone_def sc_emit_def split: if_splits\<close>)
qed

text \<open>Whatever the user changes and however calls come and go, whenever no test tone is sounding the
  backend plays the chosen ringtone while a call rings and ringing is switched on, and is silent
  otherwise.\<close>

theorem ringtone_follows_state:
  assumes "fb_running b" "fb_ringtonePath b = []"
    and "sc = fold (\<lambda>(q, op). sc_apply FakeB A ex f q op) ops (fresh_controller FakeB A ex q0 b db path au)"
    and "sc_pendingRingtoneTests sc = []"
  shows "\<exists>b'. sc_backend sc = Some b' \<and>
     fb_ringtonePath b' = (if sc_ringtoneEnabled sc \<and> sc_ringing sc then sc_ringtonePath sc else [])"
proof -
  have dev: "fb_running (restore_device s set x) = fb_running x \<and> fb_ringtonePath (restore_device s set x) = fb_ringtonePath x"
    if "set \<in> {fb_setCaptureDevice, fb_setPlaybackDevice}" for s set x
    using that by (auto simp: restore_device_def fb_setCaptureDevice_def fb_setPlaybackDevice_def split: option.split if_splits)
  have "audible_ok (fresh_controller FakeB A ex q0 b db path au)"
    using assms(1,2) by (simp add: audible_ok_def fresh_controller_def sc_new_def Let_def load_prefs_def sc_blank_def
        dev FakeB_def)
  then have "audible_ok (fold (\<lambda>(q, op). sc_apply FakeB A ex f q op) ops (fresh_controller FakeB A ex q0 b db path au))"
  proof (induction ops rule: rev_induct)
    case (snoc x ops)
    then show ?case by (cases x) (simp add: audible_step)
  qed simp
  then show ?thesis using assms(4) by (auto simp: assms(3) audible_ok_def)
qed

definition sample_ringing :: "(fake_backend, unit) settings_controller" where
  "sample_ringing = fold (\<lambda>(q, op). sc_apply FakeB no_login_items (\<lambda>_. True) id q op)
     [(ok_outcome, SetRinging True)]
     (fresh_controller FakeB no_login_items (\<lambda>_. True) ok_outcome started_fake stored_dnd ''/home'' None)"

theorem ringtone_follows_state_witness:
  "\<exists>b. sc_backend sample_ringing = Some b \<and> fb_ringtonePath b = ''/home/ringtone.wav''"
proof -
  have sc: "sc_pendingRingtoneTests sample_ringing = []" "sc_ringtoneEnabled sample_ringing" "sc_ringing sample_ringing"
    "sc_ringtonePath sample_ringing = ''/home/ringtone.wav''"
    by (simp_all add: sample_ringing_def setRinging_def fresh_controller_def sc_new_def sc_blank_def load_prefs_def
        ok_outcome_def stored_dnd_def sm_getOr_def sm_get_def ensureLoaded_def sm_new_def cache_row_def
        applyRingtoneState_def Let_def c_text_def code_def defaultRingtonePath_def)
  show ?thesis
    using ringtone_follows_state[OF _ _ sample_ringing_def sc(1)] sc
    by (simp add: started_fake_def fb_new_def)
qed

end
