(* ===== verification/Accounts.thy ===== *)
theory Accounts imports BackendIf Database begin

text \<open>
  \<open>core/AccountsManager.{h,cpp}\<close>: the accounts, their rows in the database, their passwords in the
  keychain with an in-memory cache, and their registrations with the SIP backend.

  A manager's state is one record; the backend, keychain and database it points to are fields.  The
  pointers are assumed set, as they are in every configuration the program builds.  A new
  password reference (a UUID) and the outcome of each SQL statement are arguments: \<open>f i\<close> says
  whether the operation's \<open>i\<close>-th statement runs.  Signals are appended to a log.
\<close>

subsection \<open>State\<close>

datatype registration_state = Unregistered | Registering | Registered | Failed

record reg_error =
  re_code :: int
  re_reason :: string

definition no_reg_error :: reg_error where
  "no_reg_error = \<lparr>re_code = 0, re_reason = []\<rparr>"

record reg_state_update =
  ru_state :: registration_state
  ru_error :: reg_error

record mwi_state =
  mw_newMessages :: int
  mw_oldMessages :: int
  mw_active :: bool

definition no_mwi :: mwi_state where
  "no_mwi = \<lparr>mw_newMessages = 0, mw_oldMessages = 0, mw_active = False\<rparr>"

record entry =
  en_account :: account
  en_registered :: bool

datatype am_signal =
    RegistrationStateChanged account_id registration_state
  | MwiChanged account_id mwi_state
  | InstantMessageReceived account_id string string
  | PresenceChanged watch_id presence_state

record ('b, 'k) accounts_manager =
  am_backend :: 'b
  am_db :: database
  am_keychain :: 'k
  am_entries :: "entry list"
  am_passwordCache :: "string \<Rightarrow> string option"
  am_backendIds :: "(account_id \<times> backend_account_id) list"
  am_regStates :: "account_id \<Rightarrow> registration_state option"
  am_regErrors :: "account_id \<Rightarrow> reg_error option"
  am_mwi :: "account_id \<Rightarrow> mwi_state option"
  am_signals :: "am_signal list"

definition mapRegEvent :: "bool \<Rightarrow> int \<Rightarrow> string \<Rightarrow> reg_error \<Rightarrow> reg_state_update" where
  "mapRegEvent regIsActive statusCode reason lastError =
     (if regIsActive \<and> statusCode div 100 = 2
      then \<lparr>ru_state = Registered, ru_error = no_reg_error\<rparr>
      else if statusCode = 0 then \<lparr>ru_state = Registering, ru_error = lastError\<rparr>
      else if \<not> regIsActive \<and> statusCode div 100 = 2
      then \<lparr>ru_state = Unregistered, ru_error = lastError\<rparr>
      else \<lparr>ru_state = Failed, ru_error = \<lparr>re_code = statusCode, re_reason = reason\<rparr>\<rparr>)"

subsection \<open>Entries\<close>

definition find_entry :: "account_id \<Rightarrow> entry list \<Rightarrow> entry option" where
  "find_entry i es = find (\<lambda>e. acc_id (en_account e) = i) es"

text \<open>Writing through the iterator that \<open>find_if\<close> returned.\<close>

fun upd_first :: "('a \<Rightarrow> bool) \<Rightarrow> ('a \<Rightarrow> 'a) \<Rightarrow> 'a list \<Rightarrow> 'a list" where
  "upd_first P g [] = []"
| "upd_first P g (x # xs) = (if P x then g x # xs else x # upd_first P g xs)"

fun del_first :: "('a \<Rightarrow> bool) \<Rightarrow> 'a list \<Rightarrow> 'a list" where
  "del_first P [] = []"
| "del_first P (x # xs) = (if P x then xs else x # del_first P xs)"

definition set_entry :: "account_id \<Rightarrow> (entry \<Rightarrow> entry) \<Rightarrow> ('b, 'k) accounts_manager \<Rightarrow> ('b, 'k) accounts_manager" where
  "set_entry i g am = am\<lparr>am_entries := upd_first (\<lambda>e. acc_id (en_account e) = i) g (am_entries am)\<rparr>"

subsection \<open>Registration\<close>

definition settings_of :: "account \<Rightarrow> string \<Rightarrow> account_settings" where
  "settings_of a password = \<lparr>
     as_displayName = acc_displayName a, as_username = acc_username a, as_domain = acc_domain a,
     as_authUser = acc_authUser a, as_authRealm = acc_authRealm a, as_password = password,
     as_transport = acc_transport a, as_proxy = acc_proxy a, as_publicAddress = acc_publicAddress a,
     as_registerIntervalSec = acc_registerIntervalSec a,
     as_keepaliveIntervalSec = acc_keepaliveIntervalSec a,
     as_sessionTimersEnabled = acc_sessionTimersEnabled a,
     as_publishPresenceEnabled = acc_publishPresenceEnabled a, as_iceEnabled = acc_iceEnabled a,
     as_hideCallerId = acc_hideCallerId a, as_zrtpEnabled = acc_zrtpEnabled a,
     as_srtpMode = acc_srtpMode a, as_allowUntrustedCert = acc_allowUntrustedCert a,
     as_dtmfMethod = acc_dtmfMethod a, as_useStun = (acc_stunServer a \<noteq> [])\<rparr>"

text \<open>The password of an entry: from the cache, else from the keychain and then cached.\<close>

definition fetch_password ::
  "'k ikeychain \<Rightarrow> string \<Rightarrow> ('b, 'k) accounts_manager \<Rightarrow> string option \<times> ('b, 'k) accounts_manager" where
  "fetch_password K ref am =
     (case am_passwordCache am ref of
        Some pw \<Rightarrow> (Some pw, am)
      | None \<Rightarrow>
          (case kc_get K (am_keychain am) ref of
             None \<Rightarrow> (None, am)
           | Some pw \<Rightarrow> (Some pw, am\<lparr>am_passwordCache := (am_passwordCache am)(ref \<mapsto> pw)\<rparr>)))"

definition registerAccount ::
  "'b isip_backend \<Rightarrow> 'k ikeychain \<Rightarrow> account_id \<Rightarrow> ('b, 'k) accounts_manager \<Rightarrow> bool \<times> ('b, 'k) accounts_manager" where
  "registerAccount B K i am =
     (case find_entry i (am_entries am) of
        None \<Rightarrow> (False, am)
      | Some e \<Rightarrow>
          if \<not> bk_isRunning B (am_backend am) then (False, am)
          else if en_registered e then (True, am)
          else (case fetch_password K (acc_passwordRef (en_account e)) am of
                  (None, am1) \<Rightarrow> (False, am1)
                | (Some pw, am1) \<Rightarrow>
                    (case bk_addAccount B (am_backend am1) (settings_of (en_account e) pw) of
                       (backendId, b) \<Rightarrow>
                         (let am2 = am1\<lparr>am_backend := b\<rparr> in
                          if backendId = kInvalidAccountId then (False, am2)
                          else (True, set_entry i (\<lambda>e. e\<lparr>en_registered := True\<rparr>)
                                 (am2\<lparr>am_backendIds := aput i backendId (am_backendIds am2)\<rparr>))))))"

definition unregisterAccount ::
  "'b isip_backend \<Rightarrow> account_id \<Rightarrow> ('b, 'k) accounts_manager \<Rightarrow> ('b, 'k) accounts_manager" where
  "unregisterAccount B i am =
     (if find (\<lambda>e. acc_id (en_account e) = i \<and> en_registered e) (am_entries am) = None then am
      else
        (let (backendId, am1) =
               (case map_of (am_backendIds am) i of
                  None \<Rightarrow> (kInvalidAccountId, am)
                | Some bid \<Rightarrow> (bid, am\<lparr>am_backendIds := adel i (am_backendIds am)\<rparr>));
             am2 = (if backendId \<noteq> kInvalidAccountId
                    then am1\<lparr>am_backend := snd (bk_removeAccount B (am_backend am1) backendId)\<rparr>
                    else am1)
         in am2\<lparr>am_entries := upd_first (\<lambda>e. acc_id (en_account e) = i \<and> en_registered e)
                               (\<lambda>e. e\<lparr>en_registered := False\<rparr>) (am_entries am2),
                am_regStates := (am_regStates am2)(i \<mapsto> Unregistered),
                am_regErrors := (am_regErrors am2)(i := None)\<rparr>))"

definition registerStartupAccounts ::
  "'b isip_backend \<Rightarrow> 'k ikeychain \<Rightarrow> ('b, 'k) accounts_manager \<Rightarrow> ('b, 'k) accounts_manager" where
  "registerStartupAccounts B K am =
     fold (\<lambda>e am. if acc_enabled (en_account e) \<and> acc_registerOnStartup (en_account e)
                  then snd (registerAccount B K (acc_id (en_account e)) am) else am)
       (am_entries am) am"

definition reregisterAllEnabled ::
  "'b isip_backend \<Rightarrow> 'k ikeychain \<Rightarrow> ('b, 'k) accounts_manager \<Rightarrow> ('b, 'k) accounts_manager" where
  "reregisterAllEnabled B K am =
     (let targets = map (\<lambda>e. acc_id (en_account e))
                      (filter (\<lambda>e. acc_enabled (en_account e) \<and> acc_registerOnStartup (en_account e))
                        (am_entries am))
      in fold (\<lambda>i am. snd (registerAccount B K i (unregisterAccount B i am))) targets am)"

subsection \<open>Loading, adding, removing\<close>

definition row_order :: "(int \<times> account_row) list \<Rightarrow> (int \<times> account_row) list" where
  "row_order t = sort_key (\<lambda>(i, r). column_int (r ColSortOrder)) t"

definition loadFromDatabase :: "bool \<Rightarrow> ('b, 'k) accounts_manager \<Rightarrow> ('b, 'k) accounts_manager" where
  "loadFromDatabase prepared am =
     (if \<not> db_handle (am_db am) \<or> \<not> prepared then am
      else am\<lparr>am_entries := am_entries am @
              map (\<lambda>(i, r). \<lparr>en_account = account_of_row i r, en_registered = False\<rparr>)
                (row_order (t_accounts (db_tables (am_db am))))\<rparr>)"

definition am_new :: "bool \<Rightarrow> 'b \<Rightarrow> database \<Rightarrow> 'k \<Rightarrow> ('b, 'k) accounts_manager" where
  "am_new prepared b db kc = loadFromDatabase prepared
     \<lparr>am_backend = b, am_db = db, am_keychain = kc, am_entries = [], am_passwordCache = (\<lambda>_. None),
      am_backendIds = [], am_regStates = (\<lambda>_. None), am_regErrors = (\<lambda>_. None),
      am_mwi = (\<lambda>_. None), am_signals = []\<rparr>"

text \<open>\<open>insertRow\<close>: statement 0 is the INSERT.\<close>

definition insertRow :: "(nat \<Rightarrow> bool) \<Rightarrow> account \<Rightarrow> ('b, 'k) accounts_manager \<Rightarrow> account option \<times> ('b, 'k) accounts_manager" where
  "insertRow f a am =
     (case sql_insert_account (f 0) (row_of_account a) (am_db am) of
        (None, db) \<Rightarrow> (None, am\<lparr>am_db := db\<rparr>)
      | (Some rowid, db) \<Rightarrow> (Some (a\<lparr>acc_id := rowid\<rparr>), am\<lparr>am_db := db\<rparr>))"

definition am_add ::
  "'b isip_backend \<Rightarrow> 'k ikeychain \<Rightarrow> (nat \<Rightarrow> bool) \<Rightarrow> string \<Rightarrow> account \<Rightarrow> string \<Rightarrow>
   ('b, 'k) accounts_manager \<Rightarrow> account_id \<times> ('b, 'k) accounts_manager" where
  "am_add B K f newRef acc password am =
     (let a = acc\<lparr>acc_passwordRef := newRef\<rparr> in
      case kc_set K (am_keychain am) newRef password of
        (False, kc) \<Rightarrow> (kInvalidAccountId, am\<lparr>am_keychain := kc\<rparr>)
      | (True, kc) \<Rightarrow>
          (case insertRow f a (am\<lparr>am_keychain := kc\<rparr>) of
             (None, am1) \<Rightarrow>
               (kInvalidAccountId, am1\<lparr>am_keychain := snd (kc_erase K (am_keychain am1) newRef)\<rparr>)
           | (Some a', am1) \<Rightarrow>
               (let am2 = am1\<lparr>am_entries := am_entries am1 @ [\<lparr>en_account = a', en_registered = False\<rparr>],
                              am_passwordCache := (am_passwordCache am1)(newRef \<mapsto> password)\<rparr>;
                    am3 = (if acc_enabled a' \<and> acc_registerOnStartup a'
                           then snd (registerAccount B K (acc_id a') am2) else am2)
                in (acc_id a', am3))))"

text \<open>\<open>deleteRow\<close>: statement 0 is the DELETE.\<close>

definition deleteRow :: "(nat \<Rightarrow> bool) \<Rightarrow> account_id \<Rightarrow> ('b, 'k) accounts_manager \<Rightarrow> bool \<times> ('b, 'k) accounts_manager" where
  "deleteRow f i am =
     (case sql_delete_account (f 0) i (am_db am) of (r, db) \<Rightarrow> (r, am\<lparr>am_db := db\<rparr>))"

definition am_remove ::
  "'b isip_backend \<Rightarrow> 'k ikeychain \<Rightarrow> (nat \<Rightarrow> bool) \<Rightarrow> account_id \<Rightarrow>
   ('b, 'k) accounts_manager \<Rightarrow> bool \<times> ('b, 'k) accounts_manager" where
  "am_remove B K f i am =
     (case find_entry i (am_entries am) of
        None \<Rightarrow> (False, am)
      | Some e \<Rightarrow>
          (let am1 = (if en_registered e then unregisterAccount B i am else am);
               ref = acc_passwordRef (en_account e);
               am2 = am1\<lparr>am_keychain := snd (kc_erase K (am_keychain am1) ref),
                         am_passwordCache := (am_passwordCache am1)(ref := None)\<rparr>
           in case deleteRow f i am2 of
                (False, am3) \<Rightarrow> (False, am3)
              | (True, am3) \<Rightarrow>
                  (True, am3\<lparr>am_entries := del_first (\<lambda>e. acc_id (en_account e) = i) (am_entries am3)\<rparr>)))"

subsection \<open>Changing\<close>

text \<open>The UPDATE of \<open>update\<close> leaves \<open>password_ref\<close> and \<open>is_default\<close> alone.\<close>

definition merge_row :: "account \<Rightarrow> account_row \<Rightarrow> account_row" where
  "merge_row a r c = (if c = ColPasswordRef \<or> c = ColIsDefault then r c else row_of_account a c)"

definition am_update ::
  "'b isip_backend \<Rightarrow> 'k ikeychain \<Rightarrow> (nat \<Rightarrow> bool) \<Rightarrow> account \<Rightarrow>
   ('b, 'k) accounts_manager \<Rightarrow> bool \<times> ('b, 'k) accounts_manager" where
  "am_update B K f acc am =
     (case find_entry (acc_id acc) (am_entries am) of
        None \<Rightarrow> (False, am)
      | Some e \<Rightarrow>
          (case sql_update_accounts (f 0) (\<lambda>i r. if i = acc_id acc then merge_row acc r else r) (am_db am) of
             (False, db) \<Rightarrow> (False, am\<lparr>am_db := db\<rparr>)
           | (True, db) \<Rightarrow>
               (let am0 = am\<lparr>am_db := db\<rparr>;
                    hadLiveAccount = en_registered e;
                    am1 = (if hadLiveAccount then unregisterAccount B (acc_id acc) am0 else am0);
                    a' = acc\<lparr>acc_isDefault := acc_isDefault (en_account e),
                             acc_passwordRef := acc_passwordRef (en_account e)\<rparr>;
                    am2 = set_entry (acc_id acc) (\<lambda>e. e\<lparr>en_account := a'\<rparr>) am1
                in (True, if acc_enabled a' \<and> (hadLiveAccount \<or> acc_registerOnStartup a')
                          then snd (registerAccount B K (acc_id acc) am2) else am2))))"

text \<open>\<open>setDefault\<close>: statements 0 to 4 are BEGIN, the reset, the preparation and the run of the
  second UPDATE, and COMMIT.\<close>

definition set_default_col :: "int \<Rightarrow> account_row \<Rightarrow> account_row" where
  "set_default_col v r c = (if c = ColIsDefault then SqlInt v else r c)"

definition am_setDefault ::
  "(nat \<Rightarrow> bool) \<Rightarrow> account_id \<Rightarrow> ('b, 'k) accounts_manager \<Rightarrow> bool \<times> ('b, 'k) accounts_manager" where
  "am_setDefault f i am =
     (if find_entry i (am_entries am) = None then (False, am)
      else case sql_begin (f 0) (am_db am) of
        (False, db) \<Rightarrow> (False, am\<lparr>am_db := db\<rparr>)
      | (True, db) \<Rightarrow>
      (case sql_update_accounts (f 1)
              (\<lambda>j r. if r ColIsDefault = SqlInt 1 then set_default_col 0 r else r) db of
        (False, db) \<Rightarrow> (False, am\<lparr>am_db := sql_rollback db\<rparr>)
      | (True, db) \<Rightarrow>
      if \<not> f 2 then (False, am\<lparr>am_db := sql_rollback db\<rparr>) else
      (case sql_update_accounts (f 3) (\<lambda>j r. if j = i then set_default_col 1 r else r) db of
        (False, db) \<Rightarrow> (False, am\<lparr>am_db := sql_rollback db\<rparr>)
      | (True, db) \<Rightarrow>
      (case sql_commit (f 4) db of
        (False, db) \<Rightarrow> (False, am\<lparr>am_db := db\<rparr>)
      | (True, db) \<Rightarrow>
          (True, am\<lparr>am_db := db,
                    am_entries := map (\<lambda>e. e\<lparr>en_account := (en_account e)\<lparr>acc_isDefault :=
                                     (acc_id (en_account e) = i)\<rparr>\<rparr>) (am_entries am)\<rparr>)))))"

definition set_enabled_col :: "bool \<Rightarrow> account_row \<Rightarrow> account_row" where
  "set_enabled_col v r c = (if c = ColEnabled then bindBool v else r c)"

definition am_setEnabled ::
  "'b isip_backend \<Rightarrow> 'k ikeychain \<Rightarrow> (nat \<Rightarrow> bool) \<Rightarrow> account_id \<Rightarrow> bool \<Rightarrow>
   ('b, 'k) accounts_manager \<Rightarrow> bool \<times> ('b, 'k) accounts_manager" where
  "am_setEnabled B K f i enabled am =
     (case find_entry i (am_entries am) of
        None \<Rightarrow> (False, am)
      | Some e \<Rightarrow>
          if acc_enabled (en_account e) = enabled then (True, am)
          else (case sql_update_accounts (f 0) (\<lambda>j r. if j = i then set_enabled_col enabled r else r) (am_db am) of
                  (False, db) \<Rightarrow> (False, am\<lparr>am_db := db\<rparr>)
                | (True, db) \<Rightarrow>
                    (let am1 = set_entry i (\<lambda>e. e\<lparr>en_account := (en_account e)\<lparr>acc_enabled := enabled\<rparr>\<rparr>)
                                 (am\<lparr>am_db := db\<rparr>)
                     in (True, if enabled then snd (registerAccount B K i am1)
                               else unregisterAccount B i am1))))"

definition am_setPassword ::
  "'b isip_backend \<Rightarrow> 'k ikeychain \<Rightarrow> account_id \<Rightarrow> string \<Rightarrow>
   ('b, 'k) accounts_manager \<Rightarrow> bool \<times> ('b, 'k) accounts_manager" where
  "am_setPassword B K i password am =
     (case find_entry i (am_entries am) of
        None \<Rightarrow> (False, am)
      | Some e \<Rightarrow>
          (let ref = acc_passwordRef (en_account e) in
           case kc_set K (am_keychain am) ref password of
             (False, kc) \<Rightarrow> (False, am\<lparr>am_keychain := kc\<rparr>)
           | (True, kc) \<Rightarrow>
               (let am1 = am\<lparr>am_keychain := kc, am_passwordCache := (am_passwordCache am)(ref \<mapsto> password)\<rparr>;
                    wasLive = en_registered e;
                    am2 = (if wasLive then unregisterAccount B i am1 else am1)
                in (True, if acc_enabled (en_account e) \<and> (wasLive \<or> acc_registerOnStartup (en_account e))
                          then snd (registerAccount B K i am2) else am2))))"

subsection \<open>Reads\<close>

definition am_list :: "('b, 'k) accounts_manager \<Rightarrow> account list" where
  "am_list am = map en_account (am_entries am)"

definition am_find :: "account_id \<Rightarrow> ('b, 'k) accounts_manager \<Rightarrow> account option" where
  "am_find i am = map_option en_account (find_entry i (am_entries am))"

definition defaultAccountId :: "('b, 'k) accounts_manager \<Rightarrow> account_id" where
  "defaultAccountId am =
     (case find (\<lambda>e. acc_isDefault (en_account e) \<and> acc_enabled (en_account e)) (am_entries am) of
        Some e \<Rightarrow> acc_id (en_account e)
      | None \<Rightarrow> (case find (\<lambda>e. acc_enabled (en_account e)) (am_entries am) of
                  Some e \<Rightarrow> acc_id (en_account e)
                | None \<Rightarrow> kInvalidAccountId))"

definition backendIdFor :: "account_id \<Rightarrow> ('b, 'k) accounts_manager \<Rightarrow> backend_account_id" where
  "backendIdFor i am =
     (case map_of (am_backendIds am) i of Some bid \<Rightarrow> bid | None \<Rightarrow> kInvalidAccountId)"

definition accountIdForBackend :: "backend_account_id \<Rightarrow> ('b, 'k) accounts_manager \<Rightarrow> account_id" where
  "accountIdForBackend bid am =
     (case find (\<lambda>kv. snd kv = bid) (am_backendIds am) of
        Some kv \<Rightarrow> fst kv | None \<Rightarrow> kInvalidAccountId)"

definition stateOf :: "account_id \<Rightarrow> ('b, 'k) accounts_manager \<Rightarrow> registration_state" where
  "stateOf i am = (case am_regStates am i of Some s \<Rightarrow> s | None \<Rightarrow> Unregistered)"

definition lastRegErrorOf :: "account_id \<Rightarrow> ('b, 'k) accounts_manager \<Rightarrow> reg_error" where
  "lastRegErrorOf i am = (case am_regErrors am i of Some e \<Rightarrow> e | None \<Rightarrow> no_reg_error)"

definition mwiStateOf :: "account_id \<Rightarrow> ('b, 'k) accounts_manager \<Rightarrow> mwi_state" where
  "mwiStateOf i am = (case am_mwi am i of Some s \<Rightarrow> s | None \<Rightarrow> no_mwi)"

definition passwordRefFor :: "account_id \<Rightarrow> ('b, 'k) accounts_manager \<Rightarrow> string" where
  "passwordRefFor i am =
     (case find_entry i (am_entries am) of Some e \<Rightarrow> acc_passwordRef (en_account e) | None \<Rightarrow> [])"

subsection \<open>Messages and events\<close>

definition sendInstantMessage ::
  "'b isip_backend \<Rightarrow> account_id \<Rightarrow> string \<Rightarrow> string \<Rightarrow> ('b, 'k) accounts_manager \<Rightarrow> bool \<times> ('b, 'k) accounts_manager" where
  "sendInstantMessage B i to body am =
     (let backendId = backendIdFor i am in
      if backendId = kInvalidAccountId then (False, am)
      else (case bk_sendMessage B (am_backend am) backendId to body of
              (r, b) \<Rightarrow> (r, am\<lparr>am_backend := b\<rparr>)))"

definition am_emit :: "am_signal \<Rightarrow> ('b, 'k) accounts_manager \<Rightarrow> ('b, 'k) accounts_manager" where
  "am_emit s am = am\<lparr>am_signals := am_signals am @ [s]\<rparr>"

text \<open>\<open>m_regErrors[domainId]\<close> creates an empty error when there is none; it is overwritten at once.\<close>

definition am_onRegState ::
  "backend_account_id \<Rightarrow> bool \<Rightarrow> int \<Rightarrow> string \<Rightarrow> ('b, 'k) accounts_manager \<Rightarrow> ('b, 'k) accounts_manager" where
  "am_onRegState bid regActive sipCode reason am =
     (let i = accountIdForBackend bid am in
      if i = kInvalidAccountId then am
      else let upd = mapRegEvent regActive sipCode reason (lastRegErrorOf i am)
           in am_emit (RegistrationStateChanged i (ru_state upd))
                (am\<lparr>am_regStates := (am_regStates am)(i \<mapsto> ru_state upd),
                    am_regErrors := (am_regErrors am)(i \<mapsto> ru_error upd)\<rparr>))"

definition updateMwi ::
  "account_id \<Rightarrow> int \<Rightarrow> int \<Rightarrow> bool \<Rightarrow> ('b, 'k) accounts_manager \<Rightarrow> ('b, 'k) accounts_manager" where
  "updateMwi i newCount oldCount active am =
     (let s = \<lparr>mw_newMessages = newCount, mw_oldMessages = oldCount, mw_active = active\<rparr>
      in am_emit (MwiChanged i s) (am\<lparr>am_mwi := (am_mwi am)(i \<mapsto> s)\<rparr>))"

definition am_onMwi ::
  "backend_account_id \<Rightarrow> int \<Rightarrow> int \<Rightarrow> bool \<Rightarrow> ('b, 'k) accounts_manager \<Rightarrow> ('b, 'k) accounts_manager" where
  "am_onMwi bid newMessages oldMessages active am =
     (let i = accountIdForBackend bid am in
      if i = kInvalidAccountId then am else updateMwi i newMessages oldMessages active am)"

definition am_onInstantMessage ::
  "backend_account_id \<Rightarrow> string \<Rightarrow> string \<Rightarrow> ('b, 'k) accounts_manager \<Rightarrow> ('b, 'k) accounts_manager" where
  "am_onInstantMessage bid fromUri body am =
     (let i = accountIdForBackend bid am in
      if i = kInvalidAccountId then am else am_emit (InstantMessageReceived i fromUri body) am)"

text \<open>The listener half of the manager; the call events are left to the call manager.\<close>

definition am_event :: "listener_event \<Rightarrow> ('b, 'k) accounts_manager \<Rightarrow> ('b, 'k) accounts_manager" where
  "am_event ev am = (case ev of
     OnRegState bid active sipCode reason \<Rightarrow> am_onRegState bid active sipCode reason am
   | OnMwi bid n old active \<Rightarrow> am_onMwi bid n old active am
   | OnInstantMessage bid fromUri body \<Rightarrow> am_onInstantMessage bid fromUri body am
   | OnPresence w s \<Rightarrow> am_emit (PresenceChanged w s) am
   | _ \<Rightarrow> am)"

text \<open>The destructor removes every live account from the backend.\<close>

definition am_destroy :: "'b isip_backend \<Rightarrow> ('b, 'k) accounts_manager \<Rightarrow> 'b" where
  "am_destroy B am = fold (\<lambda>kv b. snd (bk_removeAccount B b (snd kv))) (am_backendIds am) (am_backend am)"

end
