(* ===== verification/Calls.thy ===== *)
theory Calls imports Accounts begin

text \<open>
  \<open>core/CallManager.{h,cpp}\<close> and \<open>core/TransferTracker.h\<close>: the call policy layer.  The manager's
  state is one record.  Reads of the accounts manager go through \<open>m_am\<close>, a pointer that may be null:
  an option.  Timers started with \<open>QTimer::singleShot\<close> are pending actions that the environment
  fires in any order; signals are appended to a log.  Live and lingering calls are kept in
  unordered maps: an operation that iterates one takes \<open>ord\<close>, which puts the keys in the order the
  hash table happens to have.
\<close>

subsection \<open>Transfers\<close>

type_synonym transfer_tracker = "call_id \<Rightarrow> call_id list option"

definition tt_record :: "call_id \<Rightarrow> call_id list \<Rightarrow> transfer_tracker \<Rightarrow> transfer_tracker" where
  "tt_record i cleanupIds t = t(i \<mapsto> cleanupIds)"

definition tt_has :: "call_id \<Rightarrow> transfer_tracker \<Rightarrow> bool" where
  "tt_has i t \<longleftrightarrow> t i \<noteq> None"

definition tt_take :: "call_id \<Rightarrow> transfer_tracker \<Rightarrow> call_id list \<times> transfer_tracker" where
  "tt_take i t = (case t i of None \<Rightarrow> ([], t) | Some ids \<Rightarrow> (ids, t(i := None)))"

definition tt_takeLegsToHangup ::
  "call_id \<Rightarrow> int \<Rightarrow> bool \<Rightarrow> transfer_tracker \<Rightarrow> call_id list \<times> transfer_tracker" where
  "tt_takeLegsToHangup i statusCode finalNotify t =
     (if \<not> finalNotify then ([], t)
      else case tt_take i t of (ids, t') \<Rightarrow>
        if statusCode < 200 \<or> statusCode \<ge> 300 then ([], t') else (ids, t'))"

definition tt_drop :: "call_id \<Rightarrow> transfer_tracker \<Rightarrow> transfer_tracker" where
  "tt_drop i t = t(i := None)"

subsection \<open>State\<close>

record call_record =
  cr_accountId :: account_id
  cr_remoteUri :: string
  cr_remoteDisplayName :: string
  cr_state :: call_state
  cr_lastStatusCode :: int
  cr_inbound :: bool
  cr_held :: bool
  cr_muted :: bool
  cr_recording :: bool
  cr_playingFile :: bool

definition new_call_record :: call_record where
  "new_call_record = \<lparr>cr_accountId = kInvalidAccountId, cr_remoteUri = [], cr_remoteDisplayName = [],
     cr_state = Calling, cr_lastStatusCode = 0, cr_inbound = False, cr_held = False,
     cr_muted = False, cr_recording = False, cr_playingFile = False\<rparr>"

datatype timer_action =
    EraseLingering call_id
  | RetryUnhold call_id int
  | RetryBridge call_id call_id int

datatype cm_signal =
    CallsChanged
  | IncomingCall call_id
  | CallStateChanged call_state
  | CallEvent call_id call_state

record 'b call_manager =
  cm_backend :: 'b
  cm_records :: "(call_id \<times> call_record) list"
  cm_lingeringCalls :: "(call_id \<times> call_record) list"
  cm_transfers :: transfer_tracker
  cm_activeCallId :: call_id
  cm_lingerMs :: int
  cm_timers :: "(int \<times> timer_action) list"
  cm_signals :: "cm_signal list"

definition cm_new :: "'b \<Rightarrow> 'b call_manager" where
  "cm_new b = \<lparr>cm_backend = b, cm_records = [], cm_lingeringCalls = [], cm_transfers = (\<lambda>_. None),
     cm_activeCallId = kInvalidCallId, cm_lingerMs = 2200, cm_timers = [], cm_signals = []\<rparr>"

definition cm_find :: "call_id \<Rightarrow> 'b call_manager \<Rightarrow> call_record option" where
  "cm_find i cm = map_of (cm_records cm) i"

text \<open>Writing through an iterator into \<open>m_records\<close>.\<close>

definition cm_put :: "call_id \<Rightarrow> call_record \<Rightarrow> 'b call_manager \<Rightarrow> 'b call_manager" where
  "cm_put i r cm = cm\<lparr>cm_records := aput i r (cm_records cm)\<rparr>"

definition singleShot :: "int \<Rightarrow> timer_action \<Rightarrow> 'b call_manager \<Rightarrow> 'b call_manager" where
  "singleShot ms a cm = cm\<lparr>cm_timers := cm_timers cm @ [(ms, a)]\<rparr>"

definition cm_emit :: "cm_signal list \<Rightarrow> 'b call_manager \<Rightarrow> 'b call_manager" where
  "cm_emit ss cm = cm\<lparr>cm_signals := cm_signals cm @ ss\<rparr>"

definition notifyStateChange :: "call_id \<Rightarrow> call_state \<Rightarrow> 'b call_manager \<Rightarrow> 'b call_manager" where
  "notifyStateChange i s cm = cm_emit [CallStateChanged s, CallEvent i s] cm"

subsection \<open>Active call and hold\<close>

text \<open>Holding the previously active call, in \<open>setActiveCall\<close> and in \<open>requestUnhold\<close>: the flag is set
  whatever the backend answers.\<close>

definition hold_previous :: "'b isip_backend \<Rightarrow> call_id \<Rightarrow> 'b call_manager \<Rightarrow> 'b call_manager" where
  "hold_previous B previousId cm =
     (if previousId = kInvalidCallId then cm
      else case cm_find previousId cm of
        None \<Rightarrow> cm
      | Some r \<Rightarrow>
          if cr_state r = Confirmed \<and> \<not> cr_held r
          then cm_put previousId (r\<lparr>cr_held := True\<rparr>)
                 (cm\<lparr>cm_backend := snd (bk_hold B (cm_backend cm) previousId)\<rparr>)
          else cm)"

definition setActiveCall :: "'b isip_backend \<Rightarrow> call_id \<Rightarrow> 'b call_manager \<Rightarrow> 'b call_manager" where
  "setActiveCall B i cm =
     (if cm_activeCallId cm = i then cm
      else let cm1 = (hold_previous B (cm_activeCallId cm) cm)\<lparr>cm_activeCallId := i\<rparr>
           in if i = kInvalidCallId then cm1
              else case cm_find i cm1 of
                None \<Rightarrow> cm1
              | Some r \<Rightarrow>
                  if cr_held r
                  then cm_put i (r\<lparr>cr_held := False\<rparr>)
                         (cm1\<lparr>cm_backend := snd (bk_unhold B (cm_backend cm1) i)\<rparr>)
                  else cm1)"

definition cm_hold :: "'b isip_backend \<Rightarrow> call_id \<Rightarrow> 'b call_manager \<Rightarrow> bool \<times> 'b call_manager" where
  "cm_hold B i cm =
     (case cm_find i cm of
        None \<Rightarrow> (False, cm)
      | Some r \<Rightarrow>
          (case bk_hold B (cm_backend cm) i of
             (False, b) \<Rightarrow> (False, cm\<lparr>cm_backend := b\<rparr>)
           | (True, b) \<Rightarrow> (True, cm_put i (r\<lparr>cr_held := True\<rparr>) (cm\<lparr>cm_backend := b\<rparr>))))"

definition requestUnhold :: "'b isip_backend \<Rightarrow> call_id \<Rightarrow> int \<Rightarrow> 'b call_manager \<Rightarrow> bool \<times> 'b call_manager" where
  "requestUnhold B i retriesRemaining cm =
     (case cm_find i cm of
        None \<Rightarrow> (False, cm)
      | Some r \<Rightarrow>
          (case bk_unhold B (cm_backend cm) i of
             (False, b) \<Rightarrow>
               (let cm1 = cm\<lparr>cm_backend := b\<rparr> in
                if retriesRemaining > 0
                then (True, cm_put i (r\<lparr>cr_held := False\<rparr>)
                              (singleShot 300 (RetryUnhold i retriesRemaining) cm1))
                else (False, cm1))
           | (True, b) \<Rightarrow>
               (let cm1 = cm_put i (r\<lparr>cr_held := False\<rparr>) (cm\<lparr>cm_backend := b\<rparr>) in
                (True, if cm_activeCallId cm1 \<noteq> i
                       then (hold_previous B (cm_activeCallId cm1) cm1)\<lparr>cm_activeCallId := i\<rparr>
                       else cm1))))"

definition cm_unhold :: "'b isip_backend \<Rightarrow> call_id \<Rightarrow> 'b call_manager \<Rightarrow> bool \<times> 'b call_manager" where
  "cm_unhold B i cm = requestUnhold B i 5 cm"

definition isHeld :: "call_id \<Rightarrow> 'b call_manager \<Rightarrow> bool" where
  "isHeld i cm = (case cm_find i cm of None \<Rightarrow> False | Some r \<Rightarrow> cr_held r)"

definition isConfirmedState :: "call_id \<Rightarrow> 'b call_manager \<Rightarrow> bool" where
  "isConfirmedState i cm = (case cm_find i cm of None \<Rightarrow> False | Some r \<Rightarrow> cr_state r = Confirmed)"

subsection \<open>Outgoing and incoming calls\<close>

definition makeCallFrom ::
  "'b isip_backend \<Rightarrow> ('c, 'k) accounts_manager option \<Rightarrow> account_id \<Rightarrow> string \<Rightarrow> 'b call_manager \<Rightarrow>
   call_id \<times> 'b call_manager" where
  "makeCallFrom B am acc uri cm =
     (case am of
        None \<Rightarrow> (kInvalidCallId, cm)
      | Some a \<Rightarrow>
          (let backendAcc = backendIdFor acc a in
           if backendAcc = kInvalidAccountId then (kInvalidCallId, cm)
           else (case bk_makeCall B (cm_backend cm) backendAcc uri of
                   (i, b) \<Rightarrow>
                     (let cm1 = cm\<lparr>cm_backend := b\<rparr> in
                      if i = kInvalidCallId then (kInvalidCallId, cm1)
                      else let r = new_call_record\<lparr>cr_accountId := acc, cr_remoteUri := uri,
                                     cr_inbound := False, cr_state := Calling\<rparr>
                           in (i, setActiveCall B i (cm1\<lparr>cm_records := aemplace i r (cm_records cm1)\<rparr>))))))"

definition makeCallDefault ::
  "'b isip_backend \<Rightarrow> ('c, 'k) accounts_manager option \<Rightarrow> string \<Rightarrow> 'b call_manager \<Rightarrow> call_id \<times> 'b call_manager" where
  "makeCallDefault B am uri cm =
     (case am of
        None \<Rightarrow> (kInvalidCallId, cm)
      | Some a \<Rightarrow> makeCallFrom B am (defaultAccountId a) uri cm)"

definition cm_onIncomingCall ::
  "'b isip_backend \<Rightarrow> ('c, 'k) accounts_manager option \<Rightarrow> backend_account_id \<Rightarrow> call_id \<Rightarrow> string \<Rightarrow> string \<Rightarrow>
   'b call_manager \<Rightarrow> 'b call_manager" where
  "cm_onIncomingCall B am backendAccId callId remoteUri displayName cm =
     (let acc = (case am of Some a \<Rightarrow> accountIdForBackend backendAccId a | None \<Rightarrow> kInvalidAccountId)
      in if acc = kInvalidAccountId
         then let b = snd (bk_decline B (cm_backend cm) callId 480)
              in cm\<lparr>cm_backend := bk_releaseCall B b callId\<rparr>
         else let r = new_call_record\<lparr>cr_accountId := acc, cr_remoteUri := remoteUri,
                        cr_remoteDisplayName := displayName, cr_inbound := True, cr_state := Calling\<rparr>
              in cm_emit [CallsChanged, IncomingCall callId]
                   (notifyStateChange callId Calling
                     (cm\<lparr>cm_records := aemplace callId r (cm_records cm)\<rparr>)))"

text \<open>Promotion of a held confirmed call when the active one ends: the first in iteration order.\<close>

definition promotable :: "'b call_manager \<Rightarrow> call_id \<Rightarrow> bool" where
  "promotable cm i =
     (case cm_find i cm of None \<Rightarrow> False | Some r \<Rightarrow> cr_held r \<and> cr_state r = Confirmed)"

definition promote_next ::
  "'b isip_backend \<Rightarrow> (call_id list \<Rightarrow> call_id list) \<Rightarrow> 'b call_manager \<Rightarrow> 'b call_manager" where
  "promote_next B ord cm =
     (case find (promotable cm) (ord (map fst (cm_records cm))) of
        None \<Rightarrow> cm\<lparr>cm_activeCallId := kInvalidCallId\<rparr>
      | Some i \<Rightarrow> snd (requestUnhold B i 3 (cm\<lparr>cm_activeCallId := i\<rparr>)))"

definition handleDisconnected ::
  "'b isip_backend \<Rightarrow> (call_id list \<Rightarrow> call_id list) \<Rightarrow> call_id \<Rightarrow> 'b call_manager \<Rightarrow> 'b call_manager" where
  "handleDisconnected B ord i cm =
     (case cm_find i cm of
        None \<Rightarrow> cm
      | Some r \<Rightarrow>
          (let cm1 = cm\<lparr>cm_records := adel i (cm_records cm),
                        cm_transfers := tt_drop i (cm_transfers cm),
                        cm_backend := bk_releaseCall B (cm_backend cm) i,
                        cm_lingeringCalls := aput i (r\<lparr>cr_state := Disconnected\<rparr>) (cm_lingeringCalls cm)\<rparr>;
               cm2 = (if i = cm_activeCallId cm1 then promote_next B ord cm1 else cm1)
           in singleShot (cm_lingerMs cm2) (EraseLingering i) (cm_emit [CallsChanged] cm2)))"

definition cm_onCallState ::
  "'b isip_backend \<Rightarrow> (call_id list \<Rightarrow> call_id list) \<Rightarrow> call_id \<Rightarrow> call_state \<Rightarrow> int \<Rightarrow>
   'b call_manager \<Rightarrow> 'b call_manager" where
  "cm_onCallState B ord i s sipCode cm =
     (case cm_find i cm of
        None \<Rightarrow> cm
      | Some r \<Rightarrow>
          if s = Disconnected
          then handleDisconnected B ord i
                 (notifyStateChange i s (cm_put i (r\<lparr>cr_lastStatusCode := sipCode, cr_state := s\<rparr>) cm))
          else notifyStateChange i s (cm_put i (r\<lparr>cr_state := s\<rparr>) cm))"

definition eraseLingering :: "call_id \<Rightarrow> 'b call_manager \<Rightarrow> 'b call_manager" where
  "eraseLingering i cm =
     (if ahas (cm_lingeringCalls cm) i
      then cm_emit [CallsChanged] (cm\<lparr>cm_lingeringCalls := adel i (cm_lingeringCalls cm)\<rparr>)
      else cm)"

definition cm_accept :: "'b isip_backend \<Rightarrow> call_id \<Rightarrow> 'b call_manager \<Rightarrow> bool \<times> 'b call_manager" where
  "cm_accept B i cm =
     (if cm_find i cm = None then (False, cm)
      else let cm1 = setActiveCall B i cm
           in case bk_answer B (cm_backend cm1) i of (r, b) \<Rightarrow> (r, cm1\<lparr>cm_backend := b\<rparr>))"

definition cm_decline :: "'b isip_backend \<Rightarrow> call_id \<Rightarrow> 'b call_manager \<Rightarrow> bool \<times> 'b call_manager" where
  "cm_decline B i cm =
     (if cm_find i cm = None then (False, cm)
      else case bk_decline B (cm_backend cm) i 486 of (r, b) \<Rightarrow> (r, cm\<lparr>cm_backend := b\<rparr>))"

definition forwardCall :: "'b isip_backend \<Rightarrow> call_id \<Rightarrow> string \<Rightarrow> 'b call_manager \<Rightarrow> bool \<times> 'b call_manager" where
  "forwardCall B i targetUri cm =
     (if cm_find i cm = None then (False, cm)
      else if targetUri = [] then (False, cm)
      else case bk_redirect B (cm_backend cm) i targetUri of (r, b) \<Rightarrow> (r, cm\<lparr>cm_backend := b\<rparr>))"

subsection \<open>Conference\<close>

definition wireBridge :: "'b isip_backend \<Rightarrow> call_id \<Rightarrow> call_id \<Rightarrow> int \<Rightarrow> 'b call_manager \<Rightarrow> bool \<times> 'b call_manager" where
  "wireBridge B active held retriesRemaining cm =
     (if cm_find active cm = None \<or> cm_find held cm = None then (False, cm)
      else case bk_bridge B (cm_backend cm) active held of
        (True, b) \<Rightarrow> (True, cm\<lparr>cm_backend := b\<rparr>)
      | (False, b) \<Rightarrow>
          if retriesRemaining \<le> 0 then (False, cm\<lparr>cm_backend := b\<rparr>)
          else (True, singleShot 400 (RetryBridge active held (retriesRemaining - 1)) (cm\<lparr>cm_backend := b\<rparr>)))"

text \<open>The 600 ms timer of \<open>mergeCalls\<close> calls \<open>wireBridge\<close> with 5 retries.\<close>

definition mergeCalls :: "'b isip_backend \<Rightarrow> call_id \<Rightarrow> call_id \<Rightarrow> 'b call_manager \<Rightarrow> bool \<times> 'b call_manager" where
  "mergeCalls B active held cm =
     (if cm_find active cm = None \<or> cm_find held cm = None then (False, cm)
      else if \<not> isConfirmedState active cm \<or> \<not> isConfirmedState held cm then (False, cm)
      else if isHeld held cm then
        (case requestUnhold B held 5 cm of
           (False, cm1) \<Rightarrow> (False, cm1)
         | (True, cm1) \<Rightarrow> (True, singleShot 600 (RetryBridge active held 5) cm1))
      else wireBridge B active held 5 cm)"

subsection \<open>Recording and playback\<close>

definition cm_startRecording :: "'b isip_backend \<Rightarrow> call_id \<Rightarrow> string \<Rightarrow> 'b call_manager \<Rightarrow> bool \<times> 'b call_manager" where
  "cm_startRecording B i outputPath cm =
     (case cm_find i cm of
        None \<Rightarrow> (False, cm)
      | Some r \<Rightarrow>
          (case bk_startRecording B (cm_backend cm) i outputPath of
             (False, b) \<Rightarrow> (False, cm\<lparr>cm_backend := b\<rparr>)
           | (True, b) \<Rightarrow> (True, cm_put i (r\<lparr>cr_recording := True\<rparr>) (cm\<lparr>cm_backend := b\<rparr>))))"

definition cm_stopRecording :: "'b isip_backend \<Rightarrow> call_id \<Rightarrow> 'b call_manager \<Rightarrow> bool \<times> 'b call_manager" where
  "cm_stopRecording B i cm =
     (case bk_stopRecording B (cm_backend cm) i of
        (False, b) \<Rightarrow> (False, cm\<lparr>cm_backend := b\<rparr>)
      | (True, b) \<Rightarrow>
          (case cm_find i cm of
             None \<Rightarrow> (True, cm\<lparr>cm_backend := b\<rparr>)
           | Some r \<Rightarrow> (True, cm_put i (r\<lparr>cr_recording := False\<rparr>) (cm\<lparr>cm_backend := b\<rparr>))))"

definition isRecording :: "call_id \<Rightarrow> 'b call_manager \<Rightarrow> bool" where
  "isRecording i cm = (case cm_find i cm of None \<Rightarrow> False | Some r \<Rightarrow> cr_recording r)"

definition playAudioFile ::
  "'b isip_backend \<Rightarrow> call_id \<Rightarrow> string \<Rightarrow> bool \<Rightarrow> 'b call_manager \<Rightarrow> bool \<times> 'b call_manager" where
  "playAudioFile B i path loop cm =
     (case cm_find i cm of
        None \<Rightarrow> (False, cm)
      | Some r \<Rightarrow>
          (case bk_playFile B (cm_backend cm) i path loop of
             (False, b) \<Rightarrow> (False, cm\<lparr>cm_backend := b\<rparr>)
           | (True, b) \<Rightarrow> (True, cm_put i (r\<lparr>cr_playingFile := True\<rparr>) (cm\<lparr>cm_backend := b\<rparr>))))"

definition stopAudioFile :: "'b isip_backend \<Rightarrow> call_id \<Rightarrow> 'b call_manager \<Rightarrow> bool \<times> 'b call_manager" where
  "stopAudioFile B i cm =
     (case bk_stopFile B (cm_backend cm) i of
        (False, b) \<Rightarrow> (False, cm\<lparr>cm_backend := b\<rparr>)
      | (True, b) \<Rightarrow>
          (case cm_find i cm of
             None \<Rightarrow> (True, cm\<lparr>cm_backend := b\<rparr>)
           | Some r \<Rightarrow> (True, cm_put i (r\<lparr>cr_playingFile := False\<rparr>) (cm\<lparr>cm_backend := b\<rparr>))))"

definition isPlayingAudioFile :: "call_id \<Rightarrow> 'b call_manager \<Rightarrow> bool" where
  "isPlayingAudioFile i cm = (case cm_find i cm of None \<Rightarrow> False | Some r \<Rightarrow> cr_playingFile r)"

subsection \<open>Transferring, hanging up, mute and digits\<close>

definition cm_blindTransfer :: "'b isip_backend \<Rightarrow> call_id \<Rightarrow> string \<Rightarrow> 'b call_manager \<Rightarrow> bool \<times> 'b call_manager" where
  "cm_blindTransfer B i targetUri cm =
     (if cm_find i cm = None then (False, cm)
      else let cm1 = cm\<lparr>cm_transfers := tt_record i [i] (cm_transfers cm)\<rparr>
           in case bk_blindTransfer B (cm_backend cm1) i targetUri of
                (False, b) \<Rightarrow> (False, cm1\<lparr>cm_backend := b, cm_transfers := tt_drop i (cm_transfers cm1)\<rparr>)
              | (True, b) \<Rightarrow> (True, cm1\<lparr>cm_backend := b\<rparr>))"

definition cm_attendedTransfer :: "'b isip_backend \<Rightarrow> call_id \<Rightarrow> call_id \<Rightarrow> 'b call_manager \<Rightarrow> bool \<times> 'b call_manager" where
  "cm_attendedTransfer B active dest cm =
     (if active = dest then (False, cm)
      else if cm_find active cm = None \<or> cm_find dest cm = None then (False, cm)
      else let cm1 = cm\<lparr>cm_transfers := tt_record active [active, dest] (cm_transfers cm)\<rparr>
           in case bk_attendedTransfer B (cm_backend cm1) active dest of
                (False, b) \<Rightarrow> (False, cm1\<lparr>cm_backend := b, cm_transfers := tt_drop active (cm_transfers cm1)\<rparr>)
              | (True, b) \<Rightarrow> (True, cm1\<lparr>cm_backend := b\<rparr>))"

definition hangupTransferLegs :: "'b isip_backend \<Rightarrow> call_id list \<Rightarrow> 'b call_manager \<Rightarrow> 'b call_manager" where
  "hangupTransferLegs B cleanupIds cm =
     fold (\<lambda>i cm. if cm_find i cm = None then cm
                  else cm\<lparr>cm_backend := bk_hangup B (cm_backend cm) i\<rparr>) cleanupIds cm"

definition handleTransferStatus ::
  "'b isip_backend \<Rightarrow> call_id \<Rightarrow> int \<Rightarrow> bool \<Rightarrow> 'b call_manager \<Rightarrow> 'b call_manager" where
  "handleTransferStatus B i statusCode finalNotify cm =
     (case tt_takeLegsToHangup i statusCode finalNotify (cm_transfers cm) of
        (cleanupIds, t) \<Rightarrow>
          (let cm1 = cm\<lparr>cm_transfers := t\<rparr>
           in if cleanupIds = [] then cm1 else hangupTransferLegs B cleanupIds cm1))"

definition cm_hangup :: "'b isip_backend \<Rightarrow> call_id \<Rightarrow> 'b call_manager \<Rightarrow> 'b call_manager" where
  "cm_hangup B i cm =
     (if cm_find i cm = None then cm else cm\<lparr>cm_backend := bk_hangup B (cm_backend cm) i\<rparr>)"

definition cm_setMuted :: "'b isip_backend \<Rightarrow> call_id \<Rightarrow> bool \<Rightarrow> 'b call_manager \<Rightarrow> bool \<times> 'b call_manager" where
  "cm_setMuted B i muted cm =
     (case cm_find i cm of
        None \<Rightarrow> (False, cm)
      | Some r \<Rightarrow>
          (case bk_setMuted B (cm_backend cm) i muted of
             (False, b) \<Rightarrow> (False, cm\<lparr>cm_backend := b\<rparr>)
           | (True, b) \<Rightarrow> (True, cm_put i (r\<lparr>cr_muted := muted\<rparr>) (cm\<lparr>cm_backend := b\<rparr>))))"

definition isMuted :: "call_id \<Rightarrow> 'b call_manager \<Rightarrow> bool" where
  "isMuted i cm = (case cm_find i cm of None \<Rightarrow> False | Some r \<Rightarrow> cr_muted r)"

definition cm_sendDtmf ::
  "'b isip_backend \<Rightarrow> ('c, 'k) accounts_manager option \<Rightarrow> call_id \<Rightarrow> string \<Rightarrow> 'b call_manager \<Rightarrow> bool \<times> 'b call_manager" where
  "cm_sendDtmf B am i digits cm =
     (case cm_find i cm of
        None \<Rightarrow> (False, cm)
      | Some r \<Rightarrow>
          (let acct = (case am of None \<Rightarrow> None | Some a \<Rightarrow> am_find (cr_accountId r) a);
               k = (case acct of Some a \<Rightarrow> acc_dtmfMethod a | None \<Rightarrow> DtmfRfc2833)
           in case bk_sendDtmf B (cm_backend cm) i digits k of (ret, b) \<Rightarrow> (ret, cm\<lparr>cm_backend := b\<rparr>)))"

subsection \<open>Reads\<close>

definition cm_streamStats :: "'b isip_backend \<Rightarrow> call_id \<Rightarrow> 'b call_manager \<Rightarrow> stream_stats" where
  "cm_streamStats B i cm = bk_streamStats B (cm_backend cm) i"

definition callCount :: "'b call_manager \<Rightarrow> nat" where
  "callCount cm = length (cm_records cm)"

definition lastStatusCode :: "call_id \<Rightarrow> 'b call_manager \<Rightarrow> int" where
  "lastStatusCode i cm =
     (case cm_find i cm of
        Some r \<Rightarrow> cr_lastStatusCode r
      | None \<Rightarrow> (case map_of (cm_lingeringCalls cm) i of Some r \<Rightarrow> cr_lastStatusCode r | None \<Rightarrow> 0))"

definition entry_of_record :: "call_id \<Rightarrow> call_record \<Rightarrow> call_entry" where
  "entry_of_record i r = \<lparr>ce_id = i, ce_accountId = cr_accountId r, ce_remoteUri = cr_remoteUri r,
     ce_remoteDisplayName = cr_remoteDisplayName r, ce_state = cr_state r, ce_held = cr_held r,
     ce_muted = cr_muted r, ce_recording = cr_recording r,
     ce_direction = (if cr_inbound r then Inbound else Outbound)\<rparr>"

definition in_order :: "(call_id list \<Rightarrow> call_id list) \<Rightarrow> (call_id \<times> call_record) list \<Rightarrow> call_entry list" where
  "in_order ord m = map (\<lambda>i. case map_of m i of Some r \<Rightarrow> entry_of_record i r | None \<Rightarrow> default_call_entry)
     (ord (map fst m))"

definition snapshot :: "(call_id list \<Rightarrow> call_id list) \<Rightarrow> 'b call_manager \<Rightarrow> call_entry list" where
  "snapshot ord cm = in_order ord (cm_records cm) @ in_order ord (cm_lingeringCalls cm)"

subsection \<open>Events and timers\<close>

definition cm_event ::
  "'b isip_backend \<Rightarrow> ('c, 'k) accounts_manager option \<Rightarrow> (call_id list \<Rightarrow> call_id list) \<Rightarrow> listener_event \<Rightarrow>
   'b call_manager \<Rightarrow> 'b call_manager" where
  "cm_event B am ord ev cm = (case ev of
     OnIncomingCall a c uri name \<Rightarrow> cm_onIncomingCall B am a c uri name cm
   | OnCallState c s sipCode \<Rightarrow> cm_onCallState B ord c s sipCode cm
   | OnTransferStatus c sipCode isFinal reason \<Rightarrow> handleTransferStatus B c sipCode isFinal cm
   | _ \<Rightarrow> cm)"

definition run_action :: "'b isip_backend \<Rightarrow> timer_action \<Rightarrow> 'b call_manager \<Rightarrow> 'b call_manager" where
  "run_action B a cm = (case a of
     EraseLingering i \<Rightarrow> eraseLingering i cm
   | RetryUnhold i retriesRemaining \<Rightarrow> snd (requestUnhold B i (retriesRemaining - 1) cm)
   | RetryBridge active held retries \<Rightarrow> snd (wireBridge B active held retries cm))"

text \<open>Some running timer expires.\<close>

definition fire_timer :: "'b isip_backend \<Rightarrow> nat \<Rightarrow> 'b call_manager \<Rightarrow> 'b call_manager" where
  "fire_timer B n cm =
     (if n < length (cm_timers cm)
      then run_action B (snd (cm_timers cm ! n))
             (cm\<lparr>cm_timers := take n (cm_timers cm) @ drop (Suc n) (cm_timers cm)\<rparr>)
      else cm)"

text \<open>The destructor releases every live call.\<close>

definition cm_destroy :: "'b isip_backend \<Rightarrow> (call_id list \<Rightarrow> call_id list) \<Rightarrow> 'b call_manager \<Rightarrow> 'b" where
  "cm_destroy B ord cm = fold (\<lambda>i b. bk_releaseCall B b i) (ord (map fst (cm_records cm))) (cm_backend cm)"

end
