(* ===== verification/CallsInv.thy ===== *)
theory CallsInv imports Calls FakeBackend begin

text \<open>
  The invariant of the call manager, kept by every operation, event and timer against any backend
  that meets the contract \<open>call_backend\<close>: its live records are live backend calls, what lingers on
  screen has been released and is on a timer, the active call is a live one, pending transfers belong
  to live calls, and the signal log never mentions a call again after its Disconnected event.
\<close>

subsection \<open>The invariant\<close>

fun timer_ok :: "timer_action \<Rightarrow> bool" where
  "timer_ok (EraseLingering i) = True"
| "timer_ok (RetryUnhold i n) = (1 \<le> n \<and> n \<le> 5)"
| "timer_ok (RetryBridge i j n) = (0 \<le> n \<and> n \<le> 5)"

text \<open>Nothing is said about a call after it was reported disconnected.\<close>

definition silent_after_end :: "cm_signal list \<Rightarrow> bool" where
  "silent_after_end ss \<longleftrightarrow>
     sorted_wrt (\<lambda>a b. \<forall>i s. a = CallEvent i Disconnected \<longrightarrow> b \<noteq> CallEvent i s) ss"

text \<open>The live calls of the backend are those the manager has records of and, disjoint from them, \<open>U\<close>:
  the calls that came in and were not announced yet.\<close>

definition owned :: "call_id set \<Rightarrow> call_id set \<Rightarrow> (call_id \<times> call_record) list \<Rightarrow> bool" where
  "owned live U m \<longleftrightarrow> (\<forall>i. (i \<in> live \<longleftrightarrow> ahas m i \<or> i \<in> U) \<and> (i \<in> U \<longrightarrow> \<not> ahas m i))"

lemma owned_put [simp]: "ahas m i \<Longrightarrow> owned live U (aput i r m) = owned live U m"
  by (auto simp: owned_def)

definition cm_ok ::
  "('b \<Rightarrow> bool) \<Rightarrow> ('b \<Rightarrow> call_id set) \<Rightarrow> ('b \<Rightarrow> call_id set) \<Rightarrow> ('b \<Rightarrow> 'o) \<Rightarrow> call_id set \<Rightarrow> 'o \<Rightarrow>
   'b call_manager \<Rightarrow> bool" where
  "cm_ok ok calls minted other U v cm \<longleftrightarrow>
     ok (cm_backend cm) \<and> keys_sorted (cm_records cm) \<and> keys_sorted (cm_lingeringCalls cm) \<and>
     (\<forall>i. ahas (cm_records cm) i \<longrightarrow> i \<in> calls (cm_backend cm)) \<and>
     owned (calls (cm_backend cm)) U (cm_records cm) \<and> other (cm_backend cm) = v \<and>
     (\<forall>i. ahas (cm_lingeringCalls cm) i \<longrightarrow> i \<in> minted (cm_backend cm) \<and> i \<notin> calls (cm_backend cm)) \<and>
     (\<forall>i r. map_of (cm_lingeringCalls cm) i = Some r \<longrightarrow> cr_state r = Disconnected) \<and>
     (\<forall>i r. map_of (cm_records cm) i = Some r \<longrightarrow> cr_state r \<noteq> Disconnected) \<and>
     (cm_activeCallId cm = kInvalidCallId \<or> ahas (cm_records cm) (cm_activeCallId cm)) \<and>
     (\<forall>i l. cm_transfers cm i = Some l \<longrightarrow> ahas (cm_records cm) i \<and> l \<noteq> [] \<and> hd l = i) \<and>
     list_all timer_ok (map snd (cm_timers cm)) \<and>
     (\<forall>i. CallEvent i Disconnected \<in> set (cm_signals cm) \<longrightarrow>
        i \<in> minted (cm_backend cm) \<and> i \<notin> calls (cm_backend cm)) \<and>
     silent_after_end (cm_signals cm)"

text \<open>Whatever lingers on screen is on a timer that will take it off.\<close>

definition linger_timed :: "'b call_manager \<Rightarrow> bool" where
  "linger_timed cm \<longleftrightarrow>
     (\<forall>i. ahas (cm_lingeringCalls cm) i \<longrightarrow> EraseLingering i \<in> snd ` set (cm_timers cm))"

lemma cm_ok_parts:
  assumes "cm_ok ok calls minted other U v cm"
  shows "ok (cm_backend cm)" "keys_sorted (cm_records cm)" "keys_sorted (cm_lingeringCalls cm)"
    "\<And>i. ahas (cm_records cm) i \<Longrightarrow> i \<in> calls (cm_backend cm)"
    "\<And>i. ahas (cm_lingeringCalls cm) i \<Longrightarrow> i \<in> minted (cm_backend cm) \<and> i \<notin> calls (cm_backend cm)"
    "\<And>i r. map_of (cm_lingeringCalls cm) i = Some r \<Longrightarrow> cr_state r = Disconnected"
    "\<And>i r. map_of (cm_records cm) i = Some r \<Longrightarrow> cr_state r \<noteq> Disconnected"
    "cm_activeCallId cm = kInvalidCallId \<or> ahas (cm_records cm) (cm_activeCallId cm)"
    "\<And>i l. cm_transfers cm i = Some l \<Longrightarrow> ahas (cm_records cm) i \<and> l \<noteq> [] \<and> hd l = i"
    "list_all timer_ok (map snd (cm_timers cm))"
    "\<And>i. CallEvent i Disconnected \<in> set (cm_signals cm) \<Longrightarrow>
       i \<in> minted (cm_backend cm) \<and> i \<notin> calls (cm_backend cm)"
    "silent_after_end (cm_signals cm)"
    "owned (calls (cm_backend cm)) U (cm_records cm)" "other (cm_backend cm) = v"
  using assms unfolding cm_ok_def by blast+

lemma cm_ok_new: "ok b \<Longrightarrow> calls b = U \<Longrightarrow> other b = v \<Longrightarrow> cm_ok ok calls minted other U v (cm_new b)"
  by (auto simp: cm_ok_def cm_new_def silent_after_end_def owned_def)

lemma cm_find_ahas: "cm_find i cm = Some r \<Longrightarrow> ahas (cm_records cm) i"
  by (simp add: cm_find_def ahas_def)

lemma cm_find_None: "cm_find i cm = None \<longleftrightarrow> \<not> ahas (cm_records cm) i"
  by (simp add: cm_find_def ahas_def)

subsection \<open>The moves the operations are made of\<close>

lemma put_ok:
  assumes "cm_ok ok calls minted other U v cm" "ahas (cm_records cm) i" "cr_state r \<noteq> Disconnected"
  shows "cm_ok ok calls minted other U v (cm_put i r cm)"
  using assms by (auto simp: cm_ok_def cm_put_def)

lemma active_ok:
  assumes "cm_ok ok calls minted other U v cm" "i = kInvalidCallId \<or> ahas (cm_records cm) i"
  shows "cm_ok ok calls minted other U v (cm\<lparr>cm_activeCallId := i\<rparr>)"
  using assms by (simp add: cm_ok_def)

lemma timer_ok_shot:
  assumes "cm_ok ok calls minted other U v cm" "timer_ok a"
  shows "cm_ok ok calls minted other U v (singleShot ms a cm)"
  using assms by (simp add: cm_ok_def singleShot_def)

lemma transfers_ok:
  assumes "cm_ok ok calls minted other U v cm" "\<And>i l. t i = Some l \<Longrightarrow> ahas (cm_records cm) i \<and> l \<noteq> [] \<and> hd l = i"
  shows "cm_ok ok calls minted other U v (cm\<lparr>cm_transfers := t\<rparr>)"
  using assms by (auto simp: cm_ok_def)

lemma silent_snoc:
  "silent_after_end (ss @ [x]) \<longleftrightarrow>
   silent_after_end ss \<and> (\<forall>i s. x = CallEvent i s \<longrightarrow> CallEvent i Disconnected \<notin> set ss)"
  by (auto simp: silent_after_end_def sorted_wrt_append)

lemma emit_ok:
  assumes "cm_ok ok calls minted other U v cm" "x \<in> {CallsChanged, IncomingCall i, CallStateChanged s}"
  shows "cm_ok ok calls minted other U v (cm_emit [x] cm)"
  using assms by (auto simp: cm_ok_def cm_emit_def silent_snoc)

lemma emit_event_ok:
  assumes "cm_ok ok calls minted other U v cm" "CallEvent i Disconnected \<notin> set (cm_signals cm)" "s \<noteq> Disconnected"
  shows "cm_ok ok calls minted other U v (cm_emit [CallEvent i s] cm)"
  using assms by (auto simp: cm_ok_def cm_emit_def silent_snoc)

lemma emit_append: "cm_emit (xs @ ys) cm = cm_emit ys (cm_emit xs cm)"
  by (simp add: cm_emit_def)

lemma notify_ok:
  assumes inv: "cm_ok ok calls minted other U v cm" and i: "ahas (cm_records cm) i" "s \<noteq> Disconnected"
  shows "cm_ok ok calls minted other U v (notifyStateChange i s cm)"
proof -
  have "CallEvent i Disconnected \<notin> set (cm_signals (cm_emit [CallStateChanged s] cm))"
    using cm_ok_parts(4,11)[OF inv] i(1) by (auto simp: cm_emit_def)
  moreover have "notifyStateChange i s cm = cm_emit [CallEvent i s] (cm_emit [CallStateChanged s] cm)"
    by (simp add: notifyStateChange_def cm_emit_def)
  moreover have "cm_ok ok calls minted other U v (cm_emit [CallStateChanged s] cm)"
    using emit_ok[OF inv] by simp
  ultimately show ?thesis
    using i(2) emit_event_ok by metis
qed

lemma frame_simps [simp]:
  "cm_records (singleShot ms a cm) = cm_records cm" "cm_records (cm_emit ss cm) = cm_records cm"
  "cm_backend (singleShot ms a cm) = cm_backend cm" "cm_backend (cm_emit ss cm) = cm_backend cm"
  "cm_backend (cm_put i r cm) = cm_backend cm"
  "cm_lingeringCalls (singleShot ms a cm) = cm_lingeringCalls cm"
  "cm_lingeringCalls (cm_emit ss cm) = cm_lingeringCalls cm"
  "cm_lingeringCalls (cm_put i r cm) = cm_lingeringCalls cm"
  "cm_activeCallId (singleShot ms a cm) = cm_activeCallId cm"
  "cm_activeCallId (cm_emit ss cm) = cm_activeCallId cm"
  "cm_activeCallId (cm_put i r cm) = cm_activeCallId cm"
  "cm_transfers (singleShot ms a cm) = cm_transfers cm"
  "cm_transfers (cm_emit ss cm) = cm_transfers cm" "cm_transfers (cm_put i r cm) = cm_transfers cm"
  "cm_signals (singleShot ms a cm) = cm_signals cm" "cm_signals (cm_put i r cm) = cm_signals cm"
  "cm_signals (cm_emit ss cm) = cm_signals cm @ ss"
  "cm_timers (cm_emit ss cm) = cm_timers cm" "cm_timers (cm_put i r cm) = cm_timers cm"
  "cm_timers (singleShot ms a cm) = cm_timers cm @ [(ms, a)]"
  "cm_lingerMs (singleShot ms a cm) = cm_lingerMs cm" "cm_lingerMs (cm_emit ss cm) = cm_lingerMs cm"
  "cm_lingerMs (cm_put i r cm) = cm_lingerMs cm"
  by (simp_all add: singleShot_def cm_emit_def cm_put_def)

lemma ahas_put [simp]: "ahas (cm_records (cm_put i r cm)) j \<longleftrightarrow> j = i \<or> ahas (cm_records cm) j"
  by (simp add: cm_put_def)

lemma cm_find_put [simp]: "cm_find j (cm_put i r cm) = (if j = i then Some r else cm_find j cm)"
  by (simp add: cm_find_def cm_put_def)

lemma cm_find_frames [simp]:
  "cm_find j (singleShot ms a cm) = cm_find j cm" "cm_find j (cm_emit ss cm) = cm_find j cm"
  "cm_find j (cm\<lparr>cm_backend := b\<rparr>) = cm_find j cm" "cm_find j (cm\<lparr>cm_activeCallId := i\<rparr>) = cm_find j cm"
  "cm_find j (cm\<lparr>cm_transfers := t\<rparr>) = cm_find j cm"
  by (simp_all add: cm_find_def)

text \<open>Holding and unholding change flags, never who is there.\<close>

lemma hold_previous_frame [simp]:
  "ahas (cm_records (hold_previous B p cm)) j = ahas (cm_records cm) j"
  "cm_activeCallId (hold_previous B p cm) = cm_activeCallId cm"
  "cm_lingeringCalls (hold_previous B p cm) = cm_lingeringCalls cm"
  "cm_transfers (hold_previous B p cm) = cm_transfers cm"
  "cm_timers (hold_previous B p cm) = cm_timers cm"
  "cm_signals (hold_previous B p cm) = cm_signals cm"
  by (auto simp: hold_previous_def split: option.splits dest: cm_find_ahas)

lemma cm_find_hold_previous:
  "cm_find j (hold_previous B p cm) =
     (if j = p \<and> p \<noteq> kInvalidCallId
      then map_option (\<lambda>r. if cr_state r = Confirmed then r\<lparr>cr_held := True\<rparr> else r) (cm_find j cm)
      else cm_find j cm)"
  by (auto simp: hold_previous_def split: option.splits)

lemma requestUnhold_frame [simp]:
  "ahas (cm_records (snd (requestUnhold B i n cm))) j = ahas (cm_records cm) j"
  "cm_lingeringCalls (snd (requestUnhold B i n cm)) = cm_lingeringCalls cm"
  "cm_transfers (snd (requestUnhold B i n cm)) = cm_transfers cm"
  "cm_signals (snd (requestUnhold B i n cm)) = cm_signals cm"
  by (auto simp: requestUnhold_def Let_def split: option.splits prod.splits bool.splits dest: cm_find_ahas)

lemma setActiveCall_frame [simp]:
  "ahas (cm_records (setActiveCall B i cm)) j = ahas (cm_records cm) j"
  "cm_lingeringCalls (setActiveCall B i cm) = cm_lingeringCalls cm"
  "cm_transfers (setActiveCall B i cm) = cm_transfers cm"
  "cm_timers (setActiveCall B i cm) = cm_timers cm"
  "cm_signals (setActiveCall B i cm) = cm_signals cm"
  "cm_activeCallId (setActiveCall B i cm) = i"
  by (auto simp: setActiveCall_def Let_def cm_find_hold_previous split: option.splits if_splits dest: cm_find_ahas)

text \<open>The call an event makes known to the manager.\<close>

definition announced_in :: "listener_event \<Rightarrow> call_id set" where
  "announced_in ev = (case ev of OnIncomingCall a c u d \<Rightarrow> {c} | _ \<Rightarrow> {})"

subsection \<open>Any backend that meets its contract\<close>

context call_backend
begin

abbreviation inv :: "call_id set \<Rightarrow> 'o \<Rightarrow> 'b call_manager \<Rightarrow> bool" where
  "inv \<equiv> cm_ok ok calls minted other"

lemma backend_ok:
  assumes "inv U v cm" "same (cm_backend cm) b"
  shows "inv U v (cm\<lparr>cm_backend := b\<rparr>)"
  using assms sameD[OF assms(2)] by (simp add: cm_ok_def)

lemma op_ok:
  assumes "inv U v cm" "keeps_view ok (\<lambda>b. (calls b, minted b, other b)) (cm_backend cm) b"
  shows "inv U v (cm\<lparr>cm_backend := b\<rparr>)"
  using backend_ok assms by (simp add: same_def)

text \<open>A refused call may use up an id.\<close>

lemma grown_ok:
  assumes "inv U v cm" "ok b" "calls b = calls (cm_backend cm)" "minted (cm_backend cm) \<subseteq> minted b"
    and "other b = other (cm_backend cm)"
  shows "inv U v (cm\<lparr>cm_backend := b\<rparr>)"
  using assms unfolding cm_ok_def by (simp (no_asm_simp)) blast

lemma hold_previous_ok: "inv U v cm \<Longrightarrow> inv U v (hold_previous B p cm)"
  by (auto simp: hold_previous_def cm_find_def cm_ok_parts(1,7) split: option.splits
      intro!: put_ok op_ok hold_law dest: ahas_Some)

lemma setActiveCall_ok:
  assumes "inv U v cm" "i = kInvalidCallId \<or> ahas (cm_records cm) i"
  shows "inv U v (setActiveCall B i cm)"
proof -
  let ?cm1 = "(hold_previous B (cm_activeCallId cm) cm)\<lparr>cm_activeCallId := i\<rparr>"
  have 1: "inv U v ?cm1" using assms by (intro active_ok hold_previous_ok) simp_all
  have "inv U v (cm_put i (r\<lparr>cr_held := False\<rparr>) (?cm1\<lparr>cm_backend := snd (bk_unhold B (cm_backend ?cm1) i)\<rparr>))"
    if "cm_find i ?cm1 = Some r" for r
  proof (rule put_ok[OF op_ok[OF 1 unhold_law]])
    show "ok (cm_backend ?cm1)" using 1 by (rule cm_ok_parts(1))
    show "cr_state (r\<lparr>cr_held := False\<rparr>) \<noteq> Disconnected"
      using cm_ok_parts(7)[OF 1] that by (simp add: cm_find_def)
  qed (use cm_find_ahas[OF that] in simp)
  with 1 assms(1) show ?thesis
    by (auto simp: setActiveCall_def Let_def split: option.splits)
qed

lemma requestUnhold_ok:
  assumes "inv U v cm" "n \<le> 5"
  shows "inv U v (snd (requestUnhold B i n cm))"
proof (cases "cm_find i cm")
  case None
  with assms show ?thesis by (simp add: requestUnhold_def)
next
  case (Some r)
  obtain done_ok b where b: "bk_unhold B (cm_backend cm) i = (done_ok, b)" by fastforce
  have 1: "inv U v (cm\<lparr>cm_backend := b\<rparr>)"
    using op_ok[OF assms(1) unhold_law[of _ i]] cm_ok_parts(1)[OF assms(1)] b by (metis snd_conv)
  have state: "cr_state (r\<lparr>cr_held := False\<rparr>) \<noteq> Disconnected"
    using cm_ok_parts(7)[OF assms(1)] Some by (simp add: cm_find_def)
  have has: "ahas (cm_records cm) i" using Some by (rule cm_find_ahas)
  have put: "inv U v (cm_put i (r\<lparr>cr_held := False\<rparr>) (cm\<lparr>cm_backend := b\<rparr>))"
    using put_ok[OF 1 _ state] has by simp
  show ?thesis
  proof (cases done_ok)
    case True
    have "inv U v ((hold_previous B p (cm_put i (r\<lparr>cr_held := False\<rparr>) (cm\<lparr>cm_backend := b\<rparr>)))\<lparr>cm_activeCallId := i\<rparr>)" for p
      using put by (intro active_ok hold_previous_ok) simp_all
    with True Some b put show ?thesis by (simp add: requestUnhold_def Let_def)
  next
    case False
    have "inv U v (cm_put i (r\<lparr>cr_held := False\<rparr>) (singleShot 300 (RetryUnhold i n) (cm\<lparr>cm_backend := b\<rparr>)))" if "0 < n"
      using put_ok[OF timer_ok_shot[OF 1, of "RetryUnhold i n" 300] _ state, of i] has assms(2) that by simp
    with False Some b 1 show ?thesis by (simp add: requestUnhold_def Let_def)
  qed
qed

text \<open>A call the manager dials, and one that came in, enter the records.\<close>

lemma dialled_ok:
  assumes inv: "inv U v cm" and i: "i \<notin> minted (cm_backend cm)" "ok b"
      "calls b = insert i (calls (cm_backend cm))" "minted b = insert i (minted (cm_backend cm))" "other b = v"
    and r: "cr_state r \<noteq> Disconnected"
  shows "inv U v (cm\<lparr>cm_backend := b, cm_records := aemplace i r (cm_records cm)\<rparr>)"
proof -
  note p = cm_ok_parts[OF inv]
  have live: "i \<notin> calls (cm_backend cm)" using calls_minted[OF p(1)] i(1) by blast
  then have new: "\<not> ahas (cm_records cm) i" "i \<notin> U" using p(4,13) by (auto simp: owned_def)
  show ?thesis
    unfolding cm_ok_def
  proof (intro conjI, goal_cases)
    case 4 then show ?case using p(4) i by auto
  next
    case 5 then show ?case using p(13) i new by (auto simp: owned_def)
  next
    case 7 then show ?case using p(5) i by auto
  next
    case 9 then show ?case using p(7) r new by auto
  next
    case 10 then show ?case using p(8) by auto
  next
    case 11 then show ?case using p(9) by auto
  next
    case 13 then show ?case using p(11) i by auto
  qed (use p(2,3,6,10,12) i in simp_all)
qed

lemma new_record_ok:
  assumes inv: "inv U v cm" and r: "cr_state r \<noteq> Disconnected"
    and c: "c \<in> U"
  shows "inv (U - {c}) v (cm\<lparr>cm_records := aemplace c r (cm_records cm)\<rparr>)"
proof -
  note p = cm_ok_parts[OF inv]
  have new: "\<not> ahas (cm_records cm) c" "c \<in> calls (cm_backend cm)" using p(13) c by (auto simp: owned_def)
  show ?thesis
    unfolding cm_ok_def
  proof (intro conjI, goal_cases)
    case 4 then show ?case using p(4) new by auto
  next
    case 5 then show ?case using p(13) c new by (auto simp: owned_def)
  next
    case 9 then show ?case using p(7) r new by auto
  next
    case 10 then show ?case using p(8) by auto
  next
    case 11 then show ?case using p(9) by auto
  qed (use p in simp_all)
qed

lemma makeCall_ok:
  assumes "inv U v cm"
  shows "inv U v (snd (makeCallFrom B am acc uri cm))"
proof (cases am)
  case None
  with assms show ?thesis by (simp add: makeCallFrom_def)
next
  case (Some a)
  obtain i b where b: "bk_makeCall B (cm_backend cm) (backendIdFor acc a) uri = (i, b)" by fastforce
  have ok: "ok (cm_backend cm)" using assms by (rule cm_ok_parts(1))
  from makeCall_law[OF ok b] show ?thesis
  proof (elim disjE conjE)
    assume "i = kInvalidCallId" "ok b" "calls b = calls (cm_backend cm)" "minted (cm_backend cm) \<subseteq> minted b"
      "other b = other (cm_backend cm)"
    with assms Some b show ?thesis
      using grown_ok[OF assms] by (simp add: makeCallFrom_def Let_def)
  next
    assume i: "i \<noteq> kInvalidCallId" "i \<notin> minted (cm_backend cm)" "ok b"
      "calls b = insert i (calls (cm_backend cm))" "minted b = insert i (minted (cm_backend cm))"
      "other b = other (cm_backend cm)"
    let ?r = "new_call_record\<lparr>cr_accountId := acc, cr_remoteUri := uri, cr_inbound := False, cr_state := Calling\<rparr>"
    let ?cm = "cm\<lparr>cm_backend := b, cm_records := aemplace i ?r (cm_records cm)\<rparr>"
    have "inv U v ?cm"
      using i cm_ok_parts(14)[OF assms] by (intro dialled_ok[OF assms]) simp_all
    then have "inv U v (setActiveCall B i ?cm)" by (rule setActiveCall_ok) simp
    with Some b i(1) assms show ?thesis by (simp add: makeCallFrom_def Let_def)
  qed
qed

lemma makeCallDefault_ok: "inv U v cm \<Longrightarrow> inv U v (snd (makeCallDefault B am uri cm))"
  by (auto simp: makeCallDefault_def makeCall_ok split: option.split)

text \<open>An incoming call is announced while it is live in the backend and unknown to the manager.\<close>

lemma onIncomingCall_ok:
  assumes inv: "inv U v cm" and c: "c \<in> U"
  shows "inv (U - {c}) v (cm_onIncomingCall B am a c uri name cm)"
proof (cases "(case am of Some x \<Rightarrow> accountIdForBackend a x | None \<Rightarrow> kInvalidAccountId) = kInvalidAccountId")
  case True
  define b where "b = snd (bk_decline B (cm_backend cm) c 480)"
  have ok: "ok (cm_backend cm)" using inv by (rule cm_ok_parts(1))
  have 1: "inv U v (cm\<lparr>cm_backend := b\<rparr>)"
    unfolding b_def by (rule op_ok[OF inv decline_law[OF ok]])
  have "ok b" using cm_ok_parts(1)[OF 1] by simp
  note rel = releaseCall_law[OF this, of c]
  have "inv (U - {c}) v (cm\<lparr>cm_backend := bk_releaseCall B b c\<rparr>)"
    using 1 c rel unfolding cm_ok_def owned_def by auto
  with True show ?thesis by (simp add: cm_onIncomingCall_def Let_def b_def)
next
  case False
  define acc where "acc = (case am of Some x \<Rightarrow> accountIdForBackend a x | None \<Rightarrow> kInvalidAccountId)"
  let ?r = "new_call_record\<lparr>cr_accountId := acc, cr_remoteUri := uri, cr_remoteDisplayName := name,
              cr_inbound := True, cr_state := Calling\<rparr>"
  let ?cm = "cm\<lparr>cm_records := aemplace c ?r (cm_records cm)\<rparr>"
  have 1: "inv (U - {c}) v ?cm" by (rule new_record_ok[OF inv _ c]) simp
  have 2: "inv (U - {c}) v (notifyStateChange c Calling ?cm)" by (rule notify_ok[OF 1]) simp_all
  have "inv (U - {c}) v (cm_emit [IncomingCall c] (cm_emit [CallsChanged] (notifyStateChange c Calling ?cm)))"
    by (intro emit_ok) (use 2 in simp_all)
  with False show ?thesis
    by (simp add: cm_onIncomingCall_def Let_def acc_def flip: emit_append)
qed

lemma promote_next_ok:
  assumes "inv U v (cm\<lparr>cm_activeCallId := kInvalidCallId\<rparr>)" "\<And>xs. set (ord xs) = set xs"
  shows "inv U v (promote_next B ord cm)"
proof (cases "find (promotable cm) (ord (map fst (cm_records cm)))")
  case None
  with assms show ?thesis by (simp add: promote_next_def)
next
  case (Some i)
  then have "promotable cm i" by (metis find_Some_iff)
  then have "ahas (cm_records cm) i"
    by (auto simp: promotable_def dest: cm_find_ahas split: option.splits)
  then have "inv U v (cm\<lparr>cm_activeCallId := i\<rparr>)"
    using active_ok[OF assms(1), of i] by simp
  with Some show ?thesis by (simp add: promote_next_def requestUnhold_ok)
qed

lemma gone_ok:
  assumes inv: "inv U v cm" and has: "ahas (cm_records cm) i" and r: "cr_state r' = Disconnected"
    and a: "a = kInvalidCallId \<or> a \<noteq> i \<and> ahas (cm_records cm) a"
  shows "inv U v (cm\<lparr>cm_signals := cm_signals cm @ [CallStateChanged Disconnected, CallEvent i Disconnected],
      cm_records := adel i (aput i r (cm_records cm)), cm_transfers := tt_drop i (cm_transfers cm),
      cm_backend := bk_releaseCall B (cm_backend cm) i, cm_lingeringCalls := aput i r' (cm_lingeringCalls cm),
      cm_activeCallId := a\<rparr>)"
proof -
  have ok: "ok (cm_backend cm)" using inv by (rule cm_ok_parts(1))
  have live: "i \<in> calls (cm_backend cm)" using cm_ok_parts(4)[OF inv] has by blast
  then have m: "i \<in> minted (cm_backend cm)" using calls_minted[OF ok] by blast
  have "silent_after_end ((cm_signals cm @ [CallStateChanged Disconnected]) @ [CallEvent i Disconnected])"
    unfolding silent_snoc using cm_ok_parts(11,12)[OF inv] live by auto
  then have sig: "silent_after_end (cm_signals cm @ [CallStateChanged Disconnected, CallEvent i Disconnected])"
    by simp
  have tr: "t \<noteq> i \<and> ahas (cm_records cm) t \<and> l \<noteq> [] \<and> hd l = t" if "tt_drop i (cm_transfers cm) t = Some l" for t l
    using that cm_ok_parts(9)[OF inv] by (simp add: tt_drop_def split: if_splits)
  note p = cm_ok_parts[OF inv]
  note rel = releaseCall_law[OF ok, of i]
  show ?thesis
    unfolding cm_ok_def
  proof (intro conjI, goal_cases)
    case 4 then show ?case using p(4) rel by auto
  next
    case 5 then show ?case using p(13) rel has by (auto simp: owned_def)
  next
    case 7 then show ?case using p(5) rel m by auto
  next
    case 8 then show ?case using p(6) r by auto
  next
    case 9 then show ?case using p(7) by auto
  next
    case 11 show ?case using tr by simp
  next
    case 13 then show ?case using p(11) rel m live by auto
  next
    case 10 then show ?case using a by auto
  qed (use p(1,2,3,10,14) rel sig in \<open>simp_all\<close>)
qed

lemma handleDisconnected_ok:
  assumes inv: "inv U v cm" and r: "cm_find i cm = Some r" and ord: "\<And>xs. set (ord xs) = set xs"
  shows "inv U v (handleDisconnected B ord i
    (notifyStateChange i Disconnected (cm_put i (r\<lparr>cr_lastStatusCode := sipCode, cr_state := Disconnected\<rparr>) cm)))"
proof -
  let ?r = "r\<lparr>cr_lastStatusCode := sipCode, cr_state := Disconnected\<rparr>"
  let ?cm1 = "cm\<lparr>cm_signals := cm_signals cm @ [CallStateChanged Disconnected, CallEvent i Disconnected],
      cm_records := adel i (aput i ?r (cm_records cm)), cm_transfers := tt_drop i (cm_transfers cm),
      cm_backend := bk_releaseCall B (cm_backend cm) i, cm_lingeringCalls := aput i ?r (cm_lingeringCalls cm)\<rparr>"
  have has: "ahas (cm_records cm) i" using r by (rule cm_find_ahas)
  note gone = gone_ok[OF inv has, of ?r _ ?r, simplified]
  have 2: "inv U v (if i = cm_activeCallId ?cm1 then promote_next B ord ?cm1 else ?cm1)"
  proof (cases "i = cm_activeCallId cm")
    case True
    then show ?thesis using promote_next_ok[OF gone[of kInvalidCallId, simplified] ord] by simp
  next
    case False
    then show ?thesis using gone[of "cm_activeCallId cm"] cm_ok_parts(8)[OF inv] by simp
  qed
  then have "inv U v (singleShot ms (EraseLingering i)
      (cm_emit [CallsChanged] (if i = cm_activeCallId ?cm1 then promote_next B ord ?cm1 else ?cm1)))" for ms
    by (intro timer_ok_shot emit_ok) simp_all
  moreover have "notifyStateChange i Disconnected (cm_put i ?r cm) =
      cm\<lparr>cm_records := aput i ?r (cm_records cm),
         cm_signals := cm_signals cm @ [CallStateChanged Disconnected, CallEvent i Disconnected]\<rparr>"
    by (simp add: notifyStateChange_def cm_emit_def cm_put_def)
  then have "handleDisconnected B ord i (notifyStateChange i Disconnected (cm_put i ?r cm)) =
      (let cm2 = (if i = cm_activeCallId ?cm1 then promote_next B ord ?cm1 else ?cm1)
       in singleShot (cm_lingerMs cm2) (EraseLingering i) (cm_emit [CallsChanged] cm2))"
    by (simp add: handleDisconnected_def cm_find_def Let_def)
  ultimately show ?thesis by (simp only: Let_def)
qed

lemma onCallState_ok:
  assumes inv: "inv U v cm" and ord: "\<And>xs. set (ord xs) = set xs"
  shows "inv U v (cm_onCallState B ord i s sipCode cm)"
proof (cases "cm_find i cm")
  case None
  with inv show ?thesis by (simp add: cm_onCallState_def)
next
  case (Some r)
  have "inv U v (notifyStateChange i s (cm_put i (r\<lparr>cr_state := s\<rparr>) cm))" if "s \<noteq> Disconnected"
    using that cm_find_ahas[OF Some] by (intro notify_ok put_ok inv) simp_all
  with Some show ?thesis
    using handleDisconnected_ok[OF inv Some ord, of sipCode] by (simp add: cm_onCallState_def)
qed

lemma eraseLingering_ok: "inv U v cm \<Longrightarrow> inv U v (eraseLingering i cm)"
  unfolding eraseLingering_def by (auto intro!: emit_ok) (auto simp: cm_ok_def split: if_splits)

lemma result_ok:
  assumes "inv U v cm" "same (cm_backend cm) b"
    and "\<And>c. inv U v c \<Longrightarrow> cm_records c = cm_records cm \<Longrightarrow> inv U v (f c)"
  shows "inv U v (f (cm\<lparr>cm_backend := b\<rparr>))"
  using assms backend_ok by simp

lemma accept_ok: "inv U v cm \<Longrightarrow> inv U v (snd (cm_accept B i cm))"
  by (auto simp: cm_accept_def Let_def cm_find_None split: prod.split
      intro!: backend_ok setActiveCall_ok elim!: same_results(1)[rotated]
      dest: cm_ok_parts(1)[OF setActiveCall_ok])

lemma record_flag_ok:
  assumes "inv U v cm" "same (cm_backend cm) b" "cm_find i cm = Some r" "cr_state r' = cr_state r"
  shows "inv U v (cm_put i r' (cm\<lparr>cm_backend := b\<rparr>))"
  using put_ok[OF backend_ok[OF assms(1,2)], of i r'] cm_find_ahas[OF assms(3)]
    cm_ok_parts(7)[OF assms(1), of i r] assms(3,4) by (simp add: cm_find_def)

lemma flag_ops_ok:
  assumes inv: "inv U v cm"
  shows "inv U v (snd (cm_hold B i cm))" "inv U v (snd (cm_startRecording B i p cm))"
    "inv U v (snd (cm_stopRecording B i cm))" "inv U v (snd (playAudioFile B i p l cm))"
    "inv U v (snd (stopAudioFile B i cm))" "inv U v (snd (cm_setMuted B i m cm))"
  by (auto simp: cm_hold_def cm_startRecording_def cm_stopRecording_def playAudioFile_def
      stopAudioFile_def cm_setMuted_def inv split: option.split prod.split bool.split
      intro!: backend_ok[OF inv] record_flag_ok[OF inv]
      intro: same_results[OF cm_ok_parts(1)[OF inv]])

lemma plain_ops_ok:
  assumes inv: "inv U v cm"
  shows "inv U v (snd (cm_decline B i cm))" "inv U v (snd (forwardCall B i u cm))"
    "inv U v (snd (cm_sendDtmf B am i u cm))"
  by (auto simp: cm_decline_def forwardCall_def cm_sendDtmf_def Let_def inv
      split: option.split prod.split intro!: backend_ok[OF inv]
      intro: same_results[OF cm_ok_parts(1)[OF inv]])

lemma hangup_ok:
  assumes "inv U v cm"
  shows "inv U v (cm_hangup B i cm)"
  using assms op_ok[OF assms hangup_law[OF cm_ok_parts(1)[OF assms]]] by (simp add: cm_hangup_def)

lemma unhold_ok: "inv U v cm \<Longrightarrow> inv U v (snd (cm_unhold B i cm))"
  by (simp add: cm_unhold_def requestUnhold_ok)

lemma wireBridge_ok:
  assumes inv: "inv U v cm" and n: "n \<le> 5"
  shows "inv U v (snd (wireBridge B i j n cm))"
  using n by (auto simp: wireBridge_def inv split: prod.split bool.split
      intro!: timer_ok_shot backend_ok[OF inv] intro: same_results[OF cm_ok_parts(1)[OF inv]])

lemma mergeCalls_ok: "inv U v cm \<Longrightarrow> inv U v (snd (mergeCalls B i j cm))"
  using requestUnhold_ok[of U v cm 5 j]
  by (auto simp: mergeCalls_def wireBridge_ok split: prod.split bool.split intro!: timer_ok_shot)

lemma transfer_ops_ok:
  assumes inv: "inv U v cm"
  shows "inv U v (snd (cm_blindTransfer B i u cm))" "inv U v (snd (cm_attendedTransfer B i j cm))"
proof -
  have rec: "inv U v (cm\<lparr>cm_transfers := tt_record i (i # l) (cm_transfers cm)\<rparr>)" if "cm_find i cm \<noteq> None" for l
    using that cm_ok_parts(9)[OF inv]
    by (intro transfers_ok[OF inv]) (auto simp: tt_record_def cm_find_None split: if_splits)
  have keep: "inv U v (cm\<lparr>cm_transfers := t, cm_backend := b\<rparr>)" "inv U v (cm\<lparr>cm_backend := b, cm_transfers := tt_drop i t\<rparr>)"
    if "inv U v (cm\<lparr>cm_transfers := t\<rparr>)" "same (cm_backend cm) b" for t b
    using that(1) backend_ok[OF inv that(2)] by (auto simp: cm_ok_def tt_drop_def)
  note laws = same_results(8,9)[OF cm_ok_parts(1)[OF inv]]
  show "inv U v (snd (cm_blindTransfer B i u cm))"
  proof (cases "cm_find i cm = None")
    case False
    obtain q b where b: "bk_blindTransfer B (cm_backend cm) i u = (q, b)" by fastforce
    show ?thesis using keep[OF rec[OF False, of "[]"] laws(1)[OF b]] False b
      by (cases q) (auto simp: cm_blindTransfer_def Let_def)
  qed (simp add: cm_blindTransfer_def inv)
  show "inv U v (snd (cm_attendedTransfer B i j cm))"
  proof (cases "i = j \<or> cm_find i cm = None \<or> cm_find j cm = None")
    case False
    obtain q b where b: "bk_attendedTransfer B (cm_backend cm) i j = (q, b)" by fastforce
    have "cm_find i cm \<noteq> None" using False by simp
    note keep[OF rec[OF this, of "[j]"] laws(2)[OF b]]
    then show ?thesis using False b
      by (cases q) (auto simp: cm_attendedTransfer_def Let_def)
  qed (auto simp: cm_attendedTransfer_def inv)
qed

lemma hangupTransferLegs_ok: "inv U v cm \<Longrightarrow> inv U v (hangupTransferLegs B is cm)"
  unfolding hangupTransferLegs_def
  by (induction "is" arbitrary: cm) (simp_all add: op_ok[OF _ hangup_law] cm_ok_parts(1))

lemma handleTransferStatus_ok:
  assumes inv: "inv U v cm"
  shows "inv U v (handleTransferStatus B i n f cm)"
proof -
  obtain ids t where t: "tt_takeLegsToHangup i n f (cm_transfers cm) = (ids, t)" by fastforce
  then have "t = cm_transfers cm \<or> t = (cm_transfers cm)(i := None)"
    by (auto simp: tt_takeLegsToHangup_def tt_take_def split: if_splits option.splits)
  then have "inv U v (cm\<lparr>cm_transfers := t\<rparr>)"
    by (intro transfers_ok[OF inv] cm_ok_parts(9)[OF inv]) (auto split: if_splits)
  with t show ?thesis by (simp add: handleTransferStatus_def Let_def hangupTransferLegs_ok)
qed

text \<open>Every event the backend can deliver, and every timer.\<close>

lemma event_ok:
  assumes "inv U v cm" "\<And>xs. set (ord xs) = set xs"
    and "announced_in ev \<subseteq> U"
  shows "inv (U - announced_in ev) v (cm_event B am ord ev cm)"
  using assms
  by (cases ev) (simp_all add: cm_event_def announced_in_def onIncomingCall_ok onCallState_ok handleTransferStatus_ok)

lemma fire_timer_ok:
  assumes inv: "inv U v cm"
  shows "inv U v (fire_timer B n cm)"
proof (cases "n < length (cm_timers cm)")
  case True
  let ?ts = "take n (cm_timers cm) @ drop (Suc n) (cm_timers cm)"
  have all: "list_all timer_ok (map snd (cm_timers cm))" using inv by (rule cm_ok_parts(10))
  then have a: "timer_ok (snd (cm_timers cm ! n))"
    using True by (simp add: list_all_iff)
  have "set ?ts \<subseteq> set (cm_timers cm)" using set_take_subset set_drop_subset by fastforce
  with all have "list_all timer_ok (map snd ?ts)" unfolding list_all_iff by auto
  with inv have "inv U v (cm\<lparr>cm_timers := ?ts\<rparr>)" by (simp add: cm_ok_def)
  with True a show ?thesis
    by (auto simp: fire_timer_def run_action_def eraseLingering_ok requestUnhold_ok wireBridge_ok
        split: timer_action.split)
qed (simp add: fire_timer_def inv)

end

end
