(* ===== verification/AccountsInv.thy ===== *)
theory AccountsInv imports Accounts FakeBackend begin

text \<open>
  The accounts manager keeps its four views of an account together: the entry, the database row, the
  cached password and the backend registration.  Each part of the invariant is shown to be kept by
  every operation, against any backend and keychain that meet the contracts of \<open>BackendIf\<close>; the
  properties are the instances for the fake backend and the in-memory keychain.
\<close>

subsection \<open>Lists keyed by account id\<close>

definition ids_of :: "entry list \<Rightarrow> account_id list" where
  "ids_of es = map (\<lambda>e. acc_id (en_account e)) es"

lemma upd_first_map:
  "distinct (map key xs) \<Longrightarrow> upd_first (\<lambda>x. key x = i \<and> P x) g xs = map (\<lambda>x. if key x = i \<and> P x then g x else x) xs"
proof (induction xs)
  case (Cons x xs)
  have "key y \<noteq> key x" if "y \<in> set xs" for y
  proof
    assume "key y = key x"
    with that have "key x \<in> key ` set xs" by (metis imageI)
    with Cons.prems show False by simp
  qed
  then have "map (\<lambda>y. if key y = key x \<and> P y then g y else y) xs = xs"
    by (auto intro: map_idI)
  with Cons show ?case by auto
qed simp

lemma del_first_filter:
  "distinct (map key xs) \<Longrightarrow> del_first (\<lambda>x. key x = i) xs = filter (\<lambda>x. key x \<noteq> i) xs"
proof (induction xs)
  case (Cons x xs)
  have "filter (\<lambda>y. key y \<noteq> key x) xs = xs" if "distinct (map key (x # xs))"
    using that by (auto simp: filter_id_conv) (metis image_eqI)
  with Cons show ?case by auto
qed simp

lemmas upd_entry_map = upd_first_map[where key = "\<lambda>e. acc_id (en_account e)" and P = "\<lambda>_. True", simplified]
lemmas upd_live_map = upd_first_map[where key = "\<lambda>e. acc_id (en_account e)" and P = en_registered]
lemmas del_entry_filter = del_first_filter[where key = "\<lambda>e. acc_id (en_account e)"]

lemma find_SomeD: "find P xs = Some x \<Longrightarrow> x \<in> set xs \<and> P x"
  by (induction xs) (auto split: if_splits)

lemma find_entry_Some: "find_entry i es = Some e \<Longrightarrow> e \<in> set es \<and> acc_id (en_account e) = i"
  unfolding find_entry_def by (drule find_SomeD) simp

lemma find_entry_None: "find_entry i es = None \<longleftrightarrow> i \<notin> set (ids_of es)"
  by (auto simp: find_entry_def find_None_iff ids_of_def)

lemma entry_unique:
  "distinct (ids_of es) \<Longrightarrow> e \<in> set es \<Longrightarrow> e' \<in> set es \<Longrightarrow>
   acc_id (en_account e) = acc_id (en_account e') \<Longrightarrow> e = e'"
  by (auto simp: ids_of_def distinct_map inj_on_def)

lemma find_entry_in:
  assumes "distinct (ids_of es)" "e \<in> set es"
  shows "find_entry (acc_id (en_account e)) es = Some e"
proof (cases "find_entry (acc_id (en_account e)) es")
  case None
  with assms(2) show ?thesis by (auto simp: find_entry_None ids_of_def)
next
  case (Some e')
  with find_entry_Some[OF Some] entry_unique[OF assms(1), of e' e] assms(2) show ?thesis by simp
qed

subsection \<open>The registration invariant\<close>

definition reg_ok :: "('b \<Rightarrow> bool) \<Rightarrow> ('b \<Rightarrow> backend_account_id set) \<Rightarrow> ('b, 'k) accounts_manager \<Rightarrow> bool" where
  "reg_ok ok accts am \<longleftrightarrow> ok (am_backend am) \<and> distinct (ids_of (am_entries am)) \<and>
     keys_sorted (am_backendIds am) \<and>
     (\<forall>e \<in> set (am_entries am). en_registered e \<longleftrightarrow> ahas (am_backendIds am) (acc_id (en_account e))) \<and>
     (\<forall>i. ahas (am_backendIds am) i \<longrightarrow> i \<in> set (ids_of (am_entries am))) \<and>
     (\<forall>i bid. map_of (am_backendIds am) i = Some bid \<longrightarrow> bid \<in> accts (am_backend am)) \<and>
     (\<forall>i j bid. map_of (am_backendIds am) i = Some bid \<longrightarrow> map_of (am_backendIds am) j = Some bid \<longrightarrow> i = j)"

lemma reg_okI:
  assumes "am_backend am = b" "am_entries am = es" "am_backendIds am = bs"
    and "ok b" "distinct (ids_of es)" "keys_sorted bs"
    and "\<forall>e \<in> set es. en_registered e \<longleftrightarrow> ahas bs (acc_id (en_account e))"
    and "\<forall>i. ahas bs i \<longrightarrow> i \<in> set (ids_of es)"
    and "\<forall>i bid. map_of bs i = Some bid \<longrightarrow> bid \<in> accts b"
    and "\<forall>i j bid. map_of bs i = Some bid \<longrightarrow> map_of bs j = Some bid \<longrightarrow> i = j"
  shows "reg_ok ok accts am"
  unfolding reg_ok_def assms(1-3) using assms(4-) by blast

text \<open>The cache never disagrees with the keychain.\<close>

definition cache_ok :: "'k ikeychain \<Rightarrow> ('k \<Rightarrow> bool) \<Rightarrow> ('b, 'k) accounts_manager \<Rightarrow> bool" where
  "cache_ok K kok am \<longleftrightarrow> kok (am_keychain am) \<and>
     (\<forall>ref pw. am_passwordCache am ref = Some pw \<longrightarrow> kc_get K (am_keychain am) ref = Some pw)"

text \<open>Entries and rows have the same ids and, while no transaction is stuck, the same content.\<close>

definition rows_ok :: "account list \<Rightarrow> database \<Rightarrow> bool" where
  "rows_ok accs db \<longleftrightarrow> db_ok db \<and> (\<forall>i. ahas (t_accounts (db_tables db)) i \<longleftrightarrow> i \<in> acc_id ` set accs) \<and>
     (db_tx db = None \<longrightarrow>
       (\<forall>a \<in> set accs. \<forall>r. map_of (t_accounts (db_tables db)) (acc_id a) = Some r \<longrightarrow>
          account_of_row (acc_id a) r = stored a))"

lemma am_list_ids: "acc_id ` set (am_list am) = set (ids_of (am_entries am))"
  by (auto simp: am_list_def ids_of_def)

lemma reg_ok_bids_inj:
  "reg_ok ok accts am \<Longrightarrow> map_of (am_backendIds am) i = Some bid \<Longrightarrow> accountIdForBackend bid am = i"
proof -
  assume inv: "reg_ok ok accts am" and i: "map_of (am_backendIds am) i = Some bid"
  then have "(i, bid) \<in> set (am_backendIds am)" by (simp add: map_of_SomeD)
  then obtain kv where kv: "find (\<lambda>kv. snd kv = bid) (am_backendIds am) = Some kv"
    by (metis (mono_tags, lifting) find_None_iff not_None_eq snd_conv)
  then have "(fst kv, bid) \<in> set (am_backendIds am)" using find_SomeD by fastforce
  moreover have "distinct (map fst (am_backendIds am))"
    using inv by (simp add: reg_ok_def keys_sorted_distinct)
  ultimately have "map_of (am_backendIds am) (fst kv) = Some bid"
    by (simp add: map_of_is_SomeI)
  with inv i have "fst kv = i" by (auto simp: reg_ok_def)
  with kv show ?thesis by (simp add: accountIdForBackend_def)
qed

lemma accountIdForBackend_valid:
  assumes "reg_ok ok accts am" "accountIdForBackend bid am = i" "i \<noteq> kInvalidAccountId"
  shows "map_of (am_backendIds am) i = Some bid"
proof -
  obtain kv where kv: "find (\<lambda>kv. snd kv = bid) (am_backendIds am) = Some kv" "fst kv = i"
    using assms(2,3) by (auto simp: accountIdForBackend_def split: option.splits)
  then have "(i, bid) \<in> set (am_backendIds am)" using find_SomeD by fastforce
  moreover have "distinct (map fst (am_backendIds am))"
    using assms(1) by (simp add: reg_ok_def keys_sorted_distinct)
  ultimately show ?thesis by (simp add: map_of_is_SomeI)
qed

subsection \<open>What the registration steps leave alone\<close>

lemma fetch_password_frame:
  assumes "fetch_password K ref am = (r, am')"
  shows "am_backend am' = am_backend am" "am_entries am' = am_entries am" "am_db am' = am_db am"
    "am_keychain am' = am_keychain am" "am_backendIds am' = am_backendIds am"
    "am_mwi am' = am_mwi am" "am_regStates am' = am_regStates am" "am_regErrors am' = am_regErrors am"
    "am_signals am' = am_signals am"
    "\<And>pw. r = Some pw \<Longrightarrow> am_passwordCache am' ref = Some pw"
    "\<And>ref'. ref' \<noteq> ref \<Longrightarrow> am_passwordCache am' ref' = am_passwordCache am ref'"
  using assms by (auto simp: fetch_password_def split: option.splits)

lemma fetch_password_cache:
  assumes "cache_ok K kok am" "fetch_password K ref am = (r, am')"
  shows "cache_ok K kok am'" "r = kc_get K (am_keychain am) ref"
proof -
  have "cache_ok K kok am' \<and> r = kc_get K (am_keychain am) ref"
  proof (cases "am_passwordCache am ref")
    case None
    with assms show ?thesis
      by (cases "kc_get K (am_keychain am) ref") (auto simp: fetch_password_def cache_ok_def split: if_splits)
  next
    case (Some pw)
    with assms(1) have "kc_get K (am_keychain am) ref = Some pw" by (simp add: cache_ok_def)
    with Some assms show ?thesis by (simp add: fetch_password_def)
  qed
  then show "cache_ok K kok am'" "r = kc_get K (am_keychain am) ref" by auto
qed

definition registers_only :: "('b, 'k) accounts_manager \<Rightarrow> ('b, 'k) accounts_manager \<Rightarrow> bool" where
  "registers_only am am' \<longleftrightarrow> am_db am' = am_db am \<and> am_keychain am' = am_keychain am \<and>
     am_mwi am' = am_mwi am \<and> am_signals am' = am_signals am \<and> am_list am' = am_list am"

lemma registers_only_refl [simp]: "registers_only am am"
  by (simp add: registers_only_def)

lemma registers_only_trans: "registers_only a b \<Longrightarrow> registers_only b c \<Longrightarrow> registers_only a c"
  by (simp add: registers_only_def)

lemma am_list_upd_first:
  "(\<And>e. en_account (g e) = en_account e) \<Longrightarrow> map en_account (upd_first P g es) = map en_account es"
  by (induction es) auto

lemma registerAccount_frame: "registers_only am (snd (registerAccount B K i am))"
  by (auto simp: registerAccount_def registers_only_def set_entry_def am_list_def Let_def
      am_list_upd_first fetch_password_frame
      split: option.splits prod.splits dest: fetch_password_frame)

lemma unregisterAccount_frame: "registers_only am (unregisterAccount B i am)"
  by (auto simp: unregisterAccount_def registers_only_def am_list_def Let_def am_list_upd_first
      split: option.splits prod.splits)

lemma fold_registers_only:
  "(\<And>x am. registers_only am (g x am)) \<Longrightarrow> registers_only am (fold g xs am)"
  by (induction xs arbitrary: am) (auto intro: registers_only_trans)

lemma registerStartupAccounts_frame: "registers_only am (registerStartupAccounts B K am)"
  unfolding registerStartupAccounts_def
  by (rule fold_registers_only) (simp add: registerAccount_frame)

lemma reregisterAllEnabled_frame: "registers_only am (reregisterAllEnabled B K am)"
  unfolding reregisterAllEnabled_def Let_def
  by (rule fold_registers_only)
    (meson registerAccount_frame unregisterAccount_frame registers_only_trans)

text \<open>The cache can only gain what the keychain holds.\<close>

lemma registerAccount_cache: "cache_ok K kok am \<Longrightarrow> cache_ok K kok (snd (registerAccount B K i am))"
  by (auto simp: registerAccount_def set_entry_def Let_def cache_ok_def fetch_password_def
      split: option.splits prod.splits)

lemma unregisterAccount_same_cache:
  "am_passwordCache (unregisterAccount B i am) = am_passwordCache am"
  "am_keychain (unregisterAccount B i am) = am_keychain am"
  "am_db (unregisterAccount B i am) = am_db am"
  "am_list (unregisterAccount B i am) = am_list am"
  "am_mwi (unregisterAccount B i am) = am_mwi am"
  by (auto simp: unregisterAccount_def Let_def am_list_def am_list_upd_first split: option.splits prod.splits)

lemma unregisterAccount_cache: "cache_ok K kok am \<Longrightarrow> cache_ok K kok (unregisterAccount B i am)"
  by (simp add: cache_ok_def unregisterAccount_same_cache)

lemma registers_only_rows: "registers_only am am' \<Longrightarrow> rows_ok (am_list am') (am_db am') = rows_ok (am_list am) (am_db am)"
  by (simp add: registers_only_def)

subsection \<open>Rows and entries\<close>

lemma acc_ids_map: "(\<And>a. acc_id (h a) = acc_id a) \<Longrightarrow> acc_id ` set (map h accs) = acc_id ` set accs"
  by (simp add: image_image)

lemma rows_ok_update:
  assumes rows: "rows_ok accs db" and upd: "sql_update_accounts runs g db = (True, db')"
    and keep: "\<And>i r. g i r ColIsDefault = r ColIsDefault"
    and id: "\<And>a. acc_id (h a) = acc_id a"
    and cont: "\<And>a r. a \<in> set accs \<Longrightarrow> account_of_row (acc_id a) r = stored a \<Longrightarrow>
                 account_of_row (acc_id a) (g (acc_id a) r) = stored (h a)"
  shows "rows_ok (map h accs) db'"
proof -
  note fr = sql_update_accounts_frame[OF upd]
  have "acc_id ` set (map h accs) = acc_id ` set accs" by (simp add: image_image id)
  moreover have "db_ok db'"
    using sql_update_accounts_ok[OF _ upd keep] rows by (simp add: rows_ok_def)
  ultimately show ?thesis
    using rows fr id cont by (auto simp: rows_ok_def)
qed

lemma merge_row_stored:
  assumes "account_of_row i r = stored old"
  shows "account_of_row i (merge_row acc r) =
    stored (acc\<lparr>acc_id := i, acc_isDefault := acc_isDefault old, acc_passwordRef := acc_passwordRef old\<rparr>)"
proof -
  have "acc_isDefault (account_of_row i r) = acc_isDefault (stored old)"
    and "acc_passwordRef (account_of_row i r) = acc_passwordRef (stored old)"
    using assms by simp_all
  then show ?thesis
    by (simp add: account_of_row_def stored_def merge_row_def row_of_account_def)
qed

lemma set_enabled_stored:
  assumes "account_of_row i r = stored a"
  shows "account_of_row i (set_enabled_col v r) = stored (a\<lparr>acc_enabled := v\<rparr>)"
proof -
  have "account_of_row i (set_enabled_col v r) = (account_of_row i r)\<lparr>acc_enabled := v\<rparr>"
    by (simp add: account_of_row_def set_enabled_col_def)
  also have "\<dots> = stored (a\<lparr>acc_enabled := v\<rparr>)"
    unfolding assms by (simp add: stored_def account_of_row_def row_of_account_def)
  finally show ?thesis .
qed

lemma set_default_stored:
  assumes "account_of_row i r = stored a" "v = 0 \<or> v = 1"
  shows "account_of_row i (set_default_col v r) = stored (a\<lparr>acc_isDefault := (v = 1)\<rparr>)"
proof -
  have "account_of_row i (set_default_col v r) = (account_of_row i r)\<lparr>acc_isDefault := (v = 1)\<rparr>"
    using assms(2) by (auto simp: account_of_row_def set_default_col_def)
  also have "\<dots> = stored (a\<lparr>acc_isDefault := (v = 1)\<rparr>)"
    unfolding assms(1) by (simp add: stored_def account_of_row_def row_of_account_def)
  finally show ?thesis .
qed

lemma insert_stored: "account_of_row i (row_of_account a) = stored (a\<lparr>acc_id := i\<rparr>)"
  by (simp add: stored_def account_of_row_def row_of_account_def)

lemma rows_ok_insert:
  assumes rows: "rows_ok accs db" and ins: "sql_insert_account runs (row_of_account a) db = (Some i, db')"
  shows "rows_ok (accs @ [a\<lparr>acc_id := i\<rparr>]) db'" "i \<notin> acc_id ` set accs" "1 \<le> i"
proof -
  have ok: "db_ok db" and cell: "bool_cell (row_of_account a ColIsDefault)"
    using rows by (simp_all add: rows_ok_def row_of_account_def)
  note new = sql_insert_account_ok[OF ok cell ins]
  show fresh: "i \<notin> acc_id ` set accs" using new(2) rows by (simp add: rows_ok_def)
  show "1 \<le> i" by (rule new(3))
  have "acc_id x \<noteq> i" if "x \<in> set accs" for x using fresh that by auto
  then show "rows_ok (accs @ [a\<lparr>acc_id := i\<rparr>]) db'"
    using rows new by (auto simp: rows_ok_def insert_stored)
qed

lemma rows_ok_delete:
  assumes rows: "rows_ok accs db" and del: "sql_delete_account runs i db = (True, db')"
  shows "rows_ok (filter (\<lambda>a. acc_id a \<noteq> i) accs) db'"
proof -
  have ok: "db_ok db" using rows by (simp add: rows_ok_def)
  note new = sql_delete_account_ok[OF ok del]
  from new(5) have t: "t_accounts (db_tables db') = adel i (t_accounts (db_tables db))" by simp
  have "j \<in> acc_id ` set (filter (\<lambda>a. acc_id a \<noteq> i) accs) \<longleftrightarrow> j \<noteq> i \<and> j \<in> acc_id ` set accs" for j
    by auto
  then show ?thesis using rows new(1,2) t by (auto simp: rows_ok_def)
qed

text \<open>The two updates of \<open>setDefault\<close> together leave exactly one default row.\<close>

definition default_rows :: "int \<Rightarrow> database \<Rightarrow> database" where
  "default_rows i db = db\<lparr>db_tables := (db_tables db)\<lparr>t_accounts :=
     update_rows (\<lambda>j r. if j = i then set_default_col 1 r else r)
      (update_rows (\<lambda>j r. if r ColIsDefault = SqlInt 1 then set_default_col 0 r else r)
        (t_accounts (db_tables db)))\<rparr>\<rparr>"

lemma default_row_stored:
  assumes "account_of_row j r = stored a" "bool_cell (r ColIsDefault)"
  shows "account_of_row j (if j = i then set_default_col 1 (if r ColIsDefault = SqlInt 1 then set_default_col 0 r else r)
      else (if r ColIsDefault = SqlInt 1 then set_default_col 0 r else r))
    = stored (a\<lparr>acc_isDefault := (j = i)\<rparr>)"
proof -
  have twice: "set_default_col v (set_default_col w r) = set_default_col v r" for v w
    by (auto simp: set_default_col_def)
  have keep: "set_default_col 0 r = r" if "r ColIsDefault \<noteq> SqlInt 1"
    using assms(2) that by (auto simp: set_default_col_def bool_cell_def fun_eq_iff)
  have one: "account_of_row j (set_default_col 1 r) = stored (a\<lparr>acc_isDefault := True\<rparr>)"
    and zero: "account_of_row j (set_default_col 0 r) = stored (a\<lparr>acc_isDefault := False\<rparr>)"
    using set_default_stored[OF assms(1), of 1] set_default_stored[OF assms(1), of 0] by simp_all
  show ?thesis
  proof (cases "r ColIsDefault = SqlInt 1")
    case True
    then show ?thesis by (cases "j = i") (use one zero in \<open>simp_all add: twice\<close>)
  next
    case False
    then show ?thesis
      by (cases "j = i") (use one zero[unfolded keep[OF False]] in simp_all)
  qed
qed

lemma db_ok_tx [simp]: "db_ok (db\<lparr>db_tx := t\<rparr>) = db_ok db"
  by (simp add: db_ok_def)

lemma default_rows_rows:
  assumes "db_ok db"
  shows "db_ok (default_rows i db)" "ahas (t_accounts (db_tables (default_rows i db))) j = ahas (t_accounts (db_tables db)) j"
proof -
  let ?g = "\<lambda>j r. if j = i then set_default_col 1 (if r ColIsDefault = SqlInt 1 then set_default_col 0 r else r)
      else (if r ColIsDefault = SqlInt 1 then set_default_col 0 r else r)"
  let ?t = "t_accounts (db_tables db)"
  have cells: "bool_cell (r ColIsDefault)" if "map_of ?t j = Some r" for j r
    using assms that by (auto simp: db_ok_def Let_def)
  have g: "(if j = i then set_default_col 1 (if r ColIsDefault = SqlInt 1 then set_default_col 0 r else r)
      else (if r ColIsDefault = SqlInt 1 then set_default_col 0 r else r)) ColIsDefault
      = SqlInt (if j = i then 1 else 0)" if "map_of ?t j = Some r" for j r
    using cells[OF that] by (auto simp: set_default_col_def bool_cell_def)
  have row: "map_of (t_accounts (db_tables (default_rows i db))) j = map_option (?g j) (map_of ?t j)" for j
    by (cases "map_of ?t j") (simp_all add: default_rows_def)
  show "db_ok (default_rows i db)"
    unfolding db_ok_def Let_def
  proof (intro conjI allI impI)
    fix j k r s
    assume "map_of (t_accounts (db_tables (default_rows i db))) j = Some r" "r ColIsDefault = SqlInt 1"
      "map_of (t_accounts (db_tables (default_rows i db))) k = Some s" "s ColIsDefault = SqlInt 1"
    then show "j = k" using g by (fastforce simp: row split: if_splits)
  next
    fix j r
    assume "map_of (t_accounts (db_tables (default_rows i db))) j = Some r"
    then obtain r' where "map_of ?t j = Some r'" "r = ?g j r'" by (auto simp: row)
    then show "bool_cell (r ColIsDefault)" using g[of j r'] by simp
  qed (use assms in \<open>auto simp: db_ok_def Let_def default_rows_def\<close>)
  show "ahas (t_accounts (db_tables (default_rows i db))) j = ahas ?t j"
    by (simp add: ahas_def row)
qed

lemma default_rows_ok:
  assumes "rows_ok accs db" "db_tx db = None"
  shows "rows_ok (map (\<lambda>a. a\<lparr>acc_isDefault := (acc_id a = i)\<rparr>) accs) (default_rows i db)"
proof -
  let ?g = "\<lambda>j r. if j = i then set_default_col 1 (if r ColIsDefault = SqlInt 1 then set_default_col 0 r else r)
      else (if r ColIsDefault = SqlInt 1 then set_default_col 0 r else r)"
  let ?t = "t_accounts (db_tables db)"
  have cells: "bool_cell (r ColIsDefault)" if "map_of ?t j = Some r" for j r
    using assms(1) that by (auto simp: rows_ok_def db_ok_def Let_def)
  have g: "(if j = i then set_default_col 1 (if r ColIsDefault = SqlInt 1 then set_default_col 0 r else r)
      else (if r ColIsDefault = SqlInt 1 then set_default_col 0 r else r)) ColIsDefault
      = SqlInt (if j = i then 1 else 0)" if "map_of ?t j = Some r" for j r
    using cells[OF that] by (auto simp: set_default_col_def bool_cell_def)
  have row: "map_of (t_accounts (db_tables (default_rows i db))) j = map_option (?g j) (map_of ?t j)" for j
    by (cases "map_of ?t j") (simp_all add: default_rows_def)
  have "db_ok (default_rows i db)" and "ahas (t_accounts (db_tables (default_rows i db))) j = ahas ?t j" for j
    using assms(1) default_rows_rows by (simp_all add: rows_ok_def)
  moreover have "account_of_row (acc_id a) r' = stored (a\<lparr>acc_isDefault := (acc_id a = i)\<rparr>)"
    if a: "a \<in> set accs" and r': "map_of (t_accounts (db_tables (default_rows i db))) (acc_id a) = Some r'" for a r'
  proof -
    from r' obtain r where r: "map_of ?t (acc_id a) = Some r" "r' = ?g (acc_id a) r" by (auto simp: row)
    with assms a have "account_of_row (acc_id a) r = stored a" by (simp add: rows_ok_def)
    from default_row_stored[OF this cells[OF r(1)], of i] show ?thesis unfolding r(2) .
  qed
  ultimately show ?thesis
    using assms(1) unfolding rows_ok_def by (simp add: image_image)
qed

subsection \<open>The whole invariant, and the operations as data\<close>

definition am_ok ::
  "('b \<Rightarrow> bool) \<Rightarrow> ('b \<Rightarrow> backend_account_id set) \<Rightarrow> 'k ikeychain \<Rightarrow> ('k \<Rightarrow> bool) \<Rightarrow> ('b, 'k) accounts_manager \<Rightarrow> bool" where
  "am_ok ok accts K kok am \<longleftrightarrow>
     reg_ok ok accts am \<and> cache_ok K kok am \<and> rows_ok (am_list am) (am_db am)"

datatype am_op =
    AmAdd "nat \<Rightarrow> bool" string account string
  | AmRemove "nat \<Rightarrow> bool" account_id
  | AmUpdate "nat \<Rightarrow> bool" account
  | AmSetDefault "nat \<Rightarrow> bool" account_id
  | AmSetEnabled "nat \<Rightarrow> bool" account_id bool
  | AmSetPassword account_id string
  | AmRegister account_id
  | AmUnregister account_id
  | AmStartup
  | AmReregister
  | AmSend account_id string string
  | AmEvent listener_event

fun am_apply :: "'b isip_backend \<Rightarrow> 'k ikeychain \<Rightarrow> am_op \<Rightarrow> ('b, 'k) accounts_manager \<Rightarrow> ('b, 'k) accounts_manager" where
  "am_apply B K (AmAdd f ref a pw) am = snd (am_add B K f ref a pw am)"
| "am_apply B K (AmRemove f i) am = snd (am_remove B K f i am)"
| "am_apply B K (AmUpdate f a) am = snd (am_update B K f a am)"
| "am_apply B K (AmSetDefault f i) am = snd (am_setDefault f i am)"
| "am_apply B K (AmSetEnabled f i v) am = snd (am_setEnabled B K f i v am)"
| "am_apply B K (AmSetPassword i pw) am = snd (am_setPassword B K i pw am)"
| "am_apply B K (AmRegister i) am = snd (registerAccount B K i am)"
| "am_apply B K (AmUnregister i) am = unregisterAccount B i am"
| "am_apply B K AmStartup am = registerStartupAccounts B K am"
| "am_apply B K AmReregister am = reregisterAllEnabled B K am"
| "am_apply B K (AmSend i to body) am = snd (sendInstantMessage B i to body am)"
| "am_apply B K (AmEvent ev) am = am_event ev am"

text \<open>A new password reference is one the cache has not seen (it is a fresh UUID).\<close>

fun op_fresh :: "am_op \<Rightarrow> ('b, 'k) accounts_manager \<Rightarrow> bool" where
  "op_fresh (AmAdd f ref a pw) am = (am_passwordCache am ref = None)"
| "op_fresh _ am = True"

text \<open>A run of operations, each on what the one before left.\<close>

fun am_run :: "'b isip_backend \<Rightarrow> 'k ikeychain \<Rightarrow> am_op list \<Rightarrow> ('b, 'k) accounts_manager \<Rightarrow> ('b, 'k) accounts_manager" where
  "am_run B K [] am = am"
| "am_run B K (op # ops) am = am_run B K ops (am_apply B K op am)"

fun run_fresh :: "'b isip_backend \<Rightarrow> 'k ikeychain \<Rightarrow> am_op list \<Rightarrow> ('b, 'k) accounts_manager \<Rightarrow> bool" where
  "run_fresh B K [] am = True"
| "run_fresh B K (op # ops) am = (op_fresh op am \<and> run_fresh B K ops (am_apply B K op am))"

lemma am_event_frame:
  "am_backend (am_event ev am) = am_backend am \<and> am_entries (am_event ev am) = am_entries am \<and>
   am_db (am_event ev am) = am_db am \<and> am_keychain (am_event ev am) = am_keychain am \<and>
   am_backendIds (am_event ev am) = am_backendIds am \<and> am_passwordCache (am_event ev am) = am_passwordCache am"
  by (cases ev) (simp_all add: am_event_def am_onRegState_def am_onMwi_def updateMwi_def
      am_onInstantMessage_def am_emit_def Let_def)

lemma am_list_set_entry:
  assumes "distinct (ids_of (am_entries am))"
  shows "am_list (set_entry i (\<lambda>e. e\<lparr>en_account := h (en_account e)\<rparr>) am) =
    map (\<lambda>a. if acc_id a = i then h a else a) (am_list am)"
proof -
  have d: "distinct (map (\<lambda>e. acc_id (en_account e)) (am_entries am))"
    using assms by (simp add: ids_of_def)
  show ?thesis by (auto simp: set_entry_def am_list_def upd_entry_map[OF d])
qed

subsection \<open>Any backend and keychain that meet their contracts\<close>

locale accounts_env = account_backend B ok accts + keychain K kok
  for B :: "'b isip_backend"
    and ok :: "'b \<Rightarrow> bool"
    and accts :: "'b \<Rightarrow> backend_account_id set"
    and K :: "'k ikeychain"
    and kok :: "'k \<Rightarrow> bool"
begin

lemma set_entry_reg_ok:
  assumes "reg_ok ok accts am" "\<And>e. acc_id (en_account e) = i \<Longrightarrow> acc_id (en_account (g e)) = i \<and> en_registered (g e) = en_registered e"
  shows "reg_ok ok accts (set_entry i g am)" "ids_of (am_entries (set_entry i g am)) = ids_of (am_entries am)"
proof -
  have d: "distinct (map (\<lambda>e. acc_id (en_account e)) (am_entries am))"
    using assms(1) by (simp add: reg_ok_def ids_of_def)
  show ids: "ids_of (am_entries (set_entry i g am)) = ids_of (am_entries am)"
    using assms(2) by (auto simp: set_entry_def ids_of_def upd_entry_map[OF d])
  have "en_registered e \<longleftrightarrow> ahas (am_backendIds am) (acc_id (en_account e))"
    if "e \<in> set (am_entries (set_entry i g am))" for e
    using that assms by (auto simp: set_entry_def upd_entry_map[OF d] reg_ok_def split: if_splits)
  with assms(1) ids show "reg_ok ok accts (set_entry i g am)"
    by (simp add: reg_ok_def set_entry_def)
qed

lemma register_entry_reg_ok:
  assumes inv: "reg_ok ok accts am" and e: "find_entry i (am_entries am) = Some e" "\<not> en_registered e"
    and add: "ok b" "bid \<notin> accts (am_backend am)" "accts b = insert bid (accts (am_backend am))"
  shows "reg_ok ok accts (set_entry i (\<lambda>e. e\<lparr>en_registered := True\<rparr>)
           (am\<lparr>am_backend := b, am_backendIds := aput i bid (am_backendIds am)\<rparr>))"
proof -
  let ?am = "set_entry i (\<lambda>e. e\<lparr>en_registered := True\<rparr>)
           (am\<lparr>am_backend := b, am_backendIds := aput i bid (am_backendIds am)\<rparr>)"
  have d: "distinct (map (\<lambda>e. acc_id (en_account e)) (am_entries am))"
    using inv by (simp add: reg_ok_def ids_of_def)
  have ids: "ids_of (am_entries ?am) = ids_of (am_entries am)"
    by (auto simp: set_entry_def ids_of_def upd_entry_map[OF d])
  have i: "i \<in> set (ids_of (am_entries am))"
    using e(1) by (metis find_entry_None option.distinct(1))
  have reg: "en_registered x \<longleftrightarrow> ahas (aput i bid (am_backendIds am)) (acc_id (en_account x))"
    if "x \<in> set (am_entries ?am)" for x
    using that inv by (auto simp: set_entry_def upd_entry_map[OF d] reg_ok_def split: if_splits)
  have new: "map_of (am_backendIds am) j \<noteq> Some bid" for j
    using inv add(2) by (auto simp: reg_ok_def)
  show ?thesis
    unfolding reg_ok_def ids using inv i reg new add(1,3)
    by (auto simp: reg_ok_def set_entry_def)
qed

lemma registerAccount_reg_ok:
  assumes inv: "reg_ok ok accts am"
  shows "reg_ok ok accts (snd (registerAccount B K i am))"
proof (cases "find_entry i (am_entries am)")
  case None
  with inv show ?thesis by (simp add: registerAccount_def)
next
  case e: (Some e)
  show ?thesis
  proof (cases "\<not> bk_isRunning B (am_backend am) \<or> en_registered e")
    case True
    with e inv show ?thesis by (auto simp: registerAccount_def)
  next
    case False
    obtain pw am1 where f: "fetch_password K (acc_passwordRef (en_account e)) am = (pw, am1)"
      by fastforce
    note fr = fetch_password_frame[OF f]
    have inv1: "reg_ok ok accts am1" using inv fr by (simp add: reg_ok_def)
    show ?thesis
    proof (cases pw)
      case None
      with e False f inv1 show ?thesis by (simp add: registerAccount_def)
    next
      case (Some p)
      obtain bid b where a: "bk_addAccount B (am_backend am1) (settings_of (en_account e) p) = (bid, b)"
        by fastforce
      have okb: "ok (am_backend am1)" using inv1 by (simp add: reg_ok_def)
      from addAccount_law[OF okb a] consider
          "bid = kInvalidAccountId" "ok b" "accts b = accts (am_backend am1)"
        | "bid \<noteq> kInvalidAccountId" "bid \<notin> accts (am_backend am1)" "ok b"
          "accts b = insert bid (accts (am_backend am1))"
        by (auto simp: keeps_view_def)
      then show ?thesis
      proof cases
        case 1
        with e False f Some a inv1 show ?thesis
          by (simp add: registerAccount_def reg_ok_def)
      next
        case 2
        have "find_entry i (am_entries am1) = Some e" using e fr by simp
        from register_entry_reg_ok[OF inv1 this _ 2(3,2,4)] 2(1) e False f Some a fr
        show ?thesis by (simp add: registerAccount_def)
      qed
    qed
  qed
qed

lemma unregister_reg_ok_entry:
  assumes inv: "reg_ok ok accts am" and e: "e \<in> set (am_entries am)" "acc_id (en_account e) = i" "en_registered e"
  shows "\<exists>bid b. map_of (am_backendIds am) i = Some bid \<and> bid \<noteq> kInvalidAccountId \<and>
    bk_removeAccount B (am_backend am) bid = b \<and>
    unregisterAccount B i am = am\<lparr>am_backend := snd b, am_backendIds := adel i (am_backendIds am),
      am_entries := map (\<lambda>e. if acc_id (en_account e) = i then e\<lparr>en_registered := False\<rparr> else e) (am_entries am),
      am_regStates := (am_regStates am)(i \<mapsto> Unregistered), am_regErrors := (am_regErrors am)(i := None)\<rparr>"
proof -
  from inv e obtain bid where bid: "map_of (am_backendIds am) i = Some bid"
    by (auto simp: reg_ok_def ahas_def)
  then have "bid \<in> accts (am_backend am)" "ok (am_backend am)"
    using inv by (auto simp: reg_ok_def)
  with invalid_not_account have "bid \<noteq> kInvalidAccountId" by blast
  moreover have "find (\<lambda>e. acc_id (en_account e) = i \<and> en_registered e) (am_entries am) \<noteq> None"
    using e by (simp add: find_None_iff) blast
  then obtain y where "find (\<lambda>e. acc_id (en_account e) = i \<and> en_registered e) (am_entries am) = Some y"
    by blast
  moreover have d: "distinct (map (\<lambda>e. acc_id (en_account e)) (am_entries am))"
    using inv by (simp add: reg_ok_def ids_of_def)
  moreover have "map (\<lambda>e. if acc_id (en_account e) = i \<and> en_registered e then e\<lparr>en_registered := False\<rparr> else e) (am_entries am)
      = map (\<lambda>e. if acc_id (en_account e) = i then e\<lparr>en_registered := False\<rparr> else e) (am_entries am)"
    by auto
  ultimately show ?thesis
    using bid by (simp add: unregisterAccount_def Let_def upd_live_map[OF d])
qed

lemma unregisterAccount_noop:
  "find (\<lambda>e. acc_id (en_account e) = i \<and> en_registered e) (am_entries am) = None \<Longrightarrow> unregisterAccount B i am = am"
  by (simp add: unregisterAccount_def)

lemma unregisterAccount_reg_ok:
  assumes inv: "reg_ok ok accts am"
  shows "reg_ok ok accts (unregisterAccount B i am)" "\<not> ahas (am_backendIds (unregisterAccount B i am)) i"
proof -
  have "reg_ok ok accts (unregisterAccount B i am) \<and> \<not> ahas (am_backendIds (unregisterAccount B i am)) i"
  proof (cases "find (\<lambda>e. acc_id (en_account e) = i \<and> en_registered e) (am_entries am)")
    case None
    then have "\<not> ahas (am_backendIds am) i"
      using inv by (auto simp: find_None_iff reg_ok_def ids_of_def)
    with None inv show ?thesis by (simp add: unregisterAccount_noop)
  next
    case (Some e)
    then have e: "e \<in> set (am_entries am)" "acc_id (en_account e) = i" "en_registered e"
      by (auto dest: find_SomeD)
    obtain bid b where bid: "map_of (am_backendIds am) i = Some bid"
      and b: "bk_removeAccount B (am_backend am) bid = b"
      and eq: "unregisterAccount B i am = am\<lparr>am_backend := snd b, am_backendIds := adel i (am_backendIds am),
        am_entries := map (\<lambda>e. if acc_id (en_account e) = i then e\<lparr>en_registered := False\<rparr> else e) (am_entries am),
        am_regStates := (am_regStates am)(i \<mapsto> Unregistered), am_regErrors := (am_regErrors am)(i := None)\<rparr>"
      using unregister_reg_ok_entry[OF inv e] by blast
    have okb: "ok (am_backend am)" using inv by (simp add: reg_ok_def)
    have rem: "ok (snd b)" "accts (snd b) = accts (am_backend am) - {bid}"
      using removeAccount_law[OF okb, of bid "fst b" "snd b"] b by simp_all
    have ids: "ids_of (map (\<lambda>e. if acc_id (en_account e) = i then e\<lparr>en_registered := False\<rparr> else e) es) = ids_of es" for es
      by (simp add: ids_of_def)
    have "bid' \<noteq> bid" if "map_of (am_backendIds am) j = Some bid'" "j \<noteq> i" for j bid'
      using inv bid that by (auto simp: reg_ok_def)
    then have parts: "\<forall>j bid'. map_of (adel i (am_backendIds am)) j = Some bid' \<longrightarrow> bid' \<in> accts (snd b)"
      using inv rem(2) by (auto simp: reg_ok_def)
    have reg: "\<forall>x \<in> set (map (\<lambda>e. if acc_id (en_account e) = i then e\<lparr>en_registered := False\<rparr> else e) (am_entries am)).
        en_registered x \<longleftrightarrow> ahas (adel i (am_backendIds am)) (acc_id (en_account x))"
      using inv by (auto simp: reg_ok_def)
    have sub: "\<forall>j. ahas (adel i (am_backendIds am)) j \<longrightarrow> j \<in> set (ids_of (am_entries am))"
      and inj: "\<forall>j k bid. map_of (adel i (am_backendIds am)) j = Some bid \<longrightarrow>
          map_of (adel i (am_backendIds am)) k = Some bid \<longrightarrow> j = k"
      and dk: "distinct (ids_of (am_entries am))" "keys_sorted (adel i (am_backendIds am))"
      using inv by (simp_all add: reg_ok_def)
    have "reg_ok ok accts (unregisterAccount B i am)"
      unfolding eq
      by (rule reg_okI[where b = "snd b" and bs = "adel i (am_backendIds am)" and es = "map (\<lambda>e.
            if acc_id (en_account e) = i then e\<lparr>en_registered := False\<rparr> else e) (am_entries am)"])
        (simp, simp, simp, rule rem(1), subst ids, rule dk(1), rule dk(2), rule reg,
         subst ids, rule sub, rule parts, rule inj)
    then show ?thesis by (simp add: eq)
  qed
  then show "reg_ok ok accts (unregisterAccount B i am)" "\<not> ahas (am_backendIds (unregisterAccount B i am)) i"
    by auto
qed

lemma fold_reg_ok:
  "(\<And>x am. reg_ok ok accts am \<Longrightarrow> reg_ok ok accts (g x am)) \<Longrightarrow>
   reg_ok ok accts am \<Longrightarrow> reg_ok ok accts (fold g xs am)"
  by (induction xs arbitrary: am) auto

lemma registerStartupAccounts_reg_ok:
  "reg_ok ok accts am \<Longrightarrow> reg_ok ok accts (registerStartupAccounts B K am)"
  unfolding registerStartupAccounts_def
  by (rule fold_reg_ok) (auto intro: registerAccount_reg_ok)

lemma reregisterAllEnabled_reg_ok:
  "reg_ok ok accts am \<Longrightarrow> reg_ok ok accts (reregisterAllEnabled B K am)"
  unfolding reregisterAllEnabled_def Let_def
  by (rule fold_reg_ok) (auto intro: registerAccount_reg_ok unregisterAccount_reg_ok)

lemma cache_ok_set:
  assumes "cache_ok K kok am" "kc_set K (am_keychain am) ref pw = (True, kc)"
  shows "cache_ok K kok (am\<lparr>am_keychain := kc, am_passwordCache := (am_passwordCache am)(ref \<mapsto> pw)\<rparr>)"
  using assms set_law[of "am_keychain am" ref pw True kc] by (auto simp: cache_ok_def)

lemma cache_ok_set_failed:
  assumes "cache_ok K kok am" "kc_set K (am_keychain am) ref pw = (False, kc)"
  shows "cache_ok K kok (am\<lparr>am_keychain := kc\<rparr>)"
  using assms set_law[of "am_keychain am" ref pw False kc] by (auto simp: cache_ok_def)

lemma cache_ok_erase:
  assumes "cache_ok K kok am"
  shows "cache_ok K kok (am\<lparr>am_keychain := snd (kc_erase K (am_keychain am) ref),
           am_passwordCache := (am_passwordCache am)(ref := None)\<rparr>)"
  using assms erase_law[of "am_keychain am" ref "fst (kc_erase K (am_keychain am) ref)" "snd (kc_erase K (am_keychain am) ref)"]
  by (auto simp: cache_ok_def)

lemma register_am_ok: "am_ok ok accts K kok am \<Longrightarrow> am_ok ok accts K kok (snd (registerAccount B K i am))"
  unfolding am_ok_def using registerAccount_reg_ok registerAccount_cache
    registers_only_rows[OF registerAccount_frame] by blast

lemma unregister_am_ok: "am_ok ok accts K kok am \<Longrightarrow> am_ok ok accts K kok (unregisterAccount B i am)"
  unfolding am_ok_def using unregisterAccount_reg_ok unregisterAccount_cache
    registers_only_rows[OF unregisterAccount_frame] by blast

lemma fold_am_ok:
  "(\<And>x am. am_ok ok accts K kok am \<Longrightarrow> am_ok ok accts K kok (g x am)) \<Longrightarrow>
   am_ok ok accts K kok am \<Longrightarrow> am_ok ok accts K kok (fold g xs am)"
  by (induction xs arbitrary: am) auto

lemma startup_am_ok: "am_ok ok accts K kok am \<Longrightarrow> am_ok ok accts K kok (registerStartupAccounts B K am)"
  unfolding registerStartupAccounts_def by (rule fold_am_ok) (auto intro: register_am_ok)

lemma reregister_am_ok: "am_ok ok accts K kok am \<Longrightarrow> am_ok ok accts K kok (reregisterAllEnabled B K am)"
  unfolding reregisterAllEnabled_def Let_def
  by (rule fold_am_ok) (auto intro: register_am_ok unregister_am_ok)

lemma am_ok_ids: "am_ok ok accts K kok am \<Longrightarrow> distinct (ids_of (am_entries am))"
  by (simp add: am_ok_def reg_ok_def)

lemma add_am_ok:
  assumes inv: "am_ok ok accts K kok am" and fresh: "am_passwordCache am ref = None"
  shows "am_ok ok accts K kok (snd (am_add B K f ref acc pw am))"
proof -
  obtain r kc where kc: "kc_set K (am_keychain am) ref pw = (r, kc)" by fastforce
  let ?a = "acc\<lparr>acc_passwordRef := ref\<rparr>"
  show ?thesis
  proof (cases r)
    case False
    with kc inv cache_ok_set_failed[of am ref pw kc] show ?thesis
      by (simp add: am_add_def am_ok_def reg_ok_def am_list_def)
  next
    case True
    obtain ri db where ins: "sql_insert_account (f 0) (row_of_account ?a) (am_db am) = (ri, db)" by fastforce
    show ?thesis
    proof (cases ri)
      case None
      then have db: "db = am_db am" using ins sql_insert_account_None by blast
      have "cache_ok K kok (am\<lparr>am_keychain := snd (kc_erase K kc ref), am_db := db\<rparr>)"
        using inv fresh cache_ok_erase[of "am\<lparr>am_keychain := kc\<rparr>" ref] set_law[of "am_keychain am" ref pw True kc]
          erase_law[of kc ref "fst (kc_erase K kc ref)" "snd (kc_erase K kc ref)"] kc True
        by (auto simp: am_ok_def cache_ok_def)
      with kc True ins None inv db show ?thesis
        by (simp add: am_add_def insertRow_def am_ok_def reg_ok_def am_list_def cache_ok_def)
    next
      case (Some i)
      let ?a' = "?a\<lparr>acc_id := i\<rparr>"
      let ?am2 = "am\<lparr>am_keychain := kc, am_db := db,
        am_entries := am_entries am @ [\<lparr>en_account = ?a', en_registered = False\<rparr>],
        am_passwordCache := (am_passwordCache am)(ref \<mapsto> pw)\<rparr>"
      have rows: "rows_ok (am_list am @ [?a']) db" and new: "i \<notin> set (ids_of (am_entries am))"
        using rows_ok_insert[of "am_list am" "am_db am" "f 0" ?a i db] inv ins Some
        by (auto simp: am_ok_def am_list_ids)
      have "cache_ok K kok ?am2"
        using cache_ok_set[of am ref pw kc] inv kc True by (simp add: am_ok_def cache_ok_def)
      moreover have "reg_ok ok accts ?am2"
        using inv new by (auto simp: am_ok_def reg_ok_def ids_of_def)
      ultimately have "am_ok ok accts K kok ?am2"
        using rows by (simp add: am_ok_def am_list_def)
      then show ?thesis
        using kc True ins Some register_am_ok[of ?am2 i]
        by (auto simp: am_add_def insertRow_def Let_def)
    qed
  qed
qed

lemma remove_am_ok:
  assumes inv: "am_ok ok accts K kok am"
  shows "am_ok ok accts K kok (snd (am_remove B K f i am))"
proof (cases "find_entry i (am_entries am)")
  case None
  with inv show ?thesis by (simp add: am_remove_def)
next
  case e: (Some e)
  define am1 where "am1 = (if en_registered e then unregisterAccount B i am else am)"
  let ?ref = "acc_passwordRef (en_account e)"
  define am2 where "am2 = am1\<lparr>am_keychain := snd (kc_erase K (am_keychain am1) ?ref),
                         am_passwordCache := (am_passwordCache am1)(?ref := None)\<rparr>"
  have am1: "am_ok ok accts K kok am1" using inv unregister_am_ok by (simp add: am1_def)
  have gone: "\<not> ahas (am_backendIds am1) i"
  proof (cases "en_registered e")
    case True
    with inv show ?thesis by (simp add: am1_def am_ok_def unregisterAccount_reg_ok)
  next
    case False
    with inv e show ?thesis
      using find_entry_Some[OF e] by (auto simp: am1_def am_ok_def reg_ok_def)
  qed
  have am2: "am_ok ok accts K kok am2"
    using am1 cache_ok_erase[of am1 ?ref] by (simp add: am_ok_def reg_ok_def am2_def am_list_def)
  obtain r db where del: "sql_delete_account (f 0) i (am_db am2) = (r, db)" by fastforce
  have eq: "snd (am_remove B K f i am) = (if r then am2\<lparr>am_db := db,
      am_entries := del_first (\<lambda>e. acc_id (en_account e) = i) (am_entries am2)\<rparr> else am2\<lparr>am_db := db\<rparr>)"
  proof -
    have "am_db am2 = am_db am1" by (simp add: am2_def)
    with del have "sql_delete_account (f 0) i (am_db am1) = (r, db)" by simp
    with e show ?thesis
      by (simp add: am_remove_def deleteRow_def am1_def[symmetric] am2_def[symmetric] Let_def)
  qed
  show ?thesis
  proof (cases r)
    case False
    then have "db = am_db am2"
      using del am2 sql_delete_account_ok(4)[of "am_db am2" "f 0" i r db] by (simp add: am_ok_def rows_ok_def)
    with False am2 eq show ?thesis by simp
  next
    case True
    have d: "distinct (map (\<lambda>e. acc_id (en_account e)) (am_entries am2))"
      using am_ok_ids[OF am2] by (simp add: ids_of_def)
    have "rows_ok (filter (\<lambda>a. acc_id a \<noteq> i) (am_list am2)) db"
      using rows_ok_delete[of "am_list am2" "am_db am2" "f 0" i db] am2 del True by (simp add: am_ok_def)
    moreover have "\<not> ahas (am_backendIds am2) i" using gone by (simp add: am2_def)
    moreover have "distinct (ids_of (filter (\<lambda>e. acc_id (en_account e) \<noteq> i) (am_entries am2)))"
      using d by (simp add: ids_of_def distinct_map_filter)
    ultimately show ?thesis
      using am2 True eq
      by (auto simp: am_ok_def reg_ok_def cache_ok_def am_list_def del_entry_filter[OF d] ids_of_def
          filter_map comp_def)
  qed
qed

lemma set_entry_am_ok:
  assumes reg: "reg_ok ok accts am" and cache: "cache_ok K kok am"
    and g: "\<And>e. acc_id (en_account e) = i \<Longrightarrow> acc_id (en_account (g e)) = i \<and> en_registered (g e) = en_registered e"
    and rows: "rows_ok (am_list (set_entry i g am)) (am_db am)"
  shows "am_ok ok accts K kok (set_entry i g am)"
proof -
  have "cache_ok K kok (set_entry i g am)" using cache by (simp add: cache_ok_def set_entry_def)
  moreover have "am_db (set_entry i g am) = am_db am" by (simp add: set_entry_def)
  ultimately show ?thesis using set_entry_reg_ok(1)[OF reg g] rows by (simp add: am_ok_def)
qed

lemma reg_ok_db: "reg_ok ok accts (am\<lparr>am_db := db\<rparr>) = reg_ok ok accts am"
  by (simp add: reg_ok_def)

lemma cache_ok_db: "cache_ok K kok (am\<lparr>am_db := db\<rparr>) = cache_ok K kok am"
  by (simp add: cache_ok_def)

lemma am_ok_db_same: "am_ok ok accts K kok am \<Longrightarrow> db = am_db am \<Longrightarrow> am_ok ok accts K kok (am\<lparr>am_db := db\<rparr>)"
  by simp

lemma update_am_ok:
  assumes inv: "am_ok ok accts K kok am"
  shows "am_ok ok accts K kok (snd (am_update B K f acc am))"
proof (cases "find_entry (acc_id acc) (am_entries am)")
  case None
  with inv show ?thesis by (simp add: am_update_def)
next
  case e: (Some e)
  let ?i = "acc_id acc" and ?g = "\<lambda>i r. if i = acc_id acc then merge_row acc r else r"
  let ?a' = "acc\<lparr>acc_isDefault := acc_isDefault (en_account e), acc_passwordRef := acc_passwordRef (en_account e)\<rparr>"
  obtain r db where upd: "sql_update_accounts (f 0) ?g (am_db am) = (r, db)" by fastforce
  show ?thesis
  proof (cases r)
    case False
    with sql_update_accounts_frame(3)[OF upd] e upd inv show ?thesis by (simp add: am_update_def)
  next
    case True
    let ?am0 = "am\<lparr>am_db := db\<rparr>"
    define am1 where "am1 = (if en_registered e then unregisterAccount B ?i ?am0 else ?am0)"
    define am2 where "am2 = set_entry ?i (\<lambda>e. e\<lparr>en_account := ?a'\<rparr>) am1"
    have reg1: "reg_ok ok accts am1" and cache1: "cache_ok K kok am1"
      and list1: "am_list am1 = am_list am" and db1: "am_db am1 = db"
      using inv unregisterAccount_reg_ok[of ?am0 ?i] unregisterAccount_cache[of K kok ?am0 B ?i]
        registers_only_def unregisterAccount_frame[of ?am0 B ?i]
      by (auto simp: am1_def am_ok_def reg_ok_db cache_ok_db registers_only_def am_list_def)
    have d: "distinct (ids_of (am_entries am1))" using reg1 by (simp add: reg_ok_def)
    have "rows_ok (map (\<lambda>a. if acc_id a = ?i then ?a' else a) (am_list am)) db"
    proof -
      have only: "a = en_account e" if "a \<in> set (am_list am)" "acc_id a = ?i" for a
      proof -
        from that obtain e' where e': "e' \<in> set (am_entries am)" "a = en_account e'"
          by (auto simp: am_list_def)
        with that find_entry_Some[OF e] entry_unique[OF am_ok_ids[OF inv], of e' e] show ?thesis by simp
      qed
      show ?thesis
      proof (rule rows_ok_update)
        show "rows_ok (am_list am) (am_db am)" using inv by (simp add: am_ok_def)
        show "sql_update_accounts (f 0) ?g (am_db am) = (True, db)" using upd True by simp
        show "account_of_row (acc_id a) (?g (acc_id a) x) = stored (if acc_id a = ?i then ?a' else a)"
          if "a \<in> set (am_list am)" "account_of_row (acc_id a) x = stored a" for a x
        proof (cases "acc_id a = ?i")
          case True
          with that have "account_of_row ?i x = stored (en_account e)" using only by simp
          from merge_row_stored[OF this, of acc] True show ?thesis by simp
        qed (use that in simp)
      qed (simp_all add: merge_row_def)
    qed
    then have "rows_ok (am_list am2) (am_db am1)"
      using am_list_set_entry[OF d, of ?i "\<lambda>_. ?a'"] list1 db1 by (simp add: am2_def)
    then have am2: "am_ok ok accts K kok am2"
      unfolding am2_def by (intro set_entry_am_ok[OF reg1 cache1]) simp_all
    have "snd (am_update B K f acc am) = (if acc_enabled ?a' \<and> (en_registered e \<or> acc_registerOnStartup ?a')
        then snd (registerAccount B K ?i am2) else am2)"
      using e upd True by (auto simp: am_update_def am1_def am2_def Let_def)
    with am2 register_am_ok[OF am2, of ?i] show ?thesis by simp
  qed
qed

lemma setEnabled_am_ok:
  assumes inv: "am_ok ok accts K kok am"
  shows "am_ok ok accts K kok (snd (am_setEnabled B K f i v am))"
proof (cases "find_entry i (am_entries am)")
  case None
  with inv show ?thesis by (simp add: am_setEnabled_def)
next
  case e: (Some e)
  let ?g = "\<lambda>j r. if j = i then set_enabled_col v r else r"
  let ?h = "\<lambda>a. if acc_id a = i then a\<lparr>acc_enabled := v\<rparr> else a"
  obtain r db where upd: "sql_update_accounts (f 0) ?g (am_db am) = (r, db)" by fastforce
  show ?thesis
  proof (cases "r \<and> acc_enabled (en_account e) \<noteq> v")
    case False
    with sql_update_accounts_frame(3)[OF upd] e upd inv show ?thesis
      by (cases r) (auto simp: am_setEnabled_def)
  next
    case True
    let ?am0 = "am\<lparr>am_db := db\<rparr>"
    define am1 where "am1 = set_entry i (\<lambda>e. e\<lparr>en_account := (en_account e)\<lparr>acc_enabled := v\<rparr>\<rparr>) ?am0"
    have d: "distinct (ids_of (am_entries ?am0))" using am_ok_ids[OF inv] by simp
    have "rows_ok (map ?h (am_list am)) db"
    proof (rule rows_ok_update)
      show "rows_ok (am_list am) (am_db am)" using inv by (simp add: am_ok_def)
      show "sql_update_accounts (f 0) ?g (am_db am) = (True, db)" using upd True by simp
      show "account_of_row (acc_id a) (?g (acc_id a) r) = stored (?h a)"
        if "account_of_row (acc_id a) r = stored a" for a r
        using set_enabled_stored[OF that, of v] that by (cases "acc_id a = i") simp_all
    qed (simp_all add: set_enabled_col_def)
    moreover have "am_list am1 = map ?h (am_list am)"
      using am_list_set_entry[OF d, of i "\<lambda>a. a\<lparr>acc_enabled := v\<rparr>"] by (simp add: am1_def am_list_def)
    ultimately have rows: "rows_ok (am_list am1) (am_db ?am0)" by simp
    have am1: "am_ok ok accts K kok am1"
      unfolding am1_def
      by (rule set_entry_am_ok)
        (use inv rows in \<open>simp_all add: am_ok_def reg_ok_db cache_ok_db am1_def\<close>)
    have "snd (am_setEnabled B K f i v am) = (if v then snd (registerAccount B K i am1) else unregisterAccount B i am1)"
      using e upd True by (auto simp: am_setEnabled_def am1_def Let_def)
    with am1 register_am_ok[OF am1, of i] unregister_am_ok[OF am1, of i] show ?thesis by simp
  qed
qed

lemma setPassword_am_ok:
  assumes inv: "am_ok ok accts K kok am"
  shows "am_ok ok accts K kok (snd (am_setPassword B K i pw am))"
proof (cases "find_entry i (am_entries am)")
  case None
  with inv show ?thesis by (simp add: am_setPassword_def)
next
  case e: (Some e)
  let ?ref = "acc_passwordRef (en_account e)"
  obtain r kc where kc: "kc_set K (am_keychain am) ?ref pw = (r, kc)" by fastforce
  show ?thesis
  proof (cases r)
    case False
    with e kc inv cache_ok_set_failed[of am ?ref pw kc] show ?thesis
      by (simp add: am_setPassword_def am_ok_def reg_ok_def am_list_def)
  next
    case True
    let ?am1 = "am\<lparr>am_keychain := kc, am_passwordCache := (am_passwordCache am)(?ref \<mapsto> pw)\<rparr>"
    have "am_ok ok accts K kok ?am1"
      using inv cache_ok_set[of am ?ref pw kc] kc True by (simp add: am_ok_def reg_ok_def am_list_def)
    then show ?thesis
      using e kc True register_am_ok unregister_am_ok by (simp add: am_setPassword_def Let_def)
  qed
qed

lemma send_am_ok:
  assumes inv: "am_ok ok accts K kok am"
  shows "am_ok ok accts K kok (snd (sendInstantMessage B i to body am))"
proof -
  have "ok (snd (bk_sendMessage B (am_backend am) (backendIdFor i am) to body)) \<and>
      accts (snd (bk_sendMessage B (am_backend am) (backendIdFor i am) to body)) = accts (am_backend am)"
    using sendMessage_law[of "am_backend am"] inv by (simp add: am_ok_def reg_ok_def keeps_view_def)
  with inv show ?thesis
    by (auto simp: sendInstantMessage_def Let_def am_ok_def reg_ok_def cache_ok_def am_list_def
        split: prod.splits)
qed

lemma setDefault_am_ok:
  assumes inv: "am_ok ok accts K kok am"
  shows "am_ok ok accts K kok (snd (am_setDefault f i am))"
proof -
  let ?all = "map (\<lambda>e. e\<lparr>en_account := (en_account e)\<lparr>acc_isDefault := (acc_id (en_account e) = i)\<rparr>\<rparr>) (am_entries am)"
  have cases: "snd (am_setDefault f i am) = am \<or>
      db_tx (am_db am) = None \<and> snd (am_setDefault f i am) = am\<lparr>am_db := default_rows i (am_db am), am_entries := ?all\<rparr> \<or>
      snd (am_setDefault f i am) = am\<lparr>am_db := (default_rows i (am_db am))\<lparr>db_tx := Some (db_tables (am_db am))\<rparr>\<rparr>"
    by (auto simp: am_setDefault_def sql_begin_def sql_update_accounts_def sql_commit_def sql_rollback_def
        default_rows_def)
  have list: "map en_account ?all = map (\<lambda>a. a\<lparr>acc_isDefault := (acc_id a = i)\<rparr>) (am_list am)"
    by (simp add: am_list_def)
  have ids: "ids_of ?all = ids_of (am_entries am)" by (simp add: ids_of_def)
  from cases show ?thesis
  proof (elim disjE conjE)
    assume "snd (am_setDefault f i am) = am"
    with inv show ?thesis by simp
  next
    assume 2: "db_tx (am_db am) = None" "snd (am_setDefault f i am) = am\<lparr>am_db := default_rows i (am_db am), am_entries := ?all\<rparr>"
    have "rows_ok (map en_account ?all) (default_rows i (am_db am))"
      unfolding list using inv 2(1) by (intro default_rows_ok) (simp_all add: am_ok_def)
    moreover have "reg_ok ok accts (am\<lparr>am_db := default_rows i (am_db am), am_entries := ?all\<rparr>)"
      using inv ids by (auto simp: am_ok_def reg_ok_def)
    ultimately show ?thesis using inv 2(2) by (simp add: am_ok_def cache_ok_def am_list_def comp_def)
  next
    assume 3: "snd (am_setDefault f i am) = am\<lparr>am_db := (default_rows i (am_db am))\<lparr>db_tx := Some (db_tables (am_db am))\<rparr>\<rparr>"
    have "rows_ok (am_list am) ((default_rows i (am_db am))\<lparr>db_tx := Some (db_tables (am_db am))\<rparr>)"
      using inv by (auto simp: am_ok_def rows_ok_def default_rows_rows db_ok_tx)
    with 3 inv show ?thesis by (simp add: am_ok_def reg_ok_def cache_ok_def am_list_def)
  qed
qed

lemma event_am_ok:
  assumes inv: "am_ok ok accts K kok am"
  shows "am_ok ok accts K kok (am_event ev am)"
  using inv am_event_frame[of ev am] by (simp add: am_ok_def reg_ok_def cache_ok_def am_list_def)

lemma apply_am_ok:
  assumes "am_ok ok accts K kok am" "op_fresh op am"
  shows "am_ok ok accts K kok (am_apply B K op am)"
  using assms by (cases op) (simp_all add: add_am_ok remove_am_ok update_am_ok setDefault_am_ok
      setEnabled_am_ok setPassword_am_ok register_am_ok unregister_am_ok startup_am_ok reregister_am_ok
      send_am_ok event_am_ok)

lemma run_am_ok:
  "am_ok ok accts K kok am \<Longrightarrow> run_fresh B K ops am \<Longrightarrow> am_ok ok accts K kok (am_run B K ops am)"
  by (induction ops arbitrary: am) (auto intro: apply_am_ok)

end

subsection \<open>The program's configuration for tests: fake backend, in-memory keychain\<close>

interpretation fake_accounts: accounts_env FakeB fake_ok fake_accts MemK "\<lambda>_. True"
  by unfold_locales

text \<open>The manager a program starts with, whatever the backend.\<close>

lemma am_ok_start:
  assumes "ok b" "db_ok db" "db_handle db" "kok kc"
  shows "am_ok ok accts K kok (am_new True b db kc)"
proof -
  let ?t = "t_accounts (db_tables db)"
  let ?es = "map (\<lambda>(i, r). \<lparr>en_account = account_of_row i r, en_registered = False\<rparr>) (row_order ?t)"
  have new: "am_new True b db kc = \<lparr>am_backend = b, am_db = db, am_keychain = kc, am_entries = ?es,
      am_passwordCache = (\<lambda>_. None), am_backendIds = [], am_regStates = (\<lambda>_. None),
      am_regErrors = (\<lambda>_. None), am_mwi = (\<lambda>_. None), am_signals = []\<rparr>"
    using assms(3) by (simp add: am_new_def loadFromDatabase_def)
  have dist: "distinct (map fst ?t)" using assms(2) by (simp add: db_ok_def Let_def keys_sorted_distinct)
  have ids: "ids_of ?es = map fst (row_order ?t)"
    by (auto simp: ids_of_def)
  have set_rows: "set (row_order ?t) = set ?t" by (simp add: row_order_def)
  have dids: "distinct (ids_of ?es)"
    unfolding ids using dist by (simp add: distinct_map row_order_def)
  have list: "am_list (am_new True b db kc) = map (\<lambda>(i, r). account_of_row i r) (row_order ?t)"
    by (auto simp: new am_list_def)
  have aids: "acc_id ` set (am_list (am_new True b db kc)) = fst ` set ?t"
    unfolding list set_map set_rows image_image by (auto intro!: image_cong)
  have "account_of_row (acc_id a) r = stored a"
    if "a \<in> set (am_list (am_new True b db kc))" "map_of ?t (acc_id a) = Some r" for a r
  proof -
    from that(1) obtain i r' where a: "(i, r') \<in> set ?t" "a = account_of_row i r'"
      unfolding list by (auto simp: set_rows)
    with dist have "map_of ?t i = Some r'" by (simp add: map_of_is_SomeI)
    with a that(2) show ?thesis by simp
  qed
  then have "rows_ok (am_list (am_new True b db kc)) db"
    using assms(2) by (simp add: rows_ok_def aids ahas_iff_keys)
  moreover have "reg_ok ok accts (am_new True b db kc)"
    using assms(1) dids by (auto simp: new reg_ok_def)
  ultimately show ?thesis using assms(4) by (simp add: am_ok_def cache_ok_def new)
qed

lemma am_ok_new:
  assumes "fake_ok b" "db_ok db" "db_handle db"
  shows "am_ok fake_ok fake_accts MemK (\<lambda>_. True) (am_new True b db kc)"
  using assms by (intro am_ok_start) simp_all

subsection \<open>Properties of the accounts manager\<close>

text \<open>The states the program reaches from start-up on the fake backend.\<close>

definition am_reach :: "fake_backend \<Rightarrow> database \<Rightarrow> memory_keychain \<Rightarrow> am_op list \<Rightarrow> (fake_backend, memory_keychain) accounts_manager" where
  "am_reach b db kc ops = am_run FakeB MemK ops (am_new True b db kc)"

definition am_start_ok :: "fake_backend \<Rightarrow> database \<Rightarrow> memory_keychain \<Rightarrow> am_op list \<Rightarrow> bool" where
  "am_start_ok b db kc ops \<longleftrightarrow> fake_ok b \<and> db_ok db \<and> db_handle db \<and>
     run_fresh FakeB MemK ops (am_new True b db kc)"

lemma am_reach_ok:
  "am_start_ok b db kc ops \<Longrightarrow> am_ok fake_ok fake_accts MemK (\<lambda>_. True) (am_reach b db kc ops)"
  unfolding am_start_ok_def am_reach_def
  by (intro fake_accounts.run_am_ok am_ok_new) auto

definition empty_db :: database where
  "empty_db = \<lparr>db_handle = True, db_tables = \<lparr>t_accounts = [], t_history = [], t_messages = [],
     t_contacts = [], t_lines = [], t_settings = []\<rparr>, db_tx = None\<rparr>"

lemma empty_db_ok: "db_ok empty_db"
  by (simp add: empty_db_def db_ok_def)

definition running_fake :: fake_backend where
  "running_fake = snd (fb_start (fb_setListener fb_new True) 5060)"

lemma running_fake_ok: "fake_ok running_fake"
  by (simp add: running_fake_def fb_start_def fb_setListener_def fake_ok_def fb_new_def)

definition example_ops :: "am_op list" where
  "example_ops = [AmAdd (\<lambda>_. True) ''ref'' (default_account\<lparr>acc_username := ''alice''\<rparr>) ''secret'']"

lemma example_start_ok: "am_start_ok running_fake empty_db (\<lambda>_. None) example_ops"
  by (simp add: am_start_ok_def running_fake_ok empty_db_ok example_ops_def am_new_def
      loadFromDatabase_def) (simp add: empty_db_def)

lemmas account_states = am_ok_def reg_ok_def cache_ok_def rows_ok_def



text \<open>The two translations of account ids are inverse to each other: a backend event names the
  account that was registered under that backend id.\<close>

theorem backend_ids_inverse:
  assumes "am_start_ok b db kc ops" "bid \<noteq> kInvalidAccountId" "i \<noteq> kInvalidAccountId"
  shows "backendIdFor i (am_reach b db kc ops) = bid \<longleftrightarrow> accountIdForBackend bid (am_reach b db kc ops) = i"
proof -
  let ?am = "am_reach b db kc ops"
  have reg: "reg_ok fake_ok fake_accts ?am" using am_reach_ok[OF assms(1)] by (simp add: am_ok_def)
  show ?thesis
  proof
    assume "backendIdFor i ?am = bid"
    then have "map_of (am_backendIds ?am) i = Some bid"
      using assms(2) by (auto simp: backendIdFor_def split: option.splits)
    then show "accountIdForBackend bid ?am = i" using reg reg_ok_bids_inj by blast
  next
    assume "accountIdForBackend bid ?am = i"
    with reg assms(3) have "map_of (am_backendIds ?am) i = Some bid"
      using accountIdForBackend_valid by blast
    then show "backendIdFor i ?am = bid" by (simp add: backendIdFor_def)
  qed
qed

theorem backend_ids_inverse_witness:
  "backendIdFor 1 (am_reach running_fake empty_db (\<lambda>_. None) example_ops) = 1 \<longleftrightarrow>
   accountIdForBackend 1 (am_reach running_fake empty_db (\<lambda>_. None) example_ops) = 1"
  by (rule backend_ids_inverse[OF example_start_ok]) (simp_all add: kInvalidAccountId_def)

text \<open>The registration policy: Registered means an active binding and a 2xx answer, and only
  that clears the last error; Failed records the code and reason; while an attempt is under way or
  after a confirmed unregister the last error stays readable.\<close>

theorem mapRegEvent_policy:
  "(ru_state (mapRegEvent active sipCode reason lastError) = Registered \<longleftrightarrow>
      active \<and> 200 \<le> sipCode \<and> sipCode < 300) \<and>
   (ru_state (mapRegEvent active sipCode reason lastError) = Registering \<longleftrightarrow> sipCode = 0) \<and>
   (ru_state (mapRegEvent active sipCode reason lastError) = Unregistered \<longleftrightarrow>
      \<not> active \<and> 200 \<le> sipCode \<and> sipCode < 300) \<and>
   ru_error (mapRegEvent active sipCode reason lastError) =
     (case ru_state (mapRegEvent active sipCode reason lastError) of
        Registered \<Rightarrow> no_reg_error
      | Failed \<Rightarrow> \<lparr>re_code = sipCode, re_reason = reason\<rparr>
      | _ \<Rightarrow> lastError)"
proof -
  have "sipCode div 100 = 2 \<longleftrightarrow> 200 \<le> sipCode \<and> sipCode < 300" by auto
  then show ?thesis by (auto simp: mapRegEvent_def)
qed

text \<open>Restarting loses nothing: unless a commit is stuck, loading the database again gives the
  accounts of the running program, as the columns store them.\<close>

theorem accounts_reload:
  assumes "am_start_ok b db kc ops" "db_tx (am_db (am_reach b db kc ops)) = None"
    and "db_handle (am_db (am_reach b db kc ops))"
  shows "set (am_list (am_new True b' (am_db (am_reach b db kc ops)) kc')) =
    stored ` set (am_list (am_reach b db kc ops))"
proof -
  let ?am = "am_reach b db kc ops" and ?t = "t_accounts (db_tables (am_db (am_reach b db kc ops)))"
  have rows: "rows_ok (am_list ?am) (am_db ?am)" using am_reach_ok[OF assms(1)] by (simp add: am_ok_def)
  then have dist: "distinct (map fst ?t)" by (simp add: rows_ok_def db_ok_def Let_def keys_sorted_distinct)
  have row: "a \<in> set (am_list ?am) \<Longrightarrow> map_of ?t (acc_id a) = Some r \<Longrightarrow> account_of_row (acc_id a) r = stored a" for a r
    using rows assms(2) by (simp add: rows_ok_def)
  have dom: "ahas ?t i \<longleftrightarrow> i \<in> acc_id ` set (am_list ?am)" for i
    using rows by (simp add: rows_ok_def)
  have "set (am_list (am_new True b' (am_db ?am) kc')) = (\<lambda>(i, r). account_of_row i r) ` set ?t"
    using assms(3) by (force simp: am_new_def loadFromDatabase_def am_list_def row_order_def)
  also have "\<dots> = stored ` set (am_list ?am)"
  proof (intro set_eqI iffI)
    fix x assume "x \<in> (\<lambda>(i, r). account_of_row i r) ` set ?t"
    then obtain i r where ir: "(i, r) \<in> set ?t" "x = account_of_row i r" by auto
    then have m: "map_of ?t i = Some r" using dist by simp
    with dom have "i \<in> acc_id ` set (am_list ?am)" by (metis ahas_Some)
    then obtain a where "a \<in> set (am_list ?am)" "acc_id a = i" by auto
    with row[of a r] m ir show "x \<in> stored ` set (am_list ?am)" by auto
  next
    fix x assume "x \<in> stored ` set (am_list ?am)"
    then obtain a where a: "a \<in> set (am_list ?am)" "x = stored a" by auto
    with dom have "ahas ?t (acc_id a)" by blast
    then obtain r where r: "map_of ?t (acc_id a) = Some r" by (auto simp: ahas_def)
    with row[OF a(1) r] a(2) show "x \<in> (\<lambda>(i, r). account_of_row i r) ` set ?t"
      by (force dest: map_of_SomeD)
  qed
  finally show ?thesis .
qed

theorem accounts_reload_witness:
  "set (am_list (am_new True running_fake (am_db (am_reach running_fake empty_db (\<lambda>_. None) [])) (\<lambda>_. None))) = {}"
proof -
  have s: "am_start_ok running_fake empty_db (\<lambda>_. None) []"
    using example_start_ok by (simp add: am_start_ok_def)
  have e: "am_db (am_reach running_fake empty_db (\<lambda>_. None) []) = empty_db"
    "am_list (am_reach running_fake empty_db (\<lambda>_. None) []) = []"
    by (simp_all add: am_reach_def am_new_def loadFromDatabase_def am_list_def empty_db_def row_order_def)
  show ?thesis
    using accounts_reload[OF s, of running_fake "\<lambda>_. None"] e by (simp add: empty_db_def)
qed

end
