(* ===== verification/CallsProps.thy ===== *)
theory CallsProps imports CallsInv AccountsInv begin

text \<open>
  The policies of the call manager: who is active and who is on hold, what happens when a call ends,
  when transferred legs are hung up, and that retries run out.  Each is proved for every backend,
  whatever it answers; the witnesses run on the fake backend.
\<close>

subsection \<open>Example states\<close>

definition answered_call :: call_record where
  "answered_call = new_call_record\<lparr>cr_accountId := 1, cr_state := Confirmed\<rparr>"

text \<open>Two answered calls: 1 active, 2 on hold.\<close>

definition two_calls :: "fake_backend call_manager" where
  "two_calls = (cm_new (running_fake
       \<lparr>fb_nextCallId := 3,
        fb_calls := [(1, new_fake_call\<lparr>fc_accountId := 1, fc_state := Confirmed, fc_mediaActive := True\<rparr>),
                     (2, new_fake_call\<lparr>fc_accountId := 1, fc_state := Confirmed, fc_held := True\<rparr>)]\<rparr>))
     \<lparr>cm_records := [(1, answered_call), (2, answered_call\<lparr>cr_held := True\<rparr>)], cm_activeCallId := 1\<rparr>"

lemmas two_calls_simps =
  two_calls_def answered_call_def new_call_record_def new_fake_call_def running_fake_def fb_new_def
  fb_start_def fb_setListener_def cm_new_def invalid_id_defs FakeB_def fb_hold_def fb_unhold_def
  liveCall_def fb_update_def fb_post_def logCmd_def

lemma two_calls_records:
  "cm_find 1 two_calls = Some answered_call"
  "cm_find 2 two_calls = Some (answered_call\<lparr>cr_held := True\<rparr>)"
  "cm_activeCallId two_calls = 1" "cm_records two_calls = [(1, answered_call), (2, answered_call\<lparr>cr_held := True\<rparr>)]"
  by (simp_all add: two_calls_def cm_new_def cm_find_def)

lemma answered_call_state [simp]: "cr_state answered_call = Confirmed" "cr_held answered_call = False"
  by (simp_all add: answered_call_def new_call_record_def)

subsection \<open>One active call\<close>

lemma setActiveCall_find:
  "cm_find j (setActiveCall B i cm) =
     (if cm_activeCallId cm = i then cm_find j cm
      else if j = i \<and> i \<noteq> kInvalidCallId then map_option (\<lambda>r. r\<lparr>cr_held := False\<rparr>) (cm_find j cm)
      else cm_find j (hold_previous B (cm_activeCallId cm) cm))"
  by (auto simp: setActiveCall_def Let_def cm_find_hold_previous split: option.splits if_splits)

text \<open>Accepting a call makes it the active one, off hold, and puts the call that was active and
  answered on hold, so that the user never talks to two parties at once; no other record changes
  and the answer is the backend's.\<close>

theorem accept_holds_active:
  assumes "cm_find i cm = Some r" "i \<noteq> kInvalidCallId" "cm_activeCallId cm \<noteq> i"
    and "cm_accept B i cm = (ret, cm')"
  shows "cm_activeCallId cm' = i \<and> cm_find i cm' = Some (r\<lparr>cr_held := False\<rparr>) \<and>
    (isConfirmedState (cm_activeCallId cm) cm \<and> cm_activeCallId cm \<noteq> kInvalidCallId \<longrightarrow> isHeld (cm_activeCallId cm) cm') \<and>
    (\<forall>j. j \<noteq> i \<and> j \<noteq> cm_activeCallId cm \<longrightarrow> cm_find j cm' = cm_find j cm) \<and>
    (ret, cm_backend cm') = bk_answer B (cm_backend (setActiveCall B i cm)) i"
proof -
  obtain b where b: "bk_answer B (cm_backend (setActiveCall B i cm)) i = (ret, b)"
    and cm': "cm' = (setActiveCall B i cm)\<lparr>cm_backend := b\<rparr>"
    using assms(1,4) by (auto simp: cm_accept_def Let_def split: prod.splits)
  show ?thesis
    using assms(1-3) b
    by (auto simp: cm' setActiveCall_find cm_find_hold_previous isHeld_def isConfirmedState_def split: option.splits)
qed

theorem accept_holds_active_witness:
  "isHeld 1 (snd (cm_accept FakeB 2 two_calls))"
proof -
  obtain ret cm' where a: "cm_accept FakeB 2 two_calls = (ret, cm')" by fastforce
  show ?thesis
    using accept_holds_active[OF two_calls_records(2) _ _ a] a
    by (simp add: two_calls_records isConfirmedState_def kInvalidCallId_def)
qed

subsection \<open>The end of a call\<close>

lemma requestUnhold_retry:
  assumes "cm_find i cm = Some r" "0 < n" "cm_activeCallId cm = i"
  shows "cm_find j (snd (requestUnhold B i n cm)) = (if j = i then Some (r\<lparr>cr_held := False\<rparr>) else cm_find j cm)"
    "cm_activeCallId (snd (requestUnhold B i n cm)) = i"
  using assms by (auto simp: requestUnhold_def Let_def split: prod.split bool.split)

lemma promotable_Some: "promotable cm i \<longleftrightarrow> (\<exists>r. cm_find i cm = Some r \<and> cr_held r \<and> cr_state r = Confirmed)"
  by (auto simp: promotable_def split: option.split)

lemma promote_next_cases:
  assumes "\<And>xs. set (ord xs) = set xs"
  shows "(cm_activeCallId (promote_next B ord cm) = kInvalidCallId \<and> (\<forall>j. \<not> promotable cm j) \<and>
          (\<forall>j. cm_find j (promote_next B ord cm) = cm_find j cm)) \<or>
         (\<exists>k r. promotable cm k \<and> cm_find k cm = Some r \<and> cm_activeCallId (promote_next B ord cm) = k \<and>
          (\<forall>j. cm_find j (promote_next B ord cm) = (if j = k then Some (r\<lparr>cr_held := False\<rparr>) else cm_find j cm)))"
proof (cases "find (promotable cm) (ord (map fst (cm_records cm)))")
  case None
  then have "\<not> promotable cm j" for j
    using assms by (fastforce simp: find_None_iff promotable_Some cm_find_def dest: map_of_SomeD)
  with None show ?thesis by (simp add: promote_next_def)
next
  case (Some k)
  then have k: "promotable cm k" by (metis find_SomeD)
  then obtain r where r: "cm_find k cm = Some r" by (auto simp: promotable_Some)
  have "cm_find k (cm\<lparr>cm_activeCallId := k\<rparr>) = Some r" using r by simp
  note requestUnhold_retry[OF this, of 3]
  with Some k r show ?thesis
    by (intro disjI2 exI[of _ k] exI[of _ r]) (simp add: promote_next_def)
qed

lemma cm_find_gone:
  "cm_find j (cm\<lparr>cm_records := adel i (cm_records cm), cm_transfers := t, cm_backend := b, cm_lingeringCalls := l\<rparr>) =
     (if j = i then None else cm_find j cm)"
  by (simp add: cm_find_def)

text \<open>C5. When the active call ends it leaves the records for the on-screen grace period with its status
  code still readable, and a call that was on hold is resumed as the active one if there is any,
  whatever order the records are visited in; every other call is as it was.\<close>

theorem disconnect_promotes_held:
  assumes "cm_find i cm = Some r" "cm_activeCallId cm = i" "\<And>xs. set (ord xs) = set xs"
    and cm': "cm' = cm_onCallState B ord i Disconnected sipCode cm"
  shows "cm_find i cm' = None \<and> lastStatusCode i cm' = sipCode \<and>
    (\<exists>r'. map_of (cm_lingeringCalls cm') i = Some r' \<and> cr_state r' = Disconnected) \<and>
    ((\<exists>k. k \<noteq> i \<and> promotable cm k \<and> cm_activeCallId cm' = k \<and> \<not> isHeld k cm' \<and> isConfirmedState k cm' \<and>
        (\<forall>j. j \<noteq> i \<and> j \<noteq> k \<longrightarrow> cm_find j cm' = cm_find j cm)) \<or>
     ((\<forall>k. k \<noteq> i \<longrightarrow> \<not> promotable cm k) \<and> cm_activeCallId cm' = kInvalidCallId \<and>
        (\<forall>j. j \<noteq> i \<longrightarrow> cm_find j cm' = cm_find j cm)))"
proof -
  let ?r = "r\<lparr>cr_lastStatusCode := sipCode, cr_state := Disconnected\<rparr>"
  define c where "c = notifyStateChange i Disconnected (cm_put i ?r cm)"
  define c1 where "c1 = c\<lparr>cm_records := adel i (cm_records c), cm_transfers := tt_drop i (cm_transfers c),
      cm_backend := bk_releaseCall B (cm_backend c) i,
      cm_lingeringCalls := aput i (?r\<lparr>cr_state := Disconnected\<rparr>) (cm_lingeringCalls c)\<rparr>"
  define c2 where "c2 = promote_next B ord c1"
  have c: "cm_find i c = Some ?r" "cm_activeCallId c = i" "\<And>j. j \<noteq> i \<Longrightarrow> cm_find j c = cm_find j cm"
    using assms(2) by (simp_all add: c_def notifyStateChange_def)
  have c1: "cm_find j c1 = (if j = i then None else cm_find j cm)" for j
    using c(3) unfolding c1_def cm_find_gone by simp
  then have prom: "promotable c1 k \<longleftrightarrow> k \<noteq> i \<and> promotable cm k" for k
    by (simp add: promotable_def)
  have step: "cm' = singleShot (cm_lingerMs c2) (EraseLingering i) (cm_emit [CallsChanged] c2)"
    using assms(1) c(1,2) by (simp add: cm' cm_onCallState_def handleDisconnected_def Let_def c_def c1_def c2_def)
  have frame: "cm_lingeringCalls c2 = cm_lingeringCalls c1"
    by (simp add: c2_def promote_next_def split: option.split)
  then have ling: "map_of (cm_lingeringCalls cm') i = Some ?r" by (simp add: step c1_def)
  have find: "cm_find j cm' = cm_find j c2" "cm_activeCallId cm' = cm_activeCallId c2" for j
    by (simp_all add: step)
  from promote_next_cases[of ord B c1, OF assms(3), folded c2_def] show ?thesis
  proof (elim disjE conjE exE)
    assume "cm_activeCallId c2 = kInvalidCallId" "\<forall>j. \<not> promotable c1 j" "\<forall>j. cm_find j c2 = cm_find j c1"
    then show ?thesis using ling by (auto simp: find c1 prom lastStatusCode_def)
  next
    fix k s assume k: "promotable c1 k" "cm_find k c1 = Some s" "cm_activeCallId c2 = k"
      "\<forall>j. cm_find j c2 = (if j = k then Some (s\<lparr>cr_held := False\<rparr>) else cm_find j c1)"
    then have ki: "k \<noteq> i" "promotable cm k" by (simp_all add: prom)
    have "cr_state s = Confirmed" using k(1,2) by (simp add: promotable_Some)
    with k ki have "k \<noteq> i \<and> promotable cm k \<and> cm_activeCallId cm' = k \<and> \<not> isHeld k cm' \<and> isConfirmedState k cm' \<and>
        (\<forall>j. j \<noteq> i \<and> j \<noteq> k \<longrightarrow> cm_find j cm' = cm_find j cm)"
      by (simp add: find isHeld_def isConfirmedState_def c1)
    moreover have "cm_find i cm' = None" using k ki by (simp add: find c1)
    ultimately show ?thesis using ling by (auto simp: lastStatusCode_def)
  qed
qed

theorem disconnect_promotes_held_witness:
  "cm_activeCallId (cm_onCallState FakeB rev 1 Disconnected 200 two_calls) = 2"
  using disconnect_promotes_held[OF two_calls_records(1,3), of rev, OF set_rev refl, of FakeB 200]
  by (auto simp: promotable_Some two_calls_records) (auto simp: two_calls_def cm_new_def cm_find_def split: if_splits)


subsection \<open>Transfers\<close>

lemma hangupTransferLegs_backend:
  "hangupTransferLegs B ids cm =
   cm\<lparr>cm_backend := fold (\<lambda>i b. bk_hangup B b i) (filter (\<lambda>i. cm_find i cm \<noteq> None) ids) (cm_backend cm)\<rparr>"
proof (induction ids arbitrary: cm)
  case (Cons i ids)
  show ?case
  proof (cases "cm_find i cm = None")
    case True
    with Cons[of cm] show ?thesis by (simp add: hangupTransferLegs_def)
  next
    case False
    with Cons[of "cm\<lparr>cm_backend := bk_hangup B (cm_backend cm) i\<rparr>"] show ?thesis
      by (auto simp: hangupTransferLegs_def)
  qed
qed (simp add: hangupTransferLegs_def)

text \<open>C9. A pending transfer waits for its final report.  A provisional report changes nothing; a final
  2xx hangs up exactly the recorded legs that are still live, in order, and any other final answer
  keeps them; either way the transfer is settled, so that a repeated report does nothing, and no
  record changes.\<close>

theorem transfer_outcome:
  assumes "cm_transfers cm i = Some legs" "cm' = handleTransferStatus B i sc True cm"
  shows "handleTransferStatus B i sc' False cm = cm \<and>
    cm_backend cm' = (if 200 \<le> sc \<and> sc < 300
       then fold (\<lambda>j b. bk_hangup B b j) (filter (\<lambda>j. cm_find j cm \<noteq> None) legs) (cm_backend cm)
       else cm_backend cm) \<and>
    cm_transfers cm' = (cm_transfers cm)(i := None) \<and> cm_records cm' = cm_records cm \<and>
    handleTransferStatus B i sc' True cm' = cm'"
  using assms
  by (auto simp: handleTransferStatus_def tt_takeLegsToHangup_def tt_take_def hangupTransferLegs_backend Let_def cm_find_def)

lemma two_calls_transfer:
  "cm_transfers (snd (cm_attendedTransfer FakeB 1 2 two_calls)) 1 = Some [1, 2]"
  by (simp add: cm_attendedTransfer_def two_calls_records FakeB_def fb_attendedTransfer_def)
    (simp add: two_calls_simps both_confirmed_def tt_record_def)

theorem transfer_outcome_witness:
  "handleTransferStatus FakeB 1 100 False (snd (cm_attendedTransfer FakeB 1 2 two_calls)) =
   snd (cm_attendedTransfer FakeB 1 2 two_calls)"
  using transfer_outcome[OF two_calls_transfer refl] by blast

text \<open>The legs a transfer would hang up are what the user asked for: a blind transfer the backend
  accepted records the call itself, an attended one the call and the destination leg, and a refused
  or impossible one leaves no transfer behind.\<close>

theorem transfer_request:
  assumes "cm_blindTransfer B i uri cm = (ret, cm')" "cm_attendedTransfer B i j cm = (ret2, cm'')"
    and "cm_transfers cm i = None"
  shows "(ret \<longrightarrow> cm_find i cm \<noteq> None \<and> cm_transfers cm' = (cm_transfers cm)(i \<mapsto> [i])) \<and>
    (\<not> ret \<longrightarrow> cm_transfers cm' = cm_transfers cm) \<and>
    (ret2 \<longrightarrow> i \<noteq> j \<and> cm_find i cm \<noteq> None \<and> cm_find j cm \<noteq> None \<and> cm_transfers cm'' = (cm_transfers cm)(i \<mapsto> [i, j])) \<and>
    (\<not> ret2 \<longrightarrow> cm_transfers cm'' = cm_transfers cm) \<and>
    cm_records cm' = cm_records cm \<and> cm_records cm'' = cm_records cm"
  using assms
  by (auto simp: cm_blindTransfer_def cm_attendedTransfer_def Let_def tt_record_def tt_drop_def fun_upd_idem
      split: prod.splits bool.splits if_splits)

theorem transfer_request_witness:
  "cm_records (snd (cm_blindTransfer FakeB 2 ''sip:x'' two_calls)) = cm_records two_calls"
proof -
  obtain r1 a r2 b where t: "cm_blindTransfer FakeB 2 ''sip:x'' two_calls = (r1, a)"
    "cm_attendedTransfer FakeB 2 1 two_calls = (r2, b)" by fastforce
  have "cm_transfers two_calls 2 = None" by (simp add: two_calls_def cm_new_def)
  with transfer_request[OF t] t show ?thesis by simp
qed

subsection \<open>Retries run out\<close>

definition timer_weight :: "timer_action \<Rightarrow> nat" where
  "timer_weight a = (case a of EraseLingering i \<Rightarrow> 1 | RetryUnhold i n \<Rightarrow> Suc (nat n) | RetryBridge i j n \<Rightarrow> Suc (nat n))"

definition timer_load :: "'b call_manager \<Rightarrow> nat" where
  "timer_load cm = sum_list (map (timer_weight \<circ> snd) (cm_timers cm))"

text \<open>Timers fire one after the other, nothing else happening: the list says which one each time.\<close>

fun fires :: "'b isip_backend \<Rightarrow> nat list \<Rightarrow> 'b call_manager \<Rightarrow> bool" where
  "fires B [] cm \<longleftrightarrow> True"
| "fires B (n # ns) cm \<longleftrightarrow> n < length (cm_timers cm) \<and> fires B ns (fire_timer B n cm)"

lemma timers_requestUnhold:
  "timer_load (snd (requestUnhold B i n cm)) \<le> timer_load cm + nat n + (if 0 < n then 1 else 0)"
  by (auto simp: requestUnhold_def timer_load_def timer_weight_def Let_def split: option.split prod.split bool.split)

lemma timers_wireBridge: "timer_load (snd (wireBridge B i j n cm)) \<le> timer_load cm + nat n"
  by (auto simp: wireBridge_def timer_load_def timer_weight_def split: prod.split bool.split)

lemma fire_timer_load:
  assumes "n < length (cm_timers cm)"
  shows "timer_load (fire_timer B n cm) < timer_load cm"
proof -
  let ?a = "snd (cm_timers cm ! n)"
  let ?c = "cm\<lparr>cm_timers := take n (cm_timers cm) @ drop (Suc n) (cm_timers cm)\<rparr>"
  have "timer_load (run_action B ?a ?c) < timer_load ?c + timer_weight ?a"
  proof (cases ?a)
    case (EraseLingering i)
    then show ?thesis by (simp add: run_action_def eraseLingering_def timer_load_def timer_weight_def)
  next
    case (RetryUnhold i k)
    with timers_requestUnhold[of B i "k - 1" ?c] show ?thesis
      by (auto simp: run_action_def timer_weight_def split: if_splits)
  next
    case (RetryBridge i j k)
    with timers_wireBridge[of B i j k ?c] show ?thesis by (simp add: run_action_def timer_weight_def)
  qed
  moreover have "timer_load ?c + timer_weight ?a = timer_load cm"
    using arg_cong[OF id_take_nth_drop[OF assms], of "\<lambda>ts. sum_list (map (timer_weight \<circ> snd) ts)"]
    by (simp add: timer_load_def)
  ultimately show ?thesis using assms by (simp add: fire_timer_def)
qed

text \<open>C19. Unhold and bridge retries run out: however the timers are scheduled and whatever the backend
  answers, the number of timers that can fire before all is quiet is bounded by the retries left.\<close>

theorem retries_terminate:
  assumes "fires B ns cm"
  shows "length ns \<le> timer_load cm"
  using assms
proof (induction ns arbitrary: cm)
  case (Cons n ns)
  then show ?case using fire_timer_load[of n cm B] by (fastforce intro: less_le_trans)
qed simp

theorem retries_terminate_witness: "length [0::nat] \<le> timer_load (singleShot 400 (RetryBridge 1 2 4) two_calls)"
  by (rule retries_terminate[of FakeB]) simp


subsection \<open>Merging\<close>

text \<open>Merging the active call with one on hold starts by resuming the held one, and resuming makes it
  active, so the call the user was talking on is put on hold before the two are bridged: what is
  bridged afterwards is one call with media and one without.\<close>

theorem merge_holds_active:
  assumes "cm_find a cm = Some ra" "cr_state ra = Confirmed" "\<not> cr_held ra" "cm_activeCallId cm = a"
    and "a \<noteq> kInvalidCallId" "cm_find h cm = Some rh" "cr_state rh = Confirmed" "cr_held rh"
    and "bk_unhold B (cm_backend cm) h = (True, b)"
  shows "\<exists>cm'. mergeCalls B a h cm = (True, cm') \<and> isHeld a cm' \<and> \<not> isHeld h cm' \<and>
    cm_activeCallId cm' = h \<and> cm_backend cm' = snd (bk_hold B b a) \<and>
    (600, RetryBridge a h 5) \<in> set (cm_timers cm')"
proof -
  have "a \<noteq> h" using assms by auto
  with assms show ?thesis
    by (auto simp: mergeCalls_def isConfirmedState_def isHeld_def requestUnhold_def Let_def hold_previous_def)
qed

lemma two_calls_unhold: "\<exists>b. bk_unhold FakeB (cm_backend two_calls) 2 = (True, b)"
  by (simp add: two_calls_simps)

theorem merge_holds_active_witness:
  "\<exists>cm'. mergeCalls FakeB 1 2 two_calls = (True, cm') \<and> isHeld 1 cm'"
proof -
  obtain b where "bk_unhold FakeB (cm_backend two_calls) 2 = (True, b)" using two_calls_unhold by blast
  from merge_holds_active[OF two_calls_records(1) _ _ two_calls_records(3) _ two_calls_records(2) _ _ this]
  show ?thesis by (auto simp: kInvalidCallId_def)
qed

subsection \<open>Errors and signals\<close>

text \<open>An operation on a call the manager does not know is refused and changes nothing: not the
  records, not the transfers, not the backend.  Late events for a released call are ignored.\<close>

theorem unknown_call_refused:
  assumes "cm_find i cm = None"
  shows "cm_accept B i cm = (False, cm) \<and> cm_decline B i cm = (False, cm) \<and> forwardCall B i u cm = (False, cm) \<and>
    cm_hold B i cm = (False, cm) \<and> cm_unhold B i cm = (False, cm) \<and> cm_setMuted B i m cm = (False, cm) \<and>
    cm_sendDtmf B am i u cm = (False, cm) \<and> cm_blindTransfer B i u cm = (False, cm) \<and>
    cm_attendedTransfer B i j cm = (False, cm) \<and> cm_attendedTransfer B j i cm = (False, cm) \<and>
    mergeCalls B i j cm = (False, cm) \<and> mergeCalls B j i cm = (False, cm) \<and>
    cm_startRecording B i u cm = (False, cm) \<and> playAudioFile B i u m cm = (False, cm) \<and>
    cm_hangup B i cm = cm \<and> cm_onCallState B ord i st n cm = cm \<and>
    \<not> isHeld i cm \<and> \<not> isMuted i cm \<and> \<not> isRecording i cm \<and> \<not> isPlayingAudioFile i cm"
  using assms
  by (auto simp: cm_accept_def cm_decline_def forwardCall_def cm_hold_def cm_unhold_def requestUnhold_def
      cm_setMuted_def cm_sendDtmf_def cm_blindTransfer_def cm_attendedTransfer_def mergeCalls_def
      cm_startRecording_def playAudioFile_def cm_hangup_def cm_onCallState_def isHeld_def isMuted_def
      isRecording_def isPlayingAudioFile_def)

theorem unknown_call_refused_witness: "cm_hold FakeB 7 two_calls = (False, two_calls)"
proof -
  have "cm_find 7 two_calls = None" by (simp add: two_calls_def cm_new_def cm_find_def)
  from unknown_call_refused[OF this] show ?thesis by blast
qed

text \<open>Dialling, holding, resuming and muting announce nothing: the log of signals is as it was, so
  an observer of callsChanged does not see a call being added or a flag being toggled.\<close>

theorem commands_emit_nothing:
  "cm_signals (snd (makeCallFrom B am acc uri cm)) = cm_signals cm \<and>
   cm_signals (snd (cm_hold B i cm)) = cm_signals cm \<and>
   cm_signals (snd (cm_unhold B i cm)) = cm_signals cm \<and>
   cm_signals (snd (cm_setMuted B i m cm)) = cm_signals cm"
  by (auto simp: makeCallFrom_def cm_hold_def cm_setMuted_def cm_unhold_def Let_def
      split: option.split prod.split bool.split)

end
