(* ===== verification/AccountsProps.thy ===== *)
theory AccountsProps imports AccountsInv begin

text \<open>
  What the single operations of the accounts manager do, on the fake backend and the in-memory
  keychain: credentials, the default account, stale events, and three places where a failure or an
  identifier that is used again leaves the manager in a state its callers do not expect.
\<close>

subsection \<open>Credentials\<close>

lemma MemK_simps [simp]:
  "kc_get MemK = mk_get" "kc_set MemK = mk_set" "kc_erase MemK = mk_erase"
  by (simp_all add: MemK_def)

lemma FakeB_account_simps [simp]:
  "bk_isRunning FakeB = fb_running" "bk_addAccount FakeB = fb_addAccount"
  "bk_removeAccount FakeB = fb_removeAccount" "bk_sendMessage FakeB = fb_sendMessage"
  by (simp_all add: FakeB_def)

lemma fb_addAccount_running:
  "fb_running fb \<Longrightarrow> \<exists>fb'. fb_addAccount fb s = (fb_nextAccountId fb, fb') \<and>
     map_of (fb_accounts fb') (fb_nextAccountId fb) = Some s \<and> fb_running fb'"
  by (simp add: fb_addAccount_def Let_def logCmd_def)

lemma fake_next_valid: "fake_ok fb \<Longrightarrow> fb_nextAccountId fb \<noteq> kInvalidAccountId"
  by (auto simp: fake_ok_def kInvalidAccountId_def)

lemma fetch_password_keychain:
  "cache_ok K kok am \<Longrightarrow> fetch_password K ref am = (r, am') \<Longrightarrow> r = kc_get K (am_keychain am) ref"
  by (rule fetch_password_cache(2))

lemma register_uses_keychain:
  assumes inv: "am_ok fake_ok fake_accts MemK (\<lambda>_. True) am"
    and e: "find_entry i (am_entries am) = Some e" "\<not> en_registered e"
    and run: "fb_running (am_backend am)" and pw: "am_keychain am (acc_passwordRef (en_account e)) = Some pw"
  shows "\<exists>am'. registerAccount FakeB MemK i am = (True, am') \<and>
    backendIdFor i am' \<noteq> kInvalidAccountId \<and>
    map_of (fb_accounts (am_backend am')) (backendIdFor i am') = Some (settings_of (en_account e) pw)"
proof -
  obtain r am1 where f: "fetch_password MemK (acc_passwordRef (en_account e)) am = (r, am1)" by fastforce
  have "cache_ok MemK (\<lambda>_. True) am" using inv by (simp add: am_ok_def)
  with fetch_password_keychain[OF this f] pw have r: "r = Some pw" by (simp add: mk_get_def)
  have b1: "am_backend am1 = am_backend am" using fetch_password_frame[OF f] by simp
  obtain fb' where fb': "fb_addAccount (am_backend am) (settings_of (en_account e) pw)
      = (fb_nextAccountId (am_backend am), fb')"
    "map_of (fb_accounts fb') (fb_nextAccountId (am_backend am)) = Some (settings_of (en_account e) pw)"
    using fb_addAccount_running[OF run] by blast
  have valid: "fb_nextAccountId (am_backend am) \<noteq> kInvalidAccountId"
    using fake_next_valid inv by (simp add: am_ok_def reg_ok_def)
  show ?thesis
    using e f r b1 fb' valid run by (simp add: registerAccount_def Let_def backendIdFor_def set_entry_def)
qed

lemma unregister_entry:
  assumes inv: "am_ok fake_ok fake_accts MemK (\<lambda>_. True) am" and e: "find_entry i (am_entries am) = Some e"
  shows "find_entry i (am_entries (unregisterAccount FakeB i am)) = Some (e\<lparr>en_registered := False\<rparr>)"
    and "fb_running (am_backend (unregisterAccount FakeB i am)) = fb_running (am_backend am)"
proof -
  have reg: "reg_ok fake_ok fake_accts am" using inv by (simp add: am_ok_def)
  have "find_entry i (am_entries (unregisterAccount FakeB i am)) = Some (e\<lparr>en_registered := False\<rparr>) \<and>
      fb_running (am_backend (unregisterAccount FakeB i am)) = fb_running (am_backend am)"
  proof (cases "en_registered e")
    case True
    have in_e: "e \<in> set (am_entries am)" "acc_id (en_account e) = i" using find_entry_Some[OF e] by auto
    from fake_accounts.unregister_reg_ok_entry[OF reg in_e True] obtain bid b where
      b: "bk_removeAccount FakeB (am_backend am) bid = b" and
      eq: "unregisterAccount FakeB i am = am\<lparr>am_backend := snd b, am_backendIds := adel i (am_backendIds am),
        am_entries := map (\<lambda>e. if acc_id (en_account e) = i then e\<lparr>en_registered := False\<rparr> else e) (am_entries am),
        am_regStates := (am_regStates am)(i \<mapsto> Unregistered), am_regErrors := (am_regErrors am)(i := None)\<rparr>"
      by blast
    have ids: "ids_of (am_entries (unregisterAccount FakeB i am)) = ids_of (am_entries am)"
      by (auto simp: eq ids_of_def)
    have "e\<lparr>en_registered := False\<rparr> \<in> set (am_entries (unregisterAccount FakeB i am))"
      using imageI[OF in_e(1), of "\<lambda>e. if acc_id (en_account e) = i then e\<lparr>en_registered := False\<rparr> else e"] in_e(2)
      by (simp add: eq)
    then have "find_entry i (am_entries (unregisterAccount FakeB i am)) = Some (e\<lparr>en_registered := False\<rparr>)"
      using find_entry_in[of "am_entries (unregisterAccount FakeB i am)" "e\<lparr>en_registered := False\<rparr>"] reg in_e ids
      by (simp add: reg_ok_def)
    moreover have "fb_running (snd b) = fb_running (am_backend am)"
      using b by (auto simp: fb_removeAccount_def logCmd_def split: if_splits)
    ultimately show ?thesis by (simp add: eq)
  next
    case False
    have "find (\<lambda>e. acc_id (en_account e) = i \<and> en_registered e) (am_entries am) = None"
    proof (rule ccontr)
      assume "\<not> ?thesis"
      then obtain x where "x \<in> set (am_entries am)" "acc_id (en_account x) = i" "en_registered x"
        by (auto dest: find_SomeD)
      with False find_entry_Some[OF e] entry_unique[of "am_entries am" x e] reg show False
        by (auto simp: reg_ok_def)
    qed
    with e False show ?thesis by (simp add: fake_accounts.unregisterAccount_noop)
  qed
  then show "find_entry i (am_entries (unregisterAccount FakeB i am)) = Some (e\<lparr>en_registered := False\<rparr>)"
    and "fb_running (am_backend (unregisterAccount FakeB i am)) = fb_running (am_backend am)" by auto
qed

text \<open>A changed password takes effect at once: after a successful change the account is bound
  again in the backend with exactly the new password, if it was live or is to register at start.\<close>

theorem setPassword_rebinds:
  assumes "am_start_ok b db kc ops"
    and "find_entry i (am_entries (am_reach b db kc ops)) = Some e"
    and "acc_enabled (en_account e)" "en_registered e \<or> acc_registerOnStartup (en_account e)"
    and "fb_running (am_backend (am_reach b db kc ops))"
  shows "\<exists>am'. am_setPassword FakeB MemK i pw (am_reach b db kc ops) = (True, am') \<and>
    map_of (fb_accounts (am_backend am')) (backendIdFor i am') = Some (settings_of (en_account e) pw)"
proof -
  let ?am = "am_reach b db kc ops" and ?ref = "acc_passwordRef (en_account e)"
  let ?am1 = "?am\<lparr>am_keychain := (am_keychain ?am)(?ref \<mapsto> pw), am_passwordCache := (am_passwordCache ?am)(?ref \<mapsto> pw)\<rparr>"
  have inv: "am_ok fake_ok fake_accts MemK (\<lambda>_. True) ?am" using am_reach_ok[OF assms(1)] .
  then have inv1: "am_ok fake_ok fake_accts MemK (\<lambda>_. True) ?am1"
    by (auto simp: am_ok_def reg_ok_def cache_ok_def am_list_def mk_get_def)
  define am2 where "am2 = (if en_registered e then unregisterAccount FakeB i ?am1 else ?am1)"
  have e1: "find_entry i (am_entries ?am1) = Some e" using assms(2) by simp
  have inv2: "am_ok fake_ok fake_accts MemK (\<lambda>_. True) am2"
    using inv1 fake_accounts.unregister_am_ok by (simp add: am2_def)
  have e2: "find_entry i (am_entries am2) = Some (e\<lparr>en_registered := False\<rparr>)" "fb_running (am_backend am2)"
    using unregister_entry[OF inv1 e1] assms(2,5) by (simp_all add: am2_def)
  have k2: "am_keychain am2 ?ref = Some pw"
    by (simp add: am2_def unregisterAccount_same_cache)
  have "am_setPassword FakeB MemK i pw ?am = (True, snd (registerAccount FakeB MemK i am2))"
    using assms(2-4) by (auto simp: am_setPassword_def mk_set_def am2_def Let_def)
  with register_uses_keychain[OF inv2 e2(1) _ e2(2), of pw] k2 show ?thesis by auto
qed

theorem setPassword_rebinds_witness:
  "\<exists>am'. am_setPassword FakeB MemK 1 ''new'' (am_reach running_fake empty_db (\<lambda>_. None) example_ops) = (True, am')"
proof -
  have e: "find_entry 1 (am_entries (am_reach running_fake empty_db (\<lambda>_. None) example_ops)) =
      Some \<lparr>en_account = default_account\<lparr>acc_username := ''alice'', acc_passwordRef := ''ref'', acc_id := 1\<rparr>, en_registered = True\<rparr>"
    and r: "fb_running (am_backend (am_reach running_fake empty_db (\<lambda>_. None) example_ops))"
    by code_simp+
  show ?thesis
    using setPassword_rebinds[OF example_start_ok e, of "''new''"] r by (auto simp: default_account_def)
qed

subsection \<open>The default account\<close>

lemma setDefault_True:
  assumes "am_setDefault f i am = (True, am')"
  shows "find_entry i (am_entries am) \<noteq> None" "db_tx (am_db am) = None"
    "am' = am\<lparr>am_db := default_rows i (am_db am),
              am_entries := map (\<lambda>e. e\<lparr>en_account := (en_account e)\<lparr>acc_isDefault := (acc_id (en_account e) = i)\<rparr>\<rparr>) (am_entries am)\<rparr>"
  using assms by (auto simp: am_setDefault_def sql_begin_def sql_update_accounts_def sql_commit_def
      sql_rollback_def default_rows_def split: if_splits)

text \<open>Making an account the default leaves it the only default one, in memory and in the
  database, and it is the account an unqualified call uses as long as it is enabled.\<close>

theorem setDefault_exact:
  assumes "am_start_ok b db kc ops"
    and "am_setDefault f i (am_reach b db kc ops) = (True, am')"
  shows "(\<forall>a \<in> set (am_list am'). acc_isDefault a \<longleftrightarrow> acc_id a = i) \<and>
    (\<forall>j r. map_of (t_accounts (db_tables (am_db am'))) j = Some r \<longrightarrow>
       acc_isDefault (account_of_row j r) \<longleftrightarrow> j = i) \<and>
    (\<exists>a. am_find i am' = Some a \<and> (acc_enabled a \<longrightarrow> defaultAccountId am' = i))"
proof -
  let ?am = "am_reach b db kc ops"
  have inv: "am_ok fake_ok fake_accts MemK (\<lambda>_. True) ?am" using am_reach_ok[OF assms(1)] .
  note sd = setDefault_True[OF assms(2)]
  have inv': "am_ok fake_ok fake_accts MemK (\<lambda>_. True) am'"
    using fake_accounts.setDefault_am_ok[OF inv, of f i] assms(2) by simp
  have mem: "acc_isDefault a \<longleftrightarrow> acc_id a = i" if "a \<in> set (am_list am')" for a
    using that by (auto simp: sd(3) am_list_def)
  have rows: "acc_isDefault (account_of_row j r) \<longleftrightarrow> j = i"
    if r: "map_of (t_accounts (db_tables (am_db am'))) j = Some r" for j r
  proof -
    have "db_tx (am_db am') = None" using sd(2) by (simp add: sd(3) default_rows_def)
    moreover obtain a where "a \<in> set (am_list am')" "acc_id a = j"
      using inv' ahas_Some[OF r] by (auto simp: am_ok_def rows_ok_def)
    ultimately have "account_of_row j r = stored a" "a \<in> set (am_list am')" "acc_id a = j"
      using inv' r by (auto simp: am_ok_def rows_ok_def)
    moreover have "acc_isDefault (stored a) = acc_isDefault a"
      by (simp add: stored_def account_of_row_def row_of_account_def)
    ultimately show ?thesis using mem by auto
  qed
  obtain e where e: "find_entry i (am_entries ?am) = Some e" using sd(1) by auto
  let ?g = "\<lambda>e. e\<lparr>en_account := (en_account e)\<lparr>acc_isDefault := (acc_id (en_account e) = i)\<rparr>\<rparr>"
  have "find_entry i (map ?g es) = map_option ?g (find_entry i es)" for es
    by (induction es) (auto simp: find_entry_def)
  then have f: "find_entry i (am_entries am') = Some (?g e)" by (simp add: sd(3) e)
  have "defaultAccountId am' = i" if en: "acc_enabled (en_account (?g e))"
  proof -
    have "find (\<lambda>e. acc_isDefault (en_account e) \<and> acc_enabled (en_account e)) (am_entries am') \<noteq> None"
    proof -
      have "?g e \<in> set (am_entries am')" "acc_isDefault (en_account (?g e)) \<and> acc_enabled (en_account (?g e))"
        using find_entry_Some[OF f] en by auto
      then show ?thesis unfolding find_None_iff by blast
    qed
    then obtain x where x: "find (\<lambda>e. acc_isDefault (en_account e) \<and> acc_enabled (en_account e)) (am_entries am') = Some x"
      by blast
    have "en_account x \<in> set (am_list am')" "acc_isDefault (en_account x)"
      using find_SomeD[OF x] by (simp_all add: am_list_def)
    then have "acc_id (en_account x) = i" using mem by blast
    with x show ?thesis by (simp add: defaultAccountId_def)
  qed
  with mem rows f show ?thesis by (auto simp: am_find_def)
qed

theorem setDefault_exact_witness:
  "\<exists>am'. am_setDefault (\<lambda>_. True) 1 (am_reach running_fake empty_db (\<lambda>_. None) example_ops) = (True, am') \<and>
    (\<forall>a \<in> set (am_list am'). acc_isDefault a \<longleftrightarrow> acc_id a = 1)"
proof -
  have "fst (am_setDefault (\<lambda>_. True) 1 (am_reach running_fake empty_db (\<lambda>_. None) example_ops))"
    by code_simp
  then obtain am' where "am_setDefault (\<lambda>_. True) 1 (am_reach running_fake empty_db (\<lambda>_. None) example_ops) = (True, am')"
    by (metis eq_fst_iff)
  with setDefault_exact[OF example_start_ok this] show ?thesis by blast
qed

text \<open>A COMMIT that fails is never rolled back: the transaction stays open, and from then on
  every change of the default account fails, whatever the database does later.\<close>

theorem setDefault_commit_stuck:
  assumes "find_entry i (am_entries am) \<noteq> None" "db_tx (am_db am) = None"
    and "f 0" "f 1" "f 2" "f 3" "\<not> f 4"
  shows "\<exists>am'. am_setDefault f i am = (False, am') \<and> am_list am' = am_list am \<and>
    (\<forall>f' j. am_setDefault f' j am' = (False, am'))"
proof -
  let ?am' = "am\<lparr>am_db := (default_rows i (am_db am))\<lparr>db_tx := Some (db_tables (am_db am))\<rparr>\<rparr>"
  have first: "am_setDefault f i am = (False, ?am')"
    using assms by (auto simp: am_setDefault_def sql_begin_def sql_update_accounts_def sql_commit_def
        default_rows_def)
  moreover have "am_setDefault f' j ?am' = (False, ?am')" for f' j
    by (simp add: am_setDefault_def sql_begin_def)
  ultimately show ?thesis by (auto simp: am_list_def)
qed

theorem setDefault_commit_stuck_witness:
  "\<exists>am'. am_setDefault (\<lambda>n. n \<noteq> 4) 1 (am_reach running_fake empty_db (\<lambda>_. None) example_ops) = (False, am') \<and>
    (\<forall>f' j. am_setDefault f' j am' = (False, am'))"
proof -
  have "find_entry 1 (am_entries (am_reach running_fake empty_db (\<lambda>_. None) example_ops)) \<noteq> None"
    "db_tx (am_db (am_reach running_fake empty_db (\<lambda>_. None) example_ops)) = None"
    by code_simp+
  from setDefault_commit_stuck[OF this, of "\<lambda>n. n \<noteq> 4"] show ?thesis by auto
qed

subsection \<open>Removal and stale state\<close>

text \<open>Removing an account erases its password before its row: when the DELETE fails the account
  is still there, in memory and in the database, but can never register again.\<close>

theorem remove_failed_loses_password:
  assumes "am_start_ok b db kc ops" "\<not> f 0"
    and "find_entry i (am_entries (am_reach b db kc ops)) = Some e"
  shows "\<exists>am'. am_remove FakeB MemK f i (am_reach b db kc ops) = (False, am') \<and>
    am_find i am' = Some (en_account e) \<and> am_db am' = am_db (am_reach b db kc ops) \<and>
    am_keychain am' (acc_passwordRef (en_account e)) = None \<and>
    \<not> fst (registerAccount FakeB MemK i am')"
proof -
  let ?am = "am_reach b db kc ops" and ?ref = "acc_passwordRef (en_account e)"
  have inv: "am_ok fake_ok fake_accts MemK (\<lambda>_. True) ?am" using am_reach_ok[OF assms(1)] .
  define am1 where "am1 = (if en_registered e then unregisterAccount FakeB i ?am else ?am)"
  let ?am' = "am1\<lparr>am_keychain := (am_keychain am1)(?ref := None),
                  am_passwordCache := (am_passwordCache am1)(?ref := None)\<rparr>"
  have e1: "find_entry i (am_entries am1) = Some (e\<lparr>en_registered := False\<rparr>)"
    using unregister_entry(1)[OF inv assms(3)] assms(3) by (simp add: am1_def)
  have rem: "am_remove FakeB MemK f i ?am = (False, ?am')"
    using assms(2,3) by (auto simp: am_remove_def am1_def deleteRow_def sql_delete_account_def mk_erase_def Let_def)
  have "\<not> fst (registerAccount FakeB MemK i ?am')"
    using e1 by (simp add: registerAccount_def fetch_password_def mk_get_def)
  moreover have "am_db am1 = am_db ?am"
    by (simp add: am1_def unregisterAccount_same_cache)
  ultimately show ?thesis using rem e1 by (simp add: am_find_def)
qed

theorem remove_failed_loses_password_witness:
  "\<exists>am'. am_remove FakeB MemK (\<lambda>_. False) 1 (am_reach running_fake empty_db (\<lambda>_. None) example_ops) = (False, am') \<and>
    \<not> fst (registerAccount FakeB MemK 1 am')"
proof -
  have e: "find_entry 1 (am_entries (am_reach running_fake empty_db (\<lambda>_. None) example_ops)) =
      Some \<lparr>en_account = default_account\<lparr>acc_username := ''alice'', acc_passwordRef := ''ref'', acc_id := 1\<rparr>, en_registered = True\<rparr>"
    by code_simp
  show ?thesis using remove_failed_loses_password[OF example_start_ok _ e, of "\<lambda>_. False"] by auto
qed

lemma am_mwi_remove: "am_remove B K f i am = (r, am') \<Longrightarrow> am_mwi am' = am_mwi am"
  by (auto simp: am_remove_def deleteRow_def Let_def unregisterAccount_same_cache
      split: option.splits prod.splits bool.splits if_splits)

lemma registerAccount_mwi: "am_mwi (snd (registerAccount B K i am)) = am_mwi am"
  using registerAccount_frame[of am B K i] by (simp add: registers_only_def)

lemma am_mwi_add: "am_add B K f ref a pw am = (i, am') \<Longrightarrow> am_mwi am' = am_mwi am"
  by (auto simp: am_add_def insertRow_def Let_def registerAccount_mwi
      split: option.splits prod.splits bool.splits if_splits)

text \<open>Removing an account keeps its voicemail state, and SQLite hands out the largest id again:
  a new account that gets the id of a removed one shows the removed account's messages.\<close>

theorem mwi_survives_reuse:
  assumes "am_remove B K f i am = (True, am1)" "am_add B K g ref a pw am1 = (i, am2)"
  shows "mwiStateOf i am2 = mwiStateOf i am"
  using am_mwi_remove[OF assms(1)] am_mwi_add[OF assms(2)] by (simp add: mwiStateOf_def)

theorem mwi_survives_reuse_witness:
  "\<exists>am1 am2. am_remove FakeB MemK (\<lambda>_. True) 1
      (am_reach running_fake empty_db (\<lambda>_. None) (example_ops @ [AmEvent (OnMwi 1 5 0 True)])) = (True, am1) \<and>
    am_add FakeB MemK (\<lambda>_. True) ''other'' default_account ''pw'' am1 = (1, am2) \<and>
    mw_newMessages (mwiStateOf 1 am2) = 5"
proof -
  let ?am = "am_reach running_fake empty_db (\<lambda>_. None) (example_ops @ [AmEvent (OnMwi 1 5 0 True)])"
  obtain r am1 where rem: "am_remove FakeB MemK (\<lambda>_. True) 1 ?am = (r, am1)" by fastforce
  obtain j am2 where add: "am_add FakeB MemK (\<lambda>_. True) ''other'' default_account ''pw'' am1 = (j, am2)" by fastforce
  have "fst (am_remove FakeB MemK (\<lambda>_. True) 1 ?am)"
    "fst (am_add FakeB MemK (\<lambda>_. True) ''other'' default_account ''pw'' (snd (am_remove FakeB MemK (\<lambda>_. True) 1 ?am))) = 1"
    "mw_newMessages (mwiStateOf 1 ?am) = 5"
    by code_simp+
  with rem add have "r" "j = 1" "mw_newMessages (mwiStateOf 1 ?am) = 5" by simp_all
  with mwi_survives_reuse[of FakeB MemK "\<lambda>_. True" 1 ?am am1] rem add show ?thesis by auto
qed

text \<open>Events for a registration that has been dropped are ignored: after an account is
  unregistered, nothing the backend still delivers for its old backend id changes the manager.\<close>

theorem stale_account_events_ignored:
  assumes "am_start_ok b db kc ops" "backendIdFor i (am_reach b db kc ops) = bid" "bid \<noteq> kInvalidAccountId"
    and "ev \<in> {OnRegState bid active sipCode reason, OnMwi bid n old lamp, OnInstantMessage bid fromUri body}"
  shows "am_event ev (unregisterAccount FakeB i (am_reach b db kc ops)) =
    unregisterAccount FakeB i (am_reach b db kc ops)"
proof -
  let ?am = "am_reach b db kc ops" and ?am' = "unregisterAccount FakeB i (am_reach b db kc ops)"
  have reg: "reg_ok fake_ok fake_accts ?am" using am_reach_ok[OF assms(1)] by (simp add: am_ok_def)
  have i: "map_of (am_backendIds ?am) i = Some bid"
    using assms(2,3) by (auto simp: backendIdFor_def split: option.splits)
  then obtain e where e: "e \<in> set (am_entries ?am)" "acc_id (en_account e) = i" "en_registered e"
    using reg by (auto simp: reg_ok_def ids_of_def ahas_def)
  obtain x where ids: "am_backendIds ?am' = adel i (am_backendIds ?am)"
    using fake_accounts.unregister_reg_ok_entry[OF reg e] by auto
  have reg': "reg_ok fake_ok fake_accts ?am'" using fake_accounts.unregisterAccount_reg_ok(1)[OF reg] .
  have "accountIdForBackend bid ?am' = kInvalidAccountId"
  proof (rule ccontr)
    assume ne: "accountIdForBackend bid ?am' \<noteq> kInvalidAccountId"
    then have m: "map_of (am_backendIds ?am') (accountIdForBackend bid ?am') = Some bid"
      using accountIdForBackend_valid[OF reg' refl] by blast
    then have "map_of (am_backendIds ?am) (accountIdForBackend bid ?am') = Some bid" "accountIdForBackend bid ?am' \<noteq> i"
      by (auto simp: ids split: if_splits)
    with i reg show False by (auto simp: reg_ok_def)
  qed
  with assms(4) show ?thesis
    by (auto simp: am_event_def am_onRegState_def am_onMwi_def am_onInstantMessage_def)
qed

theorem stale_account_events_ignored_witness:
  "am_event (OnMwi 1 5 0 True) (unregisterAccount FakeB 1 (am_reach running_fake empty_db (\<lambda>_. None) example_ops)) =
    unregisterAccount FakeB 1 (am_reach running_fake empty_db (\<lambda>_. None) example_ops)"
proof -
  have "backendIdFor 1 (am_reach running_fake empty_db (\<lambda>_. None) example_ops) = 1" by code_simp
  from stale_account_events_ignored[OF example_start_ok this] show ?thesis
    by (simp add: kInvalidAccountId_def)
qed

end
