(* ===== verification/CoreSystem.thy ===== *)
theory CoreSystem imports CallsProps AccountsProps "HOL-Library.Multiset" begin

text \<open>
  The core as one system, over any backend: \<open>core/CoreSipGraph\<close> wires the accounts manager and the call
  manager to one backend through \<open>sipbackend/ListenerFanout.h\<close>, accounts first.  The locale \<open>core_env\<close>
  says what the two need of the backend together, and holds the invariant of the whole with a lemma for
  each kind of step; \<open>PhoneCore\<close> interprets it on the fake backend and \<open>PjsipCore\<close> on the PJSIP adapter.
\<close>

subsection \<open>What account operations do to the backend\<close>

inductive acct_moves :: "'b isip_backend \<Rightarrow> 'b \<Rightarrow> 'b \<Rightarrow> bool" for B where
  am_refl: "acct_moves B b b"
| am_add: "acct_moves B b b' \<Longrightarrow> acct_moves B b (snd (bk_addAccount B b' s))"
| am_remove: "acct_moves B b b' \<Longrightarrow> acct_moves B b (snd (bk_removeAccount B b' a))"
| am_send: "acct_moves B b b' \<Longrightarrow> acct_moves B b (snd (bk_sendMessage B b' a u t))"

lemma acct_moves_trans: "acct_moves B b c \<Longrightarrow> acct_moves B a b \<Longrightarrow> acct_moves B a c"
  by (induction rule: acct_moves.induct) (auto intro: acct_moves.intros)

lemma fetch_password_backend: "am_backend (snd (fetch_password K ref am)) = am_backend am"
  by (simp add: fetch_password_def split: option.split)

lemma registerAccount_moves: "acct_moves B (am_backend am) (am_backend (snd (registerAccount B K i am)))"
proof (cases "find_entry i (am_entries am)")
  case (Some e)
  obtain r am1 where p: "fetch_password K (acc_passwordRef (en_account e)) am = (r, am1)" by fastforce
  then have same: "am_backend am1 = am_backend am" using fetch_password_backend by (metis snd_conv)
  have "acct_moves B (am_backend am) (snd (bk_addAccount B (am_backend am) s))" for s
    by (intro acct_moves.intros)
  then show ?thesis
    using Some p same
    by (auto simp: registerAccount_def set_entry_def Let_def am_refl split: option.split prod.split) (metis snd_conv)+
qed (simp add: registerAccount_def am_refl)

lemma unregisterAccount_moves: "acct_moves B (am_backend am) (am_backend (unregisterAccount B i am))"
  by (auto simp: unregisterAccount_def Let_def intro: acct_moves.intros split: option.split)

lemma registerAccount_moves_from:
  "am_backend a = b \<Longrightarrow> acct_moves B b (am_backend (snd (registerAccount B K i a)))"
  using registerAccount_moves by blast

lemma unregisterAccount_moves_from: "am_backend a = b \<Longrightarrow> acct_moves B b (am_backend (unregisterAccount B i a))"
  using unregisterAccount_moves by blast

lemma fold_moves:
  assumes "\<And>x am. acct_moves B (am_backend am) (am_backend (g x am))"
  shows "acct_moves B (am_backend am) (am_backend (fold g xs am))"
  using assms by (induction xs arbitrary: am) (auto intro: am_refl acct_moves_trans)

lemma deleteRow_backend: "deleteRow f i a = (r, a') \<Longrightarrow> am_backend a' = am_backend a"
  by (auto simp: deleteRow_def split: prod.splits)

lemma am_apply_moves: "acct_moves B (am_backend am) (am_backend (am_apply B K op am))"
proof (cases op)
  case (AmAdd f ref a pw)
  show ?thesis
    unfolding AmAdd
    by (auto simp: am_add_def insertRow_def Let_def am_refl split: option.split prod.split bool.split
        intro: registerAccount_moves_from)
next
  case (AmRemove f i)
  show ?thesis
    unfolding AmRemove
    by (auto simp: am_remove_def Let_def am_refl split: option.split prod.split bool.split
        dest!: deleteRow_backend intro: unregisterAccount_moves_from)
next
  case (AmUpdate f a)
  show ?thesis
    unfolding AmUpdate
    by (auto simp: am_update_def set_entry_def Let_def am_refl unregisterAccount_moves_from registerAccount_moves_from
        split: option.split prod.split bool.split intro!: acct_moves_trans[OF registerAccount_moves] intro: unregisterAccount_moves_from am_refl)
next
  case (AmSetDefault f i)
  show ?thesis
    unfolding AmSetDefault by (auto simp: am_setDefault_def am_refl split: prod.split bool.split)
next
  case (AmSetEnabled f i v)
  show ?thesis
    unfolding AmSetEnabled
    by (auto simp: am_setEnabled_def set_entry_def Let_def am_refl unregisterAccount_moves_from registerAccount_moves_from
        split: option.split prod.split bool.split intro!: acct_moves_trans[OF registerAccount_moves]
        intro: unregisterAccount_moves_from registerAccount_moves_from am_refl)
next
  case (AmSetPassword i pw)
  show ?thesis
    unfolding AmSetPassword
    by (auto simp: am_setPassword_def Let_def am_refl unregisterAccount_moves_from registerAccount_moves_from
        split: option.split prod.split bool.split intro!: acct_moves_trans[OF registerAccount_moves]
        intro: unregisterAccount_moves_from registerAccount_moves_from am_refl)
next
  case AmStartup
  show ?thesis
    unfolding AmStartup am_apply.simps registerStartupAccounts_def
    by (rule fold_moves) (simp add: registerAccount_moves am_refl)
next
  case AmReregister
  show ?thesis
    unfolding AmReregister am_apply.simps reregisterAllEnabled_def Let_def
    by (rule fold_moves) (blast intro: acct_moves_trans registerAccount_moves unregisterAccount_moves)
next
  case (AmSend i to body)
  have "acct_moves B (am_backend am) (snd (bk_sendMessage B (am_backend am) a to body))" for a
    by (intro acct_moves.intros)
  then show ?thesis
    unfolding AmSend by (auto simp: sendInstantMessage_def Let_def am_refl split: prod.split) (metis snd_conv)
next
  case (AmEvent ev)
  show ?thesis
    unfolding AmEvent
    by (cases ev) (simp_all add: am_event_def am_onRegState_def am_onMwi_def am_onInstantMessage_def
        updateMwi_def am_emit_def Let_def am_refl)
qed (simp_all add: registerAccount_moves unregisterAccount_moves)


subsection \<open>The two managers on one backend\<close>

definition announced_list :: "listener_event \<Rightarrow> call_id list" where
  "announced_list ev = (case ev of OnIncomingCall a c u d \<Rightarrow> [c] | _ \<Rightarrow> [])"

lemma set_announced_list [simp]: "set (announced_list ev) = announced_in ev"
  by (simp add: announced_list_def announced_in_def split: listener_event.split)

datatype cm_op =
    CmCall string
  | CmCallFrom account_id string
  | CmAccept call_id
  | CmDecline call_id
  | CmForward call_id string
  | CmHold call_id
  | CmUnhold call_id
  | CmMerge call_id call_id
  | CmStartRecording call_id string
  | CmStopRecording call_id
  | CmPlay call_id string bool
  | CmStopPlay call_id
  | CmBlindTransfer call_id string
  | CmAttendedTransfer call_id call_id
  | CmHangup call_id
  | CmMute call_id bool
  | CmDtmf call_id string

fun cm_apply :: "'b isip_backend \<Rightarrow> ('c, 'k) accounts_manager \<Rightarrow> cm_op \<Rightarrow> 'b call_manager \<Rightarrow> 'b call_manager" where
  "cm_apply B am (CmCall u) cm = snd (makeCallDefault B (Some am) u cm)"
| "cm_apply B am (CmCallFrom a u) cm = snd (makeCallFrom B (Some am) a u cm)"
| "cm_apply B am (CmAccept i) cm = snd (cm_accept B i cm)"
| "cm_apply B am (CmDecline i) cm = snd (cm_decline B i cm)"
| "cm_apply B am (CmForward i u) cm = snd (forwardCall B i u cm)"
| "cm_apply B am (CmHold i) cm = snd (cm_hold B i cm)"
| "cm_apply B am (CmUnhold i) cm = snd (cm_unhold B i cm)"
| "cm_apply B am (CmMerge i j) cm = snd (mergeCalls B i j cm)"
| "cm_apply B am (CmStartRecording i u) cm = snd (cm_startRecording B i u cm)"
| "cm_apply B am (CmStopRecording i) cm = snd (cm_stopRecording B i cm)"
| "cm_apply B am (CmPlay i u l) cm = snd (playAudioFile B i u l cm)"
| "cm_apply B am (CmStopPlay i) cm = snd (stopAudioFile B i cm)"
| "cm_apply B am (CmBlindTransfer i u) cm = snd (cm_blindTransfer B i u cm)"
| "cm_apply B am (CmAttendedTransfer i j) cm = snd (cm_attendedTransfer B i j cm)"
| "cm_apply B am (CmHangup i) cm = cm_hangup B i cm"
| "cm_apply B am (CmMute i m) cm = snd (cm_setMuted B i m cm)"
| "cm_apply B am (CmDtmf i u) cm = snd (cm_sendDtmf B (Some am) i u cm)"

text \<open>The two managers hold a pointer to one backend: each copy of it is written back after a step.\<close>

record ('b, 'k) core_state =
  co_am :: "('b, 'k) accounts_manager"
  co_cm :: "'b call_manager"

definition on_accounts ::
  "(('b, 'k) accounts_manager \<Rightarrow> ('b, 'k) accounts_manager) \<Rightarrow> ('b, 'k) core_state \<Rightarrow> ('b, 'k) core_state" where
  "on_accounts f w = (let am = f (co_am w)
     in \<lparr>co_am = am, co_cm = (co_cm w)\<lparr>cm_backend := am_backend am\<rparr>\<rparr>)"

definition on_calls ::
  "('b call_manager \<Rightarrow> 'b call_manager) \<Rightarrow> ('b, 'k) core_state \<Rightarrow> ('b, 'k) core_state" where
  "on_calls f w = (let cm = f (co_cm w)
     in \<lparr>co_am = (co_am w)\<lparr>am_backend := cm_backend cm\<rparr>, co_cm = cm\<rparr>)"

text \<open>\<open>ListenerFanout\<close>: the accounts manager hears of an event before the call manager does.\<close>

definition fanout ::
  "'b isip_backend \<Rightarrow> (call_id list \<Rightarrow> call_id list) \<Rightarrow> listener_event \<Rightarrow> ('b, 'k) core_state \<Rightarrow> ('b, 'k) core_state" where
  "fanout B ord ev w =
     (let w1 = on_accounts (am_event ev) w in on_calls (cm_event B (Some (co_am w1)) ord ev) w1)"

definition core_new :: "'b \<Rightarrow> database \<Rightarrow> 'k \<Rightarrow> ('b, 'k) core_state" where
  "core_new b db kc = \<lparr>co_am = am_new True b db kc, co_cm = cm_new b\<rparr>"

text \<open>A step of the backend alone: both managers see its new state.\<close>

definition on_backend :: "'b \<Rightarrow> ('b, 'k) core_state \<Rightarrow> ('b, 'k) core_state" where
  "on_backend b = on_calls (\<lambda>cm. cm\<lparr>cm_backend := b\<rparr>)"

definition core_backend :: "('b, 'k) core_state \<Rightarrow> 'b" where
  "core_backend w = cm_backend (co_cm w)"

text \<open>Replacing the backend by one that kept its calls, or gained one that is not announced yet.\<close>

lemma swap_backend_ok:
  assumes inv: "cm_ok ok calls minted other U v cm" and b: "ok b"
    and N: "N \<inter> minted (cm_backend cm) = {}" "calls (cm_backend cm) \<subseteq> minted (cm_backend cm)"
    and calls: "calls b = calls (cm_backend cm) \<union> N" "minted b = minted (cm_backend cm) \<union> N" "other b = v'"
  shows "cm_ok ok calls minted other (U \<union> N) v' (cm\<lparr>cm_backend := b\<rparr>)"
proof -
  note p = cm_ok_parts[OF inv]
  show ?thesis
    unfolding cm_ok_def
  proof (intro conjI, goal_cases)
    case 4 then show ?case using p(4) calls by auto
  next
    case 5 then show ?case using p(13) calls N by (auto simp: owned_def)
  next
    case 7 then show ?case using p(5) calls N by auto
  next
    case 13 then show ?case using p(11) calls N by auto
  qed (use p(1,2,3,6-10,12) b calls in simp_all)
qed

lemma am_ok_backend:
  assumes "am_ok ok accts K kok am" "ok b" "accts b = accts (am_backend am)"
  shows "am_ok ok accts K kok (am\<lparr>am_backend := b\<rparr>)"
  using assms by (simp add: am_ok_def reg_ok_def cache_ok_def am_list_def)

text \<open>Nothing but a timer takes a call off the screen, and timers are only added.\<close>

definition lingers_on :: "'b call_manager \<Rightarrow> 'b call_manager \<Rightarrow> bool" where
  "lingers_on cm cm' \<longleftrightarrow> cm_lingeringCalls cm' = cm_lingeringCalls cm \<and> set (cm_timers cm) \<subseteq> set (cm_timers cm')"

lemma lingers_on_timed: "lingers_on cm cm' \<Longrightarrow> linger_timed cm \<Longrightarrow> linger_timed cm'"
  by (auto simp: lingers_on_def linger_timed_def)

lemma lingers_requestUnhold: "lingers_on cm (snd (requestUnhold B i n cm))"
  by (auto simp: lingers_on_def requestUnhold_def Let_def split: option.split prod.split bool.split)

lemma lingers_transfer_legs: "lingers_on cm (hangupTransferLegs B ids cm)"
  by (simp add: lingers_on_def hangupTransferLegs_backend)

lemma cm_apply_lingers: "lingers_on cm (cm_apply B am op cm)"
proof (cases op)
  case (CmMerge i j)
  obtain q c where u: "requestUnhold B j 5 cm = (q, c)" by fastforce
  then have "lingers_on cm c" using lingers_requestUnhold[of cm B j 5] by (simp only: snd_conv)
  with u show ?thesis
    unfolding CmMerge by (auto simp: mergeCalls_def wireBridge_def lingers_on_def split: prod.split bool.split)
qed (use lingers_requestUnhold[of cm B _ 5] in \<open>auto simp: lingers_on_def cm_unhold_def
  makeCallDefault_def makeCallFrom_def cm_accept_def cm_decline_def forwardCall_def cm_hold_def
  cm_startRecording_def cm_stopRecording_def playAudioFile_def stopAudioFile_def cm_blindTransfer_def
  cm_attendedTransfer_def cm_hangup_def cm_setMuted_def cm_sendDtmf_def Let_def
  split: option.split prod.split bool.split\<close>)

lemma promote_next_lingers: "lingers_on cm (promote_next B ord cm)"
proof (cases "find (promotable cm) (ord (map fst (cm_records cm)))")
  case (Some i)
  then show ?thesis
    using lingers_requestUnhold[of "cm\<lparr>cm_activeCallId := i\<rparr>" B i 3] by (simp add: promote_next_def lingers_on_def)
qed (simp add: promote_next_def lingers_on_def)

lemma promote_if_lingers: "lingers_on c (if P then promote_next B ord c else c)"
  by (cases P) (simp_all add: promote_next_lingers, simp add: lingers_on_def)

lemma linger_entry_timed:
  assumes "linger_timed cm" "lingers_on c1 c2" "cm_timers c1 = cm_timers cm"
    and "cm_lingeringCalls c1 = aput i r (cm_lingeringCalls cm)"
  shows "linger_timed (singleShot n (EraseLingering i) (cm_emit ss c2))"
proof -
  have "EraseLingering j \<in> snd ` set (cm_timers c2)" if "ahas (cm_lingeringCalls cm) j" for j
    using that assms unfolding linger_timed_def lingers_on_def by (metis image_mono subsetD)
  with assms(2,4) show ?thesis by (auto simp: linger_timed_def lingers_on_def)
qed

lemma handleDisconnected_timed: "linger_timed cm \<Longrightarrow> linger_timed (handleDisconnected B ord i cm)"
proof (cases "cm_find i cm")
  case (Some r)
  assume timed: "linger_timed cm"
  let ?cm1 = "cm\<lparr>cm_records := adel i (cm_records cm), cm_transfers := tt_drop i (cm_transfers cm),
      cm_backend := bk_releaseCall B (cm_backend cm) i,
      cm_lingeringCalls := aput i (r\<lparr>cr_state := Disconnected\<rparr>) (cm_lingeringCalls cm)\<rparr>"
  let ?cm2 = "if i = cm_activeCallId ?cm1 then promote_next B ord ?cm1 else ?cm1"
  have "lingers_on ?cm1 ?cm2" by (rule promote_if_lingers)
  then have "linger_timed (singleShot n (EraseLingering i) (cm_emit ss ?cm2))" for n ss
    by (rule linger_entry_timed[OF timed]) simp_all
  moreover have "handleDisconnected B ord i cm =
      singleShot (cm_lingerMs ?cm2) (EraseLingering i) (cm_emit [CallsChanged] ?cm2)"
    using Some by (simp add: handleDisconnected_def Let_def)
  ultimately show ?thesis by (simp only:)
qed (simp add: handleDisconnected_def)

lemma linger_timed_frames [simp]:
  "linger_timed (cm_emit ss cm) = linger_timed cm" "linger_timed (cm_put i r cm) = linger_timed cm"
  "linger_timed (cm\<lparr>cm_backend := b\<rparr>) = linger_timed cm" "linger_timed (cm\<lparr>cm_records := m\<rparr>) = linger_timed cm"
  "linger_timed (cm\<lparr>cm_transfers := t\<rparr>) = linger_timed cm"
  by (simp_all add: linger_timed_def)

lemma cm_event_timed: "linger_timed cm \<Longrightarrow> linger_timed (cm_event B am ord ev cm)"
proof (cases ev)
  case (OnCallState c st n)
  then show "linger_timed cm \<Longrightarrow> ?thesis"
    by (simp add: cm_event_def cm_onCallState_def notifyStateChange_def handleDisconnected_timed split: option.split)
next
  case (OnTransferStatus c n m u)
  then show "linger_timed cm \<Longrightarrow> ?thesis"
    by (auto simp: cm_event_def handleTransferStatus_def Let_def intro: lingers_on_timed[OF lingers_transfer_legs] split: prod.split)
qed (simp_all add: cm_event_def cm_onIncomingCall_def notifyStateChange_def Let_def)

lemma fire_timer_timed:
  assumes "linger_timed cm"
  shows "linger_timed (fire_timer B n cm)"
proof (cases "n < length (cm_timers cm)")
  case True
  let ?a = "snd (cm_timers cm ! n)" and ?c = "cm\<lparr>cm_timers := take n (cm_timers cm) @ drop (Suc n) (cm_timers cm)\<rparr>"
  have set: "set (cm_timers cm) = insert (cm_timers cm ! n) (set (cm_timers ?c))"
    using arg_cong[OF id_take_nth_drop[OF True], of set] by simp
  then have "EraseLingering i \<in> snd ` set (cm_timers ?c)" if "ahas (cm_lingeringCalls cm) i" "EraseLingering i \<noteq> ?a" for i
  proof -
    have "EraseLingering i \<in> snd ` set (cm_timers cm)" using assms that(1) by (simp add: linger_timed_def)
    with that(2) show ?thesis unfolding set by auto
  qed
  then have rest: "EraseLingering i \<in> snd ` set (cm_timers ?c)" if "ahas (cm_lingeringCalls ?c) i" "EraseLingering i \<noteq> ?a" for i
    using that by simp
  have "linger_timed (run_action B ?a ?c)"
  proof (cases ?a)
    case (EraseLingering i)
    then show ?thesis using rest by (auto simp: run_action_def eraseLingering_def linger_timed_def)
  next
    case (RetryUnhold i k)
    then have "linger_timed ?c" using rest by (simp add: linger_timed_def)
    with RetryUnhold show ?thesis
      by (simp add: run_action_def lingers_on_timed[OF lingers_requestUnhold])
  next
    case (RetryBridge i j k)
    then have "linger_timed ?c" using rest by (simp add: linger_timed_def)
    with RetryBridge show ?thesis
      by (auto simp: run_action_def wireBridge_def linger_timed_def split: prod.split bool.split)
  qed
  with True show ?thesis by (simp add: fire_timer_def)
qed (simp add: fire_timer_def assms)



lemma ids_in_order:
  assumes "mset (ord (map fst m)) = mset (map fst m)"
  shows "map ce_id (in_order ord m) = ord (map fst m)"
proof -
  have "ce_id (case map_of m i of Some r \<Rightarrow> entry_of_record i r | None \<Rightarrow> default_call_entry) = i"
    if "i \<in> set (ord (map fst m))" for i
  proof -
    have "i \<in> fst ` set m" using that assms by (metis list.set_map set_mset_mset)
    then show ?thesis by (auto simp: entry_of_record_def split: option.split simp: map_of_eq_None_iff)
  qed
  then show ?thesis by (simp add: in_order_def map_idI)
qed

lemma in_order_entries:
  assumes "mset (ord (map fst m)) = mset (map fst m)"
  shows "e \<in> set (in_order ord m) \<longleftrightarrow> (\<exists>r. map_of m (ce_id e) = Some r \<and> e = entry_of_record (ce_id e) r)"
proof -
  have s: "set (ord (map fst m)) = fst ` set m" using assms by (metis list.set_map set_mset_mset)
  show ?thesis
  proof
    assume "e \<in> set (in_order ord m)"
    then obtain i where i: "i \<in> fst ` set m" "e = (case map_of m i of Some r \<Rightarrow> entry_of_record i r | None \<Rightarrow> default_call_entry)"
      unfolding in_order_def using s by auto
    then obtain r where "map_of m i = Some r" by (cases "map_of m i") (auto simp: map_of_eq_None_iff)
    with i show "\<exists>r. map_of m (ce_id e) = Some r \<and> e = entry_of_record (ce_id e) r"
      by (auto simp: entry_of_record_def)
  next
    assume "\<exists>r. map_of m (ce_id e) = Some r \<and> e = entry_of_record (ce_id e) r"
    then obtain r where r: "map_of m (ce_id e) = Some r" "e = entry_of_record (ce_id e) r" by blast
    then have "ce_id e \<in> set (ord (map fst m))" unfolding s by (force dest: map_of_SomeD)
    with r show "e \<in> set (in_order ord m)" unfolding in_order_def by force
  qed
qed

subsection \<open>Any backend whose queue is part of what the calls leave alone\<close>

text \<open>
  \<open>unann\<close> are the incoming calls the backend has taken and still has to announce, in the order of its queue,
  and \<open>live\<close> that what it has queued will reach its listener.
\<close>

locale core_env = accounts_env B ok accts K kok +
  half: sip_backend B ok calls minted accts +
  sys: call_backend B ok calls minted "\<lambda>b. (accts b, unann b, live b)"
  for B :: "'b isip_backend"
    and ok :: "'b \<Rightarrow> bool"
    and calls :: "'b \<Rightarrow> call_id set"
    and minted :: "'b \<Rightarrow> call_id set"
    and accts :: "'b \<Rightarrow> backend_account_id set"
    and K :: "'k ikeychain"
    and kok :: "'k \<Rightarrow> bool"
    and unann :: "'b \<Rightarrow> call_id list"
    and live :: "'b \<Rightarrow> bool" +
  assumes addAccount_queue:
      "ok b \<Longrightarrow> unann (snd (bk_addAccount B b s)) = unann b \<and> live (snd (bk_addAccount B b s)) = live b"
    and removeAccount_queue:
      "ok b \<Longrightarrow> unann (snd (bk_removeAccount B b a)) = unann b \<and> live (snd (bk_removeAccount B b a)) = live b"
    and sendMessage_queue:
      "ok b \<Longrightarrow> unann (snd (bk_sendMessage B b a u t)) = unann b \<and> live (snd (bk_sendMessage B b a u t)) = live b"
begin

abbreviation view :: "'b \<Rightarrow> backend_account_id set \<times> call_id list \<times> bool" where
  "view b \<equiv> (accts b, unann b, live b)"

text \<open>\<open>U\<close> are the incoming calls still to be announced; between steps those in the queue.\<close>

definition core_mid :: "call_id set \<Rightarrow> ('b, 'k) core_state \<Rightarrow> bool" where
  "core_mid U w \<longleftrightarrow>
     am_ok ok accts K kok (co_am w) \<and> am_backend (co_am w) = core_backend w \<and>
     cm_ok ok calls minted view U (view (core_backend w)) (co_cm w) \<and> linger_timed (co_cm w)"

definition core_ok :: "('b, 'k) core_state \<Rightarrow> bool" where
  "core_ok w \<longleftrightarrow> (let b = core_backend w in core_mid (set (unann b)) w \<and> distinct (unann b) \<and> live b)"

lemma core_midD:
  assumes "core_mid U w"
  shows "cm_ok ok calls minted view U (view (core_backend w)) (co_cm w)" "linger_timed (co_cm w)"
    "am_ok ok accts K kok (co_am w)" "am_backend (co_am w) = core_backend w" "ok (core_backend w)"
  using assms cm_ok_parts(1) by (auto simp: core_mid_def core_backend_def)

lemma core_okD:
  assumes "core_ok w"
  shows "core_mid (set (unann (core_backend w))) w" "distinct (unann (core_backend w))" "live (core_backend w)"
  using assms by (simp_all add: core_ok_def Let_def)

lemma core_ok_mid:
  assumes "core_ok w" "core_mid (set (unann (core_backend w))) w'" "view (core_backend w') = view (core_backend w)"
  shows "core_ok w'"
  using assms by (simp add: core_ok_def Let_def)

lemma on_calls_mid:
  assumes mid: "core_mid U w"
    and inv: "cm_ok ok calls minted view U' (view (core_backend w)) (f (co_cm w))"
    and timed: "linger_timed (f (co_cm w))"
  shows "core_mid U' (on_calls f w)" "view (core_backend (on_calls f w)) = view (core_backend w)"
proof -
  have v: "view (cm_backend (f (co_cm w))) = view (core_backend w)" using cm_ok_parts(14)[OF inv] .
  have "am_ok ok accts K kok ((co_am w)\<lparr>am_backend := cm_backend (f (co_cm w))\<rparr>)"
    using core_midD(3,4)[OF mid] cm_ok_parts(1)[OF inv] v by (intro am_ok_backend) auto
  then show "core_mid U' (on_calls f w)" "view (core_backend (on_calls f w)) = view (core_backend w)"
    using inv timed v by (simp_all add: on_calls_def core_mid_def core_backend_def Let_def)
qed

lemmas ops_ok =
  sys.makeCall_ok sys.makeCallDefault_ok sys.accept_ok sys.plain_ops_ok
  sys.flag_ops_ok sys.unhold_ok sys.mergeCalls_ok sys.transfer_ops_ok sys.hangup_ok

lemma cm_apply_ok:
  assumes "cm_ok ok calls minted view U v cm"
  shows "cm_ok ok calls minted view U v (cm_apply B am op cm)"
  using assms by (cases op) (simp_all add: ops_ok)

lemma call_step_ok:
  assumes "core_ok w"
  shows "core_ok (on_calls (cm_apply B am op) w)" "core_ok (on_calls (fire_timer B n) w)"
proof -
  note mid = core_okD(1)[OF assms]
  note c = core_midD[OF mid]
  show "core_ok (on_calls (cm_apply B am op) w)"
    using on_calls_mid[where f = "cm_apply B am op", OF mid cm_apply_ok[OF c(1)] lingers_on_timed[OF cm_apply_lingers c(2)]]
      core_ok_mid[OF assms] by blast
  show "core_ok (on_calls (fire_timer B n) w)"
    using on_calls_mid[where f = "fire_timer B n", OF mid sys.fire_timer_ok[OF c(1)] fire_timer_timed[OF c(2)]]
      core_ok_mid[OF assms] by blast
qed

text \<open>An account operation leaves the calls of the backend and its queue alone.\<close>

lemma moves_calls:
  assumes "acct_moves B b b'" "ok b"
  shows "ok b' \<and> calls b' = calls b \<and> minted b' = minted b \<and> unann b' = unann b \<and> live b' = live b"
  using assms
proof (induction rule: acct_moves.induct)
  case (am_add b b' s)
  then show ?case using half.addAccount_calls[of b' s] addAccount_queue[of b' s] by (simp add: keeps_view_def)
next
  case (am_remove b b' a)
  then show ?case using half.removeAccount_calls[of b' a] removeAccount_queue[of b' a] by (simp add: keeps_view_def)
next
  case (am_send b b' a u t)
  then show ?case using half.sendMessage_calls[of b' a u t] sendMessage_queue[of b' a u t] by (simp add: keeps_view_def)
qed simp

lemma on_accounts_mid:
  assumes mid: "core_mid U w" and op: "op_fresh op (co_am w)"
  defines "w' \<equiv> on_accounts (am_apply B K op) w"
  shows "core_mid U w'" "unann (core_backend w') = unann (core_backend w) \<and> live (core_backend w') = live (core_backend w)"
proof -
  note c = core_midD[OF mid]
  let ?am = "am_apply B K op (co_am w)"
  have am: "am_ok ok accts K kok ?am" using apply_am_ok[OF c(3) op] .
  note same = moves_calls[OF am_apply_moves[of B "co_am w" K op, unfolded c(4)] c(5), unfolded core_backend_def]
  have "cm_ok ok calls minted view (U \<union> {}) (view (am_backend ?am)) ((co_cm w)\<lparr>cm_backend := am_backend ?am\<rparr>)"
    by (rule swap_backend_ok[OF c(1)])
      (use same sys.calls_minted[OF c(5)] in \<open>simp_all add: core_backend_def\<close>)
  then show "core_mid U w'" "unann (core_backend w') = unann (core_backend w) \<and> live (core_backend w') = live (core_backend w)"
    using am same c(2) by (simp_all add: w'_def on_accounts_def core_mid_def core_backend_def Let_def)
qed

lemma account_step_ok:
  assumes "core_ok w" "op_fresh op (co_am w)"
  shows "core_ok (on_accounts (am_apply B K op) w)"
  using on_accounts_mid[OF core_okD(1)[OF assms(1)] assms(2)] assms(1) by (simp add: core_ok_def Let_def)

text \<open>The backend takes steps of its own, and may take new calls \<open>N\<close> that it then announces.\<close>

lemma on_backend_mid:
  assumes mid: "core_mid U w" and b: "ok b" "accts b = accts (core_backend w)"
    and N: "N \<inter> minted (core_backend w) = {}"
    and same: "calls b = calls (core_backend w) \<union> N" "minted b = minted (core_backend w) \<union> N"
  shows "core_mid (U \<union> N) (on_backend b w)" "core_backend (on_backend b w) = b"
proof -
  note c = core_midD[OF mid]
  have "cm_ok ok calls minted view (U \<union> N) (view b) ((co_cm w)\<lparr>cm_backend := b\<rparr>)"
    by (rule swap_backend_ok[OF c(1) b(1)])
      (use N same sys.calls_minted[OF c(5)] in \<open>simp_all add: core_backend_def\<close>)
  moreover have "am_ok ok accts K kok ((co_am w)\<lparr>am_backend := b\<rparr>)"
    using c(3,4) b by (intro am_ok_backend) auto
  ultimately show "core_mid (U \<union> N) (on_backend b w)" "core_backend (on_backend b w) = b"
    using c(2) by (simp_all add: core_mid_def on_backend_def on_calls_def core_backend_def Let_def)
qed

lemma backend_step_ok:
  assumes inv: "core_ok w" and b: "ok b" "accts b = accts (core_backend w)"
    and N: "set N \<inter> minted (core_backend w) = {}" "distinct N"
    and same: "calls b = calls (core_backend w) \<union> set N" "minted b = minted (core_backend w) \<union> set N"
    and queue: "unann b = unann (core_backend w) @ N" "live b = live (core_backend w)"
  shows "core_ok (on_backend b w)"
proof -
  note mid = core_okD(1)[OF inv]
  note c = core_midD[OF mid]
  have "set (unann (core_backend w)) \<subseteq> calls (core_backend w)"
    using cm_ok_parts(13)[OF c(1)] by (auto simp: owned_def core_backend_def)
  then have "distinct (unann b)" using core_okD(2)[OF inv] N sys.calls_minted[OF c(5)] queue(1) by auto
  with on_backend_mid[OF mid b N(1) same] core_okD(3)[OF inv] queue show ?thesis
    by (simp add: core_ok_def Let_def)
qed

text \<open>Delivery: events reach both managers, one after the other.\<close>

lemma fanout_mid:
  assumes mid: "core_mid U w" and ev: "announced_in ev \<subseteq> U" and ord: "\<And>xs. set (ord xs) = set xs"
  shows "core_mid (U - announced_in ev) (fanout B ord ev w)" "view (core_backend (fanout B ord ev w)) = view (core_backend w)"
proof -
  let ?w1 = "on_accounts (am_event ev) w"
  have "op_fresh (AmEvent ev) (co_am w)" by simp
  moreover have "am_apply B K (AmEvent ev) = am_event ev" by (rule ext) simp
  ultimately have m1: "core_mid U ?w1" using on_accounts_mid(1)[OF mid, of "AmEvent ev"] by simp
  have "am_backend (am_event ev (co_am w)) = am_backend (co_am w)" using am_event_frame by blast
  then have same: "core_backend ?w1 = core_backend w"
    using core_midD(4)[OF mid] by (simp add: on_accounts_def core_backend_def Let_def)
  note c = core_midD[OF m1]
  note r = on_calls_mid[where f = "cm_event B (Some (co_am ?w1)) ord ev",
      OF m1 sys.event_ok[OF c(1) ord ev] cm_event_timed[OF c(2)]]
  show "core_mid (U - announced_in ev) (fanout B ord ev w)" "view (core_backend (fanout B ord ev w)) = view (core_backend w)"
    using r same by (simp_all add: fanout_def Let_def)
qed

lemma fold_fanout_mid:
  assumes "core_mid U w" "set (concat (map announced_list evs)) \<subseteq> U"
    and "distinct (concat (map announced_list evs))" "\<And>xs. set (ord xs) = set xs"
  shows "core_mid (U - set (concat (map announced_list evs))) (fold (fanout B ord) evs w) \<and>
    view (core_backend (fold (fanout B ord) evs w)) = view (core_backend w)"
  using assms
proof (induction evs arbitrary: U w)
  case (Cons ev evs)
  have "announced_in ev \<subseteq> U" using Cons.prems(2) by simp
  note f = fanout_mid[OF Cons.prems(1) this Cons.prems(4)]
  have "set (concat (map announced_list evs)) \<subseteq> U - announced_in ev"
    using Cons.prems(2,3) by (auto simp flip: set_announced_list)
  from Cons.IH[OF f(1) this _ Cons.prems(4)] Cons.prems(3) f(2) show ?case
    by (simp add: Diff_eq Int_assoc)
qed simp

text \<open>The backend takes \<open>evs\<close> off its queue, changes nothing the core sees, and delivers them.\<close>

lemma deliver_ok:
  assumes inv: "core_ok w" and ord: "\<And>xs. set (ord xs) = set xs"
    and b: "ok b" "accts b = accts (core_backend w)" "calls b = calls (core_backend w)" "minted b = minted (core_backend w)"
    and queue: "unann (core_backend w) = concat (map announced_list evs) @ unann b" "live b"
  shows "core_ok (fold (fanout B ord) evs (on_backend b w))"
proof -
  have m: "core_mid (set (unann (core_backend w))) (on_backend b w)" "core_backend (on_backend b w) = b"
    using on_backend_mid[OF core_okD(1)[OF inv] b(1,2), of "{}"] b(3,4) by simp_all
  have dist: "distinct (concat (map announced_list evs) @ unann b)"
    using core_okD(2)[OF inv] queue(1) by simp
  have "set (unann (core_backend w)) - set (concat (map announced_list evs)) = set (unann b)"
    using dist queue(1) by auto
  with fold_fanout_mid[OF m(1) _ _ ord, of evs] m(2) queue dist show ?thesis
    by (simp add: core_ok_def Let_def)
qed

lemma core_new_ok:
  assumes "ok b" "calls b = {}" "unann b = []" "live b" "db_ok db" "db_handle db" "kok kc"
  shows "core_ok (core_new b db kc)"
proof -
  have "am_ok ok accts K kok (am_new True b db kc)" using assms by (intro am_ok_start)
  moreover have "am_backend (am_new True b db kc) = b" by (simp add: am_new_def loadFromDatabase_def)
  ultimately show ?thesis
    using cm_ok_new[of ok b calls "{}" view _ minted] assms
    by (simp add: core_ok_def core_mid_def core_new_def core_backend_def Let_def cm_new_def linger_timed_def)
qed

text \<open>What the invariant says to an observer of the two managers and the backend.\<close>

lemma core_agrees:
  assumes "core_ok w"
  shows "calls (core_backend w) = {i. cm_find i (co_cm w) \<noteq> None} \<union> set (unann (core_backend w))"
    "{i. cm_find i (co_cm w) \<noteq> None} \<inter> set (unann (core_backend w)) = {}"
    "cm_activeCallId (co_cm w) = kInvalidCallId \<or> cm_find (cm_activeCallId (co_cm w)) (co_cm w) \<noteq> None"
    "cm_find i (co_cm w) = Some r \<Longrightarrow> cr_state r \<noteq> Disconnected"
    "am_backend (co_am w) = core_backend w"
    "am_ok ok accts K kok (co_am w)"
proof -
  note c = core_midD[OF core_okD(1)[OF assms]]
  note p = cm_ok_parts[OF c(1)]
  have has: "cm_find i (co_cm w) \<noteq> None \<longleftrightarrow> ahas (cm_records (co_cm w)) i" for i
    by (simp add: cm_find_def ahas_def)
  show "calls (core_backend w) = {i. cm_find i (co_cm w) \<noteq> None} \<union> set (unann (core_backend w))"
    "{i. cm_find i (co_cm w) \<noteq> None} \<inter> set (unann (core_backend w)) = {}"
    using p(13) has by (auto simp: owned_def core_backend_def)
  show "cm_activeCallId (co_cm w) = kInvalidCallId \<or> cm_find (cm_activeCallId (co_cm w)) (co_cm w) \<noteq> None"
    "cm_find i (co_cm w) = Some r \<Longrightarrow> cr_state r \<noteq> Disconnected"
    using p(7,8) has by (auto simp: cm_find_def)
qed (use core_midD[OF core_okD(1)[OF assms]] in blast)+

lemma core_silent:
  assumes "core_ok w" "cm_signals (co_cm w) = before @ CallEvent i Disconnected # after"
  shows "CallEvent i s \<notin> set after"
proof -
  have "silent_after_end (cm_signals (co_cm w))"
    using cm_ok_parts(12)[OF core_midD(1)[OF core_okD(1)[OF assms(1)]]] .
  then show ?thesis by (auto simp: assms(2) silent_after_end_def sorted_wrt_append)
qed

lemma core_snapshot:
  assumes "core_ok w" "\<And>xs. mset (ord xs) = mset xs"
  shows "distinct (map ce_id (snapshot ord (co_cm w)))"
    "e \<in> set (snapshot ord (co_cm w)) \<longleftrightarrow>
       (\<exists>r. cm_find (ce_id e) (co_cm w) = Some r \<and> e = entry_of_record (ce_id e) r) \<or>
       (\<exists>r. map_of (cm_lingeringCalls (co_cm w)) (ce_id e) = Some r \<and> e = entry_of_record (ce_id e) r)"
    "map_of (cm_lingeringCalls (co_cm w)) i = Some r \<Longrightarrow> cr_state r = Disconnected \<and>
       cm_find i (co_cm w) = None \<and> EraseLingering i \<in> snd ` set (cm_timers (co_cm w))"
proof -
  let ?cm = "co_cm w"
  note c = core_midD[OF core_okD(1)[OF assms(1)]]
  note p = cm_ok_parts[OF c(1)]
  have disj: "ahas (cm_lingeringCalls ?cm) i \<Longrightarrow> \<not> ahas (cm_records ?cm) i" for i
    using p(4,5) by blast
  have dist: "distinct (ord (map fst (cm_records ?cm)))" "distinct (ord (map fst (cm_lingeringCalls ?cm)))"
    using assms(2) p(2,3) by (metis keys_sorted_distinct mset_eq_imp_distinct_iff)+
  have sets: "set (ord xs) = set xs" for xs using assms(2) by (metis set_mset_mset)
  show "distinct (map ce_id (snapshot ord ?cm))"
    using dist disj by (auto simp: snapshot_def ids_in_order[where ord = ord, OF assms(2)] sets ahas_iff_keys)
  show "e \<in> set (snapshot ord ?cm) \<longleftrightarrow>
       (\<exists>r. cm_find (ce_id e) ?cm = Some r \<and> e = entry_of_record (ce_id e) r) \<or>
       (\<exists>r. map_of (cm_lingeringCalls ?cm) (ce_id e) = Some r \<and> e = entry_of_record (ce_id e) r)"
    by (simp add: snapshot_def in_order_entries[where ord = ord, OF assms(2)] cm_find_def)
  assume l: "map_of (cm_lingeringCalls ?cm) i = Some r"
  then have h: "ahas (cm_lingeringCalls ?cm) i" by (rule ahas_Some)
  show "cr_state r = Disconnected \<and> cm_find i ?cm = None \<and> EraseLingering i \<in> snd ` set (cm_timers ?cm)"
    using p(6) l disj[OF h] c(2) h by (auto simp: cm_find_None linger_timed_def)
qed

end

end
