(* ===== verification/PhoneCore.thy ===== *)
theory PhoneCore imports CoreSystem begin

text \<open>
  The core on the fake backend: a step is a whole operation of the user, a timer that fires, something
  the remote side does, or the delivery of the oldest queued event.  The invariant of \<open>core_env\<close> holds
  of every state that is reached.
\<close>

subsection \<open>The event queue, as part of what the calls depend on\<close>

text \<open>The incoming calls that are queued, and that the queue will reach its listener.\<close>

definition unannounced :: "fake_backend \<Rightarrow> call_id list" where
  "unannounced fb = concat (map (\<lambda>q. concat (map announced_list (snd q))) (ed_queue (fb_events fb)))"

definition live_queue :: "fake_backend \<Rightarrow> bool" where
  "live_queue fb \<longleftrightarrow> fb_listener fb \<and> list_all (\<lambda>q. fst q = ed_epoch (fb_events fb)) (ed_queue (fb_events fb))"

definition queue_view :: "fake_backend \<Rightarrow> call_id list \<times> bool" where
  "queue_view fb = (unannounced fb, live_queue fb)"

lemma queue_view_post [simp]:
  "queue_view (fb_post evs fb) = (unannounced fb @ concat (map announced_list evs), live_queue fb)"
  by (simp add: queue_view_def unannounced_def live_queue_def fb_post_def ed_post_def)

lemma queue_view_frames [simp]:
  "queue_view (logCmd l fb) = queue_view fb" "queue_view (fb_update i c fb) = queue_view fb"
  "queue_view (fb\<lparr>fb_calls := cs\<rparr>) = queue_view fb" "queue_view (fb\<lparr>fb_accounts := as\<rparr>) = queue_view fb"
  "queue_view (fb\<lparr>fb_nextCallId := n\<rparr>) = queue_view fb" "queue_view (fb\<lparr>fb_nextAccountId := n\<rparr>) = queue_view fb"
  "queue_view (fb\<lparr>fb_lastAddedId := n\<rparr>) = queue_view fb" "queue_view (fb\<lparr>fb_nextCallId := n, fb_calls := cs\<rparr>) = queue_view fb"
  by (simp_all add: queue_view_def unannounced_def live_queue_def fake_effects)

lemma queue_view_parts: "(unannounced fb, live_queue fb) = queue_view fb"
  by (simp add: queue_view_def)

lemma queue_view_ops:
  "queue_view (snd (fb_answer fb i)) = queue_view fb" "queue_view (snd (fb_decline fb i n)) = queue_view fb"
  "queue_view (snd (fb_redirect fb i u)) = queue_view fb" "queue_view (fb_hangup fb i) = queue_view fb"
  "queue_view (snd (fb_hold fb i)) = queue_view fb" "queue_view (snd (fb_unhold fb i)) = queue_view fb"
  "queue_view (snd (fb_setMuted fb i m)) = queue_view fb" "queue_view (snd (fb_sendDtmf fb i u k)) = queue_view fb"
  "queue_view (snd (fb_blindTransfer fb i u)) = queue_view fb"
  "queue_view (snd (fb_attendedTransfer fb i j)) = queue_view fb"
  "queue_view (snd (fb_bridge fb i j)) = queue_view fb"
  "queue_view (snd (fb_startRecording fb i u)) = queue_view fb"
  "queue_view (snd (fb_stopRecording fb i)) = queue_view fb"
  "queue_view (snd (fb_playFile fb i u m)) = queue_view fb" "queue_view (snd (fb_stopFile fb i)) = queue_view fb"
  "queue_view (snd (fb_makeCall fb a u)) = queue_view fb" "queue_view (fb_releaseCall fb i) = queue_view fb"
  "queue_view (snd (fb_addAccount fb s)) = queue_view fb" "queue_view (snd (fb_removeAccount fb a)) = queue_view fb"
  "queue_view (snd (fb_sendMessage fb a u t)) = queue_view fb"
  "queue_view (simulateRegState a m n u fb) = queue_view fb" "queue_view (simulateMwi a n n' m fb) = queue_view fb"
  "queue_view (simulateInstantMessage a u t fb) = queue_view fb" "queue_view (simulatePresence w ps fb) = queue_view fb"
  "queue_view (simulateRemoteAnswer i fb) = queue_view fb" "queue_view (simulateRemoteHangup i n fb) = queue_view fb"
  "queue_view (simulateTransferStatus i n m u fb) = queue_view fb"
  by (auto simp: fake_call_ops fb_makeCall_def fb_releaseCall_def fb_addAccount_def fb_removeAccount_def
      fb_sendMessage_def simulateRegState_def simulateMwi_def simulateInstantMessage_def simulatePresence_def
      simulateRemoteAnswer_def simulateRemoteHangup_def simulateTransferStatus_def announced_list_def
      Let_def queue_view_parts split: option.split)

lemma queue_of_view: "queue_view b = queue_view c \<Longrightarrow> unannounced b = unannounced c \<and> live_queue b = live_queue c"
  by (simp add: queue_view_def)

interpretation fake_core: core_env FakeB fake_ok fake_calls fake_minted fake_accts MemK "\<lambda>_. True" unannounced live_queue
proof unfold_locales
  fix b :: fake_backend and a u r b' assume "fake_ok b" "bk_makeCall FakeB b a u = (r, b')"
  then show "r = kInvalidCallId \<and> fake_ok b' \<and> fake_calls b' = fake_calls b \<and> fake_minted b \<subseteq> fake_minted b' \<and>
         (fake_accts b', unannounced b', live_queue b') = (fake_accts b, unannounced b, live_queue b) \<or>
       r \<noteq> kInvalidCallId \<and> r \<notin> fake_minted b \<and> fake_ok b' \<and> fake_calls b' = insert r (fake_calls b) \<and>
       fake_minted b' = insert r (fake_minted b) \<and> (fake_accts b', unannounced b', live_queue b') = (fake_accts b, unannounced b, live_queue b)"
    using fake_call_backend.makeCall_law[of b a u r b'] queue_of_view[OF queue_view_ops(16)[of b a u]]
    by (simp add: FakeB_def)
next
  fix b :: fake_backend and s a u t
  show "unannounced (snd (bk_addAccount FakeB b s)) = unannounced b \<and> live_queue (snd (bk_addAccount FakeB b s)) = live_queue b"
    "unannounced (snd (bk_removeAccount FakeB b a)) = unannounced b \<and> live_queue (snd (bk_removeAccount FakeB b a)) = live_queue b"
    "unannounced (snd (bk_sendMessage FakeB b a u t)) = unannounced b \<and> live_queue (snd (bk_sendMessage FakeB b a u t)) = live_queue b"
    using queue_of_view[OF queue_view_ops(18)] queue_of_view[OF queue_view_ops(19)] queue_of_view[OF queue_view_ops(20)]
    by (simp_all add: FakeB_def)
qed (use fake_call_backend.calls_minted fake_call_backend.invalid_not_minted in \<open>simp_all\<close>,
     use fake_call_backend.keeping_laws fake_call_backend.releaseCall_law queue_view_ops[THEN queue_of_view] in
       \<open>simp_all add: FakeB_def keeps_view_def\<close>)

subsection \<open>The system\<close>

text \<open>What the far end and the network can do.\<close>

datatype remote_op =
    RemoteRegState backend_account_id bool int string
  | RemoteMwi backend_account_id int int bool
  | RemoteMessage backend_account_id string string
  | RemoteCall backend_account_id string string
  | RemoteAnswer call_id
  | RemoteHangup call_id int
  | RemoteTransferStatus call_id int bool string

fun remote_apply :: "remote_op \<Rightarrow> fake_backend \<Rightarrow> fake_backend" where
  "remote_apply (RemoteRegState a m n u) fb = simulateRegState a m n u fb"
| "remote_apply (RemoteMwi a n n' m) fb = simulateMwi a n n' m fb"
| "remote_apply (RemoteMessage a u t) fb = simulateInstantMessage a u t fb"
| "remote_apply (RemoteCall a u t) fb = snd (simulateIncomingCall a u t fb)"
| "remote_apply (RemoteAnswer i) fb = simulateRemoteAnswer i fb"
| "remote_apply (RemoteHangup i n) fb = simulateRemoteHangup i n fb"
| "remote_apply (RemoteTransferStatus i n m u) fb = simulateTransferStatus i n m u fb"

definition deliver_next ::
  "(call_id list \<Rightarrow> call_id list) \<Rightarrow> (fake_backend, 'k) core_state \<Rightarrow> (fake_backend, 'k) core_state" where
  "deliver_next ord w =
     (case fb_deliver (cm_backend (co_cm w)) of
        (evs, fb) \<Rightarrow> fold (fanout FakeB ord) evs (on_backend fb w))"

inductive core_step ::
  "(fake_backend, memory_keychain) core_state \<Rightarrow> (fake_backend, memory_keychain) core_state \<Rightarrow> bool" where
  account_step: "op_fresh op (co_am w) \<Longrightarrow> (\<forall>ev. op \<noteq> AmEvent ev) \<Longrightarrow>
     core_step w (on_accounts (am_apply FakeB MemK op) w)"
| call_step: "core_step w (on_calls (cm_apply FakeB (co_am w) op) w)"
| timer_step: "core_step w (on_calls (fire_timer FakeB n) w)"
| remote_step: "core_step w (on_backend (remote_apply op (core_backend w)) w)"
| deliver_step: "(\<forall>xs. mset (ord xs) = mset xs) \<Longrightarrow> core_step w (deliver_next ord w)"

inductive core_reach :: "(fake_backend, memory_keychain) core_state \<Rightarrow> bool" where
  core_init: "db_ok db \<Longrightarrow> db_handle db \<Longrightarrow> core_reach (core_new running_fake db kc)"
| core_next: "core_reach w \<Longrightarrow> core_step w w' \<Longrightarrow> core_reach w'"

inductive_cases core_step_cases: "core_step w w'"

subsection \<open>Every step keeps the invariant\<close>

lemma remote_calls:
  assumes "fake_ok b"
  shows "\<exists>N. fake_ok (remote_apply op b) \<and> set N \<inter> fake_minted b = {} \<and> distinct N \<and>
    fake_calls (remote_apply op b) = fake_calls b \<union> set N \<and> fake_minted (remote_apply op b) = fake_minted b \<union> set N \<and>
    fake_accts (remote_apply op b) = fake_accts b \<and> unannounced (remote_apply op b) = unannounced b @ N \<and>
    live_queue (remote_apply op b) = live_queue b"
proof (cases op)
  case (RemoteCall a u t)
  let ?i = "fb_nextCallId b"
  show ?thesis
  proof (cases "fb_running b \<and> ahas (fb_accounts b) a")
    case False
    then show ?thesis using assms by (intro exI[of _ "[]"]) (auto simp: RemoteCall simulateIncomingCall_def)
  next
    case True
    let ?c = "new_fake_call\<lparr>fc_accountId := a, fc_remoteUri := u, fc_state := EarlyMedia, fc_inbound := True\<rparr>"
    let ?b = "fb_update ?i ?c (b\<lparr>fb_nextCallId := ?i + 1\<rparr>)"
    have "queue_view ?b = queue_view b" by simp
    then have qv: "unannounced ?b = unannounced b" "live_queue ?b = live_queue b"
      unfolding queue_view_def by blast+
    have "queue_view (fb_post [OnIncomingCall a ?i u t] ?b) = (unannounced b @ [?i], live_queue b)"
      by (simp add: announced_list_def qv)
    moreover have "remote_apply op b = fb_post [OnIncomingCall a ?i u t] ?b"
      using True by (simp add: RemoteCall simulateIncomingCall_def Let_def)
    moreover have "fake_ok ?b" using mint_call_ok[OF assms new_fake_call_ok(2)] .
    moreover have "1 \<le> ?i" using assms by (simp add: fake_ok_def)
    moreover have "fake_calls ?b = fake_calls b \<union> {?i}" "fake_accts ?b = fake_accts b"
      by (auto simp: fake_views fb_update_def)
    moreover have "fake_minted ?b = fake_minted b \<union> {?i}" "?i \<notin> fake_minted b"
      using \<open>1 \<le> ?i\<close> by (auto simp: fake_minted_def fb_update_def)
    ultimately show ?thesis
      by (intro exI[of _ "[?i]"]) (simp add: queue_view_def)
  qed
next
  case (RemoteAnswer i)
  then show ?thesis
    using fake_call_keeps(16)[OF assms, of i] queue_of_view[OF queue_view_ops(25)[of i b]]
    by (intro exI[of _ "[]"]) (simp add: keeps_view_def)
next
  case (RemoteHangup i n)
  then show ?thesis
    using fake_call_keeps(17)[OF assms, of i n] queue_of_view[OF queue_view_ops(26)[of i n b]]
    by (intro exI[of _ "[]"]) (simp add: keeps_view_def)
next
  case (RemoteTransferStatus i n m u)
  then show ?thesis
    using fake_call_keeps(18)[OF assms, of i n m u] queue_of_view[OF queue_view_ops(27)[of i n m u b]]
    by (intro exI[of _ "[]"]) (simp add: keeps_view_def)
qed (use assms in \<open>intro exI[of _ "[]"], simp add: queue_view_ops[THEN queue_of_view],
  simp add: simulateRegState_def simulateMwi_def simulateInstantMessage_def\<close>)+


lemma deliver_next_ok:
  assumes "fake_core.core_ok w" "\<And>xs. set (ord xs) = set xs"
  shows "fake_core.core_ok (deliver_next ord w)"
proof -
  let ?b = "core_backend w"
  obtain evs fb where d: "fb_deliver ?b = (evs, fb)" by fastforce
  have ok: "fake_ok ?b" using fake_core.core_midD(5)[OF fake_core.core_okD(1)[OF assms(1)]] .
  have q: "unannounced ?b = concat (map announced_list evs) @ unannounced fb" "live_queue fb"
    and same: "fb = ?b\<lparr>fb_events := fb_events fb\<rparr>"
    using d fake_core.core_okD(3)[OF assms(1)]
    by (auto simp: fb_deliver_def ed_run_next_def live_queue_def unannounced_def split: list.splits if_splits)
  have frame: "fake_ok fb" "fake_accts fb = fake_accts ?b" "fake_calls fb = fake_calls ?b" "fake_minted fb = fake_minted ?b"
    using ok by (subst same, simp add: fake_ok_def fake_views)+
  show ?thesis
    using fake_core.deliver_ok[OF assms(1) assms(2) frame q] d by (simp add: deliver_next_def core_backend_def)
qed

lemma remote_step_ok:
  assumes "fake_core.core_ok w"
  shows "fake_core.core_ok (on_backend (remote_apply op (core_backend w)) w)"
proof -
  have "fake_ok (core_backend w)" using fake_core.core_midD(5)[OF fake_core.core_okD(1)[OF assms]] .
  from remote_calls[OF this, of op] show ?thesis
    by (auto intro!: fake_core.backend_step_ok[OF assms])
qed

lemma core_step_ok: "core_step w w' \<Longrightarrow> fake_core.core_ok w \<Longrightarrow> fake_core.core_ok w'"
proof (erule core_step_cases, goal_cases)
  case (5 ord)
  then have "\<And>xs. set (ord xs) = set xs" by (metis set_mset_mset)
  with 5 show ?case by (simp add: deliver_next_ok)
qed (simp_all add: fake_core.account_step_ok fake_core.call_step_ok remote_step_ok)

lemma core_reach_ok: "core_reach w \<Longrightarrow> fake_core.core_ok w"
proof (induction rule: core_reach.induct)
  case (core_init db kc)
  have "unannounced running_fake = []" "live_queue running_fake" "fake_calls running_fake = {}"
    by (simp_all add: running_fake_def fb_start_def fb_setListener_def fb_new_def unannounced_def live_queue_def
        ed_new_def ed_invalidate_def fake_calls_def)
  with core_init show ?case by (simp add: fake_core.core_new_ok running_fake_ok)
qed (simp add: core_step_ok)


subsection \<open>An example run: an account is added, calls out, and the far end rejects the call\<close>

definition example_start :: "(fake_backend, memory_keychain) core_state" where
  "example_start = core_new running_fake empty_db (\<lambda>_. None)"

definition example_added :: "(fake_backend, memory_keychain) core_state" where
  "example_added = on_accounts (am_apply FakeB MemK (AmAdd (\<lambda>_. True) ''ref'' (default_account\<lparr>acc_username := ''al''\<rparr>) ''pw'')) example_start"

definition example_called :: "(fake_backend, memory_keychain) core_state" where
  "example_called = on_calls (cm_apply FakeB (co_am example_added) (CmCallFrom 1 ''sip:b'')) example_added"

definition example_rejected :: "(fake_backend, memory_keychain) core_state" where
  "example_rejected = deliver_next rev (deliver_next rev
     (on_backend (remote_apply (RemoteHangup 1 486) (core_backend example_called)) example_called))"

lemma example_reach: "core_reach example_called" "core_reach example_rejected"
proof -
  have 0: "core_reach example_start"
    unfolding example_start_def by (rule core_init) (simp_all add: empty_db_ok, simp add: empty_db_def)
  have "op_fresh (AmAdd (\<lambda>_. True) ''ref'' a ''pw'') (co_am example_start)" for a
    by (simp add: example_start_def core_new_def am_new_def loadFromDatabase_def)
  then have 1: "core_reach example_added"
    unfolding example_added_def by (intro core_next[OF 0] account_step) simp_all
  show 2: "core_reach example_called"
    unfolding example_called_def by (intro core_next[OF 1] call_step)
  note 3 = core_next[OF 2 remote_step[of _ "RemoteHangup 1 486"]]
  have ord: "\<forall>xs. mset (rev xs) = mset (xs :: call_id list)" by simp
  show "core_reach example_rejected"
    unfolding example_rejected_def by (rule core_next[OF core_next[OF 3 deliver_step[OF ord]] deliver_step[OF ord]])
qed

lemma example_rejected_signals:
  "cm_signals (co_cm example_rejected) =
     [CallStateChanged Calling, CallEvent 1 Calling, CallStateChanged Disconnected, CallEvent 1 Disconnected, CallsChanged]"
  by code_simp

lemma example_called_state: "cm_activeCallId (co_cm example_called) = 1" "map fst (cm_records (co_cm example_called)) = [1]"
  by code_simp+


subsection \<open>Properties of the system\<close>



text \<open>C4. An observer of callEvent never hears of a call again after it was reported Disconnected, and
  so hears Disconnected at most once per call.\<close>

theorem silent_after_disconnected:
  assumes "core_reach w" "cm_signals (co_cm w) = before @ CallEvent i Disconnected # after"
  shows "CallEvent i s \<notin> set after"
  using fake_core.core_silent[OF core_reach_ok[OF assms(1)] assms(2)] .

theorem silent_after_disconnected_witness: "CallEvent 1 Confirmed \<notin> set [CallsChanged]"
  by (rule silent_after_disconnected[OF example_reach(2), of "[CallStateChanged Calling, CallEvent 1 Calling, CallStateChanged Disconnected]"])
    (simp add: example_rejected_signals)

text \<open>C20. The list the screen shows is complete and has no duplicates: each live call with its record,
  and each call in its grace period, shown as Disconnected and certain to be taken off by a timer,
  whatever order the maps are iterated in.\<close>

theorem snapshot_complete:
  assumes "core_reach w" "\<And>xs. mset (ord xs) = mset xs"
  shows "distinct (map ce_id (snapshot ord (co_cm w))) \<and>
    (\<forall>e. e \<in> set (snapshot ord (co_cm w)) \<longleftrightarrow>
       (\<exists>r. cm_find (ce_id e) (co_cm w) = Some r \<and> e = entry_of_record (ce_id e) r) \<or>
       (\<exists>r. map_of (cm_lingeringCalls (co_cm w)) (ce_id e) = Some r \<and> e = entry_of_record (ce_id e) r)) \<and>
    (\<forall>i r. map_of (cm_lingeringCalls (co_cm w)) i = Some r \<longrightarrow> cr_state r = Disconnected \<and>
       cm_find i (co_cm w) = None \<and> EraseLingering i \<in> snd ` set (cm_timers (co_cm w)))"
  using fake_core.core_snapshot[where ord = ord, OF core_reach_ok[OF assms(1)] assms(2)] by blast

theorem snapshot_complete_witness: "distinct (map ce_id (snapshot rev (co_cm example_rejected)))"
  using snapshot_complete[OF example_reach(2) mset_rev] by blast

end
