(* ===== verification/RowModel.thy ===== *)
theory RowModel imports Main begin

text \<open>
  The incremental refresh of the list models (the two steps of \<open>refresh()\<close> in
  \<open>models/CallsModel.cpp\<close> and \<open>models/LinesModel.cpp\<close>): instead of resetting, the model removes the rows
  that are gone, updates the changed ones in place and appends the new ones, telling its view about
  each change.  The model and a view that only sees the notifications are proved to agree, once, in a
  locale over the row type; the calls model and the lines model interpret it.
\<close>

subsection \<open>Rows and notifications\<close>

datatype role_value = RvInt int | RvString string | RvBool bool

text \<open>What the view is told; an inserted or changed row carries what \<open>data()\<close> answers for it then.\<close>

datatype ('e, 'r) row_signal =
    RowRemoved nat
  | RowInserted nat 'e
  | DataChanged nat "'r list" 'e

text \<open>Step 1, from the last row to the first.\<close>

fun remove_gone :: "('e \<Rightarrow> int) \<Rightarrow> 'e list \<Rightarrow> nat \<Rightarrow> 'e list \<Rightarrow> ('e, 'r) row_signal list \<times> 'e list" where
  "remove_gone idf nxt 0 snap = ([], snap)"
| "remove_gone idf nxt (Suc i) snap =
     (if list_ex (\<lambda>e. idf e = idf (snap ! i)) nxt then remove_gone idf nxt i snap
      else case remove_gone idf nxt i (take i snap @ drop (Suc i) snap) of
        (sigs, snap') \<Rightarrow> (RowRemoved i # sigs, snap'))"

fun find_row :: "('e \<Rightarrow> bool) \<Rightarrow> 'e list \<Rightarrow> nat option" where
  "find_row P [] = None"
| "find_row P (x # xs) = (if P x then Some 0 else map_option Suc (find_row P xs))"

text \<open>Step 2 for one entry.\<close>

definition upsert_row ::
  "('e \<Rightarrow> int) \<Rightarrow> ('e \<Rightarrow> 'e \<Rightarrow> 'r list) \<Rightarrow> 'e \<Rightarrow> 'e list \<Rightarrow> ('e, 'r) row_signal list \<times> 'e list" where
  "upsert_row idf changed e snap =
     (case find_row (\<lambda>x. idf x = idf e) snap of
        None \<Rightarrow> ([RowInserted (length snap) e], snap @ [e])
      | Some row \<Rightarrow>
          (let ch = changed (snap ! row) e
           in (if ch \<noteq> [] then [DataChanged row ch e] else [], snap[row := e])))"

fun upsert_rows ::
  "('e \<Rightarrow> int) \<Rightarrow> ('e \<Rightarrow> 'e \<Rightarrow> 'r list) \<Rightarrow> 'e list \<Rightarrow> 'e list \<Rightarrow> ('e, 'r) row_signal list \<times> 'e list" where
  "upsert_rows idf changed [] snap = ([], snap)"
| "upsert_rows idf changed (e # es) snap =
     (case upsert_row idf changed e snap of (s1, snap1) \<Rightarrow>
       (case upsert_rows idf changed es snap1 of (s2, snap2) \<Rightarrow> (s1 @ s2, snap2)))"

definition refresh_rows ::
  "('e \<Rightarrow> int) \<Rightarrow> ('e \<Rightarrow> 'e \<Rightarrow> 'r list) \<Rightarrow> 'e list \<Rightarrow> 'e list \<Rightarrow> ('e, 'r) row_signal list \<times> 'e list" where
  "refresh_rows idf changed nxt snap =
     (case remove_gone idf nxt (length snap) snap of (s1, snap1) \<Rightarrow>
       (case upsert_rows idf changed nxt snap1 of (s2, snap2) \<Rightarrow> (s1 @ s2, snap2)))"

text \<open>A view: one function from roles to values per row, kept only from the notifications.\<close>

fun view_apply :: "('e \<Rightarrow> 'r \<Rightarrow> role_value) \<Rightarrow> ('e, 'r) row_signal \<Rightarrow> ('r \<Rightarrow> role_value) list \<Rightarrow> ('r \<Rightarrow> role_value) list" where
  "view_apply dat (RowRemoved i) v = take i v @ drop (Suc i) v"
| "view_apply dat (RowInserted i e) v = take i v @ dat e # drop i v"
| "view_apply dat (DataChanged i roles e) v =
     v[i := (\<lambda>r. if r \<in> set roles then dat e r else (v ! i) r)]"

lemma find_row_None: "find_row P xs = None \<longleftrightarrow> (\<forall>x \<in> set xs. \<not> P x)"
  by (induction xs) auto

lemma find_row_Some: "find_row P xs = Some i \<Longrightarrow> i < length xs \<and> P (xs ! i)"
  by (induction xs arbitrary: i) (auto split: if_splits)

lemma remove_gone_rows:
  "n \<le> length snap \<Longrightarrow>
   snd (remove_gone idf nxt n snap) = filter (\<lambda>x. idf x \<in> idf ` set nxt) (take n snap) @ drop n snap"
proof (induction n arbitrary: snap)
  case (Suc n)
  have ex: "list_ex (\<lambda>e. idf e = idf (snap ! n)) nxt \<longleftrightarrow> idf (snap ! n) \<in> idf ` set nxt"
    unfolding list_ex_iff image_iff by metis
  from Suc.prems have n: "n < length snap" by simp
  show ?case
  proof (cases "idf (snap ! n) \<in> idf ` set nxt")
    case True
    with Suc ex n show ?thesis by (simp add: take_Suc_conv_app_nth Cons_nth_drop_Suc)
  next
    case False
    with Suc.IH[of "take n snap @ drop (Suc n) snap"] ex n show ?thesis
      by (auto simp: take_Suc_conv_app_nth min_def split: prod.split)
  qed
qed simp

lemma refresh_rows_pair:
  "refresh_rows idf changed nxt snap =
     (let rg = remove_gone idf nxt (length snap) snap; up = upsert_rows idf changed nxt (snd rg)
      in (fst rg @ fst up, snd up))"
  by (simp add: refresh_rows_def split: prod.split)

subsection \<open>The view follows the model\<close>

locale row_model =
  fixes idf :: "'e \<Rightarrow> int" and changed :: "'e \<Rightarrow> 'e \<Rightarrow> 'r list" and dat :: "'e \<Rightarrow> 'r \<Rightarrow> role_value"
  assumes changed_complete: "idf e = idf e' \<Longrightarrow> r \<notin> set (changed e e') \<Longrightarrow> dat e' r = dat e r"
begin

lemma view_remove_gone:
  "n \<le> length snap \<Longrightarrow>
   fold (view_apply dat) (fst (remove_gone idf nxt n snap)) (map dat snap)
     = map dat (filter (\<lambda>x. idf x \<in> idf ` set nxt) (take n snap) @ drop n snap)"
proof (induction n arbitrary: snap)
  case (Suc n)
  let ?snap = "take n snap @ drop (Suc n) snap"
  have ex: "list_ex (\<lambda>e. idf e = idf (snap ! n)) nxt \<longleftrightarrow> idf (snap ! n) \<in> idf ` set nxt"
    unfolding list_ex_iff image_iff by metis
  from Suc.prems have n: "n < length snap" by simp
  show ?case
  proof (cases "idf (snap ! n) \<in> idf ` set nxt")
    case True
    with Suc.IH[of snap] ex n show ?thesis
      by (simp add: take_Suc_conv_app_nth drop_map flip: Cons_nth_drop_Suc)
  next
    case False
    with Suc.IH[of ?snap] ex n show ?thesis
      by (auto simp: take_Suc_conv_app_nth min_def take_map drop_map split: prod.split)
  qed
qed simp

lemma view_upsert_row:
  "fold (view_apply dat) (fst (upsert_row idf changed e snap)) (map dat snap) = map dat (snd (upsert_row idf changed e snap))"
proof (cases "find_row (\<lambda>x. idf x = idf e) snap")
  case None
  then show ?thesis by (simp add: upsert_row_def)
next
  case (Some i)
  then have i: "i < length snap" "idf (snap ! i) = idf e" by (auto dest: find_row_Some)
  have same: "dat e r = dat (snap ! i) r" if "r \<notin> set (changed (snap ! i) e)" for r
    using changed_complete[OF i(2) that] .
  then have "(\<lambda>r. if r \<in> set (changed (snap ! i) e) then dat e r else (map dat snap ! i) r) = dat e" using i by auto
  moreover have "changed (snap ! i) e = [] \<Longrightarrow> dat e = dat (snap ! i)" using same by auto
  ultimately show ?thesis using i Some
    by (simp add: upsert_row_def Let_def map_update list_update_same_conv[THEN iffD2])
qed

lemma view_upsert_rows:
  "fold (view_apply dat) (fst (upsert_rows idf changed es snap)) (map dat snap) = map dat (snd (upsert_rows idf changed es snap))"
proof (induction es arbitrary: snap)
  case (Cons e es)
  show ?case
    using view_upsert_row[of e snap] Cons.IH[of "snd (upsert_row idf changed e snap)"]
    by (auto split: prod.split)
qed simp

lemma view_refresh_rows:
  "fold (view_apply dat) (fst (refresh_rows idf changed nxt snap)) (map dat snap) = map dat (snd (refresh_rows idf changed nxt snap))"
  by (simp add: refresh_rows_pair Let_def view_remove_gone remove_gone_rows view_upsert_rows del: map_append)

end

text \<open>The rows after a refresh: the surviving rows in their old order with their new content, then the
  new ones in the order of the source.\<close>

lemma upsert_row_ids:
  assumes "distinct (map idf snap)"
  shows "snd (upsert_row idf changed e snap) =
    (if idf e \<in> idf ` set snap then map (\<lambda>x. if idf x = idf e then e else x) snap else snap @ [e])"
proof (cases "find_row (\<lambda>x. idf x = idf e) snap")
  case None
  then have "idf e \<notin> idf ` set snap" by (auto simp: find_row_None)
  with None show ?thesis by (simp add: upsert_row_def)
next
  case (Some i)
  then have i: "i < length snap" "idf (snap ! i) = idf e" by (auto dest: find_row_Some)
  have "snap[i := e] = map (\<lambda>x. if idf x = idf e then e else x) snap"
  proof (rule nth_equalityI)
    fix j assume j: "j < length (snap[i := e])"
    show "snap[i := e] ! j = map (\<lambda>x. if idf x = idf e then e else x) snap ! j"
      using i j nth_eq_iff_index_eq[OF assms, of i j] by (cases "i = j") auto
  qed simp
  moreover have "idf e \<in> idf ` set snap" using i by (metis imageI nth_mem)
  ultimately show ?thesis using Some by (simp add: upsert_row_def Let_def)
qed

lemma upsert_rows_ids:
  assumes "distinct (map idf snap)" "distinct (map idf es)"
  shows "snd (upsert_rows idf changed es snap) =
    map (\<lambda>x. case find (\<lambda>e. idf e = idf x) es of Some e \<Rightarrow> e | None \<Rightarrow> x) snap
      @ filter (\<lambda>e. idf e \<notin> idf ` set snap) es"
  using assms
proof (induction es arbitrary: snap)
  case Nil
  then show ?case by (simp add: map_idI)
next
  case (Cons e es)
  let ?s = "snd (upsert_row idf changed e snap)"
  have e: "idf e \<notin> idf ` set es" using Cons.prems(2) by simp
  have s: "?s = (if idf e \<in> idf ` set snap then map (\<lambda>x. if idf x = idf e then e else x) snap else snap @ [e])"
    by (rule upsert_row_ids[OF Cons.prems(1)])
  have ids: "map idf ?s = (if idf e \<in> idf ` set snap then map idf snap else map idf snap @ [idf e])"
    by (auto simp: s)
  have "distinct (map idf ?s)" using Cons.prems(1) by (auto simp: ids)
  then have "snd (upsert_rows idf changed es ?s) =
      map (\<lambda>x. case find (\<lambda>e. idf e = idf x) es of Some e \<Rightarrow> e | None \<Rightarrow> x) ?s
        @ filter (\<lambda>e. idf e \<notin> idf ` set ?s) es"
    using Cons.IH Cons.prems(2) by simp
  moreover have "find (\<lambda>x. idf x = idf e) es = None"
    using e by (auto simp: find_None_iff image_iff)
  moreover have "filter (\<lambda>x. idf x \<notin> idf ` set ?s) es = filter (\<lambda>x. idf x \<notin> idf ` set snap) es"
  proof (intro filter_cong refl)
    fix x assume "x \<in> set es"
    then have "idf x \<noteq> idf e" using e by (metis imageI)
    moreover have "idf ` set ?s = set (map idf ?s)" by simp
    ultimately show "(idf x \<notin> idf ` set ?s) = (idf x \<notin> idf ` set snap)" unfolding ids by (auto simp: ids)
  qed
  moreover have "snd (upsert_rows idf changed (e # es) snap) = snd (upsert_rows idf changed es ?s)"
    by (simp split: prod.split)
  ultimately show ?case by (auto simp: s split: option.split)
qed

text \<open>What a refresh shows: the survivors first, in the order they had, then the new entries in the order
  of the source; each with the source's content.\<close>

lemma find_by_id: "distinct (map idf es) \<Longrightarrow> e \<in> set es \<Longrightarrow> find (\<lambda>x. idf x = idf e) es = Some e"
  by (induction es) (auto dest: imageI[of _ _ idf])

lemma refresh_rows_ids:
  assumes "distinct (map idf snap)" "distinct (map idf nxt)"
  shows "map idf (snd (refresh_rows idf changed nxt snap)) =
      filter (\<lambda>i. i \<in> idf ` set nxt) (map idf snap) @ filter (\<lambda>i. i \<notin> idf ` set snap) (map idf nxt)"
    and "set (snd (refresh_rows idf changed nxt snap)) = set nxt"
proof -
  let ?kept = "filter (\<lambda>x. idf x \<in> idf ` set nxt) snap"
  have d: "distinct (map idf ?kept)" using assms(1) by (simp add: distinct_map_filter)
  let ?new = "filter (\<lambda>e. idf e \<notin> idf ` set ?kept) nxt"
  let ?upd = "\<lambda>x. case find (\<lambda>e. idf e = idf x) nxt of Some e \<Rightarrow> e | None \<Rightarrow> x"
  have rows: "snd (refresh_rows idf changed nxt snap) = map ?upd ?kept @ ?new"
    using upsert_rows_ids[OF d assms(2), of changed] by (simp add: refresh_rows_pair Let_def remove_gone_rows)
  have upd: "?upd x \<in> set nxt \<and> idf (?upd x) = idf x" if "x \<in> set ?kept" for x
  proof -
    from that obtain e where e: "e \<in> set nxt" "idf e = idf x" by auto
    with find_by_id[OF assms(2), of e] show ?thesis by simp
  qed
  have ids: "idf ` set ?kept = idf ` set snap \<inter> idf ` set nxt" by auto
  have "map (\<lambda>x. idf (?upd x)) ?kept = map idf ?kept" by (rule map_cong[OF refl]) (rule upd[THEN conjunct2])
  then have "map idf (map ?upd ?kept) = map idf ?kept" by (simp add: comp_def)
  moreover have "filter (\<lambda>e. idf e \<notin> idf ` set ?kept) nxt = filter (\<lambda>e. idf e \<notin> idf ` set snap) nxt"
  proof (intro filter_cong refl)
    show "(idf e \<notin> idf ` set ?kept) = (idf e \<notin> idf ` set snap)" if "e \<in> set nxt" for e
      unfolding ids using that by blast
  qed
  ultimately show "map idf (snd (refresh_rows idf changed nxt snap)) =
      filter (\<lambda>i. i \<in> idf ` set nxt) (map idf snap) @ filter (\<lambda>i. i \<notin> idf ` set snap) (map idf nxt)"
    unfolding rows by (simp add: filter_map comp_def)
  have "e \<in> set (map ?upd ?kept) \<union> set ?new" if e: "e \<in> set nxt" for e
  proof (cases "idf e \<in> idf ` set ?kept")
    case True
    then obtain x where x: "x \<in> set ?kept" "idf x = idf e" by (metis imageE)
    then have "?upd x = e" using find_by_id[OF assms(2) e] by simp
    moreover have "?upd x \<in> set (map ?upd ?kept)" unfolding set_map by (rule imageI[OF x(1)])
    ultimately show ?thesis by simp
  qed (use e in simp)
  moreover have "set (map ?upd ?kept) \<subseteq> set nxt" using upd by auto
  ultimately show "set (snd (refresh_rows idf changed nxt snap)) = set nxt"
    unfolding rows by auto
qed

text \<open>A refresh when one row has a new content: at most one notification, for that row.\<close>

lemma remove_gone_none:
  "\<forall>i < n. idf (snap ! i) \<in> idf ` set nxt \<Longrightarrow> remove_gone idf nxt n snap = ([], snap)"
proof (induction n)
  case (Suc n)
  have "list_ex (\<lambda>e. idf e = idf (snap ! n)) nxt \<longleftrightarrow> idf (snap ! n) \<in> idf ` set nxt"
    unfolding list_ex_iff image_iff by metis
  with Suc show ?case by simp
qed simp

lemma find_row_at:
  assumes "distinct (map idf (us @ x # vs))" "idf y = idf x"
  shows "find_row (\<lambda>z. idf z = idf y) (us @ x # vs) = Some (length us)"
  using assms(1) by (induction us) (auto simp: assms(2))

lemma upsert_row_at:
  assumes "distinct (map idf (us @ x # vs))" "idf y = idf x"
  shows "upsert_row idf changed y (us @ x # vs) =
    (if changed x y \<noteq> [] then [DataChanged (length us) (changed x y) y] else [], us @ y # vs)"
  using find_row_at[OF assms] by (simp add: upsert_row_def Let_def nth_append)

lemma upsert_rows_append:
  "upsert_rows idf changed (es @ fs) snap =
     (case upsert_rows idf changed es snap of (s1, snap1) \<Rightarrow>
       (case upsert_rows idf changed fs snap1 of (s2, snap2) \<Rightarrow> (s1 @ s2, snap2)))"
  by (induction es arbitrary: snap) (auto split: prod.split)

lemma upsert_rows_same:
  "distinct (map idf snap) \<Longrightarrow> \<forall>x. changed x x = [] \<Longrightarrow> set es \<subseteq> set snap \<Longrightarrow>
   upsert_rows idf changed es snap = ([], snap)"
proof (induction es)
  case (Cons e es)
  then obtain us vs where s: "snap = us @ e # vs" by (meson list.set_intros(1) split_list subsetD)
  have "upsert_row idf changed e snap = ([], snap)"
    using upsert_row_at[of idf us e vs e changed] Cons.prems(1,2) by (simp add: s)
  with Cons show ?case by simp
qed simp

lemma refresh_rows_one:
  fixes changed :: "'e \<Rightarrow> 'e \<Rightarrow> 'r list"
  assumes "distinct (map idf (us @ x # vs))" "idf y = idf x" "\<forall>z. changed z z = []"
  shows "refresh_rows idf changed (us @ y # vs) (us @ x # vs) =
    (if changed x y \<noteq> [] then [DataChanged (length us) (changed x y) y] else [], us @ y # vs)"
proof -
  have "\<forall>i < length (us @ x # vs). idf ((us @ x # vs) ! i) \<in> set (map idf (us @ x # vs))"
    by (metis image_eqI length_map list.set_map nth_mem)
  moreover have "idf ` set (us @ y # vs) = set (map idf (us @ x # vs))" using assms(2) by (simp add: image_Un)
  ultimately have r: "remove_gone idf (us @ y # vs) (length (us @ x # vs)) (us @ x # vs)
      = (([], us @ x # vs) :: ('e, 'r) row_signal list \<times> 'e list)"
    by (intro remove_gone_none) simp
  have d: "distinct (map idf (us @ y # vs))" using assms(1,2) by simp
  have u: "upsert_rows idf changed us (us @ x # vs) = ([], us @ x # vs)"
    using assms(1,3) by (intro upsert_rows_same) auto
  have v: "upsert_rows idf changed vs (us @ y # vs) = ([], us @ y # vs)"
    using d assms(3) by (intro upsert_rows_same) auto
  show ?thesis
    unfolding refresh_rows_def r by (simp add: upsert_rows_append u v upsert_row_at[OF assms(1,2)])
qed

end
