(* ===== verification/CallsModel.thy ===== *)
theory CallsModel imports SipTypes RowModel "HOL-Library.Multiset" begin

text \<open>
  \<open>models/CallsModel.{h,cpp}\<close>: the roles of a row of the call list, which of them a refresh reports as
  changed, and the list model as an interpretation of the incremental refresh.
\<close>

subsection \<open>The calls model\<close>

datatype calls_role =
    CrIdRole | CrAccountIdRole | CrRemoteUriRole | CrRemoteDisplayNameRole | CrStateRole | CrHeldRole
  | CrMutedRole | CrRecordingRole | CrDirectionRole

fun calls_data :: "call_entry \<Rightarrow> calls_role \<Rightarrow> role_value" where
  "calls_data e CrIdRole = RvInt (ce_id e)"
| "calls_data e CrAccountIdRole = RvInt (ce_accountId e)"
| "calls_data e CrRemoteUriRole = RvString (ce_remoteUri e)"
| "calls_data e CrRemoteDisplayNameRole = RvString (ce_remoteDisplayName e)"
| "calls_data e CrStateRole = RvString (callStateToCString (ce_state e))"
| "calls_data e CrHeldRole = RvBool (ce_held e)"
| "calls_data e CrMutedRole = RvBool (ce_muted e)"
| "calls_data e CrRecordingRole = RvBool (ce_recording e)"
| "calls_data e CrDirectionRole = RvString (callDirectionToString (ce_direction e))"

text \<open>\<open>data(index, role)\<close>; an invalid index gives an invalid variant.\<close>

definition calls_data_at :: "call_entry list \<Rightarrow> int \<Rightarrow> calls_role \<Rightarrow> role_value option" where
  "calls_data_at snap row role =
     (if row < 0 \<or> row \<ge> int (length snap) then None else Some (calls_data (snap ! nat row) role))"

fun calls_role_name :: "calls_role \<Rightarrow> string" where
  "calls_role_name CrIdRole = ''callId''"
| "calls_role_name CrAccountIdRole = ''accountId''"
| "calls_role_name CrRemoteUriRole = ''remoteUri''"
| "calls_role_name CrRemoteDisplayNameRole = ''remoteDisplayName''"
| "calls_role_name CrStateRole = ''state''"
| "calls_role_name CrHeldRole = ''held''"
| "calls_role_name CrMutedRole = ''muted''"
| "calls_role_name CrRecordingRole = ''recording''"
| "calls_role_name CrDirectionRole = ''direction''"

definition calls_changed :: "call_entry \<Rightarrow> call_entry \<Rightarrow> calls_role list" where
  "calls_changed x e =
     (if ce_accountId x \<noteq> ce_accountId e then [CrAccountIdRole] else []) @
     (if ce_remoteUri x \<noteq> ce_remoteUri e then [CrRemoteUriRole] else []) @
     (if ce_remoteDisplayName x \<noteq> ce_remoteDisplayName e then [CrRemoteDisplayNameRole] else []) @
     (if ce_state x \<noteq> ce_state e then [CrStateRole] else []) @
     (if ce_held x \<noteq> ce_held e then [CrHeldRole] else []) @
     (if ce_muted x \<noteq> ce_muted e then [CrMutedRole] else []) @
     (if ce_recording x \<noteq> ce_recording e then [CrRecordingRole] else []) @
     (if ce_direction x \<noteq> ce_direction e then [CrDirectionRole] else [])"

definition calls_refresh :: "call_entry list \<Rightarrow> call_entry list \<Rightarrow> (call_entry, calls_role) row_signal list \<times> call_entry list" where
  "calls_refresh nxt snap = refresh_rows ce_id calls_changed nxt snap"

interpretation calls_rows: row_model ce_id calls_changed calls_data
proof
  fix e e' :: call_entry and r assume "ce_id e = ce_id e'" "r \<notin> set (calls_changed e e')"
  then show "calls_data e' r = calls_data e r"
    by (cases r) (auto simp: calls_changed_def split: if_splits)
qed

text \<open>C12. A refresh of the call list shows exactly the calls of the snapshot: the rows that stay keep
  their order, new calls come last, and a view that only applies the row notifications, re-reading
  only the roles they name, ends up with the data of every row.\<close>

theorem calls_refresh_exact:
  assumes "distinct (map ce_id snap)" "distinct (map ce_id nxt)" "calls_refresh nxt snap = (sigs, snap')"
  shows "mset snap' = mset nxt
    \<and> map ce_id snap' = filter (\<lambda>i. i \<in> ce_id ` set nxt) (map ce_id snap) @ filter (\<lambda>i. i \<notin> ce_id ` set snap) (map ce_id nxt)
    \<and> fold (view_apply calls_data) sigs (map calls_data snap) = map calls_data snap'"
proof -
  have s: "snap' = snd (refresh_rows ce_id calls_changed nxt snap)" "sigs = fst (refresh_rows ce_id calls_changed nxt snap)"
    using assms(3) by (simp_all add: calls_refresh_def)
  note ids = refresh_rows_ids[OF assms(1,2), of calls_changed, folded s(1)]
  have "distinct (map ce_id snap')" using assms(1,2) by (auto simp: ids(1))
  then have "mset snap' = mset nxt"
    using assms(2) ids(2) by (metis distinct_map set_eq_iff_mset_eq_distinct)
  then show ?thesis using ids(1) calls_rows.view_refresh_rows[of nxt snap] by (simp add: s)
qed

theorem calls_refresh_exact_witness:
  "map ce_id (snd (calls_refresh [default_call_entry\<lparr>ce_id := 3\<rparr>, default_call_entry\<lparr>ce_id := 1, ce_held := True\<rparr>]
     [default_call_entry\<lparr>ce_id := 1\<rparr>, default_call_entry\<lparr>ce_id := 2\<rparr>])) = [1, 3]"
  using calls_refresh_exact[of "[default_call_entry\<lparr>ce_id := 1\<rparr>, default_call_entry\<lparr>ce_id := 2\<rparr>]"
      "[default_call_entry\<lparr>ce_id := 3\<rparr>, default_call_entry\<lparr>ce_id := 1, ce_held := True\<rparr>]", OF _ _ prod.collapse[symmetric]]
  by simp

end
