(* ===== verification/CallsControl.thy ===== *)
theory CallsControl imports PhoneCore SipUri History Settings CallsModel begin

text \<open>
  \<open>core/CallsController.{h,cpp}\<close>: the call controller between the user interface and the core.  It
  reacts to the call manager's signals (do not disturb, call forwarding, auto-answer, the call log,
  the ringing state) and carries out the user's commands.

  Each pointer the code checks for null is an option.  What a handler reads from outside is gathered
  in \<open>cc_env\<close>: the accounts and settings as they are then, the clock, the iteration order of the
  call map, the outcomes of the SQL statements.  A \<open>callEvent\<close> is requeued to the controller's event
  loop: it waits in \<open>cc_queued\<close>.  Timers are pending actions that fire in any order.  Signals are a log.
\<close>

subsection \<open>Looking at a snapshot\<close>

fun callStateToString :: "call_state \<Rightarrow> string" where
  "callStateToString Idle = ''idle''"
| "callStateToString Calling = ''calling''"
| "callStateToString EarlyMedia = ''early''"
| "callStateToString Confirmed = ''active''"
| "callStateToString Disconnected = ''ended''"

definition findCallEntry :: "call_entry list \<Rightarrow> call_id \<Rightarrow> call_entry option" where
  "findCallEntry snap i = find (\<lambda>e. ce_id e = i) snap"

fun aggregate_loop :: "bool \<Rightarrow> bool \<Rightarrow> call_entry list \<Rightarrow> call_state \<Rightarrow> string" where
  "aggregate_loop hasCalling hasEarly [] fallback =
     (if hasEarly then ''early'' else if hasCalling then ''calling'' else callStateToString fallback)"
| "aggregate_loop hasCalling hasEarly (e # es) fallback =
     (if ce_state e = Confirmed then ''active''
      else aggregate_loop (hasCalling \<or> ce_state e = Calling) (hasEarly \<or> ce_state e = EarlyMedia) es fallback)"

definition aggregateCallState :: "call_entry list \<Rightarrow> call_state \<Rightarrow> string" where
  "aggregateCallState snap fallback = aggregate_loop False False snap fallback"

definition entry_rings :: "call_entry \<Rightarrow> bool" where
  "entry_rings e \<longleftrightarrow> ce_direction e = Inbound \<and> ce_state e = Calling
     \<or> ce_direction e = Outbound \<and> (ce_state e = Calling \<or> ce_state e = EarlyMedia)"

definition snapshotIsRinging :: "call_entry list \<Rightarrow> bool" where
  "snapshotIsRinging snap = list_ex entry_rings snap"

subsection \<open>State\<close>

datatype cc_timer = AutoAnswer call_id | ForwardNoAnswer call_id string | RetryRecording call_id

datatype cc_signal = CcCallStateChanged | CcIncomingCallChanged | CcRingingChanged bool | CcNotice string

record 'b calls_controller =
  cc_calls :: "'b call_manager option"
  cc_callsModel :: "call_entry list option"
  cc_history :: "database option"
  cc_historyModel :: "history_entry list option"
  cc_callState :: string
  cc_currentCallId :: int
  cc_incomingCallId :: int
  cc_incomingCallFrom :: string
  cc_ringing :: bool
  cc_callSessions :: sessions
  cc_queued :: "(call_id \<times> call_state) list"
  cc_timers :: "(int \<times> cc_timer) list"
  cc_signals :: "cc_signal list"

definition cc_new :: "'b call_manager option \<Rightarrow> call_entry list option \<Rightarrow> database option \<Rightarrow>
    history_entry list option \<Rightarrow> 'b calls_controller" where
  "cc_new cm model hist hmodel = \<lparr>cc_calls = cm, cc_callsModel = model, cc_history = hist, cc_historyModel = hmodel,
     cc_callState = ''idle'', cc_currentCallId = -1, cc_incomingCallId = -1, cc_incomingCallFrom = [],
     cc_ringing = False, cc_callSessions = [], cc_queued = [], cc_timers = [], cc_signals = []\<rparr>"

record ('c, 'k, 'u, 'a) cc_env =
  env_accounts :: "('c, 'k) accounts_manager option"
  env_settings :: "('u, 'a) settings_controller option"
  env_activeAccount :: "int option"
  env_now :: int
  env_stamp :: string
  env_order :: "call_id list \<Rightarrow> call_id list"
  env_sql :: "nat \<Rightarrow> bool"
  env_rows :: "(int \<times> history_row) list \<Rightarrow> (int \<times> history_row) list"

definition cc_emit :: "cc_signal \<Rightarrow> 'b calls_controller \<Rightarrow> 'b calls_controller" where
  "cc_emit s cc = cc\<lparr>cc_signals := cc_signals cc @ [s]\<rparr>"

definition cc_snapshot :: "('c, 'k, 'u, 'a) cc_env \<Rightarrow> 'b calls_controller \<Rightarrow> call_entry list" where
  "cc_snapshot env cc = (case cc_calls cc of None \<Rightarrow> [] | Some cm \<Rightarrow> snapshot (env_order env) cm)"

text \<open>The calls model refreshes itself from the call manager.\<close>

definition refreshCallsModel :: "('c, 'k, 'u, 'a) cc_env \<Rightarrow> 'b calls_controller \<Rightarrow> 'b calls_controller" where
  "refreshCallsModel env cc =
     cc\<lparr>cc_callsModel := map_option (\<lambda>rows. snd (calls_refresh (cc_snapshot env cc) rows)) (cc_callsModel cc)\<rparr>"

definition publishRinging :: "bool \<Rightarrow> 'b calls_controller \<Rightarrow> 'b calls_controller" where
  "publishRinging now cc =
     (if now = cc_ringing cc then cc else cc_emit (CcRingingChanged now) (cc\<lparr>cc_ringing := now\<rparr>))"

definition publishRingingState :: "('c, 'k, 'u, 'a) cc_env \<Rightarrow> 'b calls_controller \<Rightarrow> 'b calls_controller" where
  "publishRingingState env cc =
     (case cc_calls cc of None \<Rightarrow> publishRinging False cc
      | Some cm \<Rightarrow> publishRinging (snapshotIsRinging (snapshot (env_order env) cm)) cc)"

definition cc_ringingNow :: "('c, 'k, 'u, 'a) cc_env \<Rightarrow> 'b calls_controller \<Rightarrow> bool" where
  "cc_ringingNow env cc = (case cc_calls cc of None \<Rightarrow> False | Some cm \<Rightarrow> snapshotIsRinging (snapshot (env_order env) cm))"

definition postNotice :: "string \<Rightarrow> 'b calls_controller \<Rightarrow> 'b calls_controller" where
  "postNotice text cc = cc_emit (CcNotice text) cc"

text \<open>Calling an operation of the call manager that answers with a boolean and emits no signal.\<close>

definition on_manager ::
  "('b call_manager \<Rightarrow> 'r \<times> 'b call_manager) \<Rightarrow> 'r \<Rightarrow> 'b calls_controller \<Rightarrow> 'r \<times> 'b calls_controller" where
  "on_manager f r0 cc =
     (case cc_calls cc of None \<Rightarrow> (r0, cc)
      | Some cm \<Rightarrow> (case f cm of (r, cm1) \<Rightarrow> (r, cc\<lparr>cc_calls := Some cm1\<rparr>)))"

definition cc_singleShot :: "int \<Rightarrow> cc_timer \<Rightarrow> 'b calls_controller \<Rightarrow> 'b calls_controller" where
  "cc_singleShot ms t cc = cc\<lparr>cc_timers := cc_timers cc @ [(ms, t)]\<rparr>"

subsection \<open>Commands of the user\<close>

definition dial_target :: "('c, 'k, 'u, 'a) cc_env \<Rightarrow> string \<Rightarrow> account_id \<times> string" where
  "dial_target env uri =
     (let aid = (case env_activeAccount env of Some a \<Rightarrow> a | None \<Rightarrow> -1);
          resolvedId = (if aid > 0 then aid
                        else case env_accounts env of Some am \<Rightarrow> defaultAccountId am | None \<Rightarrow> kInvalidAccountId);
          u = trim_with q_space uri
      in (resolvedId,
          case env_accounts env of
            None \<Rightarrow> u
          | Some am \<Rightarrow>
              if resolvedId = kInvalidAccountId then u
              else (case am_find resolvedId am of
                      Some acc \<Rightarrow> normalizeSipTarget u (acc_domain acc) (acc_transport acc)
                    | None \<Rightarrow> u)))"

definition dial :: "'b isip_backend \<Rightarrow> ('b, 'k, 'u, 'a) cc_env \<Rightarrow> string \<Rightarrow> 'b calls_controller \<Rightarrow> 'b calls_controller" where
  "dial B env uri cc =
     (case cc_calls cc of
        None \<Rightarrow> cc
      | Some cm \<Rightarrow>
          if trim_with q_space uri = [] then cc
          else
            (let aid = (case env_activeAccount env of Some a \<Rightarrow> a | None \<Rightarrow> -1);
                 (resolvedId, normalizedUri) = dial_target env uri
             in if hasLiveOutboundTo normalizedUri (cc_callSessions cc) then cc
                else
                  (let (cur, cm1) =
                         (if aid > 0 then makeCallFrom B (env_accounts env) aid normalizedUri cm
                          else if env_accounts env \<noteq> None then makeCallDefault B (env_accounts env) normalizedUri cm
                          else (cc_currentCallId cc, cm));
                       cc1 = cc\<lparr>cc_calls := Some cm1, cc_currentCallId := cur\<rparr>;
                       cc2 = (if cur \<ge> 0
                              then cc1\<lparr>cc_callSessions := noteOutbound cur resolvedId normalizedUri (env_now env) (cc_callSessions cc1)\<rparr>
                              else cc1)
                   in refreshCallsModel env cc2)))"

definition cc_hangup :: "'b isip_backend \<Rightarrow> int \<Rightarrow> 'b calls_controller \<Rightarrow> 'b calls_controller" where
  "cc_hangup B i cc = (if i \<ge> 0 then snd (on_manager (\<lambda>cm. ((), cm_hangup B i cm)) () cc) else cc)"

definition cc_hold :: "'b isip_backend \<Rightarrow> ('c, 'k, 'u, 'a) cc_env \<Rightarrow> int \<Rightarrow> 'b calls_controller \<Rightarrow> bool \<times> 'b calls_controller" where
  "cc_hold B env i cc = (case on_manager (cm_hold B i) False cc of
     (ok, cc1) \<Rightarrow> (ok, if ok then refreshCallsModel env cc1 else cc1))"

definition cc_unhold :: "'b isip_backend \<Rightarrow> ('c, 'k, 'u, 'a) cc_env \<Rightarrow> int \<Rightarrow> 'b calls_controller \<Rightarrow> bool \<times> 'b calls_controller" where
  "cc_unhold B env i cc = (case on_manager (cm_unhold B i) False cc of
     (ok, cc1) \<Rightarrow> (ok, if ok then refreshCallsModel env cc1 else cc1))"

definition cc_setMuted ::
  "'b isip_backend \<Rightarrow> ('c, 'k, 'u, 'a) cc_env \<Rightarrow> int \<Rightarrow> bool \<Rightarrow> 'b calls_controller \<Rightarrow> bool \<times> 'b calls_controller" where
  "cc_setMuted B env i muted cc = (case on_manager (cm_setMuted B i muted) False cc of
     (ok, cc1) \<Rightarrow> (ok, if ok then refreshCallsModel env cc1 else cc1))"

definition cc_sendDtmf ::
  "'b isip_backend \<Rightarrow> ('c, 'k, 'u, 'a) cc_env \<Rightarrow> int \<Rightarrow> string \<Rightarrow> 'b calls_controller \<Rightarrow> bool \<times> 'b calls_controller" where
  "cc_sendDtmf B env i digits cc = on_manager (cm_sendDtmf B (env_accounts env) i digits) False cc"

definition clear_incoming :: "('c, 'k, 'u, 'a) cc_env \<Rightarrow> 'b calls_controller \<Rightarrow> 'b calls_controller" where
  "clear_incoming env cc = publishRingingState env (refreshCallsModel env
     (cc_emit CcIncomingCallChanged (cc\<lparr>cc_incomingCallId := -1, cc_incomingCallFrom := []\<rparr>)))"

definition acceptIncoming :: "'b isip_backend \<Rightarrow> ('c, 'k, 'u, 'a) cc_env \<Rightarrow> 'b calls_controller \<Rightarrow> bool \<times> 'b calls_controller" where
  "acceptIncoming B env cc =
     (if cc_calls cc = None \<or> cc_incomingCallId cc < 0 then (False, cc)
      else case on_manager (cm_accept B (cc_incomingCallId cc)) False cc of
        (ok, cc1) \<Rightarrow> (ok, if ok then clear_incoming env cc1 else cc1))"

definition declineIncoming :: "'b isip_backend \<Rightarrow> ('c, 'k, 'u, 'a) cc_env \<Rightarrow> 'b calls_controller \<Rightarrow> bool \<times> 'b calls_controller" where
  "declineIncoming B env cc =
     (if cc_calls cc = None \<or> cc_incomingCallId cc < 0 then (False, cc)
      else case on_manager (cm_decline B (cc_incomingCallId cc)) False cc of
        (ok, cc1) \<Rightarrow> (ok, if ok then clear_incoming env cc1 else cc1))"

definition cc_blindTransfer ::
  "'b isip_backend \<Rightarrow> ('c, 'k, 'u, 'a) cc_env \<Rightarrow> int \<Rightarrow> string \<Rightarrow> 'b calls_controller \<Rightarrow> bool \<times> 'b calls_controller" where
  "cc_blindTransfer B env i targetUri cc =
     (case cc_calls cc of
        None \<Rightarrow> (False, cc)
      | Some cm \<Rightarrow>
          (let acct = (case findCallEntry (snapshot (env_order env) cm) i of
                 None \<Rightarrow> None
               | Some e \<Rightarrow> (case env_accounts env of None \<Rightarrow> None | Some am \<Rightarrow> am_find (ce_accountId e) am));
               normalizedTarget = (case acct of
                 Some a \<Rightarrow> normalizeSipTarget targetUri (acc_domain a) (acc_transport a) | None \<Rightarrow> targetUri);
               (ok, cc1) = on_manager (cm_blindTransfer B i normalizedTarget) False cc
           in (ok, postNotice (if ok then ''Transferring...'' else ''Transfer failed'') cc1)))"

definition cc_attendedTransfer ::
  "'b isip_backend \<Rightarrow> int \<Rightarrow> int \<Rightarrow> 'b calls_controller \<Rightarrow> bool \<times> 'b calls_controller" where
  "cc_attendedTransfer B active dest cc =
     (if cc_calls cc = None then (False, cc)
      else case on_manager (cm_attendedTransfer B active dest) False cc of
        (ok, cc1) \<Rightarrow> (ok, postNotice (if ok then ''Transferring...'' else ''Transfer failed'') cc1))"

definition cc_mergeCalls :: "'b isip_backend \<Rightarrow> int \<Rightarrow> int \<Rightarrow> 'b calls_controller \<Rightarrow> bool \<times> 'b calls_controller" where
  "cc_mergeCalls B active held cc =
     (if cc_calls cc = None then (False, cc)
      else case on_manager (mergeCalls B active held) False cc of
        (ok, cc1) \<Rightarrow> (ok, postNotice (if ok then ''Calls merged'' else ''Could not merge calls'') cc1))"

text \<open>The directory is created on disk first; \<open>env_stamp\<close> is the formatted current time.\<close>

definition cc_startRecording ::
  "'b isip_backend \<Rightarrow> ('c, 'k, 'u, 'a) cc_env \<Rightarrow> int \<Rightarrow> 'b calls_controller \<Rightarrow> bool \<times> 'b calls_controller" where
  "cc_startRecording B env i cc =
     (case env_settings env of
        None \<Rightarrow> (False, cc)
      | Some sc \<Rightarrow>
          (let dir = recordingsPath sc;
               full = dir @ ''/'' @ ''call_'' @ int_to_string i @ ''_'' @ env_stamp env @ ''.wav''
           in if cc_calls cc = None \<or> dir = [] then (False, cc)
              else case on_manager (cm_startRecording B i full) False cc of
                (ok, cc1) \<Rightarrow> (ok, if ok then postNotice ''Recording started'' cc1 else cc1)))"

definition cc_stopRecording :: "'b isip_backend \<Rightarrow> int \<Rightarrow> 'b calls_controller \<Rightarrow> bool \<times> 'b calls_controller" where
  "cc_stopRecording B i cc =
     (case on_manager (cm_stopRecording B i) False cc of
        (ok, cc1) \<Rightarrow> (ok, if ok then postNotice ''Recording saved'' cc1 else cc1))"

definition cc_isRecording :: "int \<Rightarrow> 'b calls_controller \<Rightarrow> bool" where
  "cc_isRecording i cc = (case cc_calls cc of None \<Rightarrow> False | Some cm \<Rightarrow> isRecording i cm)"

subsection \<open>Reacting to the call manager\<close>

text \<open>Precedence: do not disturb, forward always, forward when busy, auto-answer, forward on no answer.\<close>

definition cc_onIncomingCall ::
  "'b isip_backend \<Rightarrow> ('c, 'k, 'u, 'a) cc_env \<Rightarrow> call_id \<Rightarrow> 'b calls_controller \<Rightarrow> 'b calls_controller" where
  "cc_onIncomingCall B env i cc =
     (case cc_calls cc of
        None \<Rightarrow> cc
      | Some cm \<Rightarrow>
          (let cc1 = (refreshCallsModel env cc)\<lparr>cc_incomingCallId := i\<rparr>;
               cc2 = (case findCallEntry (snapshot (env_order env) cm) i of
                        Some e \<Rightarrow> cc1\<lparr>cc_callSessions := noteIncoming e (env_now env) (cc_callSessions cc1),
                                       cc_incomingCallFrom := ce_remoteUri e\<rparr>
                      | None \<Rightarrow> cc1);
               cc3 = cc_emit CcIncomingCallChanged cc2
           in case env_settings env of
                None \<Rightarrow> publishRingingState env cc3
              | Some sc \<Rightarrow>
                  (let always = trim_with q_space (sc_cfwdAlwaysTarget sc);
                       busy = trim_with q_space (sc_cfwdBusyTarget sc);
                       noAnswer = trim_with q_space (sc_cfwdNoAnswerTarget sc)
                   in if sc_dndEnabled sc then snd (on_manager (cm_decline B i) False cc3)
                      else if sc_cfwdAlwaysEnabled sc \<and> always \<noteq> []
                      then snd (on_manager (forwardCall B i always) False cc3)
                      else if sc_cfwdBusyEnabled sc \<and> callCount cm > 1 \<and> busy \<noteq> []
                      then snd (on_manager (forwardCall B i busy) False cc3)
                      else publishRingingState env
                        (if sc_autoAnswerEnabled sc
                         then cc_singleShot (sc_autoAnswerDelayMs sc) (AutoAnswer i) cc3
                         else if sc_cfwdNoAnswerEnabled sc \<and> noAnswer \<noteq> []
                         then cc_singleShot (sc_cfwdNoAnswerTimeoutMs sc) (ForwardNoAnswer i noAnswer) cc3
                         else cc3))))"

definition cc_onCallsChanged :: "('c, 'k, 'u, 'a) cc_env \<Rightarrow> 'b calls_controller \<Rightarrow> 'b calls_controller" where
  "cc_onCallsChanged env cc =
     (let cc1 = refreshCallsModel env cc;
          none = (case cc_calls cc1 of None \<Rightarrow> False | Some cm \<Rightarrow> callCount cm = 0)
      in publishRingingState env
           (if none \<and> cc_currentCallId cc1 \<ge> 0 then cc1\<lparr>cc_currentCallId := -1\<rparr> else cc1))"

text \<open>The requeued part of the \<open>callEvent\<close> handler.\<close>

definition log_call :: "('c, 'k, 'u, 'a) cc_env \<Rightarrow> history_entry \<Rightarrow> 'b calls_controller \<Rightarrow> 'b calls_controller" where
  "log_call env h cc =
     (let hist = map_option (\<lambda>db. snd (hm_append (env_sql env) h db)) (cc_history cc)
      in cc\<lparr>cc_history := hist,
            cc_historyModel := map_option (\<lambda>_. case hist of None \<Rightarrow> []
                | Some db \<Rightarrow> hm_list (env_rows env) (env_sql env 3) 200 db) (cc_historyModel cc)\<rparr>)"

definition cc_onCallEvent ::
  "'b isip_backend \<Rightarrow> ('c, 'k, 'u, 'a) cc_env \<Rightarrow> call_id \<Rightarrow> call_state \<Rightarrow> 'b calls_controller \<Rightarrow> 'b calls_controller" where
  "cc_onCallEvent B env i s cc =
     (let snap = cc_snapshot env cc;
          e = (case findCallEntry snap i of Some found \<Rightarrow> found | None \<Rightarrow> default_call_entry\<lparr>ce_id := i\<rparr>);
          (h, ss) = noteState e s (env_now env) (cc_callSessions cc);
          cc1 = cc\<lparr>cc_callSessions := ss\<rparr>;
          cc2 = (case h of Some entry \<Rightarrow> log_call env entry cc1 | None \<Rightarrow> cc1);
          cc3 = (if s = Disconnected \<and> i = cc_currentCallId cc2 then cc2\<lparr>cc_currentCallId := -1\<rparr> else cc2);
          cc4 = publishRinging (snapshotIsRinging snap)
                  (refreshCallsModel env (cc3\<lparr>cc_callState := aggregateCallState snap s\<rparr>));
          cc5 = (if s = Disconnected \<and> cc_incomingCallId cc4 = i
                 then cc_emit CcIncomingCallChanged (cc4\<lparr>cc_incomingCallId := -1, cc_incomingCallFrom := []\<rparr>)
                 else cc4);
          autoRecord = (case env_settings env of None \<Rightarrow> False | Some sc \<Rightarrow> sc_autoRecordEnabled sc);
          cc6 = (if s = Confirmed \<and> autoRecord
                 then (case cc_startRecording B env i cc5 of
                         (ok, c) \<Rightarrow> if ok then c else cc_singleShot 500 (RetryRecording i) c)
                 else cc5)
      in cc_emit CcCallStateChanged cc6)"

definition on_cm_signal ::
  "'b isip_backend \<Rightarrow> ('c, 'k, 'u, 'a) cc_env \<Rightarrow> cm_signal \<Rightarrow> 'b calls_controller \<Rightarrow> 'b calls_controller" where
  "on_cm_signal B env sig cc = (case sig of
     IncomingCall i \<Rightarrow> cc_onIncomingCall B env i cc
   | CallsChanged \<Rightarrow> cc_onCallsChanged env cc
   | CallEvent i s \<Rightarrow> cc\<lparr>cc_queued := cc_queued cc @ [(i, s)]\<rparr>
   | CallStateChanged s \<Rightarrow> cc)"

text \<open>
  A step of the call manager, with the controller's slots run for the signals it emits, in order.
  Every signal of the manager that a slot reacts to at once is the last thing its operation does, so
  running the slots after the step shows them the state they see in the program.
\<close>

definition manager_step ::
  "'b isip_backend \<Rightarrow> ('c, 'k, 'u, 'a) cc_env \<Rightarrow> ('b call_manager \<Rightarrow> 'b call_manager) \<Rightarrow>
   'b calls_controller \<Rightarrow> 'b calls_controller" where
  "manager_step B env f cc =
     (case cc_calls cc of
        None \<Rightarrow> cc
      | Some cm \<Rightarrow>
          (let cm1 = f (cm\<lparr>cm_signals := []\<rparr>)
           in fold (on_cm_signal B env) (cm_signals cm1)
                (cc\<lparr>cc_calls := Some (cm1\<lparr>cm_signals := cm_signals cm @ cm_signals cm1\<rparr>)\<rparr>)))"

definition backend_event ::
  "'b isip_backend \<Rightarrow> ('b, 'k, 'u, 'a) cc_env \<Rightarrow> listener_event \<Rightarrow> 'b calls_controller \<Rightarrow> 'b calls_controller" where
  "backend_event B env ev cc = manager_step B env (cm_event B (env_accounts env) (env_order env) ev) cc"

definition manager_timer ::
  "'b isip_backend \<Rightarrow> ('c, 'k, 'u, 'a) cc_env \<Rightarrow> nat \<Rightarrow> 'b calls_controller \<Rightarrow> 'b calls_controller" where
  "manager_timer B env n cc = manager_step B env (fire_timer B n) cc"

definition deliver_queued ::
  "'b isip_backend \<Rightarrow> ('c, 'k, 'u, 'a) cc_env \<Rightarrow> 'b calls_controller \<Rightarrow> 'b calls_controller" where
  "deliver_queued B env cc =
     (case cc_queued cc of
        [] \<Rightarrow> cc
      | (i, s) # q \<Rightarrow> cc_onCallEvent B env i s (cc\<lparr>cc_queued := q\<rparr>))"

definition run_cc_timer ::
  "'b isip_backend \<Rightarrow> ('c, 'k, 'u, 'a) cc_env \<Rightarrow> cc_timer \<Rightarrow> 'b calls_controller \<Rightarrow> 'b calls_controller" where
  "run_cc_timer B env t cc = (case t of
     AutoAnswer i \<Rightarrow>
       if cc_incomingCallId cc = i then snd (on_manager (cm_accept B i) False cc) else cc
   | ForwardNoAnswer i target \<Rightarrow>
       if cc_incomingCallId cc = i then snd (on_manager (forwardCall B i target) False cc) else cc
   | RetryRecording i \<Rightarrow> snd (cc_startRecording B env i cc))"

definition fire_cc_timer ::
  "'b isip_backend \<Rightarrow> ('c, 'k, 'u, 'a) cc_env \<Rightarrow> nat \<Rightarrow> 'b calls_controller \<Rightarrow> 'b calls_controller" where
  "fire_cc_timer B env n cc =
     (if n < length (cc_timers cc)
      then run_cc_timer B env (snd (cc_timers cc ! n))
             (cc\<lparr>cc_timers := take n (cc_timers cc) @ drop (Suc n) (cc_timers cc)\<rparr>)
      else cc)"

subsection \<open>What each part leaves alone\<close>

lemma refresh_frames [simp]:
  "cc_calls (refreshCallsModel env cc) = cc_calls cc" "cc_callSessions (refreshCallsModel env cc) = cc_callSessions cc"
  "cc_incomingCallId (refreshCallsModel env cc) = cc_incomingCallId cc" "cc_timers (refreshCallsModel env cc) = cc_timers cc"
  "cc_ringing (refreshCallsModel env cc) = cc_ringing cc" "cc_signals (refreshCallsModel env cc) = cc_signals cc"
  "cc_queued (refreshCallsModel env cc) = cc_queued cc" "cc_currentCallId (refreshCallsModel env cc) = cc_currentCallId cc"
  by (simp_all add: refreshCallsModel_def)

lemma emit_frames [simp]:
  "cc_calls (cc_emit s cc) = cc_calls cc" "cc_callSessions (cc_emit s cc) = cc_callSessions cc"
  "cc_incomingCallId (cc_emit s cc) = cc_incomingCallId cc" "cc_timers (cc_emit s cc) = cc_timers cc"
  "cc_ringing (cc_emit s cc) = cc_ringing cc" "cc_signals (cc_emit s cc) = cc_signals cc @ [s]"
  "cc_queued (cc_emit s cc) = cc_queued cc" "cc_currentCallId (cc_emit s cc) = cc_currentCallId cc"
  "cc_callsModel (cc_emit s cc) = cc_callsModel cc"
  by (simp_all add: cc_emit_def)

lemma shot_frames [simp]:
  "cc_calls (cc_singleShot ms t cc) = cc_calls cc" "cc_callSessions (cc_singleShot ms t cc) = cc_callSessions cc"
  "cc_incomingCallId (cc_singleShot ms t cc) = cc_incomingCallId cc" "cc_timers (cc_singleShot ms t cc) = cc_timers cc @ [(ms, t)]"
  "cc_ringing (cc_singleShot ms t cc) = cc_ringing cc" "cc_signals (cc_singleShot ms t cc) = cc_signals cc"
  "cc_queued (cc_singleShot ms t cc) = cc_queued cc"
  by (simp_all add: cc_singleShot_def)

lemma publish_frames [simp]:
  "cc_calls (publishRinging r cc) = cc_calls cc" "cc_callSessions (publishRinging r cc) = cc_callSessions cc"
  "cc_incomingCallId (publishRinging r cc) = cc_incomingCallId cc" "cc_timers (publishRinging r cc) = cc_timers cc"
  "cc_ringing (publishRinging r cc) = r" "cc_queued (publishRinging r cc) = cc_queued cc"
  "cc_currentCallId (publishRinging r cc) = cc_currentCallId cc"
  by (simp_all add: publishRinging_def)

lemma publishState_frames [simp]:
  "cc_calls (publishRingingState env cc) = cc_calls cc" "cc_callSessions (publishRingingState env cc) = cc_callSessions cc"
  "cc_incomingCallId (publishRingingState env cc) = cc_incomingCallId cc"
  "cc_timers (publishRingingState env cc) = cc_timers cc" "cc_queued (publishRingingState env cc) = cc_queued cc"
  by (simp_all add: publishRingingState_def split: option.split)

lemma on_manager_frames [simp]:
  "cc_callSessions (snd (on_manager f r cc)) = cc_callSessions cc"
  "cc_incomingCallId (snd (on_manager f r cc)) = cc_incomingCallId cc" "cc_timers (snd (on_manager f r cc)) = cc_timers cc"
  "cc_ringing (snd (on_manager f r cc)) = cc_ringing cc" "cc_signals (snd (on_manager f r cc)) = cc_signals cc"
  "cc_queued (snd (on_manager f r cc)) = cc_queued cc"
  by (simp_all add: on_manager_def split: option.split prod.split)

lemma on_manager_calls: "cc_calls cc = Some cm \<Longrightarrow> cc_calls (snd (on_manager f r cc)) = Some (snd (f cm))"
  by (simp add: on_manager_def split: prod.split)

subsection \<open>Incoming calls\<close>

text \<open>The call manager's part of an incoming call for a known account.\<close>

definition announced :: "account_id \<Rightarrow> call_id \<Rightarrow> string \<Rightarrow> string \<Rightarrow> 'b call_manager \<Rightarrow> 'b call_manager" where
  "announced acc i uri name cm = cm\<lparr>cm_records := aput i (new_call_record\<lparr>cr_accountId := acc, cr_remoteUri := uri,
     cr_remoteDisplayName := name, cr_inbound := True, cr_state := Calling\<rparr>) (cm_records cm)\<rparr>"

lemma announced_simps [simp]:
  "cm_backend (announced acc i uri name cm) = cm_backend cm"
  "cm_find i (announced acc i uri name cm) = Some (new_call_record\<lparr>cr_accountId := acc, cr_remoteUri := uri,
     cr_remoteDisplayName := name, cr_inbound := True, cr_state := Calling\<rparr>)"
  "cm_signals (announced acc i uri name cm) = cm_signals cm"
  by (simp_all add: announced_def cm_find_def)

lemma announced_rings:
  assumes "\<And>xs. mset (ord xs) = mset xs"
  shows "snapshotIsRinging (snapshot ord (announced acc i uri name cm))"
proof -
  let ?m = "cm_records (announced acc i uri name cm)"
  let ?r = "new_call_record\<lparr>cr_accountId := acc, cr_remoteUri := uri, cr_remoteDisplayName := name,
     cr_inbound := True, cr_state := Calling\<rparr>"
  have "map_of ?m i = Some ?r" by (simp add: announced_def)
  then have "entry_of_record i ?r \<in> set (in_order ord ?m)"
    using in_order_entries[where ord = ord and m = ?m and e = "entry_of_record i ?r", OF assms] by (simp add: entry_of_record_def)
  moreover have "entry_rings (entry_of_record i ?r)" by (simp add: entry_rings_def entry_of_record_def)
  ultimately show ?thesis unfolding snapshotIsRinging_def snapshot_def list_ex_iff by auto
qed

lemma snapshot_signals [simp]: "snapshot ord (cm\<lparr>cm_signals := ss\<rparr>) = snapshot ord cm"
  by (simp add: snapshot_def)

lemma incoming_steps:
  assumes "cc_calls cc = Some cm" "\<not> ahas (cm_records cm) i" "env_accounts env = Some am"
    and "accountIdForBackend bid am = acc" "acc \<noteq> kInvalidAccountId"
  shows "\<exists>cm'. cm' = (announced acc i uri name cm)\<lparr>cm_signals := cm_signals cm @
             [CallStateChanged Calling, CallEvent i Calling, CallsChanged, IncomingCall i]\<rparr>
      \<and> backend_event B env (OnIncomingCall bid i uri name) cc =
         cc_onIncomingCall B env i (cc_onCallsChanged env
           (cc\<lparr>cc_calls := Some cm', cc_queued := cc_queued cc @ [(i, Calling)]\<rparr>))"
  using assms by (simp add: backend_event_def manager_step_def cm_event_def cm_onIncomingCall_def Let_def
      announced_def aemplace_def cm_emit_def notifyStateChange_def on_cm_signal_def)

lemma callsChanged_rings:
  assumes "cc_calls cc = Some cm" "callCount cm \<noteq> 0"
  shows "cc_onCallsChanged env cc = publishRinging (snapshotIsRinging (snapshot (env_order env) cm)) (refreshCallsModel env cc)"
  using assms by (simp add: cc_onCallsChanged_def publishRingingState_def Let_def)

lemma findCallEntry_id: "findCallEntry snap i = Some e \<Longrightarrow> ce_id e = i"
  by (auto simp: findCallEntry_def find_Some_iff)

text \<open>The reaction an incoming call is meant to get; \<open>busy\<close> means that there is another live call.\<close>

datatype reaction = Reject | Redirect string | AnswerLater int | RedirectLater int string | JustRing

definition reaction_for :: "('u, 'a) settings_controller option \<Rightarrow> bool \<Rightarrow> reaction" where
  "reaction_for settings busy =
     (case settings of
        None \<Rightarrow> JustRing
      | Some sc \<Rightarrow>
          (let target = trim_with q_space in
           if sc_dndEnabled sc then Reject
           else if sc_cfwdAlwaysEnabled sc \<and> target (sc_cfwdAlwaysTarget sc) \<noteq> [] then Redirect (target (sc_cfwdAlwaysTarget sc))
           else if busy \<and> sc_cfwdBusyEnabled sc \<and> target (sc_cfwdBusyTarget sc) \<noteq> [] then Redirect (target (sc_cfwdBusyTarget sc))
           else if sc_autoAnswerEnabled sc then AnswerLater (sc_autoAnswerDelayMs sc)
           else if sc_cfwdNoAnswerEnabled sc \<and> target (sc_cfwdNoAnswerTarget sc) \<noteq> []
           then RedirectLater (sc_cfwdNoAnswerTimeoutMs sc) (target (sc_cfwdNoAnswerTarget sc))
           else JustRing))"

text \<open>What is done at once, and what is left for a timer.\<close>

fun reacts_with :: "'b isip_backend \<Rightarrow> call_id \<Rightarrow> reaction \<Rightarrow> 'b \<Rightarrow> 'b \<times> (int \<times> cc_timer) list" where
  "reacts_with B i Reject b = (snd (bk_decline B b i 486), [])"
| "reacts_with B i (Redirect t) b = (snd (bk_redirect B b i t), [])"
| "reacts_with B i (AnswerLater ms) b = (b, [(ms, AutoAnswer i)])"
| "reacts_with B i (RedirectLater ms t) b = (b, [(ms, ForwardNoAnswer i t)])"
| "reacts_with B i JustRing b = (b, [])"

lemma length_aput_gt1: "\<not> ahas m k \<Longrightarrow> length (aput k v m) > 1 \<longleftrightarrow> m \<noteq> []"
  by (induction k v m rule: aput.induct) (auto simp: ahas_def split: if_splits)

lemma manager_answers:
  assumes "cm_find i cm \<noteq> None"
  shows "cm_backend (snd (cm_decline B i cm)) = snd (bk_decline B (cm_backend cm) i 486)"
    and "t \<noteq> [] \<Longrightarrow> cm_backend (snd (forwardCall B i t cm)) = snd (bk_redirect B (cm_backend cm) i t)"
  using assms by (auto simp: cm_decline_def forwardCall_def split: prod.split)

text \<open>C10. An incoming call for a known account gets exactly one automatic reaction, by the order do not
  disturb, forward always, forward when another call is live, auto-answer, forward on no answer; a
  forwarding without a target is passed over; and it becomes the current incoming call, with an
  inbound session and its state change queued.\<close>

theorem incoming_reaction:
  assumes "cc_calls cc = Some cm" "\<not> ahas (cm_records cm) i" "env_accounts env = Some am"
    and "accountIdForBackend bid am \<noteq> kInvalidAccountId" "\<And>xs. mset (env_order env xs) = mset xs"
    and "cc' = backend_event B env (OnIncomingCall bid i uri name) cc"
    and "reacts_with B i (reaction_for (env_settings env) (cm_records cm \<noteq> [])) (cm_backend cm) = (b, ts)"
  shows "map_option cm_backend (cc_calls cc') = Some b \<and> cc_timers cc' = cc_timers cc @ ts
    \<and> cc_incomingCallId cc' = i \<and> cc_queued cc' = cc_queued cc @ [(i, Calling)]
    \<and> se_direction (session_at i (cc_callSessions cc')) = Inbound"
proof -
  let ?acc = "accountIdForBackend bid am"
  obtain cm' where cm': "cm' = (announced ?acc i uri name cm)\<lparr>cm_signals := cm_signals cm @
       [CallStateChanged Calling, CallEvent i Calling, CallsChanged, IncomingCall i]\<rparr>"
    and step: "cc' = cc_onIncomingCall B env i (cc_onCallsChanged env
           (cc\<lparr>cc_calls := Some cm', cc_queued := cc_queued cc @ [(i, Calling)]\<rparr>))"
    using incoming_steps[OF assms(1-3) refl assms(4)] assms(6) by metis
  let ?c0 = "cc\<lparr>cc_calls := Some cm', cc_queued := cc_queued cc @ [(i, Calling)]\<rparr>"
  have live: "cm_find i cm' \<noteq> None" by (simp add: cm' cm_find_def announced_def)
  have be: "cm_backend cm' = cm_backend cm" by (simp add: cm')
  have count: "callCount cm' > 1 \<longleftrightarrow> cm_records cm \<noteq> []"
    using length_aput_gt1[OF assms(2)] by (simp add: cm' callCount_def announced_def)
  have "ahas (cm_records cm') i" by (simp add: cm' announced_def)
  then have ne: "callCount cm' \<noteq> 0" by (auto simp: callCount_def)
  let ?c1 = "cc_onCallsChanged env ?c0"
  have c1: "cc_calls ?c1 = Some cm'" "cc_timers ?c1 = cc_timers cc" "cc_queued ?c1 = cc_queued cc @ [(i, Calling)]"
    using callsChanged_rings[of ?c0 cm' env] ne by simp_all
  obtain e where e: "findCallEntry (snapshot (env_order env) cm') i = Some e" "ce_id e = i"
  proof -
    let ?r = "new_call_record\<lparr>cr_accountId := ?acc, cr_remoteUri := uri, cr_remoteDisplayName := name,
       cr_inbound := True, cr_state := Calling\<rparr>"
    have "map_of (cm_records cm') i = Some ?r" by (simp add: cm' announced_def)
    then have "entry_of_record i ?r \<in> set (in_order (env_order env) (cm_records cm'))"
      using in_order_entries[where ord = "env_order env" and m = "cm_records cm'" and e = "entry_of_record i ?r", OF assms(5)]
      by (simp add: entry_of_record_def)
    then have "findCallEntry (snapshot (env_order env) cm') i \<noteq> None"
      by (auto simp: findCallEntry_def find_None_iff snapshot_def entry_of_record_def)
    then show ?thesis using that findCallEntry_id by fastforce
  qed
  have inb: "se_direction (session_at i (noteIncoming e t ss)) = Inbound" for t ss
    using e(2) by (simp add: noteIncoming_def upsertFromEntry_pair)
  have mgr: "on_manager f r (c :: 'a calls_controller) = (fst (f m), c\<lparr>cc_calls := Some (snd (f m))\<rparr>)"
    if "cc_calls c = Some m" for f c m and r :: bool
    using that by (simp add: on_manager_def split: prod.split)
  show ?thesis
    using c1 e(1) inb assms(7) manager_answers[OF live] be count
    by (cases "env_settings env")
       (auto simp: step cc_onIncomingCall_def Let_def reaction_for_def mgr split: if_splits)
qed

text \<open>Do not disturb does not keep the phone quiet: the call is declined, but by then the call list
  change has already announced that the phone rings, so ringingChanged(true), which starts the
  ringtone, and the incoming-call notice go out, nothing takes the ringing back in this step, and the
  call stays the current incoming call until its end is reported.\<close>

theorem dnd_call_still_rings:
  assumes "cc_calls cc = Some cm" "\<not> ahas (cm_records cm) i" "env_accounts env = Some am"
    and "accountIdForBackend bid am \<noteq> kInvalidAccountId" "\<And>xs. mset (env_order env xs) = mset xs"
    and "env_settings env = Some sc" "sc_dndEnabled sc" "\<not> cc_ringing cc"
    and "cc' = backend_event B env (OnIncomingCall bid i uri name) cc"
  shows "cc_signals cc' = cc_signals cc @ [CcRingingChanged True, CcIncomingCallChanged]
    \<and> cc_ringing cc' \<and> cc_incomingCallId cc' = i
    \<and> map_option cm_backend (cc_calls cc') = Some (snd (bk_decline B (cm_backend cm) i 486))"
proof -
  let ?acc = "accountIdForBackend bid am"
  obtain cm' where cm': "cm' = (announced ?acc i uri name cm)\<lparr>cm_signals := cm_signals cm @
       [CallStateChanged Calling, CallEvent i Calling, CallsChanged, IncomingCall i]\<rparr>"
    and step: "cc' = cc_onIncomingCall B env i (cc_onCallsChanged env
           (cc\<lparr>cc_calls := Some cm', cc_queued := cc_queued cc @ [(i, Calling)]\<rparr>))"
    using incoming_steps[OF assms(1-3) refl assms(4)] assms(9) by metis
  let ?c0 = "cc\<lparr>cc_calls := Some cm', cc_queued := cc_queued cc @ [(i, Calling)]\<rparr>"
  have rings: "snapshotIsRinging (snapshot (env_order env) cm')"
    using announced_rings[OF assms(5)] by (simp add: cm')
  have "ahas (cm_records cm') i" by (simp add: cm' announced_def)
  then have "callCount cm' \<noteq> 0" by (auto simp: callCount_def)
  then have c1: "cc_onCallsChanged env ?c0 = publishRinging True (refreshCallsModel env ?c0)"
    using callsChanged_rings[of ?c0 cm' env] rings by simp
  then have s1: "cc_signals (cc_onCallsChanged env ?c0) = cc_signals cc @ [CcRingingChanged True]"
    and r1: "cc_ringing (cc_onCallsChanged env ?c0)" and m1: "cc_calls (cc_onCallsChanged env ?c0) = Some cm'"
    using assms(8) by (simp_all add: publishRinging_def)
  have "cm_find i cm' \<noteq> None" by (simp add: cm' cm_find_def announced_def)
  then have dec: "snd (cm_decline B i cm') = cm'\<lparr>cm_backend := snd (bk_decline B (cm_backend cm') i 486)\<rparr>"
    by (auto simp: cm_decline_def split: prod.split)
  show ?thesis
    using m1 s1 r1 assms(6,7) dec
    by (cases "findCallEntry (snapshot (env_order env) cm') i")
       (simp_all add: step cc_onIncomingCall_def Let_def on_manager_calls cm')
qed

text \<open>A registered account, no calls, and the preferences of the examples.\<close>

definition sample_accounts :: "(fake_backend, memory_keychain) accounts_manager" where
  "sample_accounts = (am_new True running_fake empty_db (\<lambda>_. None))
     \<lparr>am_entries := [\<lparr>en_account = default_account\<lparr>acc_id := 1, acc_domain := ''pbx.example'', acc_isDefault := True\<rparr>, en_registered = True\<rparr>],
      am_backendIds := [(1, 1)]\<rparr>"

definition sample_settings :: "bool \<Rightarrow> bool \<Rightarrow> (fake_backend, unit) settings_controller" where
  "sample_settings dnd auto = (sc_blank None None empty_db [] None)\<lparr>sc_dndEnabled := dnd, sc_autoAnswerEnabled := auto\<rparr>"

definition sample_env :: "bool \<Rightarrow> bool \<Rightarrow> (fake_backend, memory_keychain, fake_backend, unit) cc_env" where
  "sample_env dnd auto = \<lparr>env_accounts = Some sample_accounts, env_settings = Some (sample_settings dnd auto),
     env_activeAccount = Some 1, env_now = 1000, env_stamp = ''20260101_000000'', env_order = id,
     env_sql = (\<lambda>_. True), env_rows = id\<rparr>"

definition sample_fake :: fake_backend where
  "sample_fake = running_fake\<lparr>fb_accounts := [(1, \<lparr>as_displayName = [], as_username = ''alice'', as_domain = ''pbx.example'',
     as_authUser = [], as_authRealm = [], as_password = [], as_transport = Udp, as_proxy = [], as_publicAddress = [],
     as_registerIntervalSec = 0, as_keepaliveIntervalSec = 0, as_sessionTimersEnabled = True,
     as_publishPresenceEnabled = False, as_iceEnabled = False, as_hideCallerId = False, as_zrtpEnabled = False,
     as_srtpMode = SrtpOptional, as_allowUntrustedCert = False, as_dtmfMethod = DtmfRfc2833, as_useStun = False\<rparr>)]\<rparr>"

definition sample_controller :: "fake_backend calls_controller" where
  "sample_controller = cc_new (Some (cm_new (snd (simulateIncomingCall 1 ''sip:bob@x'' [] sample_fake)))) (Some []) None None"

theorem dnd_call_still_rings_witness:
  "cc_signals (backend_event FakeB (sample_env True False) (OnIncomingCall 1 1 ''sip:bob@x'' []) sample_controller)
     = [CcRingingChanged True, CcIncomingCallChanged]"
proof -
  have cc: "cc_calls sample_controller = Some (cm_new (snd (simulateIncomingCall 1 ''sip:bob@x'' [] sample_fake)))"
    "cc_signals sample_controller = []" "\<not> cc_ringing sample_controller"
    by (simp_all add: sample_controller_def cc_new_def)
  have "accountIdForBackend 1 sample_accounts = 1"
    by (simp add: accountIdForBackend_def sample_accounts_def)
  then show ?thesis
    using dnd_call_still_rings[where env = "sample_env True False" and bid = 1 and B = FakeB and i = 1
        and uri = "''sip:bob@x''" and name = "[]", OF cc(1) _ _ _ _ _ _ cc(3) refl]
    by (simp add: cc(2) sample_env_def sample_settings_def cm_new_def kInvalidAccountId_def)
qed

text \<open>An automatic answer leaves the controller believing that the call is still ringing at the door:
  unlike the user's own answer it clears neither the incoming call nor tells the user interface, so
  the incoming-call notice stays up and its decline button rejects the call that is being talked
  on.\<close>

theorem auto_answer_keeps_incoming:
  assumes "cc_calls cc = Some cm" "cm_find i cm \<noteq> None" "cc_incomingCallId cc = i" "i \<ge> 0"
    and "n < length (cc_timers cc)" "snd (cc_timers cc ! n) = AutoAnswer i"
    and "cm_accept B i cm = (True, cm1)" "cc' = fire_cc_timer B env n cc" "cm_find i cm1 \<noteq> None"
  shows "cc_calls cc' = Some cm1 \<and> cc_incomingCallId cc' = i \<and> cc_signals cc' = cc_signals cc
    \<and> map_option cm_backend (cc_calls (snd (declineIncoming B env cc'))) = Some (snd (bk_decline B (cm_backend cm1) i 486))
    \<and> cc_incomingCallId (snd (acceptIncoming B env cc)) = -1
    \<and> CcIncomingCallChanged \<in> set (cc_signals (snd (acceptIncoming B env cc)))"
proof -
  let ?c = "cc\<lparr>cc_timers := take n (cc_timers cc) @ drop (Suc n) (cc_timers cc)\<rparr>"
  have cc': "cc' = ?c\<lparr>cc_calls := Some cm1\<rparr>"
    using assms(1,3,5-8) by (simp add: fire_cc_timer_def run_cc_timer_def on_manager_def)
  have dec: "cm_backend (snd (cm_decline B i cm1)) = snd (bk_decline B (cm_backend cm1) i 486)"
    using assms(9) by (auto simp: cm_decline_def split: prod.split)
  have sigs: "set (cc_signals c) \<subseteq> set (cc_signals (publishRingingState e (c :: 'a calls_controller)))" for c e
    by (auto simp: publishRingingState_def publishRinging_def split: option.split)
  have decl: "cc_calls (snd (declineIncoming B env cc')) = Some (snd (cm_decline B i cm1))"
    using assms(3,4) by (auto simp: cc' declineIncoming_def on_manager_def clear_incoming_def split: prod.split)
  have acc: "snd (acceptIncoming B env cc) = clear_incoming env (cc\<lparr>cc_calls := Some cm1\<rparr>)"
    using assms(1,3,4,7) by (simp add: acceptIncoming_def on_manager_def)
  have "CcIncomingCallChanged \<in> set (cc_signals (clear_incoming env (cc\<lparr>cc_calls := Some cm1\<rparr>)))"
    unfolding clear_incoming_def by (rule subsetD[OF sigs]) simp
  moreover have "map_option cm_backend (cc_calls (snd (declineIncoming B env cc'))) = Some (snd (bk_decline B (cm_backend cm1) i 486))"
    by (simp add: decl dec)
  ultimately show ?thesis
    using assms(3) by (simp add: acc) (simp add: cc' clear_incoming_def)
qed

definition answering_controller :: "fake_backend calls_controller" where
  "answering_controller = (cc_new (Some ((cm_new (snd (simulateIncomingCall 1 ''sip:bob@x'' [] sample_fake)))
     \<lparr>cm_records := [(1, new_call_record\<lparr>cr_accountId := 1, cr_inbound := True\<rparr>)]\<rparr>)) (Some []) None None)
     \<lparr>cc_incomingCallId := 1, cc_timers := [(0, AutoAnswer 1)]\<rparr>"

theorem incoming_reaction_witness:
  "cc_timers (backend_event FakeB (sample_env False True) (OnIncomingCall 1 1 ''sip:bob@x'' []) sample_controller) = [(0, AutoAnswer 1)]"
proof -
  have cc: "cc_calls sample_controller = Some (cm_new (snd (simulateIncomingCall 1 ''sip:bob@x'' [] sample_fake)))"
    "cc_timers sample_controller = []" by (simp_all add: sample_controller_def cc_new_def)
  have "accountIdForBackend 1 sample_accounts = 1"
    by (simp add: accountIdForBackend_def sample_accounts_def)
  moreover have "reaction_for (Some (sample_settings False True)) busy = AnswerLater 0" for busy
    by (simp add: reaction_for_def sample_settings_def sc_blank_def)
  ultimately show ?thesis
    using incoming_reaction[where env = "sample_env False True" and bid = 1 and B = FakeB and i = 1
        and uri = "''sip:bob@x''" and name = "[]", OF cc(1) _ _ _ _ refl]
    by (simp add: cc(2) sample_env_def cm_new_def kInvalidAccountId_def)
qed

theorem auto_answer_keeps_incoming_witness:
  "cc_incomingCallId (fire_cc_timer FakeB (sample_env False True) 0 answering_controller) = 1"
proof -
  let ?cm = "(cm_new (snd (simulateIncomingCall 1 ''sip:bob@x'' [] sample_fake)))
     \<lparr>cm_records := [(1, new_call_record\<lparr>cr_accountId := 1, cr_inbound := True\<rparr>)]\<rparr> :: fake_backend call_manager"
  have ok: "fst (cm_accept FakeB 1 ?cm)" and live: "cm_find 1 (snd (cm_accept FakeB 1 ?cm)) \<noteq> None"
    by (simp_all add: cm_accept_def cm_find_def cm_new_def setActiveCall_def hold_previous_def kInvalidCallId_def
        FakeB_def fb_answer_def liveCall_def simulateIncomingCall_def sample_fake_def running_fake_def fb_start_def fb_setListener_def
        fb_new_def new_fake_call_def new_call_record_def Let_def fb_post_def fb_update_def logCmd_def ahas_def)
  then have cm1: "cm_accept FakeB 1 ?cm = (True, snd (cm_accept FakeB 1 ?cm))" by (simp add: prod_eq_iff)
  show ?thesis
    using auto_answer_keeps_incoming[where cc = answering_controller and n = 0 and B = FakeB and i = 1
        and env = "sample_env False True" and cm = ?cm, OF _ _ _ _ _ _ cm1 refl live]
    by (simp add: answering_controller_def cc_new_def cm_find_def)
qed

subsection \<open>Dialling twice\<close>

text \<open>What can happen to the controller between two dials.\<close>

datatype cc_input =
    InCallEvent call_id call_state
  | InIncoming call_id
  | InCallsChanged
  | InAccept
  | InDecline
  | InHangup int
  | InHold int
  | InUnhold int
  | InMute int bool
  | InTimer nat

fun cc_input_apply ::
  "'b isip_backend \<Rightarrow> ('c, 'k, 'u, 'a) cc_env \<Rightarrow> cc_input \<Rightarrow> 'b calls_controller \<Rightarrow> 'b calls_controller" where
  "cc_input_apply B env (InCallEvent i s) cc = cc_onCallEvent B env i s cc"
| "cc_input_apply B env (InIncoming i) cc = cc_onIncomingCall B env i cc"
| "cc_input_apply B env InCallsChanged cc = cc_onCallsChanged env cc"
| "cc_input_apply B env InAccept cc = snd (acceptIncoming B env cc)"
| "cc_input_apply B env InDecline cc = snd (declineIncoming B env cc)"
| "cc_input_apply B env (InHangup i) cc = cc_hangup B i cc"
| "cc_input_apply B env (InHold i) cc = snd (cc_hold B env i cc)"
| "cc_input_apply B env (InUnhold i) cc = snd (cc_unhold B env i cc)"
| "cc_input_apply B env (InMute i m) cc = snd (cc_setMuted B env i m cc)"
| "cc_input_apply B env (InTimer n) cc = fire_cc_timer B env n cc"

definition dialled_live :: "call_id \<Rightarrow> string \<Rightarrow> sessions \<Rightarrow> bool" where
  "dialled_live j target ss \<longleftrightarrow> (\<exists>s. map_of ss j = Some s \<and> se_dialedTarget s = target)"

lemma dialled_live_session: "dialled_live j target ss \<Longrightarrow> se_dialedTarget (session_at j ss) = target"
  by (auto simp: dialled_live_def session_at_def)

lemma dialled_live_noteState:
  assumes "dialled_live j target ss" "ce_id e \<noteq> j \<or> s \<noteq> Disconnected"
  shows "dialled_live j target (snd (noteState e s t ss))"
  using assms dialled_live_session[OF assms(1)]
  by (auto simp: noteState_def upsertFromEntry_pair dialled_live_def)

lemma dialled_live_noteIncoming:
  assumes "dialled_live j target ss"
  shows "dialled_live j target (noteIncoming e t ss)"
  using assms dialled_live_session[OF assms(1)]
  by (auto simp: noteIncoming_def upsertFromEntry_pair dialled_live_def)

lemma sessions_startRecording [simp]: "cc_callSessions (snd (cc_startRecording B env i cc)) = cc_callSessions cc"
  by (auto simp: cc_startRecording_def on_manager_def Let_def postNotice_def split: option.split prod.split)

lemma sessions_clear [simp]: "cc_callSessions (clear_incoming env cc) = cc_callSessions cc"
  by (simp add: clear_incoming_def)

lemma sessions_commands [simp]:
  "cc_callSessions (snd (acceptIncoming B env cc)) = cc_callSessions cc"
  "cc_callSessions (snd (declineIncoming B env cc)) = cc_callSessions cc"
  "cc_callSessions (cc_hangup B i cc) = cc_callSessions cc"
  "cc_callSessions (snd (cc_hold B env i cc)) = cc_callSessions cc"
  "cc_callSessions (snd (cc_unhold B env i cc)) = cc_callSessions cc"
  "cc_callSessions (snd (cc_setMuted B env i m cc)) = cc_callSessions cc"
  "cc_callSessions (fire_cc_timer B env n cc) = cc_callSessions cc"
  "cc_callSessions (cc_onCallsChanged env cc) = cc_callSessions cc"
  by (auto simp: acceptIncoming_def declineIncoming_def cc_hangup_def cc_hold_def cc_unhold_def cc_setMuted_def
      fire_cc_timer_def run_cc_timer_def cc_onCallsChanged_def Let_def on_manager_def
      split: option.split prod.split cc_timer.split)

lemma log_call_sessions [simp]: "cc_callSessions (log_call env h cc) = cc_callSessions cc"
  by (simp add: log_call_def Let_def)

lemma sessions_autoRecord [simp]:
  "cc_callSessions (case cc_startRecording B env i c of (ok, c1) \<Rightarrow> if ok then c1 else cc_singleShot ms t c1)
     = cc_callSessions c"
  using sessions_startRecording[of B env i c] by (cases "cc_startRecording B env i c") simp

lemma sessions_onCallEvent:
  "\<exists>e. ce_id e = i \<and> cc_callSessions (cc_onCallEvent B env i s cc) = snd (noteState e s (env_now env) (cc_callSessions cc))"
proof -
  let ?e = "case findCallEntry (cc_snapshot env cc) i of Some found \<Rightarrow> found | None \<Rightarrow> default_call_entry\<lparr>ce_id := i\<rparr>"
  have "ce_id ?e = i" by (auto split: option.split dest: findCallEntry_id)
  moreover obtain h ss where "noteState ?e s (env_now env) (cc_callSessions cc) = (h, ss)" by fastforce
  ultimately show ?thesis
    by (intro exI[of _ ?e] conjI) (cases h; simp add: cc_onCallEvent_def Let_def)+
qed

lemma dialled_live_input:
  assumes "dialled_live j target (cc_callSessions cc)" "op \<noteq> InCallEvent j Disconnected"
  shows "dialled_live j target (cc_callSessions (cc_input_apply B env op cc))"
proof (cases op)
  case (InCallEvent i s)
  obtain e where "ce_id e = i" "cc_callSessions (cc_onCallEvent B env i s cc) = snd (noteState e s (env_now env) (cc_callSessions cc))"
    using sessions_onCallEvent by metis
  with assms InCallEvent show ?thesis by (auto intro!: dialled_live_noteState)
next
  case (InIncoming i)
  with assms(1) show ?thesis
    by (auto simp: cc_onIncomingCall_def Let_def dialled_live_noteIncoming split: option.split)
qed (use assms in simp_all)

text \<open>C11. Hammering the call button places one call: after a dial that placed a call, and whatever else
  happens other than the report that this call ended, dialling anything that normalises to the same
  target changes nothing at all, even when the settings or the active account changed meanwhile.\<close>

theorem dial_deduplicated:
  assumes "cc_calls cc = Some cm" "trim_with q_space uri \<noteq> []" "snd (dial_target env uri) = target" "target \<noteq> []"
    and "\<not> hasLiveOutboundTo target (cc_callSessions cc)"
    and "cc_currentCallId (dial B env uri cc) = j" "j \<ge> 0"
    and "\<forall>(e, op) \<in> set ops. op \<noteq> InCallEvent j Disconnected"
    and "cc2 = fold (\<lambda>(e, op). cc_input_apply B e op) ops (dial B env uri cc)"
    and "snd (dial_target env2 uri2) = target"
  shows "dial B env2 uri2 cc2 = cc2"
proof -
  have sess: "cc_callSessions (dial B env uri cc)
      = noteOutbound j (fst (dial_target env uri)) target (env_now env) (cc_callSessions cc)"
    using assms(1-3,5-7) by (auto simp: dial_def Let_def split: prod.splits if_splits)
  have "dialled_live j target (cc_callSessions (dial B env uri cc))"
    by (simp add: sess noteOutbound_def dialled_live_def Let_def)
  then have "dialled_live j target (cc_callSessions cc2)"
    unfolding assms(9) using assms(8)
  proof (induction ops arbitrary: cc rule: rev_induct)
    case (snoc x ops)
    then show ?case by (cases x) (simp add: dialled_live_input)
  qed simp
  then have "hasLiveOutboundTo target (cc_callSessions cc2)"
    using assms(4) by (auto simp: hasLiveOutboundTo_def dialled_live_def list_ex_iff dest!: map_of_SomeD)
  then show ?thesis
    using assms(10) by (auto simp: dial_def Let_def split: option.split prod.split)
qed

theorem dial_deduplicated_witness:
  "dial FakeB (sample_env False False) '' 42'' (dial FakeB (sample_env True False) ''42'' sample_controller)
     = dial FakeB (sample_env True False) ''42'' sample_controller"
proof -
  have n: "normalizeSipTarget ''42'' ''pbx.example'' Udp = ''sip:42@pbx.example''" by code_simp
  have trim: "trim_with q_space ''42'' = ''42''" "trim_with q_space '' 42'' = ''42''" by code_simp+
  have acc: "am_find 1 sample_accounts = Some (default_account\<lparr>acc_id := 1, acc_domain := ''pbx.example'', acc_isDefault := True\<rparr>)"
    by (simp add: sample_accounts_def am_find_def find_entry_def)
  have t: "snd (dial_target (sample_env d a) ''42'') = ''sip:42@pbx.example''"
    "snd (dial_target (sample_env d a) '' 42'') = ''sip:42@pbx.example''" for d a
    using n by (simp_all add: dial_target_def sample_env_def acc trim Let_def default_account_def kInvalidAccountId_def)
  have cur: "cc_currentCallId (dial FakeB (sample_env True False) ''42'' sample_controller) = 2"
    using trim t(1)[of True False]
    by (simp add: dial_def sample_controller_def cc_new_def hasLiveOutboundTo_def sample_env_def makeCallFrom_def
        backendIdFor_def sample_accounts_def cm_new_def FakeB_def fb_makeCall_def sample_fake_def running_fake_def
        fb_start_def fb_setListener_def fb_new_def simulateIncomingCall_def ahas_def Let_def fb_post_def fb_update_def
        logCmd_def kInvalidAccountId_def kInvalidCallId_def split: prod.split)
  show ?thesis
  proof (rule dial_deduplicated[where ops = "[]" and j = 2 and target = "''sip:42@pbx.example''"])
    show "cc_calls sample_controller = Some (cm_new (snd (simulateIncomingCall 1 ''sip:bob@x'' [] sample_fake)))"
      "\<not> hasLiveOutboundTo ''sip:42@pbx.example'' (cc_callSessions sample_controller)"
      by (simp_all add: sample_controller_def cc_new_def hasLiveOutboundTo_def)
  qed (use t trim cur in simp_all)
qed

end
