(* ===== verification/Messages.thy ===== *)
theory Messages imports Queries RowModel Accounts begin

text \<open>
  The instant messages: \<open>core/MessagesManager.{h,cpp}\<close> over the \<open>messages\<close> table,
  \<open>models/MessagesModel\<close> (the thread of the selected peer), \<open>models/ConversationsModel\<close> (one row per
  peer), \<open>core/MessagesController.{h,cpp}\<close>, and the part of \<open>core/PhoneController.cpp\<close> that stores an
  incoming message.  \<open>messagesChanged\<close> reaches the thread, then the conversations, then the controller's
  unread count: the order in which the composition root connects them.
\<close>

subsection \<open>Messages and their rows\<close>

datatype message_direction = MdIncoming | MdOutgoing

record message =
  msg_id :: int
  msg_accountId :: account_id
  msg_peerUri :: string
  msg_direction :: message_direction
  msg_body :: string
  msg_createdAtMs :: int
  msg_read :: bool

definition default_message :: message where
  "default_message = \<lparr>msg_id = 0, msg_accountId = kInvalidAccountId, msg_peerUri = [], msg_direction = MdOutgoing,
     msg_body = [], msg_createdAtMs = 0, msg_read = False\<rparr>"

record conversation_summary =
  cs_peer :: string
  cs_lastBody :: string
  cs_lastDirection :: message_direction
  cs_lastCreatedAtMs :: int
  cs_unreadCount :: int

fun md_toStr :: "message_direction \<Rightarrow> string" where
  "md_toStr MdIncoming = ''in''"
| "md_toStr MdOutgoing = ''out''"

fun md_fromStr :: "string option \<Rightarrow> message_direction" where
  "md_fromStr (Some s) = (if s = ''in'' then MdIncoming else MdOutgoing)"
| "md_fromStr None = MdOutgoing"

type_synonym mrow = "int \<times> message_row"

definition message_row_of :: "message \<Rightarrow> message_row" where
  "message_row_of m = \<lparr>mr_account_id = msg_accountId m, mr_peer_uri = msg_peerUri m,
     mr_direction = md_toStr (msg_direction m), mr_body = msg_body m,
     mr_created_at_ms = msg_createdAtMs m, mr_read = (if msg_read m then 1 else 0)\<rparr>"

definition message_of_row :: "mrow \<Rightarrow> message" where
  "message_of_row x = (case x of (i, r) \<Rightarrow>
     \<lparr>msg_id = i, msg_accountId = mr_account_id r, msg_peerUri = c_text (mr_peer_uri r),
      msg_direction = md_fromStr (Some (c_text (mr_direction r))), msg_body = c_text (mr_body r),
      msg_createdAtMs = mr_created_at_ms r, msg_read = (mr_read r \<noteq> 0)\<rparr>)"

abbreviation message_rows :: "database \<Rightarrow> mrow list" where
  "message_rows db \<equiv> t_messages (db_tables db)"

definition on_messages :: "(mrow list \<Rightarrow> mrow list) \<Rightarrow> database \<Rightarrow> database" where
  "on_messages g db = db\<lparr>db_tables := (db_tables db)\<lparr>t_messages := g (message_rows db)\<rparr>\<rparr>"

abbreviation row_peer :: "mrow \<Rightarrow> string" where "row_peer x \<equiv> mr_peer_uri (snd x)"
abbreviation row_time :: "mrow \<Rightarrow> int" where "row_time x \<equiv> mr_created_at_ms (snd x)"

text \<open>\<open>direction = 'in' AND read = 0\<close>\<close>

definition unread_row :: "mrow \<Rightarrow> bool" where
  "unread_row x \<longleftrightarrow> mr_direction (snd x) = ''in'' \<and> mr_read (snd x) = 0"

subsection \<open>MessagesManager\<close>

text \<open>\<open>append\<close>: on success the message carries its row id and \<open>messagesChanged\<close> is emitted; the caller
  gets the message back as the second component.\<close>

definition mm_append :: "bool \<Rightarrow> message \<Rightarrow> database \<Rightarrow> bool \<times> message \<times> database" where
  "mm_append runs m db =
     (if \<not> db_handle db \<or> \<not> runs then (False, m, db)
      else (let i = next_rowid (message_rows db)
            in (True, m\<lparr>msg_id := i\<rparr>, on_messages (\<lambda>t. t @ [(i, message_row_of m)]) db)))"

definition mm_list :: "mrow query \<Rightarrow> int \<Rightarrow> database \<Rightarrow> message list" where
  "mm_list q limit db =
     (if \<not> db_handle db then []
      else fetch (q_prepared q) (q_stop q)
        (map message_of_row (sql_limit limit (order_by (\<lambda>x. - row_time x) q (message_rows db)))))"

text \<open>\<open>SELECT peer_uri, MAX(created_at_ms) AS last ... GROUP BY peer_uri ORDER BY last DESC\<close>\<close>

definition last_time :: "mrow list \<Rightarrow> string \<Rightarrow> int" where
  "last_time rows p = Max (row_time ` {x \<in> set rows. row_peer x = p})"

definition mm_peers :: "string query \<Rightarrow> database \<Rightarrow> string list" where
  "mm_peers q db =
     (if \<not> db_handle db then []
      else fetch (q_prepared q) (q_stop q)
        (map c_text (order_by (\<lambda>p. - last_time (message_rows db) p) q (remdups (map row_peer (message_rows db))))))"

definition mm_listByPeer :: "mrow query \<Rightarrow> string \<Rightarrow> int \<Rightarrow> database \<Rightarrow> message list" where
  "mm_listByPeer q peer limit db =
     (if \<not> db_handle db then []
      else fetch (q_prepared q) (q_stop q)
        (map message_of_row
          (sql_limit limit (order_by row_time q (filter (\<lambda>x. row_peer x = peer) (message_rows db))))))"

text \<open>\<open>ROW_NUMBER() OVER (PARTITION BY peer_uri ORDER BY created_at_ms DESC) = 1\<close>: in rows sorted newest
  first, the first one of each peer.\<close>

fun first_per_peer :: "string set \<Rightarrow> mrow list \<Rightarrow> mrow list" where
  "first_per_peer seen [] = []"
| "first_per_peer seen (x # xs) =
     (if row_peer x \<in> seen then first_per_peer seen xs
      else x # first_per_peer (insert (row_peer x) seen) xs)"

definition unread_of :: "mrow list \<Rightarrow> string \<Rightarrow> int" where
  "unread_of rows p = int (length (filter (\<lambda>x. row_peer x = p \<and> unread_row x) rows))"

definition summary_of_row :: "mrow list \<Rightarrow> mrow \<Rightarrow> conversation_summary" where
  "summary_of_row rows x =
     \<lparr>cs_peer = c_text (row_peer x), cs_lastBody = c_text (mr_body (snd x)),
      cs_lastDirection = md_fromStr (Some (c_text (mr_direction (snd x)))),
      cs_lastCreatedAtMs = row_time x, cs_unreadCount = unread_of rows (row_peer x)\<rparr>"

definition mm_conversationSummaries :: "mrow query \<Rightarrow> database \<Rightarrow> conversation_summary list" where
  "mm_conversationSummaries q db =
     (if \<not> db_handle db then []
      else fetch (q_prepared q) (q_stop q)
        (map (summary_of_row (message_rows db))
          (first_per_peer {} (order_by (\<lambda>x. - row_time x) q (message_rows db)))))"

text \<open>\<open>markPeerRead\<close>: the result, and whether \<open>messagesChanged\<close> is emitted.\<close>

definition mark_row :: "string \<Rightarrow> mrow \<Rightarrow> mrow" where
  "mark_row peer x = (if row_peer x = peer \<and> unread_row x then (fst x, (snd x)\<lparr>mr_read := 1\<rparr>) else x)"

definition mm_markPeerRead :: "bool \<Rightarrow> string \<Rightarrow> database \<Rightarrow> bool \<times> bool \<times> database" where
  "mm_markPeerRead runs peer db =
     (if \<not> db_handle db \<or> \<not> runs then (False, False, db)
      else (let changed = unread_of (message_rows db) peer
            in (True, changed > 0, on_messages (map (mark_row peer)) db)))"

definition mm_unreadCount :: "bool \<Rightarrow> database \<Rightarrow> int" where
  "mm_unreadCount runs db =
     (if \<not> db_handle db \<or> \<not> runs then 0 else int (length (filter unread_row (message_rows db))))"

subsection \<open>The list models\<close>

datatype messages_role = MrIdRole | MrAccountIdRole | MrDirectionRole | MrBodyRole | MrCreatedAtMsRole | MrReadRole

fun messages_data :: "message \<Rightarrow> messages_role \<Rightarrow> role_value" where
  "messages_data m MrIdRole = RvInt (msg_id m)"
| "messages_data m MrAccountIdRole = RvInt (msg_accountId m)"
| "messages_data m MrDirectionRole = RvString (if msg_direction m = MdIncoming then ''in'' else ''out'')"
| "messages_data m MrBodyRole = RvString (msg_body m)"
| "messages_data m MrCreatedAtMsRole = RvInt (msg_createdAtMs m)"
| "messages_data m MrReadRole = RvBool (msg_read m)"

definition messages_data_at :: "message list \<Rightarrow> int \<Rightarrow> messages_role \<Rightarrow> role_value option" where
  "messages_data_at snap row role =
     (if row < 0 \<or> row \<ge> int (length snap) then None else Some (messages_data (snap ! nat row) role))"

fun messages_role_name :: "messages_role \<Rightarrow> string" where
  "messages_role_name MrIdRole = ''messageId''"
| "messages_role_name MrAccountIdRole = ''accountId''"
| "messages_role_name MrDirectionRole = ''direction''"
| "messages_role_name MrBodyRole = ''body''"
| "messages_role_name MrCreatedAtMsRole = ''createdAtMs''"
| "messages_role_name MrReadRole = ''read''"

record conversation_row =
  cr_peer :: string
  cr_lastBody :: string
  cr_lastDirection :: string
  cr_lastCreatedAtMs :: int
  cr_unread :: bool

datatype conversations_role = CvPeerRole | CvLastBodyRole | CvLastDirectionRole | CvLastCreatedAtMsRole | CvUnreadRole

fun conversations_data :: "conversation_row \<Rightarrow> conversations_role \<Rightarrow> role_value" where
  "conversations_data r CvPeerRole = RvString (cr_peer r)"
| "conversations_data r CvLastBodyRole = RvString (cr_lastBody r)"
| "conversations_data r CvLastDirectionRole = RvString (cr_lastDirection r)"
| "conversations_data r CvLastCreatedAtMsRole = RvInt (cr_lastCreatedAtMs r)"
| "conversations_data r CvUnreadRole = RvBool (cr_unread r)"

definition conversations_data_at :: "conversation_row list \<Rightarrow> int \<Rightarrow> conversations_role \<Rightarrow> role_value option" where
  "conversations_data_at rows row role =
     (if row < 0 \<or> row \<ge> int (length rows) then None else Some (conversations_data (rows ! nat row) role))"

fun conversations_role_name :: "conversations_role \<Rightarrow> string" where
  "conversations_role_name CvPeerRole = ''peer''"
| "conversations_role_name CvLastBodyRole = ''lastBody''"
| "conversations_role_name CvLastDirectionRole = ''lastDirection''"
| "conversations_role_name CvLastCreatedAtMsRole = ''lastCreatedAtMs''"
| "conversations_role_name CvUnreadRole = ''unread''"

definition conversation_row_of :: "conversation_summary \<Rightarrow> conversation_row" where
  "conversation_row_of s =
     \<lparr>cr_peer = cs_peer s, cr_lastBody = cs_lastBody s,
      cr_lastDirection = (if cs_lastDirection s = MdIncoming then ''in'' else ''out''),
      cr_lastCreatedAtMs = cs_lastCreatedAtMs s, cr_unread = (cs_unreadCount s > 0)\<rparr>"

definition conversations_refresh :: "mrow query \<Rightarrow> database \<Rightarrow> conversation_row list" where
  "conversations_refresh q db = map conversation_row_of (mm_conversationSummaries q db)"

text \<open>The default limit of \<open>listByPeer\<close>.\<close>

definition kThreadLimit :: int where "kThreadLimit = 500"

definition thread_of :: "mrow query \<Rightarrow> string \<Rightarrow> database \<Rightarrow> message list" where
  "thread_of q peer db = (if peer \<noteq> [] then mm_listByPeer q peer kThreadLimit db else [])"

subsection \<open>The messaging surface\<close>

datatype messaging_signal = UnreadCountChanged | PeerChanged | Notice string

record messaging =
  ms_db :: database
  ms_peer :: string
  ms_snapshot :: "message list"
  ms_conversations :: "conversation_row list"
  ms_signals :: "messaging_signal list"

definition ms_emit :: "messaging_signal \<Rightarrow> messaging \<Rightarrow> messaging" where
  "ms_emit s ms = ms\<lparr>ms_signals := ms_signals ms @ [s]\<rparr>"

definition messages_refresh :: "mrow query \<Rightarrow> messaging \<Rightarrow> messaging" where
  "messages_refresh q ms = ms\<lparr>ms_snapshot := thread_of q (ms_peer ms) (ms_db ms)\<rparr>"

text \<open>The constructors: the thread starts empty, the conversations are read at once.\<close>

definition ms_new :: "mrow query \<Rightarrow> database \<Rightarrow> messaging" where
  "ms_new q db = \<lparr>ms_db = db, ms_peer = [], ms_snapshot = [], ms_conversations = conversations_refresh q db, ms_signals = []\<rparr>"

text \<open>The outcomes of the SELECTs of one \<open>messagesChanged\<close>.\<close>

record refresh_env =
  re_thread :: "mrow query"
  re_conversations :: "mrow query"

definition on_messagesChanged :: "refresh_env \<Rightarrow> messaging \<Rightarrow> messaging" where
  "on_messagesChanged env ms =
     (let ms1 = messages_refresh (re_thread env) ms;
          ms2 = ms1\<lparr>ms_conversations := conversations_refresh (re_conversations env) (ms_db ms1)\<rparr>
      in ms_emit UnreadCountChanged ms2)"

definition ms_append :: "bool \<Rightarrow> refresh_env \<Rightarrow> message \<Rightarrow> messaging \<Rightarrow> messaging" where
  "ms_append runs env m ms =
     (case mm_append runs m (ms_db ms) of
        (ok, m', db) \<Rightarrow> (let ms1 = ms\<lparr>ms_db := db\<rparr> in if ok then on_messagesChanged env ms1 else ms1))"

definition setPeer :: "mrow query \<Rightarrow> string \<Rightarrow> messaging \<Rightarrow> messaging" where
  "setPeer q peer ms =
     (if ms_peer ms = peer then ms else messages_refresh q (ms_emit PeerChanged (ms\<lparr>ms_peer := peer\<rparr>)))"

definition markConversationRead :: "bool \<Rightarrow> refresh_env \<Rightarrow> string \<Rightarrow> messaging \<Rightarrow> messaging" where
  "markConversationRead runs env peer ms =
     (case mm_markPeerRead runs peer (ms_db ms) of
        (ok, emitted, db) \<Rightarrow> (let ms1 = ms\<lparr>ms_db := db\<rparr> in if emitted then on_messagesChanged env ms1 else ms1))"

definition selectConversation :: "mrow query \<Rightarrow> bool \<Rightarrow> refresh_env \<Rightarrow> string \<Rightarrow> messaging \<Rightarrow> messaging" where
  "selectConversation q runs env peer ms = markConversationRead runs env peer (setPeer q peer ms)"

text \<open>\<open>MessagesController::send\<close>; \<open>aid\<close> is the active account and \<open>now\<close> the clock.\<close>

definition mc_send ::
  "'b isip_backend \<Rightarrow> bool \<Rightarrow> refresh_env \<Rightarrow> int \<Rightarrow> int \<Rightarrow> string \<Rightarrow> string \<Rightarrow> messaging \<Rightarrow> ('b, 'k) accounts_manager
     \<Rightarrow> bool \<times> messaging \<times> ('b, 'k) accounts_manager" where
  "mc_send B runs env aid now peerUri body ms am =
     (if peerUri = [] \<or> body = [] \<or> aid \<le> 0 then (False, ms, am)
      else (let m = default_message\<lparr>msg_accountId := aid, msg_peerUri := peerUri, msg_direction := MdOutgoing,
                      msg_body := body, msg_createdAtMs := now, msg_read := True\<rparr>;
                ms1 = ms_append runs env m ms
            in case sendInstantMessage B aid peerUri body am of
                 (ok, am1) \<Rightarrow> (ok, if \<not> ok then ms_emit (Notice ''Message failed to send'') ms1 else ms1, am1)))"

text \<open>What \<open>PhoneController\<close> does with \<open>instantMessageReceived\<close>; the tray notification is left out.\<close>

definition message_received :: "bool \<Rightarrow> refresh_env \<Rightarrow> int \<Rightarrow> account_id \<Rightarrow> string \<Rightarrow> string \<Rightarrow> messaging \<Rightarrow> messaging" where
  "message_received runs env now aid sender body ms =
     ms_append runs env (default_message\<lparr>msg_accountId := aid, msg_peerUri := sender, msg_direction := MdIncoming,
       msg_body := body, msg_createdAtMs := now\<rparr>) ms"

subsection \<open>Rows\<close>

lemma on_messages_simps [simp]:
  "message_rows (on_messages g db) = g (message_rows db)"
  "db_handle (on_messages g db) = db_handle db"
  by (simp_all add: on_messages_def)

text \<open>A row as the manager writes it; the CHECK constraint admits no other direction.\<close>

definition message_row_ok :: "mrow \<Rightarrow> bool" where
  "message_row_ok x \<longleftrightarrow> no_nul (row_peer x) \<and> mr_direction (snd x) \<in> {''in'', ''out''}"

lemma md_fromStr_toStr [simp]: "md_fromStr (Some (md_toStr d)) = d"
  by (cases d) simp_all

lemma c_text_md_toStr [simp]: "c_text (md_toStr d) = md_toStr d"
  by (cases d) (simp_all add: c_text_def code_def)

lemma message_of_written [simp]:
  "message_of_row (i, message_row_of m) =
     m\<lparr>msg_id := i, msg_peerUri := c_text (msg_peerUri m), msg_body := c_text (msg_body m)\<rparr>"
  by (cases m; cases "msg_direction m") (simp_all add: message_of_row_def message_row_of_def c_text_def code_def)

lemma msg_id_message_of_row [simp]: "msg_id (message_of_row x) = fst x"
  and msg_time_message_of_row [simp]: "msg_createdAtMs (message_of_row x) = row_time x"
  by (simp_all add: message_of_row_def split: prod.split)

lemma unread_message_of_row:
  "message_row_ok x \<Longrightarrow>
   msg_direction (message_of_row x) = MdIncoming \<and> \<not> msg_read (message_of_row x) \<longleftrightarrow> unread_row x"
  by (cases x) (auto simp: message_row_ok_def message_of_row_def unread_row_def c_text_def code_def)

subsection \<open>The newest row of each peer\<close>

lemma first_per_peer_subset: "x \<in> set (first_per_peer S xs) \<Longrightarrow> x \<in> set xs"
  by (induction xs arbitrary: S) (auto split: if_splits)

lemma first_per_peer_peers: "row_peer ` set (first_per_peer S xs) = row_peer ` set xs - S"
  by (induction xs arbitrary: S) auto

lemma first_per_peer_distinct: "distinct (map row_peer (first_per_peer S xs))"
proof (induction xs arbitrary: S)
  case (Cons x xs)
  then show ?case using first_per_peer_peers[of "insert (row_peer x) S" xs] by auto
qed simp

lemma first_per_peer_sorted: "sorted (map f xs) \<Longrightarrow> sorted (map f (first_per_peer S xs))"
  by (induction xs arbitrary: S) (auto dest: first_per_peer_subset)

lemma first_per_peer_least:
  "sorted (map f xs) \<Longrightarrow> x \<in> set (first_per_peer S xs) \<Longrightarrow> y \<in> set xs \<Longrightarrow> row_peer y = row_peer x \<Longrightarrow> f x \<le> f y"
proof (induction xs arbitrary: S)
  case (Cons z xs)
  show ?case
  proof (cases "row_peer z \<in> S \<or> x \<noteq> z")
    case True
    then obtain S' where x: "x \<in> set (first_per_peer S' xs)" "row_peer z \<in> S'"
      using Cons.prems(2) by (auto split: if_splits)
    have "row_peer x \<in> row_peer ` set xs - S'" unfolding first_per_peer_peers[symmetric] by (rule imageI[OF x(1)])
    with x(2) have "row_peer x \<noteq> row_peer z" by auto
    then have "y \<noteq> z" using Cons.prems(4) by auto
    then have "y \<in> set xs" using Cons.prems(3) by simp
    moreover have "sorted (map f xs)" using Cons.prems(1) by simp
    ultimately show ?thesis using Cons.IH x(1) Cons.prems(4) by blast
  next
    case False
    with Cons.prems show ?thesis by auto
  qed
qed simp

lemma newest_row_of_peer:
  assumes "completes q rows" "x \<in> set (first_per_peer {} (order_by (\<lambda>x. - row_time x) q rows))"
  shows "x \<in> set rows" "y \<in> set rows \<Longrightarrow> row_peer y = row_peer x \<Longrightarrow> row_time y \<le> row_time x"
    "row_time x = last_time rows (row_peer x)"
proof -
  show x: "x \<in> set rows" using assms first_per_peer_subset by fastforce
  show le: "row_time y \<le> row_time x" if "y \<in> set rows" "row_peer y = row_peer x" for y
    using first_per_peer_least[OF sorted_order_by assms(2), of y] that assms(1) by simp
  show "row_time x = last_time rows (row_peer x)" unfolding last_time_def
    by (rule sym, rule Max_eqI) (use x le in auto)
qed

lemma summaries_eq:
  assumes "completes q (message_rows db)" "db_handle db"
  shows "mm_conversationSummaries q db =
    map (summary_of_row (message_rows db)) (first_per_peer {} (order_by (\<lambda>x. - row_time x) q (message_rows db)))"
  using assms by (simp add: mm_conversationSummaries_def)

subsection \<open>The conversation list against one query per peer\<close>

text \<open>What the comment on \<open>conversationSummaries\<close> says it replaces: \<open>peers()\<close> and then one thread per peer.\<close>

definition summary_of_thread :: "string \<Rightarrow> message list \<Rightarrow> conversation_summary" where
  "summary_of_thread p ms =
     \<lparr>cs_peer = p, cs_lastBody = msg_body (last ms), cs_lastDirection = msg_direction (last ms),
      cs_lastCreatedAtMs = msg_createdAtMs (last ms),
      cs_unreadCount = int (length (filter (\<lambda>m. msg_direction m = MdIncoming \<and> \<not> msg_read m) ms))\<rparr>"

definition summaries_by_thread :: "string query \<Rightarrow> (string \<Rightarrow> mrow query) \<Rightarrow> database \<Rightarrow> conversation_summary list" where
  "summaries_by_thread qp qt db = map (\<lambda>p. summary_of_thread p (mm_listByPeer (qt p) p (-1) db)) (mm_peers qp db)"

lemma last_of_sorted: "sorted (map f xs) \<Longrightarrow> y \<in> set xs \<Longrightarrow> f y \<le> f (last xs)"
  by (induction xs) (auto split: if_splits)

lemma summary_of_newest_row:
  fixes db q
  defines "rows \<equiv> message_rows db" and "thread \<equiv> \<lambda>p. filter (\<lambda>x. row_peer x = p) (message_rows db)"
  assumes "db_handle db" "\<forall>y \<in> set rows. message_row_ok y" "inj_on row_time (set rows)"
    and x: "x \<in> set rows" "\<And>y. y \<in> set rows \<Longrightarrow> row_peer y = row_peer x \<Longrightarrow> row_time y \<le> row_time x"
    and q: "completes q (thread (row_peer x))"
  shows "summary_of_thread (row_peer x) (mm_listByPeer q (row_peer x) (-1) db) = summary_of_row rows x"
proof -
  let ?ms = "order_by row_time q (thread (row_peer x))"
  have set_ms: "set ?ms = {y \<in> set rows. row_peer y = row_peer x}"
    using q by (simp add: thread_def rows_def)
  then have ne: "?ms \<noteq> []" using x(1) by auto
  then have l: "last ?ms \<in> {y \<in> set rows. row_peer y = row_peer x}" using set_ms last_in_set by blast
  moreover have "row_time x \<le> row_time (last ?ms)"
    by (rule last_of_sorted) (use x(1) set_ms in auto)
  ultimately have last: "last ?ms = x"
    using x(1) x(2)[of "last ?ms"] by (intro inj_onD[OF assms(5)]) auto
  have unread: "length (filter unread_row ?ms) = length (filter unread_row (thread (row_peer x)))"
    using q by (metis mset_order_by mset_filter size_mset)
  have "filter (\<lambda>m. msg_direction m = MdIncoming \<and> \<not> msg_read m) (map message_of_row ?ms)
      = map message_of_row (filter unread_row ?ms)"
    unfolding filter_map comp_def
    by (intro arg_cong[where f = "map message_of_row"] filter_cong refl unread_message_of_row) (use set_ms assms(4) in auto)
  moreover have "mm_listByPeer q (row_peer x) (-1) db = map message_of_row ?ms"
    using assms(3) q by (simp add: mm_listByPeer_def sql_limit_def thread_def)
  moreover have "unread_of rows (row_peer x) = int (length (filter unread_row (thread (row_peer x))))"
    by (simp add: unread_of_def thread_def rows_def conj_commute)
  moreover have "c_text (row_peer x) = row_peer x" using x(1) assms(4) by (simp add: message_row_ok_def)
  ultimately show ?thesis using ne last unread
    by (cases x) (simp add: summary_of_thread_def summary_of_row_def last_map message_of_row_def)
qed

lemma peers_of_summaries:
  assumes "completes q rows" "completes qp (remdups (map row_peer rows))" "inj_on row_time (set rows)"
  shows "map row_peer (first_per_peer {} (order_by (\<lambda>x. - row_time x) q rows))
       = order_by (\<lambda>p. - last_time rows p) qp (remdups (map row_peer rows))"
proof -
  let ?xs = "first_per_peer {} (order_by (\<lambda>x. - row_time x) q rows)" and ?f = "\<lambda>p. - last_time rows p"
  have t: "row_time x = last_time rows (row_peer x)" "x \<in> set rows" if "x \<in> set ?xs" for x
    using newest_row_of_peer[OF assms(1) that] by auto
  have peers: "set (map row_peer ?xs) = row_peer ` set rows" using first_per_peer_peers[of "{}"] assms(1) by simp
  have "map (\<lambda>x. - row_time x) ?xs = map ?f (map row_peer ?xs)" using t by simp
  moreover have "sorted (map (\<lambda>x. - row_time x) ?xs)" by (rule first_per_peer_sorted) simp
  ultimately have srt: "sorted (map ?f (map row_peer ?xs))" by argo
  have inj: "inj_on ?f (row_peer ` set rows)"
  proof (rule inj_onI)
    fix p p' assume pp: "p \<in> row_peer ` set rows" "p' \<in> row_peer ` set rows" "- last_time rows p = - last_time rows p'"
    have "p \<in> row_peer ` set ?xs" "p' \<in> row_peer ` set ?xs" using pp(1,2) peers by simp_all
    then obtain x y where x: "x \<in> set ?xs" "row_peer x = p" and y: "y \<in> set ?xs" "row_peer y = p'" by blast
    have "row_time x = row_time y" using t[OF x(1)] t[OF y(1)] x(2) y(2) pp(3) by simp
    then show "p = p'" using inj_onD[OF assms(3)] t(2) x y by metis
  qed
  have "mset (map row_peer ?xs) = mset (remdups (map row_peer rows))"
    by (rule set_eq_iff_mset_eq_distinct[THEN iffD1]) (use peers first_per_peer_distinct in auto)
  then have "sort_key ?f (remdups (map row_peer rows)) = map row_peer ?xs"
    by (intro sort_key_inj_key_eq srt) (use inj in simp_all)
  moreover have "order_by ?f qp (remdups (map row_peer rows)) = sort_key ?f (remdups (map row_peer rows))"
    by (rule order_by_unique[OF assms(2)]) (use inj in simp)
  ultimately show ?thesis by simp
qed


text \<open>Two peers, messages in both directions, the newest one last.\<close>

definition sample_message_row :: "string \<Rightarrow> string \<Rightarrow> int \<Rightarrow> int \<Rightarrow> message_row" where
  "sample_message_row p d t r =
     \<lparr>mr_account_id = 1, mr_peer_uri = p, mr_direction = d, mr_body = ''hi'', mr_created_at_ms = t, mr_read = r\<rparr>"

definition messages_db :: "mrow list \<Rightarrow> database" where
  "messages_db rows =
     \<lparr>db_handle = True,
      db_tables = \<lparr>t_accounts = [], t_history = [], t_messages = rows, t_contacts = [], t_lines = [], t_settings = []\<rparr>,
      db_tx = None\<rparr>"

definition sample_messages :: database where
  "sample_messages = messages_db
     [(1, sample_message_row ''bob'' ''in'' 10 0), (2, sample_message_row ''eve'' ''out'' 20 1),
      (3, sample_message_row ''bob'' ''out'' 30 1)]"

lemma messages_db_simps [simp]: "message_rows (messages_db rows) = rows" "db_handle (messages_db rows)"
  by (simp_all add: messages_db_def)


subsection \<open>Unread counts\<close>

lemma filter_count_by_key:
  "finite A \<Longrightarrow> f ` set xs \<subseteq> A \<Longrightarrow>
   (\<Sum>p\<in>A. int (length (filter (\<lambda>x. f x = p \<and> P x) xs))) = int (length (filter P xs))"
proof (induction xs)
  case (Cons x xs)
  have "(\<Sum>p\<in>A. int (length (filter (\<lambda>y. f y = p \<and> P y) (x # xs))))
      = (\<Sum>p\<in>A. (if f x = p then (if P x then 1 else 0) else 0) + int (length (filter (\<lambda>y. f y = p \<and> P y) xs)))"
    by (intro sum.cong) auto
  also have "\<dots> = (if P x then 1 else 0) + int (length (filter P xs))"
    using Cons by (simp add: sum.distrib)
  finally show ?case by simp
qed simp

lemma sum_unread_first:
  assumes "completes q rows"
  shows "sum_list (map (\<lambda>x. unread_of rows (row_peer x)) (first_per_peer {} (order_by (\<lambda>x. - row_time x) q rows)))
       = int (length (filter unread_row rows))"
proof -
  let ?xs = "first_per_peer {} (order_by (\<lambda>x. - row_time x) q rows)"
  have "sum_list (map (unread_of rows) (map row_peer ?xs)) = sum (unread_of rows) (set (map row_peer ?xs))"
    by (rule sum_list_distinct_conv_sum_set[OF first_per_peer_distinct])
  also have "set (map row_peer ?xs) = row_peer ` set rows"
    using first_per_peer_peers[of "{}"] assms by simp
  also have "sum (unread_of rows) (row_peer ` set rows) = int (length (filter unread_row rows))"
    unfolding unread_of_def by (rule filter_count_by_key) simp_all
  finally show ?thesis by (simp add: comp_def)
qed

lemma unread_mark_row [simp]: "unread_row (mark_row p x) \<longleftrightarrow> unread_row x \<and> row_peer x \<noteq> p"
  and peer_mark_row [simp]: "row_peer (mark_row p x) = row_peer x"
  and time_mark_row [simp]: "row_time (mark_row p x) = row_time x"
  by (auto simp: mark_row_def unread_row_def)

lemma mark_row_idem [simp]: "mark_row p (mark_row p x) = mark_row p x"
  by (simp add: mark_row_def unread_row_def)

lemma unread_of_marked [simp]:
  "unread_of (map (mark_row p) rows) p' = (if p' = p then 0 else unread_of rows p')"
  by (auto simp: unread_of_def filter_map comp_def intro!: arg_cong[where f = length] filter_cong)

lemma unread_total_marked:
  "int (length (filter unread_row (map (mark_row p) rows))) = int (length (filter unread_row rows)) - unread_of rows p"
  by (induction rows) (auto simp: unread_of_def)

text \<open>The unread badge is the sum of the unread counts of the conversation list, and after
  marking a peer read the peer has none, every other peer keeps its own, the badge drops by exactly the
  count of that peer, the signal is emitted only if something changed, and repeating it changes nothing.\<close>

theorem unread_badge:
  assumes "db_handle db" "completes q (message_rows db)"
    and "mm_markPeerRead runs p db = (ok, emitted, db')" "completes q (message_rows db')"
  shows "sum_list (map cs_unreadCount (mm_conversationSummaries q db)) = mm_unreadCount True db
    \<and> ok = runs \<and> emitted = (runs \<and> unread_of (message_rows db) p > 0)
    \<and> mm_unreadCount True db' = mm_unreadCount True db - (if runs then unread_of (message_rows db) p else 0)
    \<and> (\<forall>p'. unread_of (message_rows db') p' = (if runs \<and> p' = p then 0 else unread_of (message_rows db) p'))
    \<and> (runs \<longrightarrow> mm_markPeerRead True p db' = (True, False, db'))"
proof -
  have "sum_list (map cs_unreadCount (mm_conversationSummaries q db)) = mm_unreadCount True db"
    using assms(1) sum_unread_first[OF assms(2)]
    by (simp add: summaries_eq[OF assms(2,1)] summary_of_row_def comp_def mm_unreadCount_def)
  moreover have "db' = (if runs then on_messages (map (mark_row p)) db else db)"
    using assms(1,3) by (auto simp: mm_markPeerRead_def Let_def split: if_splits)
  moreover have "on_messages (map (mark_row p)) (on_messages (map (mark_row p)) db) = on_messages (map (mark_row p)) db"
    by (simp add: on_messages_def comp_def)
  ultimately show ?thesis
    using assms(1,3) unread_total_marked[of p "message_rows db"]
    by (auto simp: mm_markPeerRead_def mm_unreadCount_def Let_def)
qed

theorem unread_badge_witness:
  "mm_unreadCount True (snd (snd (mm_markPeerRead True ''bob'' sample_messages))) = 0"
proof -
  have "mm_unreadCount True sample_messages = 1" "unread_of (message_rows sample_messages) ''bob'' = 1"
    by (simp_all add: mm_unreadCount_def sample_messages_def sample_message_row_def unread_of_def unread_row_def)
  then show ?thesis
    using unread_badge[of sample_messages plain_query True "''bob''" _ _ "snd (snd (mm_markPeerRead True ''bob'' sample_messages))"]
    by (simp add: prod_eq_iff) (simp add: sample_messages_def)
qed

subsection \<open>The thread\<close>

lemma thread_rows:
  assumes "completes q (filter (\<lambda>x. row_peer x = p) (message_rows db))" "db_handle db" "p \<noteq> []"
  shows "thread_of q p db
    = map message_of_row (take 500 (order_by row_time q (filter (\<lambda>x. row_peer x = p) (message_rows db))))"
  using assms by (simp add: thread_of_def mm_listByPeer_def sql_limit_def kThreadLimit_def)

text \<open>A conversation of at most 500 messages is shown completely and oldest first.\<close>

theorem thread_complete:
  assumes "db_handle db" "p \<noteq> []" "completes q (filter (\<lambda>x. row_peer x = p) (message_rows db))"
    and "length (filter (\<lambda>x. row_peer x = p) (message_rows db)) \<le> 500"
  shows "mset (thread_of q p db) = mset (map message_of_row (filter (\<lambda>x. row_peer x = p) (message_rows db)))
    \<and> sorted (map msg_createdAtMs (thread_of q p db))"
proof -
  let ?xs = "order_by row_time q (filter (\<lambda>x. row_peer x = p) (message_rows db))"
  have "thread_of q p db = map message_of_row ?xs"
    using assms by (simp add: thread_rows)
  moreover have "map msg_createdAtMs (map message_of_row ?xs) = map row_time ?xs" by simp
  moreover have "sorted (map row_time ?xs)" by (rule sorted_order_by)
  ultimately show ?thesis using assms(3) by (simp only: mset_map mset_order_by simp_thms)
qed

theorem thread_complete_witness:
  "sorted (map msg_createdAtMs (thread_of plain_query ''bob'' sample_messages))"
  using thread_complete[of sample_messages "''bob''" plain_query] by (simp add: sample_messages_def sample_message_row_def)

lemma sorted_strict_max_last:
  assumes "sorted (map f xs)" "distinct xs" "i < length xs" "xs ! i = r"
    and "\<And>x. x \<in> set xs \<Longrightarrow> x \<noteq> r \<Longrightarrow> f x < (f r :: int)"
  shows "Suc i = length xs"
proof (rule ccontr)
  assume "Suc i \<noteq> length xs"
  then have j: "Suc i < length xs" using assms(3) by simp
  then have "f r \<le> f (xs ! Suc i)" using assms(1,3,4) sorted_nth_mono[of "map f xs" i "Suc i"] by simp
  then have "xs ! Suc i = r" using assms(5)[of "xs ! Suc i"] j by (metis leD nth_mem)
  then show False using assms(2,3,4) j nth_eq_iff_index_eq by fastforce
qed

text \<open>C15. Once a conversation has 500 messages, a new message is stored and previewed in the conversation
  list, but the thread of its peer does not show it.\<close>

theorem long_thread_hides_newest:
  assumes "keys_sorted (message_rows db)" "mm_append True m db = (True, m', db')" "msg_peerUri m = p" "p \<noteq> []"
    and "500 \<le> length (filter (\<lambda>x. row_peer x = p) (message_rows db))"
    and "\<forall>x \<in> set (message_rows db). row_peer x = p \<longrightarrow> row_time x < msg_createdAtMs m"
    and "completes q (filter (\<lambda>x. row_peer x = p) (message_rows db'))" "completes q' (message_rows db')"
  shows "msg_id m' \<notin> msg_id ` set (thread_of q p db')
    \<and> (\<exists>s \<in> set (mm_conversationSummaries q' db'). cs_peer s = c_text p \<and> cs_lastBody s = c_text (msg_body m))"
proof -
  let ?r = "(next_rowid (message_rows db), message_row_of m)"
  let ?mine = "filter (\<lambda>x. row_peer x = p) (message_rows db)" and ?xs = "order_by row_time q (filter (\<lambda>x. row_peer x = p) (message_rows db'))"
  have h: "db_handle db'" and m': "msg_id m' = fst ?r" and rows: "message_rows db' = message_rows db @ [?r]"
    using assms(2) by (auto simp: mm_append_def Let_def split: if_splits)
  have rp: "row_peer ?r = p" "row_time ?r = msg_createdAtMs m" using assms(3) by (simp_all add: message_row_of_def)
  then have mine: "filter (\<lambda>x. row_peer x = p) (message_rows db') = ?mine @ [?r]" by (simp add: rows)
  have "\<not> ahas (message_rows db) (fst ?r)" using next_rowid_new[OF assms(1)] by simp
  then have "distinct (map fst (message_rows db'))"
    using keys_sorted_distinct[OF assms(1)] by (simp add: rows ahas_iff_keys)
  then have ids: "inj_on fst (set (message_rows db'))" "distinct (?mine @ [?r])"
    unfolding mine[symmetric] by (auto simp: distinct_map)
  have set_xs: "set ?xs = set (?mine @ [?r])" and len: "length ?xs = Suc (length ?mine)"
    using assms(7) mine by (simp_all add: set_order_by length_order_by)
  have "mset ?xs = mset (?mine @ [?r])" using mset_order_by[OF assms(7)] mine by metis
  then have d: "distinct ?xs" using ids(2) mset_eq_imp_distinct_iff by blast
  have "x \<noteq> ?r" if "x \<in> set (take 500 ?xs)" for x
  proof
    assume r: "x = ?r"
    from that obtain i where i: "i < 500" "i < length ?xs" "?xs ! i = x"
      by (auto simp: in_set_conv_nth)
    have "Suc i = length ?xs"
      by (rule sorted_strict_max_last[where f = row_time and r = ?r])
        (use d i r assms(6) rp set_xs in \<open>auto simp del: set_order_by length_order_by\<close>)
    with i(1) len assms(5) show False by simp
  qed
  moreover have "take 500 ?xs \<noteq> [] \<Longrightarrow> set (take 500 ?xs) \<subseteq> set (message_rows db')"
    using set_xs mine by (metis filter_is_subset set_take_subset subset_trans)
  ultimately have "fst ?r \<notin> fst ` set (take 500 ?xs)"
    using inj_onD[OF ids(1)] rows by fastforce
  then have hidden: "msg_id m' \<notin> msg_id ` set (thread_of q p db')"
    using thread_rows[OF assms(7) h assms(4)] m' by (simp add: image_image)
  let ?F = "first_per_peer {} (order_by (\<lambda>x. - row_time x) q' (message_rows db'))"
  have "p \<in> row_peer ` set ?F" using first_per_peer_peers[of "{}"] assms(8) rows rp by fastforce
  then obtain x where x: "x \<in> set ?F" "row_peer x = p" by auto
  have "x = ?r"
    using newest_row_of_peer(1)[OF assms(8) x(1)] newest_row_of_peer(2)[OF assms(8) x(1), of ?r] assms(6) rows rp x(2) by fastforce
  then have "summary_of_row (message_rows db') ?r \<in> set (mm_conversationSummaries q' db')"
    using x(1) summaries_eq[OF assms(8) h] by auto
  then have "\<exists>s \<in> set (mm_conversationSummaries q' db'). cs_peer s = c_text p \<and> cs_lastBody s = c_text (msg_body m)"
    by (rule bexI[rotated]) (use rp in \<open>simp add: summary_of_row_def message_row_of_def\<close>)
  with hidden show ?thesis by blast
qed

definition long_conversation :: database where
  "long_conversation = messages_db (map (\<lambda>i. (int i + 1, sample_message_row ''bob'' ''in'' (int i) 1)) [0..<500])"

lemma long_conversation_rows:
  "keys_sorted (message_rows long_conversation)" "db_handle long_conversation"
  "filter (\<lambda>x. row_peer x = ''bob'') (message_rows long_conversation) = message_rows long_conversation"
  "length (message_rows long_conversation) = 500"
  "\<forall>x \<in> set (message_rows long_conversation). row_time x < 1000"
  by (auto simp: long_conversation_def sample_message_row_def keys_sorted_def sorted_wrt_map comp_def
      sorted_wrt_iff_nth_less filter_id_conv)

theorem long_thread_hides_newest_witness:
  "let m = default_message\<lparr>msg_peerUri := ''bob'', msg_body := ''new'', msg_createdAtMs := 1000\<rparr>;
       r = mm_append True m long_conversation
   in fst r \<and> msg_id (fst (snd r)) \<notin> msg_id ` set (thread_of plain_query ''bob'' (snd (snd r)))"
proof -
  let ?m = "default_message\<lparr>msg_peerUri := ''bob'', msg_body := ''new'', msg_createdAtMs := 1000\<rparr>"
  let ?r = "mm_append True ?m long_conversation"
  have ok: "fst ?r" using long_conversation_rows(2) by (simp add: mm_append_def Let_def)
  have r: "?r = (True, fst (snd ?r), snd (snd ?r))" using ok by (simp add: prod_eq_iff)
  have "msg_id (fst (snd ?r)) \<notin> msg_id ` set (thread_of plain_query ''bob'' (snd (snd ?r)))"
    using long_thread_hides_newest[OF long_conversation_rows(1) r, of "''bob''" plain_query plain_query]
      long_conversation_rows by simp
  with ok show ?thesis unfolding Let_def by (rule conjI)
qed

subsection \<open>The lists follow the table\<close>

definition q_good :: "'r query \<Rightarrow> bool" where
  "q_good q \<longleftrightarrow> (\<forall>rows. completes q rows)"

lemma q_good_plain [simp]: "q_good plain_query"
  by (simp add: q_good_def)

lemma q_good_completes: "q_good q \<Longrightarrow> completes q rows"
  by (simp add: q_good_def)

definition env_good :: "refresh_env \<Rightarrow> bool" where
  "env_good env \<longleftrightarrow> q_good (re_thread env) \<and> q_good (re_conversations env)"

text \<open>What happens to the messaging surface: the user sends, selects or marks, a message arrives.  INSERT
  and UPDATE may fail, the SELECTs of a refresh complete.\<close>

inductive messaging_step ::
  "'b isip_backend \<Rightarrow> messaging \<times> ('b, 'k) accounts_manager \<Rightarrow> messaging \<times> ('b, 'k) accounts_manager \<Rightarrow> bool" for B where
  step_send: "env_good env \<Longrightarrow> mc_send B runs env aid now peer body ms am = (ok, ms', am') \<Longrightarrow>
    messaging_step B (ms, am) (ms', am')"
| step_receive: "env_good env \<Longrightarrow> messaging_step B (ms, am) (message_received runs env now aid sender body ms, am)"
| step_select: "env_good env \<Longrightarrow> q_good q \<Longrightarrow> messaging_step B (ms, am) (selectConversation q runs env peer ms, am)"
| step_mark: "env_good env \<Longrightarrow> messaging_step B (ms, am) (markConversationRead runs env peer ms, am)"
| step_accounts: "messaging_step B (ms, am) (ms, am')"

inductive messaging_reach :: "'b isip_backend \<Rightarrow> messaging \<times> ('b, 'k) accounts_manager \<Rightarrow> bool" for B where
  reach_new: "q_good q \<Longrightarrow> messaging_reach B (ms_new q db, am)"
| reach_step: "messaging_reach B s \<Longrightarrow> messaging_step B s s' \<Longrightarrow> messaging_reach B s'"

definition ms_synced :: "messaging \<Rightarrow> bool" where
  "ms_synced ms \<longleftrightarrow>
     (\<exists>q. q_good q \<and> ms_conversations ms = conversations_refresh q (ms_db ms)) \<and>
     (\<exists>q. q_good q \<and> ms_snapshot ms = thread_of q (ms_peer ms) (ms_db ms))"

lemma ms_emit_simps [simp]:
  "ms_db (ms_emit s ms) = ms_db ms" "ms_peer (ms_emit s ms) = ms_peer ms"
  "ms_snapshot (ms_emit s ms) = ms_snapshot ms" "ms_conversations (ms_emit s ms) = ms_conversations ms"
  by (simp_all add: ms_emit_def)

lemma on_messagesChanged_simps [simp]:
  "ms_db (on_messagesChanged env ms) = ms_db ms" "ms_peer (on_messagesChanged env ms) = ms_peer ms"
  "ms_snapshot (on_messagesChanged env ms) = thread_of (re_thread env) (ms_peer ms) (ms_db ms)"
  "ms_conversations (on_messagesChanged env ms) = conversations_refresh (re_conversations env) (ms_db ms)"
  by (simp_all add: on_messagesChanged_def Let_def messages_refresh_def)

lemma synced_on_messagesChanged: "env_good env \<Longrightarrow> ms_synced (on_messagesChanged env ms)"
  by (auto simp: ms_synced_def env_good_def)

lemma synced_emit [simp]: "ms_synced (ms_emit s ms) = ms_synced ms"
  by (simp add: ms_synced_def)

lemma synced_append: "env_good env \<Longrightarrow> ms_synced ms \<Longrightarrow> ms_synced (ms_append runs env m ms)"
proof (cases "mm_append runs m (ms_db ms)")
  case (fields ok m' db)
  assume "env_good env" "ms_synced ms"
  moreover have "\<not> ok \<Longrightarrow> db = ms_db ms" using fields by (auto simp: mm_append_def Let_def split: if_splits)
  ultimately show ?thesis by (cases ok) (simp_all add: ms_append_def fields synced_on_messagesChanged)
qed

lemma synced_mark: "env_good env \<Longrightarrow> ms_synced ms \<Longrightarrow> ms_synced (markConversationRead runs env peer ms)"
proof (cases "mm_markPeerRead runs peer (ms_db ms)")
  case (fields ok em db)
  assume g: "env_good env" "ms_synced ms"
  have "\<not> em \<Longrightarrow> db = ms_db ms"
  proof -
    assume "\<not> em"
    then have "\<forall>x \<in> set (message_rows (ms_db ms)). \<not> (row_peer x = peer \<and> unread_row x) \<or> \<not> runs \<or> \<not> db_handle (ms_db ms)"
      using fields by (auto simp: mm_markPeerRead_def Let_def unread_of_def filter_empty_conv split: if_splits)
    then have "runs \<Longrightarrow> db_handle (ms_db ms) \<Longrightarrow> map (mark_row peer) (message_rows (ms_db ms)) = message_rows (ms_db ms)"
      by (intro map_idI) (auto simp: mark_row_def)
    then show ?thesis using fields
      by (auto simp: mm_markPeerRead_def Let_def on_messages_def split: if_splits)
  qed
  with g show ?thesis by (cases em) (simp_all add: markConversationRead_def fields synced_on_messagesChanged)
qed

lemma synced_setPeer: "q_good q \<Longrightarrow> ms_synced ms \<Longrightarrow> ms_synced (setPeer q peer ms)"
  by (auto simp: setPeer_def ms_synced_def messages_refresh_def)

lemma synced_step: "messaging_step B s s' \<Longrightarrow> ms_synced (fst s) \<Longrightarrow> ms_synced (fst s')"
  by (erule messaging_step.cases)
    (auto simp: mc_send_def Let_def message_received_def selectConversation_def synced_append synced_mark synced_setPeer
      split: if_splits prod.splits)

lemma synced_new: "q_good q \<Longrightarrow> ms_synced (ms_new q db)"
  by (auto simp: ms_synced_def ms_new_def thread_of_def)

lemma reach_synced: "messaging_reach B s \<Longrightarrow> ms_synced (fst s)"
  by (induction rule: messaging_reach.induct) (auto intro: synced_new synced_step)

text \<open>C13. Whatever the user does and whatever arrives, the conversation list and the open thread are what
  their SELECTs give for the table: no change of the table is missed.\<close>

theorem messaging_in_sync:
  assumes "messaging_reach B (ms, am)"
  shows "(\<exists>q. q_good q \<and> ms_conversations ms = conversations_refresh q (ms_db ms))
    \<and> (\<exists>q. q_good q \<and> ms_snapshot ms = thread_of q (ms_peer ms) (ms_db ms))"
  using reach_synced[OF assms] by (simp add: ms_synced_def)

definition plain_env :: refresh_env where
  "plain_env = \<lparr>re_thread = plain_query, re_conversations = plain_query\<rparr>"

lemma env_good_plain [simp]: "env_good plain_env"
  by (simp add: env_good_def plain_env_def)

theorem messaging_in_sync_witness:
  "\<exists>q. q_good q \<and> ms_snapshot (selectConversation plain_query True plain_env ''bob'' (ms_new plain_query sample_messages))
     = thread_of q ''bob'' (ms_db (selectConversation plain_query True plain_env ''bob'' (ms_new plain_query sample_messages)))"
proof -
  let ?ms = "selectConversation plain_query True plain_env ''bob'' (ms_new plain_query sample_messages)"
  have "messaging_reach B (?ms, am)" for B :: "unit isip_backend" and am :: "(unit, unit) accounts_manager"
    by (rule reach_step[OF reach_new step_select]) simp_all
  moreover have "ms_peer ?ms = ''bob''"
    by (simp add: selectConversation_def markConversationRead_def setPeer_def messages_refresh_def ms_new_def Let_def
        split: prod.split)
  ultimately show ?thesis using messaging_in_sync[of _ ?ms] by metis
qed

subsection \<open>Sending and reading\<close>

text \<open>A sent message is stored, marked read, before the network is tried, so it is in the thread
  whether or not it goes out; the user is told exactly when it does not.\<close>

theorem send_stores_first:
  assumes "peerUri \<noteq> []" "body \<noteq> []" "0 < aid" "db_handle (ms_db ms)"
    and "mc_send B True env aid now peerUri body ms am = (ok, ms', am')"
  shows "message_rows (ms_db ms') = message_rows (ms_db ms) @
      [(next_rowid (message_rows (ms_db ms)),
        \<lparr>mr_account_id = aid, mr_peer_uri = peerUri, mr_direction = ''out'', mr_body = body, mr_created_at_ms = now, mr_read = 1\<rparr>)]
    \<and> (ok, am') = sendInstantMessage B aid peerUri body am
    \<and> ms_signals ms' = ms_signals ms @ UnreadCountChanged # (if ok then [] else [Notice ''Message failed to send''])
    \<and> (\<forall>runs. mm_unreadCount runs (ms_db ms') = mm_unreadCount runs (ms_db ms))"
  using assms
  by (auto simp: mc_send_def ms_append_def mm_append_def Let_def default_message_def message_row_of_def ms_emit_def
      on_messagesChanged_def messages_refresh_def mm_unreadCount_def unread_row_def split: if_splits prod.splits)

lemma summary_unread:
  assumes "s \<in> set (mm_conversationSummaries q db)" "completes q (message_rows db)" "db_handle db"
    and "\<forall>x \<in> set (message_rows db). message_row_ok x"
  shows "cs_unreadCount s = unread_of (message_rows db) (cs_peer s)"
proof -
  from assms(1) obtain x where x: "x \<in> set (first_per_peer {} (order_by (\<lambda>x. - row_time x) q (message_rows db)))"
    "s = summary_of_row (message_rows db) x"
    unfolding summaries_eq[OF assms(2,3)] by auto
  then have "c_text (row_peer x) = row_peer x"
    using newest_row_of_peer(1)[OF assms(2) x(1)] assms(4) by (simp add: message_row_ok_def)
  with x(2) show ?thesis by (simp add: summary_of_row_def)
qed

text \<open>Selecting a conversation leaves none of its messages unread in the conversation list.\<close>

theorem selecting_reads:
  assumes "messaging_reach B (ms, am)" "env_good env" "q_good q" "db_handle (ms_db ms)"
    and "\<forall>x \<in> set (message_rows (ms_db ms)). message_row_ok x"
    and "ms' = selectConversation q True env peer ms"
  shows "ms_peer ms' = peer \<and> (\<forall>r \<in> set (ms_conversations ms'). cr_peer r = peer \<longrightarrow> \<not> cr_unread r)"
proof -
  have db': "ms_db ms' = on_messages (map (mark_row peer)) (ms_db ms)" and peer: "ms_peer ms' = peer"
    using assms(4) by (auto simp: assms(6) selectConversation_def markConversationRead_def setPeer_def messages_refresh_def
        mm_markPeerRead_def Let_def split: if_splits prod.splits)
  have "messaging_reach B (ms', am)" unfolding assms(6) by (intro reach_step[OF assms(1)] step_select assms(2,3))
  from reach_synced[OF this]
  obtain q' where q': "q_good q'" "ms_conversations ms' = conversations_refresh q' (ms_db ms')"
    by (auto simp: ms_synced_def)
  have ok: "\<forall>x \<in> set (message_rows (ms_db ms')). message_row_ok x"
    using assms(5) by (auto simp: db' message_row_ok_def mark_row_def)
  have "cs_unreadCount s = 0" if "s \<in> set (mm_conversationSummaries q' (ms_db ms'))" "cs_peer s = peer" for s
    using summary_unread[OF that(1) q_good_completes[OF q'(1)] _ ok] that(2) assms(4) by (simp add: db')
  then show ?thesis
    using peer by (auto simp: q'(2) conversations_refresh_def conversation_row_of_def)
qed

theorem selecting_reads_witness:
  "filter (\<lambda>r. cr_peer r = ''bob'' \<and> cr_unread r)
     (ms_conversations (selectConversation plain_query True plain_env ''bob'' (ms_new plain_query sample_messages))) = []"
proof -
  have reach: "messaging_reach B (ms_new plain_query sample_messages, am)"
    for B :: "unit isip_backend" and am :: "(unit, unit) accounts_manager"
    by (rule reach_new) simp
  show ?thesis
    using selecting_reads[OF reach env_good_plain q_good_plain _ _ refl, of "''bob''"]
    by (auto simp: filter_empty_conv ms_new_def sample_messages_def sample_message_row_def message_row_ok_def no_nul_def code_def)
qed

theorem send_stores_first_witness:
  "\<forall>(B :: unit isip_backend) env (am :: (unit, unit) accounts_manager).
     (case mc_send B True env 1 7 ''bob'' ''hello'' (ms_new plain_query sample_messages) am of
        (ok, ms', am') \<Rightarrow> length (message_rows (ms_db ms')) = 4)"
proof (intro allI)
  fix B :: "unit isip_backend" and env and am :: "(unit, unit) accounts_manager"
  obtain ok ms' am' where s: "mc_send B True env 1 7 ''bob'' ''hello'' (ms_new plain_query sample_messages) am = (ok, ms', am')"
    by (metis prod_cases3)
  have "length (message_rows (ms_db ms')) = 4"
    using send_stores_first[OF _ _ _ _ s] by (simp add: ms_new_def sample_messages_def)
  with s show "case mc_send B True env 1 7 ''bob'' ''hello'' (ms_new plain_query sample_messages) am of
        (ok, ms', am') \<Rightarrow> length (message_rows (ms_db ms')) = 4" by simp
qed

end
