(* ===== verification/Lines.thy ===== *)
theory Lines imports Queries RowModel Accounts BackendIf FakeBackend "HOL-Library.Product_Lexorder" begin

text \<open>
  The watched lines (busy lamp field): \<open>core/LinesManager.{h,cpp}\<close> over the \<open>watched_lines\<close> table and the
  backend's presence watches, \<open>core/WatchedLine.h\<close>, \<open>core/LinesController.{h,cpp}\<close> and
  \<open>models/LinesModel.{h,cpp}\<close>.  The manager shares the database and the backend with the accounts
  manager, so its operations thread that state.  What it relies on from the backend is the locale
  \<open>presence_backend\<close>.
\<close>

subsection \<open>Lines\<close>

datatype line_state = LsUnknown | LsIdle | LsBusy | LsOffline

definition kInvalidWatchedLineId :: int where "kInvalidWatchedLineId = -1"

record watched_line =
  wl_id :: int
  wl_accountId :: account_id
  wl_uri :: string
  wl_label :: string
  wl_sortOrder :: int
  wl_state :: line_state

fun lineStateToString :: "line_state \<Rightarrow> string" where
  "lineStateToString LsIdle = ''idle''"
| "lineStateToString LsBusy = ''busy''"
| "lineStateToString LsOffline = ''offline''"
| "lineStateToString LsUnknown = ''unknown''"

text \<open>\<open>static_cast<LineState>(state)\<close>: the two enumerations list their values in the same order.\<close>

fun lineStateOf :: "presence_state \<Rightarrow> line_state" where
  "lineStateOf PsUnknown = LsUnknown"
| "lineStateOf PsIdle = LsIdle"
| "lineStateOf PsBusy = LsBusy"
| "lineStateOf PsOffline = LsOffline"

record line_entry =
  le_line :: watched_line
  le_watchId :: watch_id

record lines_manager =
  lm_entries :: "line_entry list"
  lm_changes :: nat

definition emit_linesChanged :: "lines_manager \<Rightarrow> lines_manager" where
  "emit_linesChanged lm = lm\<lparr>lm_changes := Suc (lm_changes lm)\<rparr>"

type_synonym lrow = "int \<times> line_row"

abbreviation line_rows :: "database \<Rightarrow> lrow list" where
  "line_rows db \<equiv> t_lines (db_tables db)"

definition on_lines :: "(lrow list \<Rightarrow> lrow list) \<Rightarrow> database \<Rightarrow> database" where
  "on_lines g db = db\<lparr>db_tables := (db_tables db)\<lparr>t_lines := g (line_rows db)\<rparr>\<rparr>"

definition line_of_row :: "lrow \<Rightarrow> watched_line" where
  "line_of_row x = (case x of (i, r) \<Rightarrow>
     \<lparr>wl_id = i, wl_accountId = lr_account_id r, wl_uri = c_text (lr_uri r), wl_label = c_text (lr_label r),
      wl_sortOrder = lr_sort_order r, wl_state = LsUnknown\<rparr>)"

text \<open>\<open>ORDER BY sort_order, id\<close>\<close>

definition line_key :: "lrow \<Rightarrow> int \<times> int" where
  "line_key x = (lr_sort_order (snd x), fst x)"

definition lm_loadFromDatabase :: "bool \<Rightarrow> nat option \<Rightarrow> database \<Rightarrow> line_entry list" where
  "lm_loadFromDatabase prepared stop db =
     (if \<not> db_handle db then []
      else fetch prepared stop
        (map (\<lambda>x. \<lparr>le_line = line_of_row x, le_watchId = kInvalidWatchId\<rparr>) (sort_key line_key (line_rows db))))"

definition watchEntry ::
  "'b isip_backend \<Rightarrow> line_entry \<Rightarrow> ('b, 'k) accounts_manager \<Rightarrow> line_entry \<times> ('b, 'k) accounts_manager" where
  "watchEntry B e am =
     (let backendAcc = backendIdFor (wl_accountId (le_line e)) am in
      if backendAcc = kInvalidAccountId then (e, am)
      else (case bk_watch B (am_backend am) backendAcc (wl_uri (le_line e)) of
        (wid, b) \<Rightarrow> (if wid \<noteq> kInvalidWatchId then e\<lparr>le_watchId := wid\<rparr> else e, am\<lparr>am_backend := b\<rparr>)))"

fun subscribeAll ::
  "'b isip_backend \<Rightarrow> line_entry list \<Rightarrow> ('b, 'k) accounts_manager \<Rightarrow> line_entry list \<times> ('b, 'k) accounts_manager" where
  "subscribeAll B [] am = ([], am)"
| "subscribeAll B (e # es) am =
     (case watchEntry B e am of (e', am1) \<Rightarrow>
       (case subscribeAll B es am1 of (es', am2) \<Rightarrow> (e' # es', am2)))"

definition lm_new ::
  "'b isip_backend \<Rightarrow> bool \<Rightarrow> nat option \<Rightarrow> ('b, 'k) accounts_manager \<Rightarrow> lines_manager \<times> ('b, 'k) accounts_manager" where
  "lm_new B prepared stop am =
     (case subscribeAll B (lm_loadFromDatabase prepared stop (am_db am)) am of
        (es, am') \<Rightarrow> (\<lparr>lm_entries = es, lm_changes = 0\<rparr>, am'))"

definition lm_destroy :: "'b isip_backend \<Rightarrow> lines_manager \<Rightarrow> ('b, 'k) accounts_manager \<Rightarrow> ('b, 'k) accounts_manager" where
  "lm_destroy B lm am =
     am\<lparr>am_backend := fold (\<lambda>e b. if le_watchId e \<noteq> kInvalidWatchId then snd (bk_unwatch B b (le_watchId e)) else b)
                        (lm_entries lm) (am_backend am)\<rparr>"

definition lm_add ::
  "'b isip_backend \<Rightarrow> bool \<Rightarrow> account_id \<Rightarrow> string \<Rightarrow> string \<Rightarrow> lines_manager \<Rightarrow> ('b, 'k) accounts_manager
     \<Rightarrow> int \<times> lines_manager \<times> ('b, 'k) accounts_manager" where
  "lm_add B runs accountId uri label lm am =
     (let db = am_db am; order = int (length (lm_entries lm)) in
      if \<not> db_handle db \<or> \<not> runs then (kInvalidWatchedLineId, lm, am)
      else
        (let newId = next_rowid (line_rows db);
             row = \<lparr>lr_account_id = accountId, lr_uri = c_text uri, lr_label = c_text label, lr_sort_order = order\<rparr>;
             am1 = am\<lparr>am_db := on_lines (\<lambda>t. t @ [(newId, row)]) db\<rparr>;
             e = \<lparr>le_line = \<lparr>wl_id = newId, wl_accountId = accountId, wl_uri = uri, wl_label = label,
                    wl_sortOrder = order, wl_state = LsUnknown\<rparr>, le_watchId = kInvalidWatchId\<rparr>
         in case watchEntry B e am1 of
              (e', am2) \<Rightarrow> (newId, emit_linesChanged (lm\<lparr>lm_entries := lm_entries lm @ [e']\<rparr>), am2)))"

text \<open>\<open>deleted\<close>: the DELETE ran; the code does not look.\<close>

definition lm_remove ::
  "'b isip_backend \<Rightarrow> bool \<Rightarrow> int \<Rightarrow> lines_manager \<Rightarrow> ('b, 'k) accounts_manager
     \<Rightarrow> bool \<times> lines_manager \<times> ('b, 'k) accounts_manager" where
  "lm_remove B deleted i lm am =
     (case find (\<lambda>e. wl_id (le_line e) = i) (lm_entries lm) of
        None \<Rightarrow> (False, lm, am)
      | Some e \<Rightarrow>
          (let b = (if le_watchId e \<noteq> kInvalidWatchId then snd (bk_unwatch B (am_backend am) (le_watchId e))
                    else am_backend am);
               db = (if db_handle (am_db am) \<and> deleted then on_lines (adel i) (am_db am) else am_db am)
           in (True, emit_linesChanged (lm\<lparr>lm_entries := del_first (\<lambda>e. wl_id (le_line e) = i) (lm_entries lm)\<rparr>),
               am\<lparr>am_backend := b, am_db := db\<rparr>)))"

definition lm_list :: "lines_manager \<Rightarrow> watched_line list" where
  "lm_list lm = map le_line (lm_entries lm)"

definition lm_find :: "int \<Rightarrow> lines_manager \<Rightarrow> watched_line option" where
  "lm_find i lm = map_option le_line (find (\<lambda>e. wl_id (le_line e) = i) (lm_entries lm))"

definition lm_onPresence :: "watch_id \<Rightarrow> presence_state \<Rightarrow> lines_manager \<Rightarrow> lines_manager" where
  "lm_onPresence w st lm =
     (case find (\<lambda>e. le_watchId e = w) (lm_entries lm) of
        None \<Rightarrow> lm
      | Some e \<Rightarrow>
          (if wl_state (le_line e) = lineStateOf st then lm
           else emit_linesChanged (lm\<lparr>lm_entries :=
             upd_first (\<lambda>e. le_watchId e = w) (\<lambda>e. e\<lparr>le_line := (le_line e)\<lparr>wl_state := lineStateOf st\<rparr>\<rparr>)
               (lm_entries lm)\<rparr>)))"

subsection \<open>LinesController\<close>

text \<open>\<open>aid\<close> is the active account.\<close>

definition lc_add ::
  "'b isip_backend \<Rightarrow> bool \<Rightarrow> int \<Rightarrow> string \<Rightarrow> string \<Rightarrow> lines_manager \<Rightarrow> ('b, 'k) accounts_manager
     \<Rightarrow> int \<times> lines_manager \<times> ('b, 'k) accounts_manager" where
  "lc_add B runs aid uri label lm am =
     (if aid \<le> 0 then (-1, lm, am) else lm_add B runs aid uri label lm am)"

text \<open>\<open>dial\<close>: the target of \<open>callRequested\<close>, if it is emitted.\<close>

definition lc_dial :: "int \<Rightarrow> lines_manager \<Rightarrow> string option" where
  "lc_dial i lm = map_option wl_uri (lm_find i lm)"

subsection \<open>LinesModel\<close>

datatype lines_role = LrIdRole | LrAccountIdRole | LrUriRole | LrLabelRole | LrStateRole

fun lines_data :: "watched_line \<Rightarrow> lines_role \<Rightarrow> role_value" where
  "lines_data l LrIdRole = RvInt (wl_id l)"
| "lines_data l LrAccountIdRole = RvInt (wl_accountId l)"
| "lines_data l LrUriRole = RvString (wl_uri l)"
| "lines_data l LrLabelRole = RvString (wl_label l)"
| "lines_data l LrStateRole = RvString (lineStateToString (wl_state l))"

definition lines_data_at :: "watched_line list \<Rightarrow> int \<Rightarrow> lines_role \<Rightarrow> role_value option" where
  "lines_data_at snap row role =
     (if row < 0 \<or> row \<ge> int (length snap) then None else Some (lines_data (snap ! nat row) role))"

fun lines_role_name :: "lines_role \<Rightarrow> string" where
  "lines_role_name LrIdRole = ''lineId''"
| "lines_role_name LrAccountIdRole = ''accountId''"
| "lines_role_name LrUriRole = ''uri''"
| "lines_role_name LrLabelRole = ''label''"
| "lines_role_name LrStateRole = ''state''"

definition lines_changed :: "watched_line \<Rightarrow> watched_line \<Rightarrow> lines_role list" where
  "lines_changed x l =
     (if wl_accountId x \<noteq> wl_accountId l then [LrAccountIdRole] else []) @
     (if wl_uri x \<noteq> wl_uri l then [LrUriRole] else []) @
     (if wl_label x \<noteq> wl_label l then [LrLabelRole] else []) @
     (if wl_state x \<noteq> wl_state l then [LrStateRole] else [])"

definition lines_refresh ::
  "watched_line list \<Rightarrow> watched_line list \<Rightarrow> (watched_line, lines_role) row_signal list \<times> watched_line list" where
  "lines_refresh nxt snap = refresh_rows wl_id lines_changed nxt snap"

interpretation lines_rows: row_model wl_id lines_changed lines_data
proof
  fix e e' :: watched_line and r assume "wl_id e = wl_id e'" "r \<notin> set (lines_changed e e')"
  then show "lines_data e' r = lines_data e r"
    by (cases r) (auto simp: lines_changed_def split: if_splits)
qed

subsection \<open>Facts about the operations\<close>

lemma on_lines_simps [simp]:
  "line_rows (on_lines g db) = g (line_rows db)" "db_handle (on_lines g db) = db_handle db"
  by (simp_all add: on_lines_def)

lemma watchEntry_frame:
  assumes "watchEntry B e am = (e', am')"
  shows "le_line e' = le_line e" "am_db am' = am_db am"
  using assms by (auto simp: watchEntry_def Let_def split: if_splits prod.splits)

lemma subscribeAll_frame:
  "subscribeAll B es am = (es', am') \<Longrightarrow> map le_line es' = map le_line es \<and> am_db am' = am_db am"
proof (induction es arbitrary: es' am am')
  case (Cons e es)
  obtain e1 am1 where e: "watchEntry B e am = (e1, am1)" by (cases "watchEntry B e am")
  obtain es1 am2 where s: "subscribeAll B es am1 = (es1, am2)" by (cases "subscribeAll B es am1")
  show ?case using Cons.IH[OF s] Cons.prems watchEntry_frame[OF e] by (auto simp: e s)
qed simp

lemma upd_first_id_map:
  "(\<And>x. f (g x) = f x) \<Longrightarrow> map f (upd_first P g xs) = map f xs"
  by (induction xs) auto

lemma find_split: "find P xs = Some x \<Longrightarrow> \<exists>us vs. xs = us @ x # vs \<and> P x \<and> (\<forall>u \<in> set us. \<not> P u)"
proof (induction xs)
  case (Cons y xs)
  show ?case
  proof (cases "P y")
    case True
    then show ?thesis using Cons.prems by fastforce
  next
    case False
    then obtain us vs where "xs = us @ x # vs" "P x" "\<forall>u \<in> set us. \<not> P u" using Cons by auto
    with False have "y # xs = (y # us) @ x # vs" "P x" "\<forall>u \<in> set (y # us). \<not> P u" by simp_all
    then show ?thesis by blast
  qed
qed simp

lemma del_first_split: "P x \<Longrightarrow> \<forall>u \<in> set us. \<not> P u \<Longrightarrow> del_first P (us @ x # vs) = us @ vs"
  by (induction us) auto

lemma upd_first_split: "P x \<Longrightarrow> \<forall>u \<in> set us. \<not> P u \<Longrightarrow> upd_first P g (us @ x # vs) = us @ g x # vs"
  by (induction us) auto

subsection \<open>The invariant\<close>

text \<open>Ids of the lines and of their live watches, in order.\<close>

abbreviation line_ids :: "line_entry list \<Rightarrow> int list" where
  "line_ids es \<equiv> map (\<lambda>e. wl_id (le_line e)) es"

definition watch_ids :: "line_entry list \<Rightarrow> watch_id list" where
  "watch_ids es = filter (\<lambda>w. w \<noteq> kInvalidWatchId) (map le_watchId es)"

lemma watch_ids_simps [simp]:
  "watch_ids [] = []"
  "watch_ids (e # es) = (if le_watchId e = kInvalidWatchId then watch_ids es else le_watchId e # watch_ids es)"
  "watch_ids (es @ fs) = watch_ids es @ watch_ids fs"
  by (simp_all add: watch_ids_def)

lemma set_watch_ids: "set (watch_ids es) = le_watchId ` set es - {kInvalidWatchId}"
  by (auto simp: watch_ids_def)

lemma valid_in_watch_ids: "e \<in> set es \<Longrightarrow> le_watchId e \<noteq> kInvalidWatchId \<Longrightarrow> le_watchId e \<in> set (watch_ids es)"
  by (auto simp: set_watch_ids)

text \<open>The rows behind the lines: every line has its row, under its own id.\<close>

definition lines_stored :: "line_entry list \<Rightarrow> database \<Rightarrow> bool" where
  "lines_stored es db \<longleftrightarrow> keys_sorted (line_rows db) \<and> distinct (line_ids es) \<and>
     (\<forall>i \<in> set (line_ids es). ahas (line_rows db) i)"

lemma map_fetch: "map f (fetch prepared stop xs) = fetch prepared stop (map f xs)"
  by (simp add: fetch_def take_map split: option.split)

lemma distinct_fetch: "distinct xs \<Longrightarrow> distinct (fetch prepared stop xs)"
  by (simp add: fetch_def distinct_take split: option.split)

lemma line_ids_load:
  "line_ids (lm_loadFromDatabase prepared stop db) =
     (if db_handle db then fetch prepared stop (map fst (sort_key line_key (line_rows db))) else [])"
  by (simp add: lm_loadFromDatabase_def map_fetch comp_def line_of_row_def split_beta)

lemma lines_stored_load: "keys_sorted (line_rows db) \<Longrightarrow> lines_stored (lm_loadFromDatabase prepared stop db) db"
proof -
  assume ks: "keys_sorted (line_rows db)"
  let ?s = "map fst (sort_key line_key (line_rows db))"
  have "mset ?s = mset (map fst (line_rows db))" by simp
  then have "distinct ?s" using keys_sorted_distinct[OF ks] mset_eq_imp_distinct_iff by blast
  then have "distinct (fetch prepared stop ?s)" by (rule distinct_fetch)
  moreover have "set ?s = fst ` set (line_rows db)" by simp
  then have "set (fetch prepared stop ?s) \<subseteq> fst ` set (line_rows db)"
    using set_fetch[of prepared stop ?s] by (rule ord_le_eq_trans[rotated])
  ultimately show ?thesis
    unfolding lines_stored_def line_ids_load using ks by (auto simp: ahas_iff_keys simp del: set_sort)
qed

text \<open>The row and the line that a successful \<open>add\<close> makes.\<close>

definition added_row :: "account_id \<Rightarrow> string \<Rightarrow> string \<Rightarrow> lines_manager \<Rightarrow> line_row" where
  "added_row a u l lm = \<lparr>lr_account_id = a, lr_uri = c_text u, lr_label = c_text l, lr_sort_order = int (length (lm_entries lm))\<rparr>"

definition added_line :: "int \<Rightarrow> account_id \<Rightarrow> string \<Rightarrow> string \<Rightarrow> lines_manager \<Rightarrow> watched_line" where
  "added_line i a u l lm = \<lparr>wl_id = i, wl_accountId = a, wl_uri = u, wl_label = l,
     wl_sortOrder = int (length (lm_entries lm)), wl_state = LsUnknown\<rparr>"

lemma lm_add_ok:
  assumes "db_handle (am_db am)" "runs" "lm_add B runs a u l lm am = (i, lm', am')"
  obtains e' where "i = next_rowid (line_rows (am_db am))" "lm' = emit_linesChanged (lm\<lparr>lm_entries := lm_entries lm @ [e']\<rparr>)"
    "watchEntry B \<lparr>le_line = added_line i a u l lm, le_watchId = kInvalidWatchId\<rparr>
       (am\<lparr>am_db := on_lines (\<lambda>t. t @ [(i, added_row a u l lm)]) (am_db am)\<rparr>) = (e', am')"
    "le_line e' = added_line i a u l lm" "line_rows (am_db am') = line_rows (am_db am) @ [(i, added_row a u l lm)]"
proof -
  let ?i = "next_rowid (line_rows (am_db am))"
  let ?w = "watchEntry B \<lparr>le_line = added_line ?i a u l lm, le_watchId = kInvalidWatchId\<rparr>
       (am\<lparr>am_db := on_lines (\<lambda>t. t @ [(?i, added_row a u l lm)]) (am_db am)\<rparr>)"
  obtain e' am2 where w: "?w = (e', am2)" by fastforce
  have "i = ?i" "lm' = emit_linesChanged (lm\<lparr>lm_entries := lm_entries lm @ [e']\<rparr>)" "am' = am2"
    using assms w by (simp_all add: lm_add_def Let_def added_row_def added_line_def)
  with watchEntry_frame[OF w] w show thesis by (intro that[of e']) simp_all
qed

lemma lm_add_failed: "\<not> (db_handle (am_db am) \<and> runs) \<Longrightarrow> lm_add B runs a u l lm am = (kInvalidWatchedLineId, lm, am)"
  by (auto simp: lm_add_def)

lemma lm_entries_emit [simp]: "lm_entries (emit_linesChanged lm) = lm_entries lm"
  by (simp add: emit_linesChanged_def)

lemma lines_stored_add:
  assumes "lines_stored (lm_entries lm) (am_db am)" "lm_add B runs a u l lm am = (i, lm', am')"
  shows "lines_stored (lm_entries lm') (am_db am')"
proof (cases "db_handle (am_db am) \<and> runs")
  case True
  let ?rows = "line_rows (am_db am)"
  from True have "db_handle (am_db am)" "runs" by simp_all
  from lm_add_ok[OF this assms(2)]
  obtain e' where i: "i = next_rowid ?rows" and lm': "lm' = emit_linesChanged (lm\<lparr>lm_entries := lm_entries lm @ [e']\<rparr>)"
    and l: "le_line e' = added_line i a u l lm" and r: "line_rows (am_db am') = ?rows @ [(i, added_row a u l lm)]" .
  then have e: "lm_entries lm' = lm_entries lm @ [e']" "wl_id (le_line e') = i" by (simp_all add: added_line_def)
  have ks: "keys_sorted ?rows" using assms(1) by (simp add: lines_stored_def)
  have "?rows @ [(next_rowid ?rows, added_row a u l lm)] = aput (next_rowid ?rows) (added_row a u l lm) ?rows"
    by (rule insert_row_aput[OF ks])
  then show ?thesis
    using assms(1) next_rowid_new[OF ks] ks by (auto simp: lines_stored_def e r i)
next
  case False
  then have "lm' = lm" "am' = am" using lm_add_failed[of am runs B a u l lm] assms(2) by auto
  with assms(1) show ?thesis by simp
qed

lemma lines_stored_remove:
  assumes "lines_stored (lm_entries lm) (am_db am)" "lm_remove B deleted i lm am = (r, lm', am')"
  shows "lines_stored (lm_entries lm') (am_db am')"
proof (cases "find (\<lambda>e. wl_id (le_line e) = i) (lm_entries lm)")
  case (Some e)
  obtain us vs where s: "lm_entries lm = us @ e # vs" "wl_id (le_line e) = i" "\<forall>u \<in> set us. wl_id (le_line u) \<noteq> i"
    using find_split[OF Some] by auto
  then have "lm_entries lm' = us @ vs"
    using assms(2) Some by (auto simp: lm_remove_def Let_def emit_linesChanged_def del_first_split)
  moreover have "line_rows (am_db am') = line_rows (am_db am) \<or> line_rows (am_db am') = adel i (line_rows (am_db am))"
    using assms(2) Some by (auto simp: lm_remove_def Let_def)
  moreover have "wl_id (le_line e) \<notin> set (line_ids (us @ vs))" using assms(1) by (simp add: lines_stored_def s(1))
  ultimately show ?thesis using assms(1) s(2) by (auto simp: lines_stored_def s(1) simp del: set_map)
qed (use assms in \<open>auto simp: lm_remove_def\<close>)

lemma lm_onPresence_frame:
  "map (\<lambda>e. (wl_id (le_line e), le_watchId e)) (lm_entries (lm_onPresence w st lm))
     = map (\<lambda>e. (wl_id (le_line e), le_watchId e)) (lm_entries lm)"
  by (auto simp: lm_onPresence_def emit_linesChanged_def upd_first_id_map split: option.split)

lemma line_ids_onPresence [simp]: "line_ids (lm_entries (lm_onPresence w st lm)) = line_ids (lm_entries lm)"
  and watch_ids_onPresence [simp]: "watch_ids (lm_entries (lm_onPresence w st lm)) = watch_ids (lm_entries lm)"
  using arg_cong[OF lm_onPresence_frame[of w st lm], of "map fst"] arg_cong[OF lm_onPresence_frame[of w st lm], of "map snd"]
  by (simp_all add: watch_ids_def comp_def)

text \<open>Watches, over any backend that keeps the contract: no watch is leaked, no two lines share one.\<close>

context presence_backend begin

definition lines_watched :: "line_entry list \<Rightarrow> 'b \<Rightarrow> bool" where
  "lines_watched es b \<longleftrightarrow> ok b \<and> watches b \<subseteq> set (watch_ids es) \<and> set (watch_ids es) \<subseteq> minted b \<and> distinct (watch_ids es)"

lemma watched_watchEntry:
  assumes "lines_watched (es @ fs) (am_backend am)" "le_watchId e = kInvalidWatchId" "watchEntry B e am = (e', am')"
  shows "lines_watched (es @ e' # fs) (am_backend am')"
proof (cases "backendIdFor (wl_accountId (le_line e)) am = kInvalidAccountId")
  case False
  obtain w b where w: "bk_watch B (am_backend am) (backendIdFor (wl_accountId (le_line e)) am) (wl_uri (le_line e)) = (w, b)"
    by fastforce
  have ok: "ok (am_backend am)" using assms(1) by (simp add: lines_watched_def)
  have e': "e' = (if w \<noteq> kInvalidWatchId then e\<lparr>le_watchId := w\<rparr> else e)" "am_backend am' = b"
    using False assms(3) w by (auto simp: watchEntry_def Let_def)
  from watch_law[OF ok w] assms(1,2) show ?thesis
    by (auto simp: lines_watched_def e' keeps_view_def)
qed (use assms in \<open>auto simp: watchEntry_def Let_def lines_watched_def\<close>)

lemma watched_subscribeAll:
  "lines_watched us (am_backend am) \<Longrightarrow> \<forall>e \<in> set es. le_watchId e = kInvalidWatchId \<Longrightarrow>
   subscribeAll B es am = (es', am') \<Longrightarrow> lines_watched (us @ es') (am_backend am')"
proof (induction es arbitrary: us es' am am')
  case (Cons e es)
  obtain e1 am1 where e: "watchEntry B e am = (e1, am1)" by (cases "watchEntry B e am")
  obtain es1 am2 where s: "subscribeAll B es am1 = (es1, am2)" by (cases "subscribeAll B es am1")
  have "lines_watched (us @ [e1]) (am_backend am1)"
    using watched_watchEntry[of us "[]" am e e1 am1] Cons.prems e by simp
  then have "lines_watched ((us @ [e1]) @ es1) (am_backend am2)"
    using Cons.IH[of "us @ [e1]", OF _ _ s] Cons.prems(2) by simp
  with Cons.prems(3) show ?case by (simp add: e s)
qed simp

lemma watched_add:
  assumes "lines_watched (lm_entries lm) (am_backend am)" "lm_add B runs a u l lm am = (i, lm', am')"
  shows "lines_watched (lm_entries lm') (am_backend am')"
proof (cases "db_handle (am_db am) \<and> runs")
  case True
  then have "db_handle (am_db am)" "runs" by simp_all
  from lm_add_ok[OF this assms(2)]
  obtain e' where lm': "lm' = emit_linesChanged (lm\<lparr>lm_entries := lm_entries lm @ [e']\<rparr>)" and e:
    "watchEntry B \<lparr>le_line = added_line i a u l lm, le_watchId = kInvalidWatchId\<rparr>
       (am\<lparr>am_db := on_lines (\<lambda>t. t @ [(i, added_row a u l lm)]) (am_db am)\<rparr>) = (e', am')" .
  show ?thesis using watched_watchEntry[of "lm_entries lm" "[]", OF _ _ e] assms(1) by (simp add: lm')
next
  case False
  then have "lm' = lm" "am' = am" using lm_add_failed[of am runs B a u l lm] assms(2) by auto
  with assms(1) show ?thesis by simp
qed

lemma watched_remove:
  assumes "lines_watched (lm_entries lm) (am_backend am)" "lm_remove B deleted i lm am = (r, lm', am')"
  shows "lines_watched (lm_entries lm') (am_backend am')"
proof (cases "find (\<lambda>e. wl_id (le_line e) = i) (lm_entries lm)")
  case (Some e)
  obtain us vs where s: "lm_entries lm = us @ e # vs" "wl_id (le_line e) = i" "\<forall>u \<in> set us. wl_id (le_line u) \<noteq> i"
    using find_split[OF Some] by auto
  then have es: "lm_entries lm' = us @ vs"
    using assms(2) Some by (auto simp: lm_remove_def Let_def emit_linesChanged_def del_first_split)
  have b: "am_backend am' = (if le_watchId e \<noteq> kInvalidWatchId then snd (bk_unwatch B (am_backend am) (le_watchId e)) else am_backend am)"
    using assms(2) Some by (auto simp: lm_remove_def Let_def)
  show ?thesis
    using assms(1) unwatch_law[of "am_backend am" "le_watchId e", OF _ prod.collapse[symmetric]]
    unfolding lines_watched_def es b s(1) by (auto split: if_splits)
qed (use assms in \<open>auto simp: lm_remove_def\<close>)

lemma destroy_unwatches:
  assumes "lines_watched (lm_entries lm) (am_backend am)"
  shows "watches (am_backend (lm_destroy B lm am)) = {}"
proof -
  let ?f = "\<lambda>e b. if le_watchId e \<noteq> kInvalidWatchId then snd (bk_unwatch B b (le_watchId e)) else b"
  have "ok b \<Longrightarrow> watches b \<subseteq> set (watch_ids es) \<Longrightarrow> watches (fold ?f es b) = {}" for es b
  proof (induction es arbitrary: b)
    case (Cons e es)
    show ?case
      using Cons unwatch_law[of b "le_watchId e", OF _ prod.collapse[symmetric]] by (auto split: if_splits)
  qed simp
  then show ?thesis using assms by (simp add: lm_destroy_def lines_watched_def)
qed

end

subsection \<open>Reachable states on the fake backend\<close>

text \<open>Between two operations of the manager the other components run; they leave the watches and the
  \<open>watched_lines\<close> table alone.\<close>

inductive lines_step ::
  "lines_manager \<times> (fake_backend, 'k) accounts_manager \<Rightarrow> lines_manager \<times> (fake_backend, 'k) accounts_manager \<Rightarrow> bool" where
  lstep_add: "lc_add FakeB runs aid uri label lm am = (i, lm', am') \<Longrightarrow> lines_step (lm, am) (lm', am')"
| lstep_remove: "lm_remove FakeB deleted i lm am = (r, lm', am') \<Longrightarrow> lines_step (lm, am) (lm', am')"
| lstep_presence: "lines_step (lm, am) (lm_onPresence w st lm, am)"
| lstep_other: "fb_watches (am_backend am') = fb_watches (am_backend am) \<Longrightarrow>
    fb_nextWatchId (am_backend am') = fb_nextWatchId (am_backend am) \<Longrightarrow>
    line_rows (am_db am') = line_rows (am_db am) \<Longrightarrow> lines_step (lm, am) (lm, am')"

inductive lines_reach :: "lines_manager \<times> (fake_backend, 'k) accounts_manager \<Rightarrow> bool" where
  lreach_new: "keys_sorted (line_rows (am_db am)) \<Longrightarrow> fake_watch_ok (am_backend am) \<Longrightarrow>
    fake_watches (am_backend am) = {} \<Longrightarrow> lm_new FakeB prepared stop am = (lm, am') \<Longrightarrow> lines_reach (lm, am')"
| lreach_step: "lines_reach s \<Longrightarrow> lines_step s s' \<Longrightarrow> lines_reach s'"

abbreviation lines_ok :: "lines_manager \<times> (fake_backend, 'k) accounts_manager \<Rightarrow> bool" where
  "lines_ok s \<equiv> lines_stored (lm_entries (fst s)) (am_db (snd s)) \<and>
     fake_presence.lines_watched (lm_entries (fst s)) (am_backend (snd s))"

lemma lines_ok_new:
  assumes "keys_sorted (line_rows (am_db am))" "fake_watch_ok (am_backend am)" "fake_watches (am_backend am) = {}"
    and "lm_new FakeB prepared stop am = (lm, am')"
  shows "lines_ok (lm, am')"
proof -
  let ?es = "lm_loadFromDatabase prepared stop (am_db am)"
  have s: "subscribeAll FakeB ?es am = (lm_entries lm, am')"
    using assms(4) by (auto simp: lm_new_def split: prod.splits)
  have "\<forall>e \<in> set ?es. le_watchId e = kInvalidWatchId"
    by (auto simp: lm_loadFromDatabase_def dest!: set_fetch[THEN subsetD])
  moreover have "fake_presence.lines_watched [] (am_backend am)"
    using assms(2,3) by (simp add: fake_presence.lines_watched_def)
  ultimately have "fake_presence.lines_watched (lm_entries lm) (am_backend am')"
    using fake_presence.watched_subscribeAll[of "[]", OF _ _ s] by simp
  moreover have ids: "line_ids (lm_entries lm) = line_ids ?es" "am_db am' = am_db am"
    using subscribeAll_frame[OF s] by (auto dest: arg_cong[where f = "map wl_id"] simp: comp_def)
  then have "lines_stored (lm_entries lm) (am_db am')"
    using lines_stored_load[OF assms(1), of prepared stop] unfolding lines_stored_def ids by blast
  ultimately show ?thesis by simp
qed

lemma lines_ok_step: "lines_step s s' \<Longrightarrow> lines_ok s \<Longrightarrow> lines_ok s'"
proof (induction rule: lines_step.induct)
  case (lstep_add runs aid uri label lm am i lm' am')
  then show ?case
    using lines_stored_add fake_presence.watched_add by (auto simp: lc_add_def split: if_splits)
next
  case (lstep_remove deleted i lm am r lm' am')
  then show ?case using lines_stored_remove fake_presence.watched_remove by auto
next
  case (lstep_presence lm am w st)
  then show ?case by (simp add: lines_stored_def fake_presence.lines_watched_def)
next
  case (lstep_other am' am lm)
  then show ?case
    by (simp add: lines_stored_def fake_presence.lines_watched_def)
      (simp add: fake_watch_ok_def fake_watches_def fake_watch_minted_def)
qed

lemma lines_reach_ok: "lines_reach s \<Longrightarrow> lines_ok s"
  by (induction rule: lines_reach.induct) (use lines_ok_new lines_ok_step in blast)+

text \<open>C16. Whatever lines are added, removed or notified: line ids are distinct and every line has its row;
  no two lines share a watch; every watch the backend holds belongs to a line, so none is leaked when
  lines are removed, and destroying the manager cancels them all.\<close>

theorem lines_invariant:
  assumes "lines_reach (lm, am)"
  shows "distinct (line_ids (lm_entries lm)) \<and> (\<forall>i \<in> set (line_ids (lm_entries lm)). ahas (line_rows (am_db am)) i)
    \<and> distinct (watch_ids (lm_entries lm)) \<and> fake_watches (am_backend am) \<subseteq> set (watch_ids (lm_entries lm))
    \<and> fake_watches (am_backend (lm_destroy FakeB lm am)) = {}"
  using lines_reach_ok[OF assms] fake_presence.destroy_unwatches[of lm am]
  by (simp add: lines_stored_def fake_presence.lines_watched_def)

definition lines_am :: "lrow list \<Rightarrow> (fake_backend, unit) accounts_manager" where
  "lines_am rows =
     \<lparr>am_backend = snd (fb_addAccount (fb_new\<lparr>fb_running := True\<rparr>) (settings_of default_account [])),
      am_db = \<lparr>db_handle = True, db_tables = \<lparr>t_accounts = [], t_history = [], t_messages = [], t_contacts = [],
        t_lines = rows, t_settings = []\<rparr>, db_tx = None\<rparr>,
      am_keychain = (), am_entries = [], am_passwordCache = (\<lambda>_. None), am_backendIds = [(1, 1)],
      am_regStates = (\<lambda>_. None), am_regErrors = (\<lambda>_. None), am_mwi = (\<lambda>_. None), am_signals = []\<rparr>"

lemma sample_lines_state:
  assumes "lm_new FakeB True None (lines_am []) = (lm0, am0)" "lc_add FakeB True 1 ''sip:a@h'' ''A'' lm0 am0 = (i, lm, am)"
  shows "lines_reach (lm, am)"
    "lm_entries lm = [\<lparr>le_line = \<lparr>wl_id = 1, wl_accountId = 1, wl_uri = ''sip:a@h'', wl_label = ''A'', wl_sortOrder = 0,
       wl_state = LsUnknown\<rparr>, le_watchId = 1\<rparr>]"
proof -
  have "lines_reach (lm0, am0)"
    by (rule lreach_new[OF _ _ _ assms(1)])
      (simp_all add: lines_am_def fb_addAccount_def fb_new_def Let_def fake_watch_ok_def fake_watches_def logCmd_def)
  from lreach_step[OF this lstep_add[OF assms(2)]] show "lines_reach (lm, am)" .
  show "lm_entries lm = [\<lparr>le_line = \<lparr>wl_id = 1, wl_accountId = 1, wl_uri = ''sip:a@h'', wl_label = ''A'', wl_sortOrder = 0,
       wl_state = LsUnknown\<rparr>, le_watchId = 1\<rparr>]"
    using assms by (auto simp: lm_new_def lm_loadFromDatabase_def lines_am_def fetch_def lc_add_def lm_add_def Let_def
        next_rowid_def watchEntry_def backendIdFor_def invalid_id_defs FakeB_def fb_watch_def fb_addAccount_def fb_new_def
        emit_linesChanged_def logCmd_def ahas_def)
qed

theorem lines_invariant_witness:
  "let s0 = lm_new FakeB True None (lines_am []); s = lc_add FakeB True 1 ''sip:a@h'' ''A'' (fst s0) (snd s0)
   in fake_watches (am_backend (lm_destroy FakeB (fst (snd s)) (snd (snd s)))) = {}
    \<and> fake_watches (am_backend (snd (snd s))) \<subseteq> set (watch_ids (lm_entries (fst (snd s))))"
proof -
  let ?new = "lm_new FakeB True None (lines_am [])"
  let ?s = "lc_add FakeB True 1 ''sip:a@h'' ''A'' (fst ?new) (snd ?new)"
  have "lines_reach (fst (snd ?s), snd (snd ?s))"
    by (rule sample_lines_state(1)[of "fst ?new" "snd ?new" "fst ?s"]) simp_all
  from lines_invariant[OF this] show ?thesis by (simp add: Let_def)
qed

subsection \<open>A presence notification\<close>

lemma find_watch:
  assumes "distinct (watch_ids es)" "e \<in> set es" "le_watchId e \<noteq> kInvalidWatchId"
  obtains us vs where "es = us @ e # vs" "\<forall>u \<in> set us. le_watchId u \<noteq> le_watchId e"
    "find (\<lambda>x. le_watchId x = le_watchId e) es = Some e"
proof -
  obtain us vs where s: "es = us @ e # vs" using split_list[OF assms(2)] by blast
  have "le_watchId e \<notin> set (watch_ids us)" using assms(1,3) by (auto simp: s)
  then have u: "\<forall>u \<in> set us. le_watchId u \<noteq> le_watchId e" using assms(3) unfolding set_watch_ids by (metis DiffI image_eqI singletonD)
  have "find P (us @ e # vs) = Some e" if "\<forall>u \<in> set us. \<not> P u" "P e" for P :: "line_entry \<Rightarrow> bool"
    using that by (induction us) auto
  from this[of "\<lambda>x. le_watchId x = le_watchId e"] u s show thesis by (intro that[of us vs]) auto
qed

text \<open>A presence notification changes the state of exactly the line that watches; the line list is told
  to update that one row, in that one role, and only if the state is a new one.\<close>

theorem presence_updates_one_row:
  assumes "lines_reach (lm, am)" "k < length (lm_entries lm)" "lm_entries lm ! k = e"
    and "le_watchId e = w" "w \<noteq> kInvalidWatchId"
  shows "lm_list (lm_onPresence w st lm) = (lm_list lm)[k := (le_line e)\<lparr>wl_state := lineStateOf st\<rparr>]
    \<and> lines_refresh (lm_list (lm_onPresence w st lm)) (lm_list lm) =
       (if wl_state (le_line e) = lineStateOf st then []
        else [DataChanged k [LrStateRole] ((le_line e)\<lparr>wl_state := lineStateOf st\<rparr>)],
        lm_list (lm_onPresence w st lm))"
proof -
  let ?l = "(le_line e)\<lparr>wl_state := lineStateOf st\<rparr>" and ?es = "lm_entries lm"
  have ok: "distinct (line_ids ?es)" "distinct (watch_ids ?es)"
    using lines_reach_ok[OF assms(1)] by (auto simp: lines_stored_def fake_presence.lines_watched_def)
  obtain us vs where s: "?es = us @ e # vs" "\<forall>u \<in> set us. le_watchId u \<noteq> w"
    and f: "find (\<lambda>x. le_watchId x = w) ?es = Some e"
    using find_watch[OF ok(2), of e] assms(2-5) by (metis nth_mem)
  have "le_watchId (?es ! length us) = le_watchId e" by (simp add: s(1))
  have k: "k = length us"
  proof -
    have l: "length us < length ?es" "?es ! length us = e" by (simp_all add: s(1))
    then have "line_ids ?es ! k = line_ids ?es ! length us" using assms(2,3) by simp
    then show ?thesis
      using nth_eq_iff_index_eq[OF ok(1), of k "length us"] assms(2) l(1) by simp
  qed
  have new: "lm_list (lm_onPresence w st lm) = map le_line us @ ?l # map le_line vs"
  proof (cases "wl_state (le_line e) = lineStateOf st")
    case True
    then have "?l = le_line e" by simp
    with True f show ?thesis by (simp add: lm_onPresence_def lm_list_def s(1))
  next
    case False
    then have "lm_entries (lm_onPresence w st lm) = upd_first (\<lambda>e. le_watchId e = w)
        (\<lambda>e. e\<lparr>le_line := (le_line e)\<lparr>wl_state := lineStateOf st\<rparr>\<rparr>) ?es"
      using f by (simp add: lm_onPresence_def)
    also have "\<dots> = us @ e\<lparr>le_line := ?l\<rparr> # vs" unfolding s(1) by (rule upd_first_split) (use assms(4) s(2) in auto)
    finally show ?thesis by (simp add: lm_list_def)
  qed
  have old: "lm_list lm = map le_line us @ le_line e # map le_line vs" by (simp add: lm_list_def s(1))
  have "distinct (map wl_id (map le_line us @ le_line e # map le_line vs))"
    using ok(1) by (simp add: s(1) comp_def)
  then have "lines_refresh (lm_list (lm_onPresence w st lm)) (lm_list lm)
      = (if lines_changed (le_line e) ?l \<noteq> [] then [DataChanged (length us) (lines_changed (le_line e) ?l) ?l] else [],
         map le_line us @ ?l # map le_line vs)"
    unfolding lines_refresh_def new old using refresh_rows_one[of wl_id "map le_line us" "le_line e" "map le_line vs" ?l lines_changed]
    by (simp add: lines_changed_def)
  moreover have "lines_changed (le_line e) ?l = (if wl_state (le_line e) = lineStateOf st then [] else [LrStateRole])"
    by (simp add: lines_changed_def)
  moreover have "(map le_line us @ le_line e # map le_line vs)[length us := ?l] = map le_line us @ ?l # map le_line vs"
    by (metis length_map list_update_length)
  ultimately show ?thesis by (simp add: new old k)
qed

theorem presence_updates_one_row_witness:
  "let s0 = lm_new FakeB True None (lines_am []); s = lc_add FakeB True 1 ''sip:a@h'' ''A'' (fst s0) (snd s0)
   in map wl_state (lm_list (lm_onPresence 1 PsBusy (fst (snd s)))) = [LsBusy]"
proof -
  let ?new = "lm_new FakeB True None (lines_am [])"
  let ?s = "lc_add FakeB True 1 ''sip:a@h'' ''A'' (fst ?new) (snd ?new)"
  have "lm_new FakeB True None (lines_am []) = (fst ?new, snd ?new)" "?s = (fst ?s, fst (snd ?s), snd (snd ?s))" by simp_all
  note st = sample_lines_state[OF this]
  have "lm_list (lm_onPresence 1 PsBusy (fst (snd ?s)))
      = (lm_list (fst (snd ?s)))[0 := (le_line (lm_entries (fst (snd ?s)) ! 0))\<lparr>wl_state := lineStateOf PsBusy\<rparr>]"
    using presence_updates_one_row[OF st(1) _ refl, of 0 1 PsBusy] by (simp add: st(2) invalid_id_defs)
  then show ?thesis unfolding Let_def by (simp add: lm_list_def st(2))
qed

subsection \<open>What a restart shows\<close>

lemma load_complete:
  "db_handle db \<Longrightarrow> line_ids (lm_loadFromDatabase True None db) = map fst (sort_key line_key (line_rows db))"
  by (simp add: line_ids_load fetch_def)

text \<open>A line whose DELETE fails is reported as removed, and is back after the next start.\<close>

theorem remove_failed_reappears:
  assumes "db_handle (am_db am)" "distinct (line_ids (lm_entries lm))" "i \<in> set (line_ids (lm_entries lm))"
    and "ahas (line_rows (am_db am)) i" "lm_remove B False i lm am = (r, lm', am')"
  shows "r \<and> i \<notin> set (line_ids (lm_entries lm')) \<and> i \<in> set (line_ids (lm_loadFromDatabase True None (am_db am')))"
proof -
  obtain e where f: "find (\<lambda>e. wl_id (le_line e) = i) (lm_entries lm) = Some e"
    using assms(3) by (cases "find (\<lambda>e. wl_id (le_line e) = i) (lm_entries lm)") (auto simp: find_None_iff)
  obtain us vs where s: "lm_entries lm = us @ e # vs" "wl_id (le_line e) = i" "\<forall>u \<in> set us. wl_id (le_line u) \<noteq> i"
    using find_split[OF f] by auto
  have "r" "lm_entries lm' = us @ vs" "am_db am' = am_db am"
    using assms(5) f s by (auto simp: lm_remove_def Let_def del_first_split)
  moreover have "i \<notin> set (line_ids (us @ vs))" using assms(2) s(2) by (simp add: s(1))
  ultimately show ?thesis using assms(1,4) by (simp add: load_complete ahas_iff_keys)
qed

lemma sorted_order_positions:
  fixes f :: "'a \<Rightarrow> 'k::linorder"
  assumes "sorted (map f xs)" "x \<in> set xs" "y \<in> set xs" "f x < f y"
  shows "\<exists>us vs ws. xs = us @ x # vs @ y # ws"
proof -
  obtain us zs where z: "xs = us @ x # zs" using split_list[OF assms(2)] by blast
  have "y \<notin> set us" using assms(1,4) by (force simp: z sorted_append)
  moreover have "y \<noteq> x" using assms(4) by auto
  ultimately have "y \<in> set zs" using assms(3) by (simp add: z)
  then show ?thesis using z by (metis split_list)
qed

text \<open>A new line gets the number of lines as its position, so after a removal it can be listed last now and
  before an older line after the next start.\<close>

theorem line_moves_at_restart:
  assumes "lines_stored (lm_entries lm) (am_db am)" "lm_add B True a u l lm am = (i, lm', am')" "db_handle (am_db am)"
    and "map_of (line_rows (am_db am)) j = Some r" "int (length (lm_entries lm)) < lr_sort_order r"
  shows "last (line_ids (lm_entries lm')) = i
    \<and> (\<exists>us vs ws. line_ids (lm_loadFromDatabase True None (am_db am')) = us @ i # vs @ j # ws)"
proof -
  let ?rows = "line_rows (am_db am)"
  obtain e' where lm': "lm' = emit_linesChanged (lm\<lparr>lm_entries := lm_entries lm @ [e']\<rparr>)"
    and e: "le_line e' = added_line i a u l lm" and rows: "line_rows (am_db am') = ?rows @ [(i, added_row a u l lm)]"
    using lm_add_ok[OF assms(3) TrueI assms(2)] by metis
  have "db_handle (am_db am')"
    using assms(2,3) by (auto simp: lm_add_def Let_def dest!: watchEntry_frame(2) split: prod.splits)
  have "(j, r) \<in> set (line_rows (am_db am'))" using map_of_SomeD[OF assms(4)] by (simp add: rows)
  moreover have "(i, added_row a u l lm) \<in> set (line_rows (am_db am'))" by (simp add: rows)
  moreover have "line_key (i, added_row a u l lm) < line_key (j, r)"
    using assms(5) by (simp add: line_key_def added_row_def less_prod_def)
  ultimately obtain us vs ws where
    "sort_key line_key (line_rows (am_db am')) = us @ (i, added_row a u l lm) # vs @ (j, r) # ws"
    using sorted_order_positions[of line_key "sort_key line_key (line_rows (am_db am'))" "(i, added_row a u l lm)" "(j, r)"]
    by auto
  with \<open>db_handle (am_db am')\<close> lm' e show ?thesis by (auto simp: load_complete added_line_def)
qed

definition numbered_lines :: "int list \<Rightarrow> lrow list" where
  "numbered_lines ids = map (\<lambda>i. (i, \<lparr>lr_account_id = 1, lr_uri = ''u'', lr_label = ''l'', lr_sort_order = i - 1\<rparr>)) ids"

definition kept_line :: line_entry where
  "kept_line = \<lparr>le_line = \<lparr>wl_id = 3, wl_accountId = 1, wl_uri = ''u'', wl_label = ''l'', wl_sortOrder = 2, wl_state = LsUnknown\<rparr>,
     le_watchId = kInvalidWatchId\<rparr>"

theorem remove_failed_reappears_witness:
  "(case lm_remove FakeB False 3 \<lparr>lm_entries = [kept_line], lm_changes = 0\<rparr> (lines_am (numbered_lines [3])) of
      (r, lm, am) \<Rightarrow> r \<and> lm_entries lm = [] \<and> 3 \<in> set (line_ids (lm_loadFromDatabase True None (am_db am))))"
proof -
  obtain r lm am where e: "lm_remove FakeB False 3 \<lparr>lm_entries = [kept_line], lm_changes = 0\<rparr> (lines_am (numbered_lines [3])) = (r, lm, am)"
    by (metis prod_cases3)
  then have "lm_entries lm = []" by (auto simp: lm_remove_def kept_line_def Let_def)
  with remove_failed_reappears[OF _ _ _ _ e] show ?thesis
    unfolding e by (simp add: lines_am_def numbered_lines_def kept_line_def ahas_def)
qed

text \<open>Three lines, the first two removed, one added: positions 2 and 1.\<close>

theorem line_moves_at_restart_witness:
  "(case lm_add FakeB True 1 ''u'' ''new'' \<lparr>lm_entries = [kept_line], lm_changes = 0\<rparr> (lines_am (numbered_lines [3])) of
      (i, lm, am) \<Rightarrow> last (line_ids (lm_entries lm)) = i
        \<and> (\<exists>us vs ws. line_ids (lm_loadFromDatabase True None (am_db am)) = us @ i # vs @ 3 # ws))"
proof -
  obtain i lm am where e: "lm_add FakeB True 1 ''u'' ''new'' \<lparr>lm_entries = [kept_line], lm_changes = 0\<rparr> (lines_am (numbered_lines [3])) = (i, lm, am)"
    by (metis prod_cases3)
  have "lines_stored [kept_line] (am_db (lines_am (numbered_lines [3])))"
    by (simp add: lines_stored_def lines_am_def numbered_lines_def kept_line_def ahas_def keys_sorted_def)
  with line_moves_at_restart[OF _ e, of 3] show ?thesis
    unfolding e by (simp add: lines_am_def numbered_lines_def)
qed

end
