(* ===== verification/ContactImport.thy ===== *)
theory ContactImport imports CStrings RowModel begin

text \<open>
  \<open>core/ContactImporter.{h,cpp}\<close>: the vCard and CSV readers of the contact import, functions from the text
  of a file the user picks to a list of contacts.  \<open>toUpper\<close> and the caseless comparisons are written for
  the ASCII letters, the only ones in the names they are compared with.
\<close>

record imported_contact =
  ic_displayName :: string
  ic_sipUri :: string
  ic_phone :: string

record import_result =
  ir_contacts :: "imported_contact list"
  ir_errors :: nat

definition no_contact :: imported_contact where
  "no_contact = \<lparr>ic_displayName = [], ic_sipUri = [], ic_phone = []\<rparr>"

subsection \<open>Lines\<close>

abbreviation CR :: char where "CR \<equiv> CHR 0x0D"
abbreviation LF :: char where "LF \<equiv> CHR 0x0A"
abbreviation TAB :: char where "TAB \<equiv> CHR 0x09"

text \<open>\<open>split(QRegularExpression("\r\n|\n|\r"))\<close>: at a carriage return the alternative that also takes a line
  feed comes first.\<close>

fun cons_head :: "char \<Rightarrow> string list \<Rightarrow> string list" where
  "cons_head c [] = [[c]]"
| "cons_head c (l # ls) = (c # l) # ls"

fun split_lines :: "string \<Rightarrow> string list" where
  "split_lines [] = [[]]"
| "split_lines [c] = (if c = CR \<or> c = LF then [[], []] else [[c]])"
| "split_lines (c # d # s) =
     (if c = CR \<and> d = LF then [] # split_lines s
      else if c = CR \<or> c = LF then [] # split_lines (d # s)
      else cons_head c (split_lines (d # s)))"

definition unfold_step :: "string list \<Rightarrow> string \<Rightarrow> string list" where
  "unfold_step out line =
     (if out \<noteq> [] \<and> line \<noteq> [] \<and> (hd line = CHR '' '' \<or> hd line = TAB)
      then butlast out @ [last out @ tl line] else out @ [line])"

definition unfoldLines :: "string \<Rightarrow> string list" where
  "unfoldLines text = foldl unfold_step [] (split_lines text)"

definition q_upper :: "char \<Rightarrow> char" where
  "q_upper c = (if 97 \<le> code c \<and> code c \<le> 122 then char_of (code c - 32) else c)"

definition splitProperty :: "string \<Rightarrow> (string \<times> string) option" where
  "splitProperty line =
     (case find_char (CHR '':'') line of
        None \<Rightarrow> None
      | Some colon \<Rightarrow>
          (if colon = 0 then None
           else (let hd = take colon line
                 in Some (map q_upper (case find_char (CHR '';'') hd of Some semi \<Rightarrow> take semi hd | None \<Rightarrow> hd),
                          drop (colon + 1) line))))"

definition phone_char :: "char \<Rightarrow> bool" where
  "phone_char c \<longleftrightarrow> is_digit c \<or> c = CHR ''+''"

definition sanitizePhone :: "string \<Rightarrow> string" where
  "sanitizePhone p = filter phone_char p"

definition isSipUri :: "string \<Rightarrow> bool" where
  "isSipUri s \<longleftrightarrow> starts_with ''sip:'' (lower s) \<or> starts_with ''sips:'' (lower s)"

subsection \<open>vCard\<close>

record vcard_state =
  vs_result :: import_result
  vs_current :: imported_contact
  vs_inCard :: bool
  vs_nFallback :: string

definition vcard_start :: vcard_state where
  "vcard_start = \<lparr>vs_result = \<lparr>ir_contacts = [], ir_errors = 0\<rparr>, vs_current = no_contact, vs_inCard = False, vs_nFallback = []\<rparr>"

definition keep_contact :: "imported_contact \<Rightarrow> import_result \<Rightarrow> import_result" where
  "keep_contact c r =
     (if ic_displayName c \<noteq> [] \<or> ic_phone c \<noteq> [] \<or> ic_sipUri c \<noteq> []
      then r\<lparr>ir_contacts := ir_contacts r @ [c]\<rparr> else r\<lparr>ir_errors := Suc (ir_errors r)\<rparr>)"

text \<open>"Last;First;..." as "First Last".\<close>

definition n_name :: "string \<Rightarrow> string" where
  "n_name value =
     (let parts = split_char (CHR '';'') value;
          first = (if length parts > 1 then trim_with q_space (parts ! 1) else []);
          last = (if length parts > 0 then trim_with q_space (parts ! 0) else [])
      in trim_with q_space (first @ '' '' @ last))"

definition card_field :: "string \<Rightarrow> string \<Rightarrow> vcard_state \<Rightarrow> vcard_state" where
  "card_field prop value vs =
     (let cur = vs_current vs in
      if prop = ''FN'' then vs\<lparr>vs_current := cur\<lparr>ic_displayName := trim_with q_space value\<rparr>\<rparr>
      else if prop = ''N'' then vs\<lparr>vs_nFallback := n_name value\<rparr>
      else if prop = ''TEL''
      then (if ic_phone cur = [] then vs\<lparr>vs_current := cur\<lparr>ic_phone := sanitizePhone value\<rparr>\<rparr> else vs)
      else if prop = ''IMPP''
      then (if isSipUri value then vs\<lparr>vs_current := cur\<lparr>ic_sipUri := trim_with q_space value\<rparr>\<rparr> else vs)
      else if prop = ''X-SIP'' then vs\<lparr>vs_current := cur\<lparr>ic_sipUri := trim_with q_space value\<rparr>\<rparr>
      else vs)"

definition close_card :: "vcard_state \<Rightarrow> vcard_state" where
  "close_card vs =
     (let cur = vs_current vs;
          c = (if ic_displayName cur = [] then cur\<lparr>ic_displayName := vs_nFallback vs\<rparr> else cur)
      in vs\<lparr>vs_current := c, vs_result := keep_contact c (vs_result vs), vs_inCard := False\<rparr>)"

definition vcard_property :: "string \<Rightarrow> string \<Rightarrow> vcard_state \<Rightarrow> vcard_state" where
  "vcard_property prop value vs =
     (if prop = ''BEGIN'' \<and> lower value = ''vcard''
      then vs\<lparr>vs_current := no_contact, vs_nFallback := [], vs_inCard := True\<rparr>
      else if prop = ''END'' \<and> lower value = ''vcard'' then close_card vs
      else if \<not> vs_inCard vs then vs
      else card_field prop value vs)"

definition vcard_line :: "string \<Rightarrow> vcard_state \<Rightarrow> vcard_state" where
  "vcard_line raw vs =
     (if raw = [] then vs
      else case splitProperty raw of None \<Rightarrow> vs | Some (prop, value) \<Rightarrow> vcard_property prop value vs)"

definition parseVCard :: "string \<Rightarrow> import_result" where
  "parseVCard text = vs_result (fold vcard_line (unfoldLines text) vcard_start)"

subsection \<open>CSV\<close>

text \<open>\<open>splitCsvRow\<close>: the flag \<open>inQuotes\<close>, the cell so far, the rest of the line.\<close>

fun csv_cells :: "bool \<Rightarrow> string \<Rightarrow> string \<Rightarrow> string list" where
  "csv_cells q cell [] = [cell]"
| "csv_cells True cell [c] = [if c = CHR 0x22 then cell else cell @ [c]]"
| "csv_cells True cell (c # d # s) =
     (if c = CHR 0x22
      then (if d = CHR 0x22 then csv_cells True (cell @ [CHR 0x22]) s else csv_cells False cell (d # s))
      else csv_cells True (cell @ [c]) (d # s))"
| "csv_cells False cell (c # s) =
     (if c = CHR '','' then cell # csv_cells False [] s
      else if c = CHR 0x22 \<and> cell = [] then csv_cells True cell s
      else csv_cells False (cell @ [c]) s)"

definition splitCsvRow :: "string \<Rightarrow> string list" where
  "splitCsvRow line = csv_cells False [] line"

text \<open>\<open>findColumn\<close>; -1 is \<open>None\<close>.\<close>

definition findColumn :: "string list \<Rightarrow> string list \<Rightarrow> nat option" where
  "findColumn header wanted = find_row (\<lambda>h. map q_lower (trim_with q_space h) \<in> set wanted) header"

text \<open>\<open>col >= 0 && col < cells.size()\<close>\<close>

definition cell_at :: "nat option \<Rightarrow> string list \<Rightarrow> string option" where
  "cell_at col cells = (case col of None \<Rightarrow> None | Some i \<Rightarrow> if i < length cells then Some (cells ! i) else None)"

definition trimmed_cell :: "nat option \<Rightarrow> string list \<Rightarrow> string" where
  "trimmed_cell col cells = (case cell_at col cells of Some c \<Rightarrow> trim_with q_space c | None \<Rightarrow> [])"

definition csv_contact :: "nat option \<Rightarrow> nat option \<Rightarrow> nat option \<Rightarrow> nat option \<Rightarrow> nat option \<Rightarrow> string list \<Rightarrow> imported_contact" where
  "csv_contact nameCol firstCol lastCol phoneCol sipCol cells =
     (let name = trimmed_cell nameCol cells;
          name' = (if name = [] \<and> (firstCol \<noteq> None \<or> lastCol \<noteq> None)
                   then trim_with q_space (trimmed_cell firstCol cells @ '' '' @ trimmed_cell lastCol cells) else name)
      in \<lparr>ic_displayName = name', ic_sipUri = trimmed_cell sipCol cells,
          ic_phone = (case cell_at phoneCol cells of Some p \<Rightarrow> sanitizePhone p | None \<Rightarrow> [])\<rparr>)"

definition name_headers :: "string list" where
  "name_headers = [''name'', ''full name'', ''display name'', ''displayname'', ''contact name'']"
definition first_headers :: "string list" where
  "first_headers = [''first name'', ''given name'', ''firstname'']"
definition last_headers :: "string list" where
  "last_headers = [''last name'', ''family name'', ''surname'', ''lastname'']"
definition phone_headers :: "string list" where
  "phone_headers = [''phone'', ''phone number'', ''phone 1 - value'', ''mobile'', ''mobile phone'', ''work phone'', ''primary phone'']"
definition sip_headers :: "string list" where
  "sip_headers = [''sip'', ''sip uri'', ''sip address'', ''im - sip'']"

definition csv_line :: "string list \<Rightarrow> string \<Rightarrow> import_result \<Rightarrow> import_result" where
  "csv_line header line r =
     (if trim_with q_space line = [] then r
      else keep_contact (csv_contact (findColumn header name_headers) (findColumn header first_headers)
             (findColumn header last_headers) (findColumn header phone_headers) (findColumn header sip_headers)
             (splitCsvRow line)) r)"

definition parseCsv :: "string \<Rightarrow> import_result" where
  "parseCsv text =
     (let lines = split_lines text; none = \<lparr>ir_contacts = [], ir_errors = 0\<rparr>
      in if length lines < 2 then none else fold (csv_line (splitCsvRow (hd lines))) (tl lines) none)"

subsection \<open>What is imported\<close>

text \<open>A contact fit for the table: it can be found by something, and its number can be dialled.\<close>

definition importable :: "imported_contact \<Rightarrow> bool" where
  "importable c \<longleftrightarrow> (ic_displayName c \<noteq> [] \<or> ic_phone c \<noteq> [] \<or> ic_sipUri c \<noteq> []) \<and> list_all phone_char (ic_phone c)"

lemma sanitizePhone_ok [simp]: "list_all phone_char (sanitizePhone p)"
  by (simp add: sanitizePhone_def list_all_iff)

lemma keep_contact_importable:
  "list_all importable (ir_contacts r) \<Longrightarrow> list_all phone_char (ic_phone c) \<Longrightarrow> list_all importable (ir_contacts (keep_contact c r))"
  by (auto simp: keep_contact_def importable_def)

lemma csv_line_importable:
  "list_all importable (ir_contacts r) \<Longrightarrow> list_all importable (ir_contacts (csv_line header line r))"
  by (auto simp: csv_line_def csv_contact_def Let_def intro!: keep_contact_importable split: option.split)

definition vs_ok :: "vcard_state \<Rightarrow> bool" where
  "vs_ok vs \<longleftrightarrow> list_all importable (ir_contacts (vs_result vs)) \<and> list_all phone_char (ic_phone (vs_current vs))"

lemma vs_ok_if: "vs_ok a \<Longrightarrow> vs_ok b \<Longrightarrow> vs_ok (if c then a else b)"
  by simp

lemma vs_ok_set:
  "vs_ok vs \<Longrightarrow> vs_ok (vs\<lparr>vs_nFallback := n\<rparr>)"
  "vs_ok vs \<Longrightarrow> list_all phone_char (ic_phone c) \<Longrightarrow> vs_ok (vs\<lparr>vs_current := c\<rparr>)"
  "vs_ok vs \<Longrightarrow> vs_ok (vs\<lparr>vs_current := no_contact, vs_nFallback := n, vs_inCard := b\<rparr>)"
  by (simp_all add: vs_ok_def no_contact_def)

lemma vs_ok_phone: "vs_ok vs \<Longrightarrow> list_all phone_char (ic_phone (vs_current vs))"
  by (simp add: vs_ok_def)

lemma vs_ok_field: "vs_ok vs \<Longrightarrow> vs_ok (card_field prop value vs)"
  unfolding card_field_def Let_def by (intro vs_ok_if vs_ok_set) (simp_all add: vs_ok_phone)

lemma vs_ok_close: "vs_ok vs \<Longrightarrow> vs_ok (close_card vs)"
  by (simp add: vs_ok_def close_card_def Let_def keep_contact_importable)

lemma vcard_line_importable: "vs_ok vs \<Longrightarrow> vs_ok (vcard_line raw vs)"
  unfolding vcard_line_def vcard_property_def
  by (cases "splitProperty raw") (auto intro!: vs_ok_if vs_ok_set vs_ok_field vs_ok_close simp del: if_split)

lemma fold_keeps: "(\<And>x s. P s \<Longrightarrow> P (f x s)) \<Longrightarrow> P s \<Longrightarrow> P (fold f xs s)"
  by (induction xs arbitrary: s) auto

text \<open>Whatever the file holds, an imported contact has a name, a number or an address, and its number
  consists of digits and plus signs only.\<close>

theorem imports_are_usable:
  "list_all importable (ir_contacts (parseVCard text)) \<and> list_all importable (ir_contacts (parseCsv text))"
proof
  have "vs_ok (fold vcard_line (unfoldLines text) vcard_start)"
    by (rule fold_keeps[where P = vs_ok]) (simp_all add: vcard_line_importable, simp add: vs_ok_def vcard_start_def no_contact_def)
  then show "list_all importable (ir_contacts (parseVCard text))" by (simp add: parseVCard_def vs_ok_def)
  show "list_all importable (ir_contacts (parseCsv text))"
    unfolding parseCsv_def Let_def
    by (auto intro!: fold_keeps[where P = "\<lambda>r. list_all importable (ir_contacts r)"] csv_line_importable)
qed

subsection \<open>Reading back a vCard\<close>

definition no_nl :: "string \<Rightarrow> bool" where
  "no_nl s \<longleftrightarrow> CR \<notin> set s \<and> LF \<notin> set s"

lemma no_nl_simps [simp]:
  "no_nl []" "no_nl (c # s) \<longleftrightarrow> c \<noteq> CR \<and> c \<noteq> LF \<and> no_nl s" "no_nl (s @ t) \<longleftrightarrow> no_nl s \<and> no_nl t"
  by (auto simp: no_nl_def)

lemma split_lines_one: "no_nl w \<Longrightarrow> split_lines w = [w]"
  by (induction w rule: split_lines.induct) auto

lemma split_lines_crlf: "no_nl w \<Longrightarrow> split_lines (w @ CR # LF # s) = w # split_lines s"
proof (induction w)
  case (Cons c w)
  then show ?case by (cases w) auto
qed simp

text \<open>A file as an address book writes it: a logical line is a first chunk and continuation chunks, each
  continuation on a line of its own behind a space.\<close>

definition physical :: "string \<times> string list \<Rightarrow> string list" where
  "physical l = fst l # map (\<lambda>c. CHR '' '' # c) (snd l)"

definition logical :: "string \<times> string list \<Rightarrow> string" where
  "logical l = fst l @ concat (snd l)"

definition fold_text :: "(string \<times> string list) list \<Rightarrow> string" where
  "fold_text ls = concat (map (\<lambda>p. p @ [CR, LF]) (concat (map physical ls)))"

definition chunks_ok :: "string \<times> string list \<Rightarrow> bool" where
  "chunks_ok l \<longleftrightarrow> no_nl (fst l) \<and> list_all no_nl (snd l) \<and> (fst l = [] \<or> hd (fst l) \<noteq> CHR '' '' \<and> hd (fst l) \<noteq> TAB)"

lemma split_lines_text: "list_all no_nl ps \<Longrightarrow> split_lines (concat (map (\<lambda>p. p @ [CR, LF]) ps)) = ps @ [[]]"
  by (induction ps) (simp_all add: split_lines_crlf)

lemma unfold_continuations: "foldl unfold_step (out @ [l]) (map (\<lambda>c. CHR '' '' # c) cs) = out @ [l @ concat cs]"
  by (induction cs arbitrary: l) (simp_all add: unfold_step_def)

lemma unfold_physical: "chunks_ok l \<Longrightarrow> foldl unfold_step out (physical l) = out @ [logical l]"
  by (auto simp: physical_def logical_def chunks_ok_def unfold_step_def unfold_continuations)

lemma unfold_all: "list_all chunks_ok ls \<Longrightarrow> foldl unfold_step out (concat (map physical ls)) = out @ map logical ls"
  by (induction ls arbitrary: out) (simp_all add: unfold_physical)

lemma unfold_folded:
  assumes "list_all chunks_ok ls"
  shows "unfoldLines (fold_text ls) = map logical ls @ [[]]"
proof -
  have "list_all no_nl (concat (map physical ls))"
    using assms by (auto simp: list_all_iff chunks_ok_def physical_def)
  then show ?thesis
    using unfold_all[OF assms, of "[]"] by (simp add: unfoldLines_def fold_text_def split_lines_text unfold_step_def)
qed

definition vcard_lines :: "imported_contact \<Rightarrow> string list" where
  "vcard_lines c = [''BEGIN:VCARD'', ''VERSION:3.0'', ''FN:'' @ ic_displayName c, ''TEL;TYPE=work:'' @ ic_phone c,
     ''X-SIP:'' @ ic_sipUri c, ''END:VCARD'']"

text \<open>A contact that the format can carry: fields without surrounding space, a plain number.\<close>

definition plain_contact :: "imported_contact \<Rightarrow> bool" where
  "plain_contact c \<longleftrightarrow> importable c \<and> trim_with q_space (ic_displayName c) = ic_displayName c \<and>
     trim_with q_space (ic_sipUri c) = ic_sipUri c"

lemma sanitizePhone_id: "list_all phone_char p \<Longrightarrow> sanitizePhone p = p"
  by (simp add: sanitizePhone_def filter_id_conv list_all_iff)

lemma property_lines:
  "splitProperty ''BEGIN:VCARD'' = Some (''BEGIN'', ''VCARD'')"
  "splitProperty ''END:VCARD'' = Some (''END'', ''VCARD'')"
  "splitProperty ''VERSION:3.0'' = Some (''VERSION'', ''3.0'')"
  "splitProperty (''FN:'' @ s) = Some (''FN'', s)"
  "splitProperty (''TEL;TYPE=work:'' @ s) = Some (''TEL'', s)"
  "splitProperty (''X-SIP:'' @ s) = Some (''X-SIP'', s)"
  by (simp_all add: splitProperty_def q_upper_def code_def)

lemma lower_vcard: "lower ''VCARD'' = ''vcard''"
  by code_simp

lemma vcard_line_property: "raw \<noteq> [] \<Longrightarrow> splitProperty raw = Some (p, v) \<Longrightarrow> vcard_line raw vs = vcard_property p v vs"
  by (simp add: vcard_line_def)

lemma read_vcard:
  assumes "plain_contact c"
  shows "vs_result (fold vcard_line (vcard_lines c) vs) = (vs_result vs)\<lparr>ir_contacts := ir_contacts (vs_result vs) @ [c]\<rparr>"
proof -
  let ?vs1 = "vs\<lparr>vs_current := no_contact, vs_nFallback := [], vs_inCard := True\<rparr>"
  let ?vs2 = "?vs1\<lparr>vs_current := c\<rparr>"
  have "vcard_line ''BEGIN:VCARD'' vs = ?vs1"
    by (subst vcard_line_property[OF _ property_lines(1)]) (simp_all add: vcard_property_def lower_vcard)
  moreover have "vcard_line ''VERSION:3.0'' ?vs1 = ?vs1"
    by (subst vcard_line_property[OF _ property_lines(3)]) (simp_all add: vcard_property_def card_field_def)
  moreover have "vcard_line (''FN:'' @ ic_displayName c) ?vs1 = ?vs1\<lparr>vs_current := no_contact\<lparr>ic_displayName := ic_displayName c\<rparr>\<rparr>"
    using assms by (subst vcard_line_property[OF _ property_lines(4)])
      (simp_all add: vcard_property_def card_field_def plain_contact_def)
  moreover have "vcard_line (''TEL;TYPE=work:'' @ ic_phone c) (?vs1\<lparr>vs_current := no_contact\<lparr>ic_displayName := ic_displayName c\<rparr>\<rparr>)
      = ?vs1\<lparr>vs_current := no_contact\<lparr>ic_displayName := ic_displayName c, ic_phone := ic_phone c\<rparr>\<rparr>"
    using assms by (subst vcard_line_property[OF _ property_lines(5)])
      (simp_all add: vcard_property_def card_field_def no_contact_def sanitizePhone_id plain_contact_def importable_def)
  moreover have "vcard_line (''X-SIP:'' @ ic_sipUri c) (?vs1\<lparr>vs_current := no_contact\<lparr>ic_displayName := ic_displayName c, ic_phone := ic_phone c\<rparr>\<rparr>)
      = ?vs2"
    using assms by (subst vcard_line_property[OF _ property_lines(6)])
      (simp_all add: vcard_property_def card_field_def no_contact_def plain_contact_def)
  moreover have "vs_result (vcard_line ''END:VCARD'' ?vs2) = (vs_result vs)\<lparr>ir_contacts := ir_contacts (vs_result vs) @ [c]\<rparr>"
    using assms by (subst vcard_line_property[OF _ property_lines(2)])
      (auto simp: vcard_property_def close_card_def Let_def keep_contact_def lower_vcard plain_contact_def importable_def)
  ultimately show ?thesis unfolding vcard_lines_def by simp
qed

lemma read_vcards:
  "list_all plain_contact cs \<Longrightarrow>
   vs_result (fold vcard_line (concat (map vcard_lines cs)) vs) = (vs_result vs)\<lparr>ir_contacts := ir_contacts (vs_result vs) @ cs\<rparr>"
  by (induction cs arbitrary: vs) (simp_all add: read_vcard)

text \<open>C28. An address book written as vCards, with its lines folded anywhere, is imported exactly.\<close>

theorem vcard_roundtrip:
  assumes "list_all plain_contact cs" "list_all chunks_ok ls" "map logical ls = concat (map vcard_lines cs)"
  shows "parseVCard (fold_text ls) = \<lparr>ir_contacts = cs, ir_errors = 0\<rparr>"
  using read_vcards[OF assms(1), of vcard_start]
  by (simp add: parseVCard_def unfold_folded[OF assms(2)] assms(3) vcard_line_def vcard_start_def)

theorem vcard_roundtrip_witness:
  "parseVCard (fold_text [(''BEGIN:VCARD'', []), (''VERSION:3.0'', []), (''FN:Jane'', ['' D'', ''oe'']), (''TEL;TYPE=work:'', [''+4512'']),
      (''X-SIP:sip:jane@h'', []), (''END:VCARD'', [])])
   = \<lparr>ir_contacts = [\<lparr>ic_displayName = ''Jane Doe'', ic_sipUri = ''sip:jane@h'', ic_phone = ''+4512''\<rparr>], ir_errors = 0\<rparr>"
  by (rule vcard_roundtrip)
    (simp_all add: plain_contact_def importable_def phone_char_def is_digit_def code_def trim_with_def trim_left_def trim_right_def
      q_space_def is_space_def chunks_ok_def logical_def vcard_lines_def)

subsection \<open>Reading back a table\<close>

definition csv_escape :: "string \<Rightarrow> string" where
  "csv_escape cell = concat (map (\<lambda>c. if c = CHR 0x22 then [CHR 0x22, CHR 0x22] else [c]) cell)"

definition csv_quote :: "string \<Rightarrow> string" where
  "csv_quote cell = CHR 0x22 # csv_escape cell @ [CHR 0x22]"

fun csv_join :: "string list \<Rightarrow> string" where
  "csv_join [] = []"
| "csv_join [c] = csv_quote c"
| "csv_join (c # cs) = csv_quote c @ CHR '','' # csv_join cs"

lemma csv_cells_quoted:
  "rest = [] \<or> hd rest \<noteq> CHR 0x22 \<Longrightarrow>
   csv_cells True cell (csv_escape s @ CHR 0x22 # rest) = csv_cells False (cell @ s) rest"
proof (induction s arbitrary: cell)
  case Nil
  then show ?case by (cases rest) (auto simp: csv_escape_def)
next
  case (Cons c s)
  obtain d t where t: "csv_escape s @ CHR 0x22 # rest = d # t" by (cases "csv_escape s @ CHR 0x22 # rest") auto
  show ?case
  proof (cases "c = CHR 0x22")
    case True
    then show ?thesis using Cons.IH[OF Cons.prems, of "cell @ [c]"] by (simp add: csv_escape_def)
  next
    case False
    then have "csv_cells True cell (csv_escape (c # s) @ CHR 0x22 # rest) = csv_cells True (cell @ [c]) (csv_escape s @ CHR 0x22 # rest)"
      using t by (simp add: csv_escape_def)
    then show ?thesis using Cons.IH[OF Cons.prems, of "cell @ [c]"] by simp
  qed
qed

lemma splitCsvRow_join: "cells \<noteq> [] \<Longrightarrow> splitCsvRow (csv_join cells) = cells"
proof (induction cells rule: csv_join.induct)
  case (2 c)
  then show ?case using csv_cells_quoted[of "[]" "[]" c] by (simp add: splitCsvRow_def csv_quote_def)
next
  case (3 c d cs)
  then show ?case using csv_cells_quoted[of "CHR '','' # csv_join (d # cs)" "[]" c]
    by (simp add: splitCsvRow_def csv_quote_def)
qed simp

definition csv_text :: "imported_contact list \<Rightarrow> string" where
  "csv_text cs = concat (map (\<lambda>p. p @ [CR, LF])
     (csv_join [''Name'', ''Phone'', ''SIP''] # map (\<lambda>c. csv_join [ic_displayName c, ic_phone c, ic_sipUri c]) cs))"

definition contact_no_nl :: "imported_contact \<Rightarrow> bool" where
  "contact_no_nl c \<longleftrightarrow> no_nl (ic_displayName c) \<and> no_nl (ic_phone c) \<and> no_nl (ic_sipUri c)"

lemma no_nl_escape [simp]: "no_nl (csv_escape s) \<longleftrightarrow> no_nl s"
  by (induction s) (auto simp: csv_escape_def)

lemma no_nl_join: "no_nl (csv_join cells) \<longleftrightarrow> list_all no_nl cells"
  by (induction cells rule: csv_join.induct) (auto simp: csv_quote_def)

lemma join_not_blank: "cells \<noteq> [] \<Longrightarrow> trim_with q_space (csv_join cells) \<noteq> []"
proof -
  assume "cells \<noteq> []"
  then obtain t where "csv_join cells = CHR 0x22 # t" by (cases cells rule: csv_join.cases) (auto simp: csv_quote_def)
  moreover have "\<not> q_space (CHR 0x22)" by (simp add: q_space_def is_space_def code_def)
  ultimately show ?thesis by (auto simp: trim_with_def trim_left_def trim_right_def dropWhile_eq_Nil_conv)
qed

lemma sample_header:
  "splitCsvRow (csv_join [''Name'', ''Phone'', ''SIP'']) = [''Name'', ''Phone'', ''SIP'']"
  "findColumn [''Name'', ''Phone'', ''SIP''] name_headers = Some 0"
  "findColumn [''Name'', ''Phone'', ''SIP''] first_headers = None"
  "findColumn [''Name'', ''Phone'', ''SIP''] last_headers = None"
  "findColumn [''Name'', ''Phone'', ''SIP''] phone_headers = Some 1"
  "findColumn [''Name'', ''Phone'', ''SIP''] sip_headers = Some 2"
  by (simp add: splitCsvRow_join del: csv_join.simps) code_simp+

lemma read_csv_line:
  assumes "plain_contact c"
  shows "csv_line [''Name'', ''Phone'', ''SIP''] (csv_join [ic_displayName c, ic_phone c, ic_sipUri c]) r
    = r\<lparr>ir_contacts := ir_contacts r @ [c]\<rparr>"
proof -
  have "csv_contact (Some 0) None None (Some 1) (Some 2) [ic_displayName c, ic_phone c, ic_sipUri c] = c"
    using assms by (simp add: csv_contact_def trimmed_cell_def cell_at_def plain_contact_def importable_def sanitizePhone_id)
  moreover have "keep_contact c r = r\<lparr>ir_contacts := ir_contacts r @ [c]\<rparr>"
    using assms by (auto simp: keep_contact_def plain_contact_def importable_def)
  ultimately show ?thesis by (simp add: csv_line_def join_not_blank splitCsvRow_join sample_header del: csv_join.simps)
qed

lemma csv_reads_back:
  assumes "list_all plain_contact cs" "list_all contact_no_nl cs"
  shows "parseCsv (csv_text cs) = \<lparr>ir_contacts = cs, ir_errors = 0\<rparr>"
proof -
  let ?rows = "map (\<lambda>c. csv_join [ic_displayName c, ic_phone c, ic_sipUri c]) cs"
  have "list_all no_nl (csv_join [''Name'', ''Phone'', ''SIP''] # ?rows)"
    using assms(2) by (auto simp: list_all_iff no_nl_join contact_no_nl_def simp del: csv_join.simps)
  then have lines: "split_lines (csv_text cs) = csv_join [''Name'', ''Phone'', ''SIP''] # ?rows @ [[]]"
    unfolding csv_text_def by (subst split_lines_text) (simp_all del: csv_join.simps)
  have "fold (csv_line [''Name'', ''Phone'', ''SIP'']) (?rows @ [[]]) r = r\<lparr>ir_contacts := ir_contacts r @ cs\<rparr>" for r
    using assms(1)
  proof (induction cs arbitrary: r)
    case Nil
    then show ?case by (simp add: csv_line_def trim_with_def trim_left_def)
  qed (simp add: read_csv_line del: csv_join.simps)
  then show ?thesis by (simp add: parseCsv_def lines sample_header(1) del: csv_join.simps)
qed

text \<open>An address book written as a table with every cell quoted is imported exactly, whatever commas and
  quotes the cells hold.\<close>

theorem csv_roundtrip:
  assumes "list_all plain_contact cs" "list_all contact_no_nl cs"
  shows "parseCsv (csv_text cs) = \<lparr>ir_contacts = cs, ir_errors = 0\<rparr>"
  by (rule csv_reads_back[OF assms])

theorem csv_roundtrip_witness:
  "ir_contacts (parseCsv (csv_text [\<lparr>ic_displayName = ''Doe, Jane'', ic_sipUri = [], ic_phone = ''+45''\<rparr>]))
     = [\<lparr>ic_displayName = ''Doe, Jane'', ic_sipUri = [], ic_phone = ''+45''\<rparr>]"
  by (subst csv_roundtrip)
    (simp_all add: plain_contact_def importable_def phone_char_def is_digit_def code_def trim_with_def trim_left_def trim_right_def
      q_space_def is_space_def contact_no_nl_def)

end
