(* ===== verification/Contacts.thy ===== *)
theory Contacts imports Queries ContactImport "HOL-Library.List_Lexorder" begin

text \<open>
  The address book: \<open>core/ContactsManager.{h,cpp}\<close> over the \<open>contacts\<close> table,
  \<open>core/ContactsController.{h,cpp}\<close> with the import, and \<open>models/ContactsModel.{h,cpp}\<close>.  The manager is
  proved to be a finite map from ids to contacts.
\<close>

subsection \<open>Contacts and their rows\<close>

definition kInvalidContactId :: int where "kInvalidContactId = -1"

record contact =
  ct_id :: int
  ct_displayName :: string
  ct_sipUri :: string
  ct_phone :: string
  ct_notes :: string
  ct_favorite :: bool

definition default_contact :: contact where
  "default_contact = \<lparr>ct_id = kInvalidContactId, ct_displayName = [], ct_sipUri = [], ct_phone = [], ct_notes = [],
     ct_favorite = False\<rparr>"

type_synonym crow = "int \<times> contact_row"

abbreviation contact_rows :: "database \<Rightarrow> crow list" where
  "contact_rows db \<equiv> t_contacts (db_tables db)"

definition on_contacts :: "(crow list \<Rightarrow> crow list) \<Rightarrow> database \<Rightarrow> database" where
  "on_contacts g db = db\<lparr>db_tables := (db_tables db)\<lparr>t_contacts := g (contact_rows db)\<rparr>\<rparr>"

definition contact_row_of :: "contact \<Rightarrow> contact_row" where
  "contact_row_of c = \<lparr>cn_display_name = ct_displayName c, cn_sip_uri = ct_sipUri c, cn_phone = ct_phone c,
     cn_notes = ct_notes c, cn_favorite = (if ct_favorite c then 1 else 0)\<rparr>"

definition rowToContact :: "crow \<Rightarrow> contact" where
  "rowToContact x = (case x of (i, r) \<Rightarrow>
     \<lparr>ct_id = i, ct_displayName = c_text (cn_display_name r), ct_sipUri = c_text (cn_sip_uri r),
      ct_phone = c_text (cn_phone r), ct_notes = c_text (cn_notes r), ct_favorite = (cn_favorite r \<noteq> 0)\<rparr>)"

subsection \<open>ContactsManager\<close>

definition con_add :: "bool \<Rightarrow> contact \<Rightarrow> database \<Rightarrow> int \<times> database" where
  "con_add runs c db =
     (if \<not> db_handle db \<or> \<not> runs then (kInvalidContactId, db)
      else (let i = next_rowid (contact_rows db) in (i, on_contacts (\<lambda>t. t @ [(i, contact_row_of c)]) db)))"

text \<open>UPDATE and DELETE succeed only if a row changed.\<close>

definition con_update :: "bool \<Rightarrow> contact \<Rightarrow> database \<Rightarrow> bool \<times> database" where
  "con_update runs c db =
     (if \<not> db_handle db \<or> \<not> runs then (False, db)
      else (ahas (contact_rows db) (ct_id c),
            on_contacts (update_rows (\<lambda>i r. if i = ct_id c then contact_row_of c else r)) db))"

definition con_remove :: "bool \<Rightarrow> int \<Rightarrow> database \<Rightarrow> bool \<times> database" where
  "con_remove runs i db =
     (if \<not> db_handle db \<or> \<not> runs then (False, db)
      else (ahas (contact_rows db) i, on_contacts (adel i) db))"

text \<open>\<open>ORDER BY display_name\<close> compares bytes.\<close>

definition con_list :: "crow query \<Rightarrow> database \<Rightarrow> contact list" where
  "con_list q db =
     (if \<not> db_handle db then []
      else fetch (q_prepared q) (q_stop q)
        (map rowToContact (order_by (\<lambda>x. cn_display_name (snd x)) q (contact_rows db))))"

definition con_findById :: "bool \<Rightarrow> int \<Rightarrow> database \<Rightarrow> contact option" where
  "con_findById prepared i db =
     (if \<not> db_handle db \<or> \<not> prepared then None
      else map_option (\<lambda>r. rowToContact (i, r)) (map_of (contact_rows db) i))"

text \<open>Without ORDER BY the first row is any matching one.\<close>

definition con_findByUri :: "crow query \<Rightarrow> string \<Rightarrow> database \<Rightarrow> contact option" where
  "con_findByUri q uri db =
     (if \<not> db_handle db then None
      else case fetch (q_prepared q) (q_stop q) (q_ties q (filter (\<lambda>x. cn_sip_uri (snd x) = uri) (contact_rows db))) of
        [] \<Rightarrow> None
      | x # _ \<Rightarrow> Some (rowToContact x))"

subsection \<open>ContactsModel and ContactsController\<close>

datatype contacts_role = CtIdRole | CtDisplayNameRole | CtSipUriRole | CtPhoneRole | CtFavoriteRole

fun contacts_data :: "contact \<Rightarrow> contacts_role \<Rightarrow> role_value" where
  "contacts_data c CtIdRole = RvInt (ct_id c)"
| "contacts_data c CtDisplayNameRole = RvString (ct_displayName c)"
| "contacts_data c CtSipUriRole = RvString (ct_sipUri c)"
| "contacts_data c CtPhoneRole = RvString (ct_phone c)"
| "contacts_data c CtFavoriteRole = RvBool (ct_favorite c)"

definition contacts_data_at :: "contact list \<Rightarrow> int \<Rightarrow> contacts_role \<Rightarrow> role_value option" where
  "contacts_data_at snap row role =
     (if row < 0 \<or> row \<ge> int (length snap) then None else Some (contacts_data (snap ! nat row) role))"

fun contacts_role_name :: "contacts_role \<Rightarrow> string" where
  "contacts_role_name CtIdRole = ''contactId''"
| "contacts_role_name CtDisplayNameRole = ''displayName''"
| "contacts_role_name CtSipUriRole = ''sipUri''"
| "contacts_role_name CtPhoneRole = ''phone''"
| "contacts_role_name CtFavoriteRole = ''favorite''"

record address_book =
  ab_db :: database
  ab_snapshot :: "contact list"

definition contacts_refresh :: "crow query \<Rightarrow> address_book \<Rightarrow> address_book" where
  "contacts_refresh q ab = ab\<lparr>ab_snapshot := con_list q (ab_db ab)\<rparr>"

definition ab_add :: "bool \<Rightarrow> crow query \<Rightarrow> string \<Rightarrow> string \<Rightarrow> string \<Rightarrow> address_book \<Rightarrow> int \<times> address_book" where
  "ab_add runs q displayName sipUri phone ab =
     (case con_add runs (default_contact\<lparr>ct_displayName := displayName, ct_sipUri := sipUri, ct_phone := phone\<rparr>) (ab_db ab) of
        (i, db) \<Rightarrow> (i, contacts_refresh q (ab\<lparr>ab_db := db\<rparr>)))"

definition refresh_if :: "bool \<Rightarrow> crow query \<Rightarrow> address_book \<Rightarrow> address_book" where
  "refresh_if ok q ab = (if ok then contacts_refresh q ab else ab)"

definition ab_update ::
  "bool \<Rightarrow> bool \<Rightarrow> crow query \<Rightarrow> int \<Rightarrow> string \<Rightarrow> string \<Rightarrow> string \<Rightarrow> address_book \<Rightarrow> bool \<times> address_book" where
  "ab_update found runs q i displayName sipUri phone ab =
     (case con_findById found i (ab_db ab) of
        None \<Rightarrow> (False, ab)
      | Some cur \<Rightarrow>
          (case con_update runs (cur\<lparr>ct_displayName := displayName, ct_sipUri := sipUri, ct_phone := phone\<rparr>) (ab_db ab) of
             (ok, db) \<Rightarrow> (ok, refresh_if ok q (ab\<lparr>ab_db := db\<rparr>))))"

definition ab_remove :: "bool \<Rightarrow> crow query \<Rightarrow> int \<Rightarrow> address_book \<Rightarrow> bool \<times> address_book" where
  "ab_remove runs q i ab =
     (case con_remove runs i (ab_db ab) of (ok, db) \<Rightarrow> (ok, refresh_if ok q (ab\<lparr>ab_db := db\<rparr>)))"

definition setFavorite :: "bool \<Rightarrow> bool \<Rightarrow> crow query \<Rightarrow> int \<Rightarrow> bool \<Rightarrow> address_book \<Rightarrow> bool \<times> address_book" where
  "setFavorite found runs q i favorite ab =
     (case con_findById found i (ab_db ab) of
        None \<Rightarrow> (False, ab)
      | Some cur \<Rightarrow>
          (if ct_favorite cur = favorite then (True, ab)
           else (case con_update runs (cur\<lparr>ct_favorite := favorite\<rparr>) (ab_db ab) of
             (ok, db) \<Rightarrow> (ok, refresh_if ok q (ab\<lparr>ab_db := db\<rparr>)))))"

text \<open>One INSERT per imported contact; \<open>runs\<close> gives the outcome of the next ones.\<close>

definition imported :: "imported_contact \<Rightarrow> contact" where
  "imported c = default_contact\<lparr>ct_displayName := ic_displayName c, ct_sipUri := ic_sipUri c, ct_phone := ic_phone c\<rparr>"

fun import_all :: "bool list \<Rightarrow> imported_contact list \<Rightarrow> database \<Rightarrow> nat \<times> database" where
  "import_all runs [] db = (0, db)"
| "import_all runs (c # cs) db =
     (case con_add (runs \<noteq> [] \<and> hd runs) (imported c) db of (i, db1) \<Rightarrow>
       (case import_all (tl runs) cs db1 of (n, db2) \<Rightarrow> (if i \<noteq> kInvalidContactId then Suc n else n, db2)))"

text \<open>\<open>contents\<close>: what the file holds, if it can be opened.\<close>

definition importFromFile :: "string option \<Rightarrow> bool list \<Rightarrow> crow query \<Rightarrow> string \<Rightarrow> address_book \<Rightarrow> nat \<times> address_book" where
  "importFromFile contents runs q path ab =
     (case contents of
        None \<Rightarrow> (0, ab)
      | Some text \<Rightarrow>
          (let result = (if ends_with ''.csv'' (map q_lower path) then parseCsv text else parseVCard text)
           in case import_all runs (ir_contacts result) (ab_db ab) of
                (n, db) \<Rightarrow> (n, refresh_if (n > 0) q (ab\<lparr>ab_db := db\<rparr>))))"

text \<open>\<open>dial\<close>: the target of \<open>dialRequested\<close>, which becomes the text of the dialler.\<close>

definition ab_dial :: "bool \<Rightarrow> int \<Rightarrow> address_book \<Rightarrow> string option" where
  "ab_dial found i ab = map_option ct_sipUri (con_findById found i (ab_db ab))"

subsection \<open>The address book as a map\<close>

definition book :: "database \<Rightarrow> int \<Rightarrow> contact option" where
  "book db i = map_option (\<lambda>r. rowToContact (i, r)) (map_of (contact_rows db) i)"

text \<open>What is read back: strings up to the first NUL.\<close>

definition readable :: "contact \<Rightarrow> contact" where
  "readable c = c\<lparr>ct_displayName := c_text (ct_displayName c), ct_sipUri := c_text (ct_sipUri c),
     ct_phone := c_text (ct_phone c), ct_notes := c_text (ct_notes c)\<rparr>"

lemma on_contacts_simps [simp]:
  "contact_rows (on_contacts g db) = g (contact_rows db)" "db_handle (on_contacts g db) = db_handle db"
  by (simp_all add: on_contacts_def)

lemma rowToContact_written [simp]: "rowToContact (i, contact_row_of c) = readable (c\<lparr>ct_id := i\<rparr>)"
  by (cases c) (simp add: rowToContact_def contact_row_of_def readable_def)

lemma ct_id_row [simp]: "ct_id (rowToContact x) = fst x"
  by (simp add: rowToContact_def split: prod.split)

lemma dom_book: "book db i \<noteq> None \<longleftrightarrow> ahas (contact_rows db) i"
  by (simp add: book_def ahas_def)

lemma book_add:
  assumes "keys_sorted (contact_rows db)" "db_handle db" "con_add True c db = (i, db')"
  shows "book db i = None" "book db' = (book db)(i \<mapsto> readable (c\<lparr>ct_id := i\<rparr>))"
    "keys_sorted (contact_rows db')" "db_handle db'" "i = next_rowid (contact_rows db)"
proof -
  let ?t = "contact_rows db"
  have i: "i = next_rowid ?t" and r: "contact_rows db' = ?t @ [(i, contact_row_of c)]" and h: "db_handle db'"
    using assms(2,3) by (auto simp: con_add_def Let_def)
  have fresh: "\<not> ahas ?t i" using next_rowid_new[OF assms(1)] i by simp
  then show "book db i = None" by (simp add: book_def ahas_def)
  show "book db' = (book db)(i \<mapsto> readable (c\<lparr>ct_id := i\<rparr>))"
    using fresh by (auto simp: book_def fun_eq_iff r map_add_def ahas_def split: option.split)
  show "keys_sorted (contact_rows db')" unfolding r using insert_row_aput[OF assms(1)] assms(1) i by simp
  show "db_handle db'" "i = next_rowid ?t" by (fact h, fact i)
qed

text \<open>The address book is a finite map from ids to contacts: adding binds a new id, updating and removing
  touch the given id only and fail exactly when it is unbound, looking up reads the map, and the list
  shows every contact once, ordered by name.\<close>

theorem address_book_refines_map:
  assumes "db_handle db" "keys_sorted (contact_rows db)"
  shows "(case con_add True c db of (i, db') \<Rightarrow> book db i = None \<and> book db' = (book db)(i \<mapsto> readable (c\<lparr>ct_id := i\<rparr>)))
    \<and> (case con_update True c db of (ok, db') \<Rightarrow> ok = (book db (ct_id c) \<noteq> None)
         \<and> book db' = (if ok then (book db)(ct_id c \<mapsto> readable c) else book db))
    \<and> (case con_remove True i db of (ok, db') \<Rightarrow> ok = (book db i \<noteq> None) \<and> book db' = (book db)(i := None))
    \<and> con_findById True i db = book db i
    \<and> (completes q (contact_rows db) \<longrightarrow>
        distinct (map ct_id (con_list q db)) \<and> (\<forall>c. c \<in> set (con_list q db) \<longleftrightarrow> book db (ct_id c) = Some c))"
proof (intro conjI impI)
  show "case con_add True c db of (i, db') \<Rightarrow> book db i = None \<and> book db' = (book db)(i \<mapsto> readable (c\<lparr>ct_id := i\<rparr>))"
    using book_add[OF assms(2,1)] by (auto split: prod.split)
  have "book (on_contacts (update_rows (\<lambda>i r. if i = ct_id c then contact_row_of c else r)) db)
      = (if ahas (contact_rows db) (ct_id c) then (book db)(ct_id c \<mapsto> readable c) else book db)"
    by (auto simp: book_def fun_eq_iff ahas_def option.map_comp comp_def map_option_case split: option.split)
  then show "case con_update True c db of (ok, db') \<Rightarrow> ok = (book db (ct_id c) \<noteq> None)
         \<and> book db' = (if ok then (book db)(ct_id c \<mapsto> readable c) else book db)"
    using assms(1) dom_book[of db "ct_id c"] by (simp add: con_update_def del: not_None_eq)
  show "case con_remove True i db of (ok, db') \<Rightarrow> ok = (book db i \<noteq> None) \<and> book db' = (book db)(i := None)"
    using assms(1) dom_book[of db i] by (auto simp: con_remove_def book_def fun_eq_iff)
  show "con_findById True i db = book db i" using assms(1) by (simp add: con_findById_def book_def)
next
  assume q: "completes q (contact_rows db)"
  let ?xs = "order_by (\<lambda>x. cn_display_name (snd x)) q (contact_rows db)"
  have l: "con_list q db = map rowToContact ?xs" using assms(1) q by (simp add: con_list_def)
  have "mset (map fst ?xs) = mset (map fst (contact_rows db))" by (simp only: mset_map mset_order_by[OF q])
  moreover have dk: "distinct (map fst (contact_rows db))" by (rule keys_sorted_distinct[OF assms(2)])
  ultimately have "distinct (map fst ?xs)" using mset_eq_imp_distinct_iff by blast
  then show "distinct (map ct_id (con_list q db))" by (simp add: l comp_def)
  have "c \<in> rowToContact ` set (contact_rows db) \<longleftrightarrow> book db (ct_id c) = Some c" for c
    using map_of_eq_Some_iff[OF dk] by (force simp: book_def)
  then show "\<forall>c. c \<in> set (con_list q db) \<longleftrightarrow> book db (ct_id c) = Some c"
    by (simp add: l set_order_by[OF q])
qed

definition sample_book :: database where
  "sample_book =
     \<lparr>db_handle = True,
      db_tables = \<lparr>t_accounts = [], t_history = [], t_messages = [],
        t_contacts = [(1, \<lparr>cn_display_name = ''Zoe'', cn_sip_uri = ''sip:z@h'', cn_phone = [], cn_notes = [], cn_favorite = 1\<rparr>)],
        t_lines = [], t_settings = []\<rparr>,
      db_tx = None\<rparr>"

theorem address_book_refines_map_witness:
  "book (snd (con_remove True 1 sample_book)) 1 = None \<and> distinct (map ct_id (con_list plain_query sample_book))"
proof -
  have "db_handle sample_book" "keys_sorted (contact_rows sample_book)" by (simp_all add: sample_book_def keys_sorted_def)
  from address_book_refines_map[OF this, of default_contact 1 plain_query] show ?thesis by (auto split: prod.splits)
qed

subsection \<open>Import\<close>

lemma next_rowid_valid: "(\<And>i. ahas t i \<Longrightarrow> 1 \<le> i) \<Longrightarrow> next_rowid t \<noteq> kInvalidContactId"
  using next_rowid_pos[of t] by (simp add: kInvalidContactId_def)

text \<open>The rows an import appends: numbered on from the next row id.\<close>

fun imported_rows :: "int \<Rightarrow> imported_contact list \<Rightarrow> crow list" where
  "imported_rows i [] = []"
| "imported_rows i (c # cs) = (i, contact_row_of (imported c)) # imported_rows (i + 1) cs"

lemma next_rowid_snoc [simp]: "next_rowid (t @ [(i, r)]) = i + 1"
  by (simp add: next_rowid_def)

lemma import_all_ok:
  assumes "db_handle db" "1 \<le> next_rowid (contact_rows db)" "length cs \<le> length runs" "list_all (\<lambda>b. b) runs"
  shows "import_all runs cs db = (length cs, on_contacts (\<lambda>t. t @ imported_rows (next_rowid (contact_rows db)) cs) db)"
  using assms
proof (induction cs arbitrary: runs db)
  case Nil
  then show ?case by (simp add: on_contacts_def)
next
  case (Cons c cs)
  let ?i = "next_rowid (contact_rows db)"
  let ?db = "on_contacts (\<lambda>t. t @ [(?i, contact_row_of (imported c))]) db"
  have r: "runs \<noteq> []" "hd runs" "list_all (\<lambda>b. b) (tl runs)" "length cs \<le> length (tl runs)"
    using Cons.prems(3,4) by (cases runs; simp)+
  have a: "con_add (runs \<noteq> [] \<and> hd runs) (imported c) db = (?i, ?db)"
    using Cons.prems(1) r by (simp add: con_add_def Let_def)
  have "import_all (tl runs) cs ?db = (length cs, on_contacts (\<lambda>t. t @ imported_rows (next_rowid (contact_rows ?db)) cs) ?db)"
    by (rule Cons.IH) (use Cons.prems(1,2) r in simp_all)
  then show ?case using a Cons.prems(2) by (simp add: on_contacts_def kInvalidContactId_def)
qed

lemma map_of_imported_rows:
  "k < length cs \<Longrightarrow> map_of (imported_rows i cs) (i + int k) = Some (contact_row_of (imported (cs ! k)))"
proof (induction cs arbitrary: i k)
  case (Cons c cs)
  show ?case
  proof (cases k)
    case (Suc j)
    then show ?thesis using Cons.IH[of j "i + 1"] Cons.prems by (simp add: add.assoc)
  qed simp
qed simp

text \<open>Importing an exported address book adds each of its contacts once, after the ones that were there,
  and the list shows the new book. Dialling a contact fills in its address alone: a contact that has only
  a phone number empties the dialler.\<close>

theorem import_and_dial:
  assumes "db_handle (ab_db ab)" "keys_sorted (contact_rows (ab_db ab))" "first = next_rowid (contact_rows (ab_db ab))" "1 \<le> first"
    and "list_all plain_contact cs" "list_all contact_no_nl cs" "cs \<noteq> []" "length cs \<le> length runs" "list_all (\<lambda>b. b) runs"
    and "ends_with ''.csv'' (map q_lower path)" "importFromFile (Some (csv_text cs)) runs q path ab = (n, ab')"
  shows "n = length cs \<and> contact_rows (ab_db ab') = contact_rows (ab_db ab) @ imported_rows first cs
    \<and> ab_snapshot ab' = con_list q (ab_db ab')
    \<and> (k < length cs \<longrightarrow> book (ab_db ab') (first + int k) = Some (readable ((imported (cs ! k))\<lparr>ct_id := first + int k\<rparr>))
         \<and> ab_dial True (first + int k) ab' = Some (c_text (ic_sipUri (cs ! k))))"
proof -
  let ?rows = "contact_rows (ab_db ab)"
  have all: "import_all runs cs (ab_db ab) = (length cs, on_contacts (\<lambda>t. t @ imported_rows first cs) (ab_db ab))"
    using import_all_ok[OF assms(1) _ assms(8,9)] assms(3,4) by simp
  have r: "n = length cs" "contact_rows (ab_db ab') = ?rows @ imported_rows first cs" "db_handle (ab_db ab')"
    "ab_snapshot ab' = con_list q (ab_db ab')"
    using assms(1,7,10,11) all by (auto simp: importFromFile_def csv_reads_back[OF assms(5,6)] refresh_if_def contacts_refresh_def)
  have "book (ab_db ab') (first + int k) = Some (readable ((imported (cs ! k))\<lparr>ct_id := first + int k\<rparr>))" if k: "k < length cs"
  proof -
    have "\<not> ahas ?rows (first + int k)" using next_rowid_fresh[OF assms(2)] assms(3) by fastforce
    then have "map_of (?rows @ imported_rows first cs) (first + int k) = Some (contact_row_of (imported (cs ! k)))"
      using map_of_imported_rows[OF k, of first] by (auto simp: map_add_def ahas_def)
    then show ?thesis by (simp add: book_def r(2))
  qed
  moreover have "ab_dial True i ab' = map_option ct_sipUri (book (ab_db ab') i)" for i
    using r(3) by (simp add: ab_dial_def con_findById_def book_def)
  ultimately show ?thesis using r by (auto simp: readable_def imported_def)
qed

theorem import_and_dial_witness:
  "let ab = \<lparr>ab_db = sample_book, ab_snapshot = []\<rparr>;
       r = importFromFile (Some (csv_text [\<lparr>ic_displayName = ''Ann'', ic_sipUri = [], ic_phone = ''+45''\<rparr>])) [True] plain_query ''a.csv'' ab
   in fst r = 1 \<and> ab_dial True 2 (snd r) = Some []"
proof -
  let ?c = "\<lparr>ic_displayName = ''Ann'', ic_sipUri = [], ic_phone = ''+45''\<rparr>"
  let ?ab = "\<lparr>ab_db = sample_book, ab_snapshot = []\<rparr>"
  let ?r = "importFromFile (Some (csv_text [?c])) [True] plain_query ''a.csv'' ?ab"
  have "list_all plain_contact [?c]" "list_all contact_no_nl [?c]"
    by (simp_all add: plain_contact_def importable_def phone_char_def is_digit_def code_def trim_with_def trim_left_def
        trim_right_def q_space_def is_space_def contact_no_nl_def)
  moreover have "ends_with ''.csv'' (map q_lower ''a.csv'')" by code_simp
  moreover have "next_rowid (contact_rows sample_book) = 2" "keys_sorted (contact_rows sample_book)" "db_handle sample_book"
    by (simp_all add: sample_book_def next_rowid_def keys_sorted_def)
  moreover have "?r = (fst ?r, snd ?r)" by simp
  ultimately have "fst ?r = 1 \<and> ab_dial True 2 (snd ?r) = Some []"
    using import_and_dial[of ?ab 2 "[?c]" "[True]" "''a.csv''" plain_query "fst ?r" "snd ?r" 0] by simp
  then show ?thesis by (simp add: Let_def)
qed

end
