(* ===== verification/Migrations.thy ===== *)
theory Migrations imports Database begin

text \<open>
  Opening the database: \<open>Database::open\<close> with the migration loop of \<open>persistence/Database.cpp\<close>.  A
  connection sees its own uncommitted changes; what a crash or a close leaves is what was committed.
  Every statement can fail, and a COMMIT can also be refused and leave its transaction open.  The
  pragmas, whose results the code ignores, are left out.
\<close>

subsection \<open>The file and the connection\<close>

text \<open>The tables of the baseline schema: absent, created in part (a failed \<open>sqlite3_exec\<close> keeps the statements
  before the failing one), or present, with or without the \<open>provider\<close> column.\<close>

datatype schema = NoTables | PartOfTables | Tables bool

record db_file =
  df_version_table :: bool
  df_versions :: "nat list"
  df_schema :: schema
  df_tables :: tables

record connection =
  cx_disk :: db_file
  cx_work :: db_file
  cx_tx :: bool

definition connect :: "db_file \<Rightarrow> connection" where
  "connect f = \<lparr>cx_disk = f, cx_work = f, cx_tx = False\<rparr>"

text \<open>Outside a transaction a statement commits by itself.\<close>

definition work_to :: "db_file \<Rightarrow> connection \<Rightarrow> connection" where
  "work_to w cx = (if cx_tx cx then cx\<lparr>cx_work := w\<rparr> else cx\<lparr>cx_disk := w, cx_work := w\<rparr>)"

text \<open>\<open>sqlite3_close\<close> rolls an open transaction back.\<close>

definition sq_close :: "connection \<Rightarrow> db_file" where
  "sq_close cx = cx_disk cx"

definition sq_begin :: "bool \<Rightarrow> connection \<Rightarrow> bool \<times> connection" where
  "sq_begin runs cx = (if runs \<and> \<not> cx_tx cx then (True, cx\<lparr>cx_tx := True\<rparr>) else (False, cx))"

definition sq_rollback :: "bool \<Rightarrow> connection \<Rightarrow> connection" where
  "sq_rollback runs cx = (if runs \<and> cx_tx cx then cx\<lparr>cx_work := cx_disk cx, cx_tx := False\<rparr> else cx)"

datatype commit_result = CommitOk | CommitRefused | CommitRolledBack

fun sq_commit :: "commit_result \<Rightarrow> connection \<Rightarrow> bool \<times> connection" where
  "sq_commit CommitOk cx = (if cx_tx cx then (True, cx\<lparr>cx_disk := cx_work cx, cx_tx := False\<rparr>) else (False, cx))"
| "sq_commit CommitRefused cx = (False, cx)"
| "sq_commit CommitRolledBack cx = (False, sq_rollback True cx)"

subsection \<open>The migrations\<close>

definition kBaselineStatements :: nat where "kBaselineStatements = 16"

definition baseline_tables :: tables where
  "baseline_tables = \<lparr>t_accounts = [], t_history = [], t_messages = [], t_contacts = [], t_lines = [],
     t_settings = [(''log_level'', ''info''), (''ringtone_enabled'', ''1'')]\<rparr>"

text \<open>Outcomes of the statements of one migration; \<open>me_steps\<close> is how many statements of the schema run.\<close>

record migration_env =
  me_begin :: bool
  me_steps :: nat
  me_columns :: bool
  me_alter :: bool
  me_write :: bool
  me_rollback :: bool
  me_commit :: commit_result

definition exec_baseline :: "migration_env \<Rightarrow> connection \<Rightarrow> bool \<times> connection" where
  "exec_baseline env cx =
     (let w = cx_work cx in
      if df_schema w \<noteq> NoTables \<or> me_steps env = 0 then (False, cx)
      else if me_steps env < kBaselineStatements then (False, work_to (w\<lparr>df_schema := PartOfTables\<rparr>) cx)
      else (True, work_to (w\<lparr>df_schema := Tables True, df_tables := baseline_tables\<rparr>) cx))"

definition columnExists :: "bool \<Rightarrow> db_file \<Rightarrow> bool" where
  "columnExists prepared w \<longleftrightarrow> prepared \<and> df_schema w = Tables True"

text \<open>ALTER TABLE gives every row the default of the new column; a duplicate column is an error.\<close>

definition addProviderColumn :: "migration_env \<Rightarrow> connection \<Rightarrow> bool \<times> connection" where
  "addProviderColumn env cx =
     (let w = cx_work cx in
      if columnExists (me_columns env) w then (True, cx)
      else if \<not> me_alter env \<or> df_schema w \<noteq> Tables False then (False, cx)
      else (True, work_to (w\<lparr>df_schema := Tables True,
              df_tables := (df_tables w)\<lparr>t_accounts := update_rows (\<lambda>i r. r(ColProvider := SqlText [])) (t_accounts (df_tables w))\<rparr>\<rparr>) cx))"

definition kMigrations :: "(migration_env \<Rightarrow> connection \<Rightarrow> bool \<times> connection) list" where
  "kMigrations = [exec_baseline, addProviderColumn]"

definition kLatestVersion :: nat where
  "kLatestVersion = length kMigrations"

definition writeVersion :: "bool \<Rightarrow> nat \<Rightarrow> connection \<Rightarrow> bool \<times> connection" where
  "writeVersion runs v cx =
     (let w = cx_work cx in
      if \<not> runs \<or> \<not> df_version_table w then (False, cx)
      else (True, work_to (w\<lparr>df_versions := df_versions w @ [v]\<rparr>) cx))"

definition readVersion :: "bool \<Rightarrow> connection \<Rightarrow> nat" where
  "readVersion runs cx =
     (if \<not> runs \<or> \<not> df_version_table (cx_work cx) \<or> df_versions (cx_work cx) = [] then 0
      else Max (set (df_versions (cx_work cx))))"

definition migrate :: "migration_env \<Rightarrow> nat \<Rightarrow> connection \<Rightarrow> bool \<times> connection" where
  "migrate env v cx =
     (case sq_begin (me_begin env) cx of (begun, cx0) \<Rightarrow>
        if \<not> begun then (False, cx0)
        else case (kMigrations ! (v - 1)) env cx0 of (done', cx1) \<Rightarrow>
          if \<not> done' then (False, sq_rollback (me_rollback env) cx1)
          else case writeVersion (me_write env) v cx1 of (written, cx2) \<Rightarrow>
            if \<not> written then (False, sq_rollback (me_rollback env) cx2)
            else sq_commit (me_commit env) cx2)"

fun migrate_all :: "(nat \<Rightarrow> migration_env) \<Rightarrow> nat list \<Rightarrow> connection \<Rightarrow> bool \<times> connection" where
  "migrate_all env [] cx = (True, cx)"
| "migrate_all env (v # vs) cx =
     (case migrate (env v) v cx of (ok, cx1) \<Rightarrow> if ok then migrate_all env vs cx1 else (False, cx1))"

record open_env =
  oe_open :: bool
  oe_create :: bool
  oe_read :: bool
  oe_migrate :: "nat \<Rightarrow> migration_env"

definition runMigrations :: "open_env \<Rightarrow> connection \<Rightarrow> bool \<times> connection" where
  "runMigrations env cx =
     (if \<not> oe_create env then (False, cx)
      else (let cx0 = (if df_version_table (cx_work cx) then cx else work_to ((cx_work cx)\<lparr>df_version_table := True\<rparr>) cx)
            in migrate_all (oe_migrate env) [Suc (readVersion (oe_read env) cx0)..<Suc kLatestVersion] cx0))"

text \<open>\<open>open(path)\<close>: no connection is left when the file cannot be opened, but one is when a migration fails,
  and \<open>PhoneController\<close> only logs that and goes on with it.\<close>

definition db_open :: "open_env \<Rightarrow> db_file \<Rightarrow> bool \<times> connection option" where
  "db_open env f =
     (if \<not> oe_open env then (False, None)
      else case runMigrations env (connect f) of (ok, cx) \<Rightarrow> (ok, Some cx))"

subsection \<open>Files the program writes\<close>

definition file_version :: "db_file \<Rightarrow> nat" where
  "file_version f = (if df_versions f = [] then 0 else Max (set (df_versions f)))"

text \<open>The schema belongs to the version; releases before the second migration created the first version
  without the column.\<close>

definition file_ok :: "db_file \<Rightarrow> bool" where
  "file_ok f \<longleftrightarrow> (df_versions f \<noteq> [] \<longrightarrow> df_version_table f) \<and>
     (if file_version f = 0 then df_schema f = NoTables
      else if file_version f = 1 then df_schema f = Tables True \<or> df_schema f = Tables False
      else df_schema f = Tables True)"

text \<open>What is kept of the old content: everything but the new column.\<close>

definition same_but_provider :: "tables \<Rightarrow> tables \<Rightarrow> bool" where
  "same_but_provider t t' \<longleftrightarrow> t'\<lparr>t_accounts := []\<rparr> = t\<lparr>t_accounts := []\<rparr> \<and>
     update_rows (\<lambda>i r. r(ColProvider := SqlNull)) (t_accounts t') = update_rows (\<lambda>i r. r(ColProvider := SqlNull)) (t_accounts t)"

lemma same_but_provider_refl [simp]: "same_but_provider t t"
  by (simp add: same_but_provider_def)

lemma same_but_provider_trans: "same_but_provider t u \<Longrightarrow> same_but_provider u v \<Longrightarrow> same_but_provider t v"
  by (simp add: same_but_provider_def)

lemma same_but_provider_alter:
  "same_but_provider t (t\<lparr>t_accounts := update_rows (\<lambda>i r. r(ColProvider := SqlText [])) (t_accounts t)\<rparr>)"
  by (auto simp: same_but_provider_def update_rows_def)

definition keeps_data :: "db_file \<Rightarrow> db_file \<Rightarrow> bool" where
  "keeps_data f f' \<longleftrightarrow> df_schema f = NoTables \<or> same_but_provider (df_tables f) (df_tables f')"

subsection \<open>One migration\<close>

definition at_rest :: "connection \<Rightarrow> bool" where
  "at_rest cx \<longleftrightarrow> \<not> cx_tx cx \<and> cx_work cx = cx_disk cx \<and> df_version_table (cx_disk cx)"

text \<open>A step towards a newer file that loses nothing.\<close>

definition upgrades :: "db_file \<Rightarrow> db_file \<Rightarrow> bool" where
  "upgrades f f' \<longleftrightarrow> file_ok f' \<and> file_version f \<le> file_version f' \<and> keeps_data f f' \<and>
     file_version f' \<le> max 2 (file_version f) \<and> (df_schema f' = NoTables \<longrightarrow> df_schema f = NoTables)"

lemma upgrades_refl: "file_ok f \<Longrightarrow> upgrades f f"
  by (simp add: upgrades_def keeps_data_def)

lemma upgrades_trans: "upgrades f g \<Longrightarrow> upgrades g h \<Longrightarrow> upgrades f h"
  by (auto simp: upgrades_def keeps_data_def intro: same_but_provider_trans)

lemma file_version_snoc: "file_version (f\<lparr>df_versions := df_versions g @ [v]\<rparr>) = max v (file_version g)"
  by (auto simp: file_version_def max.commute)

lemma file_version_cong [simp]:
  "file_version (f\<lparr>df_schema := s\<rparr>) = file_version f" "file_version (f\<lparr>df_tables := t\<rparr>) = file_version f"
  "file_version (f\<lparr>df_version_table := b\<rparr>) = file_version f"
  by (simp_all add: file_version_def)

lemma kMigrations_nth: "kMigrations ! 0 = exec_baseline" "kMigrations ! Suc 0 = addProviderColumn" "kLatestVersion = 2"
  by (simp_all add: kMigrations_def kLatestVersion_def)

text \<open>Inside its transaction a migration touches only the working copy.\<close>

lemma work_to_tx [simp]: "cx_tx cx \<Longrightarrow> work_to w cx = cx\<lparr>cx_work := w\<rparr>"
  by (simp add: work_to_def)

lemma migration_in_tx:
  assumes "cx_tx cx" "cx_work cx = f" "file_ok f" "df_version_table f" "v = Suc (file_version f) \<or> v = 1" "v \<le> 2"
    and "(kMigrations ! (v - 1)) env cx = (ok, cx1)"
  shows "cx_tx cx1" "cx_disk cx1 = cx_disk cx"
    and "ok \<Longrightarrow> upgrades f ((cx_work cx1)\<lparr>df_versions := df_versions f @ [v]\<rparr>) \<and> df_versions (cx_work cx1) = df_versions f
      \<and> df_version_table (cx_work cx1) \<and> v = Suc (file_version f)"
proof -
  have "v = 1 \<or> v = 2 \<and> file_version f = 1" using assms(5,6) by auto
  then have "cx_tx cx1 \<and> cx_disk cx1 = cx_disk cx \<and> (ok \<longrightarrow> upgrades f ((cx_work cx1)\<lparr>df_versions := df_versions f @ [v]\<rparr>) \<and>
      df_versions (cx_work cx1) = df_versions f \<and> df_version_table (cx_work cx1) \<and> v = Suc (file_version f))"
  proof (elim disjE conjE)
    assume v: "v = 1"
    have z: "df_schema f = NoTables \<Longrightarrow> file_version f = 0"
      using assms(3) by (auto simp: file_ok_def split: if_splits)
    show ?thesis
      using assms(1,2,4,7) z
      by (auto simp: v kMigrations_nth exec_baseline_def Let_def upgrades_def file_ok_def keeps_data_def file_version_snoc split: if_splits)
  next
    assume v: "v = 2" "file_version f = 1"
    then have s: "df_schema f = Tables True \<or> df_schema f = Tables False" using assms(3) by (simp add: file_ok_def)
    show ?thesis
      using assms(1,2,4,7) s v
      by (auto simp: kMigrations_nth addProviderColumn_def columnExists_def Let_def upgrades_def file_ok_def keeps_data_def
          file_version_snoc same_but_provider_alter split: if_splits)
  qed
  then show "cx_tx cx1" "cx_disk cx1 = cx_disk cx"
    "ok \<Longrightarrow> upgrades f ((cx_work cx1)\<lparr>df_versions := df_versions f @ [v]\<rparr>) \<and> df_versions (cx_work cx1) = df_versions f
      \<and> df_version_table (cx_work cx1) \<and> v = Suc (file_version f)" by auto
qed

lemma migrate_step:
  assumes "at_rest cx" "file_ok (cx_disk cx)" "v = Suc (file_version (cx_disk cx)) \<or> v = 1" "v \<le> 2" "migrate env v cx = (ok, cx')"
  shows "upgrades (cx_disk cx) (cx_disk cx')"
    and "ok \<Longrightarrow> at_rest cx' \<and> v = Suc (file_version (cx_disk cx)) \<and> file_version (cx_disk cx') = v"
proof -
  let ?f = "cx_disk cx"
  have "upgrades ?f (cx_disk cx') \<and> (ok \<longrightarrow> at_rest cx' \<and> v = Suc (file_version ?f) \<and> file_version (cx_disk cx') = v)"
  proof (cases "me_begin env")
    case False
    then show ?thesis using assms(2,5) by (auto simp: migrate_def sq_begin_def upgrades_refl)
  next
    case True
    let ?cx0 = "cx\<lparr>cx_tx := True\<rparr>"
    have b: "sq_begin (me_begin env) cx = (True, ?cx0)" using True assms(1) by (simp add: sq_begin_def at_rest_def)
    obtain ok1 cx1 where m: "(kMigrations ! (v - 1)) env ?cx0 = (ok1, cx1)" by fastforce
    have w: "cx_work ?cx0 = ?f" "df_version_table ?f" using assms(1) by (simp_all add: at_rest_def)
    note t = migration_in_tx[OF _ w(1) assms(2) w(2) assms(3,4) m, simplified]
    have keep: "cx_disk (sq_rollback b cx1) = ?f" for b using t(2) by (simp add: sq_rollback_def)
    show ?thesis
    proof (cases "ok1 \<and> me_write env")
      case False
      then show ?thesis
        using assms(2,5) b m keep by (auto simp: migrate_def writeVersion_def upgrades_refl split: if_splits)
    next
      case True
      let ?cx2 = "cx1\<lparr>cx_work := (cx_work cx1)\<lparr>df_versions := df_versions ?f @ [v]\<rparr>\<rparr>"
      have up: "upgrades ?f (cx_work ?cx2)" "v = Suc (file_version ?f)" and vt: "df_version_table (cx_work cx1)"
        and vs: "df_versions (cx_work cx1) = df_versions ?f"
        using t(3) True by auto
      have c: "migrate env v cx = sq_commit (me_commit env) ?cx2"
        using True b m t(1) vt by (simp add: migrate_def writeVersion_def vs Let_def)
      have "file_version (cx_work ?cx2) = v"
        using file_version_snoc[of "cx_work cx1" v] vs up(2) by (simp add: file_version_def)
      then show ?thesis
        using c assms(2,5) up t(1,2) vt
        by (cases "me_commit env") (auto simp: at_rest_def sq_rollback_def upgrades_refl)
    qed
  qed
  then show "upgrades ?f (cx_disk cx')"
    "ok \<Longrightarrow> at_rest cx' \<and> v = Suc (file_version ?f) \<and> file_version (cx_disk cx') = v" by auto
qed

lemma migrate_all_steps:
  "at_rest cx \<Longrightarrow> file_ok (cx_disk cx) \<Longrightarrow> v = Suc (file_version (cx_disk cx)) \<or> v = 1 \<Longrightarrow> 1 \<le> v \<Longrightarrow> v \<le> 3 \<Longrightarrow>
   migrate_all env [v..<3] cx = (ok, cx') \<Longrightarrow>
   upgrades (cx_disk cx) (cx_disk cx') \<and> (ok \<longrightarrow> at_rest cx' \<and> (v = 3 \<or> file_version (cx_disk cx') = 2))"
proof (induction "3 - v" arbitrary: v cx)
  case 0
  then show ?case by (simp add: upgrades_refl)
next
  case (Suc n)
  then have v: "v \<le> 2" and u: "[v..<3] = v # [Suc v..<3]" by (simp_all add: upt_conv_Cons)
  obtain ok1 cx1 where m: "migrate (env v) v cx = (ok1, cx1)" by fastforce
  note st = migrate_step[OF Suc.prems(1,2,3) v m]
  show ?case
  proof (cases ok1)
    case False
    then show ?thesis using Suc.prems(6) st(1) by (simp add: u m)
  next
    case True
    have r: "at_rest cx1" "file_version (cx_disk cx1) = v" "file_ok (cx_disk cx1)"
      using st True by (auto simp: upgrades_def)
    have rest: "migrate_all env [Suc v..<3] cx1 = (ok, cx')" using Suc.prems(6) True by (simp add: u m)
    have "upgrades (cx_disk cx1) (cx_disk cx') \<and> (ok \<longrightarrow> at_rest cx' \<and> (Suc v = 3 \<or> file_version (cx_disk cx') = 2))"
      by (rule Suc.hyps(1)[OF _ r(1,3) _ _ _ rest]) (use Suc.hyps(2) r(2) v in auto)
    moreover have "Suc v = 3 \<and> ok \<Longrightarrow> cx' = cx1" using rest by auto
    ultimately show ?thesis using st(1) r(2) upgrades_trans by auto
  qed
qed

subsection \<open>Opening a database\<close>

lemma connect_version_table:
  assumes "file_ok f"
  defines "cx0 \<equiv> if df_version_table (cx_work (connect f)) then connect f
                  else work_to ((cx_work (connect f))\<lparr>df_version_table := True\<rparr>) (connect f)"
  shows "at_rest cx0" "upgrades f (cx_disk cx0)" "file_version (cx_disk cx0) = file_version f"
    "runs \<Longrightarrow> readVersion runs cx0 = file_version f" "readVersion runs cx0 \<le> file_version f"
    "readVersion runs cx0 = file_version f \<or> readVersion runs cx0 = 0"
proof -
  have c: "cx0 = connect (f\<lparr>df_version_table := True\<rparr>)" by (simp add: cx0_def connect_def work_to_def)
  show "at_rest cx0" by (simp add: c at_rest_def connect_def)
  have "file_ok (f\<lparr>df_version_table := True\<rparr>)" using assms(1) by (simp add: file_ok_def)
  then show "upgrades f (cx_disk cx0)" by (auto simp: c upgrades_def connect_def keeps_data_def)
  show "file_version (cx_disk cx0) = file_version f" by (simp add: c connect_def)
  show "runs \<Longrightarrow> readVersion runs cx0 = file_version f" "readVersion runs cx0 \<le> file_version f"
    "readVersion runs cx0 = file_version f \<or> readVersion runs cx0 = 0"
    by (auto simp: c connect_def readVersion_def file_version_def)
qed

lemma runMigrations_eq:
  assumes "file_ok f" "oe_create env" "oe_read env"
  shows "runMigrations env (connect f) =
    migrate_all (oe_migrate env) [Suc (file_version f)..<3]
      (if df_version_table (cx_work (connect f)) then connect f
       else work_to ((cx_work (connect f))\<lparr>df_version_table := True\<rparr>) (connect f))"
proof -
  have "Suc kLatestVersion = 3" by (simp add: kMigrations_nth)
  then show ?thesis
    using assms(2,3) connect_version_table(4)[OF assms(1), of True]
    by (simp only: runMigrations_def Let_def if_False not_True_eq_False)
qed

lemma runMigrations_steps:
  assumes "file_ok f" "file_version f \<le> 2" "runMigrations env (connect f) = (ok, cx)"
  shows "upgrades f (cx_disk cx)" "ok \<Longrightarrow> \<not> cx_tx cx \<and> cx_work cx = cx_disk cx \<and> file_version (cx_disk cx) = 2"
proof -
  define cx0 where "cx0 = (if df_version_table (cx_work (connect f)) then connect f
                  else work_to ((cx_work (connect f))\<lparr>df_version_table := True\<rparr>) (connect f))"
  note c = connect_version_table[OF assms(1), folded cx0_def]
  have "upgrades f (cx_disk cx) \<and> (ok \<longrightarrow> \<not> cx_tx cx \<and> cx_work cx = cx_disk cx \<and> file_version (cx_disk cx) = 2)"
  proof (cases "oe_create env")
    case False
    then show ?thesis using assms by (auto simp: runMigrations_def connect_def upgrades_refl)
  next
    case True
    let ?v = "Suc (readVersion (oe_read env) cx0)"
    have m: "migrate_all (oe_migrate env) [?v..<3] cx0 = (ok, cx)"
      using assms(3) True by (simp add: runMigrations_def kMigrations_nth cx0_def[symmetric] numeral_3_eq_3)
    have "upgrades (cx_disk cx0) (cx_disk cx) \<and> (ok \<longrightarrow> at_rest cx \<and> (?v = 3 \<or> file_version (cx_disk cx) = 2))"
      by (rule migrate_all_steps[OF c(1) _ _ _ _ m]) (use c assms(2) order_trans[OF c(5) assms(2)] in \<open>auto simp: upgrades_def\<close>)
    moreover have "?v = 3 \<Longrightarrow> ok \<Longrightarrow> cx = cx0 \<and> file_version f = 2"
      using m c(5)[of "oe_read env"] assms(2) by auto
    ultimately show ?thesis using c(2,3) upgrades_trans by (auto simp: at_rest_def)
  qed
  then show "upgrades f (cx_disk cx)" "ok \<Longrightarrow> \<not> cx_tx cx \<and> cx_work cx = cx_disk cx \<and> file_version (cx_disk cx) = 2" by auto
qed

text \<open>C26. Whatever statement of opening the database fails, and wherever the program is killed afterwards, the
  file is left as a complete version with all earlier data, never older than before; and if opening
  succeeds the schema is the newest and no transaction is open.\<close>

theorem migrations_are_atomic:
  assumes "file_ok f" "file_version f \<le> 2" "db_open env f = (ok, Some cx)"
  shows "file_ok (sq_close cx) \<and> file_version f \<le> file_version (sq_close cx) \<and> keeps_data f (sq_close cx)
    \<and> (ok \<longrightarrow> df_schema (sq_close cx) = Tables True \<and> \<not> cx_tx cx \<and> cx_work cx = sq_close cx)"
proof -
  have "runMigrations env (connect f) = (ok, cx)"
    using assms(3) by (auto simp: db_open_def split: if_splits prod.splits)
  from runMigrations_steps[OF assms(1,2) this] show ?thesis
    by (auto simp: upgrades_def sq_close_def file_ok_def)
qed

text \<open>Statements that all succeed.\<close>

definition good_migration :: migration_env where
  "good_migration = \<lparr>me_begin = True, me_steps = kBaselineStatements, me_columns = True, me_alter = True, me_write = True,
     me_rollback = True, me_commit = CommitOk\<rparr>"

definition good_open :: open_env where
  "good_open = \<lparr>oe_open = True, oe_create = True, oe_read = True, oe_migrate = (\<lambda>v. good_migration)\<rparr>"

definition fresh_file :: db_file where
  "fresh_file = \<lparr>df_version_table = False, df_versions = [], df_schema = NoTables, df_tables = baseline_tables\<rparr>"

definition old_file :: db_file where
  "old_file = fresh_file\<lparr>df_version_table := True, df_versions := [1], df_schema := Tables False\<rparr>"

lemma file_ok_samples: "file_ok fresh_file" "file_ok old_file" "file_version fresh_file = 0" "file_version old_file = 1"
  by (simp_all add: file_ok_def file_version_def fresh_file_def old_file_def)

theorem migrations_are_atomic_witness:
  "case db_open (good_open\<lparr>oe_migrate := (\<lambda>v. good_migration\<lparr>me_commit := CommitRefused\<rparr>)\<rparr>) old_file of
     (ok, cx) \<Rightarrow> \<not> ok \<and> cx \<noteq> None \<and> file_ok (sq_close (the cx))"
proof -
  let ?r = "db_open (good_open\<lparr>oe_migrate := (\<lambda>v. good_migration\<lparr>me_commit := CommitRefused\<rparr>)\<rparr>) old_file"
  have r: "\<not> fst ?r" "snd ?r \<noteq> None"
    by (simp_all add: db_open_def runMigrations_def good_open_def good_migration_def connect_def old_file_def fresh_file_def
        readVersion_def kMigrations_nth migrate_def sq_begin_def addProviderColumn_def columnExists_def Let_def writeVersion_def
        upt_rec kBaselineStatements_def)
  then have "?r = (fst ?r, Some (the (snd ?r)))" by (simp add: prod_eq_iff)
  from migrations_are_atomic[OF _ _ this] r show ?thesis by (simp add: file_ok_samples split_beta)
qed

lemma migrate_good:
  assumes "at_rest cx" "file_ok (cx_disk cx)" "v = Suc (file_version (cx_disk cx))" "v \<le> 2"
  shows "fst (migrate good_migration v cx)"
proof -
  have "v = 1 \<and> df_schema (cx_disk cx) = NoTables \<or> v = 2 \<and> (df_schema (cx_disk cx) = Tables True \<or> df_schema (cx_disk cx) = Tables False)"
    using assms(2-4) by (auto simp: file_ok_def split: if_splits)
  then show ?thesis
    using assms(1)
    by (auto simp: migrate_def good_migration_def sq_begin_def at_rest_def kMigrations_nth exec_baseline_def addProviderColumn_def
        columnExists_def writeVersion_def Let_def kBaselineStatements_def)
qed

lemma migrate_all_good:
  "at_rest cx \<Longrightarrow> file_ok (cx_disk cx) \<Longrightarrow> v = Suc (file_version (cx_disk cx)) \<Longrightarrow> v \<le> 3 \<Longrightarrow>
   fst (migrate_all (\<lambda>v. good_migration) [v..<3] cx)"
proof (induction "3 - v" arbitrary: v cx)
  case (Suc n)
  then have v: "v \<le> 2" and u: "[v..<3] = v # [Suc v..<3]" by (simp_all add: upt_conv_Cons)
  obtain cx1 where m: "migrate good_migration v cx = (True, cx1)"
    using migrate_good[OF Suc.prems(1-3) v] by (metis prod.collapse)
  note st = migrate_step[OF Suc.prems(1,2) _ v m]
  have "fst (migrate_all (\<lambda>v. good_migration) [Suc v..<3] cx1)"
    by (rule Suc.hyps(1)) (use Suc.hyps(2) Suc.prems(3) st v in \<open>auto simp: upgrades_def\<close>)
  then show ?case by (simp add: u m)
qed simp

text \<open>Several attempts to open the file, each ended by closing it.\<close>

fun attempts :: "open_env list \<Rightarrow> db_file \<Rightarrow> db_file" where
  "attempts [] f = f"
| "attempts (env # envs) f = attempts envs (case snd (db_open env f) of None \<Rightarrow> f | Some cx \<Rightarrow> sq_close cx)"

lemma db_open_upgrades:
  assumes "file_ok f" "file_version f \<le> 2" "db_open env f = (ok, Some cx)"
  shows "upgrades f (sq_close cx)" "ok \<Longrightarrow> \<not> cx_tx cx \<and> cx_work cx = cx_disk cx \<and> file_version (sq_close cx) = 2"
proof -
  have "runMigrations env (connect f) = (ok, cx)"
    using assms(3) by (auto simp: db_open_def split: if_splits prod.splits)
  from runMigrations_steps[OF assms(1,2) this]
  show "upgrades f (sq_close cx)" "ok \<Longrightarrow> \<not> cx_tx cx \<and> cx_work cx = cx_disk cx \<and> file_version (sq_close cx) = 2"
    by (auto simp: sq_close_def)
qed

lemma upgrades_at_most: "upgrades f f' \<Longrightarrow> file_version f \<le> 2 \<Longrightarrow> file_ok f' \<and> file_version f' \<le> 2"
  by (auto simp: upgrades_def max_def split: if_splits)

lemma attempts_upgrade: "file_ok f \<Longrightarrow> file_version f \<le> 2 \<Longrightarrow> upgrades f (attempts envs f)"
proof (induction envs arbitrary: f)
  case (Cons env envs)
  show ?case
  proof (cases "snd (db_open env f)")
    case None
    then show ?thesis using Cons by simp
  next
    case (Some cx)
    then have "db_open env f = (fst (db_open env f), Some cx)" by (simp add: prod_eq_iff)
    note up = db_open_upgrades(1)[OF Cons.prems this]
    show ?thesis using Cons.IH upgrades_at_most[OF up Cons.prems(2)] upgrades_trans[OF up] Some by simp
  qed
qed (simp add: upgrades_refl)

lemma db_open_good:
  assumes "file_ok f" "file_version f \<le> 2"
  shows "fst (db_open good_open f)"
proof -
  define cx0 where "cx0 = (if df_version_table (cx_work (connect f)) then connect f
                  else work_to ((cx_work (connect f))\<lparr>df_version_table := True\<rparr>) (connect f))"
  note c = connect_version_table[OF assms(1), folded cx0_def]
  have "fst (migrate_all (\<lambda>v. good_migration) [Suc (file_version f)..<3] cx0)"
    by (rule migrate_all_good) (use c assms(2) in \<open>auto simp: upgrades_def\<close>)
  moreover have "fst (db_open good_open f) = fst (runMigrations good_open (connect f))"
    by (simp add: db_open_def good_open_def split_beta)
  moreover have "runMigrations good_open (connect f) = migrate_all (\<lambda>v. good_migration) [Suc (file_version f)..<3] cx0"
    using runMigrations_eq[OF assms(1), of good_open] by (simp add: good_open_def cx0_def del: upt_Suc upt_rec_numeral)
  ultimately show ?thesis by simp
qed

lemma reopen_newest:
  assumes "file_ok f" "file_version f = 2"
  shows "db_open good_open f = (True, Some (connect f))"
proof -
  have "df_version_table f" using assms by (auto simp: file_ok_def file_version_def split: if_splits)
  moreover have "readVersion True (connect f) = 2"
    using assms calculation by (auto simp: readVersion_def connect_def file_version_def split: if_splits)
  ultimately show ?thesis
    by (simp add: db_open_def good_open_def runMigrations_def kMigrations_nth connect_def)
qed

text \<open>After any number of failed attempts an attempt whose statements succeed brings the database to the
  newest version with its data, and opening it once more changes nothing.\<close>

theorem migrations_resume:
  assumes "file_ok f" "file_version f \<le> 2" "db_open good_open (attempts envs f) = (ok, Some cx)"
  shows "ok \<and> file_version (sq_close cx) = 2 \<and> keeps_data f (sq_close cx)
    \<and> db_open good_open (sq_close cx) = (True, Some (connect (sq_close cx)))"
proof -
  note a = attempts_upgrade[OF assms(1,2), of envs]
  note b = upgrades_at_most[OF a assms(2)]
  have ok: "ok" using db_open_good[of "attempts envs f"] b assms(3) by simp
  note o = db_open_upgrades[OF conjunct1[OF b] conjunct2[OF b] assms(3)]
  have "upgrades f (sq_close cx)" by (rule upgrades_trans[OF a o(1)])
  moreover have "file_version (sq_close cx) = 2" using o(2) ok by simp
  ultimately show ?thesis using ok reopen_newest[of "sq_close cx"] by (auto simp: upgrades_def)
qed

theorem migrations_resume_witness:
  "file_version (sq_close (the (snd (db_open good_open
     (attempts [good_open\<lparr>oe_migrate := (\<lambda>v. good_migration\<lparr>me_steps := 5\<rparr>)\<rparr>] fresh_file))))) = 2"
proof -
  let ?r = "db_open good_open (attempts [good_open\<lparr>oe_migrate := (\<lambda>v. good_migration\<lparr>me_steps := 5\<rparr>)\<rparr>] fresh_file)"
  have "?r = (fst ?r, Some (the (snd ?r)))"
    by (simp add: prod_eq_iff db_open_def good_open_def split_beta)
  from migrations_resume[OF _ _ this] show ?thesis by (simp add: file_ok_samples)
qed

subsection \<open>A session inside a refused migration\<close>

text \<open>What the managers write during the session, each write its own statement.\<close>

definition session_writes :: "(tables \<Rightarrow> tables) list \<Rightarrow> connection \<Rightarrow> connection" where
  "session_writes gs cx = fold (\<lambda>g cx. work_to ((cx_work cx)\<lparr>df_tables := g (df_tables (cx_work cx))\<rparr>) cx) gs cx"

lemma session_in_tx:
  "cx_tx cx \<Longrightarrow> cx_tx (session_writes gs cx) \<and> cx_disk (session_writes gs cx) = cx_disk cx \<and>
     df_tables (cx_work (session_writes gs cx)) = fold (\<lambda>g. g) gs (df_tables (cx_work cx))"
  unfolding session_writes_def by (induction gs arbitrary: cx) simp_all

text \<open>C27. When a COMMIT is refused (a busy database) opening fails, but the connection stays, inside the
  transaction: the session works, and at its end everything it has saved is gone.\<close>

theorem refused_commit_loses_session:
  assumes "file_ok f" "file_version f < 2"
    and "db_open (good_open\<lparr>oe_migrate := (\<lambda>v. good_migration\<lparr>me_commit := CommitRefused\<rparr>)\<rparr>) f = (ok, Some cx)"
  shows "\<not> ok \<and> file_version (sq_close (session_writes gs cx)) = file_version f
    \<and> df_tables (cx_work (session_writes gs cx)) = fold (\<lambda>g. g) gs (df_tables (cx_work cx))
    \<and> sq_close (session_writes gs cx) = sq_close cx \<and> \<not> fst (sq_begin True (session_writes gs cx))"
proof -
  let ?env = "good_migration\<lparr>me_commit := CommitRefused\<rparr>"
  define cx0 where "cx0 = (if df_version_table (cx_work (connect f)) then connect f
                  else work_to ((cx_work (connect f))\<lparr>df_version_table := True\<rparr>) (connect f))"
  note c = connect_version_table[OF assms(1), folded cx0_def]
  let ?v = "Suc (file_version f)"
  have rest: "at_rest cx0" "file_ok (cx_disk cx0)" "file_version (cx_disk cx0) = file_version f"
    using c by (auto simp: upgrades_def)
  have "?v = 1 \<and> df_schema (cx_disk cx0) = NoTables \<or> ?v = 2 \<and> (df_schema (cx_disk cx0) = Tables True \<or> df_schema (cx_disk cx0) = Tables False)"
    using rest(2,3) assms(2) by (auto simp: file_ok_def split: if_splits)
  then obtain cx1 where m: "migrate ?env ?v cx0 = (False, cx1)" and t: "cx_tx cx1" "cx_disk cx1 = cx_disk cx0"
    using rest(1) by (auto simp: migrate_def good_migration_def sq_begin_def at_rest_def kMigrations_nth exec_baseline_def
        addProviderColumn_def columnExists_def writeVersion_def Let_def kBaselineStatements_def)
  have "[?v..<3] = ?v # [Suc ?v..<3]" using assms(2) by (simp add: upt_conv_Cons)
  then have "(ok, cx) = (False, cx1)"
    using assms(3) m runMigrations_eq[OF assms(1), of "good_open\<lparr>oe_migrate := (\<lambda>v. ?env)\<rparr>", folded cx0_def]
    by (auto simp: db_open_def good_open_def split: prod.splits)
  then show ?thesis
    using session_in_tx[OF t(1), of gs] t(2) rest(3) by (simp add: sq_close_def sq_begin_def)
qed

theorem refused_commit_loses_session_witness:
  "let r = db_open (good_open\<lparr>oe_migrate := (\<lambda>v. good_migration\<lparr>me_commit := CommitRefused\<rparr>)\<rparr>) old_file
   in \<not> fst r \<and> file_version (sq_close (session_writes [\<lambda>t. t\<lparr>t_settings := []\<rparr>] (the (snd r)))) = 1"
proof -
  let ?r = "db_open (good_open\<lparr>oe_migrate := (\<lambda>v. good_migration\<lparr>me_commit := CommitRefused\<rparr>)\<rparr>) old_file"
  have "?r = (fst ?r, Some (the (snd ?r)))" by (simp add: prod_eq_iff db_open_def good_open_def split_beta)
  moreover have "file_version old_file < 2" by (simp add: file_ok_samples)
  ultimately show ?thesis
    using refused_commit_loses_session[OF file_ok_samples(2), of "fst ?r" "the (snd ?r)" "[\<lambda>t. t\<lparr>t_settings := []\<rparr>]"]
    unfolding Let_def file_ok_samples by fast
qed

end
