(* ===== verification/AccountsControl.thy ===== *)
theory AccountsControl imports AccountsInv RowModel begin

text \<open>
  \<open>core/AccountsController.{h,cpp}\<close> with \<open>models/AccountsModel.{h,cpp}\<close>: what the user interface does with
  the accounts.  The controller translates dialogs into accounts, keeps the list model and the
  registered count in step with the manager, announces failed registrations, and sends STUN servers
  and codec priorities to the backend.  It hears the manager's \<open>registrationStateChanged\<close> through queued
  calls: the environment delivers the oldest one at any time.  Pointers are set, as \<open>CoreSipGraph\<close> sets
  them, and texts are not translated.
\<close>

subsection \<open>The list model\<close>

datatype accounts_role =
    ArIdRole | ArDisplayNameRole | ArUsernameRole | ArDomainRole | ArTransportRole | ArIsDefaultRole
  | ArEnabledRole | ArRegistrationStateRole | ArRegistrationErrorRole | ArLabelRole | ArProviderRole

fun regStateString :: "registration_state \<Rightarrow> string" where
  "regStateString Unregistered = ''unregistered''"
| "regStateString Registering = ''registering''"
| "regStateString Registered = ''registered''"
| "regStateString Failed = ''failed''"

text \<open>Registration roles are read from the manager when the view asks.\<close>

fun accounts_data :: "('b, 'k) accounts_manager \<Rightarrow> account \<Rightarrow> accounts_role \<Rightarrow> role_value" where
  "accounts_data am a ArIdRole = RvInt (acc_id a)"
| "accounts_data am a ArDisplayNameRole = RvString (acc_displayName a)"
| "accounts_data am a ArUsernameRole = RvString (acc_username a)"
| "accounts_data am a ArDomainRole = RvString (acc_domain a)"
| "accounts_data am a ArTransportRole = RvString (transportToString (acc_transport a))"
| "accounts_data am a ArIsDefaultRole = RvBool (acc_isDefault a)"
| "accounts_data am a ArEnabledRole = RvBool (acc_enabled a)"
| "accounts_data am a ArRegistrationStateRole = RvString (regStateString (stateOf (acc_id a) am))"
| "accounts_data am a ArRegistrationErrorRole =
     (let err = lastRegErrorOf (acc_id a) am
      in RvString (if re_code err > 0 \<and> re_reason err \<noteq> [] then int_to_string (re_code err) @ '' '' @ re_reason err
                   else if re_code err > 0 then int_to_string (re_code err) else re_reason err))"
| "accounts_data am a ArLabelRole = RvString (if acc_label a = [] then acc_displayName a else acc_label a)"
| "accounts_data am a ArProviderRole = RvString (acc_provider a)"

fun accounts_role_name :: "accounts_role \<Rightarrow> string" where
  "accounts_role_name ArIdRole = ''accountId''"
| "accounts_role_name ArDisplayNameRole = ''displayName''"
| "accounts_role_name ArUsernameRole = ''username''"
| "accounts_role_name ArDomainRole = ''domain''"
| "accounts_role_name ArTransportRole = ''transport''"
| "accounts_role_name ArIsDefaultRole = ''isDefault''"
| "accounts_role_name ArEnabledRole = ''enabled''"
| "accounts_role_name ArRegistrationStateRole = ''registrationState''"
| "accounts_role_name ArRegistrationErrorRole = ''registrationError''"
| "accounts_role_name ArLabelRole = ''label''"
| "accounts_role_name ArProviderRole = ''provider''"

datatype accounts_model_signal = ModelReset | CountChanged | RegistrationRolesChanged nat

record accounts_model =
  mo_snapshot :: "account list"
  mo_signals :: "accounts_model_signal list"

definition accounts_data_at :: "('b, 'k) accounts_manager \<Rightarrow> accounts_model \<Rightarrow> int \<Rightarrow> accounts_role \<Rightarrow> role_value option" where
  "accounts_data_at am mo row role =
     (if row < 0 \<or> row \<ge> int (length (mo_snapshot mo)) then None
      else Some (accounts_data am (mo_snapshot mo ! nat row) role))"

definition accounts_refresh :: "('b, 'k) accounts_manager \<Rightarrow> accounts_model \<Rightarrow> accounts_model" where
  "accounts_refresh am mo =
     (let before = length (mo_snapshot mo)
      in mo\<lparr>mo_snapshot := am_list am,
            mo_signals := mo_signals mo @ [ModelReset] @ (if length (am_list am) \<noteq> before then [CountChanged] else [])\<rparr>)"

definition accounts_model_new :: "('b, 'k) accounts_manager \<Rightarrow> accounts_model" where
  "accounts_model_new am = accounts_refresh am \<lparr>mo_snapshot = [], mo_signals = []\<rparr>"

definition notifyRegistrationChanged :: "account_id \<Rightarrow> accounts_model \<Rightarrow> accounts_model" where
  "notifyRegistrationChanged i mo =
     (case find_row (\<lambda>a. acc_id a = i) (mo_snapshot mo) of
        None \<Rightarrow> mo
      | Some row \<Rightarrow> mo\<lparr>mo_signals := mo_signals mo @ [RegistrationRolesChanged row]\<rparr>)"

subsection \<open>Dialog parameters\<close>

text \<open>A \<open>QVariantMap\<close> of strings, booleans and integers, with Qt's conversions.\<close>

type_synonym params = "string \<Rightarrow> role_value option"

fun q_toString :: "role_value \<Rightarrow> string" where
  "q_toString (RvString s) = s"
| "q_toString (RvBool b) = (if b then ''true'' else ''false'')"
| "q_toString (RvInt i) = int_to_string i"

fun q_toBool :: "role_value \<Rightarrow> bool" where
  "q_toBool (RvString s) = (map q_lower s \<notin> set [[], ''0'', ''false''])"
| "q_toBool (RvBool b) = b"
| "q_toBool (RvInt i) = (i \<noteq> 0)"

fun q_toInteger :: "role_value \<Rightarrow> int" where
  "q_toInteger (RvString s) = (case q_toInt s of None \<Rightarrow> 0 | Some i \<Rightarrow> i)"
| "q_toInteger (RvBool b) = (if b then 1 else 0)"
| "q_toInteger (RvInt i) = i"

definition param_bool :: "params \<Rightarrow> string \<Rightarrow> bool" where
  "param_bool p k = (case p k of None \<Rightarrow> False | Some v \<Rightarrow> q_toBool v)"

definition param_string :: "params \<Rightarrow> string \<Rightarrow> string" where
  "param_string p k = (case p k of None \<Rightarrow> [] | Some v \<Rightarrow> q_toString v)"

text \<open>One line of \<open>applyParams\<close>: the field is written when the key is there.\<close>

definition str_param :: "params \<Rightarrow> string \<Rightarrow> (string \<Rightarrow> account \<Rightarrow> account) \<Rightarrow> account \<Rightarrow> account" where
  "str_param p k put a = (case p k of None \<Rightarrow> a | Some v \<Rightarrow> put (q_toString v) a)"

definition bool_param :: "params \<Rightarrow> string \<Rightarrow> (bool \<Rightarrow> account \<Rightarrow> account) \<Rightarrow> account \<Rightarrow> account" where
  "bool_param p k put a = (case p k of None \<Rightarrow> a | Some v \<Rightarrow> put (q_toBool v) a)"

definition int_param :: "params \<Rightarrow> string \<Rightarrow> (int \<Rightarrow> account \<Rightarrow> account) \<Rightarrow> account \<Rightarrow> account" where
  "int_param p k put a = (case p k of None \<Rightarrow> a | Some v \<Rightarrow> put (q_toInteger v) a)"

definition default_authUser :: "account \<Rightarrow> account" where
  "default_authUser a = (if acc_authUser a = [] then a\<lparr>acc_authUser := acc_username a\<rparr> else a)"

definition applyParams :: "params \<Rightarrow> account \<Rightarrow> account" where
  "applyParams p =
     int_param p ''sortOrder'' (\<lambda>v a. a\<lparr>acc_sortOrder := v\<rparr>) \<circ>
     bool_param p ''isDefault'' (\<lambda>v a. a\<lparr>acc_isDefault := v\<rparr>) \<circ>
     bool_param p ''enabled'' (\<lambda>v a. a\<lparr>acc_enabled := v\<rparr>) \<circ>
     str_param p ''dtmfMethod'' (\<lambda>v a. a\<lparr>acc_dtmfMethod := dtmfMethodFromString v\<rparr>) \<circ>
     bool_param p ''allowUntrustedCert'' (\<lambda>v a. a\<lparr>acc_allowUntrustedCert := v\<rparr>) \<circ>
     str_param p ''srtpMode'' (\<lambda>v a. a\<lparr>acc_srtpMode := srtpModeFromString v\<rparr>) \<circ>
     bool_param p ''zrtpEnabled'' (\<lambda>v a. a\<lparr>acc_zrtpEnabled := v\<rparr>) \<circ>
     bool_param p ''hideCallerId'' (\<lambda>v a. a\<lparr>acc_hideCallerId := v\<rparr>) \<circ>
     bool_param p ''iceEnabled'' (\<lambda>v a. a\<lparr>acc_iceEnabled := v\<rparr>) \<circ>
     bool_param p ''publishPresenceEnabled'' (\<lambda>v a. a\<lparr>acc_publishPresenceEnabled := v\<rparr>) \<circ>
     bool_param p ''sessionTimersEnabled'' (\<lambda>v a. a\<lparr>acc_sessionTimersEnabled := v\<rparr>) \<circ>
     int_param p ''keepaliveIntervalSec'' (\<lambda>v a. a\<lparr>acc_keepaliveIntervalSec := v\<rparr>) \<circ>
     int_param p ''registerIntervalSec'' (\<lambda>v a. a\<lparr>acc_registerIntervalSec := v\<rparr>) \<circ>
     bool_param p ''registerOnStartup'' (\<lambda>v a. a\<lparr>acc_registerOnStartup := v\<rparr>) \<circ>
     str_param p ''voicemailNumber'' (\<lambda>v a. a\<lparr>acc_voicemailNumber := v\<rparr>) \<circ>
     str_param p ''codecs'' (\<lambda>v a. a\<lparr>acc_codecs := v\<rparr>) \<circ>
     str_param p ''publicAddress'' (\<lambda>v a. a\<lparr>acc_publicAddress := v\<rparr>) \<circ>
     str_param p ''stunServer'' (\<lambda>v a. a\<lparr>acc_stunServer := v\<rparr>) \<circ>
     str_param p ''proxy'' (\<lambda>v a. a\<lparr>acc_proxy := v\<rparr>) \<circ>
     str_param p ''transport'' (\<lambda>v a. a\<lparr>acc_transport := transportFromString v\<rparr>) \<circ>
     default_authUser \<circ>
     str_param p ''authRealm'' (\<lambda>v a. a\<lparr>acc_authRealm := v\<rparr>) \<circ>
     str_param p ''authUser'' (\<lambda>v a. a\<lparr>acc_authUser := v\<rparr>) \<circ>
     str_param p ''domain'' (\<lambda>v a. a\<lparr>acc_domain := v\<rparr>) \<circ>
     str_param p ''username'' (\<lambda>v a. a\<lparr>acc_username := v\<rparr>) \<circ>
     str_param p ''displayName'' (\<lambda>v a. a\<lparr>acc_displayName := v\<rparr>) \<circ>
     str_param p ''provider'' (\<lambda>v a. a\<lparr>acc_provider := v\<rparr>) \<circ>
     str_param p ''label'' (\<lambda>v a. a\<lparr>acc_label := v\<rparr>)"

definition snapshot_fields :: "account \<Rightarrow> (string \<times> role_value) list" where
  "snapshot_fields a =
     [(''accountId'', RvInt (acc_id a)), (''label'', RvString (acc_label a)), (''provider'', RvString (acc_provider a)),
      (''displayName'', RvString (acc_displayName a)), (''username'', RvString (acc_username a)),
      (''domain'', RvString (acc_domain a)), (''authUser'', RvString (acc_authUser a)),
      (''authRealm'', RvString (acc_authRealm a)), (''transport'', RvString (transportToString (acc_transport a))),
      (''proxy'', RvString (acc_proxy a)), (''stunServer'', RvString (acc_stunServer a)),
      (''publicAddress'', RvString (acc_publicAddress a)), (''codecs'', RvString (acc_codecs a)),
      (''voicemailNumber'', RvString (acc_voicemailNumber a)), (''registerOnStartup'', RvBool (acc_registerOnStartup a)),
      (''registerIntervalSec'', RvInt (acc_registerIntervalSec a)),
      (''keepaliveIntervalSec'', RvInt (acc_keepaliveIntervalSec a)),
      (''sessionTimersEnabled'', RvBool (acc_sessionTimersEnabled a)),
      (''publishPresenceEnabled'', RvBool (acc_publishPresenceEnabled a)), (''iceEnabled'', RvBool (acc_iceEnabled a)),
      (''hideCallerId'', RvBool (acc_hideCallerId a)), (''zrtpEnabled'', RvBool (acc_zrtpEnabled a)),
      (''srtpMode'', RvString (srtpModeToString (acc_srtpMode a))),
      (''allowUntrustedCert'', RvBool (acc_allowUntrustedCert a)),
      (''dtmfMethod'', RvString (dtmfMethodToString (acc_dtmfMethod a))), (''enabled'', RvBool (acc_enabled a)),
      (''isDefault'', RvBool (acc_isDefault a)), (''sortOrder'', RvInt (acc_sortOrder a))]"

definition accountSnapshot :: "account_id \<Rightarrow> ('b, 'k) accounts_manager \<Rightarrow> params" where
  "accountSnapshot i am = (case am_find i am of None \<Rightarrow> (\<lambda>_. None) | Some a \<Rightarrow> map_of (snapshot_fields a))"

subsection \<open>The controller\<close>

datatype accounts_signal = RegisteredAccountCountChanged | ActiveAccountIdChanged | RegistrationFailed string

record ('b, 'k) accounts_controller =
  ac_accounts :: "('b, 'k) accounts_manager"
  ac_model :: accounts_model
  ac_registeredAccountCount :: int
  ac_activeAccountId :: int
  ac_lastState :: "account_id \<Rightarrow> registration_state option"
  ac_queued :: "(account_id \<times> registration_state) list"
  ac_signals :: "accounts_signal list"

text \<open>A step of the manager; its registration signals are queued for the controller.\<close>

definition reg_signals :: "am_signal list \<Rightarrow> (account_id \<times> registration_state) list" where
  "reg_signals ss = concat (map (\<lambda>s. case s of RegistrationStateChanged i st \<Rightarrow> [(i, st)] | _ \<Rightarrow> []) ss)"

definition on_manager ::
  "(('b, 'k) accounts_manager \<Rightarrow> 'r \<times> ('b, 'k) accounts_manager) \<Rightarrow>
   ('b, 'k) accounts_controller \<Rightarrow> 'r \<times> ('b, 'k) accounts_controller" where
  "on_manager f ac =
     (let am = ac_accounts ac in
      case f (am\<lparr>am_signals := []\<rparr>) of (r, am1) \<Rightarrow>
        (r, ac\<lparr>ac_accounts := am1\<lparr>am_signals := am_signals am @ am_signals am1\<rparr>,
               ac_queued := ac_queued ac @ reg_signals (am_signals am1)\<rparr>))"

definition ac_emit :: "accounts_signal \<Rightarrow> ('b, 'k) accounts_controller \<Rightarrow> ('b, 'k) accounts_controller" where
  "ac_emit s ac = ac\<lparr>ac_signals := ac_signals ac @ [s]\<rparr>"

definition refreshModel :: "('b, 'k) accounts_controller \<Rightarrow> ('b, 'k) accounts_controller" where
  "refreshModel ac = ac\<lparr>ac_model := accounts_refresh (ac_accounts ac) (ac_model ac)\<rparr>"

definition count_registered :: "('b, 'k) accounts_manager \<Rightarrow> int" where
  "count_registered am = int (length (filter (\<lambda>a. stateOf (acc_id a) am = Registered) (am_list am)))"

definition refreshRegisteredAccountCount :: "('b, 'k) accounts_controller \<Rightarrow> ('b, 'k) accounts_controller" where
  "refreshRegisteredAccountCount ac =
     (let n = count_registered (ac_accounts ac) in
      if n = ac_registeredAccountCount ac then ac
      else ac_emit RegisteredAccountCountChanged (ac\<lparr>ac_registeredAccountCount := n\<rparr>))"

text \<open>The servers in order of first appearance.\<close>

fun first_seen :: "string list \<Rightarrow> string list \<Rightarrow> string list" where
  "first_seen seen [] = []"
| "first_seen seen (s # ss) = (if s \<in> set seen then first_seen seen ss else s # first_seen (s # seen) ss)"

definition stun_servers :: "account list \<Rightarrow> string list" where
  "stun_servers as = first_seen [] (map acc_stunServer (filter (\<lambda>a. acc_enabled a \<and> acc_stunServer a \<noteq> []) as))"

definition chosen_codecs :: "account list \<Rightarrow> string" where
  "chosen_codecs as =
     (let own = (case find (\<lambda>a. acc_enabled a \<and> acc_isDefault a) as of Some a \<Rightarrow> acc_codecs a | None \<Rightarrow> []) in
      if own \<noteq> [] then own
      else case find (\<lambda>a. acc_enabled a \<and> acc_codecs a \<noteq> []) as of Some a \<Rightarrow> acc_codecs a | None \<Rightarrow> [])"

definition codec_order :: "string \<Rightarrow> string list" where
  "codec_order codecs =
     filter (\<lambda>t. t \<noteq> []) (map (trim_with (\<lambda>c. c = CHR '' '' \<or> c = CHR 0x09)) (split_char (CHR '','') codecs))"

definition pushNetworkAndCodecSettings :: "'b isip_backend \<Rightarrow> ('b, 'k) accounts_controller \<Rightarrow> ('b, 'k) accounts_controller" where
  "pushNetworkAndCodecSettings B ac =
     (let am = ac_accounts ac;
          b1 = bk_setStunServers B (am_backend am) (stun_servers (am_list am));
          codecs = chosen_codecs (am_list am);
          b2 = (if codecs = [] then b1 else bk_setCodecPriority B b1 (codec_order codecs))
      in ac\<lparr>ac_accounts := am\<lparr>am_backend := b2\<rparr>\<rparr>)"

definition ac_new :: "'b isip_backend \<Rightarrow> ('b, 'k) accounts_manager \<Rightarrow> ('b, 'k) accounts_controller" where
  "ac_new B am =
     pushNetworkAndCodecSettings B (refreshRegisteredAccountCount
       \<lparr>ac_accounts = am, ac_model = accounts_model_new am, ac_registeredAccountCount = 0, ac_activeAccountId = -1,
        ac_lastState = (\<lambda>_. None), ac_queued = [], ac_signals = []\<rparr>)"

subsection \<open>A registration signal\<close>

definition failure_detail :: "reg_error \<Rightarrow> string" where
  "failure_detail err =
     (if re_code err > 0 \<and> re_reason err \<noteq> [] then int_to_string (re_code err) @ '' '' @ re_reason err
      else if re_code err > 0 then int_to_string (re_code err)
      else if re_reason err \<noteq> [] then re_reason err
      else ''transport error'')"

text \<open>The dash between label and text is UTF-8.\<close>

definition failure_message :: "account_id \<Rightarrow> ('b, 'k) accounts_manager \<Rightarrow> string" where
  "failure_message i am =
     (let label = (case am_find i am of None \<Rightarrow> [] | Some a \<Rightarrow> if acc_label a = [] then acc_displayName a else acc_label a);
          detail = failure_detail (lastRegErrorOf i am)
      in if label = [] then ''Registration failed: '' @ detail
         else label @ '' '' @ [CHR 0xE2, CHR 0x80, CHR 0x94] @ '' registration failed: '' @ detail)"

definition on_registration :: "account_id \<Rightarrow> registration_state \<Rightarrow> ('b, 'k) accounts_controller \<Rightarrow> ('b, 'k) accounts_controller" where
  "on_registration i s ac =
     (let isNewFailure = (s = Failed \<and> ac_lastState ac i \<noteq> Some s);
          ac1 = ac\<lparr>ac_lastState := (ac_lastState ac)(i \<mapsto> s), ac_model := notifyRegistrationChanged i (ac_model ac)\<rparr>;
          ac2 = ac_emit ActiveAccountIdChanged (refreshRegisteredAccountCount ac1)
      in if isNewFailure then ac_emit (RegistrationFailed (failure_message i (ac_accounts ac2))) ac2 else ac2)"

definition deliver_registration :: "('b, 'k) accounts_controller \<Rightarrow> ('b, 'k) accounts_controller" where
  "deliver_registration ac =
     (case ac_queued ac of [] \<Rightarrow> ac | (i, s) # q \<Rightarrow> on_registration i s (ac\<lparr>ac_queued := q\<rparr>))"

subsection \<open>Commands\<close>

text \<open>\<open>f\<close> and \<open>g\<close> are the outcomes of the statements of the first and of a second manager operation.\<close>

definition addAccount ::
  "'b isip_backend \<Rightarrow> 'k ikeychain \<Rightarrow> (nat \<Rightarrow> bool) \<Rightarrow> (nat \<Rightarrow> bool) \<Rightarrow> string \<Rightarrow> params \<Rightarrow>
   ('b, 'k) accounts_controller \<Rightarrow> account_id \<times> ('b, 'k) accounts_controller" where
  "addAccount B K f g ref p ac =
     (let wantsDefault = param_bool p ''isDefault'';
          firstAccount = (am_list (ac_accounts ac) = []);
          a = default_authUser ((applyParams p default_account)
                \<lparr>acc_isDefault := (if p ''isDefault'' \<noteq> None then wantsDefault \<and> firstAccount else firstAccount),
                 acc_enabled := (case p ''enabled'' of Some v \<Rightarrow> q_toBool v | None \<Rightarrow> True)\<rparr>)
      in case on_manager (am_add B K f ref a (param_string p ''password'')) ac of (i, ac1) \<Rightarrow>
        (i, pushNetworkAndCodecSettings B (refreshModel
              (if i \<noteq> kInvalidAccountId \<and> wantsDefault \<and> \<not> acc_isDefault a then snd (on_manager (am_setDefault g i) ac1) else ac1))))"

definition removeAccount ::
  "'b isip_backend \<Rightarrow> 'k ikeychain \<Rightarrow> (nat \<Rightarrow> bool) \<Rightarrow> account_id \<Rightarrow>
   ('b, 'k) accounts_controller \<Rightarrow> bool \<times> ('b, 'k) accounts_controller" where
  "removeAccount B K f i ac =
     (case on_manager (am_remove B K f i) ac of (ok, ac1) \<Rightarrow>
        (ok, if ok then ac_emit ActiveAccountIdChanged (pushNetworkAndCodecSettings B
                         (refreshRegisteredAccountCount (refreshModel ac1)))
             else ac1))"

definition updateAccount ::
  "'b isip_backend \<Rightarrow> 'k ikeychain \<Rightarrow> (nat \<Rightarrow> bool) \<Rightarrow> (nat \<Rightarrow> bool) \<Rightarrow> account_id \<Rightarrow> params \<Rightarrow>
   ('b, 'k) accounts_controller \<Rightarrow> bool \<times> ('b, 'k) accounts_controller" where
  "updateAccount B K f g i p ac =
     (case am_find i (ac_accounts ac) of
        None \<Rightarrow> (False, ac)
      | Some current \<Rightarrow>
          (case on_manager (am_update B K f (default_authUser (applyParams p current))) ac of
             (False, ac1) \<Rightarrow> (False, ac1)
           | (True, ac1) \<Rightarrow>
               (let ac2 = (if param_bool p ''isDefault'' then snd (on_manager (am_setDefault g i) ac1) else ac1);
                    newPassword = param_string p ''password'';
                    ac3 = (if newPassword \<noteq> [] then snd (on_manager (am_setPassword B K i newPassword) ac2) else ac2)
                in (True, ac_emit ActiveAccountIdChanged (pushNetworkAndCodecSettings B
                            (refreshRegisteredAccountCount (refreshModel ac3)))))))"

definition setDefaultAccount ::
  "'b isip_backend \<Rightarrow> (nat \<Rightarrow> bool) \<Rightarrow> account_id \<Rightarrow> ('b, 'k) accounts_controller \<Rightarrow> bool \<times> ('b, 'k) accounts_controller" where
  "setDefaultAccount B f i ac =
     (case on_manager (am_setDefault f i) ac of (ok, ac1) \<Rightarrow>
        (ok, if ok then ac_emit ActiveAccountIdChanged (pushNetworkAndCodecSettings B (refreshModel ac1)) else ac1))"

definition setAccountEnabled ::
  "'b isip_backend \<Rightarrow> 'k ikeychain \<Rightarrow> (nat \<Rightarrow> bool) \<Rightarrow> account_id \<Rightarrow> bool \<Rightarrow>
   ('b, 'k) accounts_controller \<Rightarrow> bool \<times> ('b, 'k) accounts_controller" where
  "setAccountEnabled B K f i enabled ac =
     (case on_manager (am_setEnabled B K f i enabled) ac of (ok, ac1) \<Rightarrow>
        (ok, if ok then ac_emit ActiveAccountIdChanged (pushNetworkAndCodecSettings B
                         (refreshRegisteredAccountCount (refreshModel ac1)))
             else ac1))"

definition usable :: "('b, 'k) accounts_manager \<Rightarrow> account \<Rightarrow> bool" where
  "usable am a \<longleftrightarrow> acc_enabled a \<and> stateOf (acc_id a) am = Registered"

definition activeAccountId :: "('b, 'k) accounts_controller \<Rightarrow> int" where
  "activeAccountId ac =
     (let am = ac_accounts ac; as = am_list am; chosen = ac_activeAccountId ac in
      if chosen > 0 \<and> list_ex (\<lambda>a. acc_id a = chosen \<and> usable am a) as then chosen
      else case find (\<lambda>a. acc_isDefault a \<and> usable am a) as of
        Some a \<Rightarrow> acc_id a
      | None \<Rightarrow> (case find (usable am) as of Some a \<Rightarrow> acc_id a | None \<Rightarrow> -1))"

definition setActiveAccountId :: "int \<Rightarrow> ('b, 'k) accounts_controller \<Rightarrow> ('b, 'k) accounts_controller" where
  "setActiveAccountId i ac =
     (if ac_activeAccountId ac = i then ac else ac_emit ActiveAccountIdChanged (ac\<lparr>ac_activeAccountId := i\<rparr>))"

text \<open>What else happens to the manager: events of the backend, a network change or a wake-up.\<close>

definition on_backend_event :: "listener_event \<Rightarrow> ('b, 'k) accounts_controller \<Rightarrow> ('b, 'k) accounts_controller" where
  "on_backend_event ev ac = snd (on_manager (\<lambda>am. ((), am_event ev am)) ac)"

definition on_network_back :: "'b isip_backend \<Rightarrow> 'k ikeychain \<Rightarrow> ('b, 'k) accounts_controller \<Rightarrow> ('b, 'k) accounts_controller" where
  "on_network_back B K ac = snd (on_manager (\<lambda>am. ((), reregisterAllEnabled B K am)) ac)"

datatype ac_op =
    AcAdd "nat \<Rightarrow> bool" "nat \<Rightarrow> bool" string params
  | AcRemove "nat \<Rightarrow> bool" account_id
  | AcUpdate "nat \<Rightarrow> bool" "nat \<Rightarrow> bool" account_id params
  | AcSetDefault "nat \<Rightarrow> bool" account_id
  | AcSetEnabled "nat \<Rightarrow> bool" account_id bool
  | AcSetActive int
  | AcEvent listener_event
  | AcNetworkBack
  | AcDeliver

fun ac_apply :: "'b isip_backend \<Rightarrow> 'k ikeychain \<Rightarrow> ac_op \<Rightarrow> ('b, 'k) accounts_controller \<Rightarrow> ('b, 'k) accounts_controller" where
  "ac_apply B K (AcAdd f g ref p) ac = snd (addAccount B K f g ref p ac)"
| "ac_apply B K (AcRemove f i) ac = snd (removeAccount B K f i ac)"
| "ac_apply B K (AcUpdate f g i p) ac = snd (updateAccount B K f g i p ac)"
| "ac_apply B K (AcSetDefault f i) ac = snd (setDefaultAccount B f i ac)"
| "ac_apply B K (AcSetEnabled f i v) ac = snd (setAccountEnabled B K f i v ac)"
| "ac_apply B K (AcSetActive i) ac = setActiveAccountId i ac"
| "ac_apply B K (AcEvent ev) ac = on_backend_event ev ac"
| "ac_apply B K AcNetworkBack ac = on_network_back B K ac"
| "ac_apply B K AcDeliver ac = deliver_registration ac"

fun ac_run :: "'b isip_backend \<Rightarrow> 'k ikeychain \<Rightarrow> ac_op list \<Rightarrow> ('b, 'k) accounts_controller \<Rightarrow> ('b, 'k) accounts_controller" where
  "ac_run B K [] ac = ac"
| "ac_run B K (op # ops) ac = ac_run B K ops (ac_apply B K op ac)"

end
