(* ===== verification/AccountsView.thy ===== *)
theory AccountsView imports AccountsControl begin

text \<open>
  What the user sees of the accounts: the list model, the registered count and the network settings
  follow the manager through every operation of \<open>AccountsControl\<close>; dialogs lose nothing; which account is
  dialled from; and when the count and the failure notices fall behind.
\<close>

subsection \<open>The account dialog\<close>

lemma snapshot_lookup:
  "map_of (snapshot_fields a) ''label'' = Some (RvString (acc_label a))"
  "map_of (snapshot_fields a) ''provider'' = Some (RvString (acc_provider a))"
  "map_of (snapshot_fields a) ''displayName'' = Some (RvString (acc_displayName a))"
  "map_of (snapshot_fields a) ''username'' = Some (RvString (acc_username a))"
  "map_of (snapshot_fields a) ''domain'' = Some (RvString (acc_domain a))"
  "map_of (snapshot_fields a) ''authUser'' = Some (RvString (acc_authUser a))"
  "map_of (snapshot_fields a) ''authRealm'' = Some (RvString (acc_authRealm a))"
  "map_of (snapshot_fields a) ''transport'' = Some (RvString (transportToString (acc_transport a)))"
  "map_of (snapshot_fields a) ''proxy'' = Some (RvString (acc_proxy a))"
  "map_of (snapshot_fields a) ''stunServer'' = Some (RvString (acc_stunServer a))"
  "map_of (snapshot_fields a) ''publicAddress'' = Some (RvString (acc_publicAddress a))"
  "map_of (snapshot_fields a) ''codecs'' = Some (RvString (acc_codecs a))"
  "map_of (snapshot_fields a) ''voicemailNumber'' = Some (RvString (acc_voicemailNumber a))"
  "map_of (snapshot_fields a) ''registerOnStartup'' = Some (RvBool (acc_registerOnStartup a))"
  "map_of (snapshot_fields a) ''registerIntervalSec'' = Some (RvInt (acc_registerIntervalSec a))"
  "map_of (snapshot_fields a) ''keepaliveIntervalSec'' = Some (RvInt (acc_keepaliveIntervalSec a))"
  "map_of (snapshot_fields a) ''sessionTimersEnabled'' = Some (RvBool (acc_sessionTimersEnabled a))"
  "map_of (snapshot_fields a) ''publishPresenceEnabled'' = Some (RvBool (acc_publishPresenceEnabled a))"
  "map_of (snapshot_fields a) ''iceEnabled'' = Some (RvBool (acc_iceEnabled a))"
  "map_of (snapshot_fields a) ''hideCallerId'' = Some (RvBool (acc_hideCallerId a))"
  "map_of (snapshot_fields a) ''zrtpEnabled'' = Some (RvBool (acc_zrtpEnabled a))"
  "map_of (snapshot_fields a) ''srtpMode'' = Some (RvString (srtpModeToString (acc_srtpMode a)))"
  "map_of (snapshot_fields a) ''allowUntrustedCert'' = Some (RvBool (acc_allowUntrustedCert a))"
  "map_of (snapshot_fields a) ''dtmfMethod'' = Some (RvString (dtmfMethodToString (acc_dtmfMethod a)))"
  "map_of (snapshot_fields a) ''enabled'' = Some (RvBool (acc_enabled a))"
  "map_of (snapshot_fields a) ''isDefault'' = Some (RvBool (acc_isDefault a))"
  "map_of (snapshot_fields a) ''sortOrder'' = Some (RvInt (acc_sortOrder a))"
  by (simp_all add: snapshot_fields_def)

lemma snapshot_no_password: "map_of (snapshot_fields a) ''password'' = None"
  by (simp add: snapshot_fields_def)

lemma applyParams_snapshot:
  "applyParams (map_of (snapshot_fields a)) b =
     (default_authUser a)\<lparr>acc_id := acc_id b, acc_passwordRef := acc_passwordRef b\<rparr>"
  by (cases a; cases b)
    (simp add: applyParams_def str_param_def bool_param_def int_param_def snapshot_lookup default_authUser_def)

text \<open>The fields a dialog is opened with describe the account completely and never hold its password:
  written over any account they give a copy of the account, and saving the dialog unchanged changes
  nothing but an empty authentication user.\<close>

theorem dialog_roundtrip:
  "case am_find i am of
     None \<Rightarrow> accountSnapshot i am = (\<lambda>_. None)
   | Some a \<Rightarrow> applyParams (accountSnapshot i am) a = default_authUser a
       \<and> applyParams (accountSnapshot i am) b = (default_authUser a)\<lparr>acc_id := acc_id b, acc_passwordRef := acc_passwordRef b\<rparr>
       \<and> param_string (accountSnapshot i am) ''password'' = []"
  by (auto simp: accountSnapshot_def applyParams_snapshot param_string_def snapshot_no_password default_authUser_def split: option.split)

subsection \<open>The account to dial from\<close>

text \<open>The active account is one that is enabled and registered, whenever there is any: the chosen one if
  it is, else the default one if it is, else the first; only without any it is -1.\<close>

theorem active_account:
  "(activeAccountId ac = -1 \<and> filter (usable (ac_accounts ac)) (am_list (ac_accounts ac)) = [] \<or>
     list_ex (\<lambda>a. acc_id a = activeAccountId ac \<and> usable (ac_accounts ac) a) (am_list (ac_accounts ac)))
   \<and> (if ac_activeAccountId ac > 0 \<and> list_ex (\<lambda>a. acc_id a = ac_activeAccountId ac \<and> usable (ac_accounts ac) a) (am_list (ac_accounts ac))
      then activeAccountId ac = ac_activeAccountId ac
      else if list_ex (\<lambda>a. acc_isDefault a \<and> usable (ac_accounts ac) a) (am_list (ac_accounts ac))
      then list_ex (\<lambda>a. acc_id a = activeAccountId ac \<and> acc_isDefault a) (am_list (ac_accounts ac))
      else filter (usable (ac_accounts ac)) (am_list (ac_accounts ac)) = [] \<or>
        activeAccountId ac = acc_id (hd (filter (usable (ac_accounts ac)) (am_list (ac_accounts ac)))))"
proof -
  let ?am = "ac_accounts ac" and ?as = "am_list (ac_accounts ac)"
  have first: "find P xs = Some a \<Longrightarrow> filter P xs \<noteq> [] \<and> hd (filter P xs) = a" for P :: "account \<Rightarrow> bool" and xs a
    by (induction xs) (auto split: if_splits)
  have member: "find P xs = Some a \<Longrightarrow> a \<in> set xs \<and> P a" for P :: "account \<Rightarrow> bool" and xs a
    by (rule find_SomeD)
  show ?thesis
  proof (cases "ac_activeAccountId ac > 0 \<and> list_ex (\<lambda>a. acc_id a = ac_activeAccountId ac \<and> usable ?am a) ?as")
    case True
    then show ?thesis by (simp add: activeAccountId_def Let_def)
  next
    case c: False
    show ?thesis
    proof (cases "find (\<lambda>a. acc_isDefault a \<and> usable ?am a) ?as")
      case (Some a)
      then have "activeAccountId ac = acc_id a" using c by (auto simp: activeAccountId_def Let_def)
      with member[OF Some] c show ?thesis by (auto simp: list_ex_iff)
    next
      case None
      then have "activeAccountId ac = (case find (usable ?am) ?as of Some a \<Rightarrow> acc_id a | None \<Rightarrow> -1)"
        using c by (auto simp: activeAccountId_def Let_def)
      moreover have "\<not> list_ex (\<lambda>a. acc_isDefault a \<and> usable ?am a) ?as"
        using None by (auto simp: list_ex_iff find_None_iff)
      ultimately show ?thesis
        using c member[of "usable ?am" ?as] first[of "usable ?am" ?as]
        by (cases "find (usable ?am) ?as") (auto simp: list_ex_iff find_None_iff filter_empty_conv)
    qed
  qed
qed

subsection \<open>The list model follows the manager\<close>

lemma on_manager_cases:
  assumes "on_manager f ac = (r, ac')"
  obtains am1 where "f ((ac_accounts ac)\<lparr>am_signals := []\<rparr>) = (r, am1)"
    and "ac' = ac\<lparr>ac_accounts := am1\<lparr>am_signals := am_signals (ac_accounts ac) @ am_signals am1\<rparr>,
                  ac_queued := ac_queued ac @ reg_signals (am_signals am1)\<rparr>"
  using assms by (auto simp: on_manager_def Let_def split: prod.splits)

lemma am_list_signals [simp]: "am_list (am\<lparr>am_signals := s\<rparr>) = am_list am" "am_list (am\<lparr>am_backend := b\<rparr>) = am_list am"
  "am_list (am\<lparr>am_db := db\<rparr>) = am_list am" "am_list (am\<lparr>am_keychain := kc\<rparr>) = am_list am"
  "am_list (am\<lparr>am_passwordCache := pc\<rparr>) = am_list am" "am_list (am\<lparr>am_regStates := rs\<rparr>) = am_list am"
  by (simp_all add: am_list_def)

lemma failed_keeps_list:
  "am_remove B K f i am = (False, am') \<Longrightarrow> am_list am' = am_list am"
  "am_update B K f a am = (False, am') \<Longrightarrow> am_list am' = am_list am"
  "am_setDefault f i am = (False, am') \<Longrightarrow> am_list am' = am_list am"
  "am_setEnabled B K f i v am = (False, am') \<Longrightarrow> am_list am' = am_list am"
  by (auto simp: am_remove_def am_update_def am_setDefault_def am_setEnabled_def deleteRow_def Let_def
      unregisterAccount_same_cache split: option.splits prod.splits bool.splits if_splits)

lemma event_keeps_list [simp]: "am_list (am_event ev am) = am_list am"
  using am_event_frame[of ev am] by (simp add: am_list_def)

lemma reregister_keeps_list [simp]: "am_list (reregisterAllEnabled B K am) = am_list am"
  using reregisterAllEnabled_frame[of am B K] by (simp add: registers_only_def)

lemma refresh_snapshot [simp]: "mo_snapshot (accounts_refresh am mo) = am_list am"
  by (simp add: accounts_refresh_def Let_def)

lemma notify_snapshot [simp]: "mo_snapshot (notifyRegistrationChanged i mo) = mo_snapshot mo"
  by (simp add: notifyRegistrationChanged_def split: option.splits)

lemma controller_frames [simp]:
  "ac_accounts (ac_emit s ac) = ac_accounts ac" "ac_model (ac_emit s ac) = ac_model ac" "ac_queued (ac_emit s ac) = ac_queued ac"
  "ac_accounts (refreshModel ac) = ac_accounts ac" "ac_queued (refreshModel ac) = ac_queued ac"
  "ac_accounts (refreshRegisteredAccountCount ac) = ac_accounts ac" "ac_model (refreshRegisteredAccountCount ac) = ac_model ac"
  "ac_queued (refreshRegisteredAccountCount ac) = ac_queued ac" "ac_lastState (ac_emit s ac) = ac_lastState ac"
  "ac_lastState (refreshModel ac) = ac_lastState ac" "ac_lastState (refreshRegisteredAccountCount ac) = ac_lastState ac"
  "ac_registeredAccountCount (ac_emit s ac) = ac_registeredAccountCount ac"
  "ac_registeredAccountCount (refreshModel ac) = ac_registeredAccountCount ac"
  "ac_signals (refreshModel ac) = ac_signals ac" "ac_signals (ac_emit s ac) = ac_signals ac @ [s]"
  by (simp_all add: ac_emit_def refreshModel_def refreshRegisteredAccountCount_def Let_def)

lemma refresh_count [simp]: "ac_registeredAccountCount (refreshRegisteredAccountCount ac) = count_registered (ac_accounts ac)"
  by (simp add: refreshRegisteredAccountCount_def Let_def ac_emit_def)

lemma push_frames [simp]:
  "am_list (ac_accounts (pushNetworkAndCodecSettings B ac)) = am_list (ac_accounts ac)"
  "am_entries (ac_accounts (pushNetworkAndCodecSettings B ac)) = am_entries (ac_accounts ac)"
  "am_regStates (ac_accounts (pushNetworkAndCodecSettings B ac)) = am_regStates (ac_accounts ac)"
  "ac_model (pushNetworkAndCodecSettings B ac) = ac_model ac"
  "ac_queued (pushNetworkAndCodecSettings B ac) = ac_queued ac"
  "ac_lastState (pushNetworkAndCodecSettings B ac) = ac_lastState ac"
  "ac_signals (pushNetworkAndCodecSettings B ac) = ac_signals ac"
  "ac_registeredAccountCount (pushNetworkAndCodecSettings B ac) = ac_registeredAccountCount ac"
  by (simp_all add: pushNetworkAndCodecSettings_def Let_def)

lemma refreshed_model [simp]: "mo_snapshot (ac_model (refreshModel ac)) = am_list (ac_accounts ac)"
  by (simp add: refreshModel_def)

definition model_ok :: "('b, 'k) accounts_controller \<Rightarrow> bool" where
  "model_ok ac \<longleftrightarrow> mo_snapshot (ac_model ac) = am_list (ac_accounts ac)"

lemma on_manager_model:
  assumes "on_manager f ac = (r, ac')" "model_ok ac"
    and "\<And>am am1. f am = (r, am1) \<Longrightarrow> am_list am1 = am_list am"
  shows "model_ok ac'"
proof -
  obtain am1 where "f ((ac_accounts ac)\<lparr>am_signals := []\<rparr>) = (r, am1)"
    and "ac' = ac\<lparr>ac_accounts := am1\<lparr>am_signals := am_signals (ac_accounts ac) @ am_signals am1\<rparr>,
                  ac_queued := ac_queued ac @ reg_signals (am_signals am1)\<rparr>"
    by (rule on_manager_cases[OF assms(1)])
  then show ?thesis using assms(2) assms(3)[of _ am1] by (simp add: model_ok_def)
qed

lemma model_ok_if:
  assumes "on_manager f ac = (r, ac1)" "model_ok ac" "r \<Longrightarrow> model_ok ac2"
    and "\<And>am am1. f am = (False, am1) \<Longrightarrow> am_list am1 = am_list am"
  shows "model_ok (if r then ac2 else ac1)"
  using assms(1,3) on_manager_model[OF _ assms(2), of f False ac1] assms(4) by (cases r) auto

lemma model_ok_shown [simp]:
  "model_ok (ac_emit s ac) = model_ok ac" "model_ok (pushNetworkAndCodecSettings B ac) = model_ok ac"
  "model_ok (refreshRegisteredAccountCount ac) = model_ok ac" "model_ok (refreshModel ac)"
  by (simp_all add: model_ok_def)

lemma model_ok_apply:
  assumes "model_ok ac"
  shows "model_ok (ac_apply B K op ac)"
proof (cases op)
  case (AcAdd f g ref p)
  then show ?thesis by (simp add: addAccount_def Let_def split_beta)
next
  case (AcRemove f i)
  obtain r ac1 where u: "on_manager (am_remove B K f i) ac = (r, ac1)" by fastforce
  show ?thesis unfolding AcRemove by (simp add: removeAccount_def u)
      (metis (full_types) model_ok_if[OF u assms, of ac] failed_keeps_list(1) assms)
next
  case (AcUpdate f g i p)
  show ?thesis
  proof (cases "am_find i (ac_accounts ac)")
    case None
    then show ?thesis using AcUpdate assms by (simp add: updateAccount_def)
  next
    case (Some a)
    obtain r ac1 where u: "on_manager (am_update B K f (default_authUser (applyParams p a))) ac = (r, ac1)" by fastforce
    have "\<not> r \<Longrightarrow> model_ok ac1" using model_ok_if[OF u assms, of ac] failed_keeps_list(2) assms by metis
    then show ?thesis using AcUpdate Some u by (cases r) (simp_all add: updateAccount_def Let_def)
  qed
next
  case (AcSetDefault f i)
  obtain r ac1 where u: "on_manager (am_setDefault f i) ac = (r, ac1)" by fastforce
  show ?thesis unfolding AcSetDefault by (simp add: setDefaultAccount_def u)
      (metis (full_types) model_ok_if[OF u assms, of ac] failed_keeps_list(3) assms)
next
  case (AcSetEnabled f i v)
  obtain r ac1 where u: "on_manager (am_setEnabled B K f i v) ac = (r, ac1)" by fastforce
  show ?thesis unfolding AcSetEnabled by (simp add: setAccountEnabled_def u)
      (metis (full_types) model_ok_if[OF u assms, of ac] failed_keeps_list(4) assms)
next
  case (AcSetActive i)
  then show ?thesis using assms by (simp add: setActiveAccountId_def model_ok_def ac_emit_def)
next
  case (AcEvent ev)
  then show ?thesis
    using assms by (simp add: on_backend_event_def model_ok_def on_manager_def Let_def)
next
  case AcNetworkBack
  then show ?thesis
    using assms by (simp add: on_network_back_def model_ok_def on_manager_def Let_def)
next
  case AcDeliver
  then show ?thesis
    using assms by (auto simp: deliver_registration_def on_registration_def Let_def model_ok_def split: list.split)
qed

subsection \<open>The network settings follow the manager\<close>

definition manager_net :: "('b \<Rightarrow> string list) \<Rightarrow> ('b \<Rightarrow> string list) \<Rightarrow> ('b, 'k) accounts_controller \<Rightarrow> string list \<times> string list" where
  "manager_net stuns codecs ac = (stuns (am_backend (ac_accounts ac)), codecs (am_backend (ac_accounts ac)))"

definition settings_pushed :: "('b \<Rightarrow> string list) \<Rightarrow> ('b \<Rightarrow> string list) \<Rightarrow> ('b, 'k) accounts_controller \<Rightarrow> bool" where
  "settings_pushed stuns codecs ac \<longleftrightarrow>
     (let as = am_list (ac_accounts ac); b = am_backend (ac_accounts ac)
      in stuns b = stun_servers as \<and> (chosen_codecs as \<noteq> [] \<longrightarrow> codecs b = codec_order (chosen_codecs as)))"

text \<open>What an operation leaves: everything, or settings pushed for the new list; an empty choice of codecs
  pushes nothing.\<close>

definition net_step :: "('b \<Rightarrow> string list) \<Rightarrow> ('b \<Rightarrow> string list) \<Rightarrow>
    ('b, 'k) accounts_controller \<Rightarrow> ('b, 'k) accounts_controller \<Rightarrow> bool" where
  "net_step stuns codecs ac ac' \<longleftrightarrow>
     manager_net stuns codecs ac' = manager_net stuns codecs ac \<and> am_list (ac_accounts ac') = am_list (ac_accounts ac) \<or>
     stuns (am_backend (ac_accounts ac')) = stun_servers (am_list (ac_accounts ac')) \<and>
     codecs (am_backend (ac_accounts ac')) =
       (if chosen_codecs (am_list (ac_accounts ac')) = [] then codecs (am_backend (ac_accounts ac))
        else codec_order (chosen_codecs (am_list (ac_accounts ac'))))"

lemma net_step_pushed:
  assumes "settings_pushed stuns codecs ac" "net_step stuns codecs ac ac'"
  shows "settings_pushed stuns codecs ac'"
    "codecs (am_backend (ac_accounts ac')) =
       (if chosen_codecs (am_list (ac_accounts ac')) = [] then codecs (am_backend (ac_accounts ac))
        else codec_order (chosen_codecs (am_list (ac_accounts ac'))))"
  using assms by (auto simp: settings_pushed_def net_step_def manager_net_def Let_def)

locale network_settings =
  fixes B :: "'b isip_backend"
    and stuns :: "'b \<Rightarrow> string list"
    and codecs :: "'b \<Rightarrow> string list"
  assumes setStunServers_law:
      "stuns (bk_setStunServers B b s) = s" "codecs (bk_setStunServers B b s) = codecs b"
    and setCodecPriority_law:
      "stuns (bk_setCodecPriority B b p) = stuns b" "codecs (bk_setCodecPriority B b p) = p"
    and addAccount_settings:
      "bk_addAccount B b a = (i, b') \<Longrightarrow> stuns b' = stuns b \<and> codecs b' = codecs b"
    and removeAccount_settings:
      "bk_removeAccount B b i = (removed, b') \<Longrightarrow> stuns b' = stuns b \<and> codecs b' = codecs b"
begin

definition net :: "('b, 'k) accounts_manager \<Rightarrow> string list \<times> string list" where
  "net am = (stuns (am_backend am), codecs (am_backend am))"

lemma net_updates [simp]:
  "net (am\<lparr>am_db := db\<rparr>) = net am" "net (am\<lparr>am_keychain := kc\<rparr>) = net am" "net (am\<lparr>am_entries := es\<rparr>) = net am"
  "net (am\<lparr>am_passwordCache := pc\<rparr>) = net am" "net (am\<lparr>am_backendIds := bs\<rparr>) = net am" "net (am\<lparr>am_regStates := rs\<rparr>) = net am"
  "net (am\<lparr>am_regErrors := re\<rparr>) = net am" "net (am\<lparr>am_signals := ss\<rparr>) = net am" "net (set_entry i g am) = net am"
  by (simp_all add: net_def set_entry_def)

lemma register_net [simp]: "net (snd (registerAccount B K i am)) = net am"
  by (auto simp: registerAccount_def net_def Let_def set_entry_def fetch_password_def
      split: option.splits prod.splits dest: addAccount_settings)

lemma unregister_net [simp]: "net (unregisterAccount B i am) = net am"
proof -
  have "stuns (snd (bk_removeAccount B b j)) = stuns b" "codecs (snd (bk_removeAccount B b j)) = codecs b" for b j
    using removeAccount_settings[of b j] by (metis prod.collapse)+
  then show ?thesis by (auto simp: unregisterAccount_def net_def Let_def split: option.splits prod.splits)
qed

lemma manager_ops_net:
  "net (snd (am_add B K f ref acc pw am)) = net am" "net (snd (am_remove B K f i am)) = net am"
  "net (snd (am_update B K f acc am)) = net am" "net (snd (am_setDefault f i am)) = net am"
  "net (snd (am_setEnabled B K f i v am)) = net am" "net (snd (am_setPassword B K i pw am)) = net am"
  "net (am_event ev am) = net am"
  by (auto simp: am_add_def am_remove_def am_update_def am_setDefault_def am_setEnabled_def am_setPassword_def insertRow_def
      deleteRow_def Let_def am_event_frame net_def[of "am_event _ _"] net_def[of am, symmetric] split: option.splits prod.splits bool.splits)

lemma reregister_net: "net (reregisterAllEnabled B K am) = net am"
proof -
  have "net (fold (\<lambda>i am. snd (registerAccount B K i (unregisterAccount B i am))) is am) = net am" for "is"
    by (induction "is" arbitrary: am) simp_all
  then show ?thesis by (simp add: reregisterAllEnabled_def Let_def)
qed

lemma on_manager_net:
  assumes "on_manager f ac = (r, ac1)" "\<And>am. net (snd (f am)) = net am"
  shows "net (ac_accounts ac1) = net (ac_accounts ac)"
proof -
  obtain am1 where f: "f ((ac_accounts ac)\<lparr>am_signals := []\<rparr>) = (r, am1)"
    and ac1: "ac1 = ac\<lparr>ac_accounts := am1\<lparr>am_signals := am_signals (ac_accounts ac) @ am_signals am1\<rparr>,
                  ac_queued := ac_queued ac @ reg_signals (am_signals am1)\<rparr>"
    by (rule on_manager_cases[OF assms(1)])
  show ?thesis using assms(2)[of "(ac_accounts ac)\<lparr>am_signals := []\<rparr>"] by (simp add: f ac1)
qed

lemmas op_net = on_manager_net[OF _ manager_ops_net(1)] on_manager_net[OF _ manager_ops_net(2)] on_manager_net[OF _ manager_ops_net(3)]
  on_manager_net[OF _ manager_ops_net(4)] on_manager_net[OF _ manager_ops_net(5)] on_manager_net[OF _ manager_ops_net(6)]

lemma snd_net: "(\<And>am. net (snd (f am)) = net am) \<Longrightarrow> net (ac_accounts (snd (on_manager f ac))) = net (ac_accounts ac)"
  by (rule on_manager_net[of f ac "fst (on_manager f ac)"]) simp_all

lemma net_step_emit [simp]: "net_step stuns codecs ac (ac_emit s ac') = net_step stuns codecs ac ac'"
  by (simp add: net_step_def manager_net_def)

lemma net_step_push:
  assumes "net (ac_accounts ac1) = net (ac_accounts ac)"
  shows "net_step stuns codecs ac (pushNetworkAndCodecSettings B ac1)"
proof -
  have "codecs (am_backend (ac_accounts ac1)) = codecs (am_backend (ac_accounts ac))" using assms by (simp add: net_def)
  then show ?thesis
    by (auto simp: net_step_def pushNetworkAndCodecSettings_def Let_def setStunServers_law setCodecPriority_law)
qed

lemma net_step_same:
  "net (ac_accounts ac1) = net (ac_accounts ac) \<Longrightarrow> am_list (ac_accounts ac1) = am_list (ac_accounts ac) \<Longrightarrow> net_step stuns codecs ac ac1"
  by (simp add: net_step_def manager_net_def net_def)

lemma on_manager_list:
  assumes "on_manager f ac = (r, ac1)" "\<And>am am1. f am = (r, am1) \<Longrightarrow> am_list am1 = am_list am"
  shows "am_list (ac_accounts ac1) = am_list (ac_accounts ac)"
proof -
  obtain am1 where f: "f ((ac_accounts ac)\<lparr>am_signals := []\<rparr>) = (r, am1)"
    and ac1: "ac1 = ac\<lparr>ac_accounts := am1\<lparr>am_signals := am_signals (ac_accounts ac) @ am_signals am1\<rparr>,
                  ac_queued := ac_queued ac @ reg_signals (am_signals am1)\<rparr>"
    by (rule on_manager_cases[OF assms(1)])
  show ?thesis using assms(2)[OF f] by (simp add: ac1)
qed

lemma net_step_apply: "net_step stuns codecs ac (ac_apply B K op ac)"
proof (cases op)
  case (AcAdd f g ref p)
  then show ?thesis
    by (auto simp: addAccount_def Let_def split_beta snd_net manager_ops_net intro!: net_step_push)
next
  case (AcRemove f i)
  obtain r ac1 where u: "on_manager (am_remove B K f i) ac = (r, ac1)" by fastforce
  have "\<not> r \<Longrightarrow> net_step stuns codecs ac ac1"
    using on_manager_list[OF u] failed_keeps_list(1) op_net(2)[OF u] by (metis net_step_same)
  then show ?thesis using AcRemove op_net(2)[OF u] by (cases r) (auto simp: removeAccount_def u intro!: net_step_push)
next
  case (AcUpdate f g i p)
  show ?thesis
  proof (cases "am_find i (ac_accounts ac)")
    case None
    then show ?thesis using AcUpdate by (simp add: updateAccount_def net_step_same)
  next
    case (Some a)
    obtain r ac1 where u: "on_manager (am_update B K f (default_authUser (applyParams p a))) ac = (r, ac1)" by fastforce
    have "\<not> r \<Longrightarrow> net_step stuns codecs ac ac1"
      using on_manager_list[OF u] failed_keeps_list(2) op_net(3)[OF u] by (metis net_step_same)
    then show ?thesis using AcUpdate Some op_net(3)[OF u]
      by (cases r) (auto simp: updateAccount_def u Let_def snd_net manager_ops_net intro!: net_step_push)
  qed
next
  case (AcSetDefault f i)
  obtain r ac1 where u: "on_manager (am_setDefault f i) ac = (r, ac1)" by fastforce
  have "\<not> r \<Longrightarrow> net_step stuns codecs ac ac1"
    using on_manager_list[OF u] failed_keeps_list(3) op_net(4)[OF u] by (metis net_step_same)
  then show ?thesis using AcSetDefault op_net(4)[OF u] by (cases r) (auto simp: setDefaultAccount_def u intro!: net_step_push)
next
  case (AcSetEnabled f i v)
  obtain r ac1 where u: "on_manager (am_setEnabled B K f i v) ac = (r, ac1)" by fastforce
  have "\<not> r \<Longrightarrow> net_step stuns codecs ac ac1"
    using on_manager_list[OF u] failed_keeps_list(4) op_net(5)[OF u] by (metis net_step_same)
  then show ?thesis using AcSetEnabled op_net(5)[OF u] by (cases r) (auto simp: setAccountEnabled_def u intro!: net_step_push)
next
  case (AcSetActive i)
  then show ?thesis by (simp add: setActiveAccountId_def ac_emit_def net_step_same)
next
  case (AcEvent ev)
  then show ?thesis
    by (simp add: on_backend_event_def snd_net manager_ops_net net_step_same) (simp add: on_manager_def net_step_same Let_def manager_ops_net)
next
  case AcNetworkBack
  then show ?thesis by (simp add: on_network_back_def net_step_same on_manager_def Let_def reregister_net)
next
  case AcDeliver
  then show ?thesis by (auto simp: deliver_registration_def on_registration_def Let_def net_step_same split: list.split)
qed

lemma new_pushed: "settings_pushed stuns codecs (ac_new B am)"
  by (simp add: ac_new_def settings_pushed_def pushNetworkAndCodecSettings_def Let_def setStunServers_law setCodecPriority_law
      refreshRegisteredAccountCount_def ac_emit_def)

lemma run_pushed: "settings_pushed stuns codecs ac \<Longrightarrow> settings_pushed stuns codecs (ac_run B K ops ac)"
  by (induction ops arbitrary: ac) (simp_all add: net_step_pushed(1)[OF _ net_step_apply])

end

interpretation fake_net: network_settings FakeB fb_stunServers fb_codecPriority
proof
  show "fb_stunServers b' = fb_stunServers b \<and> fb_codecPriority b' = fb_codecPriority b"
    if "bk_addAccount FakeB b a = (i, b')" for b a i b'
    using that by (auto simp: FakeB_def fb_addAccount_def logCmd_def Let_def split: if_splits)
  show "fb_stunServers b' = fb_stunServers b \<and> fb_codecPriority b' = fb_codecPriority b"
    if "bk_removeAccount FakeB b i = (r, b')" for b i r b'
    using that by (auto simp: FakeB_def fb_removeAccount_def logCmd_def Let_def split: if_splits)
qed (simp_all add: FakeB_def)

lemma new_model: "model_ok (ac_new B am)"
  by (simp add: ac_new_def model_ok_def accounts_model_new_def)

lemma run_model: "model_ok ac \<Longrightarrow> model_ok (ac_run B K ops ac)"
  by (induction ops arbitrary: ac) (simp_all add: model_ok_apply)

lemma first_seen_set: "set (first_seen seen ss) = set ss - set seen"
  by (induction seen ss rule: first_seen.induct) auto

lemma first_seen_distinct: "distinct (first_seen seen ss)"
  by (induction seen ss rule: first_seen.induct) (auto simp: first_seen_set)

text \<open>C29. After any sequence of operations the account list shows what the manager holds and the backend has
  the STUN servers of the enabled accounts, each once.  An operation that leaves an account with codecs
  sets that codec order, but one that leaves none keeps the order of an account that may be gone.\<close>

theorem accounts_view_in_sync:
  fixes am :: "(fake_backend, 'k) accounts_manager"
  shows "let ac = ac_run FakeB K ops (ac_new FakeB am); ac' = ac_apply FakeB K op ac;
      accs = am_list (ac_accounts ac'); b = am_backend (ac_accounts ac')
    in mo_snapshot (ac_model ac') = accs
      \<and> distinct (fb_stunServers b)
      \<and> set (fb_stunServers b) = acc_stunServer ` {a \<in> set accs. acc_enabled a \<and> acc_stunServer a \<noteq> []}
      \<and> fb_codecPriority b =
          (if chosen_codecs accs = [] then fb_codecPriority (am_backend (ac_accounts ac)) else codec_order (chosen_codecs accs))"
proof -
  let ?ac = "ac_run FakeB K ops (ac_new FakeB am)"
  have "model_ok (ac_apply FakeB K op ?ac)" by (intro model_ok_apply run_model new_model)
  moreover have p: "settings_pushed fb_stunServers fb_codecPriority ?ac"
    by (intro fake_net.run_pushed fake_net.new_pushed)
  note step = net_step_pushed[OF p fake_net.net_step_apply[of ?ac K op]]
  ultimately show ?thesis
    using step by (auto simp: model_ok_def settings_pushed_def Let_def stun_servers_def first_seen_set first_seen_distinct)
qed

subsection \<open>States belong to live registrations\<close>

definition states_live :: "('b, 'k) accounts_manager \<Rightarrow> bool" where
  "states_live am \<longleftrightarrow> (\<forall>i. stateOf i am \<noteq> Unregistered \<longrightarrow> ahas (am_backendIds am) i)"

lemma stateOf_updates [simp]:
  "stateOf i (am\<lparr>am_db := db\<rparr>) = stateOf i am" "stateOf i (am\<lparr>am_keychain := kc\<rparr>) = stateOf i am"
  "stateOf i (am\<lparr>am_entries := es\<rparr>) = stateOf i am" "stateOf i (am\<lparr>am_passwordCache := pc\<rparr>) = stateOf i am"
  "stateOf i (am\<lparr>am_backend := b\<rparr>) = stateOf i am" "stateOf i (am\<lparr>am_signals := ss\<rparr>) = stateOf i am"
  "stateOf i (am\<lparr>am_backendIds := bs\<rparr>) = stateOf i am" "stateOf i (set_entry j g am) = stateOf i am"
  by (simp_all add: stateOf_def set_entry_def)

lemma states_live_updates [simp]:
  "states_live (am\<lparr>am_db := db\<rparr>) = states_live am" "states_live (am\<lparr>am_keychain := kc\<rparr>) = states_live am"
  "states_live (am\<lparr>am_entries := es\<rparr>) = states_live am" "states_live (am\<lparr>am_passwordCache := pc\<rparr>) = states_live am"
  "states_live (am\<lparr>am_backend := b\<rparr>) = states_live am" "states_live (am\<lparr>am_signals := ss\<rparr>) = states_live am"
  "states_live (set_entry j g am) = states_live am"
  by (simp_all add: states_live_def, simp add: set_entry_def)

lemma register_states [simp]: "am_regStates (snd (registerAccount B K i am)) = am_regStates am"
  by (auto simp: registerAccount_def Let_def set_entry_def fetch_password_def split: option.splits prod.splits)

lemma register_ids [simp]: "ids_of (am_entries (snd (registerAccount B K i am))) = ids_of (am_entries am)"
proof -
  have "ids_of (upd_first P (\<lambda>e. e\<lparr>en_registered := b\<rparr>) es) = ids_of es" for P b es
    by (induction es) (auto simp: ids_of_def)
  then show ?thesis
    by (auto simp: registerAccount_def Let_def set_entry_def fetch_password_def split: option.splits prod.splits)
qed

lemma register_live: "states_live am \<Longrightarrow> states_live (snd (registerAccount B K i am))"
  by (auto simp: registerAccount_def Let_def set_entry_def fetch_password_def states_live_def stateOf_def split: option.splits prod.splits)

lemma unregister_live: "states_live am \<Longrightarrow> states_live (unregisterAccount B i am)"
  by (auto simp: unregisterAccount_def Let_def states_live_def stateOf_def split: option.splits prod.splits)

lemma ids_of_list: "ids_of (am_entries am) = map acc_id (am_list am)"
  by (simp add: ids_of_def am_list_def)

lemma unregister_ids [simp]: "ids_of (am_entries (unregisterAccount B i am)) = ids_of (am_entries am)"
  by (simp add: ids_of_list unregisterAccount_same_cache)

lemma event_live:
  assumes "states_live am" "reg_ok ok accts am"
  shows "states_live (am_event ev am)"
proof (cases ev)
  case (OnRegState bid active code reason)
  let ?i = "accountIdForBackend bid am"
  have "?i = kInvalidAccountId \<or> ahas (am_backendIds am) ?i"
    using accountIdForBackend_valid[OF assms(2) refl] by (auto simp: ahas_def)
  then show ?thesis
    using assms(1) OnRegState by (auto simp: am_event_def am_onRegState_def Let_def am_emit_def states_live_def stateOf_def)
qed (use assms(1) in \<open>auto simp: am_event_def am_onMwi_def updateMwi_def am_onInstantMessage_def am_emit_def Let_def states_live_def stateOf_def\<close>)

lemma apply_live:
  assumes "states_live am" "reg_ok ok accts am"
  shows "states_live (am_apply B K op am)"
proof (cases op)
  case AmReregister
  have "states_live am \<Longrightarrow> states_live (fold (\<lambda>i am. snd (registerAccount B K i (unregisterAccount B i am))) is am)" for "is" am
    by (induction "is" arbitrary: am) (simp_all add: register_live unregister_live)
  then show ?thesis using AmReregister assms(1) by (simp add: reregisterAllEnabled_def Let_def)
next
  case AmStartup
  have "states_live am \<Longrightarrow> states_live (fold (\<lambda>e am. if acc_enabled (en_account e) \<and> acc_registerOnStartup (en_account e)
                  then snd (registerAccount B K (acc_id (en_account e)) am) else am) es am)" for es am
    by (induction es arbitrary: am) (simp_all add: register_live)
  then show ?thesis using AmStartup assms(1) by (simp add: registerStartupAccounts_def)
qed (use assms(1) event_live[OF assms] in \<open>auto simp: am_add_def am_remove_def am_update_def am_setDefault_def am_setEnabled_def
      am_setPassword_def insertRow_def deleteRow_def sendInstantMessage_def Let_def register_live unregister_live
      split: option.splits prod.splits bool.splits\<close>)

subsection \<open>The registered count\<close>

lemma count_registered_ids:
  "count_registered am = int (length (filter (\<lambda>i. stateOf i am = Registered) (ids_of (am_entries am))))"
  by (simp add: count_registered_def am_list_def ids_of_def filter_map comp_def)

lemma count_registered_cong:
  "ids_of (am_entries am') = ids_of (am_entries am) \<Longrightarrow> am_regStates am' = am_regStates am \<Longrightarrow> count_registered am' = count_registered am"
  by (simp add: count_registered_ids stateOf_def)

definition same_states :: "('b, 'k) accounts_manager \<Rightarrow> ('b, 'k) accounts_manager \<Rightarrow> bool" where
  "same_states am am' \<longleftrightarrow> ids_of (am_entries am') = ids_of (am_entries am) \<and> am_regStates am' = am_regStates am"

lemma same_states_count: "same_states am am' \<Longrightarrow> count_registered am' = count_registered am"
  unfolding same_states_def by (blast intro: count_registered_cong)

lemma setDefault_regStates: "am_regStates (snd (am_setDefault f i am)) = am_regStates am"
  by (auto simp: am_setDefault_def sql_begin_def sql_update_accounts_def sql_commit_def sql_rollback_def)

lemma setDefault_same_states: "same_states am (snd (am_setDefault f i am))"
proof (cases "fst (am_setDefault f i am)")
  case False
  then show ?thesis
    using failed_keeps_list(3)[of f i am "snd (am_setDefault f i am)"]
    by (simp add: same_states_def setDefault_regStates ids_of_list prod_eq_iff)
next
  case True
  then have "am_entries (snd (am_setDefault f i am)) =
      map (\<lambda>e. e\<lparr>en_account := (en_account e)\<lparr>acc_isDefault := (acc_id (en_account e) = i)\<rparr>\<rparr>) (am_entries am)"
    by (auto simp: am_setDefault_def sql_begin_def sql_update_accounts_def sql_commit_def sql_rollback_def split: if_splits)
  then show ?thesis by (simp add: same_states_def setDefault_regStates ids_of_def)
qed

lemma failed_same_states:
  "am_update B K f a am = (False, am') \<Longrightarrow> same_states am am'"
  "am_setEnabled B K f i v am = (False, am') \<Longrightarrow> same_states am am'"
  by (auto simp: same_states_def am_update_def am_setEnabled_def Let_def split: option.splits prod.splits bool.splits if_splits)

lemma event_states: "reg_signals (am_signals (am_event ev (am\<lparr>am_signals := []\<rparr>))) = [] \<Longrightarrow> same_states am (am_event ev (am\<lparr>am_signals := []\<rparr>))"
  by (cases ev) (auto simp: same_states_def am_event_def am_onRegState_def am_onMwi_def updateMwi_def am_onInstantMessage_def
      am_emit_def Let_def reg_signals_def)

lemma add_count:
  assumes "rows_ok (am_list am) (am_db am)" "reg_ok ok accts am" "states_live am"
  shows "count_registered (snd (am_add B K f ref acc pw am)) = count_registered am"
proof -
  obtain r kc where kc: "kc_set K (am_keychain am) ref pw = (r, kc)" by fastforce
  let ?a = "acc\<lparr>acc_passwordRef := ref\<rparr>"
  obtain x db where ins: "sql_insert_account (f 0) (row_of_account ?a) (am_db am) = (x, db)" by fastforce
  show ?thesis
  proof (cases "r \<and> x \<noteq> None")
    case False
    then show ?thesis
      using kc ins by (auto simp: am_add_def insertRow_def Let_def count_registered_ids stateOf_def split: option.splits bool.splits)
  next
    case True
    then obtain i where i: "x = Some i" by auto
    have "i \<notin> set (ids_of (am_entries am))" using rows_ok_insert(2)[OF assms(1)] ins i am_list_ids by metis
    then have "stateOf i am = Unregistered" using assms(2,3) by (auto simp: reg_ok_def states_live_def)
    moreover have "ids_of (am_entries (snd (am_add B K f ref acc pw am))) = ids_of (am_entries am) @ [i]"
      "am_regStates (snd (am_add B K f ref acc pw am)) = am_regStates am"
      using True kc ins i by (auto simp: am_add_def insertRow_def Let_def ids_of_def[of "_ @ _"]) (simp_all add: ids_of_def)
    ultimately show ?thesis by (simp add: count_registered_ids stateOf_def)
  qed
qed

text \<open>Password references are fresh, and no removal fails half way; \<open>calm\<close> also excludes network changes.\<close>

fun fresh_op :: "ac_op \<Rightarrow> ('b, 'k) accounts_controller \<Rightarrow> bool" where
  "fresh_op (AcAdd f g ref p) ac = (am_passwordCache (ac_accounts ac) ref = None)"
| "fresh_op _ ac = True"

fun calm_op :: "'b isip_backend \<Rightarrow> 'k ikeychain \<Rightarrow> ac_op \<Rightarrow> ('b, 'k) accounts_controller \<Rightarrow> bool" where
  "calm_op B K (AcRemove f i) ac = (fst (removeAccount B K f i ac) \<or> am_find i (ac_accounts ac) = None)"
| "calm_op B K AcNetworkBack ac = False"
| "calm_op B K _ ac = True"

fun fresh_run :: "'b isip_backend \<Rightarrow> 'k ikeychain \<Rightarrow> ac_op list \<Rightarrow> ('b, 'k) accounts_controller \<Rightarrow> bool" where
  "fresh_run B K [] ac = True"
| "fresh_run B K (op # ops) ac = (fresh_op op ac \<and> fresh_run B K ops (ac_apply B K op ac))"

fun calm_run :: "'b isip_backend \<Rightarrow> 'k ikeychain \<Rightarrow> ac_op list \<Rightarrow> ('b, 'k) accounts_controller \<Rightarrow> bool" where
  "calm_run B K [] ac = True"
| "calm_run B K (op # ops) ac = (calm_op B K op ac \<and> calm_run B K ops (ac_apply B K op ac))"

text \<open>Exact unless a notification is on its way.\<close>

definition count_ok :: "('b, 'k) accounts_controller \<Rightarrow> bool" where
  "count_ok ac \<longleftrightarrow> ac_queued ac \<noteq> [] \<or> ac_registeredAccountCount ac = count_registered (ac_accounts ac)"

lemma am_ok_signals [simp]: "am_ok ok accts K kok (am\<lparr>am_signals := s\<rparr>) = am_ok ok accts K kok am"
  by (simp add: am_ok_def reg_ok_def cache_ok_def)

lemma count_ok_refreshed:
  "count_ok (refreshRegisteredAccountCount ac)" "count_ok (ac_emit s ac) = count_ok ac" "count_ok (pushNetworkAndCodecSettings B ac) = count_ok ac"
  "count_ok (refreshModel ac) = count_ok ac"
proof -
  have "count_registered (ac_accounts (pushNetworkAndCodecSettings B ac)) = count_registered (ac_accounts ac)"
    by (rule count_registered_cong) simp_all
  then show "count_ok (refreshRegisteredAccountCount ac)" "count_ok (ac_emit s ac) = count_ok ac"
    "count_ok (pushNetworkAndCodecSettings B ac) = count_ok ac" "count_ok (refreshModel ac) = count_ok ac"
    by (simp_all add: count_ok_def)
qed

lemma on_manager_count:
  assumes "on_manager f ac = (r, ac1)" "count_ok ac"
    and "\<And>am1. f ((ac_accounts ac)\<lparr>am_signals := []\<rparr>) = (r, am1) \<Longrightarrow> reg_signals (am_signals am1) = [] \<Longrightarrow>
           count_registered am1 = count_registered (ac_accounts ac)"
  shows "count_ok ac1"
proof -
  obtain am1 where f: "f ((ac_accounts ac)\<lparr>am_signals := []\<rparr>) = (r, am1)"
    and ac1: "ac1 = ac\<lparr>ac_accounts := am1\<lparr>am_signals := am_signals (ac_accounts ac) @ am_signals am1\<rparr>,
                  ac_queued := ac_queued ac @ reg_signals (am_signals am1)\<rparr>"
    by (rule on_manager_cases[OF assms(1)])
  have "count_registered (am1\<lparr>am_signals := s\<rparr>) = count_registered am1" for s
    by (rule count_registered_cong) simp_all
  then show ?thesis using assms(2) assms(3)[OF f] by (auto simp: count_ok_def ac1)
qed

lemma same_states_signals: "same_states (am\<lparr>am_signals := []\<rparr>) am1 = same_states am am1"
  by (simp add: same_states_def)

lemma failed_count:
  "am_update B K f a (am\<lparr>am_signals := []\<rparr>) = (False, am1) \<Longrightarrow> count_registered am1 = count_registered am"
  "am_setEnabled B K f i v (am\<lparr>am_signals := []\<rparr>) = (False, am1) \<Longrightarrow> count_registered am1 = count_registered am"
  by (rule same_states_count, rule iffD1[OF same_states_signals], erule failed_same_states)+

locale accounts_ui = accounts_env B ok accts K kok + network_settings B stuns codecs
  for B :: "'b isip_backend" and ok :: "'b \<Rightarrow> bool" and accts :: "'b \<Rightarrow> backend_account_id set"
    and K :: "'k ikeychain" and kok :: "'k \<Rightarrow> bool"
    and stuns :: "'b \<Rightarrow> string list" and codecs :: "'b \<Rightarrow> string list" +
  assumes setStunServers_keeps: "ok b \<Longrightarrow> keeps_view ok accts b (bk_setStunServers B b s)"
    and setCodecPriority_keeps: "ok b \<Longrightarrow> keeps_view ok accts b (bk_setCodecPriority B b p)"
begin

definition inv :: "('b, 'k) accounts_controller \<Rightarrow> bool" where
  "inv ac \<longleftrightarrow> am_ok ok accts K kok (ac_accounts ac) \<and> states_live (ac_accounts ac)"

lemma inv_shown [simp]:
  "inv (ac_emit s ac) = inv ac" "inv (refreshModel ac) = inv ac" "inv (refreshRegisteredAccountCount ac) = inv ac"
  by (simp_all add: inv_def)

lemma inv_push: "inv ac \<Longrightarrow> inv (pushNetworkAndCodecSettings B ac)"
  using setStunServers_keeps setCodecPriority_keeps
  by (auto simp: inv_def pushNetworkAndCodecSettings_def Let_def am_ok_def reg_ok_def cache_ok_def keeps_view_def)

lemma inv_on_manager:
  assumes "inv ac" "on_manager f ac = (r, ac1)" "\<And>am. snd (f am) = am_apply B K op am"
    and "op_fresh op ((ac_accounts ac)\<lparr>am_signals := []\<rparr>)"
  shows "inv ac1"
proof -
  obtain am1 where f: "f ((ac_accounts ac)\<lparr>am_signals := []\<rparr>) = (r, am1)"
    and ac1: "ac1 = ac\<lparr>ac_accounts := am1\<lparr>am_signals := am_signals (ac_accounts ac) @ am_signals am1\<rparr>,
                  ac_queued := ac_queued ac @ reg_signals (am_signals am1)\<rparr>"
    by (rule on_manager_cases[OF assms(2)])
  let ?am = "(ac_accounts ac)\<lparr>am_signals := []\<rparr>"
  have am1: "am1 = am_apply B K op ?am" using assms(3)[of ?am] by (simp add: f)
  have ok: "am_ok ok accts K kok ?am" "states_live ?am" using assms(1) by (simp_all add: inv_def)
  then have "reg_ok ok accts ?am" by (simp add: am_ok_def)
  then have "am_ok ok accts K kok am1" "states_live am1"
    using apply_am_ok[OF ok(1) assms(4)] apply_live[OF ok(2)] by (simp_all add: am1)
  then show ?thesis by (simp add: inv_def ac1)
qed

lemma snd_inv:
  assumes "inv ac" "\<And>am. snd (f am) = am_apply B K op am" "op_fresh op ((ac_accounts ac)\<lparr>am_signals := []\<rparr>)"
  shows "inv (snd (on_manager f ac))"
  by (rule inv_on_manager[OF assms(1) prod.collapse[symmetric] assms(2,3)])

lemma inv_apply:
  assumes "inv ac" "fresh_op op ac"
  shows "inv (ac_apply B K op ac)"
proof (cases op)
  case (AcAdd f g ref p)
  have "op_fresh (AmAdd f ref a pw) ((ac_accounts ac)\<lparr>am_signals := []\<rparr>)" for a pw
    using assms(2) AcAdd by simp
  then have "inv (snd (on_manager (am_add B K f ref a pw) ac))" for a pw
    by (intro snd_inv[where op = "AmAdd f ref a pw"] assms(1)) simp_all
  moreover have "inv ac1 \<Longrightarrow> inv (snd (on_manager (am_setDefault g i) ac1))" for ac1 i
    by (rule snd_inv[where op = "AmSetDefault g i"]) simp_all
  ultimately show ?thesis using AcAdd by (auto simp: addAccount_def Let_def split_beta intro!: inv_push)
next
  case (AcRemove f i)
  have "inv (snd (on_manager (am_remove B K f i) ac))"
    by (rule snd_inv[OF assms(1), where op = "AmRemove f i"]) simp_all
  then show ?thesis using AcRemove by (auto simp: removeAccount_def split_beta intro!: inv_push)
next
  case (AcUpdate f g i p)
  have "inv (snd (on_manager (am_update B K f a) ac))" for a
    by (rule snd_inv[OF assms(1), where op = "AmUpdate f a"]) simp_all
  moreover have "inv ac1 \<Longrightarrow> inv (snd (on_manager (am_setDefault g i) ac1))" for ac1
    by (rule snd_inv[where op = "AmSetDefault g i"]) simp_all
  moreover have "inv ac1 \<Longrightarrow> inv (snd (on_manager (am_setPassword B K i pw) ac1))" for ac1 pw
    by (rule snd_inv[where op = "AmSetPassword i pw"]) simp_all
  ultimately show ?thesis using AcUpdate assms(1)
    by (auto simp: updateAccount_def Let_def split: option.split prod.split bool.split intro!: inv_push) (metis snd_conv)+
next
  case (AcSetDefault f i)
  have "inv (snd (on_manager (am_setDefault f i) ac))"
    by (rule snd_inv[OF assms(1), where op = "AmSetDefault f i"]) simp_all
  then show ?thesis using AcSetDefault by (auto simp: setDefaultAccount_def split_beta intro!: inv_push)
next
  case (AcSetEnabled f i v)
  have "inv (snd (on_manager (am_setEnabled B K f i v) ac))"
    by (rule snd_inv[OF assms(1), where op = "AmSetEnabled f i v"]) simp_all
  then show ?thesis using AcSetEnabled by (auto simp: setAccountEnabled_def split_beta intro!: inv_push)
next
  case (AcSetActive i)
  then show ?thesis using assms(1) by (simp add: setActiveAccountId_def inv_def ac_emit_def)
next
  case (AcEvent ev)
  have "inv (snd (on_manager (\<lambda>am. ((), am_event ev am)) ac))"
    by (rule snd_inv[OF assms(1), where op = "AmEvent ev"]) simp_all
  then show ?thesis using AcEvent by (simp add: on_backend_event_def)
next
  case AcNetworkBack
  have "inv (snd (on_manager (\<lambda>am. ((), reregisterAllEnabled B K am)) ac))"
    by (rule snd_inv[OF assms(1), where op = AmReregister]) simp_all
  then show ?thesis using AcNetworkBack by (simp add: on_network_back_def)
next
  case AcDeliver
  then show ?thesis using assms(1) by (auto simp: deliver_registration_def on_registration_def Let_def inv_def split: list.split)
qed

lemma run_inv: "inv ac \<Longrightarrow> fresh_run B K ops ac \<Longrightarrow> inv (ac_run B K ops ac)"
  by (induction ops arbitrary: ac) (simp_all add: inv_apply)

lemma setDefault_count: "count_ok ac \<Longrightarrow> count_ok (snd (on_manager (am_setDefault f i) ac))"
proof (rule on_manager_count[OF prod.collapse[symmetric]])
  fix am1 assume "am_setDefault f i ((ac_accounts ac)\<lparr>am_signals := []\<rparr>) = (fst (on_manager (am_setDefault f i) ac), am1)"
  then have "am1 = snd (am_setDefault f i ((ac_accounts ac)\<lparr>am_signals := []\<rparr>))" by simp
  then show "count_registered am1 = count_registered (ac_accounts ac)"
    using setDefault_same_states[of "(ac_accounts ac)\<lparr>am_signals := []\<rparr>" f i] by (simp add: same_states_signals same_states_count)
qed

lemma count_apply:
  assumes "inv ac" "count_ok ac" "fresh_op op ac" "calm_op B K op ac"
  shows "count_ok (ac_apply B K op ac)"
proof (cases op)
  case (AcAdd f g ref p)
  have "count_ok (snd (on_manager (am_add B K f ref a pw) ac))" for a pw
  proof (rule on_manager_count[OF prod.collapse[symmetric] assms(2)])
    fix am1 r assume "am_add B K f ref a pw ((ac_accounts ac)\<lparr>am_signals := []\<rparr>) = (r, am1)"
    then have "am1 = snd (am_add B K f ref a pw ((ac_accounts ac)\<lparr>am_signals := []\<rparr>))" by simp
    moreover have "count_registered ((ac_accounts ac)\<lparr>am_signals := []\<rparr>) = count_registered (ac_accounts ac)"
      by (rule count_registered_cong) simp_all
    ultimately show "count_registered am1 = count_registered (ac_accounts ac)"
      using add_count[of "(ac_accounts ac)\<lparr>am_signals := []\<rparr>" ok accts] assms(1) by (simp add: inv_def am_ok_def reg_ok_def)
  qed
  then show ?thesis using AcAdd
    by (auto simp: addAccount_def Let_def split_beta count_ok_refreshed intro!: setDefault_count)
next
  case (AcRemove f i)
  show ?thesis
  proof (cases "am_find i (ac_accounts ac)")
    case None
    then have "am_remove B K f i ((ac_accounts ac)\<lparr>am_signals := []\<rparr>) = (False, (ac_accounts ac)\<lparr>am_signals := []\<rparr>)"
      by (simp add: am_remove_def am_find_def)
    then have "removeAccount B K f i ac = (False, ac)" by (simp add: removeAccount_def on_manager_def Let_def reg_signals_def)
    then show ?thesis using AcRemove assms(2) by simp
  next
    case (Some a)
    then show ?thesis using AcRemove assms(4) by (auto simp: removeAccount_def split_beta count_ok_refreshed)
  qed
next
  case (AcUpdate f g i p)
  show ?thesis
  proof (cases "am_find i (ac_accounts ac)")
    case None
    then show ?thesis using AcUpdate assms(2) by (simp add: updateAccount_def)
  next
    case (Some a)
    obtain r ac1 where u: "on_manager (am_update B K f (default_authUser (applyParams p a))) ac = (r, ac1)" by fastforce
    have "\<not> r \<Longrightarrow> count_ok ac1"
      by (rule on_manager_count[OF u assms(2)]) (auto dest: failed_count)
    then show ?thesis using AcUpdate Some u by (cases r) (simp_all add: updateAccount_def Let_def count_ok_refreshed)
  qed
next
  case (AcSetDefault f i)
  then show ?thesis using setDefault_count[OF assms(2), of f i]
    by (auto simp: setDefaultAccount_def split_beta count_ok_refreshed)
next
  case (AcSetEnabled f i v)
  obtain r ac1 where u: "on_manager (am_setEnabled B K f i v) ac = (r, ac1)" by fastforce
  have "\<not> r \<Longrightarrow> count_ok ac1"
    by (rule on_manager_count[OF u assms(2)]) (auto dest: failed_count)
  then show ?thesis using AcSetEnabled u by (cases r) (simp_all add: setAccountEnabled_def count_ok_refreshed)
next
  case (AcSetActive i)
  then show ?thesis using assms(2) by (simp add: setActiveAccountId_def count_ok_def ac_emit_def)
next
  case (AcEvent ev)
  have "count_ok (snd (on_manager (\<lambda>am. ((), am_event ev am)) ac))"
    by (rule on_manager_count[OF prod.collapse[symmetric] assms(2)])
      (use event_states[of ev "ac_accounts ac"] in \<open>auto simp: same_states_count\<close>)
  then show ?thesis using AcEvent by (simp add: on_backend_event_def)
next
  case AcNetworkBack
  then show ?thesis using assms(4) by simp
next
  case AcDeliver
  then show ?thesis
    using assms(2) by (auto simp: deliver_registration_def on_registration_def Let_def count_ok_refreshed split: list.split)
qed

lemma run_count: "inv ac \<Longrightarrow> count_ok ac \<Longrightarrow> fresh_run B K ops ac \<Longrightarrow> calm_run B K ops ac \<Longrightarrow> count_ok (ac_run B K ops ac)"
  by (induction ops arbitrary: ac) (simp_all add: inv_apply count_apply)

end

interpretation fake_ui: accounts_ui FakeB fake_ok fake_accts MemK "\<lambda>_. True" fb_stunServers fb_codecPriority
  by unfold_locales (auto simp: FakeB_def keeps_view_def fake_ok_def fake_accts_def)

text \<open>The controller on a manager the program reaches.\<close>

definition ui_start :: "fake_backend \<Rightarrow> database \<Rightarrow> memory_keychain \<Rightarrow> am_op list \<Rightarrow> (fake_backend, memory_keychain) accounts_controller" where
  "ui_start b db kc ops = ac_new FakeB (am_reach b db kc ops)"

lemma states_live_run:
  "am_ok fake_ok fake_accts MemK (\<lambda>_. True) am \<Longrightarrow> states_live am \<Longrightarrow> run_fresh FakeB MemK ops am \<Longrightarrow>
   states_live (am_run FakeB MemK ops am)"
proof (induction ops arbitrary: am)
  case (Cons op ops)
  have "reg_ok fake_ok fake_accts am" using Cons.prems(1) by (simp add: am_ok_def)
  then show ?case
    using Cons.IH[of "am_apply FakeB MemK op am"] Cons.prems fake_accounts.apply_am_ok apply_live[OF Cons.prems(2)] by simp
qed simp

lemma ui_start_inv:
  assumes "am_start_ok b db kc ops"
  shows "fake_ui.inv (ui_start b db kc ops)"
proof -
  have "states_live (am_new True b db kc)"
    by (simp add: states_live_def am_new_def loadFromDatabase_def stateOf_def)
  then have "states_live (am_reach b db kc ops)"
    unfolding am_reach_def using assms by (intro states_live_run am_ok_new) (auto simp: am_start_ok_def)
  then have "fake_ui.inv (refreshRegisteredAccountCount
      \<lparr>ac_accounts = am_reach b db kc ops, ac_model = m, ac_registeredAccountCount = 0, ac_activeAccountId = -1,
       ac_lastState = (\<lambda>_. None), ac_queued = [], ac_signals = []\<rparr>)" for m
    using am_reach_ok[OF assms] by (simp add: fake_ui.inv_def)
  then show ?thesis unfolding ui_start_def ac_new_def by (intro fake_ui.inv_push)
qed

text \<open>Once every notification has been delivered the registered count is the number of accounts the
  manager holds as registered, whatever the user and the backend did, provided that no removal failed
  half way and no network change came in between.\<close>

theorem registered_count_exact:
  assumes "am_start_ok b db kc mops" "fresh_run FakeB MemK ops (ui_start b db kc mops)"
    and "calm_run FakeB MemK ops (ui_start b db kc mops)" "ac_queued (ac_run FakeB MemK ops (ui_start b db kc mops)) = []"
  shows "ac_registeredAccountCount (ac_run FakeB MemK ops (ui_start b db kc mops)) =
    count_registered (ac_accounts (ac_run FakeB MemK ops (ui_start b db kc mops)))"
proof -
  have "count_ok (ui_start b db kc mops)" by (simp add: ui_start_def ac_new_def count_ok_refreshed)
  from fake_ui.run_count[OF ui_start_inv[OF assms(1)] this assms(2,3)] show ?thesis
    using assms(4) by (simp add: count_ok_def)
qed

text \<open>The test account answers its registration, and the answer is shown.\<close>

definition answered :: "ac_op list" where
  "answered = [AcEvent (OnRegState 1 True 200 ''OK''), AcDeliver]"

definition example_ui :: "(fake_backend, memory_keychain) accounts_controller" where
  "example_ui = ui_start running_fake empty_db (\<lambda>_. None) example_ops"

lemma answered_run: "fresh_run FakeB MemK answered example_ui" "calm_run FakeB MemK answered example_ui"
  by (simp_all add: answered_def)

lemma example_ui_state:
  "ac_queued (ac_run FakeB MemK answered example_ui) = []"
  "count_registered (ac_accounts (ac_run FakeB MemK answered example_ui)) = 1"
  by code_simp+

theorem registered_count_exact_witness:
  "ac_registeredAccountCount (ac_run FakeB MemK answered example_ui) = 1"
  using registered_count_exact[OF example_start_ok, of answered] answered_run example_ui_state
  by (simp add: example_ui_def)

subsection \<open>What is not announced\<close>

lemma unregister_other: "j \<noteq> i \<Longrightarrow> stateOf j (unregisterAccount B i am) = stateOf j am"
  by (auto simp: unregisterAccount_def Let_def stateOf_def split: option.splits prod.splits)

context accounts_env begin

lemma unregister_state:
  assumes "reg_ok ok accts am" "states_live am"
  shows "stateOf i (unregisterAccount B i am) = Unregistered"
  using unregisterAccount_reg_ok(2)[OF assms(1), of i] unregister_live[OF assms(2), of B i] by (auto simp: states_live_def)

lemma reregister_states:
  "reg_ok ok accts am \<Longrightarrow> states_live am \<Longrightarrow> i \<in> set is \<or> stateOf i am = Unregistered \<Longrightarrow>
   stateOf i (fold (\<lambda>i am. snd (registerAccount B K i (unregisterAccount B i am))) is am) = Unregistered"
proof (induction "is" arbitrary: am)
  case (Cons j js)
  let ?am1 = "snd (registerAccount B K j (unregisterAccount B j am))"
  have "reg_ok ok accts ?am1" by (intro registerAccount_reg_ok unregisterAccount_reg_ok Cons.prems(1))
  moreover have "states_live ?am1" by (intro register_live unregister_live Cons.prems(2))
  moreover have "stateOf i ?am1 = stateOf i (unregisterAccount B j am)" by (simp add: stateOf_def)
  then have "i \<in> set js \<or> stateOf i ?am1 = Unregistered"
    using Cons.prems unregister_state[OF Cons.prems(1,2)] unregister_other[of i j B am] by (cases "i = j") auto
  ultimately show ?case using Cons.IH by simp
qed simp

end

lemma on_network_back_unfold:
  "ac_accounts (on_network_back B K ac) = (reregisterAllEnabled B K ((ac_accounts ac)\<lparr>am_signals := []\<rparr>))\<lparr>am_signals := am_signals (ac_accounts ac)\<rparr>"
  "ac_registeredAccountCount (on_network_back B K ac) = ac_registeredAccountCount ac"
  "ac_signals (on_network_back B K ac) = ac_signals ac" "ac_model (on_network_back B K ac) = ac_model ac"
  "ac_queued (on_network_back B K ac) = ac_queued ac"
  using reregisterAllEnabled_frame[of "(ac_accounts ac)\<lparr>am_signals := []\<rparr>" B K]
  by (simp_all add: on_network_back_def on_manager_def Let_def registers_only_def reg_signals_def)

text \<open>When the network comes back every startup account stops being registered at once, but neither the
  count nor the list nor any signal says so: until the backend reports on an account, the old state is
  shown, and an account whose registration cannot even be started is shown as registered for ever.\<close>

theorem network_back_unannounced:
  assumes "am_start_ok b db kc mops" "fresh_run FakeB MemK ops (ui_start b db kc mops)"
    and "ac = ac_run FakeB MemK ops (ui_start b db kc mops)"
  shows "filter (\<lambda>a. acc_enabled a \<and> acc_registerOnStartup a \<and> stateOf (acc_id a) (ac_accounts (on_network_back FakeB MemK ac)) \<noteq> Unregistered)
      (am_list (ac_accounts (on_network_back FakeB MemK ac))) = []
    \<and> ac_registeredAccountCount (on_network_back FakeB MemK ac) = ac_registeredAccountCount ac
    \<and> ac_signals (on_network_back FakeB MemK ac) = ac_signals ac
    \<and> ac_model (on_network_back FakeB MemK ac) = ac_model ac
    \<and> ac_queued (on_network_back FakeB MemK ac) = ac_queued ac"
proof -
  let ?am = "(ac_accounts ac)\<lparr>am_signals := []\<rparr>"
  have "fake_ui.inv ac" unfolding assms(3) by (rule fake_ui.run_inv[OF ui_start_inv[OF assms(1)] assms(2)])
  then have ok: "reg_ok fake_ok fake_accts ?am" "states_live ?am"
    by (simp_all add: fake_ui.inv_def am_ok_def reg_ok_def)
  have "stateOf (acc_id a) (reregisterAllEnabled FakeB MemK ?am) = Unregistered"
    if "a \<in> set (am_list ?am)" "acc_enabled a" "acc_registerOnStartup a" for a
    unfolding reregisterAllEnabled_def Let_def
    by (rule fake_accounts.reregister_states[OF ok]) (use that in \<open>auto simp: am_list_def\<close>)
  then show ?thesis by (auto simp: on_network_back_unfold filter_empty_conv)
qed

theorem network_back_unannounced_witness:
  "ac_registeredAccountCount (on_network_back FakeB MemK (ac_run FakeB MemK answered example_ui)) = 1
   \<and> count_registered (ac_accounts (on_network_back FakeB MemK (ac_run FakeB MemK answered example_ui))) = 0"
proof -
  let ?ac = "ac_run FakeB MemK answered example_ui"
  note n = network_back_unannounced[OF example_start_ok, of answered, folded example_ui_def, OF answered_run(1) refl]
  have "ac_registeredAccountCount ?ac = 1" by code_simp
  moreover have "count_registered (ac_accounts (on_network_back FakeB MemK ?ac)) = 0" by code_simp
  ultimately show ?thesis using n by simp
qed

fun is_notice :: "accounts_signal \<Rightarrow> bool" where
  "is_notice (RegistrationFailed m) = True"
| "is_notice _ = False"

definition notices :: "('b, 'k) accounts_controller \<Rightarrow> accounts_signal list" where
  "notices ac = filter is_notice (ac_signals ac)"

lemma notices_frames [simp]:
  "notices (refreshModel ac) = notices ac" "notices (refreshRegisteredAccountCount ac) = notices ac"
  "notices (ac_emit ActiveAccountIdChanged ac) = notices ac" "notices (pushNetworkAndCodecSettings B ac) = notices ac"
  by (simp_all add: notices_def refreshRegisteredAccountCount_def ac_emit_def Let_def)

text \<open>No command of the manager announces a registration state.\<close>

lemma silent_ops:
  "am_signals (snd (am_update B K f a am)) = am_signals am" "am_signals (snd (am_setDefault f i am)) = am_signals am"
  "am_signals (snd (am_setPassword B K i pw am)) = am_signals am"
proof -
  have r: "am_signals (snd (registerAccount B K i am)) = am_signals am" "am_signals (unregisterAccount B i am) = am_signals am" for i am
    using registerAccount_frame[of am B K i] unregisterAccount_frame[of am B i] by (simp_all add: registers_only_def)
  show "am_signals (snd (am_update B K f a am)) = am_signals am" "am_signals (snd (am_setPassword B K i pw am)) = am_signals am"
    by (auto simp: am_update_def am_setPassword_def Let_def r set_entry_def split: option.splits prod.splits bool.splits)
  show "am_signals (snd (am_setDefault f i am)) = am_signals am"
    by (auto simp: am_setDefault_def sql_begin_def sql_update_accounts_def sql_commit_def sql_rollback_def)
qed

lemma on_manager_silent:
  assumes "\<And>am. am_signals (snd (f am)) = am_signals am"
  shows "ac_queued (snd (on_manager f ac)) = ac_queued ac" "ac_lastState (snd (on_manager f ac)) = ac_lastState ac"
    "notices (snd (on_manager f ac)) = notices ac"
  using assms[of "(ac_accounts ac)\<lparr>am_signals := []\<rparr>"] by (auto simp: on_manager_def Let_def reg_signals_def notices_def split: prod.split)

lemma updateAccount_silent:
  assumes "updateAccount B K f g i p ac = (ok, ac1)"
  shows "ac_queued ac1 = ac_queued ac" "ac_lastState ac1 = ac_lastState ac" "notices ac1 = notices ac"
proof -
  note s = on_manager_silent[where f = "am_update B K f _", OF silent_ops(1)] on_manager_silent[where f = "am_setDefault g i", OF silent_ops(2)]
    on_manager_silent[where f = "am_setPassword B K i _", OF silent_ops(3)]
  have "ac_queued ac1 = ac_queued ac \<and> ac_lastState ac1 = ac_lastState ac \<and> notices ac1 = notices ac"
  proof (cases "am_find i (ac_accounts ac)")
    case None
    then show ?thesis using assms by (simp add: updateAccount_def)
  next
    case (Some a)
    let ?r = "on_manager (am_update B K f (default_authUser (applyParams p a))) ac"
    show ?thesis
      using assms Some by (cases "fst ?r") (auto simp: updateAccount_def Let_def split_beta s)
  qed
  then show "ac_queued ac1 = ac_queued ac" "ac_lastState ac1 = ac_lastState ac" "notices ac1 = notices ac" by auto
qed

text \<open>An account failed to register and the user edits it, with a new password for instance: if the new
  attempt fails as well, whatever the reason, nothing is said.\<close>

theorem edited_account_fails_silently:
  assumes "ac_lastState ac i = Some Failed" "ac_queued ac = []" "updateAccount B K f g i p ac = (ok, ac1)"
    and "accountIdForBackend bid (ac_accounts ac1) = i" "i \<noteq> kInvalidAccountId" "sipCode \<noteq> 0" "sipCode div 100 \<noteq> 2"
  shows "stateOf i (ac_accounts (deliver_registration (on_backend_event (OnRegState bid active sipCode reason) ac1))) = Failed
    \<and> notices (deliver_registration (on_backend_event (OnRegState bid active sipCode reason) ac1)) = notices ac"
proof -
  let ?am = "(ac_accounts ac1)\<lparr>am_signals := []\<rparr>"
  have f: "ru_state (mapRegEvent active sipCode reason err) = Failed" for err using assms(6,7) by (simp add: mapRegEvent_def)
  have bid: "accountIdForBackend bid ?am = i" using assms(4) by (simp add: accountIdForBackend_def)
  let ?ac2 = "on_backend_event (OnRegState bid active sipCode reason) ac1"
  have q: "ac_queued ?ac2 = [(i, Failed)]" "ac_lastState ?ac2 = ac_lastState ac1" "notices ?ac2 = notices ac1"
    "stateOf i (ac_accounts ?ac2) = Failed"
    using assms(2,5) bid updateAccount_silent(1)[OF assms(3)]
    by (simp_all add: on_backend_event_def on_manager_def Let_def am_event_def am_onRegState_def am_emit_def reg_signals_def f
        notices_def stateOf_def)
  then show ?thesis
    using assms(1) updateAccount_silent(2,3)[OF assms(3)]
    by (simp add: deliver_registration_def on_registration_def Let_def) (simp add: notices_def)
qed

text \<open>The test account is refused, is saved again, and is refused again.\<close>

definition refused :: "ac_op list" where
  "refused = [AcEvent (OnRegState 1 False 403 ''Forbidden''), AcDeliver]"

theorem edited_account_fails_silently_witness:
  "let ac = ac_run FakeB MemK refused example_ui;
       ac1 = snd (updateAccount FakeB MemK (\<lambda>_. True) (\<lambda>_. True) 1 (\<lambda>_. None) ac)
   in length (notices ac) = 1 \<and>
      notices (deliver_registration (on_backend_event (OnRegState 2 False 401 ''Unauthorized'') ac1)) = notices ac"
proof -
  let ?ac = "ac_run FakeB MemK refused example_ui"
  let ?u = "updateAccount FakeB MemK (\<lambda>_. True) (\<lambda>_. True) 1 (\<lambda>_. None) ?ac"
  have "ac_lastState ?ac 1 = Some Failed" "ac_queued ?ac = []" "length (notices ?ac) = 1"
    by code_simp+
  moreover have "accountIdForBackend 2 (ac_accounts (snd ?u)) = 1" by code_simp
  ultimately show ?thesis
    using edited_account_fails_silently[OF _ _ prod.collapse[symmetric, of ?u], of 2 401 False "''Unauthorized''"]
    by (simp add: Let_def kInvalidAccountId_def)
qed

end
