(* ===== verification/BootConfig.thy ===== *)
theory BootConfig imports AccountsView Complex_Main begin

text \<open>
  Boot configuration: \<open>core/BootConfig_secrets.cpp\<close>, \<open>BootConfig_file.cpp\<close>, \<open>BootConfig_parser.cpp\<close>, and how
  the headless program applies it (\<open>headless_main.cpp\<close>).  The world outside is a record: the
  environment, the files with passwords, the lines on standard input, and for each provisioning file
  the JSON value it holds, if it can be read and parsed.  Reads of standard input consume it.  Warnings
  on standard error are left out.
\<close>

subsection \<open>JSON values, as Qt reads them\<close>

datatype json = JNull | JBool bool | JNumber rat | JString string | JArray "json list" | JObject "(string \<times> json) list"

definition j_value :: "(string \<times> json) list \<Rightarrow> string \<Rightarrow> json option" where
  "j_value obj k = map_of obj k"

fun j_toBool :: "bool \<Rightarrow> json option \<Rightarrow> bool" where
  "j_toBool d (Some (JBool b)) = b"
| "j_toBool d _ = d"

text \<open>A number that is no \<open>int\<close> gives the default.\<close>

fun j_toInt :: "int \<Rightarrow> json option \<Rightarrow> int" where
  "j_toInt d (Some (JNumber r)) = (if of_int \<lfloor>r\<rfloor> = r \<and> fits_int \<lfloor>r\<rfloor> then \<lfloor>r\<rfloor> else d)"
| "j_toInt d _ = d"

fun j_toString :: "json option \<Rightarrow> string" where
  "j_toString (Some (JString s)) = s"
| "j_toString _ = []"

subsection \<open>The world and the configuration\<close>

record boot_world =
  w_env :: "string \<Rightarrow> string option"
  w_files :: "string \<Rightarrow> string option"
  w_json :: "string \<Rightarrow> json option"
  w_appData :: "string list"
  w_unix :: bool

record boot_account =
  ba_params :: params
  ba_password :: string
  ba_registerOnStart :: bool

record boot_config =
  bc_accounts :: "boot_account list"
  bc_autoAnswer :: "bool option"
  bc_dnd :: "bool option"
  bc_minimizeToTray :: "bool option"
  bc_theme :: "string option"
  bc_logLevel :: "string option"
  bc_logFile :: "string option"
  bc_headlessCallUri :: "string option"
  bc_headlessAutoAnswer :: "bool option"
  bc_headlessPlayFile :: "string option"
  bc_headlessLoopPlayFile :: "bool option"
  bc_headlessDurationSec :: "int option"
  bc_headlessExitAfterCall :: "bool option"
  bc_replaceAccounts :: bool

definition no_config :: boot_config where
  "no_config = \<lparr>bc_accounts = [], bc_autoAnswer = None, bc_dnd = None, bc_minimizeToTray = None, bc_theme = None,
     bc_logLevel = None, bc_logFile = None, bc_headlessCallUri = None, bc_headlessAutoAnswer = None,
     bc_headlessPlayFile = None, bc_headlessLoopPlayFile = None, bc_headlessDurationSec = None,
     bc_headlessExitAfterCall = None, bc_replaceAccounts = False\<rparr>"

definition over :: "'a option \<Rightarrow> 'a option \<Rightarrow> 'a option" where
  "over base incoming = (case incoming of Some v \<Rightarrow> Some v | None \<Rightarrow> base)"

definition mergeInto :: "boot_config \<Rightarrow> boot_config \<Rightarrow> boot_config" where
  "mergeInto base incoming = \<lparr>
     bc_accounts = bc_accounts base @ bc_accounts incoming,
     bc_autoAnswer = over (bc_autoAnswer base) (bc_autoAnswer incoming),
     bc_dnd = over (bc_dnd base) (bc_dnd incoming),
     bc_minimizeToTray = over (bc_minimizeToTray base) (bc_minimizeToTray incoming),
     bc_theme = over (bc_theme base) (bc_theme incoming),
     bc_logLevel = over (bc_logLevel base) (bc_logLevel incoming),
     bc_logFile = over (bc_logFile base) (bc_logFile incoming),
     bc_headlessCallUri = over (bc_headlessCallUri base) (bc_headlessCallUri incoming),
     bc_headlessAutoAnswer = over (bc_headlessAutoAnswer base) (bc_headlessAutoAnswer incoming),
     bc_headlessPlayFile = over (bc_headlessPlayFile base) (bc_headlessPlayFile incoming),
     bc_headlessLoopPlayFile = over (bc_headlessLoopPlayFile base) (bc_headlessLoopPlayFile incoming),
     bc_headlessDurationSec = over (bc_headlessDurationSec base) (bc_headlessDurationSec incoming),
     bc_headlessExitAfterCall = over (bc_headlessExitAfterCall base) (bc_headlessExitAfterCall incoming),
     bc_replaceAccounts = (bc_replaceAccounts base \<or> bc_replaceAccounts incoming)\<rparr>"

subsection \<open>Passwords\<close>

definition first_line :: "string \<Rightarrow> string" where
  "first_line s = takeWhile (\<lambda>c. c \<noteq> CHR 0x0A) s"

definition resolvePassword :: "boot_world \<Rightarrow> string \<Rightarrow> string list \<Rightarrow> string \<times> string list" where
  "resolvePassword w spec input =
     (if spec = [] then ([], input)
      else if starts_with ''@env:'' spec
      then (case w_env w (drop 5 spec) of None \<Rightarrow> [] | Some v \<Rightarrow> v, input)
      else if starts_with ''@file:'' spec
      then (case w_files w (drop 6 spec) of None \<Rightarrow> [] | Some t \<Rightarrow> trim_with q_space (first_line t), input)
      else if spec = ''@stdin''
      then (case input of [] \<Rightarrow> ([], []) | l # ls \<Rightarrow> (l, ls))
      else (spec, input))"

subsection \<open>A provisioning file\<close>

definition set_str :: "(string \<times> json) list \<Rightarrow> string \<Rightarrow> string \<Rightarrow> params \<Rightarrow> params" where
  "set_str obj src dst p =
     (case j_value obj src of Some (JString s) \<Rightarrow> if s \<noteq> [] then p(dst \<mapsto> RvString s) else p | _ \<Rightarrow> p)"

definition set_bool :: "(string \<times> json) list \<Rightarrow> string \<Rightarrow> string \<Rightarrow> params \<Rightarrow> params" where
  "set_bool obj src dst p =
     (if j_value obj src \<noteq> None then p(dst \<mapsto> RvBool (j_toBool False (j_value obj src))) else p)"

definition set_int :: "(string \<times> json) list \<Rightarrow> string \<Rightarrow> string \<Rightarrow> params \<Rightarrow> params" where
  "set_int obj src dst p =
     (if j_value obj src \<noteq> None then p(dst \<mapsto> RvInt (j_toInt 0 (j_value obj src))) else p)"

fun join_with :: "string \<Rightarrow> string list \<Rightarrow> string" where
  "join_with sep [] = []"
| "join_with sep [x] = x"
| "join_with sep (x # y # xs) = x @ sep @ join_with sep (y # xs)"

definition set_codecs :: "(string \<times> json) list \<Rightarrow> params \<Rightarrow> params" where
  "set_codecs obj p =
     (case j_value obj ''codecs'' of
        Some (JArray cs) \<Rightarrow> p(''codecs'' \<mapsto> RvString (join_with '','' (map (\<lambda>c. j_toString (Some c)) cs)))
      | Some (JString s) \<Rightarrow> p(''codecs'' \<mapsto> RvString s)
      | _ \<Rightarrow> p)"

definition file_params :: "(string \<times> json) list \<Rightarrow> params" where
  "file_params obj =
     (set_codecs obj \<circ>
      set_bool obj ''default'' ''isDefault'' \<circ>
      set_bool obj ''enabled'' ''enabled'' \<circ>
      set_bool obj ''allow_untrusted_cert'' ''allowUntrustedCert'' \<circ>
      set_bool obj ''zrtp_enabled'' ''zrtpEnabled'' \<circ>
      set_bool obj ''hide_caller_id'' ''hideCallerId'' \<circ>
      set_bool obj ''ice_enabled'' ''iceEnabled'' \<circ>
      set_bool obj ''publish_presence_enabled'' ''publishPresenceEnabled'' \<circ>
      set_bool obj ''session_timers_enabled'' ''sessionTimersEnabled'' \<circ>
      set_int obj ''sort_order'' ''sortOrder'' \<circ>
      set_int obj ''keepalive_interval_sec'' ''keepaliveIntervalSec'' \<circ>
      set_int obj ''register_interval_sec'' ''registerIntervalSec'' \<circ>
      set_str obj ''dtmf_method'' ''dtmfMethod'' \<circ>
      set_str obj ''voicemail'' ''voicemailNumber'' \<circ>
      set_str obj ''public_address'' ''publicAddress'' \<circ>
      set_str obj ''stun'' ''stunServer'' \<circ>
      set_str obj ''srtp'' ''srtpMode'' \<circ>
      set_str obj ''proxy'' ''proxy'' \<circ>
      set_str obj ''transport'' ''transport'' \<circ>
      set_str obj ''display_name'' ''displayName'' \<circ>
      set_str obj ''realm'' ''authRealm'' \<circ>
      set_str obj ''auth_user'' ''authUser'' \<circ>
      set_str obj ''server'' ''domain'' \<circ>
      set_str obj ''user'' ''username'' \<circ>
      set_str obj ''label'' ''label'') (\<lambda>_. None)"

definition default_params :: "params \<Rightarrow> params" where
  "default_params p =
     (if param_string p ''authUser'' = [] then p(''authUser'' := p ''username'') else p)"

definition default_label :: "params \<Rightarrow> params" where
  "default_label p =
     (let user = param_string p ''username''; domain = param_string p ''domain'' in
      if param_string p ''label'' = [] \<and> user \<noteq> [] \<and> domain \<noteq> []
      then p(''label'' \<mapsto> RvString (user @ ''@'' @ domain)) else p)"

definition parseAccountObject :: "boot_world \<Rightarrow> (string \<times> json) list \<Rightarrow> string list \<Rightarrow> boot_account \<times> string list" where
  "parseAccountObject w obj input =
     (let onStart = (if j_value obj ''register_on_start'' \<noteq> None then j_toBool True (j_value obj ''register_on_start'') else True);
          p = default_params ((file_params obj)(''registerOnStartup'' \<mapsto> RvBool onStart));
          (password, input1) = (if j_value obj ''password'' \<noteq> None
                                then resolvePassword w (j_toString (j_value obj ''password'')) input else ([], input))
      in (\<lparr>ba_params = default_label p, ba_password = password, ba_registerOnStart = onStart\<rparr>, input1))"

text \<open>Entries that are no objects, and accounts without user or server, are dropped.\<close>

fun file_accounts :: "boot_world \<Rightarrow> json list \<Rightarrow> string list \<Rightarrow> boot_account list \<times> string list" where
  "file_accounts w [] input = ([], input)"
| "file_accounts w (JObject obj # vs) input =
     (case parseAccountObject w obj input of (a, input1) \<Rightarrow>
       (case file_accounts w vs input1 of (as, input2) \<Rightarrow>
         (if param_string (ba_params a) ''username'' = [] \<or> param_string (ba_params a) ''domain'' = [] then as else a # as,
          input2)))"
| "file_accounts w (v # vs) input = file_accounts w vs input"

definition section_of :: "(string \<times> json) list \<Rightarrow> string \<Rightarrow> (string \<times> json) list" where
  "section_of jdoc k = (case j_value jdoc k of Some (JObject d) \<Rightarrow> d | _ \<Rightarrow> [])"

definition opt_bool :: "(string \<times> json) list \<Rightarrow> string \<Rightarrow> bool option" where
  "opt_bool d k = (if j_value d k \<noteq> None then Some (j_toBool False (j_value d k)) else None)"

definition opt_string :: "(string \<times> json) list \<Rightarrow> string \<Rightarrow> string option" where
  "opt_string d k = (if j_value d k \<noteq> None then Some (j_toString (j_value d k)) else None)"

definition opt_int :: "(string \<times> json) list \<Rightarrow> string \<Rightarrow> int option" where
  "opt_int d k = (if j_value d k \<noteq> None then Some (j_toInt 0 (j_value d k)) else None)"

definition loadFromFile :: "boot_world \<Rightarrow> string \<Rightarrow> string list \<Rightarrow> boot_config \<times> string list" where
  "loadFromFile w path input =
     (case w_json w path of
        Some (JObject jdoc) \<Rightarrow>
          if j_toInt 1 (j_value jdoc ''schema_version'') \<noteq> 1 then (no_config, input)
          else (let (accounts, input1) = (case j_value jdoc ''accounts'' of
                        Some (JArray vs) \<Rightarrow> file_accounts w vs input | _ \<Rightarrow> ([], input));
                    d = section_of jdoc ''defaults''; h = section_of jdoc ''headless''
                in (\<lparr>bc_accounts = accounts, bc_autoAnswer = opt_bool d ''autoanswer'', bc_dnd = opt_bool d ''dnd'',
                     bc_minimizeToTray = opt_bool d ''minimize_to_tray'', bc_theme = opt_string d ''theme'',
                     bc_logLevel = opt_string d ''log_level'', bc_logFile = opt_string d ''log_file'',
                     bc_headlessCallUri = opt_string h ''call'', bc_headlessAutoAnswer = opt_bool h ''auto_answer'',
                     bc_headlessPlayFile = opt_string h ''play_file'', bc_headlessLoopPlayFile = opt_bool h ''loop_play_file'',
                     bc_headlessDurationSec = opt_int h ''duration_sec'',
                     bc_headlessExitAfterCall = opt_bool h ''exit_after_call'',
                     bc_replaceAccounts = j_toBool False (j_value jdoc ''replace_accounts'')\<rparr>, input1))
      | _ \<Rightarrow> (no_config, input))"

fun merge_files :: "boot_world \<Rightarrow> string list \<Rightarrow> boot_config \<Rightarrow> string list \<Rightarrow> boot_config \<times> string list" where
  "merge_files w [] cfg input = (cfg, input)"
| "merge_files w (path # paths) cfg input =
     (case loadFromFile w path input of (incoming, input1) \<Rightarrow> merge_files w paths (mergeInto cfg incoming) input1)"

definition filePath :: "string \<Rightarrow> string \<Rightarrow> string" where
  "filePath dir name = (if dir \<noteq> [] \<and> last dir = CHR ''/'' then dir @ name else dir @ ''/'' @ name)"

definition searched_paths :: "boot_world \<Rightarrow> string list" where
  "searched_paths w =
     (if w_unix w then [''/etc/compactphone/provisioning.json''] else []) @
     map (\<lambda>dir. filePath dir ''provisioning.json'') (w_appData w) @
     (case w_env w ''COMPACTPHONE_CONFIG'' of Some p \<Rightarrow> if p \<noteq> [] then [p] else [] | None \<Rightarrow> [])"

definition discoverProvisioning :: "boot_world \<Rightarrow> string list \<Rightarrow> boot_config \<times> string list" where
  "discoverProvisioning w input = merge_files w (searched_paths w) no_config input"

subsection \<open>The command line\<close>

text \<open>The options of \<open>configureParser\<close>, those with a value and those without.\<close>

definition value_options :: "string list" where
  "value_options =
     [''sip-server'', ''sip-port'', ''sip-user'', ''sip-auth-user'', ''sip-password'', ''sip-password-file'',
      ''sip-realm'', ''sip-proxy'', ''sip-transport'', ''sip-srtp'', ''sip-display-name'', ''sip-stun'',
      ''sip-public-address'', ''sip-codecs'', ''sip-voicemail'', ''sip-register-interval'',
      ''sip-keepalive-interval'', ''sip-session-timers'', ''sip-dtmf-method'', ''sip-enabled'', ''sip-sort-order'',
      ''sip-label'', ''register-on-start'', ''theme'', ''log-level'', ''log-file'', ''config'', ''call'',
      ''play-file'', ''duration-sec'']"

definition flag_options :: "string list" where
  "flag_options =
     [''sip-password-stdin'', ''sip-publish-presence'', ''no-sip-publish-presence'', ''sip-ice'', ''no-sip-ice'',
      ''sip-hide-caller-id'', ''no-sip-hide-caller-id'', ''sip-zrtp'', ''no-sip-zrtp'', ''sip-allow-untrusted-cert'',
      ''no-sip-allow-untrusted-cert'', ''sip-default'', ''replace-account'', ''autoanswer'', ''auto-answer'',
      ''dnd'', ''minimize-to-tray'', ''loop-play-file'', ''exit-after-call'']"

text \<open>
  \<open>QCommandLineParser::process\<close>: the long options found, in order, or \<open>None\<close> when the process ends there: an
  unknown option, a missing or unexpected value, or a request for help or the version.  Only those have
  short forms, so every argument with a single dash ends the process.
\<close>

fun scan_args :: "string list \<Rightarrow> (string \<times> string) list option" where
  "scan_args [] = Some []"
| "scan_args (a # rest) =
     (if a = ''--'' then Some []
      else if starts_with ''--'' a then
        (let body = drop 2 a;
             (name, given) = (case find_char (CHR ''='') body of None \<Rightarrow> (body, None)
                                | Some n \<Rightarrow> (take n body, Some (drop (Suc n) body)))
         in if name \<in> set value_options then
              (case given of
                 Some v \<Rightarrow> map_option (\<lambda>os. (name, v) # os) (scan_args rest)
               | None \<Rightarrow> (case rest of [] \<Rightarrow> None | v # rest' \<Rightarrow> map_option (\<lambda>os. (name, v) # os) (scan_args rest')))
            else if name \<in> set flag_options \<and> given = None then map_option (\<lambda>os. (name, []) # os) (scan_args rest)
            else None)
      else if starts_with ''-'' a \<and> a \<noteq> ''-'' then None
      else scan_args rest)"

type_synonym options = "(string \<times> string) list"

definition isSet :: "options \<Rightarrow> string \<Rightarrow> bool" where
  "isSet os name \<longleftrightarrow> map_of os name \<noteq> None"

text \<open>The last value given; one option has a default.\<close>

definition opt_value :: "options \<Rightarrow> string \<Rightarrow> string" where
  "opt_value os name =
     (case map_of (rev os) name of Some v \<Rightarrow> v | None \<Rightarrow> if name = ''register-on-start'' then ''yes'' else [])"

definition boolOptionValue :: "string \<Rightarrow> bool \<Rightarrow> bool" where
  "boolOptionValue value fallback =
     (let v = map q_lower (trim_with q_space value) in
      if v \<in> set [''0'', ''no'', ''false'', ''off''] then False
      else if v \<in> set [''1'', ''yes'', ''true'', ''on''] then True
      else fallback)"

definition hasPort :: "string \<Rightarrow> bool" where
  "hasPort server =
     (if starts_with ''['' server then find_sub '']:'' server \<noteq> None
      else count_list server (CHR '':'') = 1)"

definition serverWithOptionalPort :: "string \<Rightarrow> string \<Rightarrow> string" where
  "serverWithOptionalPort server port =
     (let trimmedServer = trim_with q_space server; trimmedPort = trim_with q_space port in
      if trimmedServer = [] \<or> trimmedPort = [] \<or> hasPort trimmedServer then trimmedServer
      else if starts_with ''['' trimmedServer \<and> ends_with '']'' trimmedServer then trimmedServer @ '':'' @ trimmedPort
      else if CHR '':'' \<in> set trimmedServer then ''['' @ trimmedServer @ '']:'' @ trimmedPort
      else trimmedServer @ '':'' @ trimmedPort)"

definition setBoolPair :: "options \<Rightarrow> string \<Rightarrow> string \<Rightarrow> string \<Rightarrow> params \<Rightarrow> params" where
  "setBoolPair os positive negative dst p =
     (let p1 = (if isSet os positive then p(dst \<mapsto> RvBool True) else p)
      in if isSet os negative then p1(dst \<mapsto> RvBool False) else p1)"

definition set_opt :: "options \<Rightarrow> string \<Rightarrow> string \<Rightarrow> (string \<Rightarrow> role_value) \<Rightarrow> params \<Rightarrow> params" where
  "set_opt os name dst conv p = (if isSet os name then p(dst \<mapsto> conv (opt_value os name)) else p)"

definition int_value :: "string \<Rightarrow> int" where
  "int_value s = (case q_toInt s of None \<Rightarrow> 0 | Some i \<Rightarrow> i)"

definition account_flags :: "string list" where
  "account_flags = filter (\<lambda>nm. starts_with ''sip-'' nm \<or> starts_with ''no-sip-'' nm \<or> nm = ''register-on-start'') (value_options @ flag_options)"

definition cli_password :: "boot_world \<Rightarrow> options \<Rightarrow> string list \<Rightarrow> string \<times> string list" where
  "cli_password w os input =
     (if isSet os ''sip-password-stdin'' then resolvePassword w ''@stdin'' input
      else if isSet os ''sip-password-file'' then resolvePassword w (''@file:'' @ opt_value os ''sip-password-file'') input
      else if isSet os ''sip-password'' then resolvePassword w (opt_value os ''sip-password'') input
      else ([], input))"

definition cli_params :: "options \<Rightarrow> string \<Rightarrow> string \<Rightarrow> params" where
  "cli_params os user server =
     (let authUser = trim_with q_space (opt_value os ''sip-auth-user'');
          label = trim_with q_space (opt_value os ''sip-label'')
      in (set_opt os ''sip-sort-order'' ''sortOrder'' (\<lambda>v. RvInt (int_value v)) \<circ>
          set_opt os ''sip-default'' ''isDefault'' (\<lambda>v. RvBool True) \<circ>
          set_opt os ''sip-enabled'' ''enabled'' (\<lambda>v. RvBool (boolOptionValue v True)) \<circ>
          set_opt os ''sip-dtmf-method'' ''dtmfMethod'' (\<lambda>v. RvString (map q_lower v)) \<circ>
          setBoolPair os ''sip-allow-untrusted-cert'' ''no-sip-allow-untrusted-cert'' ''allowUntrustedCert'' \<circ>
          setBoolPair os ''sip-zrtp'' ''no-sip-zrtp'' ''zrtpEnabled'' \<circ>
          setBoolPair os ''sip-hide-caller-id'' ''no-sip-hide-caller-id'' ''hideCallerId'' \<circ>
          setBoolPair os ''sip-ice'' ''no-sip-ice'' ''iceEnabled'' \<circ>
          setBoolPair os ''sip-publish-presence'' ''no-sip-publish-presence'' ''publishPresenceEnabled'' \<circ>
          set_opt os ''sip-session-timers'' ''sessionTimersEnabled'' (\<lambda>v. RvBool (boolOptionValue v True)) \<circ>
          set_opt os ''sip-keepalive-interval'' ''keepaliveIntervalSec'' (\<lambda>v. RvInt (int_value v)) \<circ>
          set_opt os ''sip-register-interval'' ''registerIntervalSec'' (\<lambda>v. RvInt (int_value v)) \<circ>
          set_opt os ''sip-voicemail'' ''voicemailNumber'' RvString \<circ>
          set_opt os ''sip-codecs'' ''codecs'' RvString \<circ>
          set_opt os ''sip-public-address'' ''publicAddress'' RvString \<circ>
          set_opt os ''sip-stun'' ''stunServer'' RvString \<circ>
          set_opt os ''sip-srtp'' ''srtpMode'' (\<lambda>v. RvString (map q_lower v)) \<circ>
          set_opt os ''sip-transport'' ''transport'' (\<lambda>v. RvString (map q_lower v)) \<circ>
          set_opt os ''sip-proxy'' ''proxy'' RvString \<circ>
          set_opt os ''sip-display-name'' ''displayName'' RvString)
         ((\<lambda>p. p(''label'' \<mapsto> RvString (if label = [] then user @ ''@'' @ server else label)))
          (set_opt os ''sip-realm'' ''authRealm'' (\<lambda>v. RvString (trim_with q_space v))
           [''username'' \<mapsto> RvString user, ''domain'' \<mapsto> RvString server,
            ''authUser'' \<mapsto> RvString (if authUser = [] then user else authUser)])))"

definition cli_account :: "boot_world \<Rightarrow> options \<Rightarrow> string list \<Rightarrow> boot_account list" where
  "cli_account w os input =
     (let server = serverWithOptionalPort (opt_value os ''sip-server'') (opt_value os ''sip-port'');
          user = trim_with q_space (opt_value os ''sip-user'') in
      if \<not> list_ex (isSet os) account_flags \<or> server = [] \<or> user = [] then []
      else (let onStart = (if isSet os ''register-on-start'' then boolOptionValue (opt_value os ''register-on-start'') True else True)
            in [\<lparr>ba_params = (cli_params os user server)(''registerOnStartup'' \<mapsto> RvBool onStart),
                 ba_password = fst (cli_password w os input), ba_registerOnStart = onStart\<rparr>]))"

definition flag_opt :: "options \<Rightarrow> string \<Rightarrow> bool option" where
  "flag_opt os name = (if isSet os name then Some True else None)"

definition string_opt :: "options \<Rightarrow> string \<Rightarrow> string option" where
  "string_opt os name = (if isSet os name then Some (opt_value os name) else None)"

definition cli_config :: "boot_world \<Rightarrow> options \<Rightarrow> string list \<Rightarrow> boot_config" where
  "cli_config w os input = \<lparr>
     bc_accounts = cli_account w os input,
     bc_autoAnswer = flag_opt os ''autoanswer'', bc_dnd = flag_opt os ''dnd'',
     bc_minimizeToTray = flag_opt os ''minimize-to-tray'', bc_theme = string_opt os ''theme'',
     bc_logLevel = string_opt os ''log-level'', bc_logFile = string_opt os ''log-file'',
     bc_headlessCallUri = string_opt os ''call'', bc_headlessAutoAnswer = flag_opt os ''auto-answer'',
     bc_headlessPlayFile = string_opt os ''play-file'', bc_headlessLoopPlayFile = flag_opt os ''loop-play-file'',
     bc_headlessDurationSec = map_option int_value (string_opt os ''duration-sec''),
     bc_headlessExitAfterCall = flag_opt os ''exit-after-call'',
     bc_replaceAccounts = isSet os ''replace-account''\<rparr>"

definition parseCommandLine :: "boot_world \<Rightarrow> string list \<Rightarrow> string list \<Rightarrow> boot_config option" where
  "parseCommandLine w args input =
     (case scan_args (tl args) of
        None \<Rightarrow> None
      | Some os \<Rightarrow>
          (case discoverProvisioning w input of (cfg0, input1) \<Rightarrow>
            (let (cfg1, input2) =
                   (if isSet os ''config''
                    then (case loadFromFile w (opt_value os ''config'') input1 of (c, i) \<Rightarrow> (mergeInto cfg0 c, i))
                    else (cfg0, input1))
             in Some (mergeInto cfg1 (cli_config w os input2)))))"

subsection \<open>Applying it\<close>

definition findExistingAccount :: "boot_account \<Rightarrow> ('b, 'k) accounts_manager \<Rightarrow> account_id" where
  "findExistingAccount a am =
     (let user = param_string (ba_params a) ''username''; domain = param_string (ba_params a) ''domain'' in
      if user = [] \<or> domain = [] then kInvalidAccountId
      else case find (\<lambda>x. acc_username x = user \<and> acc_domain x = domain) (am_list am) of
        Some x \<Rightarrow> acc_id x | None \<Rightarrow> kInvalidAccountId)"

text \<open>One account of the configuration; \<open>f\<close>, \<open>g\<close> and \<open>ref\<close> are the outcomes and the new password reference.\<close>

definition applyAccount ::
  "'b isip_backend \<Rightarrow> 'k ikeychain \<Rightarrow> bool \<Rightarrow> (nat \<Rightarrow> bool) \<times> (nat \<Rightarrow> bool) \<times> string \<Rightarrow> boot_account \<Rightarrow>
   ('b, 'k) accounts_controller \<Rightarrow> ('b, 'k) accounts_controller" where
  "applyAccount B K replace env a ac =
     (case env of (f, g, ref) \<Rightarrow>
       (let existingId = (if replace then findExistingAccount a (ac_accounts ac) else kInvalidAccountId);
            p = (if ba_password a \<noteq> [] then (ba_params a)(''password'' \<mapsto> RvString (ba_password a)) else ba_params a)
        in if existingId \<noteq> kInvalidAccountId then snd (updateAccount B K f g existingId p ac)
           else snd (addAccount B K f g ref p ac)))"

fun applyAccounts ::
  "'b isip_backend \<Rightarrow> 'k ikeychain \<Rightarrow> bool \<Rightarrow> ((nat \<Rightarrow> bool) \<times> (nat \<Rightarrow> bool) \<times> string) list \<Rightarrow> boot_account list \<Rightarrow>
   ('b, 'k) accounts_controller \<Rightarrow> ('b, 'k) accounts_controller" where
  "applyAccounts B K replace (env # envs) (a # as) ac =
     applyAccounts B K replace envs as (applyAccount B K replace env a ac)"
| "applyAccounts B K replace _ _ ac = ac"

end
