(* ===== verification/BootProps.thy ===== *)
theory BootProps imports BootConfig begin

text \<open>
  Properties of the boot configuration: which layer wins, that every account it yields can be applied,
  that applying it again duplicates nothing, ports, and what upper case does in a file.
\<close>

subsection \<open>Layers\<close>

fun file_layers :: "boot_world \<Rightarrow> string list \<Rightarrow> string list \<Rightarrow> boot_config list \<times> string list" where
  "file_layers w [] input = ([], input)"
| "file_layers w (path # paths) input =
     (case loadFromFile w path input of (c, input1) \<Rightarrow>
       (case file_layers w paths input1 of (cs, input2) \<Rightarrow> (c # cs, input2)))"

definition boot_layers :: "boot_world \<Rightarrow> options \<Rightarrow> string list \<Rightarrow> boot_config list" where
  "boot_layers w os input =
     (case file_layers w (searched_paths w @ (if isSet os ''config'' then [opt_value os ''config''] else [])) input of
        (cs, input1) \<Rightarrow> cs @ [cli_config w os input1])"

definition last_set :: "('c \<Rightarrow> 'a option) \<Rightarrow> 'c list \<Rightarrow> 'a option" where
  "last_set field cs = (case filter (\<lambda>x. x \<noteq> None) (map field cs) of [] \<Rightarrow> None | ys \<Rightarrow> last ys)"

definition merged :: "boot_config list \<Rightarrow> boot_config" where
  "merged cs = \<lparr>
     bc_accounts = concat (map bc_accounts cs),
     bc_autoAnswer = last_set bc_autoAnswer cs, bc_dnd = last_set bc_dnd cs,
     bc_minimizeToTray = last_set bc_minimizeToTray cs, bc_theme = last_set bc_theme cs,
     bc_logLevel = last_set bc_logLevel cs, bc_logFile = last_set bc_logFile cs,
     bc_headlessCallUri = last_set bc_headlessCallUri cs, bc_headlessAutoAnswer = last_set bc_headlessAutoAnswer cs,
     bc_headlessPlayFile = last_set bc_headlessPlayFile cs, bc_headlessLoopPlayFile = last_set bc_headlessLoopPlayFile cs,
     bc_headlessDurationSec = last_set bc_headlessDurationSec cs,
     bc_headlessExitAfterCall = last_set bc_headlessExitAfterCall cs,
     bc_replaceAccounts = list_ex bc_replaceAccounts cs\<rparr>"

lemma last_set_snoc: "last_set field (cs @ [c]) = over (last_set field cs) (field c)"
  by (auto simp: last_set_def over_def split: list.split option.split)

lemma merged_snoc: "merged (cs @ [c]) = mergeInto (merged cs) c"
  by (simp add: merged_def mergeInto_def last_set_snoc)

lemma merged_Nil: "merged [] = no_config"
  by (simp add: merged_def no_config_def last_set_def)

lemma merge_files_layers:
  "merge_files w paths (merged cs) input = (merged (cs @ fst (file_layers w paths input)), snd (file_layers w paths input))"
proof (induction paths arbitrary: cs input)
  case (Cons p ps)
  obtain c i where l: "loadFromFile w p input = (c, i)" by fastforce
  show ?case using Cons.IH[of "cs @ [c]" i] by (simp add: l merged_snoc split_beta)
qed simp

lemma file_layers_append:
  "file_layers w (ps @ qs) input =
     (fst (file_layers w ps input) @ fst (file_layers w qs (snd (file_layers w ps input))), snd (file_layers w qs (snd (file_layers w ps input))))"
  by (induction ps arbitrary: input) (simp_all add: split_beta)

text \<open>The configuration is the layers in the documented order (system, user, environment, the --config option, command
  line) put together: accounts are appended, and each setting is the one of the last layer that sets it.\<close>

theorem last_layer_wins:
  "parseCommandLine w args input =
     (case scan_args (tl args) of None \<Rightarrow> None | Some os \<Rightarrow> Some (merged (boot_layers w os input)))"
proof (cases "scan_args (tl args)")
  case (Some os)
  have d: "discoverProvisioning w input = (merged (fst (file_layers w (searched_paths w) input)), snd (file_layers w (searched_paths w) input))"
    using merge_files_layers[of w "searched_paths w" "[]" input] by (simp add: discoverProvisioning_def merged_Nil)
  show ?thesis
    by (simp add: parseCommandLine_def Some d boot_layers_def file_layers_append split_beta merged_snoc[symmetric])
qed (simp add: parseCommandLine_def)

subsection \<open>Accounts can be applied\<close>

definition boot_usable :: "boot_account \<Rightarrow> bool" where
  "boot_usable a \<longleftrightarrow> param_string (ba_params a) ''username'' \<noteq> [] \<and> param_string (ba_params a) ''domain'' \<noteq> [] \<and>
     param_string (ba_params a) ''authUser'' \<noteq> [] \<and> param_string (ba_params a) ''label'' \<noteq> [] \<and>
     ba_params a ''registerOnStartup'' = Some (RvBool (ba_registerOnStart a))"

lemma param_string_other [simp]: "k \<noteq> k' \<Longrightarrow> param_string (p(k' := v)) k = param_string p k"
  "param_string (p(k \<mapsto> RvString s)) k = s"
  by (simp_all add: param_string_def)

lemma param_string_copy [simp]: "param_string (p(k := p k')) k = param_string p k'"
  by (simp add: param_string_def)

lemma default_params_lookup:
  "param_string (default_params p) ''username'' = param_string p ''username''"
  "param_string (default_params p) ''domain'' = param_string p ''domain''"
  "param_string p ''username'' \<noteq> [] \<Longrightarrow> param_string (default_params p) ''authUser'' \<noteq> []"
  "default_params p ''registerOnStartup'' = p ''registerOnStartup''"
  by (simp_all add: default_params_def)

lemma default_label_lookup:
  "param_string (default_label p) ''username'' = param_string p ''username''"
  "param_string (default_label p) ''domain'' = param_string p ''domain''"
  "param_string (default_label p) ''authUser'' = param_string p ''authUser''"
  "param_string p ''username'' \<noteq> [] \<Longrightarrow> param_string p ''domain'' \<noteq> [] \<Longrightarrow> param_string (default_label p) ''label'' \<noteq> []"
  "default_label p ''registerOnStartup'' = p ''registerOnStartup''"
  by (simp_all add: default_label_def Let_def)

lemma parsed_usable:
  assumes "parseAccountObject w obj input = (a, input')"
    and "param_string (ba_params a) ''username'' \<noteq> []" "param_string (ba_params a) ''domain'' \<noteq> []"
  shows "boot_usable a"
proof -
  obtain p where a: "ba_params a = default_label (default_params (p(''registerOnStartup'' \<mapsto> RvBool (ba_registerOnStart a))))"
    using assms(1) by (auto simp: parseAccountObject_def Let_def split: prod.splits)
  show ?thesis
    using assms(2,3) unfolding boot_usable_def a
    by (simp add: default_label_lookup default_params_lookup)
qed

lemma file_accounts_usable: "list_all boot_usable (fst (file_accounts w vs input))"
proof (induction w vs input rule: file_accounts.induct)
  case (2 w obj vs input)
  then show ?case using parsed_usable[of w obj input] by (auto split: prod.splits)
qed simp_all

lemma loaded_usable: "list_all boot_usable (bc_accounts (fst (loadFromFile w path input)))"
  using file_accounts_usable
  by (auto simp: loadFromFile_def no_config_def Let_def split_beta split: option.split json.split)

lemma set_opt_other [simp]: "k \<noteq> dst \<Longrightarrow> set_opt os nm dst conv p k = p k"
  by (simp add: set_opt_def)

lemma setBoolPair_other [simp]: "k \<noteq> dst \<Longrightarrow> setBoolPair os pos neg dst p k = p k"
  by (simp add: setBoolPair_def Let_def)

lemma cli_params_lookup:
  "cli_params os user server ''username'' = Some (RvString user)" "cli_params os user server ''domain'' = Some (RvString server)"
  "\<exists>s. cli_params os user server ''authUser'' = Some (RvString s) \<and> (user \<noteq> [] \<longrightarrow> s \<noteq> [])"
  "\<exists>s. cli_params os user server ''label'' = Some (RvString s) \<and> (user \<noteq> [] \<longrightarrow> s \<noteq> [])"
  by (auto simp: cli_params_def Let_def)

lemma cli_usable: "list_all boot_usable (cli_account w os input)"
proof -
  have "boot_usable a" if "a \<in> set (cli_account w os input)" for a
  proof -
    let ?server = "serverWithOptionalPort (opt_value os ''sip-server'') (opt_value os ''sip-port'')"
      and ?user = "trim_with q_space (opt_value os ''sip-user'')"
    have u: "?server \<noteq> []" "?user \<noteq> []" and a: "ba_params a = (cli_params os ?user ?server)(''registerOnStartup'' \<mapsto> RvBool (ba_registerOnStart a))"
      using that by (auto simp: cli_account_def Let_def split: if_splits)
    show ?thesis
      using u cli_params_lookup[of os ?user ?server] unfolding boot_usable_def a
      by (auto simp: param_string_def)
  qed
  then show ?thesis by (simp add: list_all_iff)
qed

lemma file_layers_usable: "list_all (\<lambda>c. list_all boot_usable (bc_accounts c)) (fst (file_layers w paths input))"
proof (induction paths arbitrary: input)
  case (Cons p ps)
  then show ?case using loaded_usable[of w p input] by (simp add: split_beta)
qed simp

lemma layers_usable: "list_all boot_usable (bc_accounts (merged (boot_layers w os input)))"
  using file_layers_usable[of w _ input] cli_usable[of w os]
  by (simp only: merged_def boot_layers_def split_beta list_all_iff boot_config.simps) (auto simp: cli_config_def)

text \<open>Whatever the files and the command line hold, every account of the configuration has a user, a server,
  an authentication user and a label, and says whether it registers at startup.\<close>

theorem boot_accounts_usable:
  "case parseCommandLine w args input of None \<Rightarrow> scan_args (tl args) = None | Some cfg \<Rightarrow> list_all boot_usable (bc_accounts cfg)"
proof (cases "scan_args (tl args)")
  case (Some os)
  have d: "discoverProvisioning w input = (merged (fst (file_layers w (searched_paths w) input)), snd (file_layers w (searched_paths w) input))"
    using merge_files_layers[of w "searched_paths w" "[]" input] by (simp add: discoverProvisioning_def merged_Nil)
  have "parseCommandLine w args input = Some (merged (boot_layers w os input))"
    by (simp add: parseCommandLine_def Some d boot_layers_def file_layers_append split_beta merged_snoc[symmetric])
  then show ?thesis using layers_usable by simp
qed (simp add: parseCommandLine_def)

subsection \<open>Ports\<close>

lemma count_list_append: "count_list (xs @ ys) c = count_list xs c + count_list ys c"
  by (induction xs) auto

text \<open>A server and a port on the command line give an address with the port, also for IPv6 literals, and a
  server that has a port keeps it.\<close>

theorem server_gets_port:
  assumes "trim_with q_space server \<noteq> []" "trim_with q_space port \<noteq> []" "CHR '':'' \<notin> set port"
    and "starts_with ''['' (trim_with q_space server) \<Longrightarrow> hasPort (trim_with q_space server) \<or> ends_with '']'' (trim_with q_space server)"
  shows "hasPort (serverWithOptionalPort server port)
    \<and> (hasPort (trim_with q_space server) \<longrightarrow> serverWithOptionalPort server port = trim_with q_space server)
    \<and> (\<not> hasPort (trim_with q_space server) \<longrightarrow> ends_with ('':'' @ trim_with q_space port) (serverWithOptionalPort server port))"
proof -
  let ?s = "trim_with q_space server" and ?p = "trim_with q_space port"
  have p: "CHR '':'' \<notin> set ?p" using assms(3) set_trim_with by fastforce
  then have cp: "count_list ?p (CHR '':'') = 0" by (simp add: count_list_0_iff)
  consider "hasPort ?s" | "\<not> hasPort ?s" "starts_with ''['' ?s" "ends_with '']'' ?s"
    | "\<not> hasPort ?s" "\<not> starts_with ''['' ?s" "CHR '':'' \<in> set ?s" | "\<not> hasPort ?s" "\<not> starts_with ''['' ?s" "CHR '':'' \<notin> set ?s"
    using assms(4) by blast
  then show ?thesis
  proof cases
    case 1
    then show ?thesis by (simp add: serverWithOptionalPort_def Let_def)
  next
    case 2
    then have e: "serverWithOptionalPort server port = ?s @ '':'' @ ?p" using assms(1,2) by (simp add: serverWithOptionalPort_def Let_def)
    obtain u where u: "?s = u @ '']''" using 2(3) by (metis append_take_drop_id ends_with_def)
    have "find_sub '']:'' (u @ '']:'' @ ?p) \<noteq> None" by (rule find_sub_infix)
    moreover have "starts_with ''['' (?s @ '':'' @ ?p)" using 2(2) by (auto simp: starts_with_iff)
    ultimately have "hasPort (?s @ '':'' @ ?p)" by (simp add: hasPort_def u)
    then show ?thesis using 2(1) ends_with_append[of "'':'' @ ?p" ?s] by (simp add: e)
  next
    case 3
    then have e: "serverWithOptionalPort server port = ''['' @ ?s @ '']:'' @ ?p" using assms(1,2) by (simp add: serverWithOptionalPort_def Let_def)
    have "find_sub '']:'' ((''['' @ ?s) @ '']:'' @ ?p) \<noteq> None" by (rule find_sub_infix)
    then have "hasPort (''['' @ ?s @ '']:'' @ ?p)" by (simp add: hasPort_def starts_with_def)
    moreover have "ends_with ('':'' @ ?p) ((''['' @ ?s @ '']'') @ '':'' @ ?p)" by (rule ends_with_append)
    ultimately show ?thesis using 3(1) by (simp add: e)
  next
    case 4
    then have e: "serverWithOptionalPort server port = ?s @ '':'' @ ?p" using assms(1,2) by (simp add: serverWithOptionalPort_def Let_def)
    have "count_list (?s @ '':'' @ ?p) (CHR '':'') = 1" using 4(3) cp by (simp add: count_list_append count_list_0_iff)
    moreover have "\<not> starts_with ''['' (?s @ '':'' @ ?p)" using 4(2) assms(1) by (cases ?s) (auto simp: starts_with_def)
    ultimately have "hasPort (?s @ '':'' @ ?p)" by (simp add: hasPort_def)
    then show ?thesis using 4(1) ends_with_append[of "'':'' @ ?p" ?s] by (simp add: e)
  qed
qed

theorem server_gets_port_witness:
  "hasPort (serverWithOptionalPort ''::1'' '' 5060 '')"
proof -
  have t: "trim_with q_space ''::1'' = ''::1''" "trim_with q_space '' 5060 '' = ''5060''" by code_simp+
  show ?thesis using server_gets_port[of "''::1''" "'' 5060 ''"] by (simp add: t starts_with_def)
qed

subsection \<open>Upper case in a file\<close>

lemma set_str_other [simp]: "k \<noteq> dst \<Longrightarrow> set_str obj src dst p k = p k"
  by (simp add: set_str_def split: option.split json.split)

lemma set_bool_other [simp]: "k \<noteq> dst \<Longrightarrow> set_bool obj src dst p k = p k"
  by (simp add: set_bool_def)

lemma set_int_other [simp]: "k \<noteq> dst \<Longrightarrow> set_int obj src dst p k = p k"
  by (simp add: set_int_def)

lemma set_codecs_other [simp]: "k \<noteq> ''codecs'' \<Longrightarrow> set_codecs obj p k = p k"
  by (simp add: set_codecs_def split: option.split json.split)

lemma set_str_same:
  "set_str obj src dst p dst = (case j_value obj src of Some (JString s) \<Rightarrow> if s \<noteq> [] then Some (RvString s) else p dst | _ \<Rightarrow> p dst)"
  by (simp add: set_str_def split: option.split json.split)

lemma file_params_lookup:
  "file_params obj ''transport'' = set_str obj ''transport'' ''transport'' (\<lambda>_. None) ''transport''"
  "file_params obj ''srtpMode'' = set_str obj ''srtp'' ''srtpMode'' (\<lambda>_. None) ''srtpMode''"
  by (simp_all add: file_params_def set_str_same split: option.split json.split)

text \<open>A line of \<open>applyParams\<close> leaves the other fields alone.\<close>

lemma param_frames:
  "(\<And>v b. f (put v b) = f b) \<Longrightarrow> f (str_param p k put a) = f a"
  "(\<And>v b. f (put2 v b) = f b) \<Longrightarrow> f (bool_param p k put2 a) = f a"
  "(\<And>v b. f (put3 v b) = f b) \<Longrightarrow> f (int_param p k put3 a) = f a"
  by (simp_all add: str_param_def bool_param_def int_param_def split: option.split)

lemmas transport_frames = param_frames[where f = acc_transport] param_frames[where f = acc_srtpMode]
lemmas key_frames = param_frames[where f = acc_username] param_frames[where f = acc_domain] param_frames[where f = acc_id]

lemma default_authUser_frames [simp]:
  "acc_transport (default_authUser a) = acc_transport a" "acc_srtpMode (default_authUser a) = acc_srtpMode a"
  "acc_username (default_authUser a) = acc_username a" "acc_domain (default_authUser a) = acc_domain a"
  "acc_id (default_authUser a) = acc_id a"
  by (simp_all add: default_authUser_def)

lemma str_param_same: "(\<And>v. f (put v a) = g v) \<Longrightarrow> f (str_param p k put a) = (case p k of None \<Rightarrow> f a | Some v \<Rightarrow> g (q_toString v))"
  by (simp add: str_param_def split: option.split)

lemma applied_fields:
  "acc_transport (applyParams p a) = (case p ''transport'' of None \<Rightarrow> acc_transport a | Some v \<Rightarrow> transportFromString (q_toString v))"
  "acc_srtpMode (applyParams p a) = (case p ''srtpMode'' of None \<Rightarrow> acc_srtpMode a | Some v \<Rightarrow> srtpModeFromString (q_toString v))"
  "acc_username (applyParams p a) = (case p ''username'' of None \<Rightarrow> acc_username a | Some v \<Rightarrow> q_toString v)"
  "acc_domain (applyParams p a) = (case p ''domain'' of None \<Rightarrow> acc_domain a | Some v \<Rightarrow> q_toString v)"
  "acc_id (applyParams p a) = acc_id a"
  by (simp_all add: applyParams_def transport_frames key_frames
      str_param_same[where f = acc_transport] str_param_same[where f = acc_srtpMode]
      str_param_same[where f = acc_username] str_param_same[where f = acc_domain] split: option.split)

lemma parsed_params_lookup:
  assumes "parseAccountObject w obj input = (a, input')" "k \<notin> {''authUser'', ''label'', ''registerOnStartup''}"
  shows "ba_params a k = file_params obj k"
  using assms by (auto simp: parseAccountObject_def Let_def default_params_def default_label_def split: prod.splits if_splits)

lemma string_param_case:
  "g [] = d \<Longrightarrow> (case (case j of Some (JString s) \<Rightarrow> if s \<noteq> [] then Some (RvString s) else None | _ \<Rightarrow> None) of
     None \<Rightarrow> d | Some v \<Rightarrow> g (q_toString v)) = (case j of Some (JString s) \<Rightarrow> g s | _ \<Rightarrow> d)"
  by (auto split: option.split json.split)

text \<open>The transport and the media encryption of an account in a file are recognised in lower case only, while
  the command line takes any case: with "TLS" as the transport in a file the account uses UDP.\<close>

theorem file_transport_case:
  "acc_transport (applyParams (ba_params (fst (parseAccountObject w obj input))) default_account) =
     (case j_value obj ''transport'' of Some (JString s) \<Rightarrow> transportFromString s | _ \<Rightarrow> Udp)
   \<and> acc_srtpMode (applyParams (ba_params (fst (parseAccountObject w obj input))) default_account) =
     (case j_value obj ''srtp'' of Some (JString s) \<Rightarrow> srtpModeFromString s | _ \<Rightarrow> SrtpOptional)
   \<and> transportFromString ''TLS'' = Udp \<and> transportFromString (map q_lower ''TLS'') = Tls
   \<and> acc_transport (applyParams (cli_params os user server) default_account) =
     (if isSet os ''sip-transport'' then transportFromString (map q_lower (opt_value os ''sip-transport'')) else Udp)"
proof -
  obtain a i where p: "parseAccountObject w obj input = (a, i)" by fastforce
  have f: "ba_params a ''transport'' = set_str obj ''transport'' ''transport'' (\<lambda>_. None) ''transport''"
    "ba_params a ''srtpMode'' = set_str obj ''srtp'' ''srtpMode'' (\<lambda>_. None) ''srtpMode''"
    using parsed_params_lookup[OF p] by (simp_all add: file_params_lookup)
  have d: "acc_transport default_account = Udp" "acc_srtpMode default_account = SrtpOptional" by (simp_all add: default_account_def)
  have 1: "acc_transport (applyParams (ba_params a) default_account) =
     (case j_value obj ''transport'' of Some (JString s) \<Rightarrow> transportFromString s | _ \<Rightarrow> Udp)"
    unfolding applied_fields f d set_str_same by (rule string_param_case) (simp add: transportFromString_def)
  have 2: "acc_srtpMode (applyParams (ba_params a) default_account) =
     (case j_value obj ''srtp'' of Some (JString s) \<Rightarrow> srtpModeFromString s | _ \<Rightarrow> SrtpOptional)"
    unfolding applied_fields f d set_str_same by (rule string_param_case) (simp add: srtpModeFromString_def)
  have 3: "transportFromString ''TLS'' = Udp" "transportFromString (map q_lower ''TLS'') = Tls" by code_simp+
  have "cli_params os user server ''transport'' =
      (if isSet os ''sip-transport'' then Some (RvString (map q_lower (opt_value os ''sip-transport''))) else None)"
    by (simp add: cli_params_def Let_def set_opt_def[of os "''sip-transport''"] set_opt_def[of os "''sip-realm''"])
  then show ?thesis using 1 2 3 by (simp add: p applied_fields d)
qed

subsection \<open>Applying the configuration again\<close>

definition account_keys :: "('b, 'k) accounts_manager \<Rightarrow> (string \<times> string) list" where
  "account_keys am = map (\<lambda>a. (acc_username a, acc_domain a)) (am_list am)"

definition boot_key :: "boot_account \<Rightarrow> string \<times> string" where
  "boot_key a = (param_string (ba_params a) ''username'', param_string (ba_params a) ''domain'')"

lemma keys_list: "am_list am' = am_list am \<Longrightarrow> account_keys am' = account_keys am"
  by (simp add: account_keys_def)

lemma setDefault_keys: "account_keys (snd (am_setDefault f i am)) = account_keys am"
proof (cases "fst (am_setDefault f i am)")
  case False
  then show ?thesis using failed_keeps_list(3)[of f i am "snd (am_setDefault f i am)"] by (intro keys_list) (simp add: prod_eq_iff)
next
  case True
  then have "am_entries (snd (am_setDefault f i am)) =
      map (\<lambda>e. e\<lparr>en_account := (en_account e)\<lparr>acc_isDefault := (acc_id (en_account e) = i)\<rparr>\<rparr>) (am_entries am)"
    by (auto simp: am_setDefault_def sql_begin_def sql_update_accounts_def sql_commit_def sql_rollback_def split: if_splits)
  then show ?thesis by (simp add: account_keys_def am_list_def)
qed

lemma register_list [simp]: "am_list (snd (registerAccount B K i am)) = am_list am"
  using registerAccount_frame[of am B K i] by (simp add: registers_only_def)

lemma setPassword_keys: "account_keys (snd (am_setPassword B K i pw am)) = account_keys am"
proof -
  have "am_list (snd (am_setPassword B K i pw am)) = am_list am"
    by (simp add: am_setPassword_def Let_def unregisterAccount_same_cache split: option.split prod.split bool.split)
  then show ?thesis by (rule keys_list)
qed

text \<open>The account found by its id is the one that is written.\<close>

lemma am_find_list: "am_find i am = find (\<lambda>a. acc_id a = i) (am_list am)"
proof -
  have "map_option en_account (find_entry i es) = find (\<lambda>a. acc_id a = i) (map en_account es)" for es
    by (induction es) (auto simp: find_entry_def)
  then show ?thesis by (simp add: am_find_def am_list_def)
qed

lemma set_entry_list:
  "am_list (set_entry i (\<lambda>e. e\<lparr>en_account := a'\<rparr>) am) = upd_first (\<lambda>a. acc_id a = i) (\<lambda>_. a') (am_list am)"
proof -
  have "map en_account (upd_first (\<lambda>e. acc_id (en_account e) = i) (\<lambda>e. e\<lparr>en_account := a'\<rparr>) es) =
      upd_first (\<lambda>a. acc_id a = i) (\<lambda>_. a') (map en_account es)" for es
    by (induction es) auto
  then show ?thesis by (simp add: set_entry_def am_list_def)
qed

lemma upd_first_same: "find P xs = Some x \<Longrightarrow> h a' = h x \<Longrightarrow> map h (upd_first P (\<lambda>_. a') xs) = map h xs"
  by (induction xs) (auto split: if_splits)

lemma update_keys:
  assumes "am_find i am = Some x" "acc_id a = i" "(acc_username a, acc_domain a) = (acc_username x, acc_domain x)"
  shows "account_keys (snd (am_update B K f a am)) = account_keys am"
proof -
  have "map (\<lambda>a. (acc_username a, acc_domain a)) (upd_first (\<lambda>a. acc_id a = i) (\<lambda>_. a\<lparr>acc_isDefault := d, acc_passwordRef := r\<rparr>) (am_list am)) =
      map (\<lambda>a. (acc_username a, acc_domain a)) (am_list am)" for d r
    by (rule upd_first_same) (use assms(1,3) in \<open>simp_all add: am_find_list\<close>)
  then show ?thesis
    using assms(2)
    by (auto simp: am_update_def Let_def account_keys_def set_entry_list unregisterAccount_same_cache
        split: option.splits prod.splits bool.splits)
qed

lemma add_keys:
  "account_keys (snd (am_add B K f ref a pw am)) = account_keys am \<or>
   account_keys (snd (am_add B K f ref a pw am)) = account_keys am @ [(acc_username a, acc_domain a)]"
  by (auto simp: am_add_def Let_def insertRow_def account_keys_def split: option.splits prod.splits bool.splits)
    (simp_all add: am_list_def)

lemma on_manager_keys:
  "account_keys (ac_accounts (snd (on_manager f ac))) = account_keys (snd (f ((ac_accounts ac)\<lparr>am_signals := []\<rparr>)))"
  by (simp add: on_manager_def Let_def split_beta account_keys_def)

lemma shown_keys [simp]:
  "account_keys (ac_accounts (pushNetworkAndCodecSettings B ac)) = account_keys (ac_accounts ac)"
  "account_keys (am\<lparr>am_signals := s\<rparr>) = account_keys am"
  by (simp_all add: account_keys_def)

lemma addAccount_keys:
  assumes "param_string p ''username'' = u" "param_string p ''domain'' = d" "u \<noteq> []" "d \<noteq> []"
  shows "account_keys (ac_accounts (snd (addAccount B K f g ref p ac))) = account_keys (ac_accounts ac) \<or>
    account_keys (ac_accounts (snd (addAccount B K f g ref p ac))) = account_keys (ac_accounts ac) @ [(u, d)]"
proof -
  have "acc_username (applyParams p default_account) = u" "acc_domain (applyParams p default_account) = d"
    using assms by (auto simp: applied_fields param_string_def split: option.splits)
  then have add: "account_keys (ac_accounts (snd (on_manager (am_add B K f ref
      (default_authUser (applyParams p default_account\<lparr>acc_isDefault := b, acc_enabled := e\<rparr>)) pw) ac)))
      \<in> {account_keys (ac_accounts ac), account_keys (ac_accounts ac) @ [(u, d)]}" for b e pw
    using add_keys[of B K f ref "default_authUser (applyParams p default_account\<lparr>acc_isDefault := b, acc_enabled := e\<rparr>)" pw
        "(ac_accounts ac)\<lparr>am_signals := []\<rparr>"]
    by (simp add: on_manager_keys)
  have "account_keys (ac_accounts (snd (on_manager (am_setDefault g i) ac1))) = account_keys (ac_accounts ac1)"
    for i and ac1 :: "('a, 'b) accounts_controller"
    by (simp add: on_manager_keys setDefault_keys)
  then show ?thesis
    using add by (simp add: addAccount_def Let_def split_beta)
qed

lemma updateAccount_keys:
  assumes "am_find i (ac_accounts ac) = Some x" "param_string p ''username'' = acc_username x" "param_string p ''domain'' = acc_domain x"
    and "acc_username x \<noteq> []" "acc_domain x \<noteq> []"
  shows "account_keys (ac_accounts (snd (updateAccount B K f g i p ac))) = account_keys (ac_accounts ac)"
proof -
  let ?a = "default_authUser (applyParams p x)"
  have i: "acc_id x = i" using assms(1) find_SomeD by (fastforce simp: am_find_list)
  have "acc_username ?a = acc_username x" "acc_domain ?a = acc_domain x" "acc_id ?a = i"
    using assms(2-) i by (auto simp: applied_fields param_string_def split: option.splits)
  then have u: "account_keys (snd (am_update B K f ?a ((ac_accounts ac)\<lparr>am_signals := []\<rparr>))) = account_keys (ac_accounts ac)"
    using update_keys[of i "(ac_accounts ac)\<lparr>am_signals := []\<rparr>" x ?a B K f] assms(1) by (simp add: am_find_list)
  obtain ok ac1 where m: "on_manager (am_update B K f ?a) ac = (ok, ac1)" by fastforce
  then have k1: "account_keys (ac_accounts ac1) = account_keys (ac_accounts ac)"
    using u on_manager_keys[of "am_update B K f ?a" ac] by simp
  show ?thesis
    using assms(1) m k1 by (cases ok) (simp_all add: updateAccount_def Let_def on_manager_keys setDefault_keys setPassword_keys)
qed

definition valid_ids :: "('b, 'k) accounts_manager \<Rightarrow> bool" where
  "valid_ids am \<longleftrightarrow> distinct (map acc_id (am_list am)) \<and> kInvalidAccountId \<notin> acc_id ` set (am_list am)"

lemma am_ok_valid_ids: "am_ok ok accts K kok am \<Longrightarrow> valid_ids am"
proof -
  assume ok: "am_ok ok accts K kok am"
  have "1 \<le> i" if "i \<in> acc_id ` set (am_list am)" for i
    using ok that by (auto simp: am_ok_def rows_ok_def db_ok_def Let_def)
  then have "kInvalidAccountId \<notin> acc_id ` set (am_list am)" by (force simp: kInvalidAccountId_def)
  moreover have "distinct (map acc_id (am_list am))" using ok by (simp add: am_ok_def reg_ok_def ids_of_list)
  ultimately show ?thesis by (simp add: valid_ids_def)
qed

lemma find_acc_id: "distinct (map acc_id as) \<Longrightarrow> x \<in> set as \<Longrightarrow> find (\<lambda>a. acc_id a = acc_id x) as = Some x"
  by (induction as) (auto simp: image_iff)

text \<open>One account: known keys stay, a new key is added at most once.\<close>

lemma applyAccount_keys:
  assumes "valid_ids (ac_accounts ac)" "boot_usable a"
  shows "account_keys (ac_accounts (applyAccount B K True env a ac)) = account_keys (ac_accounts ac) \<or>
    boot_key a \<notin> set (account_keys (ac_accounts ac)) \<and>
    account_keys (ac_accounts (applyAccount B K True env a ac)) = account_keys (ac_accounts ac) @ [boot_key a]"
proof -
  obtain f g ref where env: "env = (f, g, ref)" by (cases env)
  let ?am = "ac_accounts ac" and ?user = "param_string (ba_params a) ''username''" and ?domain = "param_string (ba_params a) ''domain''"
  let ?p = "if ba_password a \<noteq> [] then (ba_params a)(''password'' \<mapsto> RvString (ba_password a)) else ba_params a"
  have ne: "?user \<noteq> []" "?domain \<noteq> []" using assms(2) by (simp_all add: boot_usable_def)
  have p: "param_string ?p ''username'' = ?user" "param_string ?p ''domain'' = ?domain" by simp_all
  show ?thesis
  proof (cases "find (\<lambda>x. acc_username x = ?user \<and> acc_domain x = ?domain) (am_list ?am)")
    case None
    then have "boot_key a \<notin> set (account_keys ?am)" by (auto simp: boot_key_def account_keys_def find_None_iff)
    moreover have "findExistingAccount a ?am = kInvalidAccountId" using None ne by (simp add: findExistingAccount_def Let_def)
    ultimately show ?thesis
      using addAccount_keys[OF p ne, of B K f g ref ac] by (simp add: applyAccount_def env Let_def boot_key_def)
  next
    case (Some x)
    have x: "x \<in> set (am_list ?am)" "acc_username x = ?user" "acc_domain x = ?domain" using find_SomeD[OF Some] by auto
    have e: "findExistingAccount a ?am = acc_id x" using Some ne by (simp add: findExistingAccount_def Let_def)
    have "acc_id x \<in> acc_id ` set (am_list ?am)" using x(1) by simp
    then have "acc_id x \<noteq> kInvalidAccountId" using assms(1) by (auto simp: valid_ids_def simp del: image_iff)
    moreover have "am_find (acc_id x) ?am = Some x" using assms(1) x(1) by (simp add: am_find_list find_acc_id valid_ids_def)
    then have "account_keys (ac_accounts (snd (updateAccount B K f g (acc_id x) ?p ac))) = account_keys ?am"
      by (rule updateAccount_keys) (use p x ne in simp_all)
    ultimately show ?thesis by (simp add: applyAccount_def env Let_def e)
  qed
qed

text \<open>Password references are fresh at each step.\<close>

fun boot_fresh ::
  "'b isip_backend \<Rightarrow> 'k ikeychain \<Rightarrow> ((nat \<Rightarrow> bool) \<times> (nat \<Rightarrow> bool) \<times> string) list \<Rightarrow> boot_account list \<Rightarrow>
   ('b, 'k) accounts_controller \<Rightarrow> bool" where
  "boot_fresh B K (env # envs) (a # as) ac =
     (am_passwordCache (ac_accounts ac) (snd (snd env)) = None \<and> boot_fresh B K envs as (applyAccount B K True env a ac))"
| "boot_fresh B K _ _ ac = True"

context accounts_ui begin

lemma applyAccount_inv:
  assumes "inv ac" "am_passwordCache (ac_accounts ac) (snd (snd env)) = None"
  shows "inv (applyAccount B K r env a ac)"
proof -
  obtain f g ref where env: "env = (f, g, ref)" by (cases env)
  have "inv (snd (updateAccount B K f g i p ac))" for i p
    using inv_apply[OF assms(1), of "AcUpdate f g i p"] by simp
  moreover have "inv (snd (addAccount B K f g ref p ac))" for p
    using inv_apply[OF assms(1), of "AcAdd f g ref p"] assms(2) by (simp add: env)
  ultimately show ?thesis by (simp add: applyAccount_def env Let_def)
qed

lemma applyAccounts_keys:
  "inv ac \<Longrightarrow> boot_fresh B K envs as ac \<Longrightarrow> list_all boot_usable as \<Longrightarrow> distinct (account_keys (ac_accounts ac)) \<Longrightarrow>
   (\<exists>new. account_keys (ac_accounts (applyAccounts B K True envs as ac)) = account_keys (ac_accounts ac) @ new \<and>
      distinct (account_keys (ac_accounts ac) @ new) \<and> set new \<subseteq> boot_key ` set as - set (account_keys (ac_accounts ac)))"
proof (induction as arbitrary: envs ac)
  case (Cons a as)
  show ?case
  proof (cases envs)
    case (Cons env envs')
    let ?ac1 = "applyAccount B K True env a ac" and ?keys = "account_keys (ac_accounts ac)"
    have ok: "am_ok ok accts K kok (ac_accounts ac)" using Cons.prems(1) by (simp add: inv_def)
    have step: "account_keys (ac_accounts ?ac1) = ?keys \<or>
        boot_key a \<notin> set ?keys \<and> account_keys (ac_accounts ?ac1) = ?keys @ [boot_key a]"
      by (rule applyAccount_keys[OF am_ok_valid_ids[OF ok]]) (use Cons.prems(3) in simp)
    have prems: "inv ?ac1" "boot_fresh B K envs' as ?ac1" "list_all boot_usable as" "distinct (account_keys (ac_accounts ?ac1))"
      using applyAccount_inv Cons.prems Cons step by auto
    obtain new where new: "account_keys (ac_accounts (applyAccounts B K True envs' as ?ac1)) = account_keys (ac_accounts ?ac1) @ new"
      "distinct (account_keys (ac_accounts ?ac1) @ new)" "set new \<subseteq> boot_key ` set as - set (account_keys (ac_accounts ?ac1))"
      using Cons.IH[OF prems] by auto
    show ?thesis
      using step
    proof
      assume "account_keys (ac_accounts ?ac1) = ?keys"
      then show ?thesis using new Cons by (intro exI[of _ new]) auto
    next
      assume "boot_key a \<notin> set ?keys \<and> account_keys (ac_accounts ?ac1) = ?keys @ [boot_key a]"
      then show ?thesis using new Cons by (intro exI[of _ "boot_key a # new"]) auto
    qed
  qed (use Cons.prems(4) in simp)
qed simp

end

text \<open>C36. With replace_accounts a configuration can be applied at every start: no two accounts get the same user
  and server, accounts are only added for pairs that were missing, in order, and when all are there none
  is added, whichever statements fail.\<close>

theorem provisioning_idempotent:
  assumes "am_start_ok b db kc mops" "fresh_run FakeB MemK ops (ui_start b db kc mops)"
    and "ac = ac_run FakeB MemK ops (ui_start b db kc mops)"
    and "list_all boot_usable as" "boot_fresh FakeB MemK envs as ac" "distinct (account_keys (ac_accounts ac))"
  shows "distinct (account_keys (ac_accounts (applyAccounts FakeB MemK True envs as ac)))
    \<and> take (length (account_keys (ac_accounts ac))) (account_keys (ac_accounts (applyAccounts FakeB MemK True envs as ac)))
        = account_keys (ac_accounts ac)
    \<and> (boot_key ` set as \<subseteq> set (account_keys (ac_accounts ac)) \<longrightarrow>
        account_keys (ac_accounts (applyAccounts FakeB MemK True envs as ac)) = account_keys (ac_accounts ac))"
proof -
  have "fake_ui.inv ac" unfolding assms(3) by (rule fake_ui.run_inv[OF ui_start_inv[OF assms(1)] assms(2)])
  from fake_ui.applyAccounts_keys[OF this assms(5,4,6)] obtain new where
    new: "account_keys (ac_accounts (applyAccounts FakeB MemK True envs as ac)) = account_keys (ac_accounts ac) @ new"
      "distinct (account_keys (ac_accounts ac) @ new)" "set new \<subseteq> boot_key ` set as - set (account_keys (ac_accounts ac))" by auto
  moreover have "boot_key ` set as \<subseteq> set (account_keys (ac_accounts ac)) \<Longrightarrow> new = []" using new(3) by (cases new) auto
  ultimately show ?thesis by auto
qed

definition example_boot :: boot_account where
  "example_boot = \<lparr>ba_params = [''username'' \<mapsto> RvString ''bob'', ''domain'' \<mapsto> RvString ''pbx'', ''authUser'' \<mapsto> RvString ''bob'',
     ''label'' \<mapsto> RvString ''bob@pbx'', ''registerOnStartup'' \<mapsto> RvBool True], ba_password = ''pw'', ba_registerOnStart = True\<rparr>"

theorem provisioning_idempotent_witness:
  "distinct (account_keys (ac_accounts (applyAccounts FakeB MemK True [(\<lambda>_. True, \<lambda>_. True, ''r2'')] [example_boot] example_ui)))"
proof -
  have "boot_usable example_boot" by (simp add: example_boot_def boot_usable_def param_string_def)
  moreover have "am_passwordCache (ac_accounts example_ui) ''r2'' = None" "account_keys (ac_accounts example_ui) = [(''alice'', [])]"
    by code_simp+
  ultimately show ?thesis
    using provisioning_idempotent[OF example_start_ok, of "[]" example_ui "[example_boot]" "[(\<lambda>_. True, \<lambda>_. True, ''r2'')]"]
    by (simp add: example_ui_def)
qed

end
