(* ===== verification/Provisioning.thy ===== *)
theory Provisioning imports BootConfig begin

text \<open>
  \<open>core/provisioning/DaktelaProvider.{h,cpp}\<close>: how an account is fetched from a Daktela server.  A sign-in is
  a chain of requests: log in, ask who the user is, read the SIP device.  The requests on their way are
  part of the state, and the environment answers any of them, in any order, with any reply.  Qt's URL and JSON
  parsers are a parameter; the pieces of a \<open>QUrl\<close> are a record.  Texts are not translated and are UTF-8.
\<close>

subsection \<open>Qt\<close>

record qurl =
  url_scheme :: string
  url_userInfo :: string
  url_host :: string
  url_port :: int
  url_path :: string
  url_query :: string
  url_fragment :: string

definition no_url :: qurl where
  "no_url = \<lparr>url_scheme = [], url_userInfo = [], url_host = [], url_port = -1, url_path = [], url_query = [], url_fragment = []\<rparr>"

text \<open>\<open>qt_url\<close> is \<open>None\<close> on an invalid URL, \<open>qt_json\<close> on a document that does not parse.\<close>

record qt_parsers =
  qt_url :: "string \<Rightarrow> qurl option"
  qt_url_text :: "qurl \<Rightarrow> string"
  qt_json :: "string \<Rightarrow> json option"
  qt_json_text :: "(string \<times> json) list \<Rightarrow> string"

definition url_isValid :: "qurl \<Rightarrow> bool" where
  "url_isValid u \<longleftrightarrow> u \<noteq> no_url"

type_synonym var_map = "(string \<times> role_value) list"

definition var_put :: "string \<Rightarrow> role_value \<Rightarrow> var_map \<Rightarrow> var_map" where
  "var_put k v m = (k, v) # filter (\<lambda>e. fst e \<noteq> k) m"

definition var_string :: "var_map \<Rightarrow> string \<Rightarrow> string" where
  "var_string m k = param_string (map_of m) k"

fun j_toArray :: "json option \<Rightarrow> json list" where
  "j_toArray (Some (JArray vs)) = vs"
| "j_toArray _ = []"

subsection \<open>Reading replies\<close>

definition joinCodecs :: "json option \<Rightarrow> string" where
  "joinCodecs v = join_with '','' (filter (\<lambda>s. s \<noteq> []) (map (\<lambda>c. j_toString (Some c)) (j_toArray v)))"

definition mapTransport :: "string \<Rightarrow> string" where
  "mapTransport raw =
     (let t = map q_lower raw in if t = ''tls'' then ''tls'' else if t = ''tcp'' then ''tcp'' else ''udp'')"

definition mapDtmf :: "string \<Rightarrow> string" where
  "mapDtmf raw =
     (let t = map q_lower raw in
      if t = ''info'' \<or> t = ''sip-info'' then ''info'' else if t = ''inband'' then ''inband'' else ''rfc2833'')"

fun mapSrtp :: "json option \<Rightarrow> string \<Rightarrow> string" where
  "mapSrtp (Some (JBool b)) transport = (if b then ''required'' else ''disabled'')"
| "mapSrtp _ transport = (if transport = ''tls'' then ''optional'' else ''disabled'')"

definition has_scheme :: "string \<Rightarrow> bool" where
  "has_scheme s \<longleftrightarrow> find_sub ''://'' s \<noteq> None"

definition normalizeHost :: "qt_parsers \<Rightarrow> string \<Rightarrow> qurl" where
  "normalizeHost Q raw =
     (let trimmed = trim_with q_space raw in
      if trimmed = [] then no_url
      else case qt_url Q (trim_right (\<lambda>c. c = CHR ''/'') (if has_scheme trimmed then trimmed else ''https://'' @ trimmed)) of
        None \<Rightarrow> no_url
      | Some u \<Rightarrow> if url_host u = [] then no_url else u)"

definition url_at :: "qurl \<Rightarrow> string \<Rightarrow> qurl" where
  "url_at host path = host\<lparr>url_path := url_path host @ path\<rparr>"

definition loginUrl :: "qurl \<Rightarrow> qurl" where "loginUrl host = url_at host ''/api/v6/login.json''"
definition whoamiUrl :: "qurl \<Rightarrow> qurl" where "whoamiUrl host = url_at host ''/api/v6/whoim.json''"
definition sipDeviceUrl :: "qurl \<Rightarrow> string \<Rightarrow> qurl" where
  "sipDeviceUrl host nm = url_at host (''/api/v6/sipDevices/'' @ nm @ ''.json'')"
definition globalSettingsUrl :: "qurl \<Rightarrow> qurl" where "globalSettingsUrl host = url_at host ''/internal/globalsettings.json''"

text \<open>The value under \<open>result\<close>, and the error, empty when there is none.\<close>

definition unwrapResult :: "qt_parsers \<Rightarrow> string \<Rightarrow> json option \<times> string" where
  "unwrapResult Q body =
     (case qt_json Q body of
        Some (JObject obj) \<Rightarrow>
          (case j_value obj ''error'' of
             Some (JArray (e # es)) \<Rightarrow> (None, join_with ''; '' (map (\<lambda>v. j_toString (Some v)) (e # es)))
           | Some (JObject (e # es)) \<Rightarrow> (None, qt_json_text Q (e # es))
           | _ \<Rightarrow> (j_value obj ''result'', []))
      | _ \<Rightarrow> (None, ''Invalid JSON response from server.''))"

fun extractAccessToken :: "json option \<Rightarrow> string \<times> string" where
  "extractAccessToken (Some (JString s)) = (s, [])"
| "extractAccessToken (Some (JObject obj)) =
     (if j_value obj ''accessToken'' \<noteq> None then (j_toString (j_value obj ''accessToken''), [])
      else let sys = section_of obj ''_sys'' in
        if j_value sys ''accessToken'' \<noteq> None then (j_toString (j_value sys ''accessToken''), [])
        else ([], ''Login succeeded but the server did not return a token.''))"
| "extractAccessToken _ = ([], ''Login succeeded but the server did not return a token.'')"

text \<open>The user's object in a \<open>whoim\<close> result, or the result itself.\<close>

definition user_object :: "(string \<times> json) list \<Rightarrow> (string \<times> json) list" where
  "user_object obj = (case j_value obj ''user'' of Some (JObject u) \<Rightarrow> u | _ \<Rightarrow> obj)"

definition device_name :: "(string \<times> json) list \<Rightarrow> string" where
  "device_name obj = j_toString (j_value obj ''name'')"

fun first_named :: "json list \<Rightarrow> (string \<times> json) list option" where
  "first_named [] = None"
| "first_named (JObject obj # vs) = (if device_name obj \<noteq> [] then Some obj else first_named vs)"
| "first_named (v # vs) = first_named vs"

text \<open>A number is cut to a 64-bit integer; outside that range C++ leaves the result open.\<close>

definition rat_trunc :: "rat \<Rightarrow> int" where
  "rat_trunc r = (if r < 0 then \<lceil>r\<rceil> else \<lfloor>r\<rfloor>)"

fun name_under :: "(string \<times> json) list \<Rightarrow> string list \<Rightarrow> string option" where
  "name_under eo [] = None"
| "name_under eo (k # ks) =
     (case j_value eo k of
        Some (JString s) \<Rightarrow> if s \<noteq> [] then Some s else name_under eo ks
      | Some (JNumber r) \<Rightarrow> Some (int_to_string (rat_trunc r))
      | _ \<Rightarrow> name_under eo ks)"

definition no_extension :: string where
  "no_extension = ''Your Daktela account is not assigned to a SIP extension.''"

fun extractExtensionName :: "json option \<Rightarrow> string \<times> string" where
  "extractExtensionName (Some (JObject res)) =
     (let obj = user_object res in
      case first_named (j_toArray (j_value obj ''extensions'')) of
        Some dev \<Rightarrow> (device_name dev, [])
      | None \<Rightarrow>
          (case j_value obj ''extension'' of
             Some (JString s) \<Rightarrow> (s, [])
           | Some (JObject eo) \<Rightarrow>
               (case name_under eo [''name'', ''extension'', ''extension_sip_device''] of
                  Some s \<Rightarrow> (s, []) | None \<Rightarrow> ([], no_extension))
           | _ \<Rightarrow> ([], no_extension)))"
| "extractExtensionName _ = ([], ''Unexpected whoim.json shape.'')"

fun extractExtensionRecord :: "json option \<Rightarrow> (string \<times> json) list" where
  "extractExtensionRecord (Some (JObject res)) =
     (let obj = user_object res in
      case first_named (j_toArray (j_value obj ''extensions'')) of
        Some dev \<Rightarrow> dev
      | None \<Rightarrow>
          (case j_value obj ''extension'' of
             Some (JObject eo) \<Rightarrow> eo
           | Some (JString s) \<Rightarrow> if s \<noteq> [] then [(''name'', JString s)] else []
           | _ \<Rightarrow> []))"
| "extractExtensionRecord _ = []"

definition daktela_label :: "qurl \<Rightarrow> string" where
  "daktela_label host = ''Daktela '' @ [CHR 0xE2, CHR 0x80, CHR 0x94] @ '' '' @ url_host host"

definition device_secret :: "(string \<times> json) list \<Rightarrow> string" where
  "device_secret obj =
     (let secret = j_toString (j_value obj ''password'')
      in if secret = [] then j_toString (j_value obj ''secret'') else secret)"

fun buildAccountParams :: "qurl \<Rightarrow> json option \<Rightarrow> string \<Rightarrow> var_map" where
  "buildAccountParams host (Some (JObject obj)) displayName =
     (let transport = mapTransport (j_toString (j_value obj ''transport''));
          nm = device_name obj; title = j_toString (j_value obj ''title'')
      in [(''provider'', RvString ''daktela''),
          (''label'', RvString (daktela_label host)),
          (''displayName'', RvString (if title = [] then displayName else title)),
          (''username'', RvString nm),
          (''authUser'', RvString nm),
          (''domain'', RvString (url_host host)),
          (''password'', RvString (device_secret obj)),
          (''transport'', RvString transport),
          (''srtpMode'', RvString (mapSrtp (j_value obj ''srtp'') transport)),
          (''dtmfMethod'', RvString (mapDtmf (j_toString (j_value obj ''dtmfmode'')))),
          (''codecs'', RvString (joinCodecs (j_value obj ''codec''))),
          (''registerOnStartup'', RvBool True),
          (''iceEnabled'', RvBool False)])"
| "buildAccountParams host _ displayName = []"

definition defaultAuthMethods :: "qt_parsers \<Rightarrow> qurl \<Rightarrow> (string \<times> string) list list" where
  "defaultAuthMethods Q host =
     [[(''id'', ''password''), (''kind'', ''password''), (''displayName'', ''Username & password''),
       (''openUrl'', []), (''instructions'', [])],
      [(''id'', ''token''), (''kind'', ''token''), (''displayName'', ''Access token''),
       (''openUrl'', qt_url_text Q host),
       (''instructions'', ''Open Daktela in your browser, sign in, then create a '' @
                          ''personal access token under Account '' @ [CHR 0xE2, CHR 0x86, CHR 0x92] @ '' API tokens. '' @
                          ''Paste it below to provision this device.'')]]"

subsection \<open>The provider\<close>

datatype http_request =
    ReqDiscovery qurl qurl
  | ReqLogin qurl string string
  | ReqWhoami qurl string
  | ReqSipDevice qurl string

record http_reply =
  hr_error :: "string option"
  hr_status :: int
  hr_body :: string

datatype prov_signal =
    Progress string
  | ProvisioningSucceeded var_map
  | TokenIssued string string
  | ProvisioningFailed string
  | PasswordRequired var_map
  | AuthMethodsDiscovered string "(string \<times> string) list list"
  | AuthMethodsFailed string string

record daktela =
  dk_host :: qurl
  dk_username :: string
  dk_password :: string
  dk_accessToken :: string
  dk_extensionName :: string
  dk_extensionRecord :: "(string \<times> json) list"
  dk_displayName :: string
  dk_pendingParams :: var_map
  dk_requests :: "http_request list"
  dk_signals :: "prov_signal list"

definition daktela_new :: daktela where
  "daktela_new = \<lparr>dk_host = no_url, dk_username = [], dk_password = [], dk_accessToken = [], dk_extensionName = [],
     dk_extensionRecord = [], dk_displayName = [], dk_pendingParams = [], dk_requests = [], dk_signals = []\<rparr>"

definition dk_emit :: "prov_signal \<Rightarrow> daktela \<Rightarrow> daktela" where
  "dk_emit s d = d\<lparr>dk_signals := dk_signals d @ [s]\<rparr>"

definition dk_send :: "http_request \<Rightarrow> daktela \<Rightarrow> daktela" where
  "dk_send r d = d\<lparr>dk_requests := dk_requests d @ [r]\<rparr>"

definition fail :: "string \<Rightarrow> daktela \<Rightarrow> daktela" where
  "fail message d = dk_emit (ProvisioningFailed message) d"

definition startWhoamiFetch :: "daktela \<Rightarrow> daktela" where
  "startWhoamiFetch d =
     dk_send (ReqWhoami (whoamiUrl (dk_host d)) (dk_accessToken d)) (dk_emit (Progress ''fetching-user'') d)"

definition daktela_discoverAuthMethods :: "qt_parsers \<Rightarrow> string \<Rightarrow> daktela \<Rightarrow> daktela" where
  "daktela_discoverAuthMethods Q rawHost d =
     (let host = normalizeHost Q rawHost in
      if \<not> url_isValid host
      then dk_emit (AuthMethodsFailed rawHost ''That doesn't look like a valid server address.'') d
      else dk_send (ReqDiscovery (globalSettingsUrl host) host) d)"

definition onDiscoveryReply :: "qt_parsers \<Rightarrow> http_reply \<Rightarrow> qurl \<Rightarrow> daktela \<Rightarrow> daktela" where
  "onDiscoveryReply Q r host d = dk_emit (AuthMethodsDiscovered (qt_url_text Q host) (defaultAuthMethods Q host)) d"

definition daktela_provisionWithToken :: "qt_parsers \<Rightarrow> string \<Rightarrow> string \<Rightarrow> daktela \<Rightarrow> daktela" where
  "daktela_provisionWithToken Q rawHost accessToken d =
     (let d1 = d\<lparr>dk_host := normalizeHost Q rawHost, dk_username := [], dk_password := [],
                 dk_accessToken := trim_with q_space accessToken, dk_extensionName := [], dk_displayName := []\<rparr>
      in if \<not> url_isValid (dk_host d1) \<or> dk_accessToken d1 = []
         then fail ''Server address and access token are required.'' d1
         else startWhoamiFetch (dk_emit (TokenIssued (qt_url_text Q (dk_host d1)) (dk_accessToken d1)) d1))"

definition daktela_provision :: "qt_parsers \<Rightarrow> string \<Rightarrow> string \<Rightarrow> string \<Rightarrow> daktela \<Rightarrow> daktela" where
  "daktela_provision Q rawHost username password d =
     (let d1 = d\<lparr>dk_host := normalizeHost Q rawHost, dk_username := trim_with q_space username, dk_password := password,
                 dk_accessToken := [], dk_extensionName := [], dk_displayName := []\<rparr>
      in if \<not> url_isValid (dk_host d1) \<or> dk_username d1 = [] \<or> dk_password d1 = []
         then fail ''Host, username, and password are required.'' d1
         else dk_send (ReqLogin (loginUrl (dk_host d1)) (dk_username d1) (dk_password d1)) (dk_emit (Progress ''logging-in'') d1))"

definition unauthorized :: "http_reply \<Rightarrow> bool" where
  "unauthorized r \<longleftrightarrow> hr_status r = 401 \<or> hr_status r = 403"

definition onLoginReply :: "qt_parsers \<Rightarrow> http_reply \<Rightarrow> daktela \<Rightarrow> daktela" where
  "onLoginReply Q r d =
     (case hr_error r of
        Some e \<Rightarrow> if unauthorized r then fail ''Invalid Daktela username or password.'' d else fail (''Login failed: '' @ e) d
      | None \<Rightarrow>
          (case unwrapResult Q (hr_body r) of (result, err) \<Rightarrow>
            if err \<noteq> [] then fail (''Login failed: '' @ err) d
            else case extractAccessToken result of (token, err1) \<Rightarrow>
              (let d1 = d\<lparr>dk_accessToken := token\<rparr> in
               if token = [] then fail err1 d1
               else startWhoamiFetch (dk_emit (TokenIssued (qt_url_text Q (dk_host d1)) token) d1))))"

definition user_displayName :: "json option \<Rightarrow> string \<Rightarrow> string" where
  "user_displayName result old =
     (case result of
        Some (JObject obj) \<Rightarrow>
          (let user = section_of obj ''user''; title = j_toString (j_value user ''title'')
           in if title = [] then j_toString (j_value user ''name'') else title)
      | _ \<Rightarrow> old)"

definition onWhoamiReply :: "qt_parsers \<Rightarrow> http_reply \<Rightarrow> daktela \<Rightarrow> daktela" where
  "onWhoamiReply Q r d =
     (case hr_error r of
        Some e \<Rightarrow> if unauthorized r then fail ''The access token was rejected. It may have expired.'' d
                  else fail (''Could not fetch user profile: '' @ e) d
      | None \<Rightarrow>
          (case unwrapResult Q (hr_body r) of (result, err) \<Rightarrow>
            if err \<noteq> [] then fail (''Could not read user profile: '' @ err) d
            else case extractExtensionName result of (nm, err1) \<Rightarrow>
              (let d1 = d\<lparr>dk_displayName := user_displayName result (dk_displayName d), dk_extensionName := nm\<rparr> in
               if nm = [] then fail err1 d1
               else dk_send (ReqSipDevice (sipDeviceUrl (dk_host d) nm) (dk_accessToken d))
                      (dk_emit (Progress ''fetching-extension'') (d1\<lparr>dk_extensionRecord := extractExtensionRecord result\<rparr>)))))"

definition promptForPassword :: "var_map \<Rightarrow> daktela \<Rightarrow> daktela" where
  "promptForPassword partialParams d =
     (if partialParams = [] \<or> var_string partialParams ''username'' = []
      then fail ''Could not determine which SIP extension to set up.'' d
      else let pending = var_put ''password'' (RvString []) partialParams
           in dk_emit (PasswordRequired pending) (d\<lparr>dk_pendingParams := pending\<rparr>))"

definition onSipDeviceReply :: "qt_parsers \<Rightarrow> http_reply \<Rightarrow> daktela \<Rightarrow> daktela" where
  "onSipDeviceReply Q r d =
     (let fallback = buildAccountParams (dk_host d) (Some (JObject (dk_extensionRecord d))) (dk_displayName d) in
      case hr_error r of
        Some e \<Rightarrow> promptForPassword fallback d
      | None \<Rightarrow>
          (case unwrapResult Q (hr_body r) of (result, err) \<Rightarrow>
            if err \<noteq> [] then fail (''Could not read SIP credentials: '' @ err) d
            else (let params = buildAccountParams (dk_host d) result (dk_displayName d) in
              if params = [] \<or> var_string params ''username'' = [] then promptForPassword fallback d
              else if var_string params ''password'' = [] then promptForPassword params d
              else dk_emit (ProvisioningSucceeded params) (dk_emit (Progress ''done'') d))))"

definition daktela_completeWithPassword :: "string \<Rightarrow> daktela \<Rightarrow> daktela" where
  "daktela_completeWithPassword password d =
     (let pending = dk_pendingParams d in
      if pending = [] \<or> var_string pending ''username'' = []
      then fail ''There is no pending Daktela sign-in to finish.'' d
      else dk_emit (ProvisioningSucceeded (var_put ''password'' (RvString password) pending))
             (dk_emit (Progress ''done'') (d\<lparr>dk_pendingParams := []\<rparr>)))"

text \<open>A reply to one request on its way; the handler connected with that request runs.\<close>

definition handle_reply :: "qt_parsers \<Rightarrow> http_request \<Rightarrow> http_reply \<Rightarrow> daktela \<Rightarrow> daktela" where
  "handle_reply Q req r =
     (case req of
        ReqDiscovery u host \<Rightarrow> onDiscoveryReply Q r host
      | ReqLogin u user pw \<Rightarrow> onLoginReply Q r
      | ReqWhoami u token \<Rightarrow> onWhoamiReply Q r
      | ReqSipDevice u token \<Rightarrow> onSipDeviceReply Q r)"

definition remove_nth :: "nat \<Rightarrow> 'a list \<Rightarrow> 'a list" where
  "remove_nth n xs = take n xs @ drop (Suc n) xs"

definition daktela_reply :: "qt_parsers \<Rightarrow> nat \<Rightarrow> http_reply \<Rightarrow> daktela \<Rightarrow> daktela" where
  "daktela_reply Q n r d =
     (if n < length (dk_requests d)
      then handle_reply Q (dk_requests d ! n) r (d\<lparr>dk_requests := remove_nth n (dk_requests d)\<rparr>)
      else d)"

subsection \<open>Providers, and the registry of them\<close>

text \<open>\<open>core/provisioning/Provider.h\<close>: each operation returns the signals it emitted.\<close>

record 'p iprovider =
  ip_id :: "'p \<Rightarrow> string"
  ip_displayName :: "'p \<Rightarrow> string"
  ip_hostPlaceholder :: "'p \<Rightarrow> string"
  ip_markPath :: "'p \<Rightarrow> string"
  ip_markPathDark :: "'p \<Rightarrow> string"
  ip_provision :: "string \<Rightarrow> string \<Rightarrow> string \<Rightarrow> 'p \<Rightarrow> prov_signal list \<times> 'p"
  ip_provisionWithToken :: "string \<Rightarrow> string \<Rightarrow> 'p \<Rightarrow> prov_signal list \<times> 'p"
  ip_completeWithPassword :: "string \<Rightarrow> 'p \<Rightarrow> prov_signal list \<times> 'p"
  ip_discoverAuthMethods :: "string \<Rightarrow> 'p \<Rightarrow> prov_signal list \<times> 'p"
  ip_reply :: "nat \<Rightarrow> http_reply \<Rightarrow> 'p \<Rightarrow> prov_signal list \<times> 'p"

definition dk_flush :: "(daktela \<Rightarrow> daktela) \<Rightarrow> daktela \<Rightarrow> prov_signal list \<times> daktela" where
  "dk_flush f d = (let d1 = f (d\<lparr>dk_signals := []\<rparr>) in (dk_signals d1, d1\<lparr>dk_signals := []\<rparr>))"

definition daktela_if :: "qt_parsers \<Rightarrow> daktela iprovider" where
  "daktela_if Q = \<lparr>
     ip_id = (\<lambda>_. ''daktela''), ip_displayName = (\<lambda>_. ''Daktela''),
     ip_hostPlaceholder = (\<lambda>_. ''https://your.daktela.com''),
     ip_markPath = (\<lambda>_. ''qrc:/branding/daktela-mark-light.svg''),
     ip_markPathDark = (\<lambda>_. ''qrc:/branding/daktela-mark-dark.svg''),
     ip_provision = (\<lambda>h u w. dk_flush (daktela_provision Q h u w)),
     ip_provisionWithToken = (\<lambda>h t. dk_flush (daktela_provisionWithToken Q h t)),
     ip_completeWithPassword = (\<lambda>w. dk_flush (daktela_completeWithPassword w)),
     ip_discoverAuthMethods = (\<lambda>h. dk_flush (daktela_discoverAuthMethods Q h)),
     ip_reply = (\<lambda>n r. dk_flush (daktela_reply Q n r))\<rparr>"

definition registry_find :: "'p iprovider \<Rightarrow> string \<Rightarrow> 'p list \<Rightarrow> nat option" where
  "registry_find P i ps = find_row (\<lambda>p. ip_id P p = i) ps"

definition registry_ids :: "'p iprovider \<Rightarrow> 'p list \<Rightarrow> string list" where
  "registry_ids P ps = map (ip_id P) ps"

definition descriptors :: "'p iprovider \<Rightarrow> 'p list \<Rightarrow> (string \<times> string) list list" where
  "descriptors P ps =
     map (\<lambda>p. [(''id'', ip_id P p), (''displayName'', ip_displayName P p), (''hostPlaceholder'', ip_hostPlaceholder P p),
               (''markPath'', ip_markPath P p), (''markPathDark'', ip_markPathDark P p)]) ps"

definition builtin_providers :: "daktela list" where
  "builtin_providers = [daktela_new]"

end
