(* ===== verification/ProvisionControl.thy ===== *)
theory ProvisionControl imports Provisioning begin

text \<open>
  \<open>core/ProvisioningController.{h,cpp}\<close>: the sign-in surface of the user interface.  It finds a provider by
  its id, passes the call on, tags every signal of the provider with that id, and adds the account when a
  sign-in succeeds.  The contract of a provider, one answer for every call, is a locale: the controller's
  half of the contract is proved in it, and it is interpreted on the Daktela provider.
\<close>

subsection \<open>The controller\<close>

datatype pc_signal =
    PcProgress string string
  | PcFailed string string
  | PcPasswordRequired string var_map
  | PcAccountProvisioned string int
  | PcMethodsDiscovered string string "(string \<times> string) list list"
  | PcMethodsFailed string string string

definition kDefault :: int where "kDefault = 4000"
definition kError :: int where "kError = 5000"

text \<open>
  \<open>add\<close> is the \<open>AddAccountFn\<close>, \<open>None\<close> when it is empty; it works on the state \<open>pc_world\<close>.  Notices are kept
  with their duration.
\<close>

record ('p, 'w) provisioning_controller =
  pc_providers :: "'p list"
  pc_world :: 'w
  pc_notices :: "(string \<times> int) list"
  pc_signals :: "pc_signal list"

definition pc_new :: "'p list \<Rightarrow> 'w \<Rightarrow> ('p, 'w) provisioning_controller" where
  "pc_new ps w = \<lparr>pc_providers = ps, pc_world = w, pc_notices = [], pc_signals = []\<rparr>"

definition pc_emit :: "pc_signal \<Rightarrow> ('p, 'w) provisioning_controller \<Rightarrow> ('p, 'w) provisioning_controller" where
  "pc_emit s pc = pc\<lparr>pc_signals := pc_signals pc @ [s]\<rparr>"

definition pc_notice :: "string \<Rightarrow> int \<Rightarrow> ('p, 'w) provisioning_controller \<Rightarrow> ('p, 'w) provisioning_controller" where
  "pc_notice m ms pc = pc\<lparr>pc_notices := pc_notices pc @ [(m, ms)]\<rparr>"

text \<open>The connected slots: what the controller does with one signal of the provider called \<open>i\<close>.\<close>

definition on_succeeded ::
  "(params \<Rightarrow> 'w \<Rightarrow> int \<times> 'w) option \<Rightarrow> string \<Rightarrow> var_map \<Rightarrow> ('p, 'w) provisioning_controller \<Rightarrow> ('p, 'w) provisioning_controller" where
  "on_succeeded add i p pc =
     (case (case add of None \<Rightarrow> (-1, pc_world pc) | Some f \<Rightarrow> f (map_of p) (pc_world pc)) of (newId, w) \<Rightarrow>
       (if newId < 0
        then pc_emit (PcFailed i ''Could not save the new account.'')
               (pc_notice ''Sign-in failed: Could not save the new account.'' kError (pc\<lparr>pc_world := w\<rparr>))
        else pc_emit (PcAccountProvisioned i newId) (pc_notice ''Account added'' kDefault (pc\<lparr>pc_world := w\<rparr>))))"

fun on_prov_signal ::
  "(params \<Rightarrow> 'w \<Rightarrow> int \<times> 'w) option \<Rightarrow> string \<Rightarrow> prov_signal \<Rightarrow> ('p, 'w) provisioning_controller \<Rightarrow> ('p, 'w) provisioning_controller" where
  "on_prov_signal add i (Progress stage) pc = pc_emit (PcProgress i stage) pc"
| "on_prov_signal add i (ProvisioningFailed e) pc = pc_emit (PcFailed i e) (pc_notice (''Sign-in failed: '' @ e) kError pc)"
| "on_prov_signal add i (ProvisioningSucceeded p) pc = on_succeeded add i p pc"
| "on_prov_signal add i (PasswordRequired p) pc = pc_emit (PcPasswordRequired i p) pc"
| "on_prov_signal add i (AuthMethodsDiscovered h ms) pc = pc_emit (PcMethodsDiscovered i h ms) pc"
| "on_prov_signal add i (AuthMethodsFailed h e) pc = pc_emit (PcMethodsFailed i h e) pc"
| "on_prov_signal add i (TokenIssued h t) pc = pc"

definition run_provider ::
  "'p iprovider \<Rightarrow> (params \<Rightarrow> 'w \<Rightarrow> int \<times> 'w) option \<Rightarrow> nat \<Rightarrow> ('p \<Rightarrow> prov_signal list \<times> 'p) \<Rightarrow>
   ('p, 'w) provisioning_controller \<Rightarrow> ('p, 'w) provisioning_controller" where
  "run_provider P add k f pc =
     (case f (pc_providers pc ! k) of (ss, p) \<Rightarrow>
        fold (on_prov_signal add (ip_id P p)) ss (pc\<lparr>pc_providers := (pc_providers pc)[k := p]\<rparr>))"

definition unknown_provider :: "string \<Rightarrow> string" where
  "unknown_provider i = ''Unknown provisioning provider: '' @ i"

definition pc_call ::
  "'p iprovider \<Rightarrow> (params \<Rightarrow> 'w \<Rightarrow> int \<times> 'w) option \<Rightarrow> string \<Rightarrow> ('p \<Rightarrow> prov_signal list \<times> 'p) \<Rightarrow>
   ('p, 'w) provisioning_controller \<Rightarrow> ('p, 'w) provisioning_controller" where
  "pc_call P add i f pc =
     (case registry_find P i (pc_providers pc) of
        None \<Rightarrow> pc_emit (PcFailed i (unknown_provider i)) (pc_notice (unknown_provider i) kError pc)
      | Some k \<Rightarrow> run_provider P add k f pc)"

datatype pc_op =
    PcProvision string string string string
  | PcProvisionWithToken string string string
  | PcProvideManualPassword string string
  | PcDiscoverAuthMethods string string
  | PcReply nat nat http_reply

text \<open>What the user interface asks for, and replies from the network: reply to a request of the provider at \<open>k\<close>.\<close>

fun pc_apply ::
  "'p iprovider \<Rightarrow> (params \<Rightarrow> 'w \<Rightarrow> int \<times> 'w) option \<Rightarrow> pc_op \<Rightarrow> ('p, 'w) provisioning_controller \<Rightarrow> ('p, 'w) provisioning_controller" where
  "pc_apply P add (PcProvision i h u w) pc = pc_call P add i (ip_provision P h u w) pc"
| "pc_apply P add (PcProvisionWithToken i h t) pc = pc_call P add i (ip_provisionWithToken P h t) pc"
| "pc_apply P add (PcProvideManualPassword i w) pc = pc_call P add i (ip_completeWithPassword P w) pc"
| "pc_apply P add (PcDiscoverAuthMethods i h) pc =
     (case registry_find P i (pc_providers pc) of
        None \<Rightarrow> pc_emit (PcMethodsFailed i h (unknown_provider i)) pc
      | Some k \<Rightarrow> run_provider P add k (ip_discoverAuthMethods P h) pc)"
| "pc_apply P add (PcReply k n r) pc =
     (if k < length (pc_providers pc) then run_provider P add k (ip_reply P n r) pc else pc)"

fun pc_run ::
  "'p iprovider \<Rightarrow> (params \<Rightarrow> 'w \<Rightarrow> int \<times> 'w) option \<Rightarrow> pc_op list \<Rightarrow> ('p, 'w) provisioning_controller \<Rightarrow> ('p, 'w) provisioning_controller" where
  "pc_run P add [] pc = pc"
| "pc_run P add (a # as) pc = pc_run P add as (pc_apply P add a pc)"

subsection \<open>The contract of a provider\<close>

fun is_answer :: "prov_signal \<Rightarrow> bool" where
  "is_answer (ProvisioningSucceeded p) = True"
| "is_answer (ProvisioningFailed e) = True"
| "is_answer (PasswordRequired p) = True"
| "is_answer s = False"

fun is_ui_answer :: "pc_signal \<Rightarrow> bool" where
  "is_ui_answer (PcFailed i e) = True"
| "is_ui_answer (PcPasswordRequired i p) = True"
| "is_ui_answer (PcAccountProvisioned i a) = True"
| "is_ui_answer s = False"

fun is_signin :: "pc_op \<Rightarrow> bool" where
  "is_signin (PcProvision i h u w) = True"
| "is_signin (PcProvisionWithToken i h t) = True"
| "is_signin (PcProvideManualPassword i w) = True"
| "is_signin a = False"

definition answers :: "prov_signal list \<Rightarrow> nat" where
  "answers ss = length (filter is_answer ss)"

definition ui_answers :: "('p, 'w) provisioning_controller \<Rightarrow> nat" where
  "ui_answers pc = length (filter is_ui_answer (pc_signals pc))"

definition signins :: "pc_op list \<Rightarrow> nat" where
  "signins as = length (filter is_signin as)"

lemma answers_simps [simp]:
  "answers [] = 0" "answers (s # ss) = (if is_answer s then Suc (answers ss) else answers ss)"
  "answers (ss @ ss') = answers ss + answers ss'"
  by (simp_all add: answers_def)

lemma pc_emit_sel [simp]:
  "pc_providers (pc_emit s pc) = pc_providers pc" "pc_world (pc_emit s pc) = pc_world pc"
  "ui_answers (pc_emit s pc) = ui_answers pc + (if is_ui_answer s then 1 else 0)"
  by (simp_all add: pc_emit_def ui_answers_def)

lemma pc_notice_sel [simp]:
  "pc_providers (pc_notice m ms pc) = pc_providers pc" "pc_world (pc_notice m ms pc) = pc_world pc"
  "pc_signals (pc_notice m ms pc) = pc_signals pc" "ui_answers (pc_notice m ms pc) = ui_answers pc"
  by (simp_all add: pc_notice_def ui_answers_def)

lemma ui_answers_update [simp]:
  "ui_answers (pc\<lparr>pc_providers := ps\<rparr>) = ui_answers pc" "ui_answers (pc\<lparr>pc_world := w\<rparr>) = ui_answers pc"
  by (simp_all add: ui_answers_def)

lemma on_prov_signal_answers:
  "ui_answers (on_prov_signal add i s pc) = ui_answers pc + (if is_answer s then 1 else 0)"
  by (cases s) (auto simp: on_succeeded_def split: prod.splits)

lemma on_prov_signal_providers [simp]: "pc_providers (on_prov_signal add i s pc) = pc_providers pc"
  by (cases s) (auto simp: on_succeeded_def split: prod.splits)

lemma fold_signals:
  "ui_answers (fold (on_prov_signal add i) ss pc) = ui_answers pc + answers ss \<and>
   pc_providers (fold (on_prov_signal add i) ss pc) = pc_providers pc"
  by (induction ss arbitrary: pc) (auto simp: on_prov_signal_answers)

lemma find_row_less: "find_row Q xs = Some k \<Longrightarrow> k < length xs"
  by (induction xs arbitrary: k) (auto split: if_splits)

lemma sum_list_map_update:
  "k < length xs \<Longrightarrow> sum_list (map f (xs[k := x])) + f (xs ! k) = sum_list (map f xs) + (f x :: nat)"
  by (induction xs arbitrary: k) (auto split: nat.splits simp: nth_Cons')

text \<open>
  \<open>waiting\<close> counts the calls not yet answered, \<open>work\<close> the replies they may still need.  A reply to a request
  on its way answers at most one call, and one that answers none leaves less work.
\<close>

locale provider_contract =
  fixes P :: "'p iprovider" and waiting :: "'p \<Rightarrow> nat" and work :: "'p \<Rightarrow> nat" and pending :: "'p \<Rightarrow> nat"
  assumes provision: "ip_provision P h u w p = (ss, p') \<Longrightarrow> answers ss + waiting p' = Suc (waiting p)"
    and with_token: "ip_provisionWithToken P h t p = (ss, p') \<Longrightarrow> answers ss + waiting p' = Suc (waiting p)"
    and complete: "ip_completeWithPassword P w p = (ss, p') \<Longrightarrow> answers ss + waiting p' = Suc (waiting p)"
    and discover: "ip_discoverAuthMethods P h p = (ss, p') \<Longrightarrow> answers ss + waiting p' = waiting p"
    and reply: "ip_reply P n r p = (ss, p') \<Longrightarrow> answers ss + waiting p' = waiting p"
    and progress: "ip_reply P n r p = (ss, p') \<Longrightarrow> n < pending p \<Longrightarrow> work p' < work p"
    and at_rest: "pending p = 0 \<Longrightarrow> waiting p = 0"
    and idle: "pending p = 0 \<longleftrightarrow> work p = 0"
begin

definition open_calls :: "('p, 'w) provisioning_controller \<Rightarrow> nat" where
  "open_calls pc = sum_list (map waiting (pc_providers pc))"

lemma run_provider_answers:
  assumes "k < length (pc_providers pc)" "f (pc_providers pc ! k) = (ss, p)"
  shows "ui_answers (run_provider P add k f pc) + open_calls (run_provider P add k f pc) + waiting (pc_providers pc ! k) =
         ui_answers pc + open_calls pc + answers ss + waiting p"
proof -
  have *: "open_calls (run_provider P add k f pc) + waiting (pc_providers pc ! k) = open_calls pc + waiting p"
    using sum_list_map_update[OF assms(1), of waiting p] by (simp add: open_calls_def run_provider_def assms(2) fold_signals)
  have "ui_answers (run_provider P add k f pc) = ui_answers pc + answers ss"
    by (simp add: run_provider_def assms(2) fold_signals)
  with * show ?thesis by linarith
qed

lemma call_answers:
  assumes "\<And>p ss p'. f p = (ss, p') \<Longrightarrow> answers ss + waiting p' = Suc (waiting p)"
  shows "ui_answers (pc_call P add i f pc) + open_calls (pc_call P add i f pc) = Suc (ui_answers pc + open_calls pc)"
proof (cases "registry_find P i (pc_providers pc)")
  case None then show ?thesis by (simp add: pc_call_def open_calls_def)
next
  case (Some k)
  obtain ss p where f: "f (pc_providers pc ! k) = (ss, p)" by fastforce
  have "k < length (pc_providers pc)" using Some by (auto simp: registry_find_def dest: find_row_less)
  from run_provider_answers[where f = f and add = add, OF this f] assms[OF f] show ?thesis by (simp add: pc_call_def Some)
qed

lemma quiet_answers:
  assumes "k < length (pc_providers pc)" "\<And>p ss p'. f p = (ss, p') \<Longrightarrow> answers ss + waiting p' = waiting p"
  shows "ui_answers (run_provider P add k f pc) + open_calls (run_provider P add k f pc) = ui_answers pc + open_calls pc"
proof -
  obtain ss p where f: "f (pc_providers pc ! k) = (ss, p)" by fastforce
  from run_provider_answers[where f = f and add = add, OF assms(1) f] assms(2)[OF f] show ?thesis by simp
qed

lemma apply_answers:
  "ui_answers (pc_apply P add a pc) + open_calls (pc_apply P add a pc) =
   ui_answers pc + open_calls pc + (if is_signin a then 1 else 0)"
proof (cases a)
  case (PcProvision i h u w) then show ?thesis using call_answers[of "ip_provision P h u w"] provision by simp
next
  case (PcProvisionWithToken i h t) then show ?thesis using call_answers[of "ip_provisionWithToken P h t"] with_token by simp
next
  case (PcProvideManualPassword i w) then show ?thesis using call_answers[of "ip_completeWithPassword P w"] complete by simp
next
  case (PcDiscoverAuthMethods i h)
  then show ?thesis using quiet_answers[of _ pc "ip_discoverAuthMethods P h" add] discover
    by (cases "registry_find P i (pc_providers pc)")
       (auto simp: open_calls_def[of "pc_emit _ _"] open_calls_def[of pc] registry_find_def dest: find_row_less)
next
  case (PcReply k n r) then show ?thesis using quiet_answers[of k pc "ip_reply P n r" add] reply by auto
qed

lemma run_answers:
  "ui_answers (pc_run P add as pc) + open_calls (pc_run P add as pc) = ui_answers pc + open_calls pc + signins as"
  by (induction as arbitrary: pc) (auto simp: signins_def apply_answers)

text \<open>Replies to the first request of the provider at \<open>k\<close>, as long as there is one.\<close>

lemma drain:
  assumes "work (pc_providers pc ! k) \<le> length rs" "k < length (pc_providers pc)"
  shows "\<exists>m. pending (pc_providers (pc_run P add (map (PcReply k 0) (take m rs)) pc) ! k) = 0"
  using assms
proof (induction rs arbitrary: pc)
  case Nil then show ?case using idle by auto
next
  case (Cons r rs)
  show ?case
  proof (cases "pending (pc_providers pc ! k) = 0")
    case True then show ?thesis by (intro exI[of _ 0]) simp
  next
    case False
    obtain ss p where f: "ip_reply P 0 r (pc_providers pc ! k) = (ss, p)" by fastforce
    let ?pc = "pc_apply P add (PcReply k 0 r) pc"
    have pc: "pc_providers ?pc = (pc_providers pc)[k := p]" using Cons.prems by (simp add: run_provider_def f fold_signals)
    have "work p < work (pc_providers pc ! k)" using progress[OF f] False by simp
    then have "work (pc_providers ?pc ! k) \<le> length rs" using Cons.prems pc by simp
    from Cons.IH[OF this] obtain m where "pending (pc_providers (pc_run P add (map (PcReply k 0) (take m rs)) ?pc) ! k) = 0"
      using Cons.prems pc by auto
    then show ?thesis by (intro exI[of _ "Suc m"]) simp
  qed
qed

end

end
