(* ===== verification/ProvisionProps.thy ===== *)
theory ProvisionProps imports ProvisionControl BootProps begin

text \<open>
  The Daktela provider keeps the contract of a provider, so every sign-in is answered, and answered once; what
  an automatic sign-in saves; where the access token goes; and how the sign-in falls back on a password
  typed by hand.
\<close>

subsection \<open>The contract\<close>

fun request_work :: "http_request \<Rightarrow> nat" where
  "request_work (ReqDiscovery u h) = 1"
| "request_work (ReqLogin u user pw) = 3"
| "request_work (ReqWhoami u t) = 2"
| "request_work (ReqSipDevice u t) = 1"

fun is_signin_request :: "http_request \<Rightarrow> bool" where
  "is_signin_request (ReqDiscovery u h) = False"
| "is_signin_request r = True"

definition dk_waiting :: "daktela \<Rightarrow> nat" where
  "dk_waiting d = length (filter is_signin_request (dk_requests d))"

definition dk_work :: "daktela \<Rightarrow> nat" where
  "dk_work d = sum_list (map request_work (dk_requests d))"

definition dk_pending :: "daktela \<Rightarrow> nat" where
  "dk_pending d = length (dk_requests d)"

text \<open>What a step adds to the signals and to the requests.\<close>

definition dk_balance :: "daktela \<Rightarrow> nat" where
  "dk_balance d = answers (dk_signals d) + dk_waiting d"

lemma dk_emit_sel [simp]:
  "dk_requests (dk_emit s d) = dk_requests d" "dk_signals (dk_emit s d) = dk_signals d @ [s]"
  "dk_pendingParams (dk_emit s d) = dk_pendingParams d" "dk_host (dk_emit s d) = dk_host d"
  "dk_accessToken (dk_emit s d) = dk_accessToken d" "dk_extensionRecord (dk_emit s d) = dk_extensionRecord d"
  "dk_displayName (dk_emit s d) = dk_displayName d"
  by (simp_all add: dk_emit_def)

lemma dk_send_sel [simp]:
  "dk_requests (dk_send r d) = dk_requests d @ [r]" "dk_signals (dk_send r d) = dk_signals d"
  "dk_pendingParams (dk_send r d) = dk_pendingParams d" "dk_host (dk_send r d) = dk_host d"
  "dk_accessToken (dk_send r d) = dk_accessToken d" "dk_extensionRecord (dk_send r d) = dk_extensionRecord d"
  "dk_displayName (dk_send r d) = dk_displayName d"
  by (simp_all add: dk_send_def)

lemma balance_emit [simp]: "dk_balance (dk_emit s d) = dk_balance d + (if is_answer s then 1 else 0)"
  by (simp add: dk_balance_def dk_waiting_def)

lemma balance_send [simp]: "dk_balance (dk_send r d) = dk_balance d + (if is_signin_request r then 1 else 0)"
  by (simp add: dk_balance_def dk_waiting_def)

lemma balance_fields [simp]:
  "dk_balance (dk_host_update h d) = dk_balance d" "dk_balance (dk_username_update u d) = dk_balance d"
  "dk_balance (dk_password_update w d) = dk_balance d" "dk_balance (dk_accessToken_update t d) = dk_balance d"
  "dk_balance (dk_extensionName_update x d) = dk_balance d" "dk_balance (dk_extensionRecord_update r d) = dk_balance d"
  "dk_balance (dk_displayName_update n d) = dk_balance d" "dk_balance (dk_pendingParams_update p d) = dk_balance d"
  by (simp_all add: dk_balance_def dk_waiting_def)

lemma balance_calls:
  "dk_balance (daktela_provision Q h u w d) = Suc (dk_balance d)"
  "dk_balance (daktela_provisionWithToken Q h t d) = Suc (dk_balance d)"
  "dk_balance (daktela_completeWithPassword w d) = Suc (dk_balance d)"
  "dk_balance (daktela_discoverAuthMethods Q h d) = dk_balance d"
  by (simp_all add: daktela_provision_def daktela_provisionWithToken_def daktela_completeWithPassword_def
      daktela_discoverAuthMethods_def startWhoamiFetch_def fail_def Let_def)

lemma balance_prompt: "dk_balance (promptForPassword p d) = Suc (dk_balance d)"
  by (simp add: promptForPassword_def fail_def Let_def)

lemma balance_reply:
  "dk_balance (handle_reply Q req r d) = dk_balance d + (if is_signin_request req then 1 else 0)"
  by (cases req)
     (auto simp: handle_reply_def onDiscoveryReply_def onLoginReply_def onWhoamiReply_def onSipDeviceReply_def
        startWhoamiFetch_def fail_def balance_prompt Let_def split: option.splits prod.splits)

lemma filter_remove_nth:
  "n < length xs \<Longrightarrow> length (filter Q (remove_nth n xs)) + (if Q (xs ! n) then 1 else 0) = length (filter Q xs)"
proof -
  assume n: "n < length xs"
  have "filter Q xs = filter Q (take n xs) @ filter Q (xs ! n # drop (Suc n) xs)"
    using id_take_nth_drop[OF n] by (metis filter_append)
  then show ?thesis by (simp add: remove_nth_def)
qed

lemma sum_remove_nth: "n < length xs \<Longrightarrow> sum_list (map f (remove_nth n xs)) + f (xs ! n) = (sum_list (map f xs) :: nat)"
proof -
  assume n: "n < length xs"
  have "sum_list (map f xs) = sum_list (map f (take n xs @ xs ! n # drop (Suc n) xs))"
    using id_take_nth_drop[OF n] by simp
  then show ?thesis by (simp add: remove_nth_def)
qed

lemma balance_requests:
  "dk_balance (d\<lparr>dk_requests := rs\<rparr>) = answers (dk_signals d) + length (filter is_signin_request rs)"
  by (simp add: dk_balance_def dk_waiting_def)

lemma balance_daktela_reply: "dk_balance (daktela_reply Q n r d) = dk_balance d"
proof (cases "n < length (dk_requests d)")
  case True
  then show ?thesis
    using filter_remove_nth[OF True, of is_signin_request]
    by (simp only: daktela_reply_def balance_reply balance_requests if_True) (simp add: dk_balance_def dk_waiting_def)
qed (simp add: daktela_reply_def)

lemma requests_handle:
  "\<exists>rs. dk_requests (handle_reply Q req r d) = dk_requests d @ rs \<and> sum_list (map request_work rs) < request_work req"
  by (cases req)
     (auto simp: handle_reply_def onDiscoveryReply_def onLoginReply_def onWhoamiReply_def onSipDeviceReply_def
        promptForPassword_def startWhoamiFetch_def fail_def Let_def split: option.splits prod.splits)

lemma work_daktela_reply: "n < length (dk_requests d) \<Longrightarrow> dk_work (daktela_reply Q n r d) < dk_work d"
  using requests_handle[of Q "dk_requests d ! n" r "d\<lparr>dk_requests := remove_nth n (dk_requests d)\<rparr>"]
    sum_remove_nth[of n "dk_requests d" request_work]
  by (auto simp: daktela_reply_def dk_work_def)

lemma flush_balance:
  assumes "dk_flush f d = (ss, d')" "\<And>d. dk_balance (f d) = dk_balance d + c"
  shows "answers ss + dk_waiting d' = dk_waiting d + c"
proof -
  have "dk_balance (f (d\<lparr>dk_signals := []\<rparr>)) = dk_waiting d + c"
    using assms(2)[of "d\<lparr>dk_signals := []\<rparr>"] by (simp add: dk_balance_def dk_waiting_def)
  then show ?thesis using assms(1) by (auto simp: dk_flush_def dk_balance_def dk_waiting_def Let_def)
qed

lemma work_zero: "dk_work d = 0 \<longleftrightarrow> dk_requests d = []"
proof -
  have "0 < request_work r" for r by (cases r) auto
  then show ?thesis by (cases "dk_requests d") (auto simp: dk_work_def)
qed

interpretation daktela_contract: provider_contract "daktela_if Q" dk_waiting dk_work dk_pending for Q
proof (unfold_locales, goal_cases)
  case (1 h u w p ss p') then show ?case using flush_balance[of _ p ss p' 1] balance_calls by (simp add: daktela_if_def)
next
  case (2 h t p ss p') then show ?case using flush_balance[of _ p ss p' 1] balance_calls by (simp add: daktela_if_def)
next
  case (3 w p ss p') then show ?case using flush_balance[of _ p ss p' 1] balance_calls by (simp add: daktela_if_def)
next
  case (4 h p ss p') then show ?case using flush_balance[of _ p ss p' 0] balance_calls by (simp add: daktela_if_def)
next
  case (5 n r p ss p') then show ?case using flush_balance[of _ p ss p' 0] balance_daktela_reply by (simp add: daktela_if_def)
next
  case (6 n r p ss p')
  then show ?case using work_daktela_reply[of n "p\<lparr>dk_signals := []\<rparr>" Q r]
    by (auto simp: daktela_if_def dk_flush_def dk_pending_def dk_work_def Let_def)
next
  case (7 p) then show ?case by (simp add: dk_pending_def dk_waiting_def)
next
  case (8 p) then show ?case by (simp add: dk_pending_def work_zero)
qed

subsection \<open>Every sign-in is answered\<close>

text \<open>C30. Every call of a sign-in operation gets exactly one answer: however calls, replies and providers' names are
  mixed, the answers the user interface has seen (an error, a question for the password, an account) and the
  requests still on their way are as many as the calls.\<close>

theorem every_signin_answered_once:
  "length (filter is_ui_answer (pc_signals (pc_run (daktela_if Q) add as (pc_new builtin_providers w)))) +
   sum_list (map dk_waiting (pc_providers (pc_run (daktela_if Q) add as (pc_new builtin_providers w)))) = signins as"
  using daktela_contract.run_answers[of Q add as "pc_new builtin_providers w"]
  by (simp add: daktela_contract.open_calls_def ui_answers_def pc_new_def builtin_providers_def daktela_new_def dk_waiting_def)

lemma work_calls:
  "dk_work (daktela_provision Q h u w d) \<le> dk_work d + 3"
  "dk_work (daktela_provisionWithToken Q h t d) \<le> dk_work d + 3"
  "dk_work (daktela_completeWithPassword w d) \<le> dk_work d + 3"
  "dk_work (daktela_discoverAuthMethods Q h d) \<le> dk_work d + 3"
  by (simp_all add: daktela_provision_def daktela_provisionWithToken_def daktela_completeWithPassword_def
      daktela_discoverAuthMethods_def startWhoamiFetch_def fail_def Let_def dk_work_def)

lemma work_reply_le: "dk_work (daktela_reply Q n r d) \<le> dk_work d + 3"
  using work_daktela_reply[of n d Q r] by (cases "n < length (dk_requests d)") (auto simp: daktela_reply_def)

lemma flush_work: "(\<And>d. dk_work (f d) \<le> dk_work d + 3) \<Longrightarrow> dk_work (snd (dk_flush f d)) \<le> dk_work d + 3"
proof -
  assume f: "\<And>d. dk_work (f d) \<le> dk_work d + 3"
  show ?thesis using f[of "d\<lparr>dk_signals := []\<rparr>"] by (simp add: dk_flush_def Let_def dk_work_def)
qed

lemma run_provider_single:
  "pc_providers pc = [p] \<Longrightarrow> pc_providers (run_provider P add 0 f pc) = [snd (f p)]"
  by (simp add: run_provider_def fold_signals split_beta)

lemma registry_find_single: "registry_find P i [p] = Some k \<Longrightarrow> k = 0"
  by (auto simp: registry_find_def split: if_splits)

lemma pc_call_single:
  "pc_providers pc = [p] \<Longrightarrow> (\<And>d. dk_work (snd (f d)) \<le> dk_work d + 3) \<Longrightarrow>
   \<exists>p'. pc_providers (pc_call P add i f pc) = [p'] \<and> dk_work p' \<le> dk_work p + 3"
  by (auto simp: pc_call_def run_provider_single split: option.splits dest!: registry_find_single)

lemma work_apply:
  assumes "pc_providers pc = [p]"
  shows "\<exists>p'. pc_providers (pc_apply (daktela_if Q) add a pc) = [p'] \<and> dk_work p' \<le> dk_work p + 3"
proof (cases a)
  case (PcDiscoverAuthMethods i h)
  then show ?thesis using assms flush_work[OF work_calls(4)]
    by (auto simp: daktela_if_def run_provider_single split: option.splits dest!: registry_find_single)
next
  case (PcReply k n r)
  then show ?thesis using assms flush_work[OF work_reply_le] by (auto simp: daktela_if_def run_provider_single)
qed (use assms in \<open>auto simp: daktela_if_def intro!: pc_call_single flush_work work_calls\<close>)

lemma work_run:
  "pc_providers pc = [p] \<Longrightarrow>
   \<exists>p'. pc_providers (pc_run (daktela_if Q) add as pc) = [p'] \<and> dk_work p' \<le> dk_work p + 3 * length as"
proof (induction as arbitrary: pc p)
  case (Cons a as)
  obtain p1 where "pc_providers (pc_apply (daktela_if Q) add a pc) = [p1]" "dk_work p1 \<le> dk_work p + 3"
    using work_apply[OF Cons.prems] by blast
  with Cons.IH[of "pc_apply (daktela_if Q) add a pc" p1] show ?case by fastforce
qed simp

lemma pc_run_append: "pc_run P add (as @ bs) pc = pc_run P add bs (pc_run P add as pc)"
  by (induction as arbitrary: pc) auto

lemma signins_replies: "signins (as @ map (PcReply 0 0) rs) = signins as"
  by (induction rs) (simp_all add: signins_def)

text \<open>C31. Sign-ins end: once the network answers, whatever it answers, at most three replies for each operation
  before leave no request on its way, and then every call has had its answer.\<close>

theorem signins_end:
  assumes "3 * length as \<le> length rs"
  shows "\<exists>m. dk_requests (hd (pc_providers (pc_run (daktela_if Q) add (as @ map (PcReply 0 0) (take m rs)) (pc_new builtin_providers w)))) = []
    \<and> ui_answers (pc_run (daktela_if Q) add (as @ map (PcReply 0 0) (take m rs)) (pc_new builtin_providers w)) = signins as"
proof -
  let ?run = "\<lambda>as. pc_run (daktela_if Q) add as (pc_new builtin_providers w)"
  have new: "pc_providers (pc_new builtin_providers w) = [daktela_new]" "dk_work daktela_new = 0"
    by (simp_all add: pc_new_def builtin_providers_def daktela_new_def dk_work_def)
  obtain p where p: "pc_providers (?run as) = [p]" "dk_work p \<le> 3 * length as"
    using work_run[OF new(1), of Q add as] new(2) by auto
  obtain m where m: "dk_pending (pc_providers (pc_run (daktela_if Q) add (map (PcReply 0 0) (take m rs)) (?run as)) ! 0) = 0"
    using daktela_contract.drain[of "?run as" 0 rs Q add] p assms by auto
  let ?final = "?run (as @ map (PcReply 0 0) (take m rs))"
  obtain p' where p': "pc_providers ?final = [p']" using work_run[OF new(1), of Q add "as @ map (PcReply 0 0) (take m rs)"] by blast
  have r: "dk_requests p' = []" using m p' by (simp add: pc_run_append dk_pending_def)
  have "ui_answers ?final + sum_list (map dk_waiting (pc_providers ?final)) = signins (as @ map (PcReply 0 0) (take m rs))"
    using daktela_contract.run_answers[of Q add "as @ map (PcReply 0 0) (take m rs)" "pc_new builtin_providers w"]
    by (simp add: daktela_contract.open_calls_def ui_answers_def pc_new_def builtin_providers_def daktela_new_def dk_waiting_def)
  then have "ui_answers ?final = signins as" using p' r by (simp add: dk_waiting_def signins_replies)
  with p' r show ?thesis by (intro exI[of _ m]) simp
qed

theorem signins_end_witness:
  "\<exists>m. dk_requests (hd (pc_providers (pc_run (daktela_if \<lparr>qt_url = (\<lambda>_. None), qt_url_text = (\<lambda>_. []), qt_json = (\<lambda>_. None), qt_json_text = (\<lambda>_. [])\<rparr>) None
      ([PcProvision ''daktela'' ''h'' ''u'' ''p''] @ map (PcReply 0 0) (take m (replicate 3 \<lparr>hr_error = None, hr_status = 200, hr_body = []\<rparr>)))
      (pc_new builtin_providers ())))) = []
    \<and> ui_answers (pc_run (daktela_if \<lparr>qt_url = (\<lambda>_. None), qt_url_text = (\<lambda>_. []), qt_json = (\<lambda>_. None), qt_json_text = (\<lambda>_. [])\<rparr>) None
      ([PcProvision ''daktela'' ''h'' ''u'' ''p''] @ map (PcReply 0 0) (take m (replicate 3 \<lparr>hr_error = None, hr_status = 200, hr_body = []\<rparr>)))
      (pc_new builtin_providers ())) = signins [PcProvision ''daktela'' ''h'' ''u'' ''p'']"
  by (rule signins_end) simp

subsection \<open>The account that is saved\<close>

lemma built_lookup:
  "var_string (buildAccountParams h (Some (JObject obj)) n) ''username'' = device_name obj"
  "var_string (buildAccountParams h (Some (JObject obj)) n) ''domain'' = url_host h"
  "var_string (buildAccountParams h (Some (JObject obj)) n) ''password'' = device_secret obj"
  "buildAccountParams h (Some (JObject obj)) n \<noteq> []"
  by (simp_all add: var_string_def param_string_def Let_def)

lemma am_add_stored:
  assumes "am_add B K f ref a pw am = (i, am')" "i \<noteq> kInvalidAccountId"
  shows "account_keys am' = account_keys am @ [(acc_username a, acc_domain a)]"
  using assms
  by (auto simp: am_add_def Let_def insertRow_def account_keys_def split: option.splits prod.splits bool.splits)
    (simp_all add: am_list_def)

lemma setDefault_keys_eq: "am_setDefault f i am = (r, am') \<Longrightarrow> account_keys am' = account_keys am"
  using setDefault_keys[of f i am] by simp

lemma addAccount_stored:
  assumes "addAccount B K f g ref p ac = (i, ac')" "i \<noteq> kInvalidAccountId"
    and "p ''username'' = Some (RvString u)" "p ''domain'' = Some (RvString d)"
  shows "account_keys (ac_accounts ac') = account_keys (ac_accounts ac) @ [(u, d)]"
proof -
  have "acc_username (applyParams p default_account) = u" "acc_domain (applyParams p default_account) = d"
    using assms by (auto simp: applied_fields)
  then show ?thesis using assms(1,2)
    by (auto simp: addAccount_def Let_def on_manager_keys setDefault_keys split: prod.splits
        dest!: am_add_stored setDefault_keys_eq simp: on_manager_def)
qed

lemma am_add_id:
  assumes "am_add B K f ref a pw am = (i, am')" "list_all (\<lambda>row. 0 \<le> fst row) (t_accounts (db_tables (am_db am)))"
  shows "0 \<le> i \<or> i = kInvalidAccountId"
proof -
  have "0 \<le> next_rowid (t_accounts (db_tables (am_db am)))"
    using assms(2) by (auto simp: next_rowid_def list_all_iff dest: last_in_set)
  then show ?thesis using assms(1)
    by (auto simp: am_add_def Let_def insertRow_def sql_insert_account_def split: option.splits prod.splits bool.splits if_splits)
qed

lemma addAccount_id:
  assumes "addAccount B K f g ref p ac = (i, ac')" "list_all (\<lambda>row. 0 \<le> fst row) (t_accounts (db_tables (am_db (ac_accounts ac))))"
  shows "0 \<le> i \<or> i = kInvalidAccountId"
  using assms by (auto simp: addAccount_def Let_def on_manager_def split: prod.splits dest!: am_add_id)

lemma device_reply_done:
  assumes "hr_error r = None" "unwrapResult Q (hr_body r) = (Some (JObject obj), [])"
    and "device_name obj \<noteq> []" "device_secret obj \<noteq> []"
  shows "onSipDeviceReply Q r d =
    dk_emit (ProvisioningSucceeded (buildAccountParams (dk_host d) (Some (JObject obj)) (dk_displayName d))) (dk_emit (Progress ''done'') d)"
proof -
  let ?p = "buildAccountParams (dk_host d) (Some (JObject obj)) (dk_displayName d)"
  have "?p \<noteq> []" "var_string ?p ''username'' \<noteq> []" "var_string ?p ''password'' \<noteq> []" using assms by (simp_all only: built_lookup not_False_eq_True)
  then show ?thesis using assms(1,2) by (simp add: onSipDeviceReply_def Let_def del: buildAccountParams.simps)
qed

text \<open>C32. When the server hands out the SIP device with its secret, the account controller saves one more account, for that
  device on that server, and the user interface gets its id; if the account cannot be saved it gets the
  failure, and never both.\<close>

theorem device_becomes_account:
  assumes "hr_error r = None" "unwrapResult Q (hr_body r) = (Some (JObject obj), [])"
    and "device_name obj \<noteq> []" "device_secret obj \<noteq> []"
    and "dk_requests d = [ReqSipDevice u t]"
    and "addAccount B K f g ref (map_of (buildAccountParams (dk_host d) (Some (JObject obj)) (dk_displayName d))) ac = (i, ac')"
    and "list_all (\<lambda>row. 0 \<le> fst row) (t_accounts (db_tables (am_db (ac_accounts ac))))"
  shows "let pc = pc_apply (daktela_if Q) (Some (addAccount B K f g ref)) (PcReply 0 0 r) (pc_new [d] ac) in
    pc_world pc = ac'
    \<and> (if 0 \<le> i
       then pc_signals pc = [PcProgress ''daktela'' ''done'', PcAccountProvisioned ''daktela'' i]
         \<and> account_keys (ac_accounts ac') = account_keys (ac_accounts ac) @ [(device_name obj, url_host (dk_host d))]
       else pc_signals pc = [PcProgress ''daktela'' ''done'', PcFailed ''daktela'' ''Could not save the new account.''])"
proof -
  let ?p = "buildAccountParams (dk_host d) (Some (JObject obj)) (dk_displayName d)"
  have "dk_flush (daktela_reply Q 0 r) d = ([Progress ''done'', ProvisioningSucceeded ?p], d\<lparr>dk_requests := [], dk_signals := []\<rparr>)"
    using device_reply_done[OF assms(1-4), of "d\<lparr>dk_signals := [], dk_requests := []\<rparr>"] assms(5)
    by (simp add: dk_flush_def daktela_reply_def handle_reply_def remove_nth_def dk_emit_def)
  moreover have "account_keys (ac_accounts ac') = account_keys (ac_accounts ac) @ [(device_name obj, url_host (dk_host d))]" if "0 \<le> i"
  proof (rule addAccount_stored[OF assms(6)])
    show "i \<noteq> kInvalidAccountId" using that by (simp add: kInvalidAccountId_def)
  qed (simp_all add: Let_def)
  moreover have "0 \<le> i \<or> i = kInvalidAccountId" by (rule addAccount_id[OF assms(6,7)])
  ultimately show ?thesis using assms(6)
    by (auto simp: Let_def run_provider_def daktela_if_def pc_new_def on_succeeded_def pc_emit_def pc_notice_def kInvalidAccountId_def
        simp del: buildAccountParams.simps)
qed

definition example_qt :: qt_parsers where
  "example_qt = \<lparr>qt_url = (\<lambda>s. Some (no_url\<lparr>url_host := drop 8 s\<rparr>)), qt_url_text = url_host,
     qt_json = (\<lambda>s. if s = ''device'' then Some (JObject [(''result'', JObject [(''name'', JString ''101''), (''secret'', JString ''s3'')])])
                    else Some (JObject [(''result'', JString s)])),
     qt_json_text = (\<lambda>_. [])\<rparr>"

definition ok_reply :: "string \<Rightarrow> http_reply" where
  "ok_reply body = \<lparr>hr_error = None, hr_status = 200, hr_body = body\<rparr>"

theorem device_becomes_account_witness:
  "pc_world (pc_apply (daktela_if example_qt) (Some (addAccount FakeB MemK (\<lambda>_. True) (\<lambda>_. True) ''r2'')) (PcReply 0 0 (ok_reply ''device''))
      (pc_new [daktela_new\<lparr>dk_requests := [ReqSipDevice no_url ''t'']\<rparr>] example_ui)) =
   snd (addAccount FakeB MemK (\<lambda>_. True) (\<lambda>_. True) ''r2''
      (map_of (buildAccountParams no_url (Some (JObject [(''name'', JString ''101''), (''secret'', JString ''s3'')])) [])) example_ui)"
proof -
  have "list_all (\<lambda>row. 0 \<le> fst row) (t_accounts (db_tables (am_db (ac_accounts example_ui))))" by code_simp
  from device_becomes_account[OF _ _ _ _ _ surjective_pairing this, of "ok_reply ''device''" example_qt
      "[(''name'', JString ''101''), (''secret'', JString ''s3'')]" "daktela_new\<lparr>dk_requests := [ReqSipDevice no_url ''t'']\<rparr>" no_url "''t''"
      FakeB MemK "\<lambda>_. True" "\<lambda>_. True" "''r2''"]
  show ?thesis
    by (simp add: Let_def ok_reply_def example_qt_def unwrapResult_def j_value_def device_name_def device_secret_def daktela_new_def
        del: buildAccountParams.simps)
qed

subsection \<open>Where the access token goes\<close>

datatype dk_op =
    DkProvision string string string
  | DkProvisionWithToken string string
  | DkCompleteWithPassword string
  | DkDiscover string
  | DkReply nat http_reply

fun dk_apply :: "qt_parsers \<Rightarrow> dk_op \<Rightarrow> daktela \<Rightarrow> daktela" where
  "dk_apply Q (DkProvision h u w) d = daktela_provision Q h u w d"
| "dk_apply Q (DkProvisionWithToken h t) d = daktela_provisionWithToken Q h t d"
| "dk_apply Q (DkCompleteWithPassword w) d = daktela_completeWithPassword w d"
| "dk_apply Q (DkDiscover h) d = daktela_discoverAuthMethods Q h d"
| "dk_apply Q (DkReply n r) d = daktela_reply Q n r d"

fun dk_run :: "qt_parsers \<Rightarrow> dk_op list \<Rightarrow> daktela \<Rightarrow> daktela" where
  "dk_run Q [] d = d"
| "dk_run Q (a # as) d = dk_run Q as (dk_apply Q a d)"

fun starts_signin :: "dk_op \<Rightarrow> bool" where
  "starts_signin (DkProvision h u w) = True"
| "starts_signin (DkProvisionWithToken h t) = True"
| "starts_signin a = False"

text \<open>What the wizard sees to: no sign-in is started while one is under way.\<close>

fun one_at_a_time :: "qt_parsers \<Rightarrow> dk_op list \<Rightarrow> daktela \<Rightarrow> bool" where
  "one_at_a_time Q [] d = True"
| "one_at_a_time Q (a # as) d = ((starts_signin a \<longrightarrow> dk_waiting d = 0) \<and> one_at_a_time Q as (dk_apply Q a d))"

text \<open>A URL without its path: the server, and whatever else the user typed.\<close>

definition origin :: "qurl \<Rightarrow> qurl" where
  "origin u = u\<lparr>url_path := []\<rparr>"

fun req_url :: "http_request \<Rightarrow> qurl" where
  "req_url (ReqDiscovery u h) = u"
| "req_url (ReqLogin u user pw) = u"
| "req_url (ReqWhoami u t) = u"
| "req_url (ReqSipDevice u t) = u"

definition at_home :: "daktela \<Rightarrow> bool" where
  "at_home d \<longleftrightarrow> list_all (\<lambda>r. is_signin_request r \<longrightarrow> origin (req_url r) = origin (dk_host d)) (dk_requests d)"

lemma origin_at [simp]:
  "origin (loginUrl h) = origin h" "origin (whoamiUrl h) = origin h" "origin (sipDeviceUrl h x) = origin h"
  by (simp_all add: origin_def url_at_def loginUrl_def whoamiUrl_def sipDeviceUrl_def)

lemma handle_host: "dk_host (handle_reply Q req r d) = dk_host d"
  by (cases req)
     (auto simp: handle_reply_def onDiscoveryReply_def onLoginReply_def onWhoamiReply_def onSipDeviceReply_def
        promptForPassword_def startWhoamiFetch_def fail_def Let_def split: option.splits prod.splits)

lemma handle_requests:
  "\<exists>rs. dk_requests (handle_reply Q req r d) = dk_requests d @ rs \<and> list_all (\<lambda>x. origin (req_url x) = origin (dk_host d)) rs
     \<and> (\<not> is_signin_request req \<longrightarrow> rs = [])"
  by (cases req)
     (auto simp: handle_reply_def onDiscoveryReply_def onLoginReply_def onWhoamiReply_def onSipDeviceReply_def
        promptForPassword_def startWhoamiFetch_def fail_def Let_def split: option.splits prod.splits)

lemma waiting_none: "dk_waiting d = 0 \<longleftrightarrow> list_all (\<lambda>r. \<not> is_signin_request r) (dk_requests d)"
  by (simp add: dk_waiting_def list_all_iff filter_empty_conv)

lemma at_home_reply: "at_home d \<Longrightarrow> at_home (daktela_reply Q n r d)"
proof (cases "n < length (dk_requests d)")
  case True
  assume d: "at_home d"
  have *: "set (remove_nth n (dk_requests d)) \<subseteq> set (dk_requests d)"
    by (auto simp: remove_nth_def dest: in_set_takeD in_set_dropD)
  obtain rs where rs: "dk_requests (daktela_reply Q n r d) = remove_nth n (dk_requests d) @ rs"
      "list_all (\<lambda>x. origin (req_url x) = origin (dk_host d)) rs" "dk_host (daktela_reply Q n r d) = dk_host d"
    using handle_requests[of Q "dk_requests d ! n" r "d\<lparr>dk_requests := remove_nth n (dk_requests d)\<rparr>"] True
    by (auto simp: daktela_reply_def handle_host)
  then show ?thesis using d * by (auto simp: at_home_def list_all_iff)
qed (simp add: daktela_reply_def)

lemma at_home_apply: "at_home d \<Longrightarrow> starts_signin a \<longrightarrow> dk_waiting d = 0 \<Longrightarrow> at_home (dk_apply Q a d)"
proof (cases a)
  case (DkReply n r) then show "at_home d \<Longrightarrow> ?thesis" by (simp add: at_home_reply)
qed (auto simp: at_home_def waiting_none list_all_iff daktela_provision_def daktela_provisionWithToken_def startWhoamiFetch_def
    fail_def daktela_completeWithPassword_def daktela_discoverAuthMethods_def Let_def)

lemma at_home_run: "one_at_a_time Q as d \<Longrightarrow> at_home d \<Longrightarrow> at_home (dk_run Q as d)"
  by (induction as arbitrary: d) (simp_all add: at_home_apply)



text \<open>Overlapping sign-ins mix: the answer to the first log-in is taken for the second one, and the first
  server's token is sent to the second server.\<close>

theorem overlapping_signins_leak:
  assumes "url_isValid (normalizeHost Q a)" "url_isValid (normalizeHost Q b)"
    and "trim_with q_space ua \<noteq> []" "trim_with q_space ub \<noteq> []" "pa \<noteq> []" "pb \<noteq> []"
    and "hr_error r = None" "unwrapResult Q (hr_body r) = (Some (JString t), [])" "t \<noteq> []"
  shows "dk_requests (dk_run Q [DkProvision a ua pa, DkProvision b ub pb, DkReply 0 r] daktela_new) =
    [ReqLogin (loginUrl (normalizeHost Q b)) (trim_with q_space ub) pb, ReqWhoami (whoamiUrl (normalizeHost Q b)) t]"
  using assms
  by (simp add: daktela_provision_def daktela_reply_def handle_reply_def onLoginReply_def startWhoamiFetch_def remove_nth_def
      daktela_new_def Let_def)

theorem overlapping_signins_leak_witness:
  "dk_requests (dk_run example_qt [DkProvision ''a'' ''u'' ''p'', DkProvision ''b'' ''v'' ''q'', DkReply 0 (ok_reply ''tok'')] daktela_new) =
    [ReqLogin (loginUrl (normalizeHost example_qt ''b'')) (trim_with q_space ''v'') ''q'', ReqWhoami (whoamiUrl (normalizeHost example_qt ''b'')) ''tok'']"
  by (rule overlapping_signins_leak) code_simp+

subsection \<open>Asking for the password\<close>

lemma complete_once:
  assumes "dk_pendingParams d \<noteq> []" "var_string (dk_pendingParams d) ''username'' \<noteq> []"
  shows "dk_flush (daktela_completeWithPassword pw) d =
    ([Progress ''done'', ProvisioningSucceeded (var_put ''password'' (RvString pw) (dk_pendingParams d))],
     d\<lparr>dk_pendingParams := [], dk_signals := []\<rparr>)"
  using assms by (simp add: dk_flush_def daktela_completeWithPassword_def dk_emit_def Let_def)

lemma complete_none:
  "dk_pendingParams d = [] \<Longrightarrow>
   dk_flush (daktela_completeWithPassword pw) d =
    ([ProvisioningFailed ''There is no pending Daktela sign-in to finish.''], d\<lparr>dk_signals := []\<rparr>)"
  by (simp add: dk_flush_def daktela_completeWithPassword_def fail_def dk_emit_def Let_def)

text \<open>A typed password is taken once.  When the account could not be saved with it, the dialog stays open for another
  try, but the provider has dropped the sign-in: every further password is refused, whether the account
  could be saved now or not.\<close>

theorem retry_is_refused:
  assumes "dk_pendingParams d \<noteq> []" "var_string (dk_pendingParams d) ''username'' \<noteq> []"
    and "fst (f (map_of (var_put ''password'' (RvString pw) (dk_pendingParams d))) w) < 0"
  shows "pc_signals (pc_run (daktela_if Q) (Some f)
      [PcProvideManualPassword ''daktela'' pw, PcProvideManualPassword ''daktela'' pw'] (pc_new [d] w)) =
    [PcProgress ''daktela'' ''done'', PcFailed ''daktela'' ''Could not save the new account.'',
     PcFailed ''daktela'' ''There is no pending Daktela sign-in to finish.'']"
proof -
  have "dk_flush (daktela_completeWithPassword pw') (d\<lparr>dk_pendingParams := [], dk_signals := []\<rparr>) =
    ([ProvisioningFailed ''There is no pending Daktela sign-in to finish.''], d\<lparr>dk_pendingParams := [], dk_signals := []\<rparr>)"
    using complete_none[of "d\<lparr>dk_pendingParams := [], dk_signals := []\<rparr>"] by simp
  then show ?thesis using complete_once[OF assms(1,2), of pw] assms(3)
    by (simp add: pc_call_def registry_find_def daktela_if_def run_provider_def pc_new_def on_succeeded_def pc_emit_def
        pc_notice_def split_beta)
qed

theorem retry_is_refused_witness:
  "pc_signals (pc_run (daktela_if \<lparr>qt_url = (\<lambda>_. None), qt_url_text = (\<lambda>_. []), qt_json = (\<lambda>_. None), qt_json_text = (\<lambda>_. [])\<rparr>)
      (Some (\<lambda>p w. (-1, w))) [PcProvideManualPassword ''daktela'' ''a'', PcProvideManualPassword ''daktela'' ''b'']
      (pc_new [daktela_new\<lparr>dk_pendingParams := [(''username'', RvString ''101'')]\<rparr>] ())) =
    [PcProgress ''daktela'' ''done'', PcFailed ''daktela'' ''Could not save the new account.'',
     PcFailed ''daktela'' ''There is no pending Daktela sign-in to finish.'']"
  by (rule retry_is_refused) (simp_all add: var_string_def param_string_def)

lemma var_put_lookup [simp]:
  "var_string (var_put k (RvString s) m) k = s"
  "k' \<noteq> k \<Longrightarrow> var_string (var_put k v m) k' = var_string m k'"
proof -
  show "var_string (var_put k (RvString s) m) k = s" by (simp add: var_string_def var_put_def param_string_def)
  assume k: "k' \<noteq> k"
  then have "map_of (filter (\<lambda>e. fst e \<noteq> k) m) k' = map_of m k'" by (induction m) auto
  then show "var_string (var_put k v m) k' = var_string m k'" using k by (simp add: var_string_def var_put_def param_string_def)
qed

lemma first_named_name: "first_named vs = Some dev \<Longrightarrow> device_name dev \<noteq> []"
  by (induction vs rule: first_named.induct) (auto split: if_splits)

lemma var_put_twice: "var_put k v (var_put k v' m) = var_put k v m"
  by (auto simp: var_put_def intro: filter_cong)

lemma prompt_named:
  assumes "device_name dev \<noteq> []"
  shows "promptForPassword (buildAccountParams h (Some (JObject dev)) n) d =
    (let p = var_put ''password'' (RvString []) (buildAccountParams h (Some (JObject dev)) n)
     in dk_emit (PasswordRequired p) (d\<lparr>dk_pendingParams := p\<rparr>))"
  using assms built_lookup(1,4)[of h dev n] by (simp add: promptForPassword_def del: buildAccountParams.simps)

text \<open>When the server names the user's SIP device but refuses to hand it out, the user is asked for the password of
  that device, and the typed password completes the sign-in: the account is for the device the server named, on
  the server the user gave, with that password.\<close>

theorem refused_device_asks_password:
  assumes "dk_requests d = [ReqWhoami u t]" "hr_error r1 = None" "hr_error r2 = Some e"
    and "unwrapResult Q (hr_body r1) = (Some (JObject res), [])"
    and "first_named (j_toArray (j_value (user_object res) ''extensions'')) = Some dev"
  shows "\<exists>p q. dk_signals (dk_run Q [DkReply 0 r1, DkReply 0 r2, DkCompleteWithPassword pw] d) =
      dk_signals d @ [Progress ''fetching-extension'', PasswordRequired p, Progress ''done'', ProvisioningSucceeded q]
    \<and> var_string p ''username'' = device_name dev \<and> var_string p ''password'' = []
    \<and> var_string q ''username'' = device_name dev \<and> var_string q ''domain'' = url_host (dk_host d)
    \<and> var_string q ''password'' = pw"
proof -
  let ?n = "user_displayName (Some (JObject res)) (dk_displayName d)"
  let ?b = "buildAccountParams (dk_host d) (Some (JObject dev)) ?n"
  let ?p = "var_put ''password'' (RvString []) ?b" and ?q = "var_put ''password'' (RvString pw) ?b"
  have nm: "device_name dev \<noteq> []" by (rule first_named_name[OF assms(5)])
  have x: "extractExtensionName (Some (JObject res)) = (device_name dev, [])" "extractExtensionRecord (Some (JObject res)) = dev"
    using assms(5) by (simp_all add: Let_def)
  have w: "onWhoamiReply Q r1 d' = dk_send (ReqSipDevice (sipDeviceUrl (dk_host d') (device_name dev)) (dk_accessToken d'))
      (dk_emit (Progress ''fetching-extension'') (d'\<lparr>dk_displayName := user_displayName (Some (JObject res)) (dk_displayName d'),
        dk_extensionName := device_name dev, dk_extensionRecord := dev\<rparr>))" for d'
    using nm assms(2,4) x by (simp add: onWhoamiReply_def Let_def del: extractExtensionName.simps extractExtensionRecord.simps)
  have s: "dk_signals (dk_run Q [DkReply 0 r1, DkReply 0 r2, DkCompleteWithPassword pw] d) =
      dk_signals d @ [Progress ''fetching-extension'', PasswordRequired ?p, Progress ''done'', ProvisioningSucceeded ?q]"
    using assms(1,3) nm built_lookup(1,4)[of "dk_host d" dev ?n]
    by (simp add: daktela_reply_def handle_reply_def remove_nth_def w onSipDeviceReply_def prompt_named daktela_completeWithPassword_def
        Let_def var_put_twice var_put_def[of _ _ "[]"] del: buildAccountParams.simps)
       (simp add: var_put_def)
  show ?thesis
    by (intro exI[of _ ?p] exI[of _ ?q] conjI s) (simp_all add: built_lookup del: buildAccountParams.simps)
qed

definition whoami_qt :: qt_parsers where
  "whoami_qt = example_qt\<lparr>qt_json := (\<lambda>s. Some (JObject [(''result'', JObject [(''user'', JObject [(''extensions'', JArray [JObject [(''name'', JString ''101'')]])])])]))\<rparr>"

theorem refused_device_asks_password_witness:
  "\<exists>p q. dk_signals (dk_run whoami_qt [DkReply 0 (ok_reply []), DkReply 0 (ok_reply []\<lparr>hr_error := Some ''403''\<rparr>), DkCompleteWithPassword ''pw'']
      (daktela_new\<lparr>dk_requests := [ReqWhoami no_url ''t'']\<rparr>)) =
      dk_signals (daktela_new\<lparr>dk_requests := [ReqWhoami no_url ''t'']\<rparr>) @
        [Progress ''fetching-extension'', PasswordRequired p, Progress ''done'', ProvisioningSucceeded q]
    \<and> var_string p ''username'' = device_name [(''name'', JString ''101'')] \<and> var_string p ''password'' = []
    \<and> var_string q ''username'' = device_name [(''name'', JString ''101'')]
    \<and> var_string q ''domain'' = url_host (dk_host (daktela_new\<lparr>dk_requests := [ReqWhoami no_url ''t'']\<rparr>))
    \<and> var_string q ''password'' = ''pw''"
proof (rule refused_device_asks_password)
  show "unwrapResult whoami_qt (hr_body (ok_reply [])) =
      (Some (JObject [(''user'', JObject [(''extensions'', JArray [JObject [(''name'', JString ''101'')]])])]), [])"
    by (simp add: ok_reply_def whoami_qt_def unwrapResult_def j_value_def)
  show "first_named (j_toArray (j_value (user_object [(''user'', JObject [(''extensions'', JArray [JObject [(''name'', JString ''101'')]])])]) ''extensions'')) =
      Some [(''name'', JString ''101'')]"
    by code_simp
qed (simp_all add: ok_reply_def)

end
