(* ===== verification/SipEngine.thy ===== *)
theory SipEngine imports CStrings SipTypes begin

text \<open>
  \<open>sipbackend/pjsip/SipEngine.{h,cpp}\<close>, the owner of the PJSIP endpoint.  PJSIP itself is a parameter: its
  state is of some type \<open>'l\<close> and the calls the program makes of it are a table of functions.  A call that
  throws \<open>pj::Error\<close> gives \<open>False\<close> or \<open>None\<close>; a new object is a number.
\<close>

subsection \<open>What the program uses of PJSIP\<close>

datatype tp_type = TpUdp | TpTcp | TpTls

record tls_config =
  tls_method :: string
  tls_verifyServer :: bool
  tls_verifyClient :: bool
  tls_CaListFile :: string
  tls_CaBuf :: string

record transport_config =
  tc_port :: int
  tc_tls :: tls_config

text \<open>The fields of \<open>pj::AccountConfig\<close> that are set; \<open>None\<close> keeps the library's default.\<close>

record acc_config =
  acf_idUri :: string
  acf_registrarUri :: string
  acf_timeoutSec :: int
  acf_cred :: "string \<times> string \<times> string"
  acf_proxies :: "string list"
  acf_contactForced :: string
  acf_stun :: bool
  acf_ice :: bool
  acf_registerOnAdd :: bool
  acf_udpKaIntervalSec :: "int option"
  acf_timerInactive :: bool
  acf_publishEnabled :: bool
  acf_mwiEnabled :: bool
  acf_srtp :: srtp_mode
  acf_srtpSecureSignaling :: int
  acf_transportId :: "int option"

datatype inv_state = InvNull | InvCalling | InvIncoming | InvEarly | InvConnecting | InvConfirmed | InvDisconnected

datatype media_status = MediaActive | MediaLocalHold | MediaOther

record media_info =
  mi_audio :: bool
  mi_status :: media_status

record pj_call_info =
  ci_state :: inv_state
  ci_lastStatusCode :: int
  ci_remoteUri :: string
  ci_media :: "media_info list"

text \<open>\<open>pj::CallOpParam\<close> of a hang-up: status code, reason and headers.\<close>

record hangup_param =
  hp_statusCode :: int
  hp_reason :: string
  hp_headers :: "(string \<times> string) list"

record rtcp_stat =
  rs_rxPkt :: int
  rs_rxLoss :: int
  rs_txPkt :: int
  rs_txLoss :: int
  rs_jitterUsec :: int
  rs_rttUsec :: int

record 'l pjsua =
  lib_create :: "'l \<Rightarrow> bool \<times> 'l"
  lib_init :: "'l \<Rightarrow> bool \<times> 'l"
  lib_transportCreate :: "tp_type \<Rightarrow> transport_config \<Rightarrow> 'l \<Rightarrow> int option \<times> 'l"
  lib_start :: "'l \<Rightarrow> bool \<times> 'l"
  lib_hangupAllCalls :: "'l \<Rightarrow> bool \<times> 'l"
  lib_destroy :: "'l \<Rightarrow> bool \<times> 'l"
  lib_deleteEndpoint :: "'l \<Rightarrow> 'l"
  lib_updateStun :: "string list \<Rightarrow> 'l \<Rightarrow> 'l"
  lib_codecEnum :: "'l \<Rightarrow> string list option"
  lib_codecSetPriority :: "string \<Rightarrow> nat \<Rightarrow> 'l \<Rightarrow> 'l"
  lib_enumDev :: "'l \<Rightarrow> audio_device list option"
  lib_setNullDev :: "'l \<Rightarrow> 'l"
  lib_captureDev :: "'l \<Rightarrow> int option"
  lib_playbackDev :: "'l \<Rightarrow> int option"
  lib_setCaptureDev :: "int \<Rightarrow> 'l \<Rightarrow> bool \<times> 'l"
  lib_setPlaybackDev :: "int \<Rightarrow> 'l \<Rightarrow> bool \<times> 'l"
  lib_refreshDevs :: "'l \<Rightarrow> 'l"
  lib_captureMedia :: "'l \<Rightarrow> int"
  lib_playbackMedia :: "'l \<Rightarrow> int"
  acc_create :: "acc_config \<Rightarrow> 'l \<Rightarrow> int option \<times> 'l"
  acc_setRegistration :: "int \<Rightarrow> bool \<Rightarrow> 'l \<Rightarrow> 'l"
  acc_regIsActive :: "int \<Rightarrow> 'l \<Rightarrow> bool option"
  acc_destroy :: "int \<Rightarrow> 'l \<Rightarrow> 'l"
  im_send :: "int \<Rightarrow> string \<Rightarrow> string \<Rightarrow> 'l \<Rightarrow> bool \<times> 'l"
  buddy_create :: "int \<Rightarrow> string \<Rightarrow> 'l \<Rightarrow> int option \<times> 'l"
  buddy_subscribe :: "int \<Rightarrow> bool \<Rightarrow> 'l \<Rightarrow> bool \<times> 'l"
  buddy_destroy :: "int \<Rightarrow> 'l \<Rightarrow> 'l"
  call_make :: "int \<Rightarrow> string \<Rightarrow> 'l \<Rightarrow> int option \<times> 'l"
  call_attach :: "int \<Rightarrow> int \<Rightarrow> 'l \<Rightarrow> 'l"
  call_info :: "int \<Rightarrow> 'l \<Rightarrow> pj_call_info option"
  call_media :: "int \<Rightarrow> nat \<Rightarrow> 'l \<Rightarrow> int option"
  call_answer :: "int \<Rightarrow> int \<Rightarrow> 'l \<Rightarrow> bool \<times> 'l"
  call_hangup :: "int \<Rightarrow> hangup_param \<Rightarrow> 'l \<Rightarrow> bool \<times> 'l"
  call_setHold :: "int \<Rightarrow> 'l \<Rightarrow> bool \<times> 'l"
  call_reinvite :: "int \<Rightarrow> 'l \<Rightarrow> bool \<times> 'l"
  call_sendDtmfInfo :: "int \<Rightarrow> char \<Rightarrow> 'l \<Rightarrow> bool \<times> 'l"
  call_dialDtmf :: "int \<Rightarrow> string \<Rightarrow> 'l \<Rightarrow> bool \<times> 'l"
  call_xfer :: "int \<Rightarrow> string \<Rightarrow> 'l \<Rightarrow> bool \<times> 'l"
  call_xferReplaces :: "int \<Rightarrow> int \<Rightarrow> 'l \<Rightarrow> bool \<times> 'l"
  call_endXferSub :: "int \<Rightarrow> 'l \<Rightarrow> 'l"
  call_streamStat :: "int \<Rightarrow> nat \<Rightarrow> 'l \<Rightarrow> rtcp_stat option"
  call_destroy :: "int \<Rightarrow> 'l \<Rightarrow> 'l"
  port_startTransmit :: "int \<Rightarrow> int \<Rightarrow> 'l \<Rightarrow> bool \<times> 'l"
  port_stopTransmit :: "int \<Rightarrow> int \<Rightarrow> 'l \<Rightarrow> bool \<times> 'l"
  port_listeners :: "int \<Rightarrow> 'l \<Rightarrow> int list option"
  recorder_create :: "string \<Rightarrow> 'l \<Rightarrow> int option \<times> 'l"
  player_create :: "string \<Rightarrow> bool \<Rightarrow> 'l \<Rightarrow> int option \<times> 'l"
  media_destroy :: "int \<Rightarrow> 'l \<Rightarrow> 'l"

text \<open>
  The rest of the machine: \<open>ee_caEnv\<close> is \<open>COMPACTPHONE_CA_FILE\<close>, \<open>ee_rootStore\<close> the certificates of the
  Windows ROOT store as PEM (\<open>None\<close> on other systems), \<open>ee_headless\<close> says that there is no graphical
  application.
\<close>

record engine_env =
  ee_caEnv :: "string option"
  ee_exists :: "string \<Rightarrow> bool"
  ee_rootStore :: "string option"
  ee_headless :: bool

subsection \<open>The engine\<close>

text \<open>\<open>eng_endpoint\<close>: whether \<open>m_endpoint\<close> is set.\<close>

record 'l sip_engine =
  eng_running :: bool
  eng_endpoint :: bool
  eng_lib :: 'l
  eng_caCertFile :: string
  eng_caCertBuf :: string

definition eng_new :: "'l \<Rightarrow> 'l sip_engine" where
  "eng_new l = \<lparr>eng_running = False, eng_endpoint = False, eng_lib = l, eng_caCertFile = [], eng_caCertBuf = []\<rparr>"

definition ca_candidates :: "string list" where
  "ca_candidates = [''/etc/ssl/certs/ca-certificates.crt'', ''/etc/pki/tls/certs/ca-bundle.crt'', ''/etc/ssl/cert.pem'']"

definition detectCaCertFile :: "engine_env \<Rightarrow> string" where
  "detectCaCertFile E =
     (case ee_caEnv E of
        Some p \<Rightarrow> if p \<noteq> [] then p else (case find (ee_exists E) ca_candidates of Some c \<Rightarrow> c | None \<Rightarrow> [])
      | None \<Rightarrow> (case find (ee_exists E) ca_candidates of Some c \<Rightarrow> c | None \<Rightarrow> []))"

definition applyCaTrust :: "'l sip_engine \<Rightarrow> tls_config \<Rightarrow> tls_config" where
  "applyCaTrust s cfg =
     (if eng_caCertFile s \<noteq> [] then cfg\<lparr>tls_CaListFile := eng_caCertFile s\<rparr>
      else if eng_caCertBuf s \<noteq> [] then cfg\<lparr>tls_CaBuf := eng_caCertBuf s\<rparr>
      else cfg)"

definition no_tls :: tls_config where
  "no_tls = \<lparr>tls_method = [], tls_verifyServer = False, tls_verifyClient = False, tls_CaListFile = [], tls_CaBuf = []\<rparr>"

text \<open>A TLS transport on any port; both callers of it only differ in whether the server is verified.\<close>

definition tls_transport :: "'l sip_engine \<Rightarrow> bool \<Rightarrow> transport_config" where
  "tls_transport s verify =
     \<lparr>tc_port = 0, tc_tls = applyCaTrust s (no_tls\<lparr>tls_method := ''TLSv1_2'', tls_verifyServer := verify\<rparr>)\<rparr>"

text \<open>Steps that throw end the sequence.\<close>

fun run_steps :: "('l \<Rightarrow> bool \<times> 'l) list \<Rightarrow> 'l \<Rightarrow> bool \<times> 'l" where
  "run_steps [] l = (True, l)"
| "run_steps (f # fs) l = (case f l of (ok, l1) \<Rightarrow> if ok then run_steps fs l1 else (False, l1))"

definition throwing :: "('l \<Rightarrow> int option \<times> 'l) \<Rightarrow> 'l \<Rightarrow> bool \<times> 'l" where
  "throwing f l = (case f l of (r, l1) \<Rightarrow> (r \<noteq> None, l1))"

definition caught :: "('l \<Rightarrow> bool \<times> 'l) \<Rightarrow> 'l \<Rightarrow> bool \<times> 'l" where
  "caught f l = (True, snd (f l))"

definition has_real_device :: "audio_device list \<Rightarrow> bool" where
  "has_real_device devs \<longleftrightarrow> list_ex (\<lambda>d. ad_inputCount d > 0 \<or> ad_outputCount d > 0) devs"

definition probe_audio :: "'l pjsua \<Rightarrow> engine_env \<Rightarrow> 'l \<Rightarrow> 'l" where
  "probe_audio L E l =
     (if ee_headless E then lib_setNullDev L l
      else case lib_enumDev L l of
        None \<Rightarrow> l
      | Some devs \<Rightarrow> if has_real_device devs then l else lib_setNullDev L l)"

definition resolve_trust :: "engine_env \<Rightarrow> 'l sip_engine \<Rightarrow> 'l sip_engine" where
  "resolve_trust E s =
     (let s1 = (if eng_caCertFile s = [] then s\<lparr>eng_caCertFile := detectCaCertFile E\<rparr> else s) in
      if eng_caCertFile s1 = [] \<and> eng_caCertBuf s1 = []
      then s1\<lparr>eng_caCertBuf := (case ee_rootStore E of Some pem \<Rightarrow> pem | None \<Rightarrow> [])\<rparr> else s1)"

definition engine_start :: "'l pjsua \<Rightarrow> engine_env \<Rightarrow> int \<Rightarrow> 'l sip_engine \<Rightarrow> bool \<times> 'l sip_engine" where
  "engine_start L E sipPort s =
     (if eng_running s then (True, s)
      else let s1 = resolve_trust E s in
        (case run_steps
             [lib_create L, lib_init L,
              throwing (lib_transportCreate L TpUdp \<lparr>tc_port = sipPort, tc_tls = no_tls\<rparr>),
              caught (throwing (lib_transportCreate L TpTcp \<lparr>tc_port = 0, tc_tls = no_tls\<rparr>)),
              caught (throwing (lib_transportCreate L TpTls (tls_transport s1 True))),
              lib_start L] (eng_lib s1) of
           (True, l) \<Rightarrow> (True, s1\<lparr>eng_endpoint := True, eng_running := True, eng_lib := probe_audio L E l\<rparr>)
         | (False, l) \<Rightarrow> (False, s1\<lparr>eng_endpoint := False, eng_lib := lib_deleteEndpoint L l\<rparr>)))"

definition engine_stop :: "'l pjsua \<Rightarrow> 'l sip_engine \<Rightarrow> 'l sip_engine" where
  "engine_stop L s =
     (if \<not> eng_running s then s
      else s\<lparr>eng_lib := lib_deleteEndpoint L (snd (run_steps [lib_hangupAllCalls L, lib_destroy L] (eng_lib s))),
             eng_endpoint := False, eng_running := False\<rparr>)"

definition applyStunServers :: "'l pjsua \<Rightarrow> string list \<Rightarrow> 'l sip_engine \<Rightarrow> 'l sip_engine" where
  "applyStunServers L servers s =
     (let storage = filter (\<lambda>x. x \<noteq> []) servers in
      if \<not> eng_endpoint s \<or> storage = [] then s else s\<lparr>eng_lib := lib_updateStun L storage (eng_lib s)\<rparr>)"

subsection \<open>Codec priorities\<close>

definition codec_matches :: "string \<Rightarrow> string \<Rightarrow> bool" where
  "codec_matches nm codecId \<longleftrightarrow>
     length nm \<le> length codecId \<and> map to_lower (take (length nm) codecId) = map to_lower nm"

text \<open>One round of the loop over the wanted names; \<open>prio\<close> goes down by two while it can.\<close>

fun promote_codecs :: "'l pjsua \<Rightarrow> string list \<Rightarrow> string list \<Rightarrow> nat \<Rightarrow> 'l \<Rightarrow> 'l" where
  "promote_codecs L all [] prio l = l"
| "promote_codecs L all (nm # names) prio l =
     (case find (codec_matches nm) all of
        None \<Rightarrow> promote_codecs L all names prio l
      | Some c \<Rightarrow> promote_codecs L all names (if prio \<ge> 2 then prio - 2 else prio) (lib_codecSetPriority L c prio l))"

definition applyCodecPriority :: "'l pjsua \<Rightarrow> string list \<Rightarrow> 'l sip_engine \<Rightarrow> 'l sip_engine" where
  "applyCodecPriority L priorityOrder s =
     (if \<not> eng_endpoint s \<or> priorityOrder = [] then s
      else case lib_codecEnum L (eng_lib s) of
        None \<Rightarrow> s
      | Some all \<Rightarrow>
          s\<lparr>eng_lib := promote_codecs L all priorityOrder 254 (fold (\<lambda>c. lib_codecSetPriority L c 0) all (eng_lib s))\<rparr>)"

subsection \<open>Audio devices\<close>

definition engine_audioDevices :: "'l pjsua \<Rightarrow> 'l sip_engine \<Rightarrow> audio_device list" where
  "engine_audioDevices L s =
     (if \<not> eng_endpoint s then [] else case lib_enumDev L (eng_lib s) of None \<Rightarrow> [] | Some devs \<Rightarrow> devs)"

definition engine_captureDevice :: "'l pjsua \<Rightarrow> 'l sip_engine \<Rightarrow> int" where
  "engine_captureDevice L s =
     (if \<not> eng_endpoint s then -1 else case lib_captureDev L (eng_lib s) of None \<Rightarrow> -1 | Some i \<Rightarrow> i)"

definition engine_playbackDevice :: "'l pjsua \<Rightarrow> 'l sip_engine \<Rightarrow> int" where
  "engine_playbackDevice L s =
     (if \<not> eng_endpoint s then -1 else case lib_playbackDev L (eng_lib s) of None \<Rightarrow> -1 | Some i \<Rightarrow> i)"

definition on_lib :: "('l \<Rightarrow> 'r \<times> 'l) \<Rightarrow> 'l sip_engine \<Rightarrow> 'r \<times> 'l sip_engine" where
  "on_lib f s = (case f (eng_lib s) of (r, l) \<Rightarrow> (r, s\<lparr>eng_lib := l\<rparr>))"

definition engine_setCaptureDevice :: "'l pjsua \<Rightarrow> int \<Rightarrow> 'l sip_engine \<Rightarrow> bool \<times> 'l sip_engine" where
  "engine_setCaptureDevice L i s = (if \<not> eng_endpoint s then (False, s) else on_lib (lib_setCaptureDev L i) s)"

definition engine_setPlaybackDevice :: "'l pjsua \<Rightarrow> int \<Rightarrow> 'l sip_engine \<Rightarrow> bool \<times> 'l sip_engine" where
  "engine_setPlaybackDevice L i s = (if \<not> eng_endpoint s then (False, s) else on_lib (lib_setPlaybackDev L i) s)"

definition engine_refreshAudioDevices :: "'l pjsua \<Rightarrow> 'l sip_engine \<Rightarrow> 'l sip_engine" where
  "engine_refreshAudioDevices L s =
     (if \<not> eng_endpoint s then s else s\<lparr>eng_lib := lib_refreshDevs L (eng_lib s)\<rparr>)"

end
