(* ===== verification/Pjsip.thy ===== *)
theory Pjsip imports SipEngine BackendIf Dispatch RowModel Notify begin

text \<open>
  \<open>sipbackend/pjsip/PjsipBackend.{h,cpp}\<close>, the adapter between the core and PJSIP.  It owns the accounts, the
  watches, the calls and what plays or records on them, hands out their ids, and turns every callback into
  an event in its queue.  Callbacks run on a thread of PJSIP; all they do is post events, claim an incoming
  call under the lock, and read the mute flag of their call, so each is one step between two commands.
\<close>

subsection \<open>State\<close>

record pjsip_call =
  cl_handle :: int
  cl_muted :: bool

record pjsip_watch =
  wt_buddy :: "int option"
  wt_accountId :: account_id

text \<open>
  \<open>m_ringtonePlayer\<close> is null, an object whose \<open>createPlayer\<close> has thrown (\<open>Some None\<close>; PJSIP refuses to connect it),
  or a player.
\<close>

text \<open>What is queued: an event for the listener, or the end of the grace period of a released call.\<close>

datatype pb_event = PbEvent listener_event | PbGraceDestroy call_id

record 'l pjsip_backend =
  pb_engine :: "'l sip_engine"
  pb_listener :: bool
  pb_nextAccountId :: account_id
  pb_nextCallId :: call_id
  pb_accounts :: "(account_id \<times> int) list"
  pb_nextWatchId :: watch_id
  pb_watches :: "(watch_id \<times> pjsip_watch) list"
  pb_calls :: "(call_id \<times> pjsip_call) list"
  pb_graceCalls :: "(call_id \<times> pjsip_call) list"
  pb_recorders :: "(call_id \<times> int) list"
  pb_filePlayers :: "(call_id \<times> int) list"
  pb_ringtonePlayer :: "int option option"
  pb_ringtonePath :: string
  pb_ringtonePlaying :: bool
  pb_events :: "pb_event event_dispatch"

definition pb_new :: "'l sip_engine \<Rightarrow> 'l pjsip_backend" where
  "pb_new s = \<lparr>pb_engine = s, pb_listener = False, pb_nextAccountId = 10001, pb_nextCallId = 50001, pb_accounts = [],
     pb_nextWatchId = 80001, pb_watches = [], pb_calls = [], pb_graceCalls = [], pb_recorders = [], pb_filePlayers = [],
     pb_ringtonePlayer = None, pb_ringtonePath = [], pb_ringtonePlaying = False, pb_events = ed_new\<rparr>"

definition pb_lib :: "'l pjsip_backend \<Rightarrow> 'l" where
  "pb_lib b = eng_lib (pb_engine b)"

definition put_lib :: "'l \<Rightarrow> 'l pjsip_backend \<Rightarrow> 'l pjsip_backend" where
  "put_lib l b = b\<lparr>pb_engine := (pb_engine b)\<lparr>eng_lib := l\<rparr>\<rparr>"

text \<open>A call of the library, and one whose exceptions are caught and dropped.\<close>

definition lib_call :: "('l \<Rightarrow> 'r \<times> 'l) \<Rightarrow> 'l pjsip_backend \<Rightarrow> 'r \<times> 'l pjsip_backend" where
  "lib_call f b = (case f (pb_lib b) of (r, l) \<Rightarrow> (r, put_lib l b))"

definition lib_do :: "('l \<Rightarrow> 'l) \<Rightarrow> 'l pjsip_backend \<Rightarrow> 'l pjsip_backend" where
  "lib_do f b = put_lib (f (pb_lib b)) b"

definition pb_post :: "pb_event \<Rightarrow> 'l pjsip_backend \<Rightarrow> 'l pjsip_backend" where
  "pb_post e b = b\<lparr>pb_events := ed_post e (pb_events b)\<rparr>"

text \<open>Erasing from one of the maps of media objects destroys the object.\<close>

definition erase_recorder :: "'l pjsua \<Rightarrow> call_id \<Rightarrow> 'l pjsip_backend \<Rightarrow> 'l pjsip_backend" where
  "erase_recorder L i b =
     (case map_of (pb_recorders b) i of
        None \<Rightarrow> b
      | Some h \<Rightarrow> lib_do (media_destroy L h) (b\<lparr>pb_recorders := adel i (pb_recorders b)\<rparr>))"

definition erase_player :: "'l pjsua \<Rightarrow> call_id \<Rightarrow> 'l pjsip_backend \<Rightarrow> 'l pjsip_backend" where
  "erase_player L i b =
     (case map_of (pb_filePlayers b) i of
        None \<Rightarrow> b
      | Some h \<Rightarrow> lib_do (media_destroy L h) (b\<lparr>pb_filePlayers := adel i (pb_filePlayers b)\<rparr>))"

subsection \<open>Lifecycle\<close>

definition drop_watch :: "'l pjsua \<Rightarrow> pjsip_watch \<Rightarrow> 'l \<Rightarrow> 'l" where
  "drop_watch L w l =
     (case wt_buddy w of None \<Rightarrow> l | Some h \<Rightarrow> buddy_destroy L h (snd (buddy_subscribe L h False l)))"

definition clearWatches :: "'l pjsua \<Rightarrow> 'l pjsip_backend \<Rightarrow> 'l pjsip_backend" where
  "clearWatches L b = lib_do (fold (drop_watch L) (map snd (pb_watches b))) (b\<lparr>pb_watches := []\<rparr>)"

definition clear_media :: "'l pjsua \<Rightarrow> 'l pjsip_backend \<Rightarrow> 'l pjsip_backend" where
  "clear_media L b =
     lib_do (fold (media_destroy L)
        (map snd (pb_recorders b) @ map snd (pb_filePlayers b) @ (case pb_ringtonePlayer b of Some (Some h) \<Rightarrow> [h] | _ \<Rightarrow> [])))
       (b\<lparr>pb_recorders := [], pb_filePlayers := [], pb_ringtonePlayer := None, pb_ringtonePlaying := False\<rparr>)"

definition clear_calls :: "'l pjsua \<Rightarrow> 'l pjsip_backend \<Rightarrow> 'l pjsip_backend" where
  "clear_calls L b =
     lib_do (fold (call_destroy L) (map (cl_handle \<circ> snd) (pb_calls b @ pb_graceCalls b))) (b\<lparr>pb_calls := [], pb_graceCalls := []\<rparr>)"

definition clear_accounts :: "'l pjsua \<Rightarrow> 'l pjsip_backend \<Rightarrow> 'l pjsip_backend" where
  "clear_accounts L b = lib_do (fold (acc_destroy L) (map snd (pb_accounts b))) (b\<lparr>pb_accounts := []\<rparr>)"

definition pb_setListener :: "'l pjsip_backend \<Rightarrow> bool \<Rightarrow> 'l pjsip_backend" where
  "pb_setListener b on = b\<lparr>pb_events := ed_invalidate (pb_events b), pb_listener := on\<rparr>"

definition pb_start :: "'l pjsua \<Rightarrow> engine_env \<Rightarrow> 'l pjsip_backend \<Rightarrow> int \<Rightarrow> bool \<times> 'l pjsip_backend" where
  "pb_start L E b sipPort = (case engine_start L E sipPort (pb_engine b) of (ok, s) \<Rightarrow> (ok, b\<lparr>pb_engine := s\<rparr>))"

definition pb_stop :: "'l pjsua \<Rightarrow> 'l pjsip_backend \<Rightarrow> 'l pjsip_backend" where
  "pb_stop L b =
     (let b1 = clear_accounts L (clearWatches L (clear_calls L (clear_media L b)))
      in b1\<lparr>pb_events := ed_invalidate (pb_events b1), pb_engine := engine_stop L (pb_engine b1)\<rparr>)"

definition pb_isRunning :: "'l pjsip_backend \<Rightarrow> bool" where
  "pb_isRunning b = eng_running (pb_engine b)"

definition pb_setCaTrust :: "'l pjsip_backend \<Rightarrow> ca_trust \<Rightarrow> 'l pjsip_backend" where
  "pb_setCaTrust b t = b\<lparr>pb_engine := (pb_engine b)\<lparr>eng_caCertFile := ct_caFile t\<rparr>\<rparr>"

definition ringtone_port :: "'l pjsip_backend \<Rightarrow> int option" where
  "ringtone_port b = (case pb_ringtonePlayer b of Some p \<Rightarrow> p | None \<Rightarrow> None)"

definition ringtone_connect :: "'l pjsua \<Rightarrow> (int \<Rightarrow> int \<Rightarrow> 'l \<Rightarrow> bool \<times> 'l) \<Rightarrow> 'l pjsip_backend \<Rightarrow> bool \<times> 'l pjsip_backend" where
  "ringtone_connect L transmit b =
     (case ringtone_port b of
        None \<Rightarrow> (False, b)
      | Some h \<Rightarrow> lib_call (\<lambda>l. transmit h (lib_playbackMedia L l) l) b)"

text \<open>The new player object is stored before its file is opened; the path only afterwards.\<close>

definition ringtone_load :: "'l pjsua \<Rightarrow> string \<Rightarrow> 'l pjsip_backend \<Rightarrow> bool \<times> 'l pjsip_backend" where
  "ringtone_load L path b =
     (if pb_ringtonePlayer b \<noteq> None \<and> pb_ringtonePath b = path then (True, b)
      else
        (let b0 = (case ringtone_port b of None \<Rightarrow> b | Some h \<Rightarrow> lib_do (media_destroy L h) b) in
         case lib_call (player_create L path True) b0 of
           (None, b1) \<Rightarrow> (False, b1\<lparr>pb_ringtonePlayer := Some None\<rparr>)
         | (Some h, b1) \<Rightarrow> (True, b1\<lparr>pb_ringtonePlayer := Some (Some h), pb_ringtonePath := path\<rparr>)))"

definition pb_playRingtone :: "'l pjsua \<Rightarrow> 'l pjsip_backend \<Rightarrow> string \<Rightarrow> bool \<times> 'l pjsip_backend" where
  "pb_playRingtone L b path =
     (if path = [] then (False, b)
      else if pb_ringtonePlaying b \<and> pb_ringtonePath b = path then (True, b)
      else case (if pb_ringtonePlaying b then ringtone_connect L (port_stopTransmit L) b else (True, b)) of
        (False, b1) \<Rightarrow> (False, b1)
      | (True, b1) \<Rightarrow>
          (case ringtone_load L path (b1\<lparr>pb_ringtonePlaying := False\<rparr>) of
             (False, b2) \<Rightarrow> (False, b2)
           | (True, b2) \<Rightarrow>
               (case ringtone_connect L (port_startTransmit L) b2 of
                  (False, b3) \<Rightarrow> (False, b3)
                | (True, b3) \<Rightarrow> (True, b3\<lparr>pb_ringtonePlaying := True\<rparr>))))"

definition pb_stopRingtone :: "'l pjsua \<Rightarrow> 'l pjsip_backend \<Rightarrow> 'l pjsip_backend" where
  "pb_stopRingtone L b =
     (if \<not> pb_ringtonePlaying b then b
      else (snd (ringtone_connect L (port_stopTransmit L) b))\<lparr>pb_ringtonePlaying := False\<rparr>)"

subsection \<open>Accounts\<close>

fun transportScheme :: "transport \<Rightarrow> string" where
  "transportScheme Tcp = '';transport=tcp''"
| "transportScheme Tls = '';transport=tls''"
| "transportScheme Udp = '';transport=udp''"

definition uri_scheme :: "account_settings \<Rightarrow> string" where
  "uri_scheme s = (if as_transport s = Tls then ''sips:'' else ''sip:'')"

definition proxy_uri :: "account_settings \<Rightarrow> string" where
  "proxy_uri s =
     (let p = as_proxy s in
      if starts_with ''sip:'' p \<or> starts_with ''sips:'' p then p else uri_scheme s @ p @ transportScheme (as_transport s))"

definition account_config :: "account_settings \<Rightarrow> int option \<Rightarrow> acc_config" where
  "account_config s tp =
     (let scheme = uri_scheme s in \<lparr>
       acf_idUri = (if as_hideCallerId s then scheme @ ''anonymous@anonymous.invalid''
                    else scheme @ as_username s @ ''@'' @ as_domain s),
       acf_registrarUri = scheme @ as_domain s @ (if as_transport s = Tls then [] else transportScheme (as_transport s)),
       acf_timeoutSec = (if as_registerIntervalSec s > 0 then as_registerIntervalSec s else 300),
       acf_cred = (if as_authRealm s = [] then ''*'' else as_authRealm s,
                   if as_authUser s = [] then as_username s else as_authUser s, as_password s),
       acf_proxies = (if as_proxy s = [] then [] else [proxy_uri s]),
       acf_contactForced = (if as_publicAddress s = [] then [] else scheme @ as_username s @ ''@'' @ as_publicAddress s),
       acf_stun = as_useStun s, acf_ice = as_iceEnabled s, acf_registerOnAdd = True,
       acf_udpKaIntervalSec = (if as_keepaliveIntervalSec s > 0 then Some (as_keepaliveIntervalSec s) else None),
       acf_timerInactive = (\<not> as_sessionTimersEnabled s), acf_publishEnabled = as_publishPresenceEnabled s,
       acf_mwiEnabled = True, acf_srtp = as_srtpMode s, acf_srtpSecureSignaling = 0, acf_transportId = tp\<rparr>)"

text \<open>The transport of a TLS account: \<open>None\<close> when it cannot be created.\<close>

definition account_transport :: "'l pjsua \<Rightarrow> account_settings \<Rightarrow> 'l pjsip_backend \<Rightarrow> int option option \<times> 'l pjsip_backend" where
  "account_transport L s b =
     (if as_transport s \<noteq> Tls then (Some None, b)
      else case lib_call (lib_transportCreate L TpTls (tls_transport (pb_engine b) (\<not> as_allowUntrustedCert s))) b of
        (None, b1) \<Rightarrow> (None, b1) | (Some i, b1) \<Rightarrow> (Some (Some i), b1))"

definition pb_addAccount :: "'l pjsua \<Rightarrow> 'l pjsip_backend \<Rightarrow> account_settings \<Rightarrow> backend_account_id \<times> 'l pjsip_backend" where
  "pb_addAccount L b s =
     (if \<not> pb_isRunning b then (kInvalidAccountId, b)
      else case account_transport L s b of
        (None, b1) \<Rightarrow> (kInvalidAccountId, b1)
      | (Some tp, b1) \<Rightarrow>
          (let newId = pb_nextAccountId b1; b2 = b1\<lparr>pb_nextAccountId := newId + 1\<rparr> in
           case lib_call (acc_create L (account_config s tp)) b2 of
             (None, b3) \<Rightarrow> (kInvalidAccountId, b3)
           | (Some h, b3) \<Rightarrow> (newId, b3\<lparr>pb_accounts := aput newId h (pb_accounts b3)\<rparr>)))"

definition pb_removeAccount :: "'l pjsua \<Rightarrow> 'l pjsip_backend \<Rightarrow> backend_account_id \<Rightarrow> bool \<times> 'l pjsip_backend" where
  "pb_removeAccount L b i =
     (case map_of (pb_accounts b) i of
        None \<Rightarrow> (False, b)
      | Some h \<Rightarrow>
          (let b1 = lib_do (acc_setRegistration L h False) b;
               doomed = filter (\<lambda>w. wt_accountId (snd w) = i) (pb_watches b1);
               b2 = lib_do (fold (drop_watch L) (map snd doomed))
                      (b1\<lparr>pb_watches := filter (\<lambda>w. wt_accountId (snd w) \<noteq> i) (pb_watches b1)\<rparr>)
           in (True, lib_do (acc_destroy L h) (b2\<lparr>pb_accounts := adel i (pb_accounts b2)\<rparr>))))"

definition pb_sendMessage :: "'l pjsua \<Rightarrow> 'l pjsip_backend \<Rightarrow> backend_account_id \<Rightarrow> string \<Rightarrow> string \<Rightarrow> bool \<times> 'l pjsip_backend" where
  "pb_sendMessage L b i toUri body =
     (case map_of (pb_accounts b) i of None \<Rightarrow> (False, b) | Some h \<Rightarrow> lib_call (im_send L h toUri body) b)"

subsection \<open>Watches\<close>

text \<open>A buddy that cannot subscribe is destroyed again; the watch stays, without one.\<close>

definition pb_watch :: "'l pjsua \<Rightarrow> 'l pjsip_backend \<Rightarrow> backend_account_id \<Rightarrow> string \<Rightarrow> watch_id \<times> 'l pjsip_backend" where
  "pb_watch L b i uri =
     (case map_of (pb_accounts b) i of
        None \<Rightarrow> (kInvalidWatchId, b)
      | Some h \<Rightarrow>
          if \<not> pb_isRunning b then (kInvalidWatchId, b)
          else
            (let w = pb_nextWatchId b; b1 = b\<lparr>pb_nextWatchId := w + 1\<rparr>;
                 (buddy, b2) =
                   (case lib_call (buddy_create L h uri) b1 of
                      (None, b') \<Rightarrow> (None, b')
                    | (Some bd, b') \<Rightarrow> (case lib_call (buddy_subscribe L bd True) b' of
                        (True, b'') \<Rightarrow> (Some bd, b'') | (False, b'') \<Rightarrow> (None, lib_do (buddy_destroy L bd) b'')))
             in (w, b2\<lparr>pb_watches := aput w \<lparr>wt_buddy = buddy, wt_accountId = i\<rparr> (pb_watches b2)\<rparr>)))"

definition pb_unwatch :: "'l pjsua \<Rightarrow> 'l pjsip_backend \<Rightarrow> watch_id \<Rightarrow> bool \<times> 'l pjsip_backend" where
  "pb_unwatch L b w =
     (case map_of (pb_watches b) w of
        None \<Rightarrow> (False, b)
      | Some x \<Rightarrow> (True, lib_do (drop_watch L x) (b\<lparr>pb_watches := adel w (pb_watches b)\<rparr>)))"

subsection \<open>Calls\<close>

definition pb_liveCall :: "'l pjsip_backend \<Rightarrow> call_id \<Rightarrow> pjsip_call option" where
  "pb_liveCall b i = map_of (pb_calls b) i"

definition pb_makeCall :: "'l pjsua \<Rightarrow> 'l pjsip_backend \<Rightarrow> backend_account_id \<Rightarrow> string \<Rightarrow> call_id \<times> 'l pjsip_backend" where
  "pb_makeCall L b a uri =
     (case map_of (pb_accounts b) a of
        None \<Rightarrow> (kInvalidCallId, b)
      | Some acc \<Rightarrow>
          (let i = pb_nextCallId b; b1 = b\<lparr>pb_nextCallId := i + 1\<rparr> in
           case lib_call (call_make L acc uri) b1 of
             (None, b2) \<Rightarrow> (kInvalidCallId, b2)
           | (Some h, b2) \<Rightarrow> (i, b2\<lparr>pb_calls := aemplace i \<lparr>cl_handle = h, cl_muted = False\<rparr> (pb_calls b2)\<rparr>)))"

text \<open>A command on one live call that is one call of the library.\<close>

definition on_call :: "(int \<Rightarrow> 'l \<Rightarrow> bool \<times> 'l) \<Rightarrow> 'l pjsip_backend \<Rightarrow> call_id \<Rightarrow> bool \<times> 'l pjsip_backend" where
  "on_call f b i = (case pb_liveCall b i of None \<Rightarrow> (False, b) | Some c \<Rightarrow> lib_call (f (cl_handle c)) b)"

definition pb_answer :: "'l pjsua \<Rightarrow> 'l pjsip_backend \<Rightarrow> call_id \<Rightarrow> bool \<times> 'l pjsip_backend" where
  "pb_answer L = on_call (\<lambda>h. call_answer L h 200)"

definition pb_decline :: "'l pjsua \<Rightarrow> 'l pjsip_backend \<Rightarrow> call_id \<Rightarrow> int \<Rightarrow> bool \<times> 'l pjsip_backend" where
  "pb_decline L b i sipCode =
     on_call (\<lambda>h. call_hangup L h \<lparr>hp_statusCode = sipCode, hp_reason = [], hp_headers = []\<rparr>) b i"

definition name_addr :: "string \<Rightarrow> string" where
  "name_addr uri = (if uri \<noteq> [] \<and> hd uri = CHR ''<'' then uri else ''<'' @ uri @ ''>'')"

definition pb_redirect :: "'l pjsua \<Rightarrow> 'l pjsip_backend \<Rightarrow> call_id \<Rightarrow> string \<Rightarrow> bool \<times> 'l pjsip_backend" where
  "pb_redirect L b i contactUri =
     (if contactUri = [] then (False, b)
      else on_call (\<lambda>h. call_hangup L h
             \<lparr>hp_statusCode = 302, hp_reason = ''Forwarded'', hp_headers = [(''Contact'', name_addr contactUri)]\<rparr>) b i)"

definition pb_hangup :: "'l pjsua \<Rightarrow> 'l pjsip_backend \<Rightarrow> call_id \<Rightarrow> 'l pjsip_backend" where
  "pb_hangup L b i = snd (on_call (\<lambda>h. call_hangup L h \<lparr>hp_statusCode = 603, hp_reason = [], hp_headers = []\<rparr>) b i)"

definition pb_hold :: "'l pjsua \<Rightarrow> 'l pjsip_backend \<Rightarrow> call_id \<Rightarrow> bool \<times> 'l pjsip_backend" where
  "pb_hold L = on_call (call_setHold L)"

definition pb_unhold :: "'l pjsua \<Rightarrow> 'l pjsip_backend \<Rightarrow> call_id \<Rightarrow> bool \<times> 'l pjsip_backend" where
  "pb_unhold L = on_call (call_reinvite L)"

definition active_audio :: "media_info \<Rightarrow> bool" where
  "active_audio m \<longleftrightarrow> mi_audio m \<and> mi_status m = MediaActive"

text \<open>\<open>getMedia\<close> of the first active audio stream, which may be a null pointer and does not throw.\<close>

definition first_audio :: "'l pjsua \<Rightarrow> int \<Rightarrow> pj_call_info \<Rightarrow> 'l \<Rightarrow> int option" where
  "first_audio L h info l = (case find_row active_audio (ci_media info) of None \<Rightarrow> None | Some k \<Rightarrow> call_media L h k l)"

definition firstActiveAudio :: "'l pjsua \<Rightarrow> int \<Rightarrow> 'l \<Rightarrow> int option" where
  "firstActiveAudio L h l = (case call_info L h l of None \<Rightarrow> None | Some info \<Rightarrow> first_audio L h info l)"

definition put_muted :: "call_id \<Rightarrow> bool \<Rightarrow> 'l pjsip_backend \<Rightarrow> 'l pjsip_backend" where
  "put_muted i m b =
     (case pb_liveCall b i of None \<Rightarrow> b | Some c \<Rightarrow> b\<lparr>pb_calls := aput i (c\<lparr>cl_muted := m\<rparr>) (pb_calls b)\<rparr>)"

text \<open>The wish is recorded before the microphone is connected or cut, and taken back when that fails.\<close>

definition pb_setMuted :: "'l pjsua \<Rightarrow> 'l pjsip_backend \<Rightarrow> call_id \<Rightarrow> bool \<Rightarrow> bool \<times> 'l pjsip_backend" where
  "pb_setMuted L b i m =
     (case pb_liveCall b i of
        None \<Rightarrow> (False, b)
      | Some c \<Rightarrow>
          (case call_info L (cl_handle c) (pb_lib b) of
             None \<Rightarrow> (False, b)
           | Some info \<Rightarrow>
               (case first_audio L (cl_handle c) info (pb_lib b) of
                  None \<Rightarrow> (True, put_muted i m b)
                | Some aud \<Rightarrow>
                    (case lib_call (\<lambda>l. (if m then port_stopTransmit L else port_startTransmit L) (lib_captureMedia L l) aud l)
                            (put_muted i m b) of
                       (True, b1) \<Rightarrow> (True, b1)
                     | (False, b1) \<Rightarrow> (False, put_muted i (cl_muted c) b1)))))"

fun send_info_digits :: "'l pjsua \<Rightarrow> int \<Rightarrow> string \<Rightarrow> 'l \<Rightarrow> bool \<times> 'l" where
  "send_info_digits L h [] l = (True, l)"
| "send_info_digits L h (c # cs) l =
     (case call_sendDtmfInfo L h c l of (True, l1) \<Rightarrow> send_info_digits L h cs l1 | (False, l1) \<Rightarrow> (False, l1))"

definition pb_sendDtmf :: "'l pjsua \<Rightarrow> 'l pjsip_backend \<Rightarrow> call_id \<Rightarrow> string \<Rightarrow> dtmf_method \<Rightarrow> bool \<times> 'l pjsip_backend" where
  "pb_sendDtmf L b i digits method =
     on_call (\<lambda>h. if method = DtmfInfo then send_info_digits L h digits else call_dialDtmf L h digits) b i"

definition pb_blindTransfer :: "'l pjsua \<Rightarrow> 'l pjsip_backend \<Rightarrow> call_id \<Rightarrow> string \<Rightarrow> bool \<times> 'l pjsip_backend" where
  "pb_blindTransfer L b i targetUri = on_call (\<lambda>h. call_xfer L h targetUri) b i"

definition pb_attendedTransfer :: "'l pjsua \<Rightarrow> 'l pjsip_backend \<Rightarrow> call_id \<Rightarrow> call_id \<Rightarrow> bool \<times> 'l pjsip_backend" where
  "pb_attendedTransfer L b i otherId =
     (if i = otherId then (False, b)
      else case (pb_liveCall b i, pb_liveCall b otherId) of
        (Some active, Some dest) \<Rightarrow> lib_call (call_xferReplaces L (cl_handle active) (cl_handle dest)) b
      | _ \<Rightarrow> (False, b))"

definition pb_bridge :: "'l pjsua \<Rightarrow> 'l pjsip_backend \<Rightarrow> call_id \<Rightarrow> call_id \<Rightarrow> bool \<times> 'l pjsip_backend" where
  "pb_bridge L b i otherId =
     (case (pb_liveCall b i, pb_liveCall b otherId) of
        (Some x, Some y) \<Rightarrow>
          (case (firstActiveAudio L (cl_handle x) (pb_lib b), firstActiveAudio L (cl_handle y) (pb_lib b)) of
             (Some p, Some q) \<Rightarrow> lib_call (run_steps [port_startTransmit L p q, port_startTransmit L q p]) b
           | _ \<Rightarrow> (False, b))
      | _ \<Rightarrow> (False, b))"

subsection \<open>Recording and playing\<close>

definition pb_startRecording :: "'l pjsua \<Rightarrow> 'l pjsip_backend \<Rightarrow> call_id \<Rightarrow> string \<Rightarrow> bool \<times> 'l pjsip_backend" where
  "pb_startRecording L b i path =
     (case pb_liveCall b i of
        None \<Rightarrow> (False, b)
      | Some c \<Rightarrow>
          if path = [] then (False, b)
          else if ahas (pb_recorders b) i then (True, b)
          else case firstActiveAudio L (cl_handle c) (pb_lib b) of
            None \<Rightarrow> (False, b)
          | Some aud \<Rightarrow>
              (case lib_call (recorder_create L path) b of
                 (None, b1) \<Rightarrow> (False, b1)
               | (Some h, b1) \<Rightarrow>
                   (case lib_call (\<lambda>l. run_steps [port_startTransmit L (lib_captureMedia L l) h, port_startTransmit L aud h] l) b1 of
                      (True, b2) \<Rightarrow> (True, b2\<lparr>pb_recorders := aput i h (pb_recorders b2)\<rparr>)
                    | (False, b2) \<Rightarrow> (False, lib_do (media_destroy L h) b2))))"

definition pb_stopRecording :: "'l pjsua \<Rightarrow> 'l pjsip_backend \<Rightarrow> call_id \<Rightarrow> bool \<times> 'l pjsip_backend" where
  "pb_stopRecording L b i = (ahas (pb_recorders b) i, erase_recorder L i b)"

definition pb_stopFile :: "'l pjsua \<Rightarrow> 'l pjsip_backend \<Rightarrow> call_id \<Rightarrow> bool \<times> 'l pjsip_backend" where
  "pb_stopFile L b i = (ahas (pb_filePlayers b) i, erase_player L i b)"

definition pb_playFile :: "'l pjsua \<Rightarrow> 'l pjsip_backend \<Rightarrow> call_id \<Rightarrow> string \<Rightarrow> bool \<Rightarrow> bool \<times> 'l pjsip_backend" where
  "pb_playFile L b i path loop =
     (case pb_liveCall b i of
        None \<Rightarrow> (False, b)
      | Some c \<Rightarrow>
          if path = [] then (False, b)
          else case firstActiveAudio L (cl_handle c) (pb_lib b) of
            None \<Rightarrow> (False, b)
          | Some aud \<Rightarrow>
              (case lib_call (player_create L path loop) (snd (pb_stopFile L b i)) of
                 (None, b1) \<Rightarrow> (False, b1)
               | (Some h, b1) \<Rightarrow>
                   (case lib_call (port_startTransmit L h aud) b1 of
                      (True, b2) \<Rightarrow> (True, b2\<lparr>pb_filePlayers := aput i h (pb_filePlayers b2)\<rparr>)
                    | (False, b2) \<Rightarrow> (False, lib_do (media_destroy L h) b2))))"

subsection \<open>Queries\<close>

definition loss_pct :: "rtcp_stat \<Rightarrow> rat" where
  "loss_pct s =
     (let combinedLost = rs_rxLoss s + rs_txLoss s;
          combinedTotal = (rs_rxPkt s + rs_rxLoss s) + (rs_txPkt s + rs_txLoss s)
      in if combinedTotal > 0 then 100 * of_int combinedLost / of_int combinedTotal else -1)"

definition r_factor :: "rat \<Rightarrow> int \<Rightarrow> int \<Rightarrow> rat" where
  "r_factor lossPct jitterMs rttMs =
     (let r = 932/10 - (if lossPct > 0 then lossPct * (25/10) else 0)
              - (if jitterMs > 30 then of_int (jitterMs - 30) * (4/10) else 0)
              - (if rttMs > 150 then of_int (rttMs - 150) * (24/1000) else 0)
      in if r < 0 then 0 else if r > 100 then 100 else r)"

definition mos_of :: "rat \<Rightarrow> rat" where
  "mos_of r = 1 + 35/1000 * r + 7/1000000 * r * (r - 60) * (100 - r)"

definition stats_of :: "rtcp_stat \<Rightarrow> stream_stats" where
  "stats_of s =
     (let loss = loss_pct s; jitter = rs_jitterUsec s div 1000; rtt = rs_rttUsec s div 1000
      in \<lparr>ss_mos = mos_of (r_factor loss jitter rtt), ss_lossPct = loss, ss_rttMs = rtt, ss_jitterMs = jitter\<rparr>)"

definition pb_streamStats :: "'l pjsua \<Rightarrow> 'l pjsip_backend \<Rightarrow> call_id \<Rightarrow> stream_stats" where
  "pb_streamStats L b i =
     (case pb_liveCall b i of
        None \<Rightarrow> no_stream_stats
      | Some c \<Rightarrow>
          (case call_info L (cl_handle c) (pb_lib b) of
             None \<Rightarrow> no_stream_stats
           | Some info \<Rightarrow>
               (case find_row active_audio (ci_media info) of
                  None \<Rightarrow> no_stream_stats
                | Some k \<Rightarrow>
                    (case call_streamStat L (cl_handle c) k (pb_lib b) of None \<Rightarrow> no_stream_stats | Some s \<Rightarrow> stats_of s))))"

definition pb_isMediaActive :: "'l pjsua \<Rightarrow> 'l pjsip_backend \<Rightarrow> call_id \<Rightarrow> bool" where
  "pb_isMediaActive L b i =
     (case pb_liveCall b i of
        None \<Rightarrow> False
      | Some c \<Rightarrow> (case call_info L (cl_handle c) (pb_lib b) of None \<Rightarrow> False | Some info \<Rightarrow> list_ex active_audio (ci_media info)))"

text \<open>Whether the microphone is connected to one of the active streams; an exception on the way means no.\<close>

fun capture_reaches :: "'l pjsua \<Rightarrow> int \<Rightarrow> 'l \<Rightarrow> (nat \<times> media_info) list \<Rightarrow> bool" where
  "capture_reaches L h l [] = False"
| "capture_reaches L h l ((k, m) # ms) =
     (if \<not> active_audio m then capture_reaches L h l ms
      else case call_media L h k l of
        None \<Rightarrow> capture_reaches L h l ms
      | Some aud \<Rightarrow>
          (case port_listeners L (lib_captureMedia L l) l of
             None \<Rightarrow> False
           | Some ls \<Rightarrow> aud \<in> set ls \<or> capture_reaches L h l ms))"

definition pb_isCaptureTransmitting :: "'l pjsua \<Rightarrow> 'l pjsip_backend \<Rightarrow> call_id \<Rightarrow> bool" where
  "pb_isCaptureTransmitting L b i =
     (case pb_liveCall b i of
        None \<Rightarrow> False
      | Some c \<Rightarrow>
          (case call_info L (cl_handle c) (pb_lib b) of
             None \<Rightarrow> False
           | Some info \<Rightarrow> capture_reaches L (cl_handle c) (pb_lib b) (enumerate 0 (ci_media info))))"

text \<open>Releasing parks the call: it is destroyed when its grace timer fires.\<close>

definition pb_releaseCall :: "'l pjsua \<Rightarrow> 'l pjsip_backend \<Rightarrow> call_id \<Rightarrow> 'l pjsip_backend" where
  "pb_releaseCall L b i =
     (let b1 = erase_player L i (erase_recorder L i b) in
      case pb_liveCall b1 i of
        None \<Rightarrow> b1
      | Some c \<Rightarrow> b1\<lparr>pb_calls := adel i (pb_calls b1), pb_graceCalls := aput i c (pb_graceCalls b1),
                     pb_events := ed_postDelayed 2200 (PbGraceDestroy i) (pb_events b1)\<rparr>)"

definition PjsipB :: "'l pjsua \<Rightarrow> engine_env \<Rightarrow> 'l pjsip_backend isip_backend" where
  "PjsipB L E = \<lparr>
     bk_setListener = pb_setListener, bk_start = pb_start L E, bk_stop = pb_stop L, bk_isRunning = pb_isRunning,
     bk_setCaTrust = pb_setCaTrust,
     bk_setStunServers = (\<lambda>b servers. b\<lparr>pb_engine := applyStunServers L servers (pb_engine b)\<rparr>),
     bk_setCodecPriority = (\<lambda>b order. b\<lparr>pb_engine := applyCodecPriority L order (pb_engine b)\<rparr>),
     bk_audioDevices = (\<lambda>b. engine_audioDevices L (pb_engine b)),
     bk_captureDevice = (\<lambda>b. engine_captureDevice L (pb_engine b)),
     bk_playbackDevice = (\<lambda>b. engine_playbackDevice L (pb_engine b)),
     bk_setCaptureDevice = (\<lambda>b i. case engine_setCaptureDevice L i (pb_engine b) of (r, s) \<Rightarrow> (r, b\<lparr>pb_engine := s\<rparr>)),
     bk_setPlaybackDevice = (\<lambda>b i. case engine_setPlaybackDevice L i (pb_engine b) of (r, s) \<Rightarrow> (r, b\<lparr>pb_engine := s\<rparr>)),
     bk_refreshAudioDevices = (\<lambda>b. b\<lparr>pb_engine := engine_refreshAudioDevices L (pb_engine b)\<rparr>),
     bk_playRingtone = pb_playRingtone L, bk_stopRingtone = pb_stopRingtone L,
     bk_addAccount = pb_addAccount L, bk_removeAccount = pb_removeAccount L, bk_sendMessage = pb_sendMessage L,
     bk_watch = pb_watch L, bk_unwatch = pb_unwatch L, bk_makeCall = pb_makeCall L, bk_answer = pb_answer L,
     bk_decline = pb_decline L, bk_redirect = pb_redirect L, bk_hangup = pb_hangup L, bk_hold = pb_hold L,
     bk_unhold = pb_unhold L, bk_setMuted = pb_setMuted L, bk_sendDtmf = pb_sendDtmf L,
     bk_blindTransfer = pb_blindTransfer L, bk_attendedTransfer = pb_attendedTransfer L, bk_bridge = pb_bridge L,
     bk_startRecording = pb_startRecording L, bk_stopRecording = pb_stopRecording L, bk_playFile = pb_playFile L,
     bk_stopFile = pb_stopFile L, bk_streamStats = pb_streamStats L, bk_isMediaActive = pb_isMediaActive L,
     bk_isCaptureTransmitting = pb_isCaptureTransmitting L, bk_releaseCall = pb_releaseCall L\<rparr>"

subsection \<open>Callbacks of PJSIP\<close>

datatype buddy_status = BuddyUnknown | BuddyOnline | BuddyOffline

text \<open>\<open>bi_idle\<close>: the activity of the watched party is unknown, that is, it is not busy.\<close>

record buddy_info =
  bi_terminated :: bool
  bi_status :: buddy_status
  bi_idle :: bool

definition presence_of :: "buddy_info \<Rightarrow> presence_state" where
  "presence_of info =
     (if bi_terminated info then PsOffline
      else case bi_status info of
        BuddyOnline \<Rightarrow> if bi_idle info then PsIdle else PsBusy
      | BuddyOffline \<Rightarrow> PsOffline
      | BuddyUnknown \<Rightarrow> PsUnknown)"

text \<open>The state change a call reports, if any; a call that is already gone counts as disconnected.\<close>

fun reported_state :: "inv_state \<Rightarrow> call_state option" where
  "reported_state InvCalling = Some Calling"
| "reported_state InvIncoming = Some Calling"
| "reported_state InvEarly = Some EarlyMedia"
| "reported_state InvConfirmed = Some Confirmed"
| "reported_state InvDisconnected = Some Disconnected"
| "reported_state InvNull = None"
| "reported_state InvConnecting = None"

definition cb_onRegState :: "'l pjsua \<Rightarrow> account_id \<Rightarrow> int \<Rightarrow> int \<Rightarrow> string \<Rightarrow> 'l pjsip_backend \<Rightarrow> 'l pjsip_backend" where
  "cb_onRegState L i h sipCode reason b =
     (case acc_regIsActive L h (pb_lib b) of
        None \<Rightarrow> b | Some active \<Rightarrow> pb_post (PbEvent (OnRegState i active sipCode reason)) b)"

text \<open>The call is claimed at once; its remote party is read while PJSIP still knows it.\<close>

definition wrapIncomingCall :: "'l pjsua \<Rightarrow> account_id \<Rightarrow> int \<Rightarrow> int \<Rightarrow> 'l pjsip_backend \<Rightarrow> 'l pjsip_backend" where
  "wrapIncomingCall L accId acc h b =
     (let i = pb_nextCallId b;
          b1 = lib_do (call_attach L acc h) (b\<lparr>pb_nextCallId := i + 1\<rparr>);
          ri = (case call_info L h (pb_lib b1) of
                  None \<Rightarrow> \<lparr>ri_uri = [], ri_displayName = []\<rparr> | Some info \<Rightarrow> parseRemoteInfo (ci_remoteUri info))
      in pb_post (PbEvent (OnIncomingCall accId i (ri_uri ri) (ri_displayName ri)))
           (b1\<lparr>pb_calls := aemplace i \<lparr>cl_handle = h, cl_muted = False\<rparr> (pb_calls b1)\<rparr>))"

definition cb_onCallState :: "'l pjsua \<Rightarrow> call_id \<Rightarrow> pjsip_call \<Rightarrow> 'l pjsip_backend \<Rightarrow> 'l pjsip_backend" where
  "cb_onCallState L i c b =
     (let (st, lastCode) = (case call_info L (cl_handle c) (pb_lib b) of
                              None \<Rightarrow> (InvDisconnected, 0) | Some info \<Rightarrow> (ci_state info, ci_lastStatusCode info))
      in case reported_state st of
           None \<Rightarrow> b | Some s \<Rightarrow> pb_post (PbEvent (OnCallState i s lastCode)) b)"

text \<open>Every active audio stream is connected to the loudspeaker, and to the microphone unless the call is muted.\<close>

definition wire_audio :: "'l pjsua \<Rightarrow> bool \<Rightarrow> int \<Rightarrow> 'l \<Rightarrow> 'l" where
  "wire_audio L muted aud l =
     (case port_startTransmit L aud (lib_playbackMedia L l) l of
        (False, l1) \<Rightarrow> l1
      | (True, l1) \<Rightarrow> snd ((if muted then port_stopTransmit L else port_startTransmit L) (lib_captureMedia L l1) aud l1))"

fun wire_streams :: "'l pjsua \<Rightarrow> bool \<Rightarrow> int \<Rightarrow> (nat \<times> media_info) list \<Rightarrow> 'l \<Rightarrow> 'l" where
  "wire_streams L muted h [] l = l"
| "wire_streams L muted h ((k, m) # ms) l =
     wire_streams L muted h ms
       (if active_audio m then (case call_media L h k l of None \<Rightarrow> l | Some aud \<Rightarrow> wire_audio L muted aud l) else l)"

definition cb_onCallMediaState :: "'l pjsua \<Rightarrow> call_id \<Rightarrow> pjsip_call \<Rightarrow> 'l pjsip_backend \<Rightarrow> 'l pjsip_backend" where
  "cb_onCallMediaState L i c b =
     (case call_info L (cl_handle c) (pb_lib b) of
        None \<Rightarrow> b
      | Some info \<Rightarrow>
          pb_post (PbEvent (OnMediaState i (list_ex active_audio (ci_media info))
                      (list_ex (\<lambda>m. mi_audio m \<and> mi_status m = MediaLocalHold) (ci_media info))))
            (lib_do (wire_streams L (cl_muted c) (cl_handle c) (enumerate 0 (ci_media info))) b))"

definition cb_onCallTransferStatus ::
  "'l pjsua \<Rightarrow> call_id \<Rightarrow> pjsip_call \<Rightarrow> int \<Rightarrow> bool \<Rightarrow> string \<Rightarrow> 'l pjsip_backend \<Rightarrow> 'l pjsip_backend" where
  "cb_onCallTransferStatus L i c statusCode final reason b =
     pb_post (PbEvent (OnTransferStatus i statusCode final reason))
       (if final \<and> 200 \<le> statusCode \<and> statusCode < 300 then lib_do (call_endXferSub L (cl_handle c)) b else b)"

text \<open>
  A callback comes for an object that exists: an account, a buddy, a call that is live or parked.  \<open>ovf\<close> is
  what \<open>sscanf\<close> does on overflow.
\<close>

datatype pj_callback =
    CbRegState account_id int string
  | CbIncomingCall account_id int
  | CbInstantMessage account_id string string
  | CbMwiInfo account_id string
  | CbBuddyState watch_id "buddy_info option"
  | CbCallState call_id
  | CbCallMediaState call_id
  | CbCallTransferStatus call_id int bool string

definition call_object :: "'l pjsip_backend \<Rightarrow> call_id \<Rightarrow> pjsip_call option" where
  "call_object b i = (case pb_liveCall b i of Some c \<Rightarrow> Some c | None \<Rightarrow> map_of (pb_graceCalls b) i)"

definition has_buddy :: "'l pjsip_backend \<Rightarrow> watch_id \<Rightarrow> bool" where
  "has_buddy b w = (case map_of (pb_watches b) w of None \<Rightarrow> False | Some x \<Rightarrow> wt_buddy x \<noteq> None)"

fun pb_callback :: "(int \<Rightarrow> int) \<Rightarrow> 'l pjsua \<Rightarrow> pj_callback \<Rightarrow> 'l pjsip_backend \<Rightarrow> 'l pjsip_backend" where
  "pb_callback ovf L (CbRegState i sipCode reason) b =
     (case map_of (pb_accounts b) i of None \<Rightarrow> b | Some h \<Rightarrow> cb_onRegState L i h sipCode reason b)"
| "pb_callback ovf L (CbIncomingCall i pjCall) b =
     (case map_of (pb_accounts b) i of None \<Rightarrow> b | Some acc \<Rightarrow> wrapIncomingCall L i acc pjCall b)"
| "pb_callback ovf L (CbInstantMessage i from body) b =
     (if ahas (pb_accounts b) i then pb_post (PbEvent (OnInstantMessage i from body)) b else b)"
| "pb_callback ovf L (CbMwiInfo i wholeMsg) b =
     (if ahas (pb_accounts b) i
      then (let s = parseMwiSummary ovf wholeMsg in pb_post (PbEvent (OnMwi i (ms_newMessages s) (ms_oldMessages s) (ms_active s))) b)
      else b)"
| "pb_callback ovf L (CbBuddyState w info) b =
     (case info of None \<Rightarrow> b | Some bi \<Rightarrow> if has_buddy b w then pb_post (PbEvent (OnPresence w (presence_of bi))) b else b)"
| "pb_callback ovf L (CbCallState i) b = (case call_object b i of None \<Rightarrow> b | Some c \<Rightarrow> cb_onCallState L i c b)"
| "pb_callback ovf L (CbCallMediaState i) b = (case call_object b i of None \<Rightarrow> b | Some c \<Rightarrow> cb_onCallMediaState L i c b)"
| "pb_callback ovf L (CbCallTransferStatus i code1 final reason) b =
     (case call_object b i of None \<Rightarrow> b | Some c \<Rightarrow> cb_onCallTransferStatus L i c code1 final reason b)"

subsection \<open>The event loop\<close>

text \<open>What runs on the main thread: an event for the listener, after the adapter has dropped the media of an ended call.\<close>

fun pb_run_event :: "'l pjsua \<Rightarrow> pb_event \<Rightarrow> 'l pjsip_backend \<Rightarrow> listener_event option \<times> 'l pjsip_backend" where
  "pb_run_event L (PbGraceDestroy i) b =
     (None, case map_of (pb_graceCalls b) i of
              None \<Rightarrow> b | Some c \<Rightarrow> lib_do (call_destroy L (cl_handle c)) (b\<lparr>pb_graceCalls := adel i (pb_graceCalls b)\<rparr>))"
| "pb_run_event L (PbEvent ev) b =
     (if pb_listener b then Some ev else None,
      case ev of OnCallState i Disconnected n \<Rightarrow> erase_player L i (erase_recorder L i b) | _ \<Rightarrow> b)"

definition pb_deliver :: "'l pjsua \<Rightarrow> 'l pjsip_backend \<Rightarrow> listener_event option \<times> 'l pjsip_backend" where
  "pb_deliver L b =
     (case ed_run_next (pb_events b) of
        (None, ed) \<Rightarrow> (None, b\<lparr>pb_events := ed\<rparr>)
      | (Some e, ed) \<Rightarrow> pb_run_event L e (b\<lparr>pb_events := ed\<rparr>))"

definition pb_timer :: "'l pjsua \<Rightarrow> nat \<Rightarrow> 'l pjsip_backend \<Rightarrow> 'l pjsip_backend" where
  "pb_timer L n b =
     (case ed_run_timer n (pb_events b) of
        (None, ed) \<Rightarrow> b\<lparr>pb_events := ed\<rparr>
      | (Some e, ed) \<Rightarrow> snd (pb_run_event L e (b\<lparr>pb_events := ed\<rparr>)))"

end
