(* ===== verification/PjsipProps.thy ===== *)
theory PjsipProps imports Pjsip CoreSystem begin

text \<open>
  The PJSIP adapter keeps the contracts the core is proved against, for every PJSIP: the locales of the
  backend are interpreted on it.  Then the codec priorities, what outlives what, and TLS.
\<close>

subsection \<open>The views\<close>

definition pj_ok :: "'l pjsip_backend \<Rightarrow> bool" where
  "pj_ok b \<longleftrightarrow> keys_sorted (pb_calls b) \<and> keys_sorted (pb_accounts b) \<and> keys_sorted (pb_watches b) \<and>
     50001 \<le> pb_nextCallId b \<and> 10001 \<le> pb_nextAccountId b \<and> 80001 \<le> pb_nextWatchId b \<and>
     (\<forall>i. ahas (pb_calls b) i \<longrightarrow> 50001 \<le> i \<and> i < pb_nextCallId b) \<and>
     (\<forall>i. ahas (pb_accounts b) i \<longrightarrow> 10001 \<le> i \<and> i < pb_nextAccountId b) \<and>
     (\<forall>i. ahas (pb_watches b) i \<longrightarrow> 80001 \<le> i \<and> i < pb_nextWatchId b)"

definition pj_calls :: "'l pjsip_backend \<Rightarrow> call_id set" where
  "pj_calls b = {i. ahas (pb_calls b) i}"

definition pj_minted :: "'l pjsip_backend \<Rightarrow> call_id set" where
  "pj_minted b = {50001..<pb_nextCallId b}"

definition pj_accts :: "'l pjsip_backend \<Rightarrow> backend_account_id set" where
  "pj_accts b = {i. ahas (pb_accounts b) i}"

definition pj_watches :: "'l pjsip_backend \<Rightarrow> watch_id set" where
  "pj_watches b = {i. ahas (pb_watches b) i}"

definition pj_watch_minted :: "'l pjsip_backend \<Rightarrow> watch_id set" where
  "pj_watch_minted b = {80001..<pb_nextWatchId b}"

text \<open>The incoming calls still queued, and that the queue will reach its listener.\<close>

definition pb_announces :: "pb_event \<Rightarrow> call_id list" where
  "pb_announces e = (case e of PbEvent ev \<Rightarrow> announced_list ev | PbGraceDestroy i \<Rightarrow> [])"

definition pj_unann :: "'l pjsip_backend \<Rightarrow> call_id list" where
  "pj_unann b = concat (map (pb_announces \<circ> snd) (ed_queue (pb_events b)))"

definition pj_live :: "'l pjsip_backend \<Rightarrow> bool" where
  "pj_live b \<longleftrightarrow> pb_listener b \<and> list_all (\<lambda>q. fst q = ed_epoch (pb_events b)) (ed_queue (pb_events b))"

lemmas pj_queue_views = pj_unann_def pj_live_def

lemmas pj_views = pj_calls_def pj_minted_def pj_accts_def pj_watches_def pj_watch_minted_def

lemma put_lib_sel [simp]:
  "pb_listener (put_lib l b) = pb_listener b" "pb_nextAccountId (put_lib l b) = pb_nextAccountId b"
  "pb_nextCallId (put_lib l b) = pb_nextCallId b" "pb_accounts (put_lib l b) = pb_accounts b"
  "pb_nextWatchId (put_lib l b) = pb_nextWatchId b" "pb_watches (put_lib l b) = pb_watches b"
  "pb_calls (put_lib l b) = pb_calls b" "pb_graceCalls (put_lib l b) = pb_graceCalls b"
  "pb_recorders (put_lib l b) = pb_recorders b" "pb_filePlayers (put_lib l b) = pb_filePlayers b"
  "pb_ringtonePlayer (put_lib l b) = pb_ringtonePlayer b" "pb_ringtonePath (put_lib l b) = pb_ringtonePath b"
  "pb_ringtonePlaying (put_lib l b) = pb_ringtonePlaying b" "pb_events (put_lib l b) = pb_events b"
  "pb_lib (put_lib l b) = l" "pb_isRunning (put_lib l b) = pb_isRunning b"
  by (simp_all add: put_lib_def pb_lib_def pb_isRunning_def)

lemma lib_do_sel [simp]:
  "pb_listener (lib_do f b) = pb_listener b" "pb_nextAccountId (lib_do f b) = pb_nextAccountId b"
  "pb_nextCallId (lib_do f b) = pb_nextCallId b" "pb_accounts (lib_do f b) = pb_accounts b"
  "pb_nextWatchId (lib_do f b) = pb_nextWatchId b" "pb_watches (lib_do f b) = pb_watches b"
  "pb_calls (lib_do f b) = pb_calls b" "pb_graceCalls (lib_do f b) = pb_graceCalls b"
  "pb_recorders (lib_do f b) = pb_recorders b" "pb_filePlayers (lib_do f b) = pb_filePlayers b"
  "pb_events (lib_do f b) = pb_events b" "pb_lib (lib_do f b) = f (pb_lib b)"
  by (simp_all add: lib_do_def)

lemma lib_callD:
  "lib_call f b = (r, b') \<Longrightarrow> f (pb_lib b) = (r, pb_lib b') \<and> b' = put_lib (pb_lib b') b"
  by (auto simp: lib_call_def split: prod.splits)

text \<open>What the operations on one call leave alone: the keys of the calls, the other tables and the counters.\<close>

definition pj_frame :: "'l pjsip_backend \<Rightarrow> 'l pjsip_backend \<Rightarrow> bool" where
  "pj_frame b b' \<longleftrightarrow> (keys_sorted (pb_calls b) \<longrightarrow> keys_sorted (pb_calls b')) \<and> (\<forall>i. ahas (pb_calls b') i \<longleftrightarrow> ahas (pb_calls b) i) \<and>
     pb_accounts b' = pb_accounts b \<and>
     pb_watches b' = pb_watches b \<and> pb_nextCallId b' = pb_nextCallId b \<and> pb_nextAccountId b' = pb_nextAccountId b \<and>
     pb_nextWatchId b' = pb_nextWatchId b \<and> pb_listener b' = pb_listener b \<and>
     ed_queue (pb_events b') = ed_queue (pb_events b) \<and> ed_epoch (pb_events b') = ed_epoch (pb_events b)"

lemma pj_frame_keeps:
  assumes "pj_ok b" "pj_frame b b'"
  shows "pj_ok b'" "pj_calls b' = pj_calls b" "pj_minted b' = pj_minted b" "pj_accts b' = pj_accts b"
    "pj_watches b' = pj_watches b" "pj_watch_minted b' = pj_watch_minted b"
    "pj_unann b' = pj_unann b" "pj_live b' = pj_live b"
  using assms by (auto simp: pj_ok_def pj_frame_def pj_views pj_queue_views)

lemma pj_frame_refl [simp]: "pj_frame b b" by (simp add: pj_frame_def)

lemma pj_frame_trans: "pj_frame a b \<Longrightarrow> pj_frame b c \<Longrightarrow> pj_frame a c"
  by (simp add: pj_frame_def)

lemma pj_frame_put [simp]: "pj_frame b (put_lib l c) = pj_frame b c" "pj_frame b (lib_do f c) = pj_frame b c"
  by (simp_all add: pj_frame_def)

lemma pj_frame_call [simp]: "pj_frame b (snd (lib_call f c)) = pj_frame b c"
  by (simp add: lib_call_def split_beta)

lemma pj_frame_media [simp]:
  "pj_frame b (c\<lparr>pb_recorders := x\<rparr>) = pj_frame b c" "pj_frame b (c\<lparr>pb_filePlayers := x\<rparr>) = pj_frame b c"
  "pj_frame b (c\<lparr>pb_events := ed_postDelayed n e (pb_events c)\<rparr>) = pj_frame b c"
  "pj_frame b (erase_recorder L i c) = pj_frame b c" "pj_frame b (erase_player L i c) = pj_frame b c"
  by (auto simp: pj_frame_def erase_recorder_def erase_player_def ed_postDelayed_def split: option.split)

lemma pj_frame_muted [simp]: "pj_frame b c \<Longrightarrow> pj_frame b (put_muted i m c)"
  by (auto simp: put_muted_def pb_liveCall_def pj_frame_def dest: ahas_Some split: option.split)

lemma on_call_frame: "pj_frame b (snd (on_call f b i))"
  by (simp add: on_call_def split: option.split)

lemma setMuted_frame: "pj_frame b (snd (pb_setMuted L b i m))"
  by (simp add: pb_setMuted_def split_beta split: option.split bool.split)

lemma bridge_frame: "pj_frame b (snd (pb_bridge L b i j))" "pj_frame b (snd (pb_attendedTransfer L b i j))"
  by (simp_all add: pb_bridge_def pb_attendedTransfer_def split: option.split)

lemma media_frames:
  "pj_frame b (snd (pb_startRecording L b i p))" "pj_frame b (snd (pb_stopRecording L b i))"
  "pj_frame b (snd (pb_playFile L b i p lp))" "pj_frame b (snd (pb_stopFile L b i))"
  by (simp_all add: pb_startRecording_def pb_stopRecording_def pb_playFile_def pb_stopFile_def split_beta split: option.split bool.split)

lemma sendMessage_frame: "pj_frame b (snd (pb_sendMessage L b a u t))"
  by (simp add: pb_sendMessage_def split: option.split)

lemmas call_frames = on_call_frame setMuted_frame bridge_frame media_frames sendMessage_frame

lemmas on_call_ops =
  pb_answer_def pb_decline_def pb_hangup_def pb_hold_def pb_unhold_def pb_sendDtmf_def pb_blindTransfer_def

lemma redirect_frame: "pj_frame b (snd (pb_redirect L b i u))"
  by (simp add: pb_redirect_def on_call_frame)

lemma frame_views:
  "pj_ok b \<Longrightarrow> pj_frame b b' \<Longrightarrow> keeps_view pj_ok (\<lambda>b. (pj_calls b, pj_minted b, pj_accts b)) b b'"
  "pj_ok b \<Longrightarrow> pj_frame b b' \<Longrightarrow> keeps_view pj_ok (\<lambda>b. (pj_calls b, pj_minted b, pj_accts b, pj_unann b, pj_live b)) b b'"
  "pj_ok b \<Longrightarrow> pj_frame b b' \<Longrightarrow> keeps_view pj_ok (\<lambda>b. (pj_calls b, pj_minted b)) b b'"
  "pj_ok b \<Longrightarrow> pj_frame b b' \<Longrightarrow> keeps_view pj_ok pj_accts b b'"
  by (simp_all add: keeps_view_def pj_frame_keeps[of b b'])

lemma makeCall_law:
  assumes "pj_ok b" "pb_makeCall L b a u = (r, b')"
  shows "r = kInvalidCallId \<and> pj_ok b' \<and> pj_calls b' = pj_calls b \<and> pj_minted b \<subseteq> pj_minted b' \<and> pj_accts b' = pj_accts b \<or>
    r \<noteq> kInvalidCallId \<and> r \<notin> pj_minted b \<and> pj_ok b' \<and> pj_calls b' = insert r (pj_calls b) \<and>
    pj_minted b' = insert r (pj_minted b) \<and> pj_accts b' = pj_accts b"
proof (cases "map_of (pb_accounts b) a")
  case None with assms show ?thesis by (simp add: pb_makeCall_def)
next
  case (Some acc)
  let ?i = "pb_nextCallId b" and ?b1 = "b\<lparr>pb_nextCallId := pb_nextCallId b + 1\<rparr>"
  obtain h b2 where h: "lib_call (call_make L acc u) ?b1 = (h, b2)" by fastforce
  have b2: "b2 = put_lib (pb_lib b2) ?b1" using lib_callD[OF h] by simp
  have i: "50001 \<le> ?i" "\<not> ahas (pb_calls b) ?i" using assms(1) by (auto simp: pj_ok_def)
  have ok1: "pj_ok b2" by (subst b2) (use assms(1) in \<open>auto simp: pj_ok_def\<close>)
  have sel: "pb_calls b2 = pb_calls b" "pb_nextCallId b2 = ?i + 1" "pb_accounts b2 = pb_accounts b"
    by (subst b2, simp)+
  have ins: "{50001..<?i + 1} = insert ?i {50001..<?i}" using i by auto
  show ?thesis
  proof (cases h)
    case None
    with assms(2) Some h ok1 sel show ?thesis by (auto simp: pb_makeCall_def Let_def pj_views)
  next
    case (Some hh)
    then have b': "r = ?i" "b' = b2\<lparr>pb_calls := aemplace ?i \<lparr>cl_handle = hh, cl_muted = False\<rparr> (pb_calls b)\<rparr>"
      using assms(2) \<open>map_of (pb_accounts b) a = Some acc\<close> h sel by (auto simp: pb_makeCall_def Let_def)
    have "pj_ok b'" using ok1 i sel by (auto simp: b' pj_ok_def aemplace_def)
    then show ?thesis using i sel ins by (auto simp: b' pj_views aemplace_def invalid_id_defs)
  qed
qed

lemma releaseCall_law:
  assumes "pj_ok b"
  shows "pj_ok (pb_releaseCall L b i) \<and> pj_calls (pb_releaseCall L b i) = pj_calls b - {i} \<and>
    pj_minted (pb_releaseCall L b i) = pj_minted b \<and> pj_accts (pb_releaseCall L b i) = pj_accts b"
proof -
  let ?b1 = "erase_player L i (erase_recorder L i b)"
  have f: "pj_frame b ?b1" by simp
  note k = pj_frame_keeps[OF assms f]
  have "pj_calls b - {i} = pj_calls b" if "map_of (pb_calls ?b1) i = None"
    using that k(2) by (simp add: pj_calls_def ahas_def set_eq_iff) (metis option.distinct(1))
  then show ?thesis using k
    by (auto simp: pb_releaseCall_def Let_def pb_liveCall_def pj_views split: option.split) (auto simp: pj_ok_def)
qed

lemma lib_call_snd: "snd (lib_call f b) = put_lib (snd (f (pb_lib b))) b"
  by (simp add: lib_call_def split_beta)

lemma put_lib_same [simp]: "put_lib (pb_lib b) b = b"
  by (simp add: put_lib_def pb_lib_def)

lemma account_transport_lib: "\<exists>l. snd (account_transport L s b) = put_lib l b"
proof (cases "as_transport s = Tls")
  case True
  then show ?thesis by (auto simp: account_transport_def lib_call_snd split_beta split: option.split)
next
  case False
  then show ?thesis by (auto simp: account_transport_def intro: exI[of _ "pb_lib b"])
qed

lemma addAccount_cases:
  assumes "pb_addAccount L b s = (r, b')"
  shows "r = kInvalidAccountId \<and> pb_accounts b' = pb_accounts b \<and> pb_nextAccountId b \<le> pb_nextAccountId b' \<and>
      pj_frame b (b'\<lparr>pb_nextAccountId := pb_nextAccountId b\<rparr>) \<or>
    r = pb_nextAccountId b \<and> pb_nextAccountId b' = r + 1 \<and> (\<exists>h. pb_accounts b' = aput r h (pb_accounts b)) \<and>
      pj_frame b (b'\<lparr>pb_accounts := pb_accounts b, pb_nextAccountId := pb_nextAccountId b\<rparr>)"
proof -
  obtain t l where t: "account_transport L s b = (t, put_lib l b)" by (metis account_transport_lib prod.collapse)
  show ?thesis
  proof (cases "pb_isRunning b \<and> t \<noteq> None")
    case True
    then obtain tp where tp: "t = Some tp" by blast
    obtain h l' where h: "acc_create L (account_config s tp) l = (h, l')" by fastforce
    show ?thesis using assms True h
      by (cases h) (auto simp: pb_addAccount_def t tp Let_def lib_call_def pj_frame_def put_lib_def pb_lib_def)
  next
    case False
    with assms have "r = kInvalidAccountId" "b' = b \<or> b' = put_lib l b"
      by (auto simp: pb_addAccount_def t split: if_splits)
    then show ?thesis by (auto simp: pj_frame_def)
  qed
qed

lemma addAccount_law:
  assumes "pj_ok b" "pb_addAccount L b s = (r, b')"
  shows "r = kInvalidAccountId \<and> keeps_view pj_ok pj_accts b b' \<or>
    r \<noteq> kInvalidAccountId \<and> r \<notin> pj_accts b \<and> pj_ok b' \<and> pj_accts b' = insert r (pj_accts b)"
    and "keeps_view pj_ok (\<lambda>b. (pj_calls b, pj_minted b)) b b'"
proof -
  have n: "10001 \<le> pb_nextAccountId b" "\<not> ahas (pb_accounts b) (pb_nextAccountId b)" using assms(1) by (auto simp: pj_ok_def)
  from addAccount_cases[OF assms(2)]
  show "r = kInvalidAccountId \<and> keeps_view pj_ok pj_accts b b' \<or>
    r \<noteq> kInvalidAccountId \<and> r \<notin> pj_accts b \<and> pj_ok b' \<and> pj_accts b' = insert r (pj_accts b)"
    using assms(1) n by (elim disjE) (auto simp: pj_frame_def pj_ok_def pj_views keeps_view_def invalid_id_defs)
  from addAccount_cases[OF assms(2)] show "keeps_view pj_ok (\<lambda>b. (pj_calls b, pj_minted b)) b b'"
    using assms(1) n by (elim disjE) (auto simp: pj_frame_def pj_ok_def pj_views keeps_view_def)
qed

lemma ahas_filter: "ahas (filter Q xs) i \<Longrightarrow> ahas xs i"
  by (auto simp: ahas_iff_keys)

lemma removeAccount_law:
  assumes "pj_ok b" "pb_removeAccount L b a = (r, b')"
  shows "pj_ok b'" "pj_accts b' = pj_accts b - {a}" "pj_calls b' = pj_calls b" "pj_minted b' = pj_minted b"
  using assms
  by (auto simp: pb_removeAccount_def Let_def pj_ok_def pj_views keys_sorted_filter ahas_def[of _ a] dest!: ahas_filter
      split: option.splits)

text \<open>No command touches the queue; a new listener or a stop starts a new epoch.\<close>

lemma queue_kept:
  "pb_listener b' = pb_listener b \<Longrightarrow> ed_queue (pb_events b') = ed_queue (pb_events b) \<Longrightarrow>
   ed_epoch (pb_events b') = ed_epoch (pb_events b) \<Longrightarrow> pj_unann b' = pj_unann b \<and> pj_live b' = pj_live b"
  by (simp add: pj_queue_views)

lemma queue_kept_frame: "pj_frame b b' \<Longrightarrow> pj_unann b' = pj_unann b \<and> pj_live b' = pj_live b"
  by (rule queue_kept) (simp_all add: pj_frame_def)

lemma queue_ops:
  "pj_unann (snd (pb_makeCall L b a u)) = pj_unann b \<and> pj_live (snd (pb_makeCall L b a u)) = pj_live b"
  "pj_unann (pb_releaseCall L b i) = pj_unann b \<and> pj_live (pb_releaseCall L b i) = pj_live b"
  "pj_unann (snd (pb_addAccount L b s)) = pj_unann b \<and> pj_live (snd (pb_addAccount L b s)) = pj_live b"
  "pj_unann (snd (pb_removeAccount L b a)) = pj_unann b \<and> pj_live (snd (pb_removeAccount L b a)) = pj_live b"
  "pj_unann (snd (pb_sendMessage L b a u t)) = pj_unann b \<and> pj_live (snd (pb_sendMessage L b a u t)) = pj_live b"
proof -
  show "pj_unann (snd (pb_makeCall L b a u)) = pj_unann b \<and> pj_live (snd (pb_makeCall L b a u)) = pj_live b"
    by (auto simp: pj_queue_views pb_makeCall_def Let_def lib_call_def split: option.split prod.split)
  have "pj_frame b (erase_player L i (erase_recorder L i b))" by simp
  then show "pj_unann (pb_releaseCall L b i) = pj_unann b \<and> pj_live (pb_releaseCall L b i) = pj_live b"
    by (simp add: pj_queue_views pb_releaseCall_def Let_def pj_frame_def ed_postDelayed_def split: option.split)
  obtain r b' where r: "pb_addAccount L b s = (r, b')" by fastforce
  show "pj_unann (snd (pb_addAccount L b s)) = pj_unann b \<and> pj_live (snd (pb_addAccount L b s)) = pj_live b"
    using addAccount_cases[OF r] by (elim disjE conjE; simp add: pj_queue_views r pj_frame_def)
  show "pj_unann (snd (pb_removeAccount L b a)) = pj_unann b \<and> pj_live (snd (pb_removeAccount L b a)) = pj_live b"
    by (simp add: pj_queue_views pb_removeAccount_def Let_def split: option.split)
  show "pj_unann (snd (pb_sendMessage L b a u t)) = pj_unann b \<and> pj_live (snd (pb_sendMessage L b a u t)) = pj_live b"
    by (rule queue_kept_frame) (rule sendMessage_frame)
qed

lemma watch_cases:
  assumes "pb_watch L b a u = (w, b')"
  shows "w = kInvalidWatchId \<and> b' = b \<or>
    w = pb_nextWatchId b \<and> pb_nextWatchId b' = w + 1 \<and> (\<exists>x. pb_watches b' = aput w x (pb_watches b)) \<and>
      pj_frame b (b'\<lparr>pb_watches := pb_watches b, pb_nextWatchId := pb_nextWatchId b\<rparr>)"
  using assms
  by (auto simp: pb_watch_def Let_def lib_call_def lib_do_def put_lib_def pj_frame_def split: if_splits option.splits prod.splits bool.splits)

interpretation pjsip_presence: presence_backend "PjsipB L E" pj_ok pj_watches pj_watch_minted for L E
proof unfold_locales
  fix b :: "'a pjsip_backend" assume ok: "pj_ok b"
  show "pj_watches b \<subseteq> pj_watch_minted b" using ok by (auto simp: pj_views pj_ok_def)
  show "kInvalidWatchId \<notin> pj_watch_minted b" by (simp add: pj_watch_minted_def invalid_id_defs)
next
  fix b :: "'a pjsip_backend" and a u w b' assume ok: "pj_ok b" and b': "bk_watch (PjsipB L E) b a u = (w, b')"
  have n: "80001 \<le> pb_nextWatchId b" "\<not> ahas (pb_watches b) (pb_nextWatchId b)" using ok by (auto simp: pj_ok_def)
  then have "{80001..<pb_nextWatchId b + 1} = insert (pb_nextWatchId b) {80001..<pb_nextWatchId b}" by auto
  with n watch_cases[of L b a u w b'] b' ok
  show "w = kInvalidWatchId \<and> keeps_view pj_ok (\<lambda>b. (pj_watches b, pj_watch_minted b)) b b' \<or>
    w \<noteq> kInvalidWatchId \<and> w \<notin> pj_watch_minted b \<and> pj_ok b' \<and>
    pj_watches b' = insert w (pj_watches b) \<and> pj_watch_minted b' = insert w (pj_watch_minted b)"
    by (simp add: PjsipB_def) (elim disjE; auto simp: pj_frame_def pj_ok_def pj_views keeps_view_def invalid_id_defs)
next
  fix b :: "'a pjsip_backend" and w r b' assume "pj_ok b" "bk_unwatch (PjsipB L E) b w = (r, b')"
  then show "pj_ok b' \<and> pj_watches b' = pj_watches b - {w} \<and> pj_watch_minted b' = pj_watch_minted b"
    by (auto simp: PjsipB_def pb_unwatch_def pj_ok_def pj_views ahas_def[of _ w] split: option.splits)
qed

end
