(* ===== verification/PjsipMedia.thy ===== *)
theory PjsipMedia imports PjsipProps begin

text \<open>
  What the adapter keeps beside its calls: recorders and file players, and the calls that were released and
  wait for their grace timer.  Together with the tables this is the invariant under which the adapter
  interprets \<open>core_env\<close>.
\<close>

subsection \<open>Media and parked calls\<close>

definition grace_timer :: "call_id \<Rightarrow> pb_event event_dispatch \<Rightarrow> bool" where
  "grace_timer i ed \<longleftrightarrow> (ed_epoch ed, PbGraceDestroy i) \<in> snd ` set (ed_timers ed)"

text \<open>Nothing records or plays for a call that is not live, and a parked call is not live and will be destroyed.\<close>

definition pj_media :: "'l pjsip_backend \<Rightarrow> bool" where
  "pj_media b \<longleftrightarrow>
     keys_sorted (pb_recorders b) \<and> keys_sorted (pb_filePlayers b) \<and> keys_sorted (pb_graceCalls b) \<and>
     (\<forall>i. ahas (pb_recorders b) i \<or> ahas (pb_filePlayers b) i \<longrightarrow> ahas (pb_calls b) i) \<and>
     (\<forall>i. ahas (pb_graceCalls b) i \<longrightarrow> \<not> ahas (pb_calls b) i \<and> i < pb_nextCallId b \<and> grace_timer i (pb_events b))"

definition pj_inv :: "'l pjsip_backend \<Rightarrow> bool" where
  "pj_inv b \<longleftrightarrow> pj_ok b \<and> pj_media b"

definition media_same :: "'l pjsip_backend \<Rightarrow> 'l pjsip_backend \<Rightarrow> bool" where
  "media_same b b' \<longleftrightarrow> pb_recorders b' = pb_recorders b \<and> pb_filePlayers b' = pb_filePlayers b \<and>
     pb_graceCalls b' = pb_graceCalls b \<and> pb_nextCallId b \<le> pb_nextCallId b' \<and>
     ed_timers (pb_events b') = ed_timers (pb_events b) \<and> ed_epoch (pb_events b') = ed_epoch (pb_events b) \<and>
     (\<forall>i. ahas (pb_calls b') i \<longleftrightarrow> ahas (pb_calls b) i)"

lemma media_same_keeps: "media_same b b' \<Longrightarrow> pj_media b \<Longrightarrow> pj_media b'"
  by (force simp: media_same_def pj_media_def grace_timer_def)

lemma media_same_refl [simp]: "media_same b b"
  by (simp add: media_same_def)

lemma media_same_put [simp]: "media_same b (put_lib l c) = media_same b c" "media_same b (lib_do f c) = media_same b c"
  by (simp_all add: media_same_def)

lemma media_same_call [simp]: "media_same b (snd (lib_call f c)) = media_same b c"
  by (simp add: lib_call_def split_beta)

lemma media_same_muted [simp]: "media_same b c \<Longrightarrow> media_same b (put_muted i m c)"
  by (auto simp: put_muted_def pb_liveCall_def media_same_def dest: ahas_Some split: option.split)

lemma media_same_ops:
  "media_same b (snd (on_call f b i))" "media_same b (snd (pb_redirect L b i u))" "media_same b (snd (pb_setMuted L b i m))"
  "media_same b (snd (pb_bridge L b i j))" "media_same b (snd (pb_attendedTransfer L b i j))"
  "media_same b (snd (pb_sendMessage L b a u t))"
proof -
  show *: "media_same b (snd (on_call f b i))" for f by (simp add: on_call_def split: option.split)
  show "media_same b (snd (pb_redirect L b i u))" by (simp add: pb_redirect_def *)
  show "media_same b (snd (pb_setMuted L b i m))"
    by (simp add: pb_setMuted_def split_beta split: option.split bool.split)
qed (simp_all add: pb_bridge_def pb_attendedTransfer_def pb_sendMessage_def split: option.split)

lemma media_same_accounts:
  "media_same b (snd (pb_addAccount L b s))" "media_same b (snd (pb_removeAccount L b a))"
proof -
  obtain t l where t: "account_transport L s b = (t, put_lib l b)" by (metis account_transport_lib prod.collapse)
  show "media_same b (snd (pb_addAccount L b s))"
    by (auto simp: pb_addAccount_def t Let_def lib_call_def media_same_def split: option.split prod.split)
  show "media_same b (snd (pb_removeAccount L b a))"
    by (auto simp: pb_removeAccount_def Let_def media_same_def split: option.split)
qed

subsection \<open>The operations that move them\<close>

lemma erase_media:
  assumes "pj_media b"
  shows "pj_media (erase_recorder L i b)" "pj_media (erase_player L i b)"
    "\<not> ahas (pb_recorders (erase_recorder L i b)) i" "\<not> ahas (pb_filePlayers (erase_player L i b)) i"
    "pb_recorders (erase_player L i b) = pb_recorders b"
  using assms by (auto simp: pj_media_def erase_recorder_def erase_player_def ahas_def[of _ i] split: option.split)

lemma make_media:
  assumes "pj_ok b" "pj_media b"
  shows "pj_media (snd (pb_makeCall L b a u))"
proof -
  have "\<not> ahas (pb_graceCalls b) (pb_nextCallId b)" using assms(2) by (auto simp: pj_media_def)
  then show ?thesis
    using assms(2)
    by (auto simp: pb_makeCall_def Let_def lib_call_def pj_media_def aemplace_def split: option.split prod.split)
qed

lemma release_media:
  assumes "pj_ok b" "pj_media b"
  shows "pj_media (pb_releaseCall L b i)"
proof -
  let ?b1 = "erase_player L i (erase_recorder L i b)"
  have m: "pj_media ?b1" "\<not> ahas (pb_recorders ?b1) i" "\<not> ahas (pb_filePlayers ?b1) i"
    using erase_media assms(2) by metis+
  have c: "pj_ok ?b1" using assms(1) pj_frame_keeps(1) by (metis pj_frame_media(4,5) pj_frame_refl)
  show ?thesis
  proof (cases "map_of (pb_calls ?b1) i")
    case (Some x)
    then have "i < pb_nextCallId ?b1" using c by (auto simp: pj_ok_def dest: ahas_Some)
    with m Some show ?thesis
      by (auto simp: pb_releaseCall_def Let_def pb_liveCall_def pj_media_def grace_timer_def ed_postDelayed_def)
  qed (use m in \<open>simp add: pb_releaseCall_def pb_liveCall_def\<close>)
qed

lemma record_media:
  assumes "pj_media b"
  shows "pj_media (snd (pb_startRecording L b i p))" "pj_media (snd (pb_stopRecording L b i))"
    "pj_media (snd (pb_playFile L b i p lp))" "pj_media (snd (pb_stopFile L b i))"
proof -
  have keep: "pj_media (put_lib l c) = pj_media c" "pj_media (lib_do f c) = pj_media c" for l f and c :: "'a pjsip_backend"
    by (simp_all add: pj_media_def)
  have calls: "pb_calls (erase_player L i b) = pb_calls b" by (simp add: erase_player_def split: option.split)
  have add: "pj_media (c\<lparr>pb_recorders := aput i h xs\<rparr>)" "pj_media (c\<lparr>pb_filePlayers := aput i h ys\<rparr>)"
    if "pj_media c" "ahas (pb_calls c) i" "xs = pb_recorders c" "ys = pb_filePlayers c" for h xs ys and c :: "'a pjsip_backend"
    using that by (auto simp: pj_media_def)
  show "pj_media (snd (pb_startRecording L b i p))"
    using assms by (auto simp: pb_startRecording_def pb_liveCall_def lib_call_def keep ahas_def intro!: add split: option.split prod.split bool.split)
  show "pj_media (snd (pb_playFile L b i p lp))"
    using assms by (auto simp: pb_playFile_def pb_stopFile_def pb_liveCall_def lib_call_def keep calls erase_media ahas_def
        intro!: add split: option.split prod.split bool.split)
qed (use assms in \<open>simp_all add: pb_stopRecording_def pb_stopFile_def erase_media\<close>)

subsection \<open>The adapter as a backend of the core\<close>

lemma inv_views: "pj_inv b \<Longrightarrow> keeps_view pj_ok v b b' \<Longrightarrow> media_same b b' \<Longrightarrow> keeps_view pj_inv v b b'"
  "pj_inv b \<Longrightarrow> keeps_view pj_ok v b b' \<Longrightarrow> pj_media b' \<Longrightarrow> keeps_view pj_inv v b b'"
  using media_same_keeps by (auto simp: pj_inv_def keeps_view_def)

lemma inv_frame:
  "pj_inv b \<Longrightarrow> pj_frame b b' \<Longrightarrow> media_same b b' \<Longrightarrow>
     keeps_view pj_inv (\<lambda>b. (pj_calls b, pj_minted b, pj_accts b, pj_unann b, pj_live b)) b b'"
  "pj_inv b \<Longrightarrow> pj_frame b b' \<Longrightarrow> media_same b b' \<Longrightarrow> keeps_view pj_inv (\<lambda>b. (pj_calls b, pj_minted b, pj_accts b)) b b'"
  "pj_inv b \<Longrightarrow> pj_frame b b' \<Longrightarrow> media_same b b' \<Longrightarrow> keeps_view pj_inv (\<lambda>b. (pj_calls b, pj_minted b)) b b'"
  "pj_inv b \<Longrightarrow> pj_frame b b' \<Longrightarrow> media_same b b' \<Longrightarrow> keeps_view pj_inv pj_accts b b'"
  by (auto simp: pj_inv_def frame_views intro!: inv_views(1))

lemma inv_media:
  "pj_inv b \<Longrightarrow> pj_frame b b' \<Longrightarrow> pj_media b' \<Longrightarrow>
     keeps_view pj_inv (\<lambda>b. (pj_calls b, pj_minted b, pj_accts b, pj_unann b, pj_live b)) b b'"
  "pj_inv b \<Longrightarrow> pj_frame b b' \<Longrightarrow> pj_media b' \<Longrightarrow> keeps_view pj_inv (\<lambda>b. (pj_calls b, pj_minted b, pj_accts b)) b b'"
  by (auto simp: pj_inv_def frame_views intro!: inv_views(2))

lemma invD: "pj_inv b \<Longrightarrow> pj_ok b" "pj_inv b \<Longrightarrow> pj_media b"
  by (simp_all add: pj_inv_def)

lemma account_media:
  assumes "pj_media b"
  shows "pj_media (snd (pb_addAccount L b s))" "pj_media (snd (pb_removeAccount L b a))"
  using media_same_keeps[OF _ assms] media_same_accounts by blast+

lemmas inv_ops =
  inv_frame[OF _ on_call_frame media_same_ops(1)] inv_frame[OF _ redirect_frame media_same_ops(2)]
  inv_frame[OF _ setMuted_frame media_same_ops(3)] inv_frame[OF _ bridge_frame(1) media_same_ops(4)]
  inv_frame[OF _ bridge_frame(2) media_same_ops(5)] inv_frame[OF _ sendMessage_frame media_same_ops(6)]
  inv_media[OF _ media_frames(1) record_media(1)[OF invD(2)]] inv_media[OF _ media_frames(2) record_media(2)[OF invD(2)]]
  inv_media[OF _ media_frames(3) record_media(3)[OF invD(2)]] inv_media[OF _ media_frames(4) record_media(4)[OF invD(2)]]

interpretation pjsip_core: core_env "PjsipB L E" pj_inv pj_calls pj_minted pj_accts MemK "\<lambda>_. True" pj_unann pj_live for L E
proof unfold_locales
  fix b :: "'a pjsip_backend" assume inv: "pj_inv b"
  note ok = invD(1)[OF inv] and media = invD(2)[OF inv]
  show "pj_calls b \<subseteq> pj_minted b" using ok by (auto simp: pj_views pj_ok_def)
  show "kInvalidCallId \<notin> pj_minted b" by (simp add: pj_minted_def invalid_id_defs)
  show "kInvalidAccountId \<notin> pj_accts b" using ok by (force simp: pj_ok_def pj_accts_def invalid_id_defs)
  fix s a
  show "keeps_view pj_inv (\<lambda>b. (pj_calls b, pj_minted b)) b (snd (bk_addAccount (PjsipB L E) b s))"
    using addAccount_law(2)[OF ok, of L s] account_media(1)[OF media, of L s] inv_views(2)[OF inv]
    by (simp add: PjsipB_def prod_eq_iff)
  show "keeps_view pj_inv (\<lambda>b. (pj_calls b, pj_minted b)) b (snd (bk_removeAccount (PjsipB L E) b a))"
    using removeAccount_law[OF ok, of L a] account_media(2)[OF media, of L a]
    by (simp add: PjsipB_def prod_eq_iff keeps_view_def pj_inv_def)
next
  fix b :: "'a pjsip_backend" and s r b' assume inv: "pj_inv b" and r: "bk_addAccount (PjsipB L E) b s = (r, b')"
  then have "pj_media b'" using account_media(1)[OF invD(2)[OF inv], of L s] by (simp add: PjsipB_def)
  with inv r show "r = kInvalidAccountId \<and> keeps_view pj_inv pj_accts b b' \<or>
    r \<noteq> kInvalidAccountId \<and> r \<notin> pj_accts b \<and> pj_inv b' \<and> pj_accts b' = insert r (pj_accts b)"
    using addAccount_law(1)[OF invD(1)[OF inv], of L s r b'] inv_views(2)[OF inv] by (auto simp: PjsipB_def pj_inv_def)
next
  fix b :: "'a pjsip_backend" and a r b' assume inv: "pj_inv b" and r: "bk_removeAccount (PjsipB L E) b a = (r, b')"
  then show "pj_inv b' \<and> pj_accts b' = pj_accts b - {a}"
    using removeAccount_law(1,2)[OF invD(1)[OF inv], of L a r b'] account_media(2)[OF invD(2)[OF inv], of L a]
    by (simp add: PjsipB_def pj_inv_def)
next
  fix b :: "'a pjsip_backend" and a u r b' assume inv: "pj_inv b" and r: "bk_makeCall (PjsipB L E) b a u = (r, b')"
  then have "pj_media b'" using make_media[OF invD[OF inv], of L a u] by (simp add: PjsipB_def)
  with inv r show "r = kInvalidCallId \<and> pj_inv b' \<and> pj_calls b' = pj_calls b \<and> pj_minted b \<subseteq> pj_minted b' \<and>
      (pj_accts b', pj_unann b', pj_live b') = (pj_accts b, pj_unann b, pj_live b) \<or>
    r \<noteq> kInvalidCallId \<and> r \<notin> pj_minted b \<and> pj_inv b' \<and> pj_calls b' = insert r (pj_calls b) \<and>
      pj_minted b' = insert r (pj_minted b) \<and> (pj_accts b', pj_unann b', pj_live b') = (pj_accts b, pj_unann b, pj_live b)"
    using makeCall_law[OF invD(1)[OF inv], of L a u r b'] queue_ops(1)[of L b a u] by (simp add: PjsipB_def pj_inv_def)
  then show "r = kInvalidCallId \<and> pj_inv b' \<and> pj_calls b' = pj_calls b \<and> pj_minted b \<subseteq> pj_minted b' \<and> pj_accts b' = pj_accts b \<or>
    r \<noteq> kInvalidCallId \<and> r \<notin> pj_minted b \<and> pj_inv b' \<and> pj_calls b' = insert r (pj_calls b) \<and>
      pj_minted b' = insert r (pj_minted b) \<and> pj_accts b' = pj_accts b"
    by auto
next
  fix b :: "'a pjsip_backend" and c assume inv: "pj_inv b"
  show "pj_inv (bk_releaseCall (PjsipB L E) b c) \<and> pj_calls (bk_releaseCall (PjsipB L E) b c) = pj_calls b - {c} \<and>
      pj_minted (bk_releaseCall (PjsipB L E) b c) = pj_minted b \<and>
      (pj_accts (bk_releaseCall (PjsipB L E) b c), pj_unann (bk_releaseCall (PjsipB L E) b c), pj_live (bk_releaseCall (PjsipB L E) b c)) =
      (pj_accts b, pj_unann b, pj_live b)"
    using releaseCall_law[OF invD(1)[OF inv], of L c] release_media[OF invD[OF inv], of L c] queue_ops(2)[of L b c]
    by (simp add: PjsipB_def pj_inv_def)
  show "pj_inv (bk_releaseCall (PjsipB L E) b c) \<and> pj_calls (bk_releaseCall (PjsipB L E) b c) = pj_calls b - {c} \<and>
      pj_minted (bk_releaseCall (PjsipB L E) b c) = pj_minted b \<and> pj_accts (bk_releaseCall (PjsipB L E) b c) = pj_accts b"
    using releaseCall_law[OF invD(1)[OF inv], of L c] release_media[OF invD[OF inv], of L c]
    by (simp add: PjsipB_def pj_inv_def)
qed (simp_all add: PjsipB_def queue_ops inv_ops on_call_ops)

end
