(* ===== verification/PjsipCore.thy ===== *)
theory PjsipCore imports PjsipMedia begin

text \<open>
  The core on the PJSIP adapter, the configuration that ships.  PJSIP is any table of functions, its own
  state may change between any two steps, and its callbacks come at any time; users, timers and the event
  loop take the other steps.
\<close>

subsection \<open>The system\<close>

text \<open>What the controllers ask of the backend beside calls and accounts.\<close>

datatype media_op =
    MoRingtone string
  | MoStopRingtone
  | MoWatch backend_account_id string
  | MoUnwatch watch_id
  | MoStunServers "string list"
  | MoCodecPriority "string list"
  | MoCaptureDevice int
  | MoPlaybackDevice int
  | MoRefreshDevices
  | MoCaTrust ca_trust

fun media_apply :: "'b isip_backend \<Rightarrow> media_op \<Rightarrow> 'b \<Rightarrow> 'b" where
  "media_apply B (MoRingtone p) b = snd (bk_playRingtone B b p)"
| "media_apply B MoStopRingtone b = bk_stopRingtone B b"
| "media_apply B (MoWatch a u) b = snd (bk_watch B b a u)"
| "media_apply B (MoUnwatch i) b = snd (bk_unwatch B b i)"
| "media_apply B (MoStunServers servers) b = bk_setStunServers B b servers"
| "media_apply B (MoCodecPriority names) b = bk_setCodecPriority B b names"
| "media_apply B (MoCaptureDevice i) b = snd (bk_setCaptureDevice B b i)"
| "media_apply B (MoPlaybackDevice i) b = snd (bk_setPlaybackDevice B b i)"
| "media_apply B MoRefreshDevices b = bk_refreshAudioDevices B b"
| "media_apply B (MoCaTrust t) b = bk_setCaTrust B b t"

text \<open>The program sets itself as the listener before it starts PJSIP; starting may fail.\<close>

definition pj_boot :: "'l pjsua \<Rightarrow> engine_env \<Rightarrow> int \<Rightarrow> 'l \<Rightarrow> 'l pjsip_backend" where
  "pj_boot L E sipPort l = snd (pb_start L E (pb_setListener (pb_new (eng_new l)) True) sipPort)"

definition pj_deliver_next ::
  "'l pjsua \<Rightarrow> engine_env \<Rightarrow> (call_id list \<Rightarrow> call_id list) \<Rightarrow> ('l pjsip_backend, 'k) core_state \<Rightarrow> ('l pjsip_backend, 'k) core_state" where
  "pj_deliver_next L E ord w =
     (case pb_deliver L (core_backend w) of
        (None, b) \<Rightarrow> on_backend b w
      | (Some ev, b) \<Rightarrow> fanout (PjsipB L E) ord ev (on_backend b w))"

inductive pj_step ::
  "'l pjsua \<Rightarrow> engine_env \<Rightarrow> ('l pjsip_backend, memory_keychain) core_state \<Rightarrow> ('l pjsip_backend, memory_keychain) core_state \<Rightarrow> bool"
  for L E where
  pj_account: "op_fresh op (co_am w) \<Longrightarrow> (\<forall>ev. op \<noteq> AmEvent ev) \<Longrightarrow>
     pj_step L E w (on_accounts (am_apply (PjsipB L E) MemK op) w)"
| pj_call: "pj_step L E w (on_calls (cm_apply (PjsipB L E) (co_am w) op) w)"
| pj_timer: "pj_step L E w (on_calls (fire_timer (PjsipB L E) n) w)"
| pj_media: "pj_step L E w (on_backend (media_apply (PjsipB L E) op (core_backend w)) w)"
| pj_callback: "pj_step L E w (on_backend (pb_callback ovf L cb (core_backend w)) w)"
| pj_library: "pj_step L E w (on_backend (put_lib l (core_backend w)) w)"
| pj_grace: "pj_step L E w (on_backend (pb_timer L n (core_backend w)) w)"
| pj_deliver: "(\<forall>xs. mset (ord xs) = mset xs) \<Longrightarrow> pj_step L E w (pj_deliver_next L E ord w)"

inductive pj_reach :: "'l pjsua \<Rightarrow> engine_env \<Rightarrow> ('l pjsip_backend, memory_keychain) core_state \<Rightarrow> bool" for L E where
  pj_init: "db_ok db \<Longrightarrow> db_handle db \<Longrightarrow> pj_reach L E (core_new (pj_boot L E sipPort l) db kc)"
| pj_next: "pj_reach L E w \<Longrightarrow> pj_step L E w w' \<Longrightarrow> pj_reach L E w'"

inductive_cases pj_step_cases: "pj_step L E w w'"

subsection \<open>What the backend does on its own\<close>

text \<open>A step that neither takes nor releases a call, nor touches the queue of announcements.\<close>

definition pj_quiet :: "'l pjsip_backend \<Rightarrow> 'l pjsip_backend \<Rightarrow> bool" where
  "pj_quiet b b' \<longleftrightarrow> pj_inv b' \<and> pj_accts b' = pj_accts b \<and> pj_calls b' = pj_calls b \<and> pj_minted b' = pj_minted b \<and>
     pj_unann b' = pj_unann b \<and> pj_live b' = pj_live b"

lemma frame_quiet: "pj_inv b \<Longrightarrow> pj_frame b b' \<Longrightarrow> pj_media b' \<Longrightarrow> pj_quiet b b'"
  by (simp add: pj_quiet_def pj_inv_def pj_frame_keeps[of b b'])

lemma same_quiet: "pj_inv b \<Longrightarrow> pj_frame b b' \<and> media_same b b' \<Longrightarrow> pj_quiet b b'"
  using frame_quiet media_same_keeps invD(2) by blast

lemma post_keeps [simp]:
  "pj_inv (pb_post e b) = pj_inv b" "pj_accts (pb_post e b) = pj_accts b" "pj_calls (pb_post e b) = pj_calls b"
  "pj_minted (pb_post e b) = pj_minted b" "pj_unann (pb_post e b) = pj_unann b @ pb_announces e"
  "pj_live (pb_post e b) = pj_live b"
  by (simp_all add: pb_post_def pj_inv_def pj_ok_def pj_views pj_queue_views ed_post_def pj_media_def grace_timer_def)

lemma post_quiet: "pb_announces e = [] \<Longrightarrow> pj_quiet b (pb_post e c) = pj_quiet b c"
  by (simp add: pj_quiet_def)

definition pj_same :: "'l pjsip_backend \<Rightarrow> 'l pjsip_backend \<Rightarrow> bool" where
  "pj_same b b' \<longleftrightarrow> pj_frame b b' \<and> media_same b b'"

lemma pj_same_frames [simp]:
  "pj_same b b" "pj_same b (c\<lparr>pb_engine := s\<rparr>) = pj_same b c" "pj_same b (c\<lparr>pb_ringtonePlayer := x\<rparr>) = pj_same b c"
  "pj_same b (c\<lparr>pb_ringtonePath := p\<rparr>) = pj_same b c" "pj_same b (c\<lparr>pb_ringtonePlaying := m\<rparr>) = pj_same b c"
  "pj_same b (lib_do f c) = pj_same b c" "pj_same b (put_lib l c) = pj_same b c"
  by (simp_all add: pj_same_def pj_frame_def media_same_def)

lemma pj_same_ringtone [simp]:
  "pj_same b (snd (ringtone_connect L f c)) = pj_same b c" "pj_same b c \<Longrightarrow> pj_same b (snd (ringtone_load L p c))"
  by (auto simp: ringtone_connect_def ringtone_load_def Let_def lib_call_def split: option.split prod.split)

lemma playRingtone_same: "pj_same b (snd (pb_playRingtone L b p))" "pj_same b (pb_stopRingtone L b)"
proof -
  have *: "ringtone_connect L f c = (r, c') \<Longrightarrow> pj_same b c \<Longrightarrow> pj_same b c'" for f r c c'
    using pj_same_ringtone(1)[of b L f c] by simp
  have **: "ringtone_load L p c = (r, c') \<Longrightarrow> pj_same b c \<Longrightarrow> pj_same b c'" for r c c'
    using pj_same_ringtone(2)[of b c L p] by simp
  obtain r1 b1 where 1: "(if pb_ringtonePlaying b then ringtone_connect L (port_stopTransmit L) b else (True, b)) = (r1, b1)"
    by fastforce
  then have s1: "pj_same b b1" using * by (auto split: if_splits)
  obtain r2 b2 where 2: "ringtone_load L p (b1\<lparr>pb_ringtonePlaying := False\<rparr>) = (r2, b2)" by fastforce
  have s2: "pj_same b b2" using **[OF 2] s1 by simp
  obtain r3 b3 where 3: "ringtone_connect L (port_startTransmit L) b2 = (r3, b3)" by fastforce
  have s3: "pj_same b b3" using *[OF 3 s2] .
  show "pj_same b (snd (pb_playRingtone L b p))"
    unfolding pb_playRingtone_def 1 using s1 s2 s3 by (cases r1; cases r2; cases r3) (simp_all add: 2 3)
  show "pj_same b (pb_stopRingtone L b)" by (simp add: pb_stopRingtone_def)
qed

lemma pj_same_quiet: "pj_inv b \<Longrightarrow> pj_same b b' \<Longrightarrow> pj_quiet b b'"
  by (simp add: pj_same_def same_quiet)

lemma watch_quiet: "pj_inv b \<Longrightarrow> pj_quiet b (snd (pb_watch L b a u))"
proof -
  assume inv: "pj_inv b"
  obtain w b' where w: "pb_watch L b a u = (w, b')" by fastforce
  have "media_same b b'"
    using w by (auto simp: pb_watch_def Let_def media_same_def lib_call_def split: if_splits option.splits prod.splits bool.splits)
  then have "pj_media b'" using media_same_keeps invD(2)[OF inv] by blast
  with watch_cases[OF w] invD(1)[OF inv] inv show ?thesis
    by (elim disjE) (auto simp: w pj_quiet_def pj_inv_def pj_ok_def pj_frame_def pj_views pj_queue_views)
qed

lemma unwatch_quiet: "pj_inv b \<Longrightarrow> pj_quiet b (snd (pb_unwatch L b w))"
  by (auto simp: pb_unwatch_def pj_quiet_def pj_inv_def pj_ok_def pj_views pj_queue_views pj_media_def split: option.split)

lemma media_quiet: "pj_inv b \<Longrightarrow> pj_quiet b (media_apply (PjsipB L E) op b)"
  by (cases op) (auto simp: PjsipB_def watch_quiet unwatch_quiet pb_setCaTrust_def playRingtone_same pj_same_quiet
      split: prod.split)

lemma erase_quiet: "pj_inv b \<Longrightarrow> pj_quiet b (erase_player L i (erase_recorder L i b))"
  by (intro frame_quiet) (simp_all add: erase_media invD)

text \<open>The end of a grace period takes the parked call with it.\<close>

lemma grace_quiet:
  assumes "pj_inv b" "\<And>j. ahas (pb_graceCalls b) j \<Longrightarrow> j = i \<or> grace_timer j ed" "ed_queue ed = ed_queue (pb_events b)"
    "ed_epoch ed = ed_epoch (pb_events b)"
  shows "pj_quiet b (snd (pb_run_event L (PbGraceDestroy i) (b\<lparr>pb_events := ed\<rparr>)))"
proof (cases "map_of (pb_graceCalls b) i")
  case None
  then have "grace_timer j ed" if "ahas (pb_graceCalls b) j" for j
    using that assms(2)[OF that] by (auto simp: ahas_def)
  then have "pj_media (b\<lparr>pb_events := ed\<rparr>)" using invD(2)[OF assms(1)] by (auto simp: pj_media_def)
  moreover have "pj_frame b (b\<lparr>pb_events := ed\<rparr>)" using assms(3,4) by (simp add: pj_frame_def)
  ultimately show ?thesis using frame_quiet[OF assms(1)] None by simp
next
  case (Some c)
  let ?b = "lib_do (call_destroy L (cl_handle c)) (b\<lparr>pb_events := ed, pb_graceCalls := adel i (pb_graceCalls b)\<rparr>)"
  have "pj_media ?b" using invD(2)[OF assms(1)] assms(2) by (auto simp: pj_media_def)
  moreover have "pj_frame b ?b" using assms(3,4) by (simp add: pj_frame_def)
  ultimately show ?thesis using frame_quiet[OF assms(1)] Some by simp
qed

lemma event_quiet:
  assumes "pj_inv b"
  shows "pj_quiet b (snd (pb_run_event L e b))"
proof (cases e)
  case (PbEvent ev)
  then show ?thesis
    using assms by (auto simp: pj_same_quiet intro!: erase_quiet split: listener_event.split call_state.split)
next
  case (PbGraceDestroy i)
  have "b\<lparr>pb_events := pb_events b\<rparr> = b" by simp
  moreover have "grace_timer j (pb_events b)" if "ahas (pb_graceCalls b) j" for j
    using invD(2)[OF assms] that by (auto simp: pj_media_def)
  ultimately show ?thesis using grace_quiet[OF assms, of i "pb_events b" L] by (simp add: PbGraceDestroy del: pb_run_event.simps)
qed

lemma quiet_trans: "pj_quiet a b \<Longrightarrow> pj_quiet b c \<Longrightarrow> pj_quiet a c"
  by (simp add: pj_quiet_def)

lemma take_drop_set: "n < length xs \<Longrightarrow> x \<in> set xs \<Longrightarrow> x = xs ! n \<or> x \<in> set (take n xs @ drop (Suc n) xs)"
  by (metis id_take_nth_drop Un_iff set_append insert_iff list.simps(15))

text \<open>A timer that is gone was either for another call, or out of its epoch, or its call goes with it.\<close>

lemma timer_quiet:
  assumes inv: "pj_inv b"
  shows "pj_quiet b (pb_timer L n b)"
proof (cases "n < length (ed_timers (pb_events b))")
  case False
  then have "pb_timer L n b = b" by (simp add: pb_timer_def ed_run_timer_def)
  then show ?thesis using inv by (simp add: pj_same_quiet)
next
  case True
  obtain ms epoch e where t: "ed_timers (pb_events b) ! n = (ms, epoch, e)" by (metis prod_cases3)
  let ?ed = "(pb_events b)\<lparr>ed_timers := take n (ed_timers (pb_events b)) @ drop (Suc n) (ed_timers (pb_events b))\<rparr>"
  have run: "ed_run_timer n (pb_events b) = (if epoch = ed_epoch (pb_events b) then Some e else None, ?ed)"
    using True by (simp add: ed_run_timer_def t)
  have left: "(epoch, e) = (ed_epoch (pb_events b), PbGraceDestroy j) \<or> grace_timer j ?ed" if h: "ahas (pb_graceCalls b) j" for j
  proof -
    have "grace_timer j (pb_events b)" using invD(2)[OF inv] h by (auto simp: pj_media_def)
    then obtain x where x: "x \<in> set (ed_timers (pb_events b))" "snd x = (ed_epoch (pb_events b), PbGraceDestroy j)"
      by (auto simp: grace_timer_def)
    with take_drop_set[OF True x(1)] t show ?thesis by (force simp: grace_timer_def image_iff)
  qed
  have gone: "pj_quiet b (b\<lparr>pb_events := ?ed\<rparr>)" if "\<And>j. ahas (pb_graceCalls b) j \<Longrightarrow> grace_timer j ?ed"
    using inv that by (intro frame_quiet) (auto simp: pj_frame_def pj_inv_def pj_media_def)
  show ?thesis
  proof (cases "epoch = ed_epoch (pb_events b)")
    case False
    then show ?thesis using gone left by (simp add: pb_timer_def run)
  next
    case ep: True
    show ?thesis
    proof (cases e)
      case (PbEvent ev)
      then have q: "pj_quiet b (b\<lparr>pb_events := ?ed\<rparr>)" using gone left by simp
      then have "pj_inv (b\<lparr>pb_events := ?ed\<rparr>)" by (simp add: pj_quiet_def)
      moreover have "pb_timer L n b = snd (pb_run_event L e (b\<lparr>pb_events := ?ed\<rparr>))"
        by (simp add: pb_timer_def run ep del: pb_run_event.simps)
      ultimately show ?thesis using quiet_trans[OF q event_quiet] by simp
    next
      case (PbGraceDestroy i)
      have "pb_timer L n b = snd (pb_run_event L (PbGraceDestroy i) (b\<lparr>pb_events := ?ed\<rparr>))"
        by (simp add: pb_timer_def run ep PbGraceDestroy del: pb_run_event.simps)
      with grace_quiet[OF inv, of i ?ed L] left PbGraceDestroy show ?thesis by auto
    qed
  qed
qed

text \<open>A callback may take one incoming call, which it announces.\<close>

lemma incoming_calls:
  assumes "pj_inv b"
  shows "pj_inv (wrapIncomingCall L a acc h b)" "pj_accts (wrapIncomingCall L a acc h b) = pj_accts b"
    "pj_calls (wrapIncomingCall L a acc h b) = insert (pb_nextCallId b) (pj_calls b)"
    "pj_minted (wrapIncomingCall L a acc h b) = insert (pb_nextCallId b) (pj_minted b)"
    "pj_unann (wrapIncomingCall L a acc h b) = pj_unann b @ [pb_nextCallId b]"
    "pj_live (wrapIncomingCall L a acc h b) = pj_live b" "pb_nextCallId b \<notin> pj_minted b"
proof -
  let ?i = "pb_nextCallId b"
  have i: "50001 \<le> ?i" "\<not> ahas (pb_calls b) ?i" using assms by (auto simp: pj_inv_def pj_ok_def)
  have m: "{50001..<?i + 1} = insert ?i {50001..<?i}" using i by auto
  have "\<not> ahas (pb_graceCalls b) ?i" using invD(2)[OF assms] by (auto simp: pj_media_def)
  then have "pj_media (wrapIncomingCall L a acc h b)"
    using i invD(2)[OF assms] by (auto simp: wrapIncomingCall_def Let_def pj_media_def aemplace_def pb_post_def ed_post_def grace_timer_def)
  then show "pj_inv (wrapIncomingCall L a acc h b)"
    using i assms by (auto simp: wrapIncomingCall_def Let_def pj_inv_def pj_ok_def aemplace_def pb_post_def)
  show "pj_accts (wrapIncomingCall L a acc h b) = pj_accts b"
    "pj_calls (wrapIncomingCall L a acc h b) = insert ?i (pj_calls b)"
    "pj_minted (wrapIncomingCall L a acc h b) = insert ?i (pj_minted b)"
    "pj_unann (wrapIncomingCall L a acc h b) = pj_unann b @ [?i]"
    "pj_live (wrapIncomingCall L a acc h b) = pj_live b"
    using i m
    by (auto simp: wrapIncomingCall_def Let_def pj_views pj_queue_views aemplace_def pb_post_def ed_post_def
        pb_announces_def announced_list_def)
  show "?i \<notin> pj_minted b" by (simp add: pj_minted_def)
qed

lemma announces_none [simp]:
  "pb_announces (PbEvent (OnRegState a m n u)) = []" "pb_announces (PbEvent (OnCallState i s n)) = []"
  "pb_announces (PbEvent (OnMediaState i m h)) = []" "pb_announces (PbEvent (OnTransferStatus i n m u)) = []"
  "pb_announces (PbEvent (OnInstantMessage a u t)) = []" "pb_announces (PbEvent (OnMwi a k j m)) = []"
  "pb_announces (PbEvent (OnPresence w p)) = []" "pb_announces (PbGraceDestroy i) = []"
  by (simp_all add: pb_announces_def announced_list_def)

lemma quiet_refl: "pj_inv b \<Longrightarrow> pj_quiet b b"
  by (simp add: pj_quiet_def)

lemma lib_do_quiet: "pj_inv b \<Longrightarrow> pj_quiet b (lib_do f b)"
  by (simp add: pj_same_quiet)

lemma callback_quiet:
  assumes "pj_inv b" "\<forall>a h. cb \<noteq> CbIncomingCall a h"
  shows "pj_quiet b (pb_callback ovf L cb b)"
  using assms
  by (cases cb) (auto simp: cb_onRegState_def cb_onCallState_def cb_onCallMediaState_def cb_onCallTransferStatus_def Let_def
      quiet_refl lib_do_quiet post_quiet split: option.split prod.split buddy_status.split)

subsection \<open>Every step keeps the invariant\<close>

lemma quiet_step_ok:
  assumes inv: "pjsip_core.core_ok w" and b: "pj_inv (core_backend w) \<Longrightarrow> pj_quiet (core_backend w) b"
  shows "pjsip_core.core_ok (on_backend b w)"
proof -
  have "pj_inv (core_backend w)" using pjsip_core.core_midD(5)[OF pjsip_core.core_okD(1)[OF inv]] .
  then show ?thesis
    using b pjsip_core.backend_step_ok[OF inv, of b "[]"] by (simp add: pj_quiet_def)
qed

lemma callback_step_ok:
  assumes "pjsip_core.core_ok w"
  shows "pjsip_core.core_ok (on_backend (pb_callback ovf L cb (core_backend w)) w)"
proof (cases "\<exists>a h acc. cb = CbIncomingCall a h \<and> map_of (pb_accounts (core_backend w)) a = Some acc")
  case False
  have "pj_quiet (core_backend w) (pb_callback ovf L cb (core_backend w))" if "pj_inv (core_backend w)"
    using callback_quiet[OF that, of cb ovf L] quiet_refl[OF that] False by (cases cb) (auto split: option.split)
  then show ?thesis by (rule quiet_step_ok[OF assms])
next
  case True
  then obtain a h acc where cb: "pb_callback ovf L cb (core_backend w) = wrapIncomingCall L a acc h (core_backend w)" by auto
  have "pj_inv (core_backend w)" using pjsip_core.core_midD(5)[OF pjsip_core.core_okD(1)[OF assms]] .
  note i = incoming_calls[OF this]
  show ?thesis
    unfolding cb using i pjsip_core.backend_step_ok[OF assms, of _ "[pb_nextCallId (core_backend w)]"] by simp
qed

lemma pj_deliver_ok:
  assumes inv: "pjsip_core.core_ok w" and ord: "\<And>xs. set (ord xs) = set xs"
  shows "pjsip_core.core_ok (pj_deliver_next L E ord w)"
proof -
  let ?b = "core_backend w"
  have ok: "pj_inv ?b" using pjsip_core.core_midD(5)[OF pjsip_core.core_okD(1)[OF inv]] .
  have live: "pj_live ?b" using pjsip_core.core_okD(3)[OF inv] .
  show ?thesis
  proof (cases "ed_queue (pb_events ?b)")
    case Nil
    then have "pb_deliver L ?b = (None, ?b)" by (simp add: pb_deliver_def ed_run_next_def)
    then show ?thesis using quiet_step_ok[OF inv quiet_refl] by (simp add: pj_deliver_next_def)
  next
    case (Cons q qs)
    let ?b1 = "?b\<lparr>pb_events := (pb_events ?b)\<lparr>ed_queue := qs\<rparr>\<rparr>"
    obtain e where q: "q = (ed_epoch (pb_events ?b), e)" using live Cons by (cases q) (auto simp: pj_live_def)
    have d: "pb_deliver L ?b = pb_run_event L e ?b1" by (simp add: pb_deliver_def ed_run_next_def Cons q)
    have b1: "pj_inv ?b1" "pj_accts ?b1 = pj_accts ?b" "pj_calls ?b1 = pj_calls ?b" "pj_minted ?b1 = pj_minted ?b"
      "pj_unann ?b = pb_announces e @ pj_unann ?b1" "pj_live ?b1" "pb_listener ?b1"
      using ok live by (simp_all add: pj_inv_def pj_ok_def pj_views pj_queue_views pj_media_def grace_timer_def Cons q)
    note quiet = event_quiet[OF b1(1), of L e, unfolded pj_quiet_def]
    have step: "pjsip_core.core_ok (fold (fanout (PjsipB L E) ord) evs (on_backend (snd (pb_run_event L e ?b1)) w))"
      if "pb_announces e = concat (map announced_list evs)" for evs
      using quiet b1 that by (intro pjsip_core.deliver_ok[OF inv ord]) simp_all
    show ?thesis
    proof (cases e)
      case (PbEvent ev)
      then have "pb_run_event L e ?b1 = (Some ev, snd (pb_run_event L e ?b1))" using b1(7) by simp
      with step[of "[ev]"] PbEvent show ?thesis
        by (simp add: pj_deliver_next_def d pb_announces_def split: prod.split)
    next
      case (PbGraceDestroy i)
      with step[of "[]"] show ?thesis by (simp add: pj_deliver_next_def d)
    qed
  qed
qed

lemma pj_step_ok: "pj_step L E w w' \<Longrightarrow> pjsip_core.core_ok w \<Longrightarrow> pjsip_core.core_ok w'"
proof (erule pj_step_cases, goal_cases)
  case (8 ord)
  then have "\<And>xs. set (ord xs) = set xs" by (metis set_mset_mset)
  with 8 show ?case by (simp add: pj_deliver_ok)
qed (simp_all add: pjsip_core.account_step_ok pjsip_core.call_step_ok callback_step_ok quiet_step_ok media_quiet
  timer_quiet pj_same_quiet)

lemma pj_boot_ok:
  "pj_inv (pj_boot L E p l)" "pj_calls (pj_boot L E p l) = {}" "pj_unann (pj_boot L E p l) = []" "pj_live (pj_boot L E p l)"
  by (simp_all add: pj_boot_def pb_start_def pb_new_def pb_setListener_def ed_new_def ed_invalidate_def pj_inv_def pj_ok_def pj_views
      pj_queue_views pj_media_def split: prod.split)

lemma pj_reach_ok: "pj_reach L E w \<Longrightarrow> pjsip_core.core_ok w"
  by (induction rule: pj_reach.induct) (simp_all add: pj_step_ok pjsip_core.core_new_ok pj_boot_ok)

end
