(* ===== verification/PjsipClaims.thy ===== *)
theory PjsipClaims imports PjsipCore begin

text \<open>
  Properties of the PJSIP adapter and of the core on it, with a small library to try them on; and what the
  adapter does with codec priorities, TLS transports, the ringtone and the quality estimate.
\<close>

subsection \<open>A library for the examples\<close>

text \<open>
  A desk phone's worth of PJSIP: it numbers its objects, has eight transports as PJSIP has by default, keeps
  the codec priorities, and cannot open files whose name starts with a question mark.
\<close>

record desk =
  dk_next :: int
  dk_transports :: nat
  dk_prio :: "string \<Rightarrow> nat"

definition desk_object :: "desk \<Rightarrow> int option \<times> desk" where
  "desk_object d = (Some (dk_next d), d\<lparr>dk_next := dk_next d + 1\<rparr>)"

definition desk_transport :: "desk \<Rightarrow> int option \<times> desk" where
  "desk_transport d =
     (if dk_transports d < 8 then (Some (int (dk_transports d)), d\<lparr>dk_transports := dk_transports d + 1\<rparr>) else (None, d))"

definition desk_file :: "string \<Rightarrow> desk \<Rightarrow> int option \<times> desk" where
  "desk_file p d = (if p = [] \<or> hd p = CHR ''?'' then (None, d) else desk_object d)"

definition desk_call :: pj_call_info where
  "desk_call = \<lparr>ci_state = InvConfirmed, ci_lastStatusCode = 200, ci_remoteUri = ''sip:far@end'',
     ci_media = [\<lparr>mi_audio = True, mi_status = MediaActive\<rparr>]\<rparr>"

definition desk_stat :: rtcp_stat where
  "desk_stat = \<lparr>rs_rxPkt = 500, rs_rxLoss = 0, rs_txPkt = 500, rs_txLoss = 0, rs_jitterUsec = 4000, rs_rttUsec = 60000\<rparr>"

definition desk_codecs :: "string list" where
  "desk_codecs = [''opus/48000/2'', ''G722/16000/1'', ''PCMU/8000/1'', ''PCMA/8000/1'']"

definition desk_lib :: "desk pjsua" where
  "desk_lib = \<lparr>
     lib_create = Pair True, lib_init = Pair True, lib_transportCreate = (\<lambda>ty cfg. desk_transport), lib_start = Pair True,
     lib_hangupAllCalls = Pair True, lib_destroy = Pair True, lib_deleteEndpoint = (\<lambda>d. d\<lparr>dk_transports := 0\<rparr>),
     lib_updateStun = (\<lambda>servers d. d), lib_codecEnum = (\<lambda>d. Some desk_codecs),
     lib_codecSetPriority = (\<lambda>c n d. d\<lparr>dk_prio := (dk_prio d)(c := n)\<rparr>), lib_enumDev = (\<lambda>d. Some []), lib_setNullDev = id,
     lib_captureDev = (\<lambda>d. Some 0), lib_playbackDev = (\<lambda>d. Some 0), lib_setCaptureDev = (\<lambda>i. Pair True),
     lib_setPlaybackDev = (\<lambda>i. Pair True), lib_refreshDevs = id, lib_captureMedia = (\<lambda>d. 0), lib_playbackMedia = (\<lambda>d. 1),
     acc_create = (\<lambda>cfg. desk_object), acc_setRegistration = (\<lambda>h m d. d), acc_regIsActive = (\<lambda>h d. Some True),
     acc_destroy = (\<lambda>h d. d), im_send = (\<lambda>h u t. Pair True), buddy_create = (\<lambda>h u. desk_object),
     buddy_subscribe = (\<lambda>h m. Pair True), buddy_destroy = (\<lambda>h d. d), call_make = (\<lambda>h u. desk_object),
     call_attach = (\<lambda>a h d. d), call_info = (\<lambda>h d. Some desk_call), call_media = (\<lambda>h k d. Some (1000 + h)),
     call_answer = (\<lambda>h n. Pair True), call_hangup = (\<lambda>h p. Pair True), call_setHold = (\<lambda>h. Pair True),
     call_reinvite = (\<lambda>h. Pair True), call_sendDtmfInfo = (\<lambda>h c. Pair True), call_dialDtmf = (\<lambda>h u. Pair True),
     call_xfer = (\<lambda>h u. Pair True), call_xferReplaces = (\<lambda>h k. Pair True), call_endXferSub = (\<lambda>h d. d),
     call_streamStat = (\<lambda>h k d. Some desk_stat), call_destroy = (\<lambda>h d. d), port_startTransmit = (\<lambda>p q. Pair True),
     port_stopTransmit = (\<lambda>p q. Pair True), port_listeners = (\<lambda>p d. Some []), recorder_create = desk_file,
     player_create = (\<lambda>p m. desk_file p), media_destroy = (\<lambda>h d. d)\<rparr>"

definition desk_new :: desk where
  "desk_new = \<lparr>dk_next = 1, dk_transports = 0, dk_prio = (\<lambda>_. 130)\<rparr>"

definition desk_env :: engine_env where
  "desk_env = \<lparr>ee_caEnv = None, ee_exists = (\<lambda>_. False), ee_rootStore = None, ee_headless = True\<rparr>"

subsection \<open>The core on PJSIP\<close>

text \<open>An example run: an account is added, dials, and its call is recorded and then ends.\<close>

definition desk_start :: "(desk pjsip_backend, memory_keychain) core_state" where
  "desk_start = core_new (pj_boot desk_lib desk_env 5060 desk_new) empty_db (\<lambda>_. None)"

definition desk_added :: "(desk pjsip_backend, memory_keychain) core_state" where
  "desk_added = on_accounts (am_apply (PjsipB desk_lib desk_env) MemK
     (AmAdd (\<lambda>_. True) ''ref'' (default_account\<lparr>acc_username := ''al''\<rparr>) ''pw'')) desk_start"

definition desk_called :: "(desk pjsip_backend, memory_keychain) core_state" where
  "desk_called = on_calls (cm_apply (PjsipB desk_lib desk_env) (co_am desk_added) (CmCallFrom 1 ''sip:b'')) desk_added"

definition desk_recorded :: "(desk pjsip_backend, memory_keychain) core_state" where
  "desk_recorded = on_calls (cm_apply (PjsipB desk_lib desk_env) (co_am desk_called) (CmStartRecording 50001 ''f.wav'')) desk_called"

lemma desk_reach: "pj_reach desk_lib desk_env desk_called" "pj_reach desk_lib desk_env desk_recorded"
proof -
  have 0: "pj_reach desk_lib desk_env desk_start"
    unfolding desk_start_def by (rule pj_init) (simp_all add: empty_db_ok, simp add: empty_db_def)
  have "op_fresh (AmAdd (\<lambda>_. True) ''ref'' a ''pw'') (co_am desk_start)" for a
    by (simp add: desk_start_def core_new_def am_new_def loadFromDatabase_def)
  then have 1: "pj_reach desk_lib desk_env desk_added"
    unfolding desk_added_def by (intro pj_next[OF 0] pj_account) simp_all
  show 2: "pj_reach desk_lib desk_env desk_called"
    unfolding desk_called_def by (intro pj_next[OF 1] pj_call)
  show "pj_reach desk_lib desk_env desk_recorded"
    unfolding desk_recorded_def by (intro pj_next[OF 2] pj_call)
qed



text \<open>C3. The adapter's tables stay well formed in every state the program reaches: ids come from their own ranges
  and are never reused; a recorder or a file player exists only for a call that is live; and a call that was
  released is no longer live, and its grace timer is running, so its object will be destroyed.\<close>

theorem pjsip_tables_sound:
  assumes "pj_reach L E w"
  shows "(\<forall>i. ahas (pb_calls (core_backend w)) i \<longrightarrow> 50001 \<le> i \<and> i < pb_nextCallId (core_backend w)) \<and>
    (\<forall>i. ahas (pb_accounts (core_backend w)) i \<longrightarrow> 10001 \<le> i \<and> i < pb_nextAccountId (core_backend w)) \<and>
    (\<forall>i. ahas (pb_recorders (core_backend w)) i \<or> ahas (pb_filePlayers (core_backend w)) i \<longrightarrow> ahas (pb_calls (core_backend w)) i) \<and>
    (\<forall>i. ahas (pb_graceCalls (core_backend w)) i \<longrightarrow> \<not> ahas (pb_calls (core_backend w)) i \<and> grace_timer i (pb_events (core_backend w)))"
proof -
  have "pj_inv (core_backend w)"
    using pjsip_core.core_midD(5)[OF pjsip_core.core_okD(1)[OF pj_reach_ok[OF assms]]] .
  then show ?thesis by (auto simp: pj_inv_def pj_ok_def pj_media_def)
qed

lemma desk_recording: "ahas (pb_recorders (core_backend desk_recorded)) 50001"
  by code_simp

theorem pjsip_tables_sound_witness: "ahas (pb_calls (core_backend desk_recorded)) 50001"
  using pjsip_tables_sound[OF desk_reach(2)] desk_recording by blast

subsection \<open>Codec priorities\<close>

text \<open>What PJSIP promises: setting a priority sets that one.  Zero disables the codec.\<close>

definition prio_law :: "'l pjsua \<Rightarrow> ('l \<Rightarrow> string \<Rightarrow> nat) \<Rightarrow> bool" where
  "prio_law L prio \<longleftrightarrow> (\<forall>c n l. prio (lib_codecSetPriority L c n l) = (prio l)(c := n))"

text \<open>The codecs the wanted names stand for, in the order wanted.\<close>

definition wanted_codecs :: "string list \<Rightarrow> string list \<Rightarrow> string list" where
  "wanted_codecs all names = List.map_filter (\<lambda>nm. find (codec_matches nm) all) names"

lemma wanted_Cons:
  "wanted_codecs all [] = []"
  "wanted_codecs all (nm # names) =
     (case find (codec_matches nm) all of None \<Rightarrow> wanted_codecs all names | Some c \<Rightarrow> c # wanted_codecs all names)"
  by (simp_all add: wanted_codecs_def split: option.split)

lemma disabled_first:
  assumes "prio_law L prio"
  shows "prio (fold (\<lambda>c. lib_codecSetPriority L c 0) cs l) c = (if c \<in> set cs then 0 else prio l c)"
  using assms by (induction cs arbitrary: l) (auto simp: prio_law_def)

lemma promoted_others:
  assumes "prio_law L prio" "c \<notin> set (wanted_codecs all names)"
  shows "prio (promote_codecs L all names n l) c = prio l c"
  using assms by (induction names arbitrary: n l) (auto simp: wanted_Cons prio_law_def split: option.splits)

lemma promoted_wanted:
  assumes "prio_law L prio" "distinct (wanted_codecs all names)" "i < length (wanted_codecs all names)"
  shows "prio (promote_codecs L all names (254 - 2 * k) l) (wanted_codecs all names ! i) = 254 - 2 * (k + i)"
  using assms(2,3)
proof (induction names arbitrary: i k l)
  case (Cons nm names)
  show ?case
  proof (cases "find (codec_matches nm) all")
    case None
    with Cons show ?thesis by (simp add: wanted_Cons)
  next
    case (Some c)
    have next_slot: "(if 2 \<le> 254 - 2 * k then 254 - 2 * k - 2 else 254 - 2 * k) = 254 - 2 * Suc k" by auto
    have step: "promote_codecs L all (nm # names) (254 - 2 * k) l =
        promote_codecs L all names (254 - 2 * Suc k) (lib_codecSetPriority L c (254 - 2 * k) l)"
      unfolding promote_codecs.simps Some option.case next_slot ..
    show ?thesis
    proof (cases i)
      case 0
      have "c \<notin> set (wanted_codecs all names)" using Cons.prems(1) Some by (simp add: wanted_Cons)
      with 0 Some assms(1) show ?thesis unfolding step by (simp add: wanted_Cons promoted_others prio_law_def)
    next
      case (Suc j)
      have "distinct (wanted_codecs all names)" "j < length (wanted_codecs all names)"
        using Cons.prems Some Suc by (simp_all add: wanted_Cons)
      from Cons.IH[OF this, of "Suc k"] Some Suc show ?thesis unfolding step by (simp add: wanted_Cons)
    qed
  qed
qed (simp add: wanted_Cons)

text \<open>C34. Codec priorities: with the names an account lists, the codec the first name stands for gets priority 254,
  the next one 252 and so on, each higher than the next; and every codec PJSIP has that no listed name stands
  for is set to zero, which in PJSIP means that it is disabled.\<close>

theorem codec_priorities:
  assumes "prio_law L prio" "eng_endpoint s" "names \<noteq> []" "lib_codecEnum L (eng_lib s) = Some all"
    and "distinct (wanted_codecs all names)"
  shows "(\<forall>i < length (wanted_codecs all names).
        prio (eng_lib (applyCodecPriority L names s)) (wanted_codecs all names ! i) = 254 - 2 * i) \<and>
    (\<forall>c. c \<in> set all \<and> c \<notin> set (wanted_codecs all names) \<longrightarrow> prio (eng_lib (applyCodecPriority L names s)) c = 0)"
proof -
  have "applyCodecPriority L names s =
      s\<lparr>eng_lib := promote_codecs L all names (254 - 2 * 0) (fold (\<lambda>c. lib_codecSetPriority L c 0) all (eng_lib s))\<rparr>"
    using assms(2-4) by (simp add: applyCodecPriority_def)
  then show ?thesis
    using promoted_wanted[OF assms(1,5), where k = 0] promoted_others[OF assms(1)] disabled_first[OF assms(1)] by simp
qed

definition desk_engine :: "desk sip_engine" where
  "desk_engine = (eng_new desk_new)\<lparr>eng_endpoint := True\<rparr>"

theorem codec_priorities_witness:
  "dk_prio (eng_lib (applyCodecPriority desk_lib [''pcma'', ''opus''] desk_engine)) ''opus/48000/2'' = 252 \<and>
   dk_prio (eng_lib (applyCodecPriority desk_lib [''pcma'', ''opus''] desk_engine)) ''PCMU/8000/1'' = 0"
proof -
  have w: "wanted_codecs desk_codecs [''pcma'', ''opus''] = [''PCMA/8000/1'', ''opus/48000/2'']" by code_simp
  have "prio_law desk_lib dk_prio" by (simp add: prio_law_def desk_lib_def)
  moreover have "lib_codecEnum desk_lib (eng_lib desk_engine) = Some desk_codecs" by (simp add: desk_lib_def)
  ultimately have "(\<forall>i < length [''PCMA/8000/1'', ''opus/48000/2''].
        dk_prio (eng_lib (applyCodecPriority desk_lib [''pcma'', ''opus''] desk_engine)) ([''PCMA/8000/1'', ''opus/48000/2''] ! i) = 254 - 2 * i) \<and>
    (\<forall>c. c \<in> set desk_codecs \<and> c \<notin> set [''PCMA/8000/1'', ''opus/48000/2''] \<longrightarrow>
       dk_prio (eng_lib (applyCodecPriority desk_lib [''pcma'', ''opus''] desk_engine)) c = 0)"
    using codec_priorities[of desk_lib dk_prio desk_engine "[''pcma'', ''opus'']" desk_codecs, unfolded w]
    by (simp add: desk_engine_def)
  from conjunct1[OF this, rule_format, of 1] conjunct2[OF this, rule_format, of "''PCMU/8000/1''"] show ?thesis
    by (simp add: desk_codecs_def)
qed

text \<open>The ids PJSIP gives the codecs it is usually built with.\<close>

definition pjsip_codecs :: "string list" where
  "pjsip_codecs = [''speex/16000/1'', ''speex/8000/1'', ''speex/32000/1'', ''iLBC/8000/1'', ''GSM/8000/1'', ''PCMU/8000/1'',
     ''PCMA/8000/1'', ''G722/16000/1'', ''G7221/16000/1'', ''G7221/32000/1'', ''opus/48000/2'', ''G729/8000/1'']"

lemma exchange_names_unknown: "list_all (\<lambda>c. \<not> codec_matches ''alaw'' c \<and> \<not> codec_matches ''ulaw'' c) pjsip_codecs"
  by code_simp

text \<open>Names PJSIP does not know switch codecs off: an account whose codecs are called "alaw" and "ulaw", as the
  telephone exchange calls them, leaves none enabled, since in PJSIP they are PCMA and PCMU.\<close>

theorem exchange_names_disable_all:
  assumes "prio_law L prio" "eng_endpoint s" "lib_codecEnum L (eng_lib s) = Some all" "set all \<subseteq> set pjsip_codecs" "c \<in> set all"
  shows "prio (eng_lib (applyCodecPriority L [''alaw'', ''ulaw''] s)) c = 0"
proof -
  have "find (codec_matches nm) all = None" if "nm = ''alaw'' \<or> nm = ''ulaw''" for nm
    using exchange_names_unknown assms(4) that unfolding find_None_iff list_all_iff by blast
  then have "wanted_codecs all [''alaw'', ''ulaw''] = []" unfolding wanted_Cons by simp
  then show ?thesis
    using promoted_others[OF assms(1)] disabled_first[OF assms(1)] assms(2,3,5)
    by (simp add: applyCodecPriority_def del: promote_codecs.simps)
qed

theorem exchange_names_disable_all_witness:
  "dk_prio (eng_lib (applyCodecPriority desk_lib [''alaw'', ''ulaw''] desk_engine)) ''PCMA/8000/1'' = 0"
  by (rule exchange_names_disable_all[of desk_lib dk_prio desk_engine desk_codecs])
    (auto simp: prio_law_def desk_lib_def desk_engine_def desk_codecs_def pjsip_codecs_def)

subsection \<open>Transports of TLS accounts\<close>

text \<open>
  What PJSIP promises of its table of transports, which has \<open>N\<close> entries: creating one takes an entry, and
  nothing the adapter does with an account or its buddies gives one back.
\<close>

definition slots_law :: "'l pjsua \<Rightarrow> nat \<Rightarrow> ('l \<Rightarrow> nat) \<Rightarrow> bool" where
  "slots_law L N used \<longleftrightarrow>
     (\<forall>ty cfg l. case lib_transportCreate L ty cfg l of
        (None, l') \<Rightarrow> used l' = used l | (Some i, l') \<Rightarrow> used l < N \<and> used l' = used l + 1) \<and>
     (\<forall>cfg l. used (snd (acc_create L cfg l)) = used l) \<and> (\<forall>h m l. used (acc_setRegistration L h m l) = used l) \<and>
     (\<forall>h l. used (acc_destroy L h l) = used l) \<and> (\<forall>h m l. used (snd (buddy_subscribe L h m l)) = used l) \<and>
     (\<forall>h l. used (buddy_destroy L h l) = used l)"

datatype reg_op = RegAdd account_settings | RegRemove backend_account_id

text \<open>Accounts are registered and removed; the result counts the registrations that worked.\<close>

fun reg_run :: "'l pjsua \<Rightarrow> reg_op list \<Rightarrow> 'l pjsip_backend \<Rightarrow> nat \<times> 'l pjsip_backend" where
  "reg_run L [] b = (0, b)"
| "reg_run L (RegAdd s # ops) b =
     (case pb_addAccount L b s of
        (i, b1) \<Rightarrow> (case reg_run L ops b1 of (n, b2) \<Rightarrow> (if i = kInvalidAccountId then n else Suc n, b2)))"
| "reg_run L (RegRemove i # ops) b = reg_run L ops (snd (pb_removeAccount L b i))"

lemma add_takes_slot:
  assumes "slots_law L N used" "as_transport s = Tls"
  shows "used (pb_lib (snd (pb_addAccount L b s))) =
      used (pb_lib b) + (if fst (account_transport L s b) = None \<or> \<not> pb_isRunning b then 0 else 1)"
    "fst (pb_addAccount L b s) \<noteq> kInvalidAccountId \<Longrightarrow> pb_isRunning b \<and> fst (account_transport L s b) \<noteq> None"
    "pb_isRunning b \<Longrightarrow> fst (account_transport L s b) \<noteq> None \<Longrightarrow> used (pb_lib b) < N"
proof -
  obtain r l where r: "lib_transportCreate L TpTls (tls_transport (pb_engine b) (\<not> as_allowUntrustedCert s)) (pb_lib b) = (r, l)"
    by fastforce
  have t: "account_transport L s b = (map_option Some r, put_lib l b)"
    using assms(2) r by (simp add: account_transport_def lib_call_def split: option.split)
  have law: "case r of None \<Rightarrow> used l = used (pb_lib b) | Some i \<Rightarrow> used (pb_lib b) < N \<and> used l = used (pb_lib b) + 1"
    using assms(1) r unfolding slots_law_def by (metis (mono_tags, lifting) case_prod_conv option.case_eq_if)
  have create: "acc_create L cfg x = (h, x') \<Longrightarrow> used x' = used x" for cfg x h x'
    using assms(1) unfolding slots_law_def by (metis snd_conv)
  show "used (pb_lib (snd (pb_addAccount L b s))) =
      used (pb_lib b) + (if fst (account_transport L s b) = None \<or> \<not> pb_isRunning b then 0 else 1)"
    using law by (cases r) (auto simp: pb_addAccount_def t Let_def lib_call_def pb_lib_def put_lib_def dest!: create split: option.split prod.split)
  show "fst (pb_addAccount L b s) \<noteq> kInvalidAccountId \<Longrightarrow> pb_isRunning b \<and> fst (account_transport L s b) \<noteq> None"
    by (cases r) (auto simp: pb_addAccount_def t split: if_splits)
  show "pb_isRunning b \<Longrightarrow> fst (account_transport L s b) \<noteq> None \<Longrightarrow> used (pb_lib b) < N"
    using law by (cases r) (auto simp: t)
qed

lemma remove_keeps_slots:
  assumes "slots_law L N used"
  shows "used (pb_lib (snd (pb_removeAccount L b i))) = used (pb_lib b)"
proof -
  have drop: "used (drop_watch L w l) = used l" for w l
    using assms by (simp add: slots_law_def drop_watch_def split: option.split)
  have "used (fold (drop_watch L) ws l) = used l" for ws l
    by (induction ws arbitrary: l) (simp_all add: drop)
  then show ?thesis
    using assms by (auto simp: pb_removeAccount_def Let_def slots_law_def lib_do_def put_lib_def pb_lib_def split: option.split)
qed

text \<open>C35. TLS accounts run out of transports: each registration of one takes a transport of its own and removing the
  account gives none back, so over any run of registrations and removals of TLS accounts no more of them can
  succeed than PJSIP had transports left.\<close>

theorem tls_registrations_bounded:
  assumes "slots_law L N used" "list_all (\<lambda>op. \<forall>s. op = RegAdd s \<longrightarrow> as_transport s = Tls) ops" "used (pb_lib b) \<le> N"
  shows "fst (reg_run L ops b) \<le> N - used (pb_lib b)"
  using assms(2,3)
proof (induction ops arbitrary: b)
  case (Cons op ops)
  show ?case
  proof (cases op)
    case (RegAdd s)
    obtain i b1 where a: "pb_addAccount L b s = (i, b1)" by fastforce
    obtain n b2 where n: "reg_run L ops b1 = (n, b2)" by fastforce
    have tls: "as_transport s = Tls" using Cons.prems(1) RegAdd by simp
    note slot = add_takes_slot[where b = b, OF assms(1) tls, unfolded a]
    have "n \<le> N - used (pb_lib b1)" using Cons.IH[of b1] Cons.prems slot(1,3) n by (auto split: if_splits)
    with slot show ?thesis by (auto simp: RegAdd a n split: if_splits)
  next
    case (RegRemove i)
    then show ?thesis
      using Cons.IH[of "snd (pb_removeAccount L b i)"] Cons.prems remove_keeps_slots[OF assms(1), of b i] by simp
  qed
qed simp

definition desk_booted :: "desk pjsip_backend" where
  "desk_booted = pj_boot desk_lib desk_env 5060 desk_new"

definition tls_settings :: account_settings where
  "tls_settings = settings_of (default_account\<lparr>acc_username := ''al'', acc_domain := ''example.org'', acc_transport := Tls\<rparr>) ''pw''"

text \<open>Every change of the network registers the account again; the sixth time it is refused, and so from then on.\<close>

definition six_networks :: "reg_op list" where
  "six_networks = [RegAdd tls_settings, RegRemove 10001, RegAdd tls_settings, RegRemove 10002, RegAdd tls_settings,
     RegRemove 10003, RegAdd tls_settings, RegRemove 10004, RegAdd tls_settings, RegRemove 10005, RegAdd tls_settings]"

theorem tls_registrations_bounded_witness:
  "fst (reg_run desk_lib six_networks desk_booted) \<le> 5 \<and> pb_accounts (snd (reg_run desk_lib six_networks desk_booted)) = []"
proof
  have "slots_law desk_lib 8 dk_transports"
    by (simp add: slots_law_def desk_lib_def desk_transport_def desk_object_def)
  moreover have "list_all (\<lambda>op. \<forall>s. op = RegAdd s \<longrightarrow> as_transport s = Tls) six_networks"
    by (simp add: six_networks_def tls_settings_def settings_of_def)
  moreover have "dk_transports (pb_lib desk_booted) = 3" by code_simp
  ultimately show "fst (reg_run desk_lib six_networks desk_booted) \<le> 5"
    using tls_registrations_bounded[of desk_lib 8 dk_transports six_networks desk_booted] by simp
  show "pb_accounts (snd (reg_run desk_lib six_networks desk_booted)) = []" by code_simp
qed

subsection \<open>The ringtone\<close>

text \<open>A ringtone that cannot be opened silences the one that worked: after it was tried, the file whose player
  the adapter still believes to have loaded can no longer be played, whatever happens in PJSIP.\<close>

theorem broken_ringtone_silences:
  assumes "ringtone_port b \<noteq> None" "pb_ringtonePath b = good" "good \<noteq> []" "bad \<noteq> []" "bad \<noteq> good"
    and "\<forall>l. fst (player_create L bad True l) = None"
    and "\<forall>h k l. fst (port_stopTransmit L h k l)"
    and "pb_playRingtone L b bad = (ok, b1)"
  shows "\<not> ok \<and> pb_playRingtone L (put_lib l b1) good = (False, put_lib l b1)"
proof -
  obtain h where h: "pb_ringtonePlayer b = Some (Some h)" using assms(1) by (auto simp: ringtone_port_def split: option.splits)
  obtain r1 c where 1: "(if pb_ringtonePlaying b then ringtone_connect L (port_stopTransmit L) b else (True, b)) = (r1, c)" by fastforce
  have c: "r1" "pb_ringtonePlayer c = Some (Some h)" "pb_ringtonePath c = pb_ringtonePath b"
    using 1 h assms(7) by (auto simp: ringtone_connect_def ringtone_port_def lib_call_def split: if_splits prod.splits)
      (metis fst_conv)+
  obtain r l' where 2: "player_create L bad True (media_destroy L h (pb_lib (c\<lparr>pb_ringtonePlaying := False\<rparr>))) = (r, l')" by fastforce
  have "r = None" using assms(6) 2 by (metis fst_conv)
  then have b1: "ok = False" "pb_ringtonePlayer b1 = Some None" "pb_ringtonePath b1 = pb_ringtonePath b" "\<not> pb_ringtonePlaying b1"
    using assms(2,4,5,8) 1 2 c h
    by (auto simp: pb_playRingtone_def ringtone_load_def ringtone_port_def lib_call_def lib_do_def Let_def pb_lib_def put_lib_def)
  then show ?thesis
    using assms(2,3) by (simp add: pb_playRingtone_def ringtone_load_def ringtone_connect_def ringtone_port_def put_lib_def)
qed

definition desk_ringing :: "desk pjsip_backend" where
  "desk_ringing = snd (pb_playRingtone desk_lib desk_booted ''ring.wav'')"

theorem broken_ringtone_silences_witness:
  "fst (pb_playRingtone desk_lib desk_booted ''ring.wav'') \<and>
   \<not> fst (pb_playRingtone desk_lib (put_lib desk_new (snd (pb_playRingtone desk_lib desk_ringing ''?.wav''))) ''ring.wav'')"
proof
  show "fst (pb_playRingtone desk_lib desk_booted ''ring.wav'')" by code_simp
  have "ringtone_port desk_ringing = Some 1" by code_simp
  then have r: "ringtone_port desk_ringing \<noteq> None" by simp
  have path: "pb_ringtonePath desk_ringing = ''ring.wav''" by code_simp
  obtain ok b1 where p: "pb_playRingtone desk_lib desk_ringing ''?.wav'' = (ok, b1)" by fastforce
  have "pb_playRingtone desk_lib (put_lib desk_new b1) ''ring.wav'' = (False, put_lib desk_new b1)"
    using broken_ringtone_silences[OF r path _ _ _ _ _ p] by (simp add: desk_lib_def desk_file_def)
  then show "\<not> fst (pb_playRingtone desk_lib (put_lib desk_new (snd (pb_playRingtone desk_lib desk_ringing ''?.wav''))) ''ring.wav'')"
    by (simp add: p)
qed

subsection \<open>The quality of a call\<close>

text \<open>What is taken off for loss, jitter and delay.\<close>

definition r_penalty :: "rat \<Rightarrow> int \<Rightarrow> int \<Rightarrow> rat" where
  "r_penalty l j t = (if l > 0 then l * (25/10) else 0) + (if j > 30 then of_int (j - 30) * (4/10) else 0) +
     (if t > 150 then of_int (t - 150) * (24/1000) else 0)"

lemma r_factor_penalty: "r_factor l j t = (if 932/10 - r_penalty l j t < 0 then 0 else if 932/10 - r_penalty l j t > 100 then 100 else 932/10 - r_penalty l j t)"
  by (simp add: r_factor_def r_penalty_def Let_def diff_diff_eq)

lemma r_penalty_mono:
  assumes "l \<le> l'" "j \<le> j'" "t \<le> t'"
  shows "r_penalty l j t \<le> r_penalty l' j' t'"
  unfolding r_penalty_def using assms by (intro add_mono) auto

lemma r_penalty_nonneg: "0 \<le> r_penalty l j t"
  unfolding r_penalty_def by (intro add_nonneg_nonneg) auto

lemma r_factor_range: "0 \<le> r_factor l j t" "r_factor l j t \<le> 932/10"
  using r_penalty_nonneg[of l j t] by (simp_all add: r_factor_penalty)

lemma r_factor_mono: "l \<le> l' \<Longrightarrow> j \<le> j' \<Longrightarrow> t \<le> t' \<Longrightarrow> r_factor l' j' t' \<le> r_factor l j t"
  using r_penalty_mono[of l l' j j' t t'] r_penalty_nonneg[of l j t] by (simp add: r_factor_penalty)

lemma mos_poly: "1000000 * mos_of r = 1000000 + r * (1120 * r - 7000 - 7 * (r * r))"
  by (simp add: mos_of_def algebra_simps add_divide_distrib diff_divide_distrib)

text \<open>The difference of two estimates, as a multiple of the difference of the factors.\<close>

lemma mos_diff: "1000000 * mos_of r - 1000000 * mos_of s = (r - s) * (1120 * (r + s) - 7000 - 7 * (r * r + r * s + s * s))"
  unfolding mos_poly by (simp add: algebra_simps)

lemma mos_mono:
  assumes "4 \<le> s" "s \<le> r" "r \<le> 932/10"
  shows "mos_of s \<le> mos_of r"
proof -
  have sq: "10 * (x * x) \<le> 972 * x - 3728" if "4 \<le> x" "x \<le> 932/10" for x :: rat
  proof -
    have "0 \<le> (x - 4) * (932 - 10 * x)" using that by simp
    then show ?thesis by (simp add: algebra_simps)
  qed
  have rs: "10 * (r * r) \<le> 972 * r - 3728" "10 * (s * s) \<le> 972 * s - 3728" using sq[of r] sq[of s] assms by simp_all
  have "0 \<le> (r - s) * (r - s)" by simp
  then have "2 * (r * s) \<le> r * r + s * s" by (simp add: algebra_simps)
  with rs have "0 \<le> 1120 * (r + s) - 7000 - 7 * (r * r + r * s + s * s)" using assms by (simp add: algebra_simps)
  then have "0 \<le> 1000000 * mos_of r - 1000000 * mos_of s" unfolding mos_diff using assms by (intro mult_nonneg_nonneg) simp_all
  then show ?thesis by simp
qed

lemma mos_low:
  assumes "0 \<le> r" "r \<le> 4"
  shows "98/100 \<le> mos_of r" "mos_of r \<le> 1"
proof -
  have sq: "r * r \<le> 4 * r" "0 \<le> r * r" using assms by (simp_all add: mult_right_mono)
  then have "1120 * r - 7000 - 7 * (r * r) \<le> 0" using assms by linarith
  then have "r * (1120 * r - 7000 - 7 * (r * r)) \<le> 0" using assms by (simp add: mult_nonneg_nonpos)
  then show "mos_of r \<le> 1" using mos_poly[of r] by simp
  have "r * (1000 * r - 7000) \<le> r * (1120 * r - 7000 - 7 * (r * r))"
  proof (rule mult_left_mono)
    show "1000 * r - 7000 \<le> 1120 * r - 7000 - 7 * (r * r)" using assms sq by linarith
  qed (rule assms(1))
  moreover have "0 \<le> (2 * r - 7) * (2 * r - 7)" by simp
  then have "-20000 \<le> r * (1000 * r - 7000)" by (simp add: algebra_simps)
  ultimately show "98/100 \<le> mos_of r" using mos_poly[of r] by simp
qed

definition rtcp :: "int \<Rightarrow> int \<Rightarrow> int \<Rightarrow> int \<Rightarrow> rtcp_stat" where
  "rtcp pkt loss jitter rtt = \<lparr>rs_rxPkt = pkt, rs_rxLoss = loss, rs_txPkt = 0, rs_txLoss = 0, rs_jitterUsec = jitter, rs_rttUsec = rtt\<rparr>"

text \<open>The quality estimate of a call lies between 0.98 and 4.42 whatever PJSIP reports: the five of the scale is
  never reached and a bad line falls below its one.  While the factor behind it is at least four, a call with
  more loss, jitter and delay is never rated better.  A call on which no packet was ever seen is rated 4.4.\<close>

theorem quality_bounds:
  "98/100 \<le> ss_mos (stats_of s) \<and> ss_mos (stats_of s) \<le> 442/100 \<and>
   (loss_pct s \<le> loss_pct s' \<and> rs_jitterUsec s \<le> rs_jitterUsec s' \<and> rs_rttUsec s \<le> rs_rttUsec s' \<and>
    4 \<le> r_factor (loss_pct s') (rs_jitterUsec s' div 1000) (rs_rttUsec s' div 1000) \<longrightarrow> ss_mos (stats_of s') \<le> ss_mos (stats_of s)) \<and>
   ss_mos (stats_of (rtcp 64 36 0 0)) < 1 \<and> 44/10 \<le> ss_mos (stats_of (rtcp 0 0 0 0))"
proof (intro conjI impI)
  let ?f = "\<lambda>x. r_factor (loss_pct x) (rs_jitterUsec x div 1000) (rs_rttUsec x div 1000)"
  have mos: "ss_mos (stats_of x) = mos_of (?f x)" for x by (simp add: stats_of_def Let_def)
  have top: "mos_of (932/10) \<le> 442/100" "98/100 \<le> mos_of 4" by (simp_all add: mos_of_def)
  have range: "0 \<le> ?f s" "?f s \<le> 932/10" by (rule r_factor_range)+
  show "98/100 \<le> ss_mos (stats_of s)"
    unfolding mos using mos_low(1)[of "?f s"] mos_mono[of 4 "?f s"] top(2) range by (cases "?f s \<le> 4") auto
  show "ss_mos (stats_of s) \<le> 442/100"
    unfolding mos using mos_low(2)[of "?f s"] mos_mono[of "?f s" "932/10"] top(1) range by (cases "?f s \<le> 4") auto
  assume a: "loss_pct s \<le> loss_pct s' \<and> rs_jitterUsec s \<le> rs_jitterUsec s' \<and> rs_rttUsec s \<le> rs_rttUsec s' \<and> 4 \<le> ?f s'"
  then have "?f s' \<le> ?f s" by (intro r_factor_mono) (simp_all add: zdiv_mono1)
  then show "ss_mos (stats_of s') \<le> ss_mos (stats_of s)" unfolding mos using mos_mono range(2) a by blast
next
  show "ss_mos (stats_of (rtcp 64 36 0 0)) < 1"
    by (simp add: stats_of_def rtcp_def loss_pct_def r_factor_def mos_of_def Let_def)
  show "44/10 \<le> ss_mos (stats_of (rtcp 0 0 0 0))"
    by (simp add: stats_of_def rtcp_def loss_pct_def r_factor_def mos_of_def Let_def)
qed

theorem quality_bounds_witness: "ss_mos (stats_of (rtcp 90 10 40000 0)) \<le> ss_mos (stats_of (rtcp 100 0 0 0))"
proof -
  have "4 \<le> r_factor (loss_pct (rtcp 90 10 40000 0)) (rs_jitterUsec (rtcp 90 10 40000 0) div 1000) (rs_rttUsec (rtcp 90 10 40000 0) div 1000)"
    "loss_pct (rtcp 100 0 0 0) \<le> loss_pct (rtcp 90 10 40000 0)"
    by (simp_all add: rtcp_def loss_pct_def r_factor_def Let_def)
  then show ?thesis
    using quality_bounds[of "rtcp 100 0 0 0" "rtcp 90 10 40000 0"] by (simp add: rtcp_def)
qed

end
