(* ===== verification/KeychainFile.thy ===== *)
theory KeychainFile imports BackendIf FakeBackend begin

text \<open>
  \<open>core/platform/Keychain_file.{h,cpp}\<close>, the keychain used on Linux: a JSON object of passwords, encrypted with a
  key derived from a random key in a file of its own and a salt in front of the ciphertext.  OpenSSL and Qt's
  JSON are parameters; files, random bytes and whether a read or a write works are the state and its plan.
\<close>

subsection \<open>Cryptography and the machine\<close>

text \<open>
  HKDF-SHA256 of a salt and a key, AES-256-GCM (ciphertext and tag; opening checks the tag), and JSON.
  \<open>None\<close> is a call that fails, or a text that is no object.
\<close>

record crypto =
  cr_hkdf :: "string \<Rightarrow> string \<Rightarrow> string option"
  cr_seal :: "string \<Rightarrow> string \<Rightarrow> string \<Rightarrow> (string \<times> string) option"
  cr_open :: "string \<Rightarrow> string \<Rightarrow> string \<Rightarrow> string \<Rightarrow> string option"
  cr_toJson :: "(string \<times> string) list \<Rightarrow> string"
  cr_fromJson :: "string \<Rightarrow> (string \<times> string) list option"

definition kSaltSize :: nat where "kSaltSize = 16"
definition kIvSize :: nat where "kIvSize = 12"
definition kTagSize :: nat where "kTagSize = 16"
definition kKeySize :: nat where "kKeySize = 32"

definition deriveKey :: "crypto \<Rightarrow> string \<Rightarrow> string \<Rightarrow> string option" where
  "deriveKey C salt ikm = (if ikm = [] then None else cr_hkdf C salt ikm)"

text \<open>An empty result is a failure.\<close>

definition fk_encrypt :: "crypto \<Rightarrow> string \<Rightarrow> string \<Rightarrow> string \<Rightarrow> string" where
  "fk_encrypt C key plaintext iv = (case cr_seal C key plaintext iv of None \<Rightarrow> [] | Some (ct, tag) \<Rightarrow> ct @ tag)"

definition fk_decrypt :: "crypto \<Rightarrow> string \<Rightarrow> string \<Rightarrow> string \<Rightarrow> string option" where
  "fk_decrypt C key ciphertext iv =
     (if length ciphertext < kTagSize then None
      else let n = length ciphertext - kTagSize in cr_open C key (take n ciphertext) (drop n ciphertext) iv)"

text \<open>
  What the machine does in one step (the master key, reading the passwords, writing them): whether reads work,
  random bytes, and whether the file is replaced, which happens as a whole or not at all.
\<close>

record io =
  io_readKey :: bool
  io_read :: bool
  io_key :: "string option"
  io_salt :: "string option"
  io_iv :: "string option"
  io_saveKey :: bool
  io_save :: bool

record file_keychain =
  fk_path :: string
  fk_files :: "string \<Rightarrow> string option"
  fk_plan :: "nat \<Rightarrow> io"
  fk_now :: nat
  fk_store :: "(string \<times> string) list"
  fk_salt :: string
  fk_masterKey :: string

definition fk_io :: "file_keychain \<Rightarrow> io" where
  "fk_io s = fk_plan s (fk_now s)"

definition fk_tick :: "file_keychain \<Rightarrow> file_keychain" where
  "fk_tick s = s\<lparr>fk_now := Suc (fk_now s)\<rparr>"

lemma fk_tick_simps [simp]:
  "fk_path (fk_tick s) = fk_path s" "fk_files (fk_tick s) = fk_files s" "fk_plan (fk_tick s) = fk_plan s"
  "fk_store (fk_tick s) = fk_store s" "fk_salt (fk_tick s) = fk_salt s" "fk_masterKey (fk_tick s) = fk_masterKey s"
  by (simp_all add: fk_tick_def)

definition fk_save :: "string \<Rightarrow> string \<Rightarrow> file_keychain \<Rightarrow> file_keychain" where
  "fk_save path content s = s\<lparr>fk_files := (fk_files s)(path \<mapsto> content)\<rparr>"

definition fk_new :: "string \<Rightarrow> (string \<Rightarrow> string option) \<Rightarrow> (nat \<Rightarrow> io) \<Rightarrow> file_keychain" where
  "fk_new path files plan = \<lparr>fk_path = path, fk_files = files, fk_plan = plan, fk_now = 0, fk_store = [], fk_salt = [], fk_masterKey = []\<rparr>"

definition put_pw :: "string \<Rightarrow> string \<Rightarrow> (string \<times> string) list \<Rightarrow> (string \<times> string) list" where
  "put_pw r v m = (r, v) # filter (\<lambda>p. fst p \<noteq> r) m"

definition del_pw :: "string \<Rightarrow> (string \<times> string) list \<Rightarrow> (string \<times> string) list" where
  "del_pw r m = filter (\<lambda>p. fst p \<noteq> r) m"

subsection \<open>Operations\<close>

definition keyPath :: "file_keychain \<Rightarrow> string" where
  "keyPath s = fk_path s @ ''.key''"

definition loadOrCreateMasterKey :: "file_keychain \<Rightarrow> bool \<times> file_keychain" where
  "loadOrCreateMasterKey s =
     (case fk_files s (keyPath s) of
        Some raw \<Rightarrow>
          if \<not> io_readKey (fk_io s) \<or> length raw \<noteq> kKeySize then (False, fk_tick s) else (True, (fk_tick s)\<lparr>fk_masterKey := raw\<rparr>)
      | None \<Rightarrow>
          (case io_key (fk_io s) of
             None \<Rightarrow> (False, fk_tick s)
           | Some key \<Rightarrow>
               if io_saveKey (fk_io s) then (True, fk_save (keyPath s) key ((fk_tick s)\<lparr>fk_masterKey := key\<rparr>)) else (False, fk_tick s)))"

definition persist :: "crypto \<Rightarrow> file_keychain \<Rightarrow> bool \<times> file_keychain" where
  "persist C s =
     (case (io_iv (fk_io s), deriveKey C (fk_salt s) (fk_masterKey s)) of
        (Some iv, Some key) \<Rightarrow>
          (let ct = fk_encrypt C key (cr_toJson C (fk_store s)) iv in
           if ct = [] \<or> \<not> io_save (fk_io s) then (False, fk_tick s)
           else (True, fk_save (fk_path s) (fk_salt s @ iv @ ct) (fk_tick s)))
      | _ \<Rightarrow> (False, fk_tick s))"

definition fk_open :: "crypto \<Rightarrow> file_keychain \<Rightarrow> bool \<times> file_keychain" where
  "fk_open C s =
     (case loadOrCreateMasterKey s of
        (False, s1) \<Rightarrow> (False, s1)
      | (True, s1) \<Rightarrow>
          (case fk_files s1 (fk_path s1) of
             None \<Rightarrow>
               (case io_salt (fk_io s1) of
                  None \<Rightarrow> (False, s1\<lparr>fk_salt := replicate kSaltSize (CHR 0x00)\<rparr>)
                | Some salt \<Rightarrow> persist C (s1\<lparr>fk_salt := salt\<rparr>))
           | Some blob \<Rightarrow>
               if \<not> io_read (fk_io s1) \<or> length blob < kSaltSize + kIvSize + kTagSize then (False, fk_tick s1)
               else
                 (let s2 = (fk_tick s1)\<lparr>fk_salt := take kSaltSize blob\<rparr>; iv = take kIvSize (drop kSaltSize blob);
                      ct = drop (kSaltSize + kIvSize) blob
                  in case deriveKey C (fk_salt s2) (fk_masterKey s2) of
                       None \<Rightarrow> (False, s2)
                     | Some key \<Rightarrow>
                         (case fk_decrypt C key ct iv of
                            None \<Rightarrow> (False, s2)
                          | Some plain \<Rightarrow>
                              (case cr_fromJson C plain of
                                 None \<Rightarrow> (False, s2) | Some obj \<Rightarrow> (True, s2\<lparr>fk_store := obj\<rparr>))))))"

definition fk_get :: "file_keychain \<Rightarrow> string \<Rightarrow> string option" where
  "fk_get s r = map_of (fk_store s) r"

text \<open>The store in memory is changed first, and put back when it cannot be written.\<close>

definition fk_set :: "crypto \<Rightarrow> file_keychain \<Rightarrow> string \<Rightarrow> string \<Rightarrow> bool \<times> file_keychain" where
  "fk_set C s r pw =
     (case persist C (s\<lparr>fk_store := put_pw r pw (fk_store s)\<rparr>) of
        (True, s1) \<Rightarrow> (True, s1)
      | (False, s1) \<Rightarrow>
          (False, s1\<lparr>fk_store := (case map_of (fk_store s) r of Some previous \<Rightarrow> put_pw r previous (fk_store s1)
                                                             | None \<Rightarrow> del_pw r (fk_store s1))\<rparr>))"

definition fk_erase :: "crypto \<Rightarrow> file_keychain \<Rightarrow> string \<Rightarrow> bool \<times> file_keychain" where
  "fk_erase C s r =
     (case map_of (fk_store s) r of
        None \<Rightarrow> (False, s)
      | Some previous \<Rightarrow>
          (case persist C (s\<lparr>fk_store := del_pw r (fk_store s)\<rparr>) of
             (True, s1) \<Rightarrow> (True, s1)
           | (False, s1) \<Rightarrow> (False, s1\<lparr>fk_store := put_pw r previous (fk_store s1)\<rparr>)))"

definition FileK :: "crypto \<Rightarrow> file_keychain ikeychain" where
  "FileK C = \<lparr>kc_get = fk_get, kc_set = fk_set C, kc_erase = fk_erase C\<rparr>"

text \<open>\<open>Keychain_factory.cpp\<close>: a keychain that could not be opened is used all the same.\<close>

definition makeKeychain :: "crypto \<Rightarrow> string \<Rightarrow> (string \<Rightarrow> string option) \<Rightarrow> (nat \<Rightarrow> io) \<Rightarrow> file_keychain" where
  "makeKeychain C fallbackPath files plan = snd (fk_open C (fk_new fallbackPath files plan))"

subsection \<open>It keeps the contract of a keychain\<close>

lemma map_of_put_pw [simp]: "map_of (put_pw r v m) j = (if j = r then Some v else map_of m j)"
  by (induction m) (auto simp: put_pw_def)

lemma map_of_del_pw [simp]: "map_of (del_pw r m) j = (if j = r then None else map_of m j)"
  by (induction m) (auto simp: del_pw_def)

lemma persist_frame:
  assumes "persist C s = (ok, s1)"
  shows "fk_store s1 = fk_store s" "fk_salt s1 = fk_salt s" "fk_masterKey s1 = fk_masterKey s" "fk_path s1 = fk_path s"
    "fk_plan s1 = fk_plan s" "\<not> ok \<Longrightarrow> fk_files s1 = fk_files s"
  using assms by (auto simp: persist_def fk_tick_def fk_save_def Let_def split: option.splits if_splits)

interpretation file_keychain: keychain "FileK C" "\<lambda>_. True" for C
proof unfold_locales
  fix k key v r k' assume "kc_set (FileK C) k key v = (r, k')"
  then show "True \<and> (\<forall>j. kc_get (FileK C) k' j = (if r \<and> j = key then Some v else kc_get (FileK C) k j))"
    by (auto simp: FileK_def fk_set_def fk_get_def dest!: persist_frame(1) split: prod.splits bool.splits option.splits)
next
  fix k key r k' assume "kc_erase (FileK C) k key = (r, k')"
  then show "True \<and> (\<forall>j. kc_get (FileK C) k' j = (if r \<and> j = key then None else kc_get (FileK C) k j))"
    by (auto simp: FileK_def fk_erase_def fk_get_def dest!: persist_frame(1) split: prod.splits bool.splits option.splits)
qed

subsection \<open>What is on disk\<close>

text \<open>
  What is relied on: opening undoes sealing, tags have their size, JSON is read back; and random bytes come in
  the number asked for.
\<close>

definition crypto_law :: "crypto \<Rightarrow> bool" where
  "crypto_law C \<longleftrightarrow>
     (\<forall>k p iv ct tag. cr_seal C k p iv = Some (ct, tag) \<longrightarrow> length tag = kTagSize \<and> cr_open C k ct tag iv = Some p) \<and>
     (\<forall>m. \<exists>m'. cr_fromJson C (cr_toJson C m) = Some m' \<and> map_of m' = map_of m)"

definition random_law :: "(nat \<Rightarrow> io) \<Rightarrow> bool" where
  "random_law plan \<longleftrightarrow>
     (\<forall>n x. (io_key (plan n) = Some x \<longrightarrow> length x = kKeySize) \<and> (io_salt (plan n) = Some x \<longrightarrow> length x = kSaltSize) \<and>
            (io_iv (plan n) = Some x \<longrightarrow> length x = kIvSize))"

text \<open>The passwords a blob holds under a master key.\<close>

definition blob_store :: "crypto \<Rightarrow> string \<Rightarrow> string \<Rightarrow> (string \<times> string) list option" where
  "blob_store C master blob =
     (if length blob < kSaltSize + kIvSize + kTagSize then None
      else Option.bind (deriveKey C (take kSaltSize blob) master)
             (\<lambda>key. Option.bind (fk_decrypt C key (drop (kSaltSize + kIvSize) blob) (take kIvSize (drop kSaltSize blob))) (cr_fromJson C)))"

lemma fk_open_stored:
  assumes "fk_files s (keyPath s) = Some raw" "length raw = kKeySize" "io_readKey (fk_io s)" "io_read (fk_io (fk_tick s))"
    and "fk_files s (fk_path s) = Some blob" "blob_store C raw blob = Some m"
  shows "\<exists>s'. fk_open C s = (True, s') \<and> fk_store s' = m"
  using assms
  by (auto simp: fk_open_def loadOrCreateMasterKey_def blob_store_def Let_def fk_io_def fk_tick_def Option.bind_eq_Some_conv split: if_splits)

text \<open>The files hold the store: the key file the master key, the keychain file the passwords.\<close>

definition on_disk :: "crypto \<Rightarrow> file_keychain \<Rightarrow> bool" where
  "on_disk C s \<longleftrightarrow> fk_files s (keyPath s) = Some (fk_masterKey s) \<and> length (fk_masterKey s) = kKeySize \<and>
     length (fk_salt s) = kSaltSize \<and> random_law (fk_plan s) \<and>
     (\<exists>blob m. fk_files s (fk_path s) = Some blob \<and> blob_store C (fk_masterKey s) blob = Some m \<and> map_of m = map_of (fk_store s))"

lemma persist_writes:
  assumes "crypto_law C" "random_law (fk_plan s)" "length (fk_salt s) = kSaltSize" "persist C s = (True, s1)"
  shows "\<exists>blob m. fk_files s1 = (fk_files s)(fk_path s \<mapsto> blob) \<and> blob_store C (fk_masterKey s) blob = Some m \<and> map_of m = map_of (fk_store s)"
proof -
  from assms(4) obtain iv key where p: "io_iv (fk_io s) = Some iv" "deriveKey C (fk_salt s) (fk_masterKey s) = Some key"
    "fk_encrypt C key (cr_toJson C (fk_store s)) iv \<noteq> []"
    "fk_files s1 = (fk_files s)(fk_path s \<mapsto> fk_salt s @ iv @ fk_encrypt C key (cr_toJson C (fk_store s)) iv)"
    by (auto simp: persist_def Let_def fk_tick_def fk_save_def split: option.splits if_splits)
  obtain ct tag where seal: "cr_seal C key (cr_toJson C (fk_store s)) iv = Some (ct, tag)"
    using p(3) by (auto simp: fk_encrypt_def split: option.splits)
  have tag: "length tag = kTagSize" "cr_open C key ct tag iv = Some (cr_toJson C (fk_store s))"
    using assms(1) seal unfolding crypto_law_def by blast+
  have iv: "length iv = kIvSize" using assms(2) p(1) by (simp add: random_law_def fk_io_def)
  obtain m where m: "cr_fromJson C (cr_toJson C (fk_store s)) = Some m" "map_of m = map_of (fk_store s)"
    using assms(1) unfolding crypto_law_def by blast
  have "blob_store C (fk_masterKey s) (fk_salt s @ iv @ ct @ tag) = Some m"
    using assms(3) iv tag m p(2) by (simp add: blob_store_def fk_decrypt_def Let_def)
  then show ?thesis using p(4) seal m(2) by (auto simp: fk_encrypt_def)
qed

lemma persist_on_disk:
  assumes "crypto_law C" "persist C s = (True, s1)" "fk_files s (keyPath s) = Some (fk_masterKey s)"
    "length (fk_masterKey s) = kKeySize" "length (fk_salt s) = kSaltSize" "random_law (fk_plan s)"
  shows "on_disk C s1"
proof -
  have "keyPath s \<noteq> fk_path s" by (simp add: keyPath_def)
  with persist_writes[OF assms(1,6,5,2)] persist_frame[OF assms(2)] assms(3-6) show ?thesis
    by (auto simp: on_disk_def keyPath_def)
qed

lemma failed_write_on_disk:
  assumes "on_disk C s" "fk_files s1 = fk_files s" "fk_path s1 = fk_path s" "fk_masterKey s1 = fk_masterKey s"
    "fk_salt s1 = fk_salt s" "fk_plan s1 = fk_plan s" "map_of (fk_store s1) = map_of (fk_store s)"
  shows "on_disk C s1"
  using assms by (simp add: on_disk_def keyPath_def)

lemma open_on_disk:
  assumes "crypto_law C" "random_law (fk_plan s)" "fk_open C s = (True, s1)"
  shows "on_disk C s1"
proof -
  obtain s0 where k: "loadOrCreateMasterKey s = (True, s0)" using assms(3) by (auto simp: fk_open_def split: prod.splits bool.splits)
  have key: "fk_files s0 (keyPath s0) = Some (fk_masterKey s0)" "length (fk_masterKey s0) = kKeySize" "fk_plan s0 = fk_plan s"
    using k assms(2) by (auto simp: loadOrCreateMasterKey_def fk_save_def fk_tick_def keyPath_def random_law_def fk_io_def split: option.splits if_splits)
  show ?thesis
  proof (cases "fk_files s0 (fk_path s0)")
    case None
    then obtain salt where s: "io_salt (fk_io s0) = Some salt" "persist C (s0\<lparr>fk_salt := salt\<rparr>) = (True, s1)"
      using assms(3) k by (auto simp: fk_open_def split: option.splits)
    have "length salt = kSaltSize" using s(1) assms(2) key(3) by (simp add: random_law_def fk_io_def)
    then show ?thesis using persist_on_disk[OF assms(1) s(2)] key assms(2) by (simp add: keyPath_def)
  next
    case (Some blob)
    then have "\<exists>m. blob_store C (fk_masterKey s0) blob = Some m \<and> s1 = (fk_tick s0)\<lparr>fk_salt := take kSaltSize blob, fk_store := m\<rparr> \<and>
        kSaltSize \<le> length blob"
      using assms(3) k by (auto simp: fk_open_def blob_store_def Let_def split: option.splits if_splits)
    then show ?thesis using Some key assms(2) by (auto simp: on_disk_def keyPath_def fk_tick_def)
  qed
qed

datatype fk_op = FkSet string string | FkErase string

fun fk_apply :: "crypto \<Rightarrow> fk_op \<Rightarrow> file_keychain \<Rightarrow> file_keychain" where
  "fk_apply C (FkSet r pw) s = snd (fk_set C s r pw)"
| "fk_apply C (FkErase r) s = snd (fk_erase C s r)"

lemma apply_on_disk:
  assumes "crypto_law C" "on_disk C s"
  shows "on_disk C (fk_apply C op s)"
proof -
  have disk: "fk_files s (keyPath s) = Some (fk_masterKey s)" "length (fk_masterKey s) = kKeySize"
    "length (fk_salt s) = kSaltSize" "random_law (fk_plan s)"
    using assms(2) by (simp_all add: on_disk_def)
  have ok: "on_disk C s1" if "persist C (s\<lparr>fk_store := m\<rparr>) = (True, s1)" for m s1
    using persist_on_disk[OF assms(1) that] disk by (simp add: keyPath_def)
  have bad: "on_disk C (s1\<lparr>fk_store := m'\<rparr>)" if "persist C (s\<lparr>fk_store := m\<rparr>) = (False, s1)" "map_of m' = map_of (fk_store s)" for m m' s1
    using failed_write_on_disk[OF assms(2)] persist_frame[OF that(1)] that(2) by simp
  show ?thesis
  proof (cases op)
    case (FkSet r pw)
    obtain w s1 where p: "persist C (s\<lparr>fk_store := put_pw r pw (fk_store s)\<rparr>) = (w, s1)" by fastforce
    have "fk_store s1 = put_pw r pw (fk_store s)" using persist_frame(1)[OF p] by simp
    with ok bad p show ?thesis
      by (cases w) (auto simp: FkSet fk_set_def fun_eq_iff split: option.split intro!: bad)
  next
    case (FkErase r)
    obtain w s1 where p: "persist C (s\<lparr>fk_store := del_pw r (fk_store s)\<rparr>) = (w, s1)" by fastforce
    have "fk_store s1 = del_pw r (fk_store s)" using persist_frame(1)[OF p] by simp
    with ok p show ?thesis
      by (cases w) (auto simp: FkErase fk_erase_def fun_eq_iff assms(2) split: option.split intro!: bad)
  qed
qed

text \<open>The program starts again: the same files, a new object.\<close>

definition fk_restart :: "(nat \<Rightarrow> io) \<Rightarrow> file_keychain \<Rightarrow> file_keychain" where
  "fk_restart plan s = fk_new (fk_path s) (fk_files s) plan"

subsection \<open>A machine and a cipher for the examples\<close>

text \<open>Plain text with a tag made of key and nonce; an object as its strings one after the other, characters marked.\<close>

fun toy_string :: "string \<Rightarrow> string" where
  "toy_string [] = ''.''"
| "toy_string (c # s) = CHR ''c'' # c # toy_string s"

fun toy_read :: "string \<Rightarrow> string \<times> string" where
  "toy_read (m # c # s) = (if m = CHR ''c'' then (case toy_read s of (t, r) \<Rightarrow> (c # t, r)) else ([], c # s))"
| "toy_read [m] = ([], [])"
| "toy_read [] = ([], [])"

fun toy_toJson :: "(string \<times> string) list \<Rightarrow> string" where
  "toy_toJson [] = []"
| "toy_toJson ((k, v) # m) = toy_string k @ toy_string v @ toy_toJson m"

fun toy_parse :: "nat \<Rightarrow> string \<Rightarrow> (string \<times> string) list" where
  "toy_parse 0 s = []"
| "toy_parse (Suc n) s = (if s = [] then [] else (case toy_read s of (k, r) \<Rightarrow> case toy_read r of (v, r') \<Rightarrow> (k, v) # toy_parse n r'))"

lemma toy_read_string: "toy_read (toy_string s @ r) = (s, r)"
proof (induction s)
  case Nil
  show ?case by (cases r) simp_all
qed simp

lemma toy_string_ne: "toy_string s \<noteq> []"
  by (cases s) simp_all

lemma toy_parse_toJson: "length m \<le> n \<Longrightarrow> toy_parse n (toy_toJson m) = m"
proof (induction m arbitrary: n)
  case (Cons p m)
  obtain k v where p: "p = (k, v)" by fastforce
  from Cons show ?case by (cases n) (simp_all add: p toy_read_string toy_string_ne)
next
  case Nil
  show ?case by (cases n) simp_all
qed

lemma toy_toJson_length: "length m \<le> length (toy_toJson m)"
proof (induction m)
  case (Cons p m)
  have "Suc 0 \<le> length (toy_string (fst p))" using toy_string_ne[of "fst p"] by (cases "toy_string (fst p)") simp_all
  with Cons show ?case by (cases p) simp
qed simp

definition toy_tag :: "string \<Rightarrow> string \<Rightarrow> string" where
  "toy_tag key iv = take kTagSize (key @ iv @ replicate kTagSize (CHR ''t''))"

definition toy_crypto :: crypto where
  "toy_crypto = \<lparr>
     cr_hkdf = (\<lambda>salt ikm. Some (take 8 salt @ take 8 ikm)),
     cr_seal = (\<lambda>key p iv. Some (p, toy_tag key iv)),
     cr_open = (\<lambda>key ct tag iv. if tag = toy_tag key iv then Some ct else None),
     cr_toJson = toy_toJson, cr_fromJson = (\<lambda>s. Some (toy_parse (length s) s))\<rparr>"

lemma toy_crypto_law: "crypto_law toy_crypto"
  by (auto simp: crypto_law_def toy_crypto_def toy_tag_def kTagSize_def toy_parse_toJson toy_toJson_length)

definition good_io :: io where
  "good_io = \<lparr>io_readKey = True, io_read = True, io_key = Some (replicate 32 (CHR ''k'')), io_salt = Some (replicate 16 (CHR ''s'')),
     io_iv = Some (replicate 12 (CHR ''n'')), io_saveKey = True, io_save = True\<rparr>"

lemma good_random: "random_law (\<lambda>n. good_io)" "random_law (\<lambda>n. if n = 3 then good_io\<lparr>io_save := False\<rparr> else good_io)"
  by (auto simp: random_law_def good_io_def kKeySize_def kSaltSize_def kIvSize_def)

definition toy_open :: "bool \<times> file_keychain" where
  "toy_open = fk_open toy_crypto (fk_new ''kc'' (\<lambda>_. None) (\<lambda>n. if n = 3 then good_io\<lparr>io_save := False\<rparr> else good_io))"

text \<open>C8. Passwords survive a restart: after any sequence of storing and erasing on a keychain that could be opened,
  whatever writes failed and whatever random bytes ran out, the program finds the next time exactly the
  passwords it had in memory, as long as its files can be read.\<close>

theorem passwords_survive_restart:
  assumes "crypto_law C" "random_law plan" "fk_open C (fk_new path files plan) = (True, s)"
    and "io_readKey (plan' 0)" "io_read (plan' 1)"
  shows "\<exists>s'. fk_open C (fk_restart plan' (fold (fk_apply C) ops s)) = (True, s') \<and>
    (\<forall>r. fk_get s' r = fk_get (fold (fk_apply C) ops s) r)"
proof -
  have "on_disk C s" using open_on_disk[OF assms(1) _ assms(3)] assms(2) by (simp add: fk_new_def)
  then have "on_disk C (fold (fk_apply C) ops s)"
    by (induction ops arbitrary: s) (simp_all add: apply_on_disk[OF assms(1)])
  then obtain blob m where d: "fk_files (fold (fk_apply C) ops s) (keyPath (fold (fk_apply C) ops s)) = Some (fk_masterKey (fold (fk_apply C) ops s))"
    "length (fk_masterKey (fold (fk_apply C) ops s)) = kKeySize"
    "fk_files (fold (fk_apply C) ops s) (fk_path (fold (fk_apply C) ops s)) = Some blob"
    "blob_store C (fk_masterKey (fold (fk_apply C) ops s)) blob = Some m" "map_of m = map_of (fk_store (fold (fk_apply C) ops s))"
    by (auto simp: on_disk_def)
  have "\<exists>s'. fk_open C (fk_restart plan' (fold (fk_apply C) ops s)) = (True, s') \<and> fk_store s' = m"
    by (rule fk_open_stored) (use d assms(4,5) in \<open>simp_all add: fk_restart_def fk_new_def keyPath_def fk_io_def fk_tick_def\<close>)
  then show ?thesis using d(5) by (auto simp: fk_get_def)
qed

theorem passwords_survive_restart_witness:
  "fk_get (snd toy_open) ''a'' = None \<and>
   (\<exists>s'. fk_open toy_crypto (fk_restart (\<lambda>n. good_io) (fold (fk_apply toy_crypto) [FkSet ''a'' ''1'', FkSet ''a'' ''2'', FkSet ''b'' ''3''] (snd toy_open))) = (True, s') \<and>
      fk_get s' ''a'' = Some ''1'')"
proof
  show "fk_get (snd toy_open) ''a'' = None" by code_simp
  have "fst toy_open" by code_simp
  then have o: "toy_open = (True, snd toy_open)" by (metis prod.collapse)
  let ?s = "fold (fk_apply toy_crypto) [FkSet ''a'' ''1'', FkSet ''a'' ''2'', FkSet ''b'' ''3''] (snd toy_open)"
  have "fk_get ?s ''a'' = Some ''1''" by code_simp
  with passwords_survive_restart[OF toy_crypto_law good_random(2) o[unfolded toy_open_def], of "\<lambda>n. good_io" "[FkSet ''a'' ''1'', FkSet ''a'' ''2'', FkSet ''b'' ''3'']"]
  show "\<exists>s'. fk_open toy_crypto (fk_restart (\<lambda>n. good_io) ?s) = (True, s') \<and> fk_get s' ''a'' = Some ''1''"
    by (auto simp: good_io_def toy_open_def)
qed

text \<open>C40. A keychain file that cannot be read once is lost: the program goes on with no passwords and no salt, and the
  first password stored then, which is reported as a success, replaces the file by one that holds that password
  alone and lacks the salt an open takes from its first bytes.\<close>

theorem unreadable_once_loses_all:
  assumes "files (path @ ''.key'') = Some raw" "length raw = kKeySize" "io_readKey (plan 0)"
    and "files path = Some blob" "\<not> io_read (plan 1)"
    and "fk_set C (makeKeychain C path files plan) r pw = (True, s)"
  shows "\<exists>iv key. deriveKey C [] raw = Some key \<and>
    fk_files s = files(path \<mapsto> iv @ fk_encrypt C key (cr_toJson C [(r, pw)]) iv)"
proof -
  have "makeKeychain C path files plan = (fk_tick (fk_tick (fk_new path files plan)))\<lparr>fk_masterKey := raw\<rparr>"
    using assms(1-5) by (simp add: makeKeychain_def fk_open_def loadOrCreateMasterKey_def fk_new_def fk_tick_def fk_io_def keyPath_def)
  with assms(6) show ?thesis
    by (auto simp: fk_set_def persist_def Let_def fk_tick_def fk_new_def fk_save_def put_pw_def split: option.splits if_splits)
qed

text \<open>With the toy cipher: a password of one program run, lost by the next, and what that one stores is lost by a third.\<close>

definition kept_files :: "string \<Rightarrow> string option" where
  "kept_files = fk_files (fk_apply toy_crypto (FkSet ''a'' ''1'') (makeKeychain toy_crypto ''kc'' (\<lambda>_. None) (\<lambda>n. good_io)))"

definition second_run :: "bool \<times> file_keychain" where
  "second_run = fk_set toy_crypto (makeKeychain toy_crypto ''kc'' kept_files (\<lambda>n. if n = 1 then good_io\<lparr>io_read := False\<rparr> else good_io)) ''b'' ''2''"

theorem unreadable_once_loses_all_witness:
  "fst second_run \<and> fk_get (makeKeychain toy_crypto ''kc'' kept_files (\<lambda>n. good_io)) ''a'' = Some ''1'' \<and>
   \<not> fst (fk_open toy_crypto (fk_restart (\<lambda>n. good_io) (snd second_run))) \<and>
   (\<exists>iv key. fk_files (snd second_run) = kept_files(''kc'' \<mapsto> iv @ fk_encrypt toy_crypto key (toy_toJson [(''b'', ''2'')]) iv))"
proof (intro conjI)
  show ok: "fst second_run" by code_simp
  show "fk_get (makeKeychain toy_crypto ''kc'' kept_files (\<lambda>n. good_io)) ''a'' = Some ''1''" by code_simp
  show "\<not> fst (fk_open toy_crypto (fk_restart (\<lambda>n. good_io) (snd second_run)))" by code_simp
  have key: "kept_files (''kc'' @ ''.key'') = Some (replicate 32 (CHR ''k''))" by code_simp
  have "\<exists>b. kept_files ''kc'' = Some b" by (rule exI[of _ "the (kept_files ''kc'')"]) code_simp
  then obtain b where b: "kept_files ''kc'' = Some b" ..
  have run: "second_run = (True, snd second_run)" using ok by (metis prod.collapse)
  have "cr_toJson toy_crypto = toy_toJson" by (simp add: toy_crypto_def)
  with unreadable_once_loses_all[where C = toy_crypto, OF key _ _ b _ run[unfolded second_run_def]]
  show "\<exists>iv key. fk_files (snd second_run) = kept_files(''kc'' \<mapsto> iv @ fk_encrypt toy_crypto key (toy_toJson [(''b'', ''2'')]) iv)"
    by (auto simp: good_io_def kKeySize_def second_run_def)
qed

end
