(* ===== verification/Headless.thy ===== *)
theory Headless imports PjsipClaims BootProps begin

text \<open>
  \<open>headless_main.cpp\<close>, the program without a window: it applies a boot configuration, places one call when an
  account registers or answers the calls that come, plays a file into them and exits with a code.  Its
  runner sits on the accounts controller and the call manager of the core.
\<close>

subsection \<open>State\<close>

text \<open>Slots that run from the event loop, and timers of the runner.\<close>

datatype hl_event = HlReg account_id registration_state | HlCall call_id call_state

datatype hl_timer = HlDuration | HlNoAccount | HlPlay call_id int

record ('b, 'k) headless =
  hl_cfg :: boot_config
  hl_accounts :: "('b, 'k) accounts_controller"
  hl_calls :: "'b call_manager"
  hl_activeCallId :: call_id
  hl_autoAnswer :: bool
  hl_loopPlayFile :: bool
  hl_exitAfterCall :: bool
  hl_outboundPlaced :: bool
  hl_sawCall :: bool
  hl_queue :: "hl_event list"
  hl_timers :: "(int \<times> hl_timer) list"
  hl_exit :: "int option"

text \<open>What the program finds: files, a database in memory, a started engine, and the statements of the accounts.\<close>

record 'b hl_world =
  hw_exists :: "string \<Rightarrow> bool"
  hw_db :: "database option"
  hw_backend :: "'b option"
  hw_apply :: "((nat \<Rightarrow> bool) \<times> (nat \<Rightarrow> bool) \<times> string) list"

definition hl_am :: "('b, 'k) headless \<Rightarrow> ('b, 'k) accounts_manager" where
  "hl_am h = ac_accounts (hl_accounts h)"

text \<open>Both managers hold a pointer to one backend; registration signals are queued for the runner.\<close>

definition on_hl_accounts ::
  "(('b, 'k) accounts_controller \<Rightarrow> ('b, 'k) accounts_controller) \<Rightarrow> ('b, 'k) headless \<Rightarrow> ('b, 'k) headless" where
  "on_hl_accounts f h =
     (let ac = f (hl_accounts h); am = ac_accounts ac; new = drop (length (am_signals (hl_am h))) (am_signals am)
      in h\<lparr>hl_accounts := ac, hl_calls := (hl_calls h)\<lparr>cm_backend := am_backend am\<rparr>,
           hl_queue := hl_queue h @ map (\<lambda>(i, s). HlReg i s) (reg_signals new)\<rparr>)"

definition on_hl_calls :: "('b call_manager \<Rightarrow> 'r \<times> 'b call_manager) \<Rightarrow> ('b, 'k) headless \<Rightarrow> 'r \<times> ('b, 'k) headless" where
  "on_hl_calls f h =
     (case f (hl_calls h) of (r, cm) \<Rightarrow>
        (r, h\<lparr>hl_calls := cm, hl_accounts := (hl_accounts h)\<lparr>ac_accounts := (hl_am h)\<lparr>am_backend := cm_backend cm\<rparr>\<rparr>\<rparr>))"

definition hl_singleShot :: "int \<Rightarrow> hl_timer \<Rightarrow> ('b, 'k) headless \<Rightarrow> ('b, 'k) headless" where
  "hl_singleShot ms t h = h\<lparr>hl_timers := hl_timers h @ [(ms, t)]\<rparr>"

text \<open>\<open>QCoreApplication::exit\<close>: what runs is finished, then the loop ends.\<close>

definition exit_with :: "int \<Rightarrow> ('b, 'k) headless \<Rightarrow> ('b, 'k) headless" where
  "exit_with n h = h\<lparr>hl_exit := Some n\<rparr>"

subsection \<open>Slots of the runner\<close>

definition startPlaybackWhenReady :: "'b isip_backend \<Rightarrow> call_id \<Rightarrow> int \<Rightarrow> ('b, 'k) headless \<Rightarrow> ('b, 'k) headless" where
  "startPlaybackWhenReady B i retries h =
     (case bc_headlessPlayFile (hl_cfg h) of
        None \<Rightarrow> h
      | Some p \<Rightarrow>
          if p = [] \<or> isPlayingAudioFile i (hl_calls h) then h
          else (case on_hl_calls (playAudioFile B i p (hl_loopPlayFile h)) h of
                  (True, h1) \<Rightarrow> h1
                | (False, h1) \<Rightarrow> if retries \<le> 0 then h1 else hl_singleShot 400 (HlPlay i retries) h1))"

definition onRegistrationState :: "'b isip_backend \<Rightarrow> account_id \<Rightarrow> registration_state \<Rightarrow> ('b, 'k) headless \<Rightarrow> ('b, 'k) headless" where
  "onRegistrationState B i s h =
     (if s \<noteq> Registered then h
      else case bc_headlessCallUri (hl_cfg h) of
        None \<Rightarrow> h
      | Some uri \<Rightarrow>
          if hl_outboundPlaced h then h
          else
            (let d = defaultAccountId (hl_am h);
                 acc = (if d = kInvalidAccountId \<or> stateOf d (hl_am h) \<noteq> Registered then i else d)
             in case on_hl_calls (makeCallFrom B (Some (hl_am h)) acc uri) (h\<lparr>hl_outboundPlaced := True\<rparr>) of
                  (c, h1) \<Rightarrow>
                    if c = kInvalidCallId then exit_with 3 (h1\<lparr>hl_activeCallId := c\<rparr>)
                    else h1\<lparr>hl_activeCallId := c, hl_sawCall := True\<rparr>))"

definition onIncomingCall :: "'b isip_backend \<Rightarrow> call_id \<Rightarrow> ('b, 'k) headless \<Rightarrow> ('b, 'k) headless" where
  "onIncomingCall B i h =
     (let h1 = h\<lparr>hl_activeCallId := i, hl_sawCall := True\<rparr>
      in if hl_autoAnswer h then snd (on_hl_calls (cm_accept B i) h1) else h1)"

definition onCallEvent :: "'b isip_backend \<Rightarrow> call_id \<Rightarrow> call_state \<Rightarrow> ('b, 'k) headless \<Rightarrow> ('b, 'k) headless" where
  "onCallEvent B i s h =
     (if s = Confirmed then startPlaybackWhenReady B i 15 (h\<lparr>hl_activeCallId := i, hl_sawCall := True\<rparr>)
      else if s = Disconnected
      then (let h1 = (if i = hl_activeCallId h then h\<lparr>hl_activeCallId := kInvalidCallId\<rparr> else h)
            in if hl_exitAfterCall h1 \<and> hl_sawCall h1 then exit_with 0 h1 else h1)
      else h)"

subsection \<open>Starting\<close>

text \<open>The seconds are multiplied as 32-bit integers.\<close>

definition duration_ms :: "int \<Rightarrow> int" where
  "duration_ms d = sint (word_of_int (d * 1000) :: 32 word)"

definition arm_timers :: "boot_config \<Rightarrow> ('b, 'k) headless \<Rightarrow> ('b, 'k) headless" where
  "arm_timers cfg h =
     (let h1 = (case bc_headlessDurationSec cfg of
                  Some d \<Rightarrow> if d > 0 then hl_singleShot (duration_ms d) HlDuration h else h
                | None \<Rightarrow> h)
      in if bc_headlessCallUri cfg \<noteq> None then hl_singleShot 30000 HlNoAccount h1 else h1)"

definition hl_new :: "'b isip_backend \<Rightarrow> boot_config \<Rightarrow> 'b \<Rightarrow> database \<Rightarrow> 'k \<Rightarrow> ('b, 'k) headless" where
  "hl_new B cfg b db kc =
     (let core = core_new b db kc; ac = ac_new B (co_am core)
      in \<lparr>hl_cfg = cfg, hl_accounts = ac, hl_calls = (co_cm core)\<lparr>cm_backend := am_backend (ac_accounts ac)\<rparr>,
          hl_activeCallId = kInvalidCallId,
          hl_autoAnswer = (case over (bc_autoAnswer cfg) (bc_headlessAutoAnswer cfg) of Some v \<Rightarrow> v | None \<Rightarrow> False),
          hl_loopPlayFile = (case bc_headlessLoopPlayFile cfg of Some v \<Rightarrow> v | None \<Rightarrow> False),
          hl_exitAfterCall = (case bc_headlessExitAfterCall cfg of Some v \<Rightarrow> v | None \<Rightarrow> False),
          hl_outboundPlaced = False, hl_sawCall = False, hl_queue = [], hl_timers = [], hl_exit = None\<rparr>)"

definition hl_start ::
  "'b isip_backend \<Rightarrow> 'k ikeychain \<Rightarrow> 'b hl_world \<Rightarrow> 'k \<Rightarrow> boot_config \<Rightarrow> int \<times> ('b, 'k) headless option" where
  "hl_start B K w kc cfg =
     (if bc_accounts cfg = [] then (2, None)
      else if (case bc_headlessPlayFile cfg of Some p \<Rightarrow> \<not> hw_exists w p | None \<Rightarrow> False) then (2, None)
      else case hw_db w of
        None \<Rightarrow> (2, None)
      | Some db \<Rightarrow>
          (case hw_backend w of
             None \<Rightarrow> (2, None)
           | Some b \<Rightarrow>
               (0, Some (arm_timers cfg
                     (on_hl_accounts (applyAccounts B K (bc_replaceAccounts cfg) (hw_apply w) (bc_accounts cfg))
                        (hl_new B cfg b db kc))))))"

subsection \<open>The event loop\<close>

text \<open>The slots the runner has on the call manager: incoming calls at once, call events from the loop.\<close>

definition on_call_signal :: "'b isip_backend \<Rightarrow> cm_signal \<Rightarrow> ('b, 'k) headless \<Rightarrow> ('b, 'k) headless" where
  "on_call_signal B sig h = (case sig of
     IncomingCall i \<Rightarrow> onIncomingCall B i h
   | CallEvent i s \<Rightarrow> h\<lparr>hl_queue := hl_queue h @ [HlCall i s]\<rparr>
   | _ \<Rightarrow> h)"

definition hl_manager_step ::
  "'b isip_backend \<Rightarrow> ('b call_manager \<Rightarrow> 'b call_manager) \<Rightarrow> ('b, 'k) headless \<Rightarrow> ('b, 'k) headless" where
  "hl_manager_step B f h =
     (let h1 = snd (on_hl_calls (\<lambda>cm. ((), f cm)) h)
      in fold (on_call_signal B) (drop (length (cm_signals (hl_calls h))) (cm_signals (hl_calls h1))) h1)"

definition hl_fanout ::
  "'b isip_backend \<Rightarrow> (call_id list \<Rightarrow> call_id list) \<Rightarrow> listener_event \<Rightarrow> ('b, 'k) headless \<Rightarrow> ('b, 'k) headless" where
  "hl_fanout B ord ev h =
     (let h1 = on_hl_accounts (on_backend_event ev) h
      in hl_manager_step B (cm_event B (Some (hl_am h1)) ord ev) h1)"

fun run_hl_event :: "'b isip_backend \<Rightarrow> hl_event \<Rightarrow> ('b, 'k) headless \<Rightarrow> ('b, 'k) headless" where
  "run_hl_event B (HlReg i s) h = onRegistrationState B i s h"
| "run_hl_event B (HlCall i s) h = onCallEvent B i s h"

definition hl_deliver :: "'b isip_backend \<Rightarrow> ('b, 'k) headless \<Rightarrow> ('b, 'k) headless" where
  "hl_deliver B h = (case hl_queue h of [] \<Rightarrow> h | e # q \<Rightarrow> run_hl_event B e (h\<lparr>hl_queue := q\<rparr>))"

fun run_hl_timer :: "'b isip_backend \<Rightarrow> hl_timer \<Rightarrow> ('b, 'k) headless \<Rightarrow> ('b, 'k) headless" where
  "run_hl_timer B HlDuration h = exit_with 0 h"
| "run_hl_timer B HlNoAccount h =
     (if \<not> hl_outboundPlaced h \<and> hl_activeCallId h = kInvalidCallId then exit_with 3 h else h)"
| "run_hl_timer B (HlPlay i retries) h = startPlaybackWhenReady B i (retries - 1) h"

definition hl_timer_fires :: "'b isip_backend \<Rightarrow> nat \<Rightarrow> ('b, 'k) headless \<Rightarrow> ('b, 'k) headless" where
  "hl_timer_fires B n h =
     (if n < length (hl_timers h)
      then run_hl_timer B (snd (hl_timers h ! n)) (h\<lparr>hl_timers := take n (hl_timers h) @ drop (Suc n) (hl_timers h)\<rparr>)
      else h)"

text \<open>Where the backend takes steps of its own.\<close>

definition hl_backend :: "('b, 'k) headless \<Rightarrow> 'b" where
  "hl_backend h = cm_backend (hl_calls h)"

definition on_hl_backend :: "'b \<Rightarrow> ('b, 'k) headless \<Rightarrow> ('b, 'k) headless" where
  "on_hl_backend b h = snd (on_hl_calls (\<lambda>cm. ((), cm\<lparr>cm_backend := b\<rparr>)) h)"

subsection \<open>On the PJSIP adapter\<close>

text \<open>The engine is started first; the adapter borrows it, and \<open>buildCoreSipGraph\<close> sets its listener.\<close>

definition hl_boot :: "'l pjsua \<Rightarrow> engine_env \<Rightarrow> 'l \<Rightarrow> 'l pjsip_backend option" where
  "hl_boot L E l = (case engine_start L E 0 (eng_new l) of (ok, s) \<Rightarrow> if ok then Some (pb_setListener (pb_new s) True) else None)"

definition hl_pj_deliver ::
  "'l pjsua \<Rightarrow> engine_env \<Rightarrow> (call_id list \<Rightarrow> call_id list) \<Rightarrow> ('l pjsip_backend, 'k) headless \<Rightarrow> ('l pjsip_backend, 'k) headless" where
  "hl_pj_deliver L E ord h =
     (case pb_deliver L (hl_backend h) of
        (None, b) \<Rightarrow> on_hl_backend b h
      | (Some ev, b) \<Rightarrow> hl_fanout (PjsipB L E) ord ev (on_hl_backend b h))"

text \<open>The event loop turns as long as nothing called exit; PJSIP's threads run beside it.\<close>

inductive hl_step ::
  "'l pjsua \<Rightarrow> engine_env \<Rightarrow> ('l pjsip_backend, memory_keychain) headless \<Rightarrow> ('l pjsip_backend, memory_keychain) headless \<Rightarrow> bool"
  for L E where
  hl_slot: "hl_step L E h (hl_deliver (PjsipB L E) h)"
| hl_controller: "hl_step L E h (on_hl_accounts deliver_registration h)"
| hl_runner_timer: "hl_step L E h (hl_timer_fires (PjsipB L E) n h)"
| hl_call_timer: "hl_step L E h (hl_manager_step (PjsipB L E) (fire_timer (PjsipB L E) n) h)"
| hl_callback: "hl_step L E h (on_hl_backend (pb_callback ovf L cb (hl_backend h)) h)"
| hl_library: "hl_step L E h (on_hl_backend (put_lib l (hl_backend h)) h)"
| hl_grace: "hl_step L E h (on_hl_backend (pb_timer L n (hl_backend h)) h)"
| hl_backend_event: "(\<forall>xs. mset (ord xs) = mset xs) \<Longrightarrow> hl_step L E h (hl_pj_deliver L E ord h)"

text \<open>References of new passwords are new (they are UUIDs).\<close>

fun refs_fresh ::
  "'b isip_backend \<Rightarrow> 'k ikeychain \<Rightarrow> bool \<Rightarrow> ((nat \<Rightarrow> bool) \<times> (nat \<Rightarrow> bool) \<times> string) list \<Rightarrow> boot_account list \<Rightarrow>
   ('b, 'k) accounts_controller \<Rightarrow> bool" where
  "refs_fresh B K r (env # envs) (a # as) ac \<longleftrightarrow>
     am_passwordCache (ac_accounts ac) (snd (snd env)) = None \<and> refs_fresh B K r envs as (applyAccount B K r env a ac)"
| "refs_fresh B K r _ _ ac \<longleftrightarrow> True"

definition hl_world_ok :: "'l pjsua \<Rightarrow> engine_env \<Rightarrow> 'l pjsip_backend hl_world \<Rightarrow> memory_keychain \<Rightarrow> boot_config \<Rightarrow> bool" where
  "hl_world_ok L E w kc cfg \<longleftrightarrow>
     (\<exists>l. hw_backend w = hl_boot L E l) \<and>
     (case hw_db w of None \<Rightarrow> True | Some db \<Rightarrow> db_ok db \<and> db_handle db \<and>
        (case hw_backend w of None \<Rightarrow> True | Some b \<Rightarrow>
           refs_fresh (PjsipB L E) MemK (bc_replaceAccounts cfg) (hw_apply w) (bc_accounts cfg) (hl_accounts (hl_new (PjsipB L E) cfg b db kc))))"

inductive hl_reach ::
  "'l pjsua \<Rightarrow> engine_env \<Rightarrow> boot_config \<Rightarrow> ('l pjsip_backend, memory_keychain) headless \<Rightarrow> bool" for L E cfg where
  hl_init: "hl_world_ok L E w kc cfg \<Longrightarrow> hl_start (PjsipB L E) MemK w kc cfg = (0, Some h) \<Longrightarrow> hl_reach L E cfg h"
| hl_next: "hl_reach L E cfg h \<Longrightarrow> hl_exit h = None \<Longrightarrow> hl_step L E h h' \<Longrightarrow> hl_reach L E cfg h'"

inductive_cases hl_step_cases: "hl_step L E h h'"

subsection \<open>The core underneath\<close>

definition core_of :: "('b, 'k) headless \<Rightarrow> ('b, 'k) core_state" where
  "core_of h = \<lparr>co_am = hl_am h, co_cm = hl_calls h\<rparr>"

lemma core_of_frames [simp]:
  "core_of (h\<lparr>hl_queue := q\<rparr>) = core_of h" "core_of (h\<lparr>hl_timers := ts\<rparr>) = core_of h"
  "core_of (h\<lparr>hl_activeCallId := i\<rparr>) = core_of h" "core_of (h\<lparr>hl_sawCall := m\<rparr>) = core_of h"
  "core_of (h\<lparr>hl_outboundPlaced := m\<rparr>) = core_of h" "core_of (exit_with n h) = core_of h"
  "core_of (hl_singleShot ms t h) = core_of h"
  by (simp_all add: core_of_def hl_am_def exit_with_def hl_singleShot_def)

lemma core_of_calls: "on_hl_calls f h = (r, h1) \<Longrightarrow> core_of h1 = on_calls (\<lambda>cm. snd (f cm)) (core_of h)"
  by (auto simp: on_hl_calls_def core_of_def on_calls_def hl_am_def split: prod.splits)

lemma core_of_backend [simp]: "core_of (on_hl_backend b h) = on_backend b (core_of h)" "core_backend (core_of h) = hl_backend h"
  by (simp_all add: on_hl_backend_def on_hl_calls_def core_of_def on_backend_def on_calls_def hl_am_def core_backend_def hl_backend_def)

text \<open>The core as an account operation of the controller sees it.\<close>

definition ac_core :: "'b call_manager \<Rightarrow> ('b, 'k) accounts_controller \<Rightarrow> ('b, 'k) core_state" where
  "ac_core cm ac = \<lparr>co_am = ac_accounts ac, co_cm = cm\<lparr>cm_backend := am_backend (ac_accounts ac)\<rparr>\<rparr>"

lemma core_of_accounts: "core_of (on_hl_accounts f h) = ac_core (hl_calls h) (f (hl_accounts h))"
  by (simp add: on_hl_accounts_def core_of_def ac_core_def hl_am_def Let_def)

context core_env begin

lemma core_ok_signals:
  "core_ok \<lparr>co_am = am\<lparr>am_signals := s\<rparr>, co_cm = cm\<rparr> = core_ok \<lparr>co_am = am, co_cm = cm\<rparr>"
  by (simp add: core_ok_def core_mid_def core_backend_def)

lemma synced: "core_ok w \<Longrightarrow> am_backend (co_am w) = cm_backend (co_cm w)"
  using core_midD(4)[OF core_okD(1)] by (simp add: core_backend_def)

lemma manager_op_ok:
  assumes "core_ok (ac_core cm ac)" "op_fresh op (ac_accounts ac)"
    and "\<And>am. snd (f am) = am_apply B K op am" "AccountsControl.on_manager f ac = (r, ac')"
  shows "core_ok (ac_core cm ac')"
proof -
  let ?am = "(ac_accounts ac)\<lparr>am_signals := []\<rparr>" and ?cm = "cm\<lparr>cm_backend := am_backend (ac_accounts ac)\<rparr>"
  have "core_ok \<lparr>co_am = ?am, co_cm = ?cm\<rparr>" using assms(1) by (simp add: ac_core_def core_ok_signals)
  moreover have "op_fresh op ?am" using assms(2) by (cases op) simp_all
  ultimately have "core_ok (on_accounts (am_apply B K op) \<lparr>co_am = ?am, co_cm = ?cm\<rparr>)"
    by (intro account_step_ok) simp_all
  moreover obtain am1 where "f ?am = (r, am1)" "ac_accounts ac' = am1\<lparr>am_signals := am_signals (ac_accounts ac) @ am_signals am1\<rparr>"
    using assms(4) by (auto simp: AccountsControl.on_manager_def Let_def split: prod.splits)
  ultimately show ?thesis
    using assms(3)[of ?am] by (simp add: ac_core_def on_accounts_def Let_def core_ok_signals)
qed

end

lemma ac_core_frames [simp]:
  "ac_core cm (refreshModel ac) = ac_core cm ac" "ac_core cm (ac_emit s ac) = ac_core cm ac"
  "ac_core cm (refreshRegisteredAccountCount ac) = ac_core cm ac" "ac_core cm (deliver_registration ac) = ac_core cm ac"
  by (simp_all add: ac_core_def refreshModel_def ac_emit_def refreshRegisteredAccountCount_def deliver_registration_def
      on_registration_def Let_def split: list.split)

end
