(* ===== verification/HeadlessProps.thy ===== *)
theory HeadlessProps imports Headless begin

text \<open>
  Properties of the headless program: its core agrees with the adapter in every state of every run, what
  its exit codes mean, that waiting for media ends, and that it leaves when any call ends.
\<close>

subsection \<open>The core stays sound\<close>

abbreviation pj_ok_core :: "('l pjsip_backend, memory_keychain) core_state \<Rightarrow> bool" where
  "pj_ok_core \<equiv> pjsip_core.core_ok"

lemma push_ok:
  assumes "pj_ok_core (ac_core cm ac)"
  shows "pj_ok_core (ac_core cm (pushNetworkAndCodecSettings (PjsipB L E) ac))"
proof -
  let ?w = "ac_core cm ac"
  have *: "ac_core cm (ac\<lparr>ac_accounts := (ac_accounts ac)\<lparr>am_backend := b\<rparr>\<rparr>) = on_backend b ?w" for b
    by (simp add: ac_core_def on_backend_def on_calls_def Let_def)
  have b0: "core_backend ?w = am_backend (ac_accounts ac)" by (simp add: ac_core_def core_backend_def)
  have "pj_quiet (core_backend ?w) (media_apply (PjsipB L E) (MoStunServers servers) (core_backend ?w))"
    if "pj_inv (core_backend ?w)" for servers using media_quiet[OF that] .
  moreover have "pj_quiet (core_backend ?w) (media_apply (PjsipB L E) (MoCodecPriority names)
      (media_apply (PjsipB L E) (MoStunServers servers) (core_backend ?w)))"
    if "pj_inv (core_backend ?w)" for servers names
    using quiet_trans[OF media_quiet[OF that] media_quiet] media_quiet[OF that] by (metis pj_quiet_def)
  ultimately show ?thesis
    unfolding pushNetworkAndCodecSettings_def Let_def *
    by (intro quiet_step_ok[OF assms]) (simp add: b0)
qed

lemma addAccount_core_ok:
  assumes "pj_ok_core (ac_core cm ac)" "am_passwordCache (ac_accounts ac) ref = None"
  shows "pj_ok_core (ac_core cm (snd (addAccount (PjsipB L E) MemK f g ref p ac)))"
proof -
  have add: "pj_ok_core (ac_core cm ac1)"
    if "AccountsControl.on_manager (am_add (PjsipB L E) MemK f ref a pw) ac = (i, ac1)" for a pw i ac1
    by (rule pjsip_core.manager_op_ok[OF assms(1) _ _ that, where op = "AmAdd f ref a pw"]) (use assms(2) in simp_all)
  have def: "pj_ok_core (ac_core cm ac2)"
    if "pj_ok_core (ac_core cm ac1)" "AccountsControl.on_manager (am_setDefault g i) ac1 = (r, ac2)" for ac1 i r ac2
    by (rule pjsip_core.manager_op_ok[OF that(1) _ _ that(2), where op = "AmSetDefault g i"]) simp_all
  have "pj_ok_core (ac_core cm (snd (AccountsControl.on_manager (am_setDefault g i) ac1)))"
    if "pj_ok_core (ac_core cm ac1)" for ac1 i using def[OF that] by (metis prod.collapse)
  then show ?thesis
    unfolding addAccount_def Let_def by (auto simp: add intro!: push_ok split: prod.split)
qed

lemma updateAccount_core_ok:
  assumes "pj_ok_core (ac_core cm ac)"
  shows "pj_ok_core (ac_core cm (snd (updateAccount (PjsipB L E) MemK f g i p ac)))"
proof -
  have upd: "pj_ok_core (ac_core cm ac1)"
    if "AccountsControl.on_manager (am_update (PjsipB L E) MemK f a) ac = (r, ac1)" for a r ac1
    by (rule pjsip_core.manager_op_ok[OF assms(1) _ _ that, where op = "AmUpdate f a"]) simp_all
  have def: "pj_ok_core (ac_core cm (snd (AccountsControl.on_manager (am_setDefault g i) ac1)))"
    if "pj_ok_core (ac_core cm ac1)" for ac1
    by (rule pjsip_core.manager_op_ok[OF that _ _ prod.collapse[symmetric], where op = "AmSetDefault g i"]) simp_all
  have pw: "pj_ok_core (ac_core cm (snd (AccountsControl.on_manager (am_setPassword (PjsipB L E) MemK i v) ac1)))"
    if "pj_ok_core (ac_core cm ac1)" for ac1 v
    by (rule pjsip_core.manager_op_ok[OF that _ _ prod.collapse[symmetric], where op = "AmSetPassword i v"]) simp_all
  show ?thesis
    unfolding updateAccount_def Let_def
    by (auto simp: assms upd def pw intro!: push_ok split: prod.split option.split bool.split)
qed

lemma applyAccount_core_ok:
  assumes "pj_ok_core (ac_core cm ac)" "am_passwordCache (ac_accounts ac) (snd (snd env)) = None"
  shows "pj_ok_core (ac_core cm (applyAccount (PjsipB L E) MemK r env a ac))"
  using assms by (auto simp: applyAccount_def Let_def addAccount_core_ok updateAccount_core_ok split: prod.split)

lemma applyAccounts_core_ok:
  assumes "pj_ok_core (ac_core cm ac)" "refs_fresh (PjsipB L E) MemK r envs as ac"
  shows "pj_ok_core (ac_core cm (applyAccounts (PjsipB L E) MemK r envs as ac))"
  using assms
proof (induction as arbitrary: envs ac)
  case (Cons a as)
  then show ?case by (cases envs) (simp_all add: applyAccount_core_ok)
qed simp

lemma hl_boot_ok:
  assumes "hl_boot L E l = Some b"
  shows "pj_inv b" "pj_calls b = {}" "pj_unann b = []" "pj_live b"
  using assms
  by (auto simp: hl_boot_def pb_new_def pb_setListener_def ed_new_def ed_invalidate_def pj_inv_def pj_ok_def pj_views
      pj_queue_views pj_media_def split: prod.splits if_splits)

lemma hl_start_ok:
  assumes "hl_world_ok L E w kc cfg" "hl_start (PjsipB L E) MemK w kc cfg = (0, Some h)"
  shows "pj_ok_core (core_of h)"
proof -
  obtain db b where w: "hw_db w = Some db" "hw_backend w = Some b"
    and h: "h = arm_timers cfg (on_hl_accounts (applyAccounts (PjsipB L E) MemK (bc_replaceAccounts cfg) (hw_apply w) (bc_accounts cfg))
               (hl_new (PjsipB L E) cfg b db kc))"
    using assms(2) by (auto simp: hl_start_def split: if_splits option.splits)
  obtain l where "hl_boot L E l = Some b" using assms(1) w by (auto simp: hl_world_ok_def)
  note boot = hl_boot_ok[OF this]
  let ?w = "core_new b db kc" and ?h = "hl_new (PjsipB L E) cfg b db kc"
  have db: "db_ok db" "db_handle db"
    and fresh: "refs_fresh (PjsipB L E) MemK (bc_replaceAccounts cfg) (hw_apply w) (bc_accounts cfg) (hl_accounts ?h)"
    using assms(1) w by (auto simp: hl_world_ok_def)
  have base: "ac_core (co_cm ?w) ac = ?w" if "ac_accounts ac = co_am ?w" for ac
    by (simp add: ac_core_def that core_new_def am_new_def loadFromDatabase_def cm_new_def)
  have "pj_ok_core ?w" using pjsip_core.core_new_ok boot db by blast
  then have "pj_ok_core (ac_core (co_cm ?w) (hl_accounts ?h))"
    by (simp add: hl_new_def Let_def ac_new_def push_ok base)
  then have "pj_ok_core (ac_core (hl_calls ?h) (hl_accounts ?h))"
    by (simp add: hl_new_def Let_def ac_core_def)
  from applyAccounts_core_ok[OF this fresh] show ?thesis
    by (simp add: h arm_timers_def Let_def core_of_accounts split: option.split)
qed

text \<open>What the runner asks of the call manager are operations of the core.\<close>

lemma cm_op_ok:
  assumes "pj_ok_core (core_of h)" "\<And>cm. snd (f cm) = cm_apply (PjsipB L E) am op cm" "on_hl_calls f h = (r, h1)"
  shows "pj_ok_core (core_of h1)"
  using pjsip_core.call_step_ok(1)[OF assms(1), of L E am op] by (simp add: core_of_calls[OF assms(3)] assms(2))

lemma playback_core_ok: "pj_ok_core (core_of h) \<Longrightarrow> pj_ok_core (core_of (startPlaybackWhenReady (PjsipB L E) i n h))"
proof -
  assume ok: "pj_ok_core (core_of h)"
  have "pj_ok_core (core_of h1)" if "on_hl_calls (playAudioFile (PjsipB L E) i p m) h = (r, h1)" for p m r h1
    by (rule cm_op_ok[OF ok _ that, where op = "CmPlay i p m"]) simp
  then show ?thesis using ok by (auto simp: startPlaybackWhenReady_def split: option.split prod.split bool.split)
qed

lemma registration_core_ok: "pj_ok_core (core_of h) \<Longrightarrow> pj_ok_core (core_of (onRegistrationState (PjsipB L E) i s h))"
proof -
  assume ok: "pj_ok_core (core_of h)"
  have "pj_ok_core (core_of h1)"
    if "on_hl_calls (makeCallFrom (PjsipB L E) (Some am) acc uri) (h\<lparr>hl_outboundPlaced := True\<rparr>) = (r, h1)" for am acc uri r h1
    by (rule cm_op_ok[OF _ _ that, where op = "CmCallFrom acc uri" and am = am]) (simp_all add: ok)
  then show ?thesis using ok by (auto simp: onRegistrationState_def Let_def split: option.split prod.split)
qed

lemma incoming_core_ok: "pj_ok_core (core_of h) \<Longrightarrow> pj_ok_core (core_of (onIncomingCall (PjsipB L E) i h))"
proof -
  assume ok: "pj_ok_core (core_of h)"
  let ?h = "h\<lparr>hl_activeCallId := i, hl_sawCall := True\<rparr>"
  have "pj_ok_core (core_of (snd (on_hl_calls (cm_accept (PjsipB L E) i) ?h)))"
    by (rule cm_op_ok[OF _ _ prod.collapse[symmetric], where op = "CmAccept i"]) (simp_all add: ok)
  then show ?thesis using ok by (simp add: onIncomingCall_def Let_def)
qed

lemma event_core_ok: "pj_ok_core (core_of h) \<Longrightarrow> pj_ok_core (core_of (run_hl_event (PjsipB L E) e h))"
  by (cases e) (simp_all add: registration_core_ok onCallEvent_def Let_def playback_core_ok)

lemma signals_core_ok:
  "pj_ok_core (core_of h) \<Longrightarrow> pj_ok_core (core_of (fold (on_call_signal (PjsipB L E)) ss h))"
  by (induction ss arbitrary: h) (simp_all add: on_call_signal_def incoming_core_ok split: cm_signal.split)

lemma manager_step_core_ok:
  assumes "pj_ok_core (on_calls f (core_of h))"
  shows "pj_ok_core (core_of (hl_manager_step (PjsipB L E) f h))"
proof -
  have "pj_ok_core (core_of (snd (on_hl_calls (\<lambda>cm. ((), f cm)) h)))"
    using assms core_of_calls[OF prod.collapse[symmetric], of "\<lambda>cm. ((), f cm)" h] by simp
  then show ?thesis by (simp add: hl_manager_step_def Let_def signals_core_ok)
qed

lemma timer_core_ok:
  assumes "pj_ok_core (core_of h)"
  shows "pj_ok_core (core_of (hl_timer_fires (PjsipB L E) n h))"
proof -
  have "pj_ok_core (core_of (run_hl_timer (PjsipB L E) t h'))" if "core_of h' = core_of h" for t h'
    using assms that by (cases t) (simp_all add: playback_core_ok)
  then show ?thesis using assms by (simp add: hl_timer_fires_def)
qed

lemma am_event_signals:
  "(am_event ev (am\<lparr>am_signals := []\<rparr>))\<lparr>am_signals := am_signals am @ am_signals (am_event ev (am\<lparr>am_signals := []\<rparr>))\<rparr>
     = am_event ev am"
  by (cases ev) (simp_all add: am_event_def am_onRegState_def am_onMwi_def am_onInstantMessage_def
      updateMwi_def am_emit_def accountIdForBackend_def lastRegErrorOf_def Let_def)

lemma event_am: "ac_accounts (on_backend_event ev ac) = am_event ev (ac_accounts ac)"
  by (simp add: on_backend_event_def AccountsControl.on_manager_def Let_def am_event_signals)

lemma core_of_event:
  "core_of (on_hl_accounts (on_backend_event ev) h) = on_accounts (am_event ev) (core_of h)"
  "hl_am (on_hl_accounts (on_backend_event ev) h) = co_am (on_accounts (am_event ev) (core_of h))"
  by (simp_all add: core_of_accounts ac_core_def on_accounts_def event_am core_of_def hl_am_def on_hl_accounts_def Let_def)

lemma deliver_core_ok:
  assumes ok: "pj_ok_core (core_of h)" and ord: "\<And>xs. set (ord xs) = set xs"
  shows "pj_ok_core (core_of (hl_pj_deliver L E ord h))"
proof -
  have "pj_ok_core (pj_deliver_next L E ord (core_of h))" using pj_deliver_ok[OF ok ord] .
  then have d: "pj_ok_core (case pb_deliver L (hl_backend h) of (None, b) \<Rightarrow> on_backend b (core_of h)
      | (Some ev, b) \<Rightarrow> fanout (PjsipB L E) ord ev (on_backend b (core_of h)))"
    by (simp add: pj_deliver_next_def)
  show ?thesis
  proof (cases "pb_deliver L (hl_backend h)")
    case (Pair r b)
    show ?thesis
    proof (cases r)
      case None
      then show ?thesis using d by (simp add: hl_pj_deliver_def Pair)
    next
      case (Some ev)
      let ?h = "on_hl_backend b h" and ?h1 = "on_hl_accounts (on_backend_event ev) (on_hl_backend b h)"
      have "pj_ok_core (on_calls (cm_event (PjsipB L E) (Some (hl_am ?h1)) ord ev) (core_of ?h1))"
        using d Pair Some by (simp add: fanout_def Let_def core_of_event)
      then show ?thesis by (simp add: hl_pj_deliver_def Pair Some hl_fanout_def Let_def manager_step_core_ok)
    qed
  qed
qed

lemma hl_step_ok: "hl_step L E h h' \<Longrightarrow> pj_ok_core (core_of h) \<Longrightarrow> pj_ok_core (core_of h')"
proof (erule hl_step_cases, goal_cases)
  case 1
  then show ?case by (simp add: hl_deliver_def event_core_ok split: list.split)
next
  case 2
  then show ?case by (simp add: core_of_accounts) (simp add: ac_core_def core_of_def hl_am_def pjsip_core.synced[of "core_of h", simplified core_of_def hl_am_def, simplified])
next
  case (4 n)
  then show ?case by (simp add: manager_step_core_ok pjsip_core.call_step_ok(2))
next
  case (8 ord)
  then have "\<And>xs. set (ord xs) = set xs" by (metis set_mset_mset)
  with 8 show ?case by (simp add: deliver_core_ok)
next
  case (6 l)
  then show ?case using quiet_step_ok[OF 6(1), of "put_lib l (hl_backend h)"] by (simp add: pj_same_quiet)
next
  case (7 n)
  then show ?case using quiet_step_ok[OF 7(1), of "pb_timer L n (hl_backend h)"] by (simp add: timer_quiet)
qed (simp_all add: timer_core_ok callback_step_ok[of "core_of h" for h, simplified])

lemma hl_reach_ok: "hl_reach L E cfg h \<Longrightarrow> pj_ok_core (core_of h)"
  by (induction rule: hl_reach.induct) (auto intro: hl_start_ok hl_step_ok)

subsection \<open>Runs\<close>

text \<open>Moves one after the other, until the program has left.\<close>

fun hl_turns :: "(('b, 'k) headless \<Rightarrow> ('b, 'k) headless) list \<Rightarrow> ('b, 'k) headless \<Rightarrow> ('b, 'k) headless" where
  "hl_turns [] h = h"
| "hl_turns (f # fs) h = (if hl_exit h = None then hl_turns fs (f h) else h)"

lemma hl_reach_turns:
  assumes "hl_reach L E cfg h" "list_all (\<lambda>f. \<forall>h. hl_step L E h (f h)) fs"
  shows "hl_reach L E cfg (hl_turns fs h)"
  using assms by (induction fs arbitrary: h) (auto intro: hl_next)

text \<open>The desk library, except that a call whose number is next to be given out has ended.\<close>

definition ending_lib :: "desk pjsua" where
  "ending_lib = desk_lib\<lparr>call_info := (\<lambda>h d. if h = dk_next d then None else Some desk_call)\<rparr>"

definition desk_cfg :: boot_config where
  "desk_cfg = no_config\<lparr>bc_accounts := [example_boot], bc_headlessAutoAnswer := Some True, bc_headlessExitAfterCall := Some True\<rparr>"

definition desk_world :: "desk pjsip_backend hl_world" where
  "desk_world = \<lparr>hw_exists = (\<lambda>_. False), hw_db = Some empty_db, hw_backend = hl_boot ending_lib desk_env desk_new,
     hw_apply = [(\<lambda>_. True, \<lambda>_. True, ''ref'')]\<rparr>"

definition desk_headless :: "(desk pjsip_backend, memory_keychain) headless" where
  "desk_headless = the (snd (hl_start (PjsipB ending_lib desk_env) MemK desk_world (\<lambda>_. None) desk_cfg))"

lemma desk_headless_reach: "hl_reach ending_lib desk_env desk_cfg desk_headless"
proof (rule hl_init)
  have w: "hw_backend desk_world = hl_boot ending_lib desk_env desk_new" "hw_db desk_world = Some empty_db"
    "hw_apply desk_world = [(\<lambda>_. True, \<lambda>_. True, ''ref'')]" "bc_accounts desk_cfg = [example_boot]"
    "db_ok empty_db" "db_handle empty_db"
    by (simp_all add: desk_world_def desk_cfg_def empty_db_ok) (simp add: empty_db_def)
  have "am_passwordCache (ac_accounts (hl_accounts (hl_new B cfg b empty_db kc))) r = None" for B cfg r and b :: "desk pjsip_backend" and kc :: memory_keychain
    by (simp add: hl_new_def Let_def ac_new_def pushNetworkAndCodecSettings_def refreshRegisteredAccountCount_def ac_emit_def
        core_new_def am_new_def loadFromDatabase_def)
  then show "hl_world_ok ending_lib desk_env desk_world (\<lambda>_. None) desk_cfg"
    unfolding hl_world_ok_def w(1,2) using w by (intro conjI exI[of _ desk_new] refl) (simp split: option.split)
  have "fst (hl_start (PjsipB ending_lib desk_env) MemK desk_world (\<lambda>_. None) desk_cfg) = 0" by code_simp
  then show "hl_start (PjsipB ending_lib desk_env) MemK desk_world (\<lambda>_. None) desk_cfg = (0, Some desk_headless)"
    by (auto simp: desk_headless_def hl_start_def split: if_splits option.splits)
qed

text \<open>Two calls come in and are answered; the far end of the first hangs up.\<close>

definition desk_moves :: "((desk pjsip_backend, memory_keychain) headless \<Rightarrow> (desk pjsip_backend, memory_keychain) headless) list" where
  "desk_moves =
     (let call = (\<lambda>cb h. on_hl_backend (pb_callback (\<lambda>i. 0) ending_lib cb (hl_backend h)) h);
          loop = hl_pj_deliver ending_lib desk_env id; slot = hl_deliver (PjsipB ending_lib desk_env)
      in [call (CbIncomingCall 10001 501), loop, slot, call (CbCallState 50001), loop, slot,
          call (CbIncomingCall 10001 502), loop, slot, call (CbCallState 50002), loop, slot,
          (\<lambda>h. on_hl_backend (put_lib (desk_new\<lparr>dk_next := 501\<rparr>) (hl_backend h)) h),
          call (CbCallState 50001), loop, slot])"

lemma desk_moves_steps: "list_all (\<lambda>f. \<forall>h. hl_step ending_lib desk_env h (f h)) desk_moves"
  by (simp del: pb_callback.simps add: desk_moves_def Let_def hl_slot hl_callback hl_library hl_backend_event)

definition desk_answered :: "(desk pjsip_backend, memory_keychain) headless" where
  "desk_answered = hl_turns (take 12 desk_moves) desk_headless"

definition desk_left :: "(desk pjsip_backend, memory_keychain) headless" where
  "desk_left = hl_turns desk_moves desk_headless"

lemma desk_left_reach: "hl_reach ending_lib desk_env desk_cfg desk_left"
  unfolding desk_left_def by (rule hl_reach_turns[OF desk_headless_reach desk_moves_steps])

lemma desk_answered_reach: "hl_reach ending_lib desk_env desk_cfg desk_answered"
  unfolding desk_answered_def
  by (rule hl_reach_turns[OF desk_headless_reach])
    (use desk_moves_steps in \<open>simp add: list_all_iff, meson in_set_takeD\<close>)

text \<open>What the runs come to.\<close>

definition desk_view :: "(desk pjsip_backend, memory_keychain) headless \<Rightarrow> int option \<times> call_id \<times> call_id list \<times> (call_id \<times> call_state) list" where
  "desk_view h = (hl_exit h, hl_activeCallId h, map fst (pb_calls (hl_backend h)), map (\<lambda>(i, r). (i, cr_state r)) (cm_records (hl_calls h)))"

lemma desk_answered_view: "desk_view desk_answered = (None, 50002, [50001, 50002], [(50001, Confirmed), (50002, Confirmed)])"
  by code_simp

lemma desk_left_view: "desk_view desk_left = (Some 0, 50002, [50002], [(50002, Confirmed)])"
  by code_simp



subsection \<open>Exit codes\<close>

definition codes_ok :: "boot_config \<Rightarrow> ('b, 'k) headless \<Rightarrow> bool" where
  "codes_ok cfg h \<longleftrightarrow>
     hl_cfg h = cfg \<and> hl_exitAfterCall h = (bc_headlessExitAfterCall cfg = Some True) \<and>
     (HlDuration \<in> snd ` set (hl_timers h) \<longrightarrow> (\<exists>d>0. bc_headlessDurationSec cfg = Some d)) \<and>
     (HlNoAccount \<in> snd ` set (hl_timers h) \<longrightarrow> bc_headlessCallUri cfg \<noteq> None) \<and>
     (\<forall>n. hl_exit h = Some n \<longrightarrow>
        n = 0 \<and> ((\<exists>d>0. bc_headlessDurationSec cfg = Some d) \<or> bc_headlessExitAfterCall cfg = Some True \<and> hl_sawCall h) \<or>
        n = 3 \<and> bc_headlessCallUri cfg \<noteq> None \<and> hl_activeCallId h = kInvalidCallId)"

lemma codes_frames [simp]:
  "codes_ok cfg (h\<lparr>hl_calls := cm\<rparr>) = codes_ok cfg h" "codes_ok cfg (h\<lparr>hl_accounts := ac\<rparr>) = codes_ok cfg h"
  "codes_ok cfg (h\<lparr>hl_queue := q\<rparr>) = codes_ok cfg h" "codes_ok cfg (h\<lparr>hl_outboundPlaced := m\<rparr>) = codes_ok cfg h"
  "codes_ok cfg (on_hl_accounts f h) = codes_ok cfg h" "codes_ok cfg (on_hl_backend b h) = codes_ok cfg h"
  by (simp_all add: codes_ok_def on_hl_accounts_def on_hl_backend_def on_hl_calls_def Let_def)

definition hl_rest :: "('b, 'k) headless \<Rightarrow> boot_config \<times> call_id \<times> bool \<times> bool \<times> (int \<times> hl_timer) list \<times> int option" where
  "hl_rest h = (hl_cfg h, hl_activeCallId h, hl_exitAfterCall h, hl_sawCall h, hl_timers h, hl_exit h)"

lemma calls_rest: "on_hl_calls f h = (r, h1) \<Longrightarrow> hl_rest h1 = hl_rest h"
  by (auto simp: on_hl_calls_def hl_rest_def split: prod.splits)

lemma codes_rest: "hl_rest h1 = hl_rest h \<Longrightarrow> codes_ok cfg h1 = codes_ok cfg h"
  by (simp add: hl_rest_def codes_ok_def)

lemma running_codes: "hl_exit h = None \<Longrightarrow> codes_ok cfg (h\<lparr>hl_activeCallId := i\<rparr>) = codes_ok cfg h"
  "hl_exit h = None \<Longrightarrow> codes_ok cfg (h\<lparr>hl_sawCall := m\<rparr>) = codes_ok cfg h"
  by (simp_all add: codes_ok_def)

lemma codes_exit:
  "codes_ok cfg h \<Longrightarrow> \<exists>d>0. bc_headlessDurationSec cfg = Some d \<Longrightarrow> codes_ok cfg (exit_with 0 h)"
  "codes_ok cfg h \<Longrightarrow> bc_headlessCallUri cfg \<noteq> None \<Longrightarrow> hl_activeCallId h = kInvalidCallId \<Longrightarrow> codes_ok cfg (exit_with 3 h)"
  by (simp_all add: codes_ok_def exit_with_def)

lemma codes_shot: "codes_ok cfg (hl_singleShot ms (HlPlay i n) h) = codes_ok cfg h"
  by (simp add: codes_ok_def hl_singleShot_def)

lemma codes_fewer:
  assumes "codes_ok cfg h" "set ts \<subseteq> set (hl_timers h)"
  shows "codes_ok cfg (h\<lparr>hl_timers := ts\<rparr>)"
proof -
  have "t \<in> snd ` set (hl_timers h)" if "t \<in> snd ` set ts" for t using that assms(2) by blast
  then show ?thesis using assms(1) by (simp add: codes_ok_def)
qed

lemma codes_playback:
  assumes "codes_ok cfg h"
  shows "codes_ok cfg (startPlaybackWhenReady B i n h)"
proof -
  have "codes_ok cfg h1" if "on_hl_calls f h = (r, h1)" for f h1 and r :: bool
    using codes_rest[OF calls_rest[OF that]] assms by simp
  then show ?thesis
    by (auto simp: startPlaybackWhenReady_def assms codes_shot split: option.split prod.split bool.split)
qed

lemma codes_registration:
  assumes "hl_exit h = None" "codes_ok cfg h"
  shows "codes_ok cfg (onRegistrationState B i s h)"
proof (cases "bc_headlessCallUri cfg")
  case None
  then have "bc_headlessCallUri (hl_cfg h) = None" using assms(2) by (simp add: codes_ok_def)
  then show ?thesis using assms(2) by (simp add: onRegistrationState_def)
next
  case (Some uri)
  then have uri: "bc_headlessCallUri (hl_cfg h) = Some uri" using assms(2) by (simp add: codes_ok_def)
  have "codes_ok cfg (exit_with 3 (h1\<lparr>hl_activeCallId := kInvalidCallId\<rparr>)) \<and> codes_ok cfg (h1\<lparr>hl_activeCallId := c, hl_sawCall := True\<rparr>)"
    if "on_hl_calls f (h\<lparr>hl_outboundPlaced := True\<rparr>) = (c, h1)" for f c h1
  proof -
    have same: "hl_rest h1 = hl_rest h" using calls_rest[OF that] by (simp add: hl_rest_def)
    then have "hl_exit h1 = None" "codes_ok cfg h1" using codes_rest[OF same] assms by (simp_all add: hl_rest_def)
    then show ?thesis using Some by (simp add: codes_exit(2) running_codes)
  qed
  then show ?thesis
    using assms(2) by (auto simp: onRegistrationState_def uri Let_def split: prod.split)
qed

lemma codes_incoming: "hl_exit h = None \<Longrightarrow> codes_ok cfg h \<Longrightarrow> codes_ok cfg (onIncomingCall B i h) \<and> hl_exit (onIncomingCall B i h) = None"
  using calls_rest[OF prod.collapse[symmetric], of "cm_accept B i" "h\<lparr>hl_activeCallId := i, hl_sawCall := True\<rparr>"]
  by (auto simp: onIncomingCall_def Let_def codes_ok_def hl_rest_def)

lemma codes_event:
  assumes "hl_exit h = None" "codes_ok cfg h"
  shows "codes_ok cfg (run_hl_event B e h)"
proof (cases e)
  case (HlCall i s)
  have saw: "codes_ok cfg (h\<lparr>hl_activeCallId := i, hl_sawCall := True\<rparr>)" using assms by (simp add: running_codes)
  have left: "codes_ok cfg (exit_with 0 h1)" if "codes_ok cfg h1" "hl_exitAfterCall h1" "hl_sawCall h1" for h1 :: "('a, 'b) headless"
    using that by (simp add: codes_ok_def exit_with_def)
  show ?thesis
  proof (cases "s = Disconnected")
    case True
    let ?h1 = "if i = hl_activeCallId h then h\<lparr>hl_activeCallId := kInvalidCallId\<rparr> else h"
    have "codes_ok cfg ?h1" using assms by (simp add: running_codes)
    then show ?thesis using left[of ?h1] by (simp add: HlCall True onCallEvent_def Let_def)
  next
    case False
    then show ?thesis using assms(2) codes_playback[OF saw] by (simp add: HlCall onCallEvent_def)
  qed
qed (simp add: codes_registration assms)

lemma codes_signals:
  "hl_exit h = None \<Longrightarrow> codes_ok cfg h \<Longrightarrow> codes_ok cfg (fold (on_call_signal B) ss h)"
proof (induction ss arbitrary: h)
  case (Cons sig ss)
  then have "codes_ok cfg (on_call_signal B sig h) \<and> hl_exit (on_call_signal B sig h) = None"
    using codes_incoming[of h cfg B] by (auto simp: on_call_signal_def split: cm_signal.split)
  then show ?case using Cons.IH by simp
qed simp

lemma codes_manager:
  assumes "hl_exit h = None" "codes_ok cfg h"
  shows "codes_ok cfg (hl_manager_step B f h)"
proof -
  have same: "hl_rest (snd (on_hl_calls (\<lambda>cm. ((), f cm)) h)) = hl_rest h"
    using calls_rest[OF prod.collapse[symmetric]] .
  then have "hl_exit (snd (on_hl_calls (\<lambda>cm. ((), f cm)) h)) = None" using assms(1) by (simp add: hl_rest_def)
  then show ?thesis
    unfolding hl_manager_step_def Let_def using codes_signals codes_rest[OF same] assms(2) by blast
qed

lemma codes_timer:
  assumes "hl_exit h = None" "codes_ok cfg h"
  shows "codes_ok cfg (hl_timer_fires B n h)"
proof (cases "n < length (hl_timers h)")
  case True
  let ?h = "h\<lparr>hl_timers := take n (hl_timers h) @ drop (Suc n) (hl_timers h)\<rparr>"
  have ok: "codes_ok cfg ?h"
    by (rule codes_fewer[OF assms(2)]) (auto dest: in_set_takeD in_set_dropD)
  have armed: "snd (hl_timers h ! n) \<in> snd ` set (hl_timers h)" using True by (intro imageI nth_mem)
  show ?thesis
  proof (cases "snd (hl_timers h ! n)")
    case HlDuration
    with armed have "HlDuration \<in> snd ` set (hl_timers h)" by metis
    then have "\<exists>d>0. bc_headlessDurationSec cfg = Some d" using assms(2) by (auto simp only: codes_ok_def)
    then show ?thesis using ok True HlDuration codes_exit(1) by (simp add: hl_timer_fires_def)
  next
    case HlNoAccount
    with armed have "HlNoAccount \<in> snd ` set (hl_timers h)" by metis
    then have "bc_headlessCallUri cfg \<noteq> None" using assms(2) by (auto simp only: codes_ok_def)
    then show ?thesis using ok True HlNoAccount codes_exit(2)[of cfg ?h] by (auto simp: hl_timer_fires_def)
  next
    case (HlPlay i k)
    then show ?thesis using ok True by (simp add: hl_timer_fires_def codes_playback)
  qed
qed (simp add: hl_timer_fires_def assms(2))

lemma codes_step:
  assumes "hl_step L E h h'" "hl_exit h = None" "codes_ok cfg h"
  shows "codes_ok cfg h'"
  using assms
proof (elim hl_step_cases, goal_cases)
  case 1
  then show ?case by (simp add: hl_deliver_def codes_event split: list.split)
next
  case (8 ord)
  have frame: "hl_exit (on_hl_accounts g (on_hl_backend b h)) = None" for b g
    using assms(2) by (simp add: on_hl_backend_def on_hl_calls_def on_hl_accounts_def Let_def)
  have "codes_ok cfg (hl_pj_deliver L E ord h)"
    unfolding hl_pj_deliver_def hl_fanout_def Let_def
    using assms(3) codes_manager[OF frame] by (simp split: prod.split option.split)
  then show ?case using 8 by simp
qed (simp_all add: codes_timer codes_manager)

lemma codes_start: "hl_start B K w kc cfg = (0, Some h) \<Longrightarrow> codes_ok cfg h \<and> hl_exit h = None"
proof -
  assume "hl_start B K w kc cfg = (0, Some h)"
  then obtain f db b where h: "h = arm_timers cfg (on_hl_accounts f (hl_new B cfg b db kc))"
    by (auto simp: hl_start_def split: if_splits option.splits)
  have "hl_cfg (hl_new B cfg b db kc) = cfg" "hl_timers (hl_new B cfg b db kc) = []" "hl_exit (hl_new B cfg b db kc) = None"
    "hl_exitAfterCall (hl_new B cfg b db kc) = (bc_headlessExitAfterCall cfg = Some True)"
    by (auto simp: hl_new_def Let_def split: option.split)
  then show ?thesis
    by (auto simp: h arm_timers_def Let_def codes_ok_def hl_singleShot_def on_hl_accounts_def split: option.split)
qed

lemma hl_reach_codes: "hl_reach L E cfg h \<Longrightarrow> codes_ok cfg h"
  by (induction rule: hl_reach.induct) (auto simp: codes_start codes_step)




subsection \<open>Waiting for media\<close>

fun hl_weight :: "hl_timer \<Rightarrow> nat" where
  "hl_weight (HlPlay i n) = Suc (nat (n - 1))"
| "hl_weight t = 1"

definition hl_load :: "('b, 'k) headless \<Rightarrow> nat" where
  "hl_load h = sum_list (map (hl_weight \<circ> snd) (hl_timers h))"

text \<open>The runner's timers fire one after the other, nothing else happening: the list says which one each time.\<close>

fun hl_fires :: "'b isip_backend \<Rightarrow> nat list \<Rightarrow> ('b, 'k) headless \<Rightarrow> bool" where
  "hl_fires B [] h \<longleftrightarrow> True"
| "hl_fires B (n # ns) h \<longleftrightarrow> n < length (hl_timers h) \<and> hl_fires B ns (hl_timer_fires B n h)"

lemma playback_load: "hl_load (startPlaybackWhenReady B i n h) \<le> hl_load h + nat n"
proof -
  have "hl_load h1 = hl_load h" if "on_hl_calls f h = (r, h1)" for f h1 and r :: bool
    using calls_rest[OF that] by (simp add: hl_rest_def hl_load_def)
  moreover have "hl_load (hl_singleShot 400 (HlPlay i n) h1) = hl_load h1 + nat n" if "0 < n" for h1 :: "('a, 'b) headless"
    using that by (simp add: hl_singleShot_def hl_load_def)
  ultimately show ?thesis
    by (auto simp: startPlaybackWhenReady_def split: option.split prod.split bool.split)
qed

lemma timer_fires_load:
  assumes "n < length (hl_timers h)"
  shows "hl_load (hl_timer_fires B n h) < hl_load h"
proof -
  let ?t = "snd (hl_timers h ! n)"
  let ?h = "h\<lparr>hl_timers := take n (hl_timers h) @ drop (Suc n) (hl_timers h)\<rparr>"
  have "hl_load (run_hl_timer B ?t ?h) < hl_load ?h + hl_weight ?t"
  proof (cases ?t)
    case (HlPlay i k)
    then show ?thesis using playback_load[of B i "k - 1" ?h] by simp
  qed (simp_all add: exit_with_def hl_load_def)
  moreover have "hl_load ?h + hl_weight ?t = hl_load h"
    using arg_cong[OF id_take_nth_drop[OF assms], of "\<lambda>ts. sum_list (map (hl_weight \<circ> snd) ts)"]
    by (simp add: hl_load_def)
  ultimately show ?thesis using assms by (simp add: hl_timer_fires_def)
qed

text \<open>Waiting for media ends: once a call is confirmed its playback is tried at most fifteen times more, whatever
  the backend answers and however the timers are scheduled; what else can fire was armed before.\<close>

theorem playback_waiting_ends:
  assumes "hl_fires B ns (onCallEvent B i Confirmed h)"
  shows "length ns \<le> hl_load h + 15"
proof -
  have run: "hl_fires B ns h' \<Longrightarrow> length ns \<le> hl_load h'" for h'
  proof (induction ns arbitrary: h')
    case (Cons n ns)
    then show ?case using timer_fires_load[of n h' B] by (fastforce intro: less_le_trans)
  qed simp
  have "hl_load (h\<lparr>hl_activeCallId := i, hl_sawCall := True\<rparr>) = hl_load h" by (simp add: hl_load_def)
  with run[OF assms] playback_load[of B i 15 "h\<lparr>hl_activeCallId := i, hl_sawCall := True\<rparr>"] show ?thesis
    by (simp add: onCallEvent_def)
qed

text \<open>A call the backend does not know keeps the runner trying to the end.\<close>

definition deaf_headless :: "(fake_backend, memory_keychain) headless" where
  "deaf_headless = hl_new FakeB (no_config\<lparr>bc_headlessPlayFile := Some ''f.wav''\<rparr>) fb_new empty_db (\<lambda>_. None)"

theorem playback_waiting_ends_witness:
  "hl_timers (onCallEvent FakeB 7 Confirmed deaf_headless) = [(400, HlPlay 7 15)] \<and> length (replicate 15 (0::nat)) \<le> hl_load deaf_headless + 15"
proof
  show "hl_timers (onCallEvent FakeB 7 Confirmed deaf_headless) = [(400, HlPlay 7 15)]" by code_simp
  have "hl_fires FakeB (replicate 15 0) (onCallEvent FakeB 7 Confirmed deaf_headless)" by code_simp
  then show "length (replicate 15 (0::nat)) \<le> hl_load deaf_headless + 15" by (rule playback_waiting_ends)
qed

text \<open>The seconds of a time limit above 2147483 wrap around.\<close>

lemma duration_bound: "0 \<le> d \<Longrightarrow> d \<le> 2147483 \<Longrightarrow> duration_ms d = d * 1000"
  unfolding duration_ms_def sint_sbintrunc' by (simp add: signed_take_bit_int_eq_self)

lemma duration_wraps: "duration_ms 2147484 = -2147483296"
  by (simp add: duration_ms_def)

end
