(* ===== verification/PhoneApp.thy ===== *)
theory PhoneApp imports Versions CallsControl BootProps begin

text \<open>
  \<open>core/PhoneController.{h,cpp}\<close>, what it does itself rather than pass on: notices, the update prompts, links from
  outside (with \<open>core/UrlDispatcher\<close>), the network and wake-up (\<open>core/NetworkMonitor\<close>), voicemail and redial; and
  \<open>applyBootConfig\<close> of \<open>main.cpp\<close>.  It holds the controllers, which share one backend.
\<close>

subsection \<open>State\<close>

datatype app_signal =
    NoticeChanged
  | LatestUpdateChanged
  | UpdatePromptRequested string qurl
  | DialerUriChanged
  | TrayShowRequested
  | TrayNotify string string
  | Requested qurl string  \<comment> \<open>of the appcast, by the checker\<close>
  | OpenedUrl qurl  \<comment> \<open>in the browser\<close>

text \<open>The notice timer is the time at which it fires, on a clock of its own.\<close>

record ('b, 'k, 'a) phone_app =
  ap_notice :: string
  ap_noticeTimer :: "int option"
  ap_clock :: int
  ap_latestUpdateVersion :: string
  ap_latestUpdateUrl :: qurl
  ap_autoUpdateCheckActive :: bool
  ap_updateChecker :: update_checker
  ap_dialerUri :: string
  ap_accounts :: "('b, 'k) accounts_controller"
  ap_calls :: "'b calls_controller"
  ap_settings :: "('b, 'a) settings_controller"
  ap_signals :: "app_signal list"

definition ap_emit :: "app_signal \<Rightarrow> ('b, 'k, 'a) phone_app \<Rightarrow> ('b, 'k, 'a) phone_app" where
  "ap_emit s pa = pa\<lparr>ap_signals := ap_signals pa @ [s]\<rparr>"

text \<open>The controllers hold a pointer to one backend: after one of them used it the others see it.\<close>

definition share_backend :: "'b \<Rightarrow> ('b, 'k, 'a) phone_app \<Rightarrow> ('b, 'k, 'a) phone_app" where
  "share_backend b pa = pa\<lparr>
     ap_accounts := (ap_accounts pa)\<lparr>ac_accounts := (ac_accounts (ap_accounts pa))\<lparr>am_backend := b\<rparr>\<rparr>,
     ap_calls := (ap_calls pa)\<lparr>cc_calls := map_option (\<lambda>cm. cm\<lparr>cm_backend := b\<rparr>) (cc_calls (ap_calls pa))\<rparr>,
     ap_settings := (ap_settings pa)\<lparr>sc_backend := map_option (\<lambda>_. b) (sc_backend (ap_settings pa))\<rparr>\<rparr>"

subsection \<open>Notices\<close>

text \<open>\<open>core/NoticeDuration.h\<close>\<close>

definition kBrief :: int where "kBrief = 2500"
definition kShort :: int where "kShort = 3000"
definition kDefault :: int where "kDefault = 4000"
definition kError :: int where "kError = 5000"
definition kWarning :: int where "kWarning = 6000"

definition dismissNotice :: "('b, 'k, 'a) phone_app \<Rightarrow> ('b, 'k, 'a) phone_app" where
  "dismissNotice pa =
     (if ap_notice pa = [] then pa else ap_emit NoticeChanged (pa\<lparr>ap_notice := [], ap_noticeTimer := None\<rparr>))"

definition pc_postNotice :: "string \<Rightarrow> int \<Rightarrow> ('b, 'k, 'a) phone_app \<Rightarrow> ('b, 'k, 'a) phone_app" where
  "pc_postNotice txt autoDismissMs pa =
     (let pa1 = ap_emit NoticeChanged (pa\<lparr>ap_notice := txt\<rparr>)
      in if autoDismissMs > 0 then pa1\<lparr>ap_noticeTimer := Some (ap_clock pa + autoDismissMs)\<rparr> else pa1)"

text \<open>The event loop, some milliseconds later.\<close>

definition ap_elapse :: "int \<Rightarrow> ('b, 'k, 'a) phone_app \<Rightarrow> ('b, 'k, 'a) phone_app" where
  "ap_elapse ms pa =
     (let pa1 = pa\<lparr>ap_clock := ap_clock pa + ms\<rparr>
      in case ap_noticeTimer pa1 of
           None \<Rightarrow> pa1
         | Some t \<Rightarrow> if t \<le> ap_clock pa1 then dismissNotice (pa1\<lparr>ap_noticeTimer := None\<rparr>) else pa1)"

subsection \<open>Updates\<close>

text \<open>The slots on the checker's signals.  The ellipsis and the dashes of the texts are UTF-8.\<close>

fun on_update_signal :: "update_signal \<Rightarrow> ('b, 'k, 'a) phone_app \<Rightarrow> ('b, 'k, 'a) phone_app" where
  "on_update_signal (UpdateAvailable v url) pa =
     (let changed = (ap_latestUpdateVersion pa \<noteq> v \<or> ap_latestUpdateUrl pa \<noteq> url);
          pa1 = pa\<lparr>ap_latestUpdateVersion := v, ap_latestUpdateUrl := url\<rparr>;
          pa2 = (if changed then ap_emit LatestUpdateChanged pa1 else pa1);
          skipped = sc_skippedUpdateVersion (ap_settings pa2)
      in if ap_autoUpdateCheckActive pa2 \<and> skipped \<noteq> [] \<and> v = skipped then pa2
         else ap_emit (UpdatePromptRequested v url) pa2)"
| "on_update_signal UpToDate pa =
     (let pa1 = (if ap_latestUpdateVersion pa \<noteq> [] \<or> \<not> url_isEmpty (ap_latestUpdateUrl pa)
                 then ap_emit LatestUpdateChanged (pa\<lparr>ap_latestUpdateVersion := [], ap_latestUpdateUrl := no_url\<rparr>) else pa)
      in if ap_autoUpdateCheckActive pa1 then pa1 else pc_postNotice ''Compact Phone is up to date'' kDefault pa1)"
| "on_update_signal (CheckFailed reason) pa =
     (if ap_autoUpdateCheckActive pa then pa else pc_postNotice (''Update check failed: '' @ reason) kError pa)"
| "on_update_signal (HttpGet url agent) pa = ap_emit (Requested url agent) pa"
| "on_update_signal FeedUrlChanged pa = pa"

definition on_checker ::
  "(update_checker \<Rightarrow> update_checker \<times> update_signal list) \<Rightarrow> ('b, 'k, 'a) phone_app \<Rightarrow> ('b, 'k, 'a) phone_app" where
  "on_checker f pa = (case f (ap_updateChecker pa) of (uc, ss) \<Rightarrow> fold on_update_signal ss (pa\<lparr>ap_updateChecker := uc\<rparr>))"

definition on_settings ::
  "(('b, 'a) settings_controller \<Rightarrow> ('b, 'a) settings_controller) \<Rightarrow> ('b, 'k, 'a) phone_app \<Rightarrow> ('b, 'k, 'a) phone_app" where
  "on_settings f pa = pa\<lparr>ap_settings := f (ap_settings pa)\<rparr>"

definition checkForUpdates ::
  "(string \<Rightarrow> qurl) \<Rightarrow> sql_outcome \<Rightarrow> int \<Rightarrow> ('b, 'k, 'a) phone_app \<Rightarrow> ('b, 'k, 'a) phone_app" where
  "checkForUpdates parseUrl q now pa =
     on_checker (uc_check parseUrl)
       (pc_postNotice (''Checking for updates'' @ [CHR 0xE2, CHR 0x80, CHR 0xA6]) kBrief
         (on_settings (setLastUpdateCheckMs q now) (pa\<lparr>ap_autoUpdateCheckActive := False\<rparr>)))"

definition kThrottleMs :: int where "kThrottleMs = 24 * 60 * 60 * 1000"

text \<open>\<open>qint64\<close> subtraction; the clock and the stored time are non-negative, so it does not overflow.\<close>

definition startup_check_due :: "sql_outcome \<Rightarrow> int \<Rightarrow> ('b, 'a) settings_controller \<Rightarrow> bool" where
  "startup_check_due q now sc =
     (sc_autoUpdateCheckEnabled sc \<and>
      (let last = lastUpdateCheckMs q sc in \<not> (last > 0 \<and> now - last < kThrottleMs)))"

definition maybeCheckForUpdatesOnStartup ::
  "(string \<Rightarrow> qurl) \<Rightarrow> sql_outcome \<Rightarrow> int \<Rightarrow> ('b, 'k, 'a) phone_app \<Rightarrow> ('b, 'k, 'a) phone_app" where
  "maybeCheckForUpdatesOnStartup parseUrl q now pa =
     (if \<not> startup_check_due q now (ap_settings pa) then pa
      else on_checker (uc_check parseUrl)
             (on_settings (setLastUpdateCheckMs q now) (pa\<lparr>ap_autoUpdateCheckActive := True\<rparr>)))"

definition skipUpdateVersion :: "sql_outcome \<Rightarrow> string \<Rightarrow> ('b, 'k, 'a) phone_app \<Rightarrow> ('b, 'k, 'a) phone_app" where
  "skipUpdateVersion q v = on_settings (setSkippedUpdateVersion q v)"

text \<open>\<open>opened\<close> is the answer of the desktop.\<close>

definition openLatestUpdateUrl :: "bool \<Rightarrow> ('b, 'k, 'a) phone_app \<Rightarrow> ('b, 'k, 'a) phone_app" where
  "openLatestUpdateUrl opened pa =
     (let url = ap_latestUpdateUrl pa; scheme = map q_lower (url_scheme url)
      in if \<not> (url_isValid url \<and> \<not> url_isEmpty url \<and> url_host url \<noteq> [] \<and> (scheme = ''https'' \<or> scheme = ''http''))
         then pc_postNotice ''No update download available'' kShort pa
         else (let pa1 = ap_emit (OpenedUrl url) pa
               in if opened then pa1 else pc_postNotice ''Could not open the update download'' kError pa1))"

subsection \<open>Dialling\<close>

definition setDialerUri :: "string \<Rightarrow> ('b, 'k, 'a) phone_app \<Rightarrow> ('b, 'k, 'a) phone_app" where
  "setDialerUri u pa = (if ap_dialerUri pa = u then pa else ap_emit DialerUriChanged (pa\<lparr>ap_dialerUri := u\<rparr>))"

text \<open>The calls controller asks the accounts controller for the active account.\<close>

definition ap_env :: "('b, 'k, 'b, 'a) cc_env \<Rightarrow> ('b, 'k, 'a) phone_app \<Rightarrow> ('b, 'k, 'b, 'a) cc_env" where
  "ap_env e pa = e\<lparr>env_accounts := Some (ac_accounts (ap_accounts pa)), env_settings := Some (ap_settings pa),
     env_activeAccount := Some (activeAccountId (ap_accounts pa))\<rparr>"

definition pc_dial :: "'b isip_backend \<Rightarrow> ('b, 'k, 'b, 'a) cc_env \<Rightarrow> string \<Rightarrow> ('b, 'k, 'a) phone_app \<Rightarrow> ('b, 'k, 'a) phone_app" where
  "pc_dial B e uri pa =
     (let pa1 = pa\<lparr>ap_calls := CallsControl.dial B (ap_env e pa) uri (ap_calls pa)\<rparr>
      in case cc_calls (ap_calls pa1) of None \<Rightarrow> pa1 | Some cm \<Rightarrow> share_backend (cm_backend cm) pa1)"

definition redialFromHistory ::
  "'b isip_backend \<Rightarrow> ('b, 'k, 'b, 'a) cc_env \<Rightarrow> bool \<Rightarrow> database \<Rightarrow> int \<Rightarrow> ('b, 'k, 'a) phone_app \<Rightarrow> ('b, 'k, 'a) phone_app" where
  "redialFromHistory B e prepared db i pa =
     (case hm_findById prepared i db of
        None \<Rightarrow> pa
      | Some h \<Rightarrow> pc_dial B e (he_remoteUri h) (setDialerUri (he_remoteUri h) pa))"

definition newVoicemailCount :: "('b, 'k, 'a) phone_app \<Rightarrow> int" where
  "newVoicemailCount pa =
     (let aid = activeAccountId (ap_accounts pa)
      in if aid \<le> 0 then 0 else mw_newMessages (mwiStateOf aid (ac_accounts (ap_accounts pa))))"

definition activeVoicemailNumber :: "('b, 'k, 'a) phone_app \<Rightarrow> string" where
  "activeVoicemailNumber pa =
     (let aid = activeAccountId (ap_accounts pa)
      in if aid \<le> 0 then []
         else case am_find aid (ac_accounts (ap_accounts pa)) of Some a \<Rightarrow> acc_voicemailNumber a | None \<Rightarrow> [])"

definition dialVoicemail :: "'b isip_backend \<Rightarrow> ('b, 'k, 'b, 'a) cc_env \<Rightarrow> ('b, 'k, 'a) phone_app \<Rightarrow> ('b, 'k, 'a) phone_app" where
  "dialVoicemail B e pa = (let num = activeVoicemailNumber pa in if num \<noteq> [] then pc_dial B e num pa else pa)"

definition firstHeldCallId :: "(call_id list \<Rightarrow> call_id list) \<Rightarrow> int \<Rightarrow> ('b, 'k, 'a) phone_app \<Rightarrow> int" where
  "firstHeldCallId ord excludeCallId pa =
     (case cc_calls (ap_calls pa) of
        None \<Rightarrow> -1
      | Some cm \<Rightarrow>
          (case find (\<lambda>e. ce_id e \<noteq> excludeCallId \<and> ce_held e \<and> ce_state e = Confirmed) (snapshot ord cm) of
             Some e \<Rightarrow> ce_id e | None \<Rightarrow> -1))"

subsection \<open>Links from outside\<close>

definition dial_text :: "string \<Rightarrow> string" where
  "dial_text t =
     (let lower = map q_lower t
      in if starts_with ''tel:'' lower then drop 4 t else if starts_with ''callto:'' lower then drop 7 t else t)"

definition handleUri :: "string \<Rightarrow> ('b, 'k, 'a) phone_app \<Rightarrow> ('b, 'k, 'a) phone_app" where
  "handleUri raw pa =
     (let trimmed = trim_with q_space raw
      in if trimmed = [] then pa else ap_emit TrayShowRequested (setDialerUri (dial_text trimmed) pa))"

text \<open>
  \<open>UrlDispatcher\<close> and its one listener, which is \<open>None\<close> until the controller is constructed; \<open>dp_posted\<close> is what
  the controller posted to itself at its construction.
\<close>

record ('b, 'k, 'a) dispatcher =
  dp_pending :: string
  dp_posted :: "string list"
  dp_listener :: "('b, 'k, 'a) phone_app option"

definition takePending :: "('b, 'k, 'a) dispatcher \<Rightarrow> string \<times> ('b, 'k, 'a) dispatcher" where
  "takePending d = (dp_pending d, d\<lparr>dp_pending := []\<rparr>)"

definition file_open :: "string \<Rightarrow> ('b, 'k, 'a) dispatcher \<Rightarrow> ('b, 'k, 'a) dispatcher" where
  "file_open uri d =
     (if uri = [] then d
      else case dp_listener d of
        None \<Rightarrow> d\<lparr>dp_pending := uri\<rparr>
      | Some pa \<Rightarrow> d\<lparr>dp_listener := Some (handleUri uri pa)\<rparr>)"

definition wire_controller :: "('b, 'k, 'a) phone_app \<Rightarrow> ('b, 'k, 'a) dispatcher \<Rightarrow> ('b, 'k, 'a) dispatcher" where
  "wire_controller pa d =
     (case takePending (d\<lparr>dp_listener := Some pa\<rparr>) of
        (pending, d1) \<Rightarrow> if pending \<noteq> [] then d1\<lparr>dp_posted := dp_posted d1 @ [pending]\<rparr> else d1)"

definition run_posted :: "('b, 'k, 'a) dispatcher \<Rightarrow> ('b, 'k, 'a) dispatcher" where
  "run_posted d =
     (case dp_posted d of
        [] \<Rightarrow> d
      | uri # us \<Rightarrow> d\<lparr>dp_posted := us, dp_listener := map_option (handleUri uri) (dp_listener d)\<rparr>)"

subsection \<open>The network and waking up\<close>

datatype reachability = ReachUnknown | ReachDisconnected | ReachLocal | ReachSite | ReachOnline

datatype network_action = NaNone | EmitBack | EmitLost

definition decideReachabilityChange :: "bool \<Rightarrow> reachability \<Rightarrow> network_action \<times> bool" where
  "decideReachabilityChange wasOnline r =
     (let nowOnline = (r = ReachOnline)
      in if nowOnline = wasOnline then (NaNone, wasOnline)
         else (if nowOnline then EmitBack else EmitLost, nowOnline))"

definition decideTransportChange :: "bool \<Rightarrow> network_action" where
  "decideTransportChange online = (if online then EmitBack else NaNone)"

definition pc_networkBack :: "'b isip_backend \<Rightarrow> 'k ikeychain \<Rightarrow> ('b, 'k, 'a) phone_app \<Rightarrow> ('b, 'k, 'a) phone_app" where
  "pc_networkBack B K pa =
     (let ac = on_network_back B K (ap_accounts pa)
      in ap_emit (TrayNotify ''Network restored'' ''Re-registering your SIP accounts.'')
           (share_backend (am_backend (ac_accounts ac)) (pa\<lparr>ap_accounts := ac\<rparr>)))"

definition pc_networkLost :: "('b, 'k, 'a) phone_app \<Rightarrow> ('b, 'k, 'a) phone_app" where
  "pc_networkLost = pc_postNotice (''Network connection lost '' @ [CHR 0xE2, CHR 0x80, CHR 0x94] @ '' calls may drop'') kWarning"

definition pc_wokeUp :: "'b isip_backend \<Rightarrow> 'k ikeychain \<Rightarrow> ('b, 'k, 'a) phone_app \<Rightarrow> ('b, 'k, 'a) phone_app" where
  "pc_wokeUp B K pa =
     (let ac = on_network_back B K (ap_accounts pa)
      in share_backend (am_backend (ac_accounts ac)) (pa\<lparr>ap_accounts := ac\<rparr>))"

definition pc_network :: "'b isip_backend \<Rightarrow> 'k ikeychain \<Rightarrow> network_action \<Rightarrow> ('b, 'k, 'a) phone_app \<Rightarrow> ('b, 'k, 'a) phone_app" where
  "pc_network B K a = (case a of NaNone \<Rightarrow> id | EmitBack \<Rightarrow> pc_networkBack B K | EmitLost \<Rightarrow> pc_networkLost)"

subsection \<open>The boot configuration on the desktop\<close>

text \<open>The account is looked up in the list model and by its snapshot.\<close>

definition boot_existing :: "boot_account \<Rightarrow> ('b, 'k) accounts_controller \<Rightarrow> int" where
  "boot_existing a ac =
     (let user = param_string (ba_params a) ''username''; domain = param_string (ba_params a) ''domain'';
          am = ac_accounts ac;
          ids = map (\<lambda>x. q_toInteger (accounts_data am x ArIdRole)) (mo_snapshot (ac_model ac))
      in if user = [] \<or> domain = [] then -1
         else case find (\<lambda>i. param_string (accountSnapshot i am) ''username'' = user \<and>
                             param_string (accountSnapshot i am) ''domain'' = domain) ids of
                Some i \<Rightarrow> i | None \<Rightarrow> -1)"

fun boot_accounts ::
  "'b isip_backend \<Rightarrow> 'k ikeychain \<Rightarrow> bool \<Rightarrow> ((nat \<Rightarrow> bool) \<times> (nat \<Rightarrow> bool) \<times> string) list \<Rightarrow> boot_account list \<Rightarrow>
   ('b, 'k) accounts_controller \<Rightarrow> ('b, 'k) accounts_controller" where
  "boot_accounts B K replace ((f, g, ref) # envs) (a # as) ac =
     (let existingId = (if replace then boot_existing a ac else -1);
          p = (if ba_password a \<noteq> [] then (ba_params a)(''password'' \<mapsto> RvString (ba_password a)) else ba_params a)
      in boot_accounts B K replace envs as
           (if existingId > 0 then snd (updateAccount B K f g existingId p ac) else snd (addAccount B K f g ref p ac)))"
| "boot_accounts B K replace _ _ ac = ac"

definition applyBootConfig ::
  "'b isip_backend \<Rightarrow> 'k ikeychain \<Rightarrow> sql_outcome \<Rightarrow> ((nat \<Rightarrow> bool) \<times> (nat \<Rightarrow> bool) \<times> string) list \<Rightarrow> boot_config \<Rightarrow>
   ('b, 'k, 'a) phone_app \<Rightarrow> ('b, 'k, 'a) phone_app" where
  "applyBootConfig B K q envs cfg pa =
     (let pa1 = (case bc_logLevel cfg of Some x \<Rightarrow> on_settings (setLogLevel q x) pa | None \<Rightarrow> pa);
          ac = boot_accounts B K (bc_replaceAccounts cfg) envs (bc_accounts cfg) (ap_accounts pa1);
          pa2 = share_backend (am_backend (ac_accounts ac)) (pa1\<lparr>ap_accounts := ac\<rparr>);
          pa3 = (case bc_autoAnswer cfg of Some x \<Rightarrow> on_settings (setAutoAnswerEnabled q x) pa2 | None \<Rightarrow> pa2);
          pa4 = (case bc_dnd cfg of Some x \<Rightarrow> on_settings (setDndEnabled q x) pa3 | None \<Rightarrow> pa3)
      in case bc_theme cfg of Some x \<Rightarrow> on_settings (setThemeId q x) pa4 | None \<Rightarrow> pa4)"

end
