(* ===== verification/PhoneAppProps.thy ===== *)
theory PhoneAppProps imports PhoneApp begin

text \<open>
  Properties of what the controller does itself: what it opens in the browser, how often it looks for updates,
  what a link from outside can do, and that both programs apply a boot configuration alike.
\<close>

subsection \<open>Runs\<close>

datatype app_input =
    InCheck sql_outcome int
  | InStartup sql_outcome int
  | InReply "string + start_element list"
  | InSkip sql_outcome string
  | InOpen bool
  | InLink string
  | InNotice string int
  | InDismiss
  | InElapse int
  | InNetwork network_action
  | InWake
  | InDial string
  | InRedial bool database int
  | InVoicemail

fun ap_apply ::
  "'b isip_backend \<Rightarrow> 'k ikeychain \<Rightarrow> ('b, 'k, 'b, 'a) cc_env \<Rightarrow> (string \<Rightarrow> qurl) \<Rightarrow> app_input \<Rightarrow>
   ('b, 'k, 'a) phone_app \<Rightarrow> ('b, 'k, 'a) phone_app" where
  "ap_apply B K e P (InCheck q now) pa = checkForUpdates P q now pa"
| "ap_apply B K e P (InStartup q now) pa = maybeCheckForUpdatesOnStartup P q now pa"
| "ap_apply B K e P (InReply r) pa = on_checker (onReplyFinished P r) pa"
| "ap_apply B K e P (InSkip q v) pa = skipUpdateVersion q v pa"
| "ap_apply B K e P (InOpen opened) pa = openLatestUpdateUrl opened pa"
| "ap_apply B K e P (InLink u) pa = handleUri u pa"
| "ap_apply B K e P (InNotice t ms) pa = pc_postNotice t ms pa"
| "ap_apply B K e P InDismiss pa = dismissNotice pa"
| "ap_apply B K e P (InElapse ms) pa = ap_elapse ms pa"
| "ap_apply B K e P (InNetwork a) pa = pc_network B K a pa"
| "ap_apply B K e P InWake pa = pc_wokeUp B K pa"
| "ap_apply B K e P (InDial u) pa = pc_dial B e u pa"
| "ap_apply B K e P (InRedial m db i) pa = redialFromHistory B e m db i pa"
| "ap_apply B K e P InVoicemail pa = dialVoicemail B e pa"

text \<open>What is left alone by everything but the updates: the newest version known, and what was opened or offered.\<close>

definition opened_or_offered :: "app_signal list \<Rightarrow> app_signal list" where
  "opened_or_offered = filter (\<lambda>s. case s of OpenedUrl u \<Rightarrow> True | UpdatePromptRequested v u \<Rightarrow> True | _ \<Rightarrow> False)"

definition update_view :: "('b, 'k, 'a) phone_app \<Rightarrow> app_signal list \<times> string \<times> qurl \<times> bool \<times> string" where
  "update_view pa = (opened_or_offered (ap_signals pa), ap_latestUpdateVersion pa, ap_latestUpdateUrl pa, ap_autoUpdateCheckActive pa,
     sc_skippedUpdateVersion (ap_settings pa))"

lemma opened_append [simp]:
  "opened_or_offered (a @ b) = opened_or_offered a @ opened_or_offered b" "opened_or_offered [] = []"
  "opened_or_offered (s # a) = (case s of OpenedUrl u \<Rightarrow> s # opened_or_offered a | UpdatePromptRequested v u \<Rightarrow> s # opened_or_offered a
     | _ \<Rightarrow> opened_or_offered a)"
  by (simp_all add: opened_or_offered_def split: app_signal.split)

lemma share_view [simp]: "update_view (share_backend b pa) = update_view pa"
  by (simp add: update_view_def share_backend_def)

lemma notice_view [simp]:
  "update_view (pc_postNotice t ms pa) = update_view pa" "update_view (dismissNotice pa) = update_view pa"
  "update_view (ap_elapse ms pa) = update_view pa" "update_view (handleUri u pa) = update_view pa"
  "update_view (setDialerUri u pa) = update_view pa"
  by (simp_all add: update_view_def pc_postNotice_def dismissNotice_def ap_elapse_def handleUri_def setDialerUri_def ap_emit_def Let_def
      split: option.split)

lemma dial_view [simp]:
  "update_view (pc_dial B e u pa) = update_view pa" "update_view (redialFromHistory B e m db i pa) = update_view pa"
  "update_view (dialVoicemail B e pa) = update_view pa"
proof -
  have *: "update_view (pc_dial B e u pa) = update_view pa" for u and pa :: "('a, 'b, 'c) phone_app"
    by (simp add: pc_dial_def Let_def split: option.split) (simp add: update_view_def)
  then show "update_view (pc_dial B e u pa) = update_view pa" .
  show "update_view (redialFromHistory B e m db i pa) = update_view pa"
    by (simp add: redialFromHistory_def * split: option.split)
  show "update_view (dialVoicemail B e pa) = update_view pa" by (simp add: dialVoicemail_def Let_def *)
qed

lemma network_view [simp]: "update_view (pc_network B K a pa) = update_view pa" "update_view (pc_wokeUp B K pa) = update_view pa"
proof -
  have *: "update_view (pa\<lparr>ap_accounts := ac\<rparr>) = update_view pa" "update_view (ap_emit (TrayNotify t m) pa) = update_view pa"
    for t m ac and pa :: "('a, 'b, 'c) phone_app" by (simp_all add: update_view_def ap_emit_def)
  show "update_view (pc_network B K a pa) = update_view pa" "update_view (pc_wokeUp B K pa) = update_view pa"
    by (simp_all add: pc_network_def pc_networkBack_def pc_networkLost_def pc_wokeUp_def Let_def * split: network_action.split)
qed

subsection \<open>What is opened\<close>

definition trusted_download :: "qurl \<Rightarrow> bool" where
  "trusted_download u \<longleftrightarrow> isHttpsUrl u \<and> isTrustedDownloadHost u"

definition downloads_ok :: "('b, 'k, 'a) phone_app \<Rightarrow> bool" where
  "downloads_ok pa \<longleftrightarrow> (ap_latestUpdateUrl pa = no_url \<or> trusted_download (ap_latestUpdateUrl pa)) \<and>
     (\<forall>u. OpenedUrl u \<in> set (ap_signals pa) \<longrightarrow> trusted_download u)"

lemma downloads_view: "update_view pa' = update_view pa \<Longrightarrow> downloads_ok pa' = downloads_ok pa"
proof -
  have *: "OpenedUrl u \<in> set ss \<longleftrightarrow> OpenedUrl u \<in> set (opened_or_offered ss)" for u ss by (simp add: opened_or_offered_def)
  assume "update_view pa' = update_view pa"
  then have same: "opened_or_offered (ap_signals pa') = opened_or_offered (ap_signals pa)" "ap_latestUpdateUrl pa' = ap_latestUpdateUrl pa"
    by (simp_all add: update_view_def)
  have "OpenedUrl u \<in> set (ap_signals pa') \<longleftrightarrow> OpenedUrl u \<in> set (ap_signals pa)" for u using * same(1) by metis
  then show ?thesis by (simp add: downloads_ok_def same(2))
qed

definition signal_ok :: "update_signal \<Rightarrow> bool" where
  "signal_ok s \<longleftrightarrow> (case s of UpdateAvailable v u \<Rightarrow> trusted_download u | _ \<Rightarrow> True)"

lemma downloads_frames [simp]:
  "downloads_ok (pc_postNotice t ms pa) = downloads_ok pa" "downloads_ok (ap_emit LatestUpdateChanged pa) = downloads_ok pa"
  "downloads_ok (ap_emit (UpdatePromptRequested v u) pa) = downloads_ok pa" "downloads_ok (ap_emit (Requested u v) pa) = downloads_ok pa"
  "downloads_ok (on_settings f pa) = downloads_ok pa" "downloads_ok (pa\<lparr>ap_autoUpdateCheckActive := m\<rparr>) = downloads_ok pa"
  using downloads_view[of "pc_postNotice t ms pa" pa] by (simp_all add: downloads_ok_def ap_emit_def on_settings_def)

lemma downloads_latest:
  "downloads_ok pa \<Longrightarrow> u = no_url \<or> trusted_download u \<Longrightarrow> downloads_ok (pa\<lparr>ap_latestUpdateVersion := v, ap_latestUpdateUrl := u\<rparr>)"
  by (simp add: downloads_ok_def)

lemma update_signal_ok:
  assumes "downloads_ok pa" "signal_ok s"
  shows "downloads_ok (on_update_signal s pa)"
  using assms by (cases s) (simp_all add: Let_def downloads_latest signal_ok_def)

lemma checker_ok:
  assumes "downloads_ok pa" "list_all signal_ok (snd (f (ap_updateChecker pa)))"
  shows "downloads_ok (on_checker f pa)"
proof -
  have fold: "list_all signal_ok ss \<Longrightarrow> downloads_ok pa \<Longrightarrow> downloads_ok (fold on_update_signal ss pa)"
    for ss and pa :: "('a, 'b, 'c) phone_app"
    by (induction ss arbitrary: pa) (simp_all add: update_signal_ok)
  have "downloads_ok (pa\<lparr>ap_updateChecker := uc\<rparr>)" for uc using assms(1) by (simp add: downloads_ok_def)
  then show ?thesis using assms(2) by (auto simp: on_checker_def fold split: prod.split)
qed

lemma check_signals_ok: "list_all signal_ok (snd (uc_check P uc))"
  by (simp add: uc_check_def Let_def signal_ok_def)

lemma reply_signals_ok: "list_all signal_ok (snd (onReplyFinished P r uc))"
proof (cases r)
  case (Inr es)
  have "trusted_download (pf_url (parseAppcast P es))" if "pf_version (parseAppcast P es) \<noteq> []"
    using parseAppcast_best(1,2)[where parseUrl = P and elems = es] that
      candidates_ok[of "pf_version (parseAppcast P es)" "pf_url (parseAppcast P es)" P es]
    by (simp add: trusted_download_def)
  then show ?thesis by (simp add: Inr onReplyFinished_def Let_def signal_ok_def)
qed (simp add: onReplyFinished_def signal_ok_def)

lemma open_ok: "downloads_ok pa \<Longrightarrow> downloads_ok (openLatestUpdateUrl opened pa)"
proof -
  assume ok: "downloads_ok pa"
  then have "downloads_ok (ap_emit (OpenedUrl (ap_latestUpdateUrl pa)) pa)" if "\<not> url_isEmpty (ap_latestUpdateUrl pa)"
    using that by (auto simp: downloads_ok_def ap_emit_def no_url_def)
  then show ?thesis using ok by (simp add: openLatestUpdateUrl_def Let_def)
qed

lemma input_ok:
  assumes "downloads_ok pa"
  shows "downloads_ok (ap_apply B K e P i pa)"
proof -
  have frame: "update_view pa' = update_view pa \<Longrightarrow> downloads_ok pa'" for pa' using downloads_view assms by blast
  have check: "downloads_ok (on_checker (uc_check P) pa')" if "downloads_ok pa'" for pa' :: "('a, 'b, 'c) phone_app"
    using checker_ok[OF that] check_signals_ok by blast
  show ?thesis
    using assms checker_ok[OF assms reply_signals_ok]
    by (cases i) (simp_all add: frame open_ok checkForUpdates_def maybeCheckForUpdatesOnStartup_def skipUpdateVersion_def check)
qed

text \<open>C21. The only thing the program ever opens in the browser for an update is an https address on the release hosts,
  whatever servers answer to its checks, whatever the user does and in any order.\<close>

theorem only_trusted_downloads_opened:
  assumes "ap_latestUpdateUrl pa = no_url" "ap_signals pa = []"
    and "OpenedUrl u \<in> set (ap_signals (fold (ap_apply B K e P) ins pa))"
  shows "isHttpsUrl u \<and> isTrustedDownloadHost u"
proof -
  have run: "downloads_ok pa \<Longrightarrow> downloads_ok (fold (ap_apply B K e P) ins pa)" for pa
    by (induction ins arbitrary: pa) (simp_all add: input_ok)
  have "downloads_ok pa" using assms(1,2) by (simp add: downloads_ok_def)
  from run[OF this] have "downloads_ok (fold (ap_apply B K e P) ins pa)" .
  then show ?thesis using assms(3) by (simp add: downloads_ok_def trusted_download_def)
qed

text \<open>An application for the examples.\<close>

definition example_checker :: update_checker where
  "example_checker = \<lparr>uc_currentVersion = ''1.2'', uc_feedUrl = ''feed'', uc_latestVersion = [], uc_latestUrl = no_url\<rparr>"

definition example_app :: "(fake_backend, memory_keychain, unit) phone_app" where
  "example_app = \<lparr>ap_notice = [], ap_noticeTimer = None, ap_clock = 0, ap_latestUpdateVersion = [], ap_latestUpdateUrl = no_url,
     ap_autoUpdateCheckActive = False, ap_updateChecker = example_checker, ap_dialerUri = [],
     ap_accounts = ac_new FakeB (am_new True fb_new empty_db (\<lambda>_. None)), ap_calls = cc_new (Some (cm_new fb_new)) None None None,
     ap_settings = sc_blank (Some fb_new) (Some (ensureLoaded ok_outcome stored_dnd sm_new)) stored_dnd ''/home'' None, ap_signals = []\<rparr>"

definition example_feed :: "string \<Rightarrow> string + start_element list" where
  "example_feed v = Inr [(''enclosure'', [(''sparkle:version'', v), (''url'', ''https://github.com'')])]"

definition example_cc_env :: "(fake_backend, memory_keychain, fake_backend, unit) cc_env" where
  "example_cc_env = sample_env False False"

theorem only_trusted_downloads_opened_witness:
  "isTrustedDownloadHost (example_url ''https://github.com'')"
proof -
  let ?ins = "[InReply (example_feed ''1.3''), InOpen True]"
  have "OpenedUrl (example_url ''https://github.com'') \<in> set (ap_signals (fold (ap_apply FakeB MemK example_cc_env example_url) ?ins example_app))"
    by code_simp
  from only_trusted_downloads_opened[OF _ _ this] show ?thesis by (simp add: example_app_def)
qed

subsection \<open>A version that was skipped\<close>

definition manual :: "app_input \<Rightarrow> bool" where
  "manual i \<longleftrightarrow> (case i of InCheck q now \<Rightarrow> True | InSkip q v \<Rightarrow> True | _ \<Rightarrow> False)"

definition prompts_for :: "string \<Rightarrow> app_signal list \<Rightarrow> app_signal list" where
  "prompts_for v = filter (\<lambda>s. case s of UpdatePromptRequested w u \<Rightarrow> w = v | _ \<Rightarrow> False)"

definition quiet_about :: "string \<Rightarrow> app_signal list \<Rightarrow> ('b, 'k, 'a) phone_app \<Rightarrow> bool" where
  "quiet_about v ps pa \<longleftrightarrow> ap_autoUpdateCheckActive pa \<and> sc_skippedUpdateVersion (ap_settings pa) = v \<and>
     ps = prompts_for v (ap_signals pa)"

lemma quiet_view: "update_view pa' = update_view pa \<Longrightarrow> quiet_about v n pa' = quiet_about v n pa"
proof -
  have *: "prompts_for v ss = prompts_for v (opened_or_offered ss)" for ss
    unfolding opened_or_offered_def prompts_for_def filter_filter by (rule filter_cong) (auto split: app_signal.split)
  assume "update_view pa' = update_view pa"
  then have same: "opened_or_offered (ap_signals pa') = opened_or_offered (ap_signals pa)" "ap_autoUpdateCheckActive pa' = ap_autoUpdateCheckActive pa"
    "sc_skippedUpdateVersion (ap_settings pa') = sc_skippedUpdateVersion (ap_settings pa)"
    by (simp_all add: update_view_def)
  have "prompts_for v (ap_signals pa') = prompts_for v (ap_signals pa)" using same(1) * by metis
  then show ?thesis by (simp add: quiet_about_def same(2,3))
qed

lemma quiet_frames [simp]:
  "quiet_about v n (pc_postNotice t ms pa) = quiet_about v n pa" "quiet_about v n (ap_emit LatestUpdateChanged pa) = quiet_about v n pa"
  "quiet_about v n (ap_emit (Requested u t) pa) = quiet_about v n pa" "quiet_about v n (ap_emit (OpenedUrl u) pa) = quiet_about v n pa"
  "quiet_about v n (pa\<lparr>ap_latestUpdateVersion := t, ap_latestUpdateUrl := u\<rparr>) = quiet_about v n pa"
  "quiet_about v n (pa\<lparr>ap_updateChecker := uc\<rparr>) = quiet_about v n pa"
  "quiet_about v n (on_settings (setLastUpdateCheckMs q now) pa) = quiet_about v n pa"
  using quiet_view[of "pc_postNotice t ms pa" pa]
  by (simp_all add: quiet_about_def prompts_for_def ap_emit_def on_settings_def setLastUpdateCheckMs_def store_def split: option.split prod.split)

lemma quiet_signal: "v \<noteq> [] \<Longrightarrow> quiet_about v n pa \<Longrightarrow> quiet_about v n (on_update_signal s pa)"
  by (cases s) (auto simp: Let_def quiet_about_def prompts_for_def ap_emit_def)

lemma quiet_checker: "v \<noteq> [] \<Longrightarrow> quiet_about v n pa \<Longrightarrow> quiet_about v n (on_checker f pa)"
proof -
  have fold: "v \<noteq> [] \<Longrightarrow> quiet_about v n pa \<Longrightarrow> quiet_about v n (fold on_update_signal ss pa)" for ss and pa :: "('a, 'b, 'c) phone_app"
    by (induction ss arbitrary: pa) (simp_all add: quiet_signal)
  assume "v \<noteq> []" "quiet_about v n pa"
  then show ?thesis by (simp add: on_checker_def fold split: prod.split)
qed

lemma quiet_input:
  assumes "v \<noteq> []" "quiet_about v n pa" "\<not> manual i"
  shows "quiet_about v n (ap_apply B K e P i pa)"
proof -
  have frame: "update_view pa' = update_view pa \<Longrightarrow> quiet_about v n pa'" for pa' using quiet_view assms(2) by blast
  have "quiet_about v n (pa\<lparr>ap_autoUpdateCheckActive := True\<rparr>)" using assms(2) by (simp add: quiet_about_def)
  then show ?thesis
    using assms
    by (cases i) (simp_all add: frame manual_def quiet_checker maybeCheckForUpdatesOnStartup_def openLatestUpdateUrl_def Let_def)
qed

text \<open>A version the user chose to ignore is not offered by the checks of the program itself: until the user looks
  for updates or ignores another version, no prompt for it is raised, whatever replies arrive and in any order.\<close>

theorem skipped_version_stays_silent:
  assumes "ap_autoUpdateCheckActive pa" "v \<noteq> []" "list_all (\<lambda>i. \<not> manual i) ins"
  shows "prompts_for v (ap_signals (fold (ap_apply B K e P) ins (skipUpdateVersion q v pa))) = prompts_for v (ap_signals pa)"
proof -
  have run: "quiet_about v ps pa \<Longrightarrow> quiet_about v ps (fold (ap_apply B K e P) ins pa)" for ps pa
    using assms(3) by (induction ins arbitrary: pa) (simp_all add: quiet_input[OF assms(2)])
  have "quiet_about v (prompts_for v (ap_signals pa)) (skipUpdateVersion q v pa)"
    using assms(1) by (simp add: quiet_about_def skipUpdateVersion_def on_settings_def setSkippedUpdateVersion_def sc_emit_def store_def
        split: option.split prod.split)
  from run[OF this] show ?thesis by (simp add: quiet_about_def)
qed

theorem skipped_version_stays_silent_witness:
  "prompts_for ''1.3'' (ap_signals (fold (ap_apply FakeB MemK example_cc_env example_url) [InReply (example_feed ''1.3''), InReply (example_feed ''1.4'')]
     (skipUpdateVersion ok_outcome ''1.3'' (example_app\<lparr>ap_autoUpdateCheckActive := True\<rparr>)))) = [] \<and>
   prompts_for ''1.4'' (ap_signals (fold (ap_apply FakeB MemK example_cc_env example_url) [InReply (example_feed ''1.3''), InReply (example_feed ''1.4'')]
     (skipUpdateVersion ok_outcome ''1.3'' (example_app\<lparr>ap_autoUpdateCheckActive := True\<rparr>)))) \<noteq> []"
proof
  have "prompts_for ''1.3'' (ap_signals (example_app\<lparr>ap_autoUpdateCheckActive := True\<rparr>)) = []" by (simp add: prompts_for_def example_app_def)
  then show "prompts_for ''1.3'' (ap_signals (fold (ap_apply FakeB MemK example_cc_env example_url) [InReply (example_feed ''1.3''), InReply (example_feed ''1.4'')]
     (skipUpdateVersion ok_outcome ''1.3'' (example_app\<lparr>ap_autoUpdateCheckActive := True\<rparr>)))) = []"
    by (subst skipped_version_stays_silent) (simp_all add: manual_def)
  show "prompts_for ''1.4'' (ap_signals (fold (ap_apply FakeB MemK example_cc_env example_url) [InReply (example_feed ''1.3''), InReply (example_feed ''1.4'')]
     (skipUpdateVersion ok_outcome ''1.3'' (example_app\<lparr>ap_autoUpdateCheckActive := True\<rparr>)))) \<noteq> []"
    by code_simp
qed

subsection \<open>Checks at the start\<close>

text \<open>The program starts again on the database it left, and every statement works.\<close>

definition full_outcome :: "database \<Rightarrow> sql_outcome" where
  "full_outcome db = \<lparr>so_select = Some (length (t_settings (db_tables db))), so_runs = True\<rparr>"

definition ap_restart ::
  "'b isip_backend \<Rightarrow> 'a iautostart \<Rightarrow> (string \<Rightarrow> bool) \<Rightarrow> ('b, 'k, 'a) phone_app \<Rightarrow> ('b, 'k, 'a) phone_app" where
  "ap_restart B A ex pa =
     (let sc = ap_settings pa
      in pa\<lparr>ap_settings := sc_new B A ex (full_outcome (sc_db sc)) (sc_backend sc) (Some sm_new) (sc_db sc) (sc_appDataPath sc) (sc_autostart sc),
            ap_autoUpdateCheckActive := False, ap_notice := [], ap_noticeTimer := None, ap_latestUpdateVersion := [],
            ap_latestUpdateUrl := no_url\<rparr>)"

text \<open>Starting again and again, at times of the clock that may go back as well: the times at which a check is made.\<close>

fun startup_checks ::
  "'b isip_backend \<Rightarrow> 'a iautostart \<Rightarrow> (string \<Rightarrow> bool) \<Rightarrow> (string \<Rightarrow> qurl) \<Rightarrow> int list \<Rightarrow> ('b, 'k, 'a) phone_app \<Rightarrow> int list" where
  "startup_checks B A ex P [] pa = []"
| "startup_checks B A ex P (t # ts) pa =
     (let pa1 = ap_restart B A ex pa; q = full_outcome (sc_db (ap_settings pa1));
          rest = startup_checks B A ex P ts (maybeCheckForUpdatesOnStartup P q t pa1)
      in if startup_check_due q t (ap_settings pa1) then t # rest else rest)"

text \<open>The time of the last check, as the database has it.\<close>

definition stored_last :: "int \<Rightarrow> ('b, 'a) settings_controller \<Rightarrow> bool" where
  "stored_last n sc \<longleftrightarrow> (\<exists>c. prefs_store sc c \<and> stoll (getd c ''last_update_check_ms'' ''0'') = Some n)"

lemma stoll_nat: "0 \<le> i \<Longrightarrow> i < 2 ^ 63 \<Longrightarrow> stoll (int_to_string i) = Some i"
proof -
  assume i: "0 \<le> i" "i < 2 ^ 63"
  let ?s = "nat_to_string (nat i)"
  obtain c cs where c: "?s = c # cs" by (cases ?s) auto
  with hd_nat_to_string[of "nat i"] have "is_digit c" by simp
  then have "trim_left is_space ?s = ?s" by (auto simp: c trim_left_def is_digit_def is_space_def)
  then show ?thesis
    using i scan_sign_nat_to_string[of "nat i" "[]"] scan_digits_nat_to_string[of "[]" "nat i"]
    by (simp add: stoll_def sto_def int_to_string_def fits_int64_def)
qed

lemma stored_last_read: "stored_last n sc \<Longrightarrow> lastUpdateCheckMs q sc = n"
  by (auto simp: stored_last_def lastUpdateCheckMs_def prefs_store_def sm_getOr_def sm_get_def getd_def split: option.splits)

lemma stored_last_set:
  assumes "stored_last n sc" "so_runs q" "0 \<le> t" "t < 2 ^ 63"
  shows "stored_last t (setLastUpdateCheckMs q t sc)"
proof -
  obtain c where "prefs_store sc c" using assms(1) by (auto simp: stored_last_def)
  have "no_nul ''last_update_check_ms''" by (simp add: no_nul_def code_def)
  from store_keeps[OF \<open>prefs_store sc c\<close> assms(2) this no_nul_int]
  have "prefs_store (setLastUpdateCheckMs q t sc) (c(''last_update_check_ms'' \<mapsto> int_to_string t))"
    by (simp add: setLastUpdateCheckMs_def)
  then show ?thesis using stoll_nat[OF assms(3,4)] by (auto simp: stored_last_def intro!: exI)
qed

lemma sc_new_store:
  "sc_db (sc_new B A ex q b (Some m) db path au) = db"
  "sc_settings (sc_new B A ex q b (Some m) db path au) = Some (ensureLoaded q db m)"
  "sc_autoUpdateCheckEnabled (sc_new B A ex q b (Some m) db path au) = (fst (sm_getOr q ''update_check_on_startup'' ''1'' db m) \<noteq> ''0'')"
  by (cases b; simp add: sc_new_def Let_def sc_blank_def load_prefs_def)+

lemma stored_last_restart:
  assumes "stored_last n (ap_settings pa)"
  shows "stored_last n (ap_settings (ap_restart B A ex pa))"
proof -
  obtain c where c: "prefs_store (ap_settings pa) c" "stoll (getd c ''last_update_check_ms'' ''0'') = Some n"
    using assms by (auto simp: stored_last_def)
  let ?sc = "ap_settings pa"
  have "reads_all (full_outcome (sc_db ?sc)) (sc_db ?sc)" by (simp add: reads_all_def full_outcome_def)
  then have "sm_cache (ensureLoaded (full_outcome (sc_db ?sc)) (sc_db ?sc) sm_new) = map_of (t_settings (db_tables (sc_db ?sc)))"
    "sm_loaded (ensureLoaded (full_outcome (sc_db ?sc)) (sc_db ?sc) sm_new)"
    using ensureLoaded_full c(1) by (auto simp: prefs_store_def)
  then have "prefs_store (ap_settings (ap_restart B A ex pa)) c"
    using c(1) by (simp add: ap_restart_def Let_def prefs_store_def sc_new_store)
  then show ?thesis using c(2) by (auto simp: stored_last_def)
qed

lemma on_update_settings [simp]: "ap_settings (on_update_signal s pa) = ap_settings pa"
  by (cases s) (simp_all add: Let_def ap_emit_def pc_postNotice_def)

lemma update_settings: "ap_settings (fold on_update_signal ss pa) = ap_settings pa"
  by (induction ss arbitrary: pa) simp_all

lemma startup_settings:
  "ap_settings (maybeCheckForUpdatesOnStartup P q t pa) =
     (if startup_check_due q t (ap_settings pa) then setLastUpdateCheckMs q t (ap_settings pa) else ap_settings pa)"
  by (simp add: maybeCheckForUpdatesOnStartup_def on_checker_def update_settings on_settings_def split: prod.split)

lemma startup_checks_after:
  assumes "stored_last n (ap_settings pa)" "list_all (\<lambda>t. 0 < t \<and> t < 2 ^ 63) ts" "0 \<le> n"
  shows "sorted_wrt (\<lambda>a b. a + kThrottleMs \<le> b) (startup_checks B A ex P ts pa) \<and>
    (0 < n \<longrightarrow> (\<forall>t \<in> set (startup_checks B A ex P ts pa). n + kThrottleMs \<le> t))"
  using assms
proof (induction ts arbitrary: pa n)
  case (Cons t ts)
  let ?pa1 = "ap_restart B A ex pa"
  let ?q = "full_outcome (sc_db (ap_settings ?pa1))"
  let ?pa2 = "maybeCheckForUpdatesOnStartup P ?q t ?pa1"
  have t: "0 < t" "t < 2 ^ 63" using Cons.prems(2) by auto
  have one: "stored_last n (ap_settings ?pa1)" by (rule stored_last_restart[OF Cons.prems(1)])
  note last = stored_last_read[OF one]
  show ?case
  proof (cases "startup_check_due ?q t (ap_settings ?pa1)")
    case True
    then have "stored_last t (ap_settings ?pa2)"
      using stored_last_set[OF one _ _ t(2), of ?q] t(1) by (simp add: startup_settings full_outcome_def)
    from Cons.IH[OF this] Cons.prems(2) t(1)
    have IH: "sorted_wrt (\<lambda>a b. a + kThrottleMs \<le> b) (startup_checks B A ex P ts ?pa2)"
      "\<forall>u \<in> set (startup_checks B A ex P ts ?pa2). t + kThrottleMs \<le> u" by auto
    have "0 < n \<longrightarrow> n + kThrottleMs \<le> t" using True last by (auto simp: startup_check_due_def Let_def)
    moreover have "0 < kThrottleMs" by (simp add: kThrottleMs_def)
    ultimately show ?thesis using IH True by (fastforce simp: Let_def)
  next
    case False
    then have "stored_last n (ap_settings ?pa2)" using one by (simp add: startup_settings)
    from Cons.IH[OF this] Cons.prems(2,3) False show ?thesis by (simp add: Let_def)
  qed
qed simp


lemma example_prefs: "prefs_store (ap_settings example_app) [''dnd_enabled'' \<mapsto> ''1'']"
  by (auto simp: example_app_def sc_blank_def prefs_store_def ensureLoaded_def sm_new_def stored_dnd_def ok_outcome_def cache_row_def
      plain_settings_def no_nul_def code_def c_text_def)

lemma example_stored: "stored_last 0 (ap_settings example_app)"
proof -
  note example_prefs
  moreover have "stoll (getd [''dnd_enabled'' \<mapsto> ''1''] ''last_update_check_ms'' ''0'') = Some 0" by code_simp
  ultimately show ?thesis by (auto simp: stored_last_def)
qed

lemma startup_checks_subset: "set (startup_checks B A ex P ts pa) \<subseteq> set ts"
proof (induction ts arbitrary: pa)
  case (Cons t ts)
  then show ?case by (auto simp: Let_def)
qed simp


subsection \<open>Links\<close>

definition no_dispatch :: "('b, 'k, 'a) dispatcher" where
  "no_dispatch = \<lparr>dp_pending = [], dp_posted = [], dp_listener = None\<rparr>"

definition blank :: "string \<Rightarrow> bool" where
  "blank u \<longleftrightarrow> trim_with q_space u = []"

text \<open>Links before the controller exists, then its construction, then links before and after it turns to what it posted.\<close>

definition links ::
  "string list \<Rightarrow> string list \<Rightarrow> string list \<Rightarrow> ('b, 'k, 'a) phone_app \<Rightarrow> ('b, 'k, 'a) phone_app option" where
  "links before meanwhile later pa =
     dp_listener (fold file_open later (run_posted (fold file_open meanwhile
       (wire_controller pa (fold file_open before no_dispatch)))))"

text \<open>What the dialler shows in the end: the last link that is not blank, of those that were kept.\<close>

definition shown_link :: "string list \<Rightarrow> string \<Rightarrow> string" where
  "shown_link us old = (case rev (filter (\<lambda>u. \<not> blank u) us) of [] \<Rightarrow> old | u # _ \<Rightarrow> dial_text (trim_with q_space u))"

definition kept_link :: "string list \<Rightarrow> string list" where
  "kept_link us = (case rev (filter (\<lambda>u. u \<noteq> []) us) of [] \<Rightarrow> [] | u # _ \<Rightarrow> [u])"

lemma blank_Nil [simp]: "blank []"
  by (simp add: blank_def trim_with_def trim_right_def trim_left_def)

lemma file_open_wired: "dp_listener d = Some pa \<Longrightarrow> fold file_open us d = d\<lparr>dp_listener := Some (fold handleUri us pa)\<rparr>"
proof (induction us arbitrary: d pa)
  case (Cons u us)
  have "file_open u d = d\<lparr>dp_listener := Some (handleUri u pa)\<rparr>"
  proof (cases "u = []")
    case True
    have "handleUri [] pa = pa" using blank_Nil by (simp add: handleUri_def Let_def blank_def)
    then show ?thesis using Cons.prems True by (simp add: file_open_def)
  next
    case False
    then show ?thesis using Cons.prems by (simp add: file_open_def)
  qed
  then show ?case using Cons.IH[of "d\<lparr>dp_listener := Some (handleUri u pa)\<rparr>" "handleUri u pa"] by simp
qed simp

lemma file_open_waiting:
  "dp_listener d = None \<Longrightarrow> fold file_open us d = d\<lparr>dp_pending := (case kept_link us of [] \<Rightarrow> dp_pending d | u # _ \<Rightarrow> u)\<rparr>"
proof (induction us rule: rev_induct)
  case (snoc u us)
  then show ?case by (simp add: file_open_def kept_link_def split: list.split)
qed (simp add: kept_link_def)

lemma no_dispatch_fields: "dp_listener no_dispatch = None" "dp_pending no_dispatch = []"
  by (simp_all add: no_dispatch_def)

lemma links_fold: "links before meanwhile later pa = Some (fold handleUri (meanwhile @ kept_link before @ later) pa)"
proof -
  have w: "fold file_open before no_dispatch = no_dispatch\<lparr>dp_pending := (case kept_link before of [] \<Rightarrow> [] | u # _ \<Rightarrow> u)\<rparr>"
    using file_open_waiting[of no_dispatch before, OF no_dispatch_fields(1)] by (simp only: no_dispatch_fields(2))
  have ne: "kept_link before = [] \<or> (\<exists>u. kept_link before = [u] \<and> u \<noteq> [])"
  proof (cases "rev (filter (\<lambda>u. u \<noteq> []) before)")
    case (Cons u us)
    then have "u \<in> set (filter (\<lambda>u. u \<noteq> []) before)" by (metis list.set_intros(1) set_rev)
    then show ?thesis by (simp add: kept_link_def Cons)
  qed (simp add: kept_link_def)
  let ?d = "no_dispatch\<lparr>dp_posted := kept_link before, dp_listener := Some pa\<rparr> :: ('a, 'b, 'c) dispatcher"
  have "wire_controller pa (fold file_open before no_dispatch) = ?d"
    using ne unfolding w by (auto simp: wire_controller_def takePending_def no_dispatch_def)
  moreover have "fold file_open meanwhile ?d = ?d\<lparr>dp_listener := Some (fold handleUri meanwhile pa)\<rparr>"
    by (rule file_open_wired) simp
  moreover have "run_posted (?d\<lparr>dp_listener := Some (fold handleUri meanwhile pa)\<rparr>) =
      no_dispatch\<lparr>dp_listener := Some (fold handleUri (meanwhile @ kept_link before) pa)\<rparr>"
    using ne by (auto simp: run_posted_def no_dispatch_def)
  ultimately show ?thesis
    unfolding links_def by (simp add: file_open_wired[of _ "fold handleUri (meanwhile @ kept_link before) pa"])
qed

definition same_controllers :: "('b, 'k, 'a) phone_app \<Rightarrow> ('b, 'k, 'a) phone_app \<Rightarrow> bool" where
  "same_controllers pa pa' \<longleftrightarrow> ap_accounts pa' = ap_accounts pa \<and> ap_calls pa' = ap_calls pa \<and> ap_settings pa' = ap_settings pa \<and>
     ap_notice pa' = ap_notice pa \<and> ap_latestUpdateUrl pa' = ap_latestUpdateUrl pa"

lemma handleUri_effect:
  "same_controllers pa (handleUri u pa)" "ap_dialerUri (handleUri u pa) = (if blank u then ap_dialerUri pa else dial_text (trim_with q_space u))"
  by (auto simp: same_controllers_def handleUri_def setDialerUri_def ap_emit_def blank_def Let_def)

lemma handle_links:
  "same_controllers pa (fold handleUri us pa) \<and> ap_dialerUri (fold handleUri us pa) = shown_link us (ap_dialerUri pa)"
proof (induction us rule: rev_induct)
  case (snoc u us)
  then show ?case
    using handleUri_effect[where pa = "fold handleUri us pa" and u = u] by (simp add: same_controllers_def shown_link_def)
qed (simp add: same_controllers_def shown_link_def)

text \<open>C23. A link from a web page or a document never places a call and changes nothing but the dialler's text: of all
  links, before the program was up, while it came up and after, the dialler ends with the last one that is not
  blank, where of those from before the start only the last counts, and that one counts as later than those
  that came while the program was starting.\<close>

theorem links_only_prefill:
  "\<exists>pa'. links before meanwhile later pa = Some pa' \<and> same_controllers pa pa' \<and>
     ap_dialerUri pa' = shown_link (meanwhile @ kept_link before @ later) (ap_dialerUri pa)"
  using handle_links[of pa "meanwhile @ kept_link before @ later"] by (auto simp: links_fold)

text \<open>The order is surprising: a link opened while the program starts is replaced by the one that started it.\<close>

lemma older_link_wins:
  "map_option ap_dialerUri (links [''tel:111''] [''tel:222''] [] pa) = Some ''111''"
proof -
  have "shown_link [''tel:222'', ''tel:111''] old = ''111''" for old by code_simp
  then show ?thesis using handle_links[of pa "[''tel:222'', ''tel:111'']"] by (simp add: links_fold kept_link_def)
qed

subsection \<open>The boot configuration in both programs\<close>

lemma accountSnapshot_names:
  assumes "am_find i am = Some x"
  shows "param_string (accountSnapshot i am) ''username'' = acc_username x" "param_string (accountSnapshot i am) ''domain'' = acc_domain x"
  using assms by (simp_all add: accountSnapshot_def param_string_def snapshot_fields_def)

lemma find_map_ids:
  assumes "\<And>x. x \<in> set xs \<Longrightarrow> Q (f x) = R x"
  shows "(case find Q (map f xs) of Some i \<Rightarrow> i | None \<Rightarrow> d) = (case find R xs of Some x \<Rightarrow> f x | None \<Rightarrow> d)"
  using assms by (induction xs) auto

text \<open>The list model shows the accounts there are.\<close>

definition shows_all :: "('b, 'k) accounts_controller \<Rightarrow> bool" where
  "shows_all ac \<longleftrightarrow> mo_snapshot (ac_model ac) = am_list (ac_accounts ac)"

lemma boot_existing_same:
  assumes "shows_all ac" "valid_ids (ac_accounts ac)"
  shows "boot_existing a ac = findExistingAccount a (ac_accounts ac)"
proof -
  have "am_find (acc_id x) (ac_accounts ac) = Some x" if "x \<in> set (am_list (ac_accounts ac))" for x
    using find_acc_id[of "am_list (ac_accounts ac)" x] that assms(2) by (simp add: valid_ids_def am_find_list)
  then show ?thesis
    using assms(1) unfolding boot_existing_def findExistingAccount_def Let_def shows_all_def kInvalidAccountId_def
    by (simp add: accountSnapshot_names find_map_ids[where R = "\<lambda>x. acc_username x = _ \<and> acc_domain x = _"])
qed

lemma shows_all_frames [simp]:
  "shows_all (refreshModel ac)" "shows_all (ac_emit s ac) = shows_all ac" "shows_all (refreshRegisteredAccountCount ac) = shows_all ac"
  "shows_all (pushNetworkAndCodecSettings B ac) = shows_all ac"
  by (simp_all add: shows_all_def refreshModel_def accounts_refresh_def ac_emit_def refreshRegisteredAccountCount_def
      pushNetworkAndCodecSettings_def Let_def)

lemma failed_update_shows:
  assumes "AccountsControl.on_manager (am_update B K f a) ac = (False, ac1)" "shows_all ac"
  shows "shows_all ac1"
proof -
  have "am_list am1 = am_list am" if "am_update B K f a am = (False, am1)" for am am1
    using that by (auto simp: am_update_def Let_def am_list_def split: option.splits prod.splits bool.splits)
  from this[of "(ac_accounts ac)\<lparr>am_signals := []\<rparr>"] show ?thesis
    using assms by (auto simp: AccountsControl.on_manager_def Let_def shows_all_def split: prod.splits)
qed

lemma applyAccount_shows: "shows_all ac \<Longrightarrow> shows_all (applyAccount B K r env a ac)"
proof -
  assume "shows_all ac"
  moreover have "shows_all (snd (addAccount B K f g ref p ac))" for f g ref p
    by (simp add: addAccount_def Let_def split: prod.split)
  ultimately show ?thesis
    using failed_update_shows
    by (auto simp: applyAccount_def updateAccount_def Let_def split: prod.split option.split bool.split)
qed

context accounts_ui begin

lemma boot_accounts_same:
  "inv ac \<Longrightarrow> shows_all ac \<Longrightarrow> boot_fresh B K envs as ac \<Longrightarrow>
   boot_accounts B K True envs as ac = applyAccounts B K True envs as ac"
proof (induction as arbitrary: envs ac)
  case (Cons a as)
  show ?case
  proof (cases envs)
    case (Cons env envs')
    obtain f g ref where env: "env = (f, g, ref)" by (cases env)
    have ok: "am_ok ok accts K kok (ac_accounts ac)" using Cons.prems(1) by (simp add: inv_def)
    have "1 \<le> acc_id x" if "x \<in> set (am_list (ac_accounts ac))" for x
      using ok that by (auto simp: am_ok_def rows_ok_def db_ok_def Let_def)
    moreover have "x \<in> set (am_list (ac_accounts ac))" if "find Q (am_list (ac_accounts ac)) = Some x" for Q x
      using that by (auto simp: find_Some_iff)
    ultimately have pos: "find Q (am_list (ac_accounts ac)) = Some x \<Longrightarrow> 1 \<le> acc_id x" for Q x by blast
    have "findExistingAccount a (ac_accounts ac) > 0 \<longleftrightarrow> findExistingAccount a (ac_accounts ac) \<noteq> kInvalidAccountId"
      by (auto simp: findExistingAccount_def Let_def kInvalidAccountId_def dest!: pos split: option.split)
    then have "boot_accounts B K True (env # envs') (a # as) ac = boot_accounts B K True envs' as (applyAccount B K True env a ac)"
      using boot_existing_same[OF Cons.prems(2) am_ok_valid_ids[OF ok]] by (simp add: env applyAccount_def Let_def)
    moreover have "boot_accounts B K True envs' as (applyAccount B K True env a ac) = applyAccounts B K True envs' as (applyAccount B K True env a ac)"
      using Cons.prems Cons by (intro Cons.IH applyAccount_inv applyAccount_shows) simp_all
    ultimately show ?thesis by (simp add: Cons)
  qed simp
qed simp

end

lemma boot_accounts_append_only: "boot_accounts B K False envs as ac = applyAccounts B K False envs as ac"
proof (induction as arbitrary: envs ac)
  case (Cons a as)
  show ?case
  proof (cases envs)
    case (Cons env envs')
    obtain f g ref where "env = (f, g, ref)" by (cases env)
    then show ?thesis using Cons.IH by (simp add: Cons applyAccount_def Let_def)
  qed simp
qed simp

text \<open>C37. The program with a window and the one without apply a boot configuration alike: the loop of main.cpp over the
  rows of the list model and the snapshots of the controller does to the accounts what headless_main.cpp does
  with the manager's own list, whichever statements fail.\<close>

theorem boot_programs_agree:
  assumes "am_start_ok b db kc mops" "boot_fresh FakeB MemK envs as (ui_start b db kc mops)"
  shows "boot_accounts FakeB MemK replace envs as (ui_start b db kc mops) =
    applyAccounts FakeB MemK replace envs as (ui_start b db kc mops)"
proof (cases replace)
  case True
  have "shows_all (ac_new FakeB am)" for am :: "(fake_backend, memory_keychain) accounts_manager"
    unfolding ac_new_def by (simp add: shows_all_def accounts_model_new_def accounts_refresh_def)
  then show ?thesis
    using True fake_ui.boot_accounts_same[OF ui_start_inv[OF assms(1)] _ assms(2)] by (simp add: ui_start_def)
qed (simp add: boot_accounts_append_only)

theorem boot_programs_agree_witness:
  "boot_accounts FakeB MemK True [(\<lambda>_. True, \<lambda>_. True, ''r2'')] [example_boot] example_ui =
   applyAccounts FakeB MemK True [(\<lambda>_. True, \<lambda>_. True, ''r2'')] [example_boot] example_ui"
proof -
  have "am_passwordCache (ac_accounts example_ui) ''r2'' = None" by code_simp
  then show ?thesis unfolding example_ui_def by (intro boot_programs_agree[OF example_start_ok]) simp
qed

subsection \<open>Notices and the network\<close>

text \<open>A notice is shown for its own time, whatever was left of the one before: not dismissed a moment before, gone then.\<close>

lemma notice_lifetime:
  assumes "0 < ms" "list_all (\<lambda>d. 0 \<le> d) ds"
  shows "ap_notice (fold ap_elapse ds (pc_postNotice t ms pa)) = (if sum_list ds < ms then t else [])"
proof -
  have gone: "ap_notice pa = [] \<Longrightarrow> ap_notice (fold ap_elapse ds pa) = []" for ds and pa :: "('a, 'b, 'c) phone_app"
    by (induction ds arbitrary: pa) (simp_all add: ap_elapse_def dismissNotice_def Let_def split: option.split)
  have "ap_notice (fold ap_elapse ds pa) = (if sum_list ds < m then ap_notice pa else [])"
    if "list_all (\<lambda>d. 0 \<le> d) ds" "ap_noticeTimer pa = Some (ap_clock pa + m)" "0 < m" for m and pa :: "('a, 'b, 'c) phone_app"
    using that
  proof (induction ds arbitrary: pa m)
    case (Cons d ds)
    have rest: "0 \<le> sum_list ds" using Cons.prems(1) by (simp add: list_all_iff sum_list_nonneg)
    show ?case
    proof (cases "d < m")
      case True
      then have "ap_elapse d pa = pa\<lparr>ap_clock := ap_clock pa + d\<rparr>" using Cons.prems(2) by (simp add: ap_elapse_def Let_def)
      then show ?thesis using Cons.IH[of "ap_elapse d pa" "m - d"] Cons.prems True by auto
    next
      case False
      then have "ap_notice (ap_elapse d pa) = []" using Cons.prems(2) by (auto simp: ap_elapse_def dismissNotice_def Let_def ap_emit_def)
      then show ?thesis using gone False rest by simp
    qed
  qed simp
  from this[OF assms(2), of "pc_postNotice t ms pa" ms] assms(1) show ?thesis
    by (simp add: pc_postNotice_def ap_emit_def Let_def)
qed

text \<open>What the monitor reports about reachability alternates: lost after back, back after lost.\<close>

fun reach_actions :: "bool \<Rightarrow> reachability list \<Rightarrow> network_action list" where
  "reach_actions online [] = []"
| "reach_actions online (r # rs) =
     (case decideReachabilityChange online r of (a, online') \<Rightarrow>
        if a = NaNone then reach_actions online' rs else a # reach_actions online' rs)"

fun alternates :: "bool \<Rightarrow> network_action list \<Rightarrow> bool" where
  "alternates online [] = True"
| "alternates online (a # as) = (a = (if online then EmitLost else EmitBack) \<and> alternates (\<not> online) as)"

lemma reachability_alternates: "alternates online (reach_actions online rs)"
  by (induction rs arbitrary: online) (auto simp: decideReachabilityChange_def Let_def)

end
