(* ===== verification/Spec2Isabelle.thy ===== *)
theory Spec2Isabelle imports SipUri Notify Versions History Settings PhoneCore CallsControl Messages Lines Contacts Migrations BootProps ProvisionProps PjsipClaims KeychainFile HeadlessProps PhoneAppProps begin

text \<open>
  A verification library for CompactPhone, a SIP softphone in C++ (sources under \<open>src/src/\<close>).

  The program.  A stack-neutral core keeps accounts and calls; it talks to a SIP stack through the
  interface \<open>ISipBackend\<close> and hears back through queued listener events.  \<open>AccountsManager\<close> keeps the
  accounts, their rows in an SQLite database, their passwords in a keychain and their registrations;
  \<open>CallManager\<close> keeps the calls and their policies; \<open>ListenerFanout\<close> hands each event to the accounts
  first and then to the calls; both run on one thread and share one backend.  Around them are
  parsers for untrusted text and an update checker.

  The theories, in dependency order:
    \<^item> \<open>Prelude\<close>: association lists in key order for \<open>std::map\<close>; \<open>CStrings\<close>: the string routines of the
      C++ and Qt libraries that the program uses.
    \<^item> \<open>SipTypes\<close>: the value types, and \<open>ISipBackend\<close> and \<open>IKeychain\<close> as records of functions.
    \<^item> \<open>SipUri\<close> (\<open>core/SipUri.cpp\<close>), \<open>Notify\<close> (\<open>sipbackend/pjsip/MwiSummary.cpp\<close>, \<open>RemoteInfo.cpp\<close>) and
      \<open>Versions\<close> (\<open>core/UpdateChecker.cpp\<close>): pure functions over strings, their safety, round trips and
      equivalence with simpler references.
    \<^item> \<open>Dispatch\<close> (\<open>sipbackend/EventDispatch\<close>): the event queue with its 64-bit epoch.
    \<^item> \<open>BackendIf\<close>: the contracts of the backend (\<open>call_backend\<close>, \<open>account_backend\<close>, \<open>sip_backend\<close>) and
      of the keychain as locales; \<open>FakeBackend\<close> (\<open>sipbackend/fake\<close>, \<open>Keychain_memory.cpp\<close>): the
      implementations the repository tests with, each an interpretation of its contract.
    \<^item> \<open>Database\<close> (\<open>persistence/\<close>): tables as rows by rowid, constraints, transactions.
    \<^item> \<open>Accounts\<close>, \<open>AccountsInv\<close>, \<open>AccountsProps\<close> (\<open>core/AccountsManager\<close>): model, invariant over any
      backend and keychain that keep their contracts, properties of each operation.
    \<^item> \<open>Calls\<close>, \<open>CallsInv\<close>, \<open>CallsProps\<close> (\<open>core/CallManager\<close>, \<open>core/TransferTracker.h\<close>): the same for calls.
    \<^item> \<open>CoreSystem\<close> (\<open>core/CoreSipGraph\<close>, \<open>sipbackend/ListenerFanout.h\<close>): both managers on one backend, and the
      locale \<open>core_env\<close> with the invariant of the whole, kept by every kind of step.  \<open>PhoneCore\<close>: the step
      relation on the fake backend and what its reachable states satisfy.
    \<^item> \<open>SipEngine\<close>, \<open>Pjsip\<close> (\<open>sipbackend/pjsip/\<close>): the adapter that ships.  PJSIP is a table of functions over a
      state of any type; every command of the adapter and every callback is a definition over it.
      \<open>PjsipProps\<close> and \<open>PjsipMedia\<close>: it keeps the contracts of the backend and of presence, for every PJSIP.
      \<open>PjsipCore\<close>: the core on it, with PJSIP changing its state between any two steps; \<open>PjsipClaims\<close>: what
      follows, and codec priorities, TLS transports, the ringtone and the quality estimate.
    \<^item> \<open>Migrations\<close> (\<open>persistence/Database.cpp\<close>): opening the database file and bringing it to the newest
      schema; what a failure or a crash at any statement leaves behind.
    \<^item> \<open>Queries\<close>: SELECT with ORDER BY and LIMIT over tables, which may break off half way; \<open>RowModel\<close>: the
      incremental refresh that the list models share, with the notifications a view follows.
    \<^item> \<open>History\<close> (\<open>core/CallSessionTracker\<close>, \<open>core/HistoryManager\<close>): call sessions, the call log and its
      retention.  \<open>Settings\<close> (\<open>core/SettingsManager\<close>, \<open>core/SettingsController\<close>): the store with its cache and
      the preferences, ringtone state included.
    \<^item> \<open>CallsControl\<close> (\<open>core/CallsController\<close>): reactions to incoming calls, dialling, timers.  \<open>CallsModel\<close>
      (\<open>models/CallsModel\<close>): the list of calls on the screen.
    \<^item> \<open>Messages\<close> (\<open>core/MessagesManager\<close>, \<open>MessagesController\<close>, \<open>models/MessagesModel\<close>, \<open>ConversationsModel\<close>):
      storing and reading messages, and the two lists as they follow the table.
    \<^item> \<open>Lines\<close> (\<open>core/LinesManager\<close>, \<open>LinesController\<close>, \<open>models/LinesModel\<close>): watched lines over any backend
      that keeps the contract \<open>presence_backend\<close>.
    \<^item> \<open>AccountsControl\<close> (\<open>core/AccountsController\<close>, \<open>models/AccountsModel\<close>) and \<open>AccountsView\<close>: dialogs, the account
      list, the registered count, the settings pushed to the backend, and when the display falls behind.
    \<^item> \<open>BootConfig\<close> (\<open>core/BootConfig_file.cpp\<close>, \<open>BootConfig_parser.cpp\<close>, \<open>BootConfig_secrets.cpp\<close>, the accounts
      of \<open>headless_main.cpp\<close>) and \<open>BootProps\<close>: the layers of the boot configuration and applying it.
    \<^item> \<open>Provisioning\<close>, \<open>ProvisionControl\<close> (\<open>core/provisioning/\<close>, \<open>core/ProvisioningController\<close>) and \<open>ProvisionProps\<close>:
      signing in at a telephone exchange as a conversation of HTTP requests and replies, and the accounts made of it.
    \<^item> \<open>KeychainFile\<close> (\<open>core/platform/Keychain_file.cpp\<close>, \<open>Keychain_factory.cpp\<close>): the encrypted file of passwords, an
      interpretation of the contract of the keychain; what is on disk after any failures and what a restart finds.
    \<^item> \<open>Headless\<close>, \<open>HeadlessProps\<close> (\<open>headless_main.cpp\<close>): the program without a window as a step relation on the core
      and the PJSIP adapter: the invariant of the core, its exit codes, and that waiting for media ends.
    \<^item> \<open>PhoneApp\<close>, \<open>PhoneAppProps\<close> (\<open>core/PhoneController.cpp\<close>, \<open>core/UrlDispatcher.cpp\<close>, \<open>core/NetworkMonitor.cpp\<close>,
      \<open>applyBootConfig\<close> of \<open>main.cpp\<close>): notices, update prompts, links from outside, changes of the network, and that
      both programs apply a boot configuration alike.
    \<^item> \<open>ContactImport\<close> (\<open>core/ContactImporter.cpp\<close>): vCard and CSV files; \<open>Contacts\<close> (\<open>core/ContactsManager\<close>,
      \<open>ContactsController\<close>, \<open>models/ContactsModel\<close>): the address book as a finite map, and the import.

  Conventions.  A class is a record of its members, an operation a function from the state to its
  result and the new state.  Pointers to a shared backend are fields, written back after every
  step.  Signals are appended to a log.  A timer started with \<open>QTimer::singleShot\<close> is a pending action;
  the environment fires any pending action at any time.  The outcome of each SQL statement and of
  each keychain call is an argument or the provider's choice, so that every error path is a branch.
  An iteration over an unordered map takes an arbitrary permutation of the keys.  Identifiers are
  counters that start at 1 and are modelled as integers without the 32-bit bound.  Strings are byte
  strings.

  Bounds and fuel.  No definition uses fuel; loops are structural or come with a measure.  The
  number of retry timers that can still fire is bounded by \<open>timer_load\<close>, and in the program without a window by \<open>hl_load\<close>.

  Parameters.  What is not in the repository is an argument: PJSIP (the table \<open>pjsua\<close>), Qt's URL and JSON routines,
  SQLite's outcome of each statement, OpenSSL and random bytes,
  the outcome of file operations, the replies of servers, the certificate store of the machine.

  Not modelled: the order in which \<open>core/PhoneController\<close> builds, connects and destroys its parts, its methods that
  only pass a call on and the diagnostics file it writes; the main functions; tray, activation, power monitor and
  QML; the credential stores of Windows and macOS and start at login; logging; the history list model.
\<close>

end
